(* ===== verification/Ops_Prelude.thy ===== *)
theory Ops_Prelude
  imports Complex_Main "HOL-Library.AList"
begin

section \<open>Shared types, list operations and the operation-history interface\<close>

text \<open>
  What every component of the development uses: the types that stand for the
  program's timestamps and identifiers, the list operations the TypeScript code
  writes with array methods (\<open>find\<close>, \<open>map\<close> with a replacement, stable
  \<open>sort\<close>, \<open>slice\<close>), results as values of a sum type, and the locale
  \<open>op_system\<close>, the interface of every persisted component: a set of operations
  that each keep an invariant, from which the invariant holds after any history
  of operations, failed ones included.

  A timestamp of the program is an ISO string; the code only creates it from
  a \<open>Date\<close>, reads it back to milliseconds, or compares two of them.  It is
  modelled by the instant it denotes, in milliseconds, as an \<open>int\<close>.
  Identifiers (\<open>randomUUID\<close>) are strings; operations that draw fresh ones take
  the supply as an argument.
\<close>

type_synonym instant = int
type_synonym uuid = string

named_theorems ops_simps \<open>unfolding of the list operations shared by the components\<close>

subsection \<open>Replacing and finding by key\<close>

definition replace_by :: "('a \<Rightarrow> 'k) \<Rightarrow> 'a list \<Rightarrow> 'a \<Rightarrow> 'a list" where
  "replace_by k xs v = map (\<lambda>c. if k c = k v then v else c) xs"

lemma length_replace_by [simp]: "length (replace_by k xs v) = length xs"
  by (simp add: replace_by_def)

lemma map_key_replace_by [simp]: "map k (replace_by k xs v) = map k xs"
  by (simp add: replace_by_def)

lemma set_replace_by_subset: "set (replace_by k xs v) \<subseteq> insert v (set xs)"
  by (auto simp: replace_by_def)

lemma set_replace_by:
  "set (replace_by k xs v) =
     {c \<in> set xs. k c \<noteq> k v} \<union> (if k v \<in> k ` set xs then {v} else {})"
  by (auto simp: replace_by_def image_iff)

lemma replace_by_absent: "k v \<notin> k ` set xs \<Longrightarrow> replace_by k xs v = xs"
  unfolding replace_by_def by (induction xs) auto

lemma find_Some_in: "List.find P xs = Some x \<Longrightarrow> x \<in> set xs \<and> P x"
  by (auto simp: find_Some_iff)

lemma find_None_all: "List.find P xs = None \<Longrightarrow> x \<in> set xs \<Longrightarrow> \<not> P x"
  by (auto simp: find_None_iff)

lemma find_key_distinct:
  assumes "distinct (map k xs)" "x \<in> set xs"
  shows "List.find (\<lambda>c. k c = k x) xs = Some x"
  using assms by (induction xs) (auto simp: image_iff)

lemma distinct_key_inj:
  "distinct (map k xs) \<Longrightarrow> x \<in> set xs \<Longrightarrow> y \<in> set xs \<Longrightarrow> k x = k y \<Longrightarrow> x = y"
  by (simp add: distinct_map inj_on_def)

lemma find_replace_by_same:
  assumes "List.find (\<lambda>c. k c = k v) xs \<noteq> None"
  shows "List.find (\<lambda>c. k c = k v) (replace_by k xs v) = Some v"
  using assms unfolding replace_by_def by (induction xs) (auto split: if_splits)

lemma find_replace_by_other:
  assumes "i \<noteq> k v"
  shows "List.find (\<lambda>c. k c = i) (replace_by k xs v) = List.find (\<lambda>c. k c = i) xs"
  using assms unfolding replace_by_def by (induction xs) auto

subsection \<open>Stable sorting and slices\<close>

text \<open>
  \<open>Array.prototype.sort\<close> is stable; \<open>sort_key\<close> is the stable sort by a key.
\<close>

lemma length_filter_take_le: "length (filter P (take n xs)) \<le> n"
  by (metis length_filter_le length_take min.bounded_iff)

lemma distinct_take_map: "distinct (map f xs) \<Longrightarrow> distinct (map f (take n xs))"
  by (metis distinct_take take_map)

lemma distinct_map_sort_key [simp]:
  "distinct (map f (sort_key g xs)) = distinct (map f xs)"
  by (metis distinct_map distinct_sort set_sort)

lemma in_set_takeD': "x \<in> set (take n xs) \<Longrightarrow> x \<in> set xs"
  by (rule in_set_takeD)

subsection \<open>Results\<close>

text \<open>A raise, a rejected promise or an early error return is \<open>Inl\<close>.\<close>

fun result_value :: "'e + 'a \<Rightarrow> 'a option" where
  "result_value (Inl e) = None"
| "result_value (Inr a) = Some a"

fun is_ok :: "'e + 'a \<Rightarrow> bool" where
  "is_ok (Inl e) = False"
| "is_ok (Inr a) = True"

lemma is_ok_iff: "is_ok r = (\<exists>a. r = Inr a)"
  by (cases r) auto

subsection \<open>Strings\<close>

text \<open>
  A \<open>char\<close> is one Latin-1 code unit of a JavaScript string.
\<close>

definition char_lower :: "char \<Rightarrow> char" where
  "char_lower c =
     (let n = (of_char c :: nat)
      in if (65 \<le> n \<and> n \<le> 90) \<or> (192 \<le> n \<and> n \<le> 222 \<and> n \<noteq> 215) then char_of (n + 32) else c)"

definition toLowerCase :: "string \<Rightarrow> string" where
  "toLowerCase s = map char_lower s"

definition js_space :: "char \<Rightarrow> bool" where
  "js_space c = ((of_char c :: nat) \<in> {9, 10, 11, 12, 13, 32, 160})"

definition trim :: "string \<Rightarrow> string" where
  "trim s = rev (dropWhile js_space (rev (dropWhile js_space s)))"

definition startsWith :: "string \<Rightarrow> string \<Rightarrow> bool" where
  "startsWith s p = (take (length p) s = p)"

definition endsWith :: "string \<Rightarrow> string \<Rightarrow> bool" where
  "endsWith s p = startsWith (rev s) (rev p)"

fun str_includes :: "string \<Rightarrow> string \<Rightarrow> bool" where
  "str_includes [] p = (p = [])"
| "str_includes (c # cs) p = (startsWith (c # cs) p \<or> str_includes cs p)"

fun join :: "string \<Rightarrow> string list \<Rightarrow> string" where
  "join sep [] = []"
| "join sep [x] = x"
| "join sep (x # y # xs) = x @ sep @ join sep (y # xs)"

fun nat_text :: "nat \<Rightarrow> string" where
  "nat_text n = (if n < 10 then [char_of (48 + n)] else nat_text (n div 10) @ [char_of (48 + n mod 10)])"

declare nat_text.simps [simp del]

definition int_text :: "int \<Rightarrow> string" where
  "int_text i = (if i < 0 then CHR ''-'' # nat_text (nat (- i)) else nat_text (nat i))"

definition quoted :: "string \<Rightarrow> string" where
  "quoted s = CHR 0x27 # s @ [CHR 0x27]"

definition is_alnum :: "char \<Rightarrow> bool" where
  "is_alnum c =
     (let n = (of_char c :: nat)
      in (48 \<le> n \<and> n \<le> 57) \<or> (65 \<le> n \<and> n \<le> 90) \<or> (97 \<le> n \<and> n \<le> 122))"

lemma length_toLowerCase [simp]: "length (toLowerCase s) = length s"
  by (simp add: toLowerCase_def)

text \<open>Decimal text reads back, so it is injective.\<close>

definition nat_value :: "string \<Rightarrow> nat" where
  "nat_value s = foldl (\<lambda>a c. 10 * a + (of_char c - 48)) 0 s"

lemma digit_char: "n < 10 \<Longrightarrow> of_char (char_of (48 + n) :: char) = 48 + (n :: nat)"
  by simp

lemma nat_value_text: "nat_value (nat_text n) = n"
proof (induction n rule: nat_text.induct)
  case (1 n)
  show ?case
  proof (cases "n < 10")
    case True
    then show ?thesis by (simp add: nat_text.simps [of n] nat_value_def)
  next
    case False
    then show ?thesis using 1 by (simp add: nat_text.simps [of n] nat_value_def)
  qed
qed

lemma nat_text_digits: "c \<in> set (nat_text n) \<Longrightarrow> 48 \<le> (of_char c :: nat) \<and> (of_char c :: nat) \<le> 57"
proof (induction n rule: nat_text.induct)
  case (1 n)
  have "n mod 10 < 10" by simp
  then show ?case
    using 1 by (cases "n < 10") (auto simp: nat_text.simps [of n])
qed

lemma int_text_positive: "0 < i \<Longrightarrow> int_text i = nat_text (nat i)"
  by (simp add: int_text_def)

lemma int_text_inj: "0 < i \<Longrightarrow> 0 < j \<Longrightarrow> int_text i = int_text j \<Longrightarrow> i = j"
  by (metis int_text_positive nat_value_text nat_eq_iff2 less_imp_le)

lemma int_text_injective: "int_text i = int_text j \<Longrightarrow> i = j"
proof -
  assume eq: "int_text i = int_text j"
  have "CHR ''-'' \<notin> set (nat_text n)" for n using nat_text_digits [of "CHR ''-''" n] by auto
  then have "CHR ''-'' # xs \<noteq> nat_text n" "nat_text n \<noteq> CHR ''-'' # xs" for n xs by (metis list.set_intros(1))+
  then have "i < 0 \<longleftrightarrow> j < 0" using eq unfolding int_text_def by (metis (full_types))
  moreover have "nat_text m = nat_text n \<longleftrightarrow> m = n" for m n by (metis nat_value_text)
  ultimately show "i = j" using eq by (auto simp: int_text_def split: if_splits)
qed

text \<open>\<open>split\<close> at a one-character separator: never empty, and \<open>join\<close> undoes it.\<close>

fun split_at :: "char \<Rightarrow> string \<Rightarrow> string list" where
  "split_at sep [] = [[]]"
| "split_at sep (c # cs) =
     (if c = sep then [] # split_at sep cs
      else case split_at sep cs of [] \<Rightarrow> [[c]] | w # ws \<Rightarrow> (c # w) # ws)"

lemma split_at_nonempty: "split_at c s \<noteq> []"
  by (induction s) (auto split: list.splits)

lemma split_at_plain: "c \<notin> set w \<Longrightarrow> split_at c w = [w]"
  by (induction w) auto

lemma split_at_append: "c \<notin> set w \<Longrightarrow> split_at c (w @ c # s) = w # split_at c s"
  by (induction w) auto

lemma split_at_join: "ws \<noteq> [] \<Longrightarrow> \<forall>w \<in> set ws. c \<notin> set w \<Longrightarrow> split_at c (join [c] ws) = ws"
  by (induction "[c]" ws rule: join.induct) (simp_all add: split_at_plain split_at_append)

lemma dropWhile_id: "xs = [] \<or> \<not> P (hd xs) \<Longrightarrow> dropWhile P xs = xs"
  by (cases xs) auto

lemma dropWhile_hd: "dropWhile P xs = [] \<or> \<not> P (hd (dropWhile P xs))"
  by (induction xs) auto

lemma trim_left: "trim s = [] \<or> \<not> js_space (hd (trim s))"
proof -
  define t where "t = dropWhile js_space s"
  have t: "t = [] \<or> \<not> js_space (hd t)"
    using dropWhile_hd [of js_space s] by (simp add: t_def)
  have "rev (dropWhile js_space (rev t)) = [] \<or> hd (rev (dropWhile js_space (rev t))) = hd t"
  proof -
    obtain u where "rev t = u @ dropWhile js_space (rev t)"
      by (metis takeWhile_dropWhile_id)
    then have "t = rev (dropWhile js_space (rev t)) @ rev u" by (metis rev_append rev_rev_ident)
    then show ?thesis by (metis hd_append)
  qed
  moreover have "t \<noteq> []" if "trim s \<noteq> []"
    using that by (auto simp: trim_def t_def dest: set_dropWhileD)
  ultimately have "trim s = [] \<or> (t \<noteq> [] \<and> hd (trim s) = hd t)"
    by (auto simp: trim_def t_def)
  then show ?thesis using t by auto
qed

lemma trim_right: "trim s = [] \<or> \<not> js_space (last (trim s))"
  using dropWhile_hd [of js_space "rev (dropWhile js_space s)"]
  by (auto simp: trim_def last_rev)

lemma trim_idem [simp]: "trim (trim s) = trim s"
proof (cases "trim s = []")
  case True
  then show ?thesis by (simp only:) (simp add: trim_def)
next
  case False
  then have "dropWhile js_space (trim s) = trim s"
    using trim_left [of s] by (intro dropWhile_id) simp
  moreover have "dropWhile js_space (rev (trim s)) = rev (trim s)"
    using False trim_right [of s] by (intro dropWhile_id) (simp add: hd_rev)
  ultimately show ?thesis by (subst trim_def) simp
qed

lemma set_trim_subset: "set (trim s) \<subseteq> set s"
  by (auto simp: trim_def dest!: set_dropWhileD)

lemma trim_nonempty: "c \<in> set s \<Longrightarrow> \<not> js_space c \<Longrightarrow> c \<in> set (trim s)"
proof -
  assume c: "c \<in> set s" "\<not> js_space c"
  have keep: "c \<in> set (dropWhile js_space xs)" if "c \<in> set xs" for xs
    using that c(2) by (induction xs) auto
  show ?thesis using keep [of s] keep [of "rev (dropWhile js_space s)"] c(1) by (simp add: trim_def)
qed

lemma length_trim: "length (trim s) \<le> length s"
  unfolding trim_def
  by (metis length_dropWhile_le length_rev order_trans)

text \<open>\<open>findIndex\<close>: \<open>None\<close> for the source's \<open>-1\<close>.\<close>

fun findIndex :: "('a \<Rightarrow> bool) \<Rightarrow> 'a list \<Rightarrow> nat option" where
  "findIndex P [] = None"
| "findIndex P (x # xs) = (if P x then Some 0 else map_option Suc (findIndex P xs))"

lemma findIndex_SomeD: "findIndex P xs = Some i \<Longrightarrow> i < length xs \<and> P (xs ! i) \<and> (\<forall>j < i. \<not> P (xs ! j))"
proof (induction xs arbitrary: i)
  case (Cons x xs)
  then show ?case by (auto split: if_splits simp: nth_Cons split: nat.split)
qed simp

lemma findIndex_NoneD: "findIndex P xs = None \<Longrightarrow> x \<in> set xs \<Longrightarrow> \<not> P x"
  by (induction xs) (auto split: if_splits)

lemma findIndex_nth:
  assumes "i < length xs" "P (xs ! i)" "\<And>j. j < length xs \<Longrightarrow> P (xs ! j) \<Longrightarrow> j = i"
  shows "findIndex P xs = Some i"
proof (cases "findIndex P xs")
  case None
  then show ?thesis using findIndex_NoneD [OF None nth_mem [OF assms(1)]] assms(2) by simp
next
  case (Some j)
  then show ?thesis using assms(3) findIndex_SomeD [OF Some] by simp
qed

lemma findIndex_key:
  assumes "distinct (map k xs)" "i < length xs"
  shows "findIndex (\<lambda>x. k x = k (xs ! i)) xs = Some i"
  using assms by (intro findIndex_nth) (auto simp: distinct_conv_nth)

subsection \<open>JavaScript numbers\<close>

text \<open>
  A number that reaches a check such as \<open>Number.isInteger\<close> before anything is
  computed with it: not a number, an infinity, or a finite value.  Every finite
  double is a rational.
\<close>

datatype js_number = NotANumber | PosInfinity | NegInfinity | Num rat

fun isFinite :: "js_number \<Rightarrow> bool" where
  "isFinite (Num q) = True"
| "isFinite _ = False"

fun isInteger :: "js_number \<Rightarrow> bool" where
  "isInteger (Num q) = (of_int \<lfloor>q\<rfloor> = q)"
| "isInteger _ = False"

text \<open>The largest time value a \<open>Date\<close> holds; \<open>toISOString\<close> throws beyond it.\<close>

definition max_date :: int where
  "max_date = 8640000000000000"

subsection \<open>Histories of operations on a persisted state\<close>

text \<open>
  An operation returns the new state with its outcome; an operation that throws
  may still have changed the state (a lock whose release fails after the write).
  \<open>history\<close> runs a list of operations, going on after a failure as callers do.
  \<open>committed\<close> turns a callback of \<open>updateJsonFileStore\<close>, which fails without a
  new value or returns one, into such an operation.
\<close>

definition committed :: "('s \<Rightarrow> 'e + ('s \<times> 'r)) \<Rightarrow> 's \<Rightarrow> 's \<times> ('e + 'r)" where
  "committed upd s = (case upd s of Inl e \<Rightarrow> (s, Inl e) | Inr (s', r) \<Rightarrow> (s', Inr r))"

lemma committed_simps [simp]:
  "upd s = Inl e \<Longrightarrow> committed upd s = (s, Inl e)"
  "upd s = Inr (s', r) \<Longrightarrow> committed upd s = (s', Inr r)"
  by (simp_all add: committed_def)

lemma fst_committed_cases:
  "fst (committed upd s) = s \<or> (\<exists>r. upd s = Inr (fst (committed upd s), r))"
  by (auto simp: committed_def split: sum.splits)

fun history :: "('op \<Rightarrow> 's \<Rightarrow> 's \<times> 'out) \<Rightarrow> 'op list \<Rightarrow> 's \<Rightarrow> 's" where
  "history step [] s = s"
| "history step (x # xs) s = history step xs (fst (step x s))"

fun legal_history ::
  "('op \<Rightarrow> 's \<Rightarrow> 's \<times> 'out) \<Rightarrow> ('op \<Rightarrow> 's \<Rightarrow> bool) \<Rightarrow> 'op list \<Rightarrow> 's \<Rightarrow> bool" where
  "legal_history step legal [] s = True"
| "legal_history step legal (x # xs) s =
     (legal x s \<and> legal_history step legal xs (fst (step x s)))"

locale op_system =
  fixes step :: "'op \<Rightarrow> 's \<Rightarrow> 's \<times> 'out"
    and wf :: "'s \<Rightarrow> bool"
    and legal :: "'op \<Rightarrow> 's \<Rightarrow> bool"
  assumes step_wf: "wf s \<Longrightarrow> legal x s \<Longrightarrow> wf (fst (step x s))"
begin

lemma history_wf: "wf s \<Longrightarrow> legal_history step legal xs s \<Longrightarrow> wf (history step xs s)"
  by (induction xs arbitrary: s) (auto intro: step_wf)

end

lemma legal_history_always [simp]:
  "(\<And>x s. legal x s) \<Longrightarrow> legal_history step legal xs s"
  by (induction xs arbitrary: s) auto

lemma legal_history_stateless:
  "legal_history step (\<lambda>x _. P x) ops s = list_all P ops"
  by (induction ops arbitrary: s) auto

lemma history_append: "history step (xs @ ys) s = history step ys (history step xs s)"
  by (induction xs arbitrary: s) auto

end
