(* ===== verification/Json_File_Store.thy ===== *)
theory Json_File_Store
  imports Ops_Prelude
begin

section \<open>The JSON file store: read, validate, replace atomically, under a lock\<close>

text \<open>
  \<^verbatim>\<open>packages/common/src/json-file-store.ts\<close>.  Every persisted component reads and
  writes its document through \<open>updateJsonFileStore\<close>: take the exclusive lock, read
  and parse the file (a missing file gives the default), run the callback on the
  value, check that the new value parses again, write it to a temporary file and
  rename that over the old one, release the lock.

  The file is the value it holds, \<open>None\<close> when it does not exist.  The operating
  system decides whether the lock is obtained before the deadline, and whether the
  read, the write-and-rename and the release succeed; those are the four flags of
  \<open>io_env\<close>.  The lock protocol itself (lock files, owners, recovery)
  is the subject of \<open>File_Lock\<close>.
\<close>

record 'a json_store =
  js_default :: 'a
  js_parse :: "'a \<Rightarrow> string + 'a"

record io_env =
  io_lock :: bool
  io_read :: bool
  io_write :: bool
  io_release :: bool

definition io_fine :: io_env where
  "io_fine = \<lparr>io_lock = True, io_read = True, io_write = True, io_release = True\<rparr>"

lemma io_fine_sel [simp]:
  "io_lock io_fine" "io_read io_fine" "io_write io_fine" "io_release io_fine"
  by (simp_all add: io_fine_def)

datatype 'e store_failure =
    LockTimeout
  | ReadFailed
  | InvalidFile string
  | CallbackFailed 'e
  | SchemaFailed string
  | WriteFailed
  | ReleaseFailed

fun readJsonFileStore :: "'a json_store \<Rightarrow> io_env \<Rightarrow> 'a option \<Rightarrow> 'e store_failure + 'a" where
  "readJsonFileStore st io None = Inr (js_default st)"
| "readJsonFileStore st io (Some raw) =
     (if \<not> io_read io then Inl ReadFailed
      else case js_parse st raw of Inl m \<Rightarrow> Inl (InvalidFile m) | Inr v \<Rightarrow> Inr v)"

definition serializeJsonFileStoreValue :: "'a json_store \<Rightarrow> 'a \<Rightarrow> 'e store_failure + 'a" where
  "serializeJsonFileStoreValue st v =
     (case js_parse st v of Inl m \<Rightarrow> Inl (SchemaFailed m) | Inr _ \<Rightarrow> Inr v)"

definition writeJsonFileAtomic ::
  "io_env \<Rightarrow> 'a option \<Rightarrow> 'a \<Rightarrow> 'a option \<times> ('e store_failure + unit)" where
  "writeJsonFileAtomic io file v =
     (if io_write io then (Some v, Inr ()) else (file, Inl WriteFailed))"

definition runWithOwnedLock ::
  "io_env \<Rightarrow> 'f \<times> ('e store_failure + 'r) \<Rightarrow> 'f \<times> ('e store_failure + 'r)" where
  "runWithOwnedLock io outcome =
     (case outcome of
        (f, Inl e) \<Rightarrow> (f, Inl e)
      | (f, Inr r) \<Rightarrow> (if io_release io then (f, Inr r) else (f, Inl ReleaseFailed)))"

definition withJsonFileLock ::
  "io_env \<Rightarrow> 'f \<Rightarrow> ('f \<Rightarrow> 'f \<times> ('e store_failure + 'r)) \<Rightarrow> 'f \<times> ('e store_failure + 'r)" where
  "withJsonFileLock io file act =
     (if \<not> io_lock io then (file, Inl LockTimeout) else runWithOwnedLock io (act file))"

definition writeJsonFileStore ::
  "'a json_store \<Rightarrow> io_env \<Rightarrow> 'a \<Rightarrow> 'a option \<Rightarrow> 'a option \<times> ('e store_failure + unit)" where
  "writeJsonFileStore st io v file =
     (case serializeJsonFileStoreValue st v of
        Inl e \<Rightarrow> (file, Inl e)
      | Inr sv \<Rightarrow> withJsonFileLock io file (\<lambda>f. writeJsonFileAtomic io f sv))"

definition update_action ::
  "'a json_store \<Rightarrow> io_env \<Rightarrow> ('a \<Rightarrow> 'e + ('a \<times> 'r)) \<Rightarrow> 'a option
     \<Rightarrow> 'a option \<times> ('e store_failure + 'r)" where
  "update_action st io upd file =
     (case readJsonFileStore st io file of
        Inl e \<Rightarrow> (file, Inl e)
      | Inr current \<Rightarrow>
          (case upd current of
             Inl e \<Rightarrow> (file, Inl (CallbackFailed e))
           | Inr (nxt, r) \<Rightarrow>
               (case serializeJsonFileStoreValue st nxt of
                  Inl e \<Rightarrow> (file, Inl e)
                | Inr sv \<Rightarrow>
                    (case writeJsonFileAtomic io file sv of
                       (f, Inl e) \<Rightarrow> (f, Inl e)
                     | (f, Inr _) \<Rightarrow> (f, Inr r)))))"

definition updateJsonFileStore ::
  "'a json_store \<Rightarrow> io_env \<Rightarrow> ('a \<Rightarrow> 'e + ('a \<times> 'r)) \<Rightarrow> 'a option
     \<Rightarrow> 'a option \<times> ('e store_failure + 'r)" where
  "updateJsonFileStore st io upd file = withJsonFileLock io file (update_action st io upd)"

lemmas json_store_defs =
  updateJsonFileStore_def withJsonFileLock_def runWithOwnedLock_def update_action_def
  serializeJsonFileStoreValue_def writeJsonFileAtomic_def

subsection \<open>What an update does to the file\<close>

definition current_value :: "'a json_store \<Rightarrow> 'a option \<Rightarrow> 'a" where
  "current_value st file =
     (case file of None \<Rightarrow> js_default st
      | Some raw \<Rightarrow> (case js_parse st raw of Inl _ \<Rightarrow> js_default st | Inr v \<Rightarrow> v))"

definition readable :: "'a json_store \<Rightarrow> 'a option \<Rightarrow> bool" where
  "readable st file = (case file of None \<Rightarrow> True | Some raw \<Rightarrow> is_ok (js_parse st raw))"

lemma update_success:
  assumes "io = io_fine" "readable st file"
    and "upd (current_value st file) = Inr (v, r)" "js_parse st v = Inr w"
  shows "updateJsonFileStore st io upd file = (Some v, Inr r)"
  using assms
  by (auto simp: json_store_defs io_fine_def current_value_def readable_def is_ok_iff
      split: option.splits)

lemma update_failure_keeps_file:
  assumes "snd (updateJsonFileStore st io upd file) = Inl e" "e \<noteq> ReleaseFailed"
  shows "fst (updateJsonFileStore st io upd file) = file"
  using assms
  by (auto simp: json_store_defs split: sum.splits if_splits prod.splits)

lemma update_file_readable:
  assumes "readable st file"
  shows "readable st (fst (updateJsonFileStore st io upd file))"
  using assms
  by (auto simp: json_store_defs readable_def split: sum.splits if_splits prod.splits)

lemma update_cases:
  obtains (unchanged) e where "updateJsonFileStore st io upd file = (file, Inl e)" "e \<noteq> ReleaseFailed"
  | (written) cur v r w where "readJsonFileStore st io file = (Inr cur :: 'e store_failure + 'a)"
      "upd cur = (Inr (v, r) :: 'e + ('a \<times> 'r))" "js_parse st v = Inr w"
      "updateJsonFileStore st io upd file = (Some v, if io_release io then Inr r else Inl ReleaseFailed)"
proof -
  have "(\<exists>e. updateJsonFileStore st io upd file = (file, Inl e) \<and> e \<noteq> ReleaseFailed) \<or>
    (\<exists>cur v r w. readJsonFileStore st io file = (Inr cur :: 'e store_failure + 'a) \<and>
      upd cur = Inr (v, r) \<and> js_parse st v = Inr w \<and>
      updateJsonFileStore st io upd file =
        (Some v, if io_release io then Inr r else Inl ReleaseFailed))"
    by (cases "file") (auto simp: json_store_defs split: sum.splits if_splits prod.splits)
  then show thesis using unchanged written by blast
qed

end
