(* ===== verification/Idempotency_Interface.thy ===== *)
theory Idempotency_Interface
  imports Json_File_Store
begin

section \<open>The interface of the transactional idempotency store\<close>

text \<open>
  \<^verbatim>\<open>packages/operations/src/transactional-idempotency.ts\<close> declares the record of
  one transactional send and the interface \<open>TransactionalIdempotencyStore\<close> that the
  send operation and the sequence engine call; the file-backed store
  (\<^verbatim>\<open>packages/common/src/transactional-idempotency-store.ts\<close>) implements it.  This
  theory holds the data types of the two files and, as the locale
  \<open>idempotency_store\<close>, what the callers rely on: \<open>view t d k\<close> is the record the
  store \<open>d\<close> holds for the key \<open>k\<close> that is not expired at \<open>t\<close>.
\<close>

subsection \<open>Data\<close>

datatype send_status = SendPending | SendAccepted | SendFailed | SendUnknown

record send_record =
  tx_key :: string
  tx_payloadHash :: string
  tx_targetHash :: string
  tx_status :: send_status
  tx_sent :: "bool option"
  tx_errorMessage :: "string option"
  tx_claimToken :: string
  tx_createdAt :: instant
  tx_updatedAt :: instant
  tx_expiresAt :: instant

record tx_document =
  tx_version :: int
  tx_records :: "(string \<times> send_record) list"

datatype claim_result =
    ClaimNew send_record
  | ClaimReplay send_record
  | ClaimConflict send_record

record claim_options =
  co_key :: string
  co_payloadHash :: string
  co_targetHash :: string
  co_ttlMs :: "js_number option"

record commit_options =
  cm_key :: string
  cm_claimToken :: string
  cm_status :: send_status
  cm_sent :: "bool option"
  cm_errorMessage :: "string option"

datatype tx_error = InvalidTtl | InvalidDate | CapacityError

definition DEFAULT_TRANSACTIONAL_TTL_MS :: int where
  "DEFAULT_TRANSACTIONAL_TTL_MS = 24 * 60 * 60 * 1000"

definition TRANSACTIONAL_STORE_MAX_RECORDS :: nat where
  "TRANSACTIONAL_STORE_MAX_RECORDS = 10000"

text \<open>
  What a commit writes: an accepted send has been acknowledged, a failed one has
  not, an unknown one keeps what the caller says.
\<close>

definition committed_sent :: "send_status \<Rightarrow> bool option \<Rightarrow> bool option" where
  "committed_sent status sent =
     (if status = SendAccepted then Some True
      else if status = SendFailed then (if sent = Some True then Some False else sent)
      else sent)"

definition commit_record :: "commit_options \<Rightarrow> instant \<Rightarrow> send_record \<Rightarrow> send_record" where
  "commit_record opts now existing =
     existing\<lparr>tx_status := cm_status opts,
              tx_sent := committed_sent (cm_status opts) (cm_sent opts),
              tx_errorMessage := cm_errorMessage opts,
              tx_updatedAt := now\<rparr>"

text \<open>
  The methods of the interface.  \<open>'io\<close> is what the environment decides during the
  call (lock, read, write, release), the instant is \<open>now()\<close> inside the call and the
  string is the claim token drawn by a new claim.  A method may throw and still
  have changed the store.
\<close>

record ('d, 'io) idem_store =
  st_claim :: "'io \<Rightarrow> instant \<Rightarrow> string \<Rightarrow> claim_options \<Rightarrow> 'd
                 \<Rightarrow> 'd \<times> (tx_error store_failure + claim_result)"
  st_commit :: "'io \<Rightarrow> instant \<Rightarrow> commit_options \<Rightarrow> 'd \<Rightarrow> 'd \<times> (tx_error store_failure + unit)"
  st_release :: "'io \<Rightarrow> instant \<Rightarrow> string \<Rightarrow> string \<Rightarrow> 'd
                 \<Rightarrow> 'd \<times> (tx_error store_failure + unit)"
  st_load :: "'io \<Rightarrow> 'd \<Rightarrow> tx_error store_failure + tx_document"

locale idempotency_store =
  fixes store :: "('d, 'io) idem_store"
    and ok :: "'d \<Rightarrow> bool"
    and view :: "instant \<Rightarrow> 'd \<Rightarrow> string \<Rightarrow> send_record option"
  assumes view_mono: "t \<le> t' \<Longrightarrow> view t' d k = Some r \<Longrightarrow> view t d k = Some r"
    and claim_ok: "ok d \<Longrightarrow> ok (fst (st_claim store io now tok opts d))"
    and commit_ok: "ok d \<Longrightarrow> ok (fst (st_commit store io now cm d))"
    and release_ok: "ok d \<Longrightarrow> ok (fst (st_release store io now k tok d))"
    and claim_frame: "ok d \<Longrightarrow> now \<le> t \<Longrightarrow> k \<noteq> co_key opts \<Longrightarrow>
          view t (fst (st_claim store io now tok opts d)) k = view t d k"
    and claim_keep: "ok d \<Longrightarrow> now \<le> t \<Longrightarrow> view t d k = Some r \<Longrightarrow>
          view t (fst (st_claim store io now tok opts d)) k = Some r"
    and claim_new: "ok d \<Longrightarrow> st_claim store io now tok opts d = (d', Inr (ClaimNew r)) \<Longrightarrow>
          view now d (co_key opts) = None \<and> tx_claimToken r = tok \<and> tx_key r = co_key opts \<and>
          tx_payloadHash r = co_payloadHash opts \<and> tx_targetHash r = co_targetHash opts \<and>
          (co_ttlMs opts = None \<longrightarrow> tx_expiresAt r = now + DEFAULT_TRANSACTIONAL_TTL_MS) \<and>
          (\<forall>t. now \<le> t \<and> t \<le> tx_expiresAt r \<longrightarrow> view t d' (co_key opts) = Some r)"
    and claim_replay: "ok d \<Longrightarrow> st_claim store io now tok opts d = (d', Inr (ClaimReplay r)) \<Longrightarrow>
          view now d (co_key opts) = Some r \<and>
          tx_payloadHash r = co_payloadHash opts \<and> tx_targetHash r = co_targetHash opts"
    and claim_conflict: "ok d \<Longrightarrow> st_claim store io now tok opts d = (d', Inr (ClaimConflict r)) \<Longrightarrow>
          view now d (co_key opts) = Some r \<and>
          (tx_payloadHash r \<noteq> co_payloadHash opts \<or> tx_targetHash r \<noteq> co_targetHash opts)"
    and commit_view: "ok d \<Longrightarrow> now \<le> t \<Longrightarrow>
          view t (fst (st_commit store io now cm d)) k = view t d k \<or>
          (k = cm_key cm \<and> (\<exists>r. view t d k = Some r \<and> tx_claimToken r = cm_claimToken cm \<and>
             view t (fst (st_commit store io now cm d)) k = Some (commit_record cm now r)))"
    and release_view: "ok d \<Longrightarrow> now \<le> t \<Longrightarrow>
          view t (fst (st_release store io now key tok d)) k = view t d k \<or>
          (k = key \<and> (\<exists>r. view t d k = Some r \<and> tx_claimToken r = tok \<and>
             view t (fst (st_release store io now key tok d)) k = None))"
begin

text \<open>A record that is not expired at \<open>t\<close> is never dropped by a commit, whatever its token.\<close>

lemma commit_keeps_token:
  assumes "ok d" "now \<le> t" "view t d k = Some r"
  shows "\<exists>r'. view t (fst (st_commit store io now cm d)) k = Some r' \<and>
              tx_claimToken r' = tx_claimToken r"
  using commit_view [OF assms(1,2), of io cm k] assms(3)
  by (auto simp: commit_record_def)

text \<open>Only the owner of the claim token can release a record.\<close>

lemma release_foreign_token:
  assumes "ok d" "now \<le> t" "view t d k = Some r" "tok \<noteq> tx_claimToken r"
  shows "view t (fst (st_release store io now key tok d)) k = Some r"
  using release_view [OF assms(1,2), of io key tok k] assms(3,4) by auto

lemma release_other_key:
  assumes "ok d" "now \<le> t" "k \<noteq> key"
  shows "view t (fst (st_release store io now key tok d)) k = view t d k"
  using release_view [OF assms(1,2), of io key tok k] assms(3) by auto

lemma commit_other_key:
  assumes "ok d" "now \<le> t" "k \<noteq> cm_key cm"
  shows "view t (fst (st_commit store io now cm d)) k = view t d k"
  using commit_view [OF assms(1,2), of io cm k] assms(3) by auto

text \<open>While a key has a live record, no claim of it is new.\<close>

lemma claim_not_new:
  assumes "ok d" "view now d (co_key opts) = Some r"
  shows "snd (st_claim store io now tok opts d) \<noteq> Inr (ClaimNew r')"
  using claim_new [OF assms(1), of io now tok opts] assms(2)
  by (metis option.distinct(1) prod.collapse)

end

end
