(* ===== verification/Json_Value.thy ===== *)
theory Json_Value
  imports Ops_Prelude
begin

section \<open>JSON data\<close>

text \<open>
  The values the program passes around as \<open>unknown\<close> after JSON parsing: step data,
  enrollment contexts, event data.  Objects are association lists in insertion
  order with distinct keys; numbers are integers (fractions are not modelled).
\<close>

datatype json =
    JNull
  | JBool bool
  | JNum int
  | JStr string
  | JArr "json list"
  | JObj "(string \<times> json) list"

type_synonym json_object = "(string \<times> json) list"

text \<open>\<open>isDeepStrictEqual\<close> on JSON data: object keys in any order, arrays in order.\<close>

fun isDeepStrictEqual :: "json \<Rightarrow> json \<Rightarrow> bool" where
  "isDeepStrictEqual JNull w = (w = JNull)"
| "isDeepStrictEqual (JBool b) w = (w = JBool b)"
| "isDeepStrictEqual (JNum n) w = (w = JNum n)"
| "isDeepStrictEqual (JStr s) w = (w = JStr s)"
| "isDeepStrictEqual (JArr xs) w =
     (case w of JArr ys \<Rightarrow> list_all2 isDeepStrictEqual xs ys | _ \<Rightarrow> False)"
| "isDeepStrictEqual (JObj xs) w =
     (case w of
        JObj ys \<Rightarrow> length xs = length ys \<and>
          (\<forall>p \<in> set xs. case map_of ys (fst p) of
                          None \<Rightarrow> False
                        | Some v \<Rightarrow> isDeepStrictEqual (snd p) v)
      | _ \<Rightarrow> False)"

text \<open>Object spread \<open>{...a, ...b}\<close>: later keys win, earlier positions are kept.\<close>

definition spread :: "json_object \<Rightarrow> json_object \<Rightarrow> json_object" where
  "spread a b = fold (\<lambda>p acc. AList.update (fst p) (snd p) acc) b a"

lemma map_of_spread: "map_of (spread a b) k = (case map_of (rev b) k of None \<Rightarrow> map_of a k | Some v \<Rightarrow> Some v)"
  unfolding spread_def
  by (induction b arbitrary: a) (auto simp: update_conv map_add_def split: option.splits)

end
