(* ===== verification/Transactional_Send.thy ===== *)
theory Transactional_Send
  imports Idempotency_Interface Json_Value "HOL-Library.Word"
begin

unbundle bit_operations_syntax

section \<open>Sending a transactional message at most once\<close>

text \<open>
  \<^verbatim>\<open>packages/operations/src/transactional.ts\<close> and the pure part of
  \<^verbatim>\<open>packages/operations/src/transactional-idempotency.ts\<close>: header validation,
  classification of dispatch failures, the target hash, the send operation over
  the store interface, and the send operation as it runs in several processes at
  once (\<open>send_step\<close>: the awaits of \<open>sendTransactionalMessage\<close> are the points where
  processes interleave).  Serialising the payload to JSON and hashing it is the
  argument \<open>sc_hashPayload\<close>.
\<close>

subsection \<open>Custom headers\<close>

definition PROTECTED_HEADER_NAMES :: "string list" where
  "PROTECTED_HEADER_NAMES =
     [''from'', ''to'', ''cc'', ''bcc'', ''reply-to'', ''return-path'', ''sender'', ''subject'',
      ''content-type'', ''content-length'', ''content-transfer-encoding'', ''mime-version'',
      ''date'', ''message-id'', ''received'', ''authentication-results'', ''dkim-signature'',
      ''domainkey-signature'', ''received-spf'', ''delivered-to'', ''envelope-to'',
      ''x-envelope-from'', ''x-envelope-to'', ''x-original-to'', ''x-delivered-to'']"

definition PROTECTED_HEADER_PREFIXES :: "string list" where
  "PROTECTED_HEADER_PREFIXES = [''arc-'', ''resent-'']"

definition header_name_char :: "char \<Rightarrow> bool" where
  "header_name_char c = (is_alnum c \<or> c \<in> set ''.!#$%&*+-/=?^_`{|}~'' \<or> c = CHR 0x27)"

definition HEADER_NAME_PATTERN :: "string \<Rightarrow> bool" where
  "HEADER_NAME_PATTERN s = (s \<noteq> [] \<and> list_all header_name_char s)"

definition HEADER_CONTROL_CHAR_PATTERN :: "string \<Rightarrow> bool" where
  "HEADER_CONTROL_CHAR_PATTERN s =
     list_ex (\<lambda>c. (of_char c :: nat) \<le> 31 \<or> (of_char c :: nat) = 127) s"

datatype header_issue_kind =
  HeaderWhitespace | HeaderEmpty | HeaderNameChars | HeaderReserved | HeaderValueControl

record header_issue =
  hi_entry :: nat
  hi_name :: string
  hi_kind :: header_issue_kind

definition header_reserved :: "string \<Rightarrow> bool" where
  "header_reserved canonicalName =
     (canonicalName \<in> set PROTECTED_HEADER_NAMES \<or>
      list_ex (startsWith canonicalName) PROTECTED_HEADER_PREFIXES)"

definition header_issue_of :: "string \<Rightarrow> string \<Rightarrow> header_issue_kind option" where
  "header_issue_of rawName rawValue =
     (let name = trim rawName
      in if rawName \<noteq> name then Some HeaderWhitespace
         else if name = [] then Some HeaderEmpty
         else if \<not> HEADER_NAME_PATTERN name then Some HeaderNameChars
         else if header_reserved (toLowerCase name) then Some HeaderReserved
         else if HEADER_CONTROL_CHAR_PATTERN rawValue then Some HeaderValueControl
         else None)"

definition collectHeaderIssues :: "(string \<times> string) list list \<Rightarrow> header_issue list" where
  "collectHeaderIssues headers =
     concat (map (\<lambda>(i, entry).
        List.map_filter (\<lambda>(n, v).
          map_option (\<lambda>k. \<lparr>hi_entry = i, hi_name = trim n, hi_kind = k\<rparr>) (header_issue_of n v))
          entry)
       (enumerate 0 headers))"

lemma no_header_issues:
  assumes "collectHeaderIssues headers = []" "entry \<in> set headers" "(n, v) \<in> set entry"
  shows "header_issue_of n v = None"
proof -
  obtain i where "i < length headers" "headers ! i = entry"
    using assms(2) by (auto simp: in_set_conv_nth)
  then have "(i, entry) \<in> set (enumerate 0 headers)"
    by (simp add: in_set_enumerate_eq)
  then have "List.map_filter (\<lambda>(n, v).
      map_option (\<lambda>k. \<lparr>hi_entry = i, hi_name = trim n, hi_kind = k\<rparr>) (header_issue_of n v)) entry = []"
    using assms(1) by (auto simp: collectHeaderIssues_def)
  then show ?thesis
    using assms(3) by (auto simp: List.map_filter_def filter_empty_conv)
qed

subsection \<open>Errors\<close>

text \<open>
  A JavaScript \<open>Error\<close> with the properties the classification reads; a thrown value
  that is not an \<open>Error\<close> is its string.
\<close>

datatype js_error = JsError
  (err_message: string) (err_httpStatus: "js_number option")
  (err_code: "string option") (err_cause: "js_error option")

datatype thrown = ThrownError js_error | ThrownValue string

definition ambiguousSignals :: "string list" where
  "ambiguousSignals =
     [''timeout'', ''timed out'', ''socket hang up'', ''socket hangup'', ''econnreset'',
      ''epipe'', ''enetunreach'', ''fetch failed'', ''network error'',
      ''network is unreachable'', ''aborted'', ''terminated'']"

fun isAmbiguousTransportError :: "thrown \<Rightarrow> bool" where
  "isAmbiguousTransportError (ThrownValue v) = False"
| "isAmbiguousTransportError (ThrownError e) =
     list_ex (str_includes (toLowerCase (err_message e))) ambiguousSignals"

definition pushCode :: "string option \<Rightarrow> string list" where
  "pushCode v = (case v of None \<Rightarrow> [] | Some c \<Rightarrow> (if c = [] then [] else [c]))"

definition collectErrorCodes :: "js_error \<Rightarrow> string list" where
  "collectErrorCodes e =
     pushCode (err_code e) @
     (case err_cause e of
        None \<Rightarrow> []
      | Some cause \<Rightarrow> pushCode (err_code cause) @
          (case err_cause cause of None \<Rightarrow> [] | Some nested \<Rightarrow> pushCode (err_code nested)))"

definition preDispatchCodes :: "string list" where
  "preDispatchCodes =
     [''ECONNREFUSED'', ''ENOTFOUND'', ''ConnectionRefused'', ''GetAddrInfoFailed'',
      ''HostNotFoundError'']"

fun status_4xx :: "js_number \<Rightarrow> bool" where
  "status_4xx (Num q) = (400 \<le> q \<and> q < 500)"
| "status_4xx _ = False"

fun isDefinitivePreDispatchError :: "thrown \<Rightarrow> bool" where
  "isDefinitivePreDispatchError (ThrownValue v) = False"
| "isDefinitivePreDispatchError (ThrownError e) =
     (case err_httpStatus e of
        Some st \<Rightarrow> status_4xx st
      | None \<Rightarrow>
          (if list_ex (str_includes (toLowerCase (err_message e))) [''econnrefused'', ''enotfound'']
           then True
           else list_ex (\<lambda>c. c \<in> set preDispatchCodes) (collectErrorCodes e)))"

fun thrown_message :: "thrown \<Rightarrow> string" where
  "thrown_message (ThrownError e) = err_message e"
| "thrown_message (ThrownValue v) = v"

subsection \<open>Target hash\<close>

definition fnv1a32 :: "string \<Rightarrow> 32 word \<Rightarrow> 32 word" where
  "fnv1a32 s seed = fold (\<lambda>c h. (h XOR of_nat (of_char c)) * 0x01000193) s seed"

definition hex_digit :: "nat \<Rightarrow> char" where
  "hex_digit n = (if n < 10 then char_of (48 + n) else char_of (87 + n))"

fun hex_text :: "nat \<Rightarrow> string" where
  "hex_text n = (if n < 16 then [hex_digit n] else hex_text (n div 16) @ [hex_digit (n mod 16)])"

declare hex_text.simps [simp del]

definition padStart :: "string \<Rightarrow> nat \<Rightarrow> char \<Rightarrow> string" where
  "padStart s n c = replicate (n - length s) c @ s"

definition computeTransactionalTargetHash :: "string option \<Rightarrow> string option \<Rightarrow> string" where
  "computeTransactionalTargetHash baseUrl username =
     (let normalized = trim (case baseUrl of None \<Rightarrow> [] | Some b \<Rightarrow> b) @ [CHR 0x00] @
                       trim (case username of None \<Rightarrow> [] | Some u \<Rightarrow> u);
          hi = hex_text (unat (fnv1a32 normalized 0x811c9dc5));
          lo = hex_text (unat (fnv1a32 normalized 0x84222325))
      in padStart hi 8 CHR ''0'' @ padStart lo 8 CHR ''0'')"

lemma hex_text_length: "n < 16 ^ Suc k \<Longrightarrow> length (hex_text n) \<le> Suc k"
proof (induction k arbitrary: n)
  case 0
  then show ?case by (simp add: hex_text.simps [of n])
next
  case (Suc k)
  have "length (hex_text (n div 16)) \<le> Suc k"
    using Suc.IH [of "n div 16"] Suc.prems by (simp add: less_mult_imp_div_less)
  then show ?case by (subst hex_text.simps) simp
qed

lemma hex_digit_set: "n < 16 \<Longrightarrow> hex_digit n \<in> set ''0123456789abcdef''"
proof -
  assume "n < 16"
  then have "n \<in> set [0..<16]" by simp
  moreover have "\<forall>m \<in> set [0..<16]. hex_digit m \<in> set ''0123456789abcdef''" by code_simp
  ultimately show ?thesis by blast
qed

lemma hex_text_set: "set (hex_text n) \<subseteq> set ''0123456789abcdef''"
proof (induction n rule: hex_text.induct)
  case (1 n)
  have "hex_digit (n mod 16) \<in> set ''0123456789abcdef''" by (rule hex_digit_set) simp
  then show ?case
    using 1 hex_digit_set [of n] by (subst hex_text.simps) auto
qed

end
