(* ===== verification/Stable_Json.thy ===== *)
theory Stable_Json
  imports Json_Value "HOL-Library.List_Lexorder" "HOL-Library.Char_ord" "HOL-Library.Multiset"
begin

section \<open>Canonical JSON text\<close>

text \<open>
  \<open>stableSerializeJson\<close> of \<^verbatim>\<open>packages/operations/src/transactional-idempotency.ts\<close> on JSON
  data: object keys sorted at every depth, arrays in order.  The payload hash of a
  transactional send is taken of this text, so it must not depend on the order in
  which a caller wrote the keys.  Dates, boxed primitives, functions and cycles,
  which JSON data has not, are left out.
\<close>

definition hex4 :: "nat \<Rightarrow> string" where
  "hex4 n = map (\<lambda>i. (let d = (n div 16 ^ i) mod 16
                        in if d < 10 then char_of (48 + d) else char_of (87 + d))) [3, 2, 1, 0]"

definition json_escape :: "char \<Rightarrow> string" where
  "json_escape c =
     (let n = (of_char c :: nat)
      in if n = 34 then [CHR 0x5C, CHR 0x22]
         else if n = 92 then [CHR 0x5C, CHR 0x5C]
         else if n = 8 then [CHR 0x5C, CHR ''b'']
         else if n = 9 then [CHR 0x5C, CHR ''t'']
         else if n = 10 then [CHR 0x5C, CHR ''n'']
         else if n = 12 then [CHR 0x5C, CHR ''f'']
         else if n = 13 then [CHR 0x5C, CHR ''r'']
         else if n < 32 then [CHR 0x5C, CHR ''u''] @ hex4 n
         else [c])"

definition json_quote :: "string \<Rightarrow> string" where
  "json_quote s = CHR 0x22 # concat (map json_escape s) @ [CHR 0x22]"

lemma json_obj_size: "p \<in> set xs \<Longrightarrow> size (snd p) < size (JObj xs)"
  by (induction xs) auto

lemma json_arr_size: "x \<in> set xs \<Longrightarrow> size x < size (JArr xs)"
  by (induction xs) auto

function stableSerializeJson :: "json \<Rightarrow> string" where
  "stableSerializeJson JNull = ''null''"
| "stableSerializeJson (JBool b) = (if b then ''true'' else ''false'')"
| "stableSerializeJson (JNum n) = int_text n"
| "stableSerializeJson (JStr s) = json_quote s"
| "stableSerializeJson (JArr xs) = ''['' @ join '','' (map stableSerializeJson xs) @ '']''"
| "stableSerializeJson (JObj xs) =
     ''{'' @ join '','' (map (\<lambda>p. json_quote (fst p) @ '':'' @ stableSerializeJson (snd p))
                        (sort_key fst xs)) @ ''}''"
  by pat_completeness auto
termination
  by (relation "measure size") (auto dest: json_obj_size json_arr_size)

text \<open>\<open>JSON.stringify\<close> on the same data: keys in insertion order.\<close>

fun JSON_stringify :: "json \<Rightarrow> string" where
  "JSON_stringify JNull = ''null''"
| "JSON_stringify (JBool b) = (if b then ''true'' else ''false'')"
| "JSON_stringify (JNum n) = int_text n"
| "JSON_stringify (JStr s) = json_quote s"
| "JSON_stringify (JArr xs) = ''['' @ join '','' (map JSON_stringify xs) @ '']''"
| "JSON_stringify (JObj xs) =
     ''{'' @ join '','' (map (\<lambda>p. json_quote (fst p) @ '':'' @ JSON_stringify (snd p)) xs) @ ''}''"

text \<open>Distinct keys in every object, as every parsed JSON value has.\<close>

fun json_distinct :: "json \<Rightarrow> bool" where
  "json_distinct (JArr xs) = list_all json_distinct xs"
| "json_distinct (JObj xs) = (distinct (map fst xs) \<and> list_all (\<lambda>p. json_distinct (snd p)) xs)"
| "json_distinct _ = True"

lemma sort_key_fst_map_of:
  fixes xs :: "('k :: linorder \<times> 'v) list"
  assumes "distinct (map fst xs)"
  shows "sort_key fst xs = map (\<lambda>k. (k, the (map_of xs k))) (sort (map fst xs))"
proof -
  let ?ys = "sort_key fst xs"
  have d: "distinct (map fst ?ys)" using assms by simp
  have "sort (map fst xs) = map fst ?ys"
    by (rule properties_for_sort) simp_all
  moreover have "map (\<lambda>k. (k, the (map_of xs k))) (map fst ?ys) = ?ys"
    unfolding map_map o_def by (rule map_idI) (use assms in \<open>auto simp: map_of_is_SomeI\<close>)
  ultimately show ?thesis by metis
qed

lemma same_object_keys:
  assumes "distinct (map fst xs)" "distinct (map fst ys)" "length xs = length ys"
    and "\<And>p. p \<in> set xs \<Longrightarrow> fst p \<in> fst ` set ys"
  shows "sort (map fst xs) = sort (map fst (ys :: ('k :: linorder \<times> 'v) list))"
proof -
  have "card (fst ` set xs) = length xs" "card (fst ` set ys) = length ys"
    using distinct_card [OF assms(1)] distinct_card [OF assms(2)] by simp_all
  moreover have "fst ` set xs \<subseteq> fst ` set ys" using assms(4) by auto
  ultimately have "fst ` set xs = fst ` set ys"
    using assms(3) by (intro card_subset_eq) simp_all
  then show ?thesis
    using assms(1,2) by (intro sorted_distinct_set_unique) simp_all
qed

lemma stableSerialize_equal:
  "isDeepStrictEqual v w \<Longrightarrow> json_distinct v \<Longrightarrow> json_distinct w \<Longrightarrow>
     stableSerializeJson v = stableSerializeJson w"
proof (induction v w rule: isDeepStrictEqual.induct)
  case (5 xs w)
  then obtain ys where w: "w = JArr ys" and all: "list_all2 isDeepStrictEqual xs ys"
    by (auto split: json.splits)
  have "stableSerializeJson (xs ! i) = stableSerializeJson (ys ! i)" if "i < length xs" for i
    using 5 w all that by (auto simp: list_all2_conv_all_nth list_all_length)
  then have "map stableSerializeJson xs = map stableSerializeJson ys"
    using all by (intro nth_equalityI) (simp_all add: list_all2_conv_all_nth)
  then show ?case using w by simp
next
  case (6 xs w)
  then obtain ys where w: "w = JObj ys" and len: "length xs = length ys"
    and all: "\<And>p. p \<in> set xs \<Longrightarrow> \<exists>v. map_of ys (fst p) = Some v \<and> isDeepStrictEqual (snd p) v"
    by (fastforce split: json.splits option.splits)
  have dx: "distinct (map fst xs)" and dy: "distinct (map fst ys)"
    using 6 w by simp_all
  have keys: "sort (map fst xs) = sort (map fst ys)"
    using dx dy len by (rule same_object_keys) (use all in \<open>force dest: map_of_SomeD\<close>)
  have val: "stableSerializeJson (the (map_of xs k)) = stableSerializeJson (the (map_of ys k))"
    if k: "k \<in> fst ` set xs" for k
  proof -
    obtain p where p: "p \<in> set xs" "k = fst p" using k by auto
    obtain v where v: "map_of ys k = Some v" "isDeepStrictEqual (snd p) v" using all [OF p(1)] p(2) by auto
    have "json_distinct (snd p)" "json_distinct v"
      using 6 w p map_of_SomeD [OF v(1)] by (force simp: list_all_iff)+
    then have "stableSerializeJson (snd p) = stableSerializeJson v"
      using 6 w len p v by simp
    moreover have "map_of xs k = Some (snd p)" using dx p by simp
    ultimately show ?thesis using v(1) by (simp only: option.sel)
  qed
  have "set (sort (map fst ys)) = fst ` set xs" using arg_cong [OF keys, of set] by simp
  then have "map (\<lambda>k. json_quote k @ '':'' @ stableSerializeJson (the (map_of xs k))) (sort (map fst ys)) =
      map (\<lambda>k. json_quote k @ '':'' @ stableSerializeJson (the (map_of ys k))) (sort (map fst ys))"
    using val by (intro map_cong refl) blast
  then show ?case
    by (simp only: w stableSerializeJson.simps sort_key_fst_map_of [OF dx]
        sort_key_fst_map_of [OF dy] keys map_map o_def fst_conv snd_conv)
qed (auto split: json.splits)

end
