(* ===== verification/Transactional_Operation.thy ===== *)
theory Transactional_Operation
  imports Transactional_Send Stable_Json
begin

section \<open>The send operation\<close>

text \<open>
  \<open>sendTransactionalMessage\<close> of \<^verbatim>\<open>packages/operations/src/transactional.ts\<close> over the store
  interface.  The HTTP client is outside the repository's own code: its answer is
  the argument \<open>listmonk_reply\<close>.  The operation is written in the three parts that its
  awaits separate (\<open>begin_send\<close> up to the claim, the dispatch with \<open>conclude\<close>, and
  \<open>settle_send\<close>, the best-effort commit or release), so that \<open>send_step\<close> can
  interleave the parts of several processes.
\<close>

subsection \<open>Payload and input\<close>

record dispatch_payload =
  dp_template_id :: int
  dp_subscriber_email :: "string option"
  dp_subscriber_id :: "int option"
  dp_from_email :: "string option"
  dp_data :: "json_object option"
  dp_headers :: "(string \<times> string) list list option"
  dp_content_type :: "string option"
  dp_messenger :: "string option"
  dp_subject :: "string option"
  dp_altbody :: "string option"

record send_input = dispatch_payload +
  si_idempotency_key :: "string option"

text \<open>A property whose value is \<open>undefined\<close> is not serialised.\<close>

definition opt_property :: "string \<Rightarrow> ('a \<Rightarrow> json) \<Rightarrow> 'a option \<Rightarrow> json_object" where
  "opt_property name f v = (case v of None \<Rightarrow> [] | Some x \<Rightarrow> [(name, f x)])"

definition headers_json :: "(string \<times> string) list list \<Rightarrow> json" where
  "headers_json hs = JArr (map (\<lambda>h. JObj (map (\<lambda>(k, v). (k, JStr v)) h)) hs)"

definition payload_json :: "('a) dispatch_payload_scheme \<Rightarrow> json" where
  "payload_json p =
     JObj ([(''template_id'', JNum (dp_template_id p))] @
           opt_property ''subscriber_email'' JStr (dp_subscriber_email p) @
           opt_property ''subscriber_id'' JNum (dp_subscriber_id p) @
           opt_property ''from_email'' JStr (dp_from_email p) @
           opt_property ''data'' JObj (dp_data p) @
           opt_property ''headers'' headers_json (dp_headers p) @
           opt_property ''content_type'' JStr (dp_content_type p) @
           opt_property ''messenger'' JStr (dp_messenger p) @
           opt_property ''subject'' JStr (dp_subject p) @
           opt_property ''altbody'' JStr (dp_altbody p))"

definition serializeTransactionalPayload :: "('a) dispatch_payload_scheme \<Rightarrow> string" where
  "serializeTransactionalPayload p = stableSerializeJson (payload_json p)"

definition IDEMPOTENCY_KEY_MAX_LENGTH :: nat where
  "IDEMPOTENCY_KEY_MAX_LENGTH = 128"

definition IDEMPOTENCY_KEY_PATTERN :: "string \<Rightarrow> bool" where
  "IDEMPOTENCY_KEY_PATTERN s = (s \<noteq> [] \<and> list_all (\<lambda>c. is_alnum c \<or> c \<in> set ''._:-'') s)"

definition idempotencyKeyBaseSchema :: "string \<Rightarrow> string option" where
  "idempotencyKeyBaseSchema raw =
     (let s = trim raw
      in if 1 \<le> length s \<and> length s \<le> IDEMPOTENCY_KEY_MAX_LENGTH \<and> IDEMPOTENCY_KEY_PATTERN s
         then Some s else None)"

text \<open>The two refinements of the input object: one recipient, and no header issue.\<close>

definition sendTransactionalInput_refined :: "('a) dispatch_payload_scheme \<Rightarrow> bool" where
  "sendTransactionalInput_refined p =
     (((dp_subscriber_email p \<noteq> None) \<noteq> (dp_subscriber_id p \<noteq> None)) \<and>
      (case dp_headers p of None \<Rightarrow> True | Some hs \<Rightarrow> collectHeaderIssues hs = []))"

subsection \<open>Dispatch\<close>

datatype response_error =
    BodyError js_error
  | BodyMessage string
  | BodyErrorField string
  | BodyOther string

record listmonk_response =
  rs_error :: "response_error option"
  rs_status :: "js_number option"
  rs_data :: "json option"

datatype listmonk_reply = ReplyThrown thrown | ReplyResponse listmonk_response

fun toErrorMessage :: "response_error \<Rightarrow> string" where
  "toErrorMessage (BodyError e) = err_message e"
| "toErrorMessage (BodyMessage m) = m"
| "toErrorMessage (BodyErrorField m) = m"
| "toErrorMessage (BodyOther s) = s"

fun body_cause :: "response_error \<Rightarrow> js_error option" where
  "body_cause (BodyError e) = Some e"
| "body_cause _ = None"

text \<open>\<open>new TransactionalDispatchError(message, httpStatus, cause)\<close>\<close>

definition dispatch_error :: "string \<Rightarrow> js_number option \<Rightarrow> js_error option \<Rightarrow> thrown" where
  "dispatch_error m st cause = ThrownError (JsError m st None cause)"

definition unwrapData :: "listmonk_response \<Rightarrow> string \<Rightarrow> thrown + json" where
  "unwrapData response ctx =
     (case rs_error response of
        Some err \<Rightarrow>
          Inl (dispatch_error (ctx @ '': '' @ toErrorMessage err) (rs_status response) (body_cause err))
      | None \<Rightarrow>
          (case rs_data response of
             None \<Rightarrow> Inl (dispatch_error (ctx @ '': received empty data'') None None)
           | Some v \<Rightarrow> Inr v))"

definition dispatchToListmonk :: "listmonk_reply \<Rightarrow> thrown + bool" where
  "dispatchToListmonk reply =
     (case reply of
        ReplyThrown e \<Rightarrow> Inl e
      | ReplyResponse response \<Rightarrow>
          (case unwrapData response ''Failed to send transactional message'' of
             Inl e \<Rightarrow> Inl e
           | Inr (JBool b) \<Rightarrow> Inr b
           | Inr v \<Rightarrow>
               Inl (dispatch_error
                 (''Failed to send transactional message: Listmonk returned a non-boolean acknowledgement ('' @
                  JSON_stringify v @ '')'') (rs_status response) None)))"

subsection \<open>Outcome\<close>

datatype output_status = OutAccepted | OutReplayed | OutFailed

record send_output =
  so_sent :: bool
  so_status :: output_status
  so_duplicate :: "bool option"
  so_idempotency_key :: "string option"
  so_expires_at :: "instant option"

datatype send_error =
    SendInputError string
  | SendReconcileError string send_status string
  | SendThrown thrown
  | SendStoreFailure "tx_error store_failure"

definition recordToOutput :: "send_record \<Rightarrow> output_status \<Rightarrow> send_output" where
  "recordToOutput r status =
     \<lparr>so_sent = (case tx_sent r of None \<Rightarrow> False | Some b \<Rightarrow> b),
      so_status = status,
      so_duplicate = Some (status = OutReplayed),
      so_idempotency_key = Some (tx_key r),
      so_expires_at = Some (tx_expiresAt r)\<rparr>"

definition with_message :: "string \<Rightarrow> string option \<Rightarrow> string" where
  "with_message intro m =
     (case m of None \<Rightarrow> intro @ ''.''
      | Some t \<Rightarrow> (if t = [] then intro @ ''.'' else intro @ '': '' @ t))"

definition reconcileReason :: "send_record \<Rightarrow> string" where
  "reconcileReason r =
     (case tx_status r of
        SendPending \<Rightarrow> ''A previous request is still in flight or crashed before committing. Wait for it to settle or inspect the store.''
      | SendUnknown \<Rightarrow> with_message ''Previous dispatch failed ambiguously'' (tx_errorMessage r)
      | SendFailed \<Rightarrow> with_message ''Previous dispatch was rejected by Listmonk'' (tx_errorMessage r)
      | SendAccepted \<Rightarrow> ''The previous dispatch was accepted; replay the original result instead of reconciling.'')"

definition status_text :: "send_status \<Rightarrow> string" where
  "status_text s =
     (case s of SendPending \<Rightarrow> ''pending'' | SendAccepted \<Rightarrow> ''accepted''
      | SendFailed \<Rightarrow> ''failed'' | SendUnknown \<Rightarrow> ''unknown'')"

definition replay_outcome :: "send_record \<Rightarrow> send_error + send_output" where
  "replay_outcome r =
     (if tx_status r = SendAccepted \<or> tx_status r = SendFailed
      then Inr (recordToOutput r OutReplayed)
      else Inl (SendReconcileError (tx_key r) (tx_status r)
             (''Idempotency key '' @ quoted (tx_key r) @ '' is in '' @ quoted (status_text (tx_status r)) @
              '' state and cannot be safely retried automatically. '' @ reconcileReason r)))"

text \<open>What is left to do once the dispatch is over.\<close>

datatype settlement = SettleCommit commit_options | SettleRelease string string

definition conclude ::
  "string \<Rightarrow> send_record \<Rightarrow> listmonk_reply \<Rightarrow> settlement \<times> (send_error + send_output)" where
  "conclude k rec reply =
     (case dispatchToListmonk reply of
        Inl err \<Rightarrow>
          (if isDefinitivePreDispatchError err
           then (SettleRelease k (tx_claimToken rec), Inl (SendThrown err))
           else (SettleCommit \<lparr>cm_key = k, cm_claimToken = tx_claimToken rec,
                               cm_status = SendUnknown, cm_sent = None,
                               cm_errorMessage = Some (thrown_message err)\<rparr>,
                 Inl (SendReconcileError k SendUnknown
                   (''Transactional dispatch failed ambiguously ('' @ quoted (thrown_message err) @
                    ''). The message may or may not have been sent. Automatic retry is blocked; inspect Listmonk and the idempotency record before reconciling.''))))
      | Inr sent \<Rightarrow>
          (SettleCommit \<lparr>cm_key = k, cm_claimToken = tx_claimToken rec,
                         cm_status = (if sent then SendAccepted else SendFailed),
                         cm_sent = Some sent, cm_errorMessage = None\<rparr>,
           Inr \<lparr>so_sent = sent,
                so_status = (if sent then OutAccepted else OutFailed),
                so_duplicate = Some False,
                so_idempotency_key = Some k,
                so_expires_at = Some (tx_expiresAt rec)\<rparr>))"

subsection \<open>The operation\<close>

record ('d, 'io) send_context =
  sc_idempotencyStore :: "('d, 'io) idem_store option"
  sc_hashPayload :: "(string \<Rightarrow> string) option"
  sc_target :: "string option \<times> string option"

datatype begun =
    BeginDone "send_error + send_output"
  | BeginUnkeyed
  | BeginDispatch "(string \<times> send_record)"

definition claim_request ::
  "(string \<Rightarrow> string) \<Rightarrow> string option \<times> string option \<Rightarrow> string \<Rightarrow> send_input \<Rightarrow> claim_options" where
  "claim_request hashPayload target k input =
     \<lparr>co_key = k,
      co_payloadHash = hashPayload (serializeTransactionalPayload input),
      co_targetHash = computeTransactionalTargetHash (fst target) (snd target),
      co_ttlMs = None\<rparr>"

definition begin_send ::
  "('d, 'io) send_context \<Rightarrow> 'io \<Rightarrow> instant \<Rightarrow> string \<Rightarrow> send_input \<Rightarrow> 'd \<Rightarrow> 'd \<times> begun" where
  "begin_send ctx io now tok input d =
     (case si_idempotency_key input of
        None \<Rightarrow> (d, BeginUnkeyed)
      | Some k \<Rightarrow>
          (case (sc_idempotencyStore ctx, sc_hashPayload ctx) of
             (Some store, Some hashPayload) \<Rightarrow>
               (case st_claim store io now tok (claim_request hashPayload (sc_target ctx) k input) d of
                  (d', Inl e) \<Rightarrow> (d', BeginDone (Inl (SendStoreFailure e)))
                | (d', Inr (ClaimConflict existing)) \<Rightarrow>
                    (d', BeginDone (Inl (SendInputError
                      (''Idempotency key '' @ quoted k @ '' is already associated with a different payload or Listmonk target. Use a new key or remove idempotency_key to force a fresh send.''))))
                | (d', Inr (ClaimReplay rec)) \<Rightarrow> (d', BeginDone (replay_outcome rec))
                | (d', Inr (ClaimNew rec)) \<Rightarrow> (d', BeginDispatch (k, rec)))
           | _ \<Rightarrow>
               (d, BeginDone (Inl (SendInputError
                 ''idempotency_key was supplied but this surface does not provide an idempotency store. Omit idempotency_key or run through the CLI/MCP adapter.'')))))"

text \<open>\<open>commitBestEffort\<close> and \<open>releaseBestEffort\<close>: a failure of the store is only logged.\<close>

fun settle_send ::
  "('d, 'io) idem_store \<Rightarrow> 'io \<Rightarrow> instant \<Rightarrow> settlement \<Rightarrow> 'd \<Rightarrow> 'd" where
  "settle_send store io now (SettleCommit cm) d = fst (st_commit store io now cm d)"
| "settle_send store io now (SettleRelease k tok) d = fst (st_release store io now k tok d)"

text \<open>
  The operation run without interference: the store after it, whether Listmonk was
  called, and the outcome.
\<close>

definition unkeyed_outcome :: "listmonk_reply \<Rightarrow> send_error + send_output" where
  "unkeyed_outcome reply =
     (case dispatchToListmonk reply of
        Inl e \<Rightarrow> Inl (SendThrown e)
      | Inr sent \<Rightarrow> Inr \<lparr>so_sent = sent, so_status = (if sent then OutAccepted else OutFailed),
                        so_duplicate = None, so_idempotency_key = None, so_expires_at = None\<rparr>)"

definition sendTransactionalMessage ::
  "('d, 'io) send_context \<Rightarrow> 'io \<times> 'io \<Rightarrow> instant \<times> instant \<Rightarrow> string \<Rightarrow> listmonk_reply
     \<Rightarrow> send_input \<Rightarrow> 'd \<Rightarrow> 'd \<times> bool \<times> (send_error + send_output)" where
  "sendTransactionalMessage ctx io now tok reply input d =
     (case begin_send ctx (fst io) (fst now) tok input d of
        (d1, BeginUnkeyed) \<Rightarrow> (d1, True, unkeyed_outcome reply)
      | (d1, BeginDone r) \<Rightarrow> (d1, False, r)
      | (d1, BeginDispatch (k, rec)) \<Rightarrow>
          (case conclude k rec reply of
             (s, out) \<Rightarrow>
               (settle_send (the (sc_idempotencyStore ctx)) (snd io) (snd now) s d1, True, out)))"

end
