(* ===== verification/Transactional_Concurrency.thy ===== *)
theory Transactional_Concurrency
  imports Transactional_Operation
begin

section \<open>Concurrent sends deliver a key at most once\<close>

text \<open>
  Any number of processes run \<open>sendTransactionalMessage\<close> on one store.  A process is
  between its claim and its dispatch (\<open>Dispatching\<close>), between its dispatch and the
  best-effort settlement (\<open>Settling\<close>), or gone; it may crash at any point.  The
  environment chooses the I/O outcomes, the instants and Listmonk's answers;
  \<open>sy_delivered\<close> counts, per key, the dispatches Listmonk processed.

  \<open>faithful_reply\<close> is what the code relies on: an error that
  \<open>isDefinitivePreDispatchError\<close> accepts (connection refused, host not found, a 4xx
  answer) means that Listmonk did not process the message.

  Inside the locale of the store interface, every system state reachable within a
  window \<open>[lo, hi]\<close> of at most the default time to live has delivered each key at
  most once.
\<close>

datatype send_phase =
    Dispatching string send_record
  | Settling string settlement

fun phase_key :: "send_phase \<Rightarrow> string" where
  "phase_key (Dispatching k r) = k"
| "phase_key (Settling k s) = k"

text \<open>Nothing is delivered yet, or the settlement says so.\<close>

fun undelivered_phase :: "send_phase \<Rightarrow> bool" where
  "undelivered_phase (Dispatching k r) = True"
| "undelivered_phase (Settling k (SettleRelease k' t)) = True"
| "undelivered_phase (Settling k (SettleCommit cm)) = False"

fun settlement_key :: "settlement \<Rightarrow> string" where
  "settlement_key (SettleCommit cm) = cm_key cm"
| "settlement_key (SettleRelease k t) = k"

record 'd send_system =
  sy_store :: 'd
  sy_procs :: "nat \<rightharpoonup> send_phase"
  sy_delivered :: "string \<Rightarrow> nat"

definition faithful_reply :: "listmonk_reply \<Rightarrow> bool \<Rightarrow> bool" where
  "faithful_reply reply delivered =
     (case dispatchToListmonk reply of
        Inl e \<Rightarrow> \<not> (isDefinitivePreDispatchError e \<and> delivered)
      | Inr _ \<Rightarrow> True)"

inductive send_step ::
  "('d, 'io) idem_store \<Rightarrow> instant \<Rightarrow> instant \<Rightarrow> 'd send_system \<Rightarrow> 'd send_system \<Rightarrow> bool"
  for store lo hi where
  step_begin: "send_step store lo hi s
      (s\<lparr>sy_store := d', sy_procs := (sy_procs s)(pid \<mapsto> Dispatching k rec)\<rparr>)"
    if "lo \<le> now" "now \<le> hi" "sy_procs s pid = None"
       "sc_idempotencyStore ctx = Some store"
       "begin_send ctx io now tok input (sy_store s) = (d', BeginDispatch (k, rec))"
| step_done: "send_step store lo hi s (s\<lparr>sy_store := d'\<rparr>)"
    if "lo \<le> now" "now \<le> hi" "sc_idempotencyStore ctx = Some store"
       "begin_send ctx io now tok input (sy_store s) = (d', BeginDone out)"
| step_dispatch: "send_step store lo hi s
      (s\<lparr>sy_procs := (sy_procs s)(pid \<mapsto> Settling k (fst (conclude k rec reply))),
         sy_delivered := (sy_delivered s)(k := sy_delivered s k + of_bool delivered)\<rparr>)"
    if "sy_procs s pid = Some (Dispatching k rec)" "faithful_reply reply delivered"
| step_settle: "send_step store lo hi s
      (s\<lparr>sy_store := settle_send store io now st (sy_store s),
         sy_procs := (sy_procs s)(pid := None)\<rparr>)"
    if "lo \<le> now" "now \<le> hi" "sy_procs s pid = Some (Settling k st)"
| step_crash: "send_step store lo hi s (s\<lparr>sy_procs := (sy_procs s)(pid := None)\<rparr>)"

definition idle_system :: "'d \<Rightarrow> 'd send_system" where
  "idle_system d = \<lparr>sy_store = d, sy_procs = Map.empty, sy_delivered = (\<lambda>_. 0)\<rparr>"

definition send_reachable ::
  "('d, 'io) idem_store \<Rightarrow> instant \<Rightarrow> instant \<Rightarrow> 'd \<Rightarrow> 'd send_system \<Rightarrow> bool" where
  "send_reachable store lo hi d s = (send_step store lo hi)\<^sup>*\<^sup>* (idle_system d) s"

lemma begin_dispatch_claim:
  assumes "begin_send ctx io now tok input d = (d', BeginDispatch (k, rec))"
    and "sc_idempotencyStore ctx = Some store"
  shows "\<exists>opts. co_key opts = k \<and> co_ttlMs opts = None \<and>
           st_claim store io now tok opts d = (d', Inr (ClaimNew rec))"
  using assms
  by (auto simp: begin_send_def claim_request_def split: option.splits prod.splits sum.splits
      claim_result.splits if_splits) (metis claim_options.select_convs(1,4))

lemma begin_done_claim:
  assumes "begin_send ctx io now tok input d = (d', BeginDone out)"
    and "sc_idempotencyStore ctx = Some store"
  shows "d' = d \<or> (\<exists>opts r. st_claim store io now tok opts d = (d', r))"
  using assms
  by (auto simp: begin_send_def split: option.splits prod.splits sum.splits claim_result.splits)

lemma conclude_key: "settlement_key (fst (conclude k rec reply)) = k"
  by (auto simp: conclude_def split: sum.splits)

lemma conclude_release:
  "fst (conclude k rec reply) = SettleRelease k' t \<Longrightarrow> faithful_reply reply delivered \<Longrightarrow> \<not> delivered"
  by (auto simp: conclude_def faithful_reply_def split: sum.splits if_splits)

subsection \<open>The invariant\<close>

text \<open>
  \<open>K k\<close> says that the store holds a record of \<open>k\<close> that lives to the end of the window.
\<close>

definition counted :: "(string \<Rightarrow> bool) \<Rightarrow> (string \<Rightarrow> nat) \<Rightarrow> bool" where
  "counted K dl \<longleftrightarrow> (\<forall>k. dl k = 0 \<or> (dl k = 1 \<and> K k))"

definition phase_ok :: "(string \<Rightarrow> bool) \<Rightarrow> (string \<Rightarrow> nat) \<Rightarrow> send_phase \<Rightarrow> bool" where
  "phase_ok K dl p \<longleftrightarrow> K (phase_key p) \<and> (undelivered_phase p \<longrightarrow> dl (phase_key p) = 0) \<and>
     (case p of Settling k st \<Rightarrow> settlement_key st = k | _ \<Rightarrow> True)"

definition procs_ok :: "(string \<Rightarrow> bool) \<Rightarrow> (string \<Rightarrow> nat) \<Rightarrow> (nat \<rightharpoonup> send_phase) \<Rightarrow> bool" where
  "procs_ok K dl ps \<longleftrightarrow> (\<forall>p \<in> ran ps. phase_ok K dl p)"

definition one_per_key :: "(nat \<rightharpoonup> send_phase) \<Rightarrow> bool" where
  "one_per_key ps \<longleftrightarrow> (\<forall>i j p q. ps i = Some p \<longrightarrow> ps j = Some q \<longrightarrow> phase_key p = phase_key q \<longrightarrow> i = j)"

definition core_inv :: "(string \<Rightarrow> bool) \<Rightarrow> (string \<Rightarrow> nat) \<Rightarrow> (nat \<rightharpoonup> send_phase) \<Rightarrow> bool" where
  "core_inv K dl ps \<longleftrightarrow> counted K dl \<and> procs_ok K dl ps \<and> one_per_key ps"

lemma counted_mono: "counted K dl \<Longrightarrow> (\<And>k. K k \<Longrightarrow> K' k) \<Longrightarrow> counted K' dl"
  unfolding counted_def by blast

lemma procs_mono: "procs_ok K dl ps \<Longrightarrow> (\<And>k. K k \<Longrightarrow> K' k) \<Longrightarrow> procs_ok K' dl ps"
  unfolding procs_ok_def phase_ok_def by blast

lemma core_mono: "core_inv K dl ps \<Longrightarrow> (\<And>k. K k \<Longrightarrow> K' k) \<Longrightarrow> core_inv K' dl ps"
  unfolding core_inv_def by (blast intro: counted_mono procs_mono)

lemma ran_remove: "x \<in> ran (ps(i := None)) \<Longrightarrow> x \<in> ran ps"
  by (auto simp: ran_def split: if_splits)

lemma ran_put: "x \<in> ran (ps(i \<mapsto> p)) \<Longrightarrow> x = p \<or> x \<in> ran (ps(i := None))"
  by (auto simp: ran_def split: if_splits)

lemma core_remove: "core_inv K dl ps \<Longrightarrow> core_inv K dl (ps(i := None))"
  unfolding core_inv_def procs_ok_def one_per_key_def by (auto dest: ran_remove split: if_splits)

lemma one_per_key_others:
  "one_per_key ps \<Longrightarrow> ps i = Some p \<Longrightarrow> q \<in> ran (ps(i := None)) \<Longrightarrow> phase_key q \<noteq> phase_key p"
  unfolding one_per_key_def by (force simp: ran_def split: if_splits)

lemma core_begin:
  assumes inv: "core_inv K dl ps" and "ps i = None" "\<not> K k" "K' k" "\<And>k. K k \<Longrightarrow> K' k"
  shows "core_inv K' dl (ps(i \<mapsto> Dispatching k rec))"
proof -
  have inv': "core_inv K' dl ps" using inv assms(5) by (rule core_mono)
  have dl: "dl k = 0" using inv assms(3) by (force simp: core_inv_def counted_def)
  have others: "phase_key q \<noteq> k" if "ps j = Some q" for j q
    using inv assms(3) that by (force simp: core_inv_def procs_ok_def phase_ok_def ran_def)
  have "one_per_key (ps(i \<mapsto> Dispatching k rec))"
    using inv others by (auto simp: core_inv_def one_per_key_def)
  moreover have "procs_ok K' dl (ps(i \<mapsto> Dispatching k rec))"
    using inv' dl assms(4)
    by (auto simp: core_inv_def procs_ok_def phase_ok_def dest!: ran_put ran_remove)
  ultimately show ?thesis
    using inv' by (simp add: core_inv_def)
qed

lemma core_dispatch:
  assumes inv: "core_inv K dl ps" and pid: "ps i = Some (Dispatching k rec)"
    and st: "settlement_key st = k" "\<And>k' t. st = SettleRelease k' t \<Longrightarrow> \<not> delivered"
  shows "core_inv K (dl(k := dl k + of_bool delivered)) (ps(i \<mapsto> Settling k st))"
proof -
  have me: "K k" "dl k = 0"
    using inv pid by (force simp: core_inv_def procs_ok_def phase_ok_def ran_def)+
  have others: "phase_key q \<noteq> k" if "q \<in> ran (ps(i := None))" for q
    using one_per_key_others [OF _ pid that] inv by (simp add: core_inv_def)
  have "one_per_key (ps(i \<mapsto> Settling k st))"
    using inv pid by (auto simp: core_inv_def one_per_key_def)
  moreover have "counted K (dl(k := dl k + of_bool delivered))"
    using inv me by (auto simp: core_inv_def counted_def)
  moreover have "phase_ok K (dl(k := dl k + of_bool delivered)) q"
    if "q \<in> ran (ps(i := None))" for q
    using inv others [OF that] ran_remove [OF that]
    by (auto simp: core_inv_def procs_ok_def phase_ok_def)
  moreover have "phase_ok K (dl(k := dl k + of_bool delivered)) (Settling k st)"
    using me st by (cases st) (auto simp: phase_ok_def)
  ultimately show ?thesis
    by (auto simp: core_inv_def procs_ok_def dest: ran_put)
qed

lemma core_release:
  assumes inv: "core_inv K dl ps" and pid: "ps i = Some (Settling k (SettleRelease k t))"
    and K': "\<And>k'. k' \<noteq> k \<Longrightarrow> K' k' = K k'"
  shows "core_inv K' dl (ps(i := None))"
proof -
  have me: "dl k = 0"
    using inv pid by (force simp: core_inv_def procs_ok_def phase_ok_def ran_def)
  have others: "phase_key q \<noteq> k" if "q \<in> ran (ps(i := None))" for q
    using one_per_key_others [OF _ pid that] inv by (simp add: core_inv_def)
  have "one_per_key (ps(i := None))"
    using core_remove [OF inv] by (simp add: core_inv_def)
  moreover have "counted K' dl"
    using inv me K' unfolding core_inv_def counted_def by metis
  moreover have "procs_ok K' dl (ps(i := None))"
    using core_remove [OF inv, of i] others K' by (auto simp: core_inv_def procs_ok_def phase_ok_def)
  ultimately show ?thesis by (simp add: core_inv_def)
qed

context idempotency_store
begin

definition send_inv :: "instant \<Rightarrow> 'd send_system \<Rightarrow> bool" where
  "send_inv hi s \<longleftrightarrow> ok (sy_store s) \<and>
     core_inv (\<lambda>k. view hi (sy_store s) k \<noteq> None) (sy_delivered s) (sy_procs s)"

lemma claim_keeps_views:
  assumes "ok d" "now \<le> t" "view t d k \<noteq> None"
  shows "view t (fst (st_claim store io now tok opts d)) k \<noteq> None"
  using claim_keep [OF assms(1,2)] assms(3) by fastforce

lemma commit_keeps_views:
  assumes "ok d" "now \<le> t" "view t d k \<noteq> None"
  shows "view t (fst (st_commit store io now cm d)) k \<noteq> None"
  using commit_keeps_token [OF assms(1,2), of k] assms(3) by fastforce

lemma inv_begin:
  assumes inv: "send_inv hi s" and now: "lo \<le> now" "now \<le> hi" and free: "sy_procs s pid = None"
    and hi: "hi \<le> lo + DEFAULT_TRANSACTIONAL_TTL_MS"
    and c: "st_claim store io now tok opts (sy_store s) = (d', Inr (ClaimNew rec))"
      "co_key opts = k" "co_ttlMs opts = None"
  shows "send_inv hi (s\<lparr>sy_store := d', sy_procs := (sy_procs s)(pid \<mapsto> Dispatching k rec)\<rparr>)"
proof -
  have ok: "ok (sy_store s)" "ok d'"
    using inv claim_ok [of "sy_store s" io now tok opts] c(1) by (auto simp: send_inv_def)
  have new: "view now (sy_store s) k = None" "view hi d' k \<noteq> None"
    using claim_new [OF ok(1) c(1)] c(2,3) now hi by auto
  have keep: "view hi d' k' \<noteq> None" if "view hi (sy_store s) k' \<noteq> None" for k'
    using claim_keeps_views [OF ok(1) now(2) that, of io tok opts] c(1) by simp
  have "\<not> view hi (sy_store s) k \<noteq> None"
    using view_mono [OF now(2), of "sy_store s" k] new(1) by (cases "view hi (sy_store s) k") auto
  then show ?thesis
    using inv ok new(2) keep free core_begin by (simp add: send_inv_def)
qed

lemma inv_settle:
  assumes inv: "send_inv hi s" and now: "now \<le> hi" and pid: "sy_procs s pid = Some (Settling k st)"
  shows "send_inv hi (s\<lparr>sy_store := settle_send store io now st (sy_store s),
                        sy_procs := (sy_procs s)(pid := None)\<rparr>)"
proof (cases st)
  case (SettleCommit cm)
  have ok: "ok (sy_store s)" using inv by (simp add: send_inv_def)
  have "core_inv (\<lambda>k. view hi (fst (st_commit store io now cm (sy_store s))) k \<noteq> None)
      (sy_delivered s) (sy_procs s)"
    using inv unfolding send_inv_def
    by (elim conjE core_mono) (rule commit_keeps_views [OF ok now])
  then show ?thesis
    using commit_ok [OF ok] SettleCommit by (simp add: send_inv_def core_remove del: not_None_eq)
next
  case (SettleRelease k' tok)
  have ok: "ok (sy_store s)" using inv by (simp add: send_inv_def)
  have "k' = k"
    using inv pid SettleRelease
    by (force simp: send_inv_def core_inv_def procs_ok_def phase_ok_def ran_def)
  then show ?thesis
    using inv release_ok [OF ok] release_other_key [OF ok now] SettleRelease pid
    by (auto simp: send_inv_def simp del: not_None_eq intro!: core_release)
qed

lemma inv_step:
  assumes "send_step store lo hi s s'" "send_inv hi s" "hi \<le> lo + DEFAULT_TRANSACTIONAL_TTL_MS"
  shows "send_inv hi s'"
  using assms
proof (induction rule: send_step.induct)
  case (step_begin now s pid ctx io tok input d' k rec)
  obtain opts where "co_key opts = k" "co_ttlMs opts = None"
      "st_claim store io now tok opts (sy_store s) = (d', Inr (ClaimNew rec))"
    using begin_dispatch_claim [OF step_begin(5) step_begin(4)] by blast
  then show ?case using inv_begin step_begin by simp
next
  case (step_done now ctx io tok input s d' out)
  then have "d' = sy_store s \<or> (\<exists>opts r. st_claim store io now tok opts (sy_store s) = (d', r))"
    by (intro begin_done_claim)
  then show ?case
  proof (elim disjE exE)
    fix opts r
    assume "st_claim store io now tok opts (sy_store s) = (d', r)"
    then have d': "d' = fst (st_claim store io now tok opts (sy_store s))" by simp
    have ok: "ok (sy_store s)" using step_done by (simp add: send_inv_def)
    have "core_inv (\<lambda>k. view hi d' k \<noteq> None) (sy_delivered s) (sy_procs s)"
      using step_done(5) unfolding send_inv_def d'
      by (elim conjE core_mono) (rule claim_keeps_views [OF ok step_done(2)])
    then show ?thesis
      using claim_ok [OF ok] by (simp add: send_inv_def d' del: not_None_eq)
  qed (use step_done in simp)
next
  case (step_dispatch s pid k rec reply delivered)
  have "core_inv (\<lambda>k. view hi (sy_store s) k \<noteq> None)
      ((sy_delivered s)(k := sy_delivered s k + of_bool delivered))
      ((sy_procs s)(pid \<mapsto> Settling k (fst (conclude k rec reply))))"
    using step_dispatch(3) conclude_release [OF _ step_dispatch(2)] unfolding send_inv_def
    by (intro core_dispatch [where rec = rec] step_dispatch(1) conclude_key) auto
  then show ?case using step_dispatch(3) by (simp add: send_inv_def)
next
  case (step_settle now s pid k st io)
  then show ?case using inv_settle by blast
next
  case (step_crash s pid)
  then show ?case by (simp add: send_inv_def core_remove)
qed

lemma idle_inv: "ok d \<Longrightarrow> send_inv hi (idle_system d)"
  by (simp add: send_inv_def idle_system_def core_inv_def counted_def procs_ok_def one_per_key_def)

lemma reachable_inv:
  assumes "ok d" "hi \<le> lo + DEFAULT_TRANSACTIONAL_TTL_MS" "send_reachable store lo hi d s"
  shows "send_inv hi s"
  using assms(3) unfolding send_reachable_def
  by (induction rule: rtranclp_induct) (auto intro: idle_inv assms inv_step)

lemma delivered_at_most_once:
  assumes "ok d" "hi \<le> lo + DEFAULT_TRANSACTIONAL_TTL_MS" "send_reachable store lo hi d s"
  shows "sy_delivered s k \<le> 1"
  using reachable_inv [OF assms] unfolding send_inv_def core_inv_def counted_def
  by (metis le_numeral_extra(4) zero_le_one)

end

end
