(* ===== verification/Js_Double.thy ===== *)
theory Js_Double
  imports Ops_Prelude "HOL-Library.Log_Nat"
begin

section \<open>Arithmetic on JavaScript numbers\<close>

text \<open>
  The result of a floating-point operation is the exact result rounded to 53
  significant bits, to nearest with ties to even; below \<open>2 powi - 1022\<close> the unit is that of the
  subnormal numbers.  \<open>dbl\<close> is that rounding on rationals.  A result of \<open>2 ^ 1024\<close> or more is
  where a double is infinite: \<open>overflows\<close>, which the definitions on unbounded inputs
  test.  \<open>dbl_error\<close> is the relative error bound that the proofs about computed quotas
  use, \<open>dbl_of_int\<close> says that integers up to \<open>2\<^sup>5\<^sup>3\<close> are exact, so that seat counts can be
  kept as \<open>int\<close>, and \<open>dbl_mono\<close> that rounding is monotone.
\<close>

definition round_even :: "rat \<Rightarrow> int" where
  "round_even r =
     (let f = \<lfloor>r\<rfloor>; d = r - of_int f
      in if d < 1 / 2 then f else if 1 / 2 < d then f + 1 else if even f then f else f + 1)"

definition dbl_exponent :: "rat \<Rightarrow> int" where
  "dbl_exponent x =
     (let (p, q) = quotient_of x; k = bitlen p - bitlen q
      in if x < 2 powi k then k - 1 else k)"

definition dbl :: "rat \<Rightarrow> rat" where
  "dbl x =
     (if x = 0 then 0
      else let u = 2 powi (max (dbl_exponent \<bar>x\<bar>) (- 1022) - 52) in of_int (round_even (x / u)) * u)"

definition overflows :: "rat \<Rightarrow> bool" where
  "overflows x = (2 ^ 1024 \<le> \<bar>x\<bar>)"

lemma round_even_error: "\<bar>of_int (round_even r) - r\<bar> \<le> 1 / 2"
  unfolding round_even_def Let_def by (auto simp: abs_if) linarith+

lemma round_even_int [simp]: "round_even (of_int i) = i"
  by (simp add: round_even_def)

lemma dbl_exponent_lower:
  assumes "0 < x"
  shows "2 powi (dbl_exponent x) \<le> x"
proof -
  obtain p q where pq: "quotient_of x = (p, q)" by fastforce
  have q: "0 < q" using pq by (rule quotient_of_denom_pos)
  have x: "x = of_int p / of_int q" using pq by (rule quotient_of_div)
  have p: "0 < p" using assms q by (simp add: x zero_less_divide_iff)
  have bp: "1 \<le> bitlen p" and bq: "1 \<le> bitlen q"
    using p q by (simp_all add: bitlen_alt_def)
  have lo: "(2 :: rat) powi (bitlen p - 1) \<le> of_int p"
    using bitlen_bounds [OF p] bp
    by (metis (no_types, lifting) diff_ge_0_iff_ge of_int_le_iff of_int_numeral of_int_power power_int_def)
  have hi: "of_int q < (2 :: rat) powi (bitlen q)"
    using bitlen_bounds [OF q] bq
    by (metis (no_types, lifting) bitlen_nonneg of_int_less_iff of_int_numeral of_int_power power_int_def)
  have "(2 :: rat) powi (bitlen p - bitlen q - 1) = 2 powi (bitlen p - 1) / 2 powi bitlen q"
    by (simp add: power_int_diff)
  also have "\<dots> \<le> of_int p / of_int q"
    using lo hi q p by (intro frac_le) (simp_all add: less_imp_le)
  finally show ?thesis
    by (auto simp: dbl_exponent_def pq Let_def x [symmetric] not_less)
qed

lemma dbl_exponent_upper:
  assumes "0 < x"
  shows "x < 2 powi (dbl_exponent x + 1)"
proof -
  obtain p q where pq: "quotient_of x = (p, q)" by fastforce
  have q: "0 < q" using pq by (rule quotient_of_denom_pos)
  have x: "x = of_int p / of_int q" using pq by (rule quotient_of_div)
  have p: "0 < p" using assms q by (simp add: x zero_less_divide_iff)
  have bp: "1 \<le> bitlen p" and bq: "1 \<le> bitlen q"
    using p q by (simp_all add: bitlen_alt_def)
  have hi: "of_int p < (2 :: rat) powi bitlen p"
    using bitlen_bounds [OF p] bp
    by (metis (no_types, lifting) bitlen_nonneg of_int_less_iff of_int_numeral of_int_power power_int_def)
  have lo: "(2 :: rat) powi (bitlen q - 1) \<le> of_int q"
    using bitlen_bounds [OF q] bq
    by (metis (no_types, lifting) diff_ge_0_iff_ge of_int_le_iff of_int_numeral of_int_power power_int_def)
  have "x < 2 powi bitlen p / 2 powi (bitlen q - 1)"
    unfolding x using hi lo q p by (intro frac_less) simp_all
  also have "\<dots> = 2 powi (bitlen p - bitlen q + 1)"
    by (simp add: power_int_diff power_int_add)
  finally show ?thesis
    by (auto simp: dbl_exponent_def pq Let_def)
qed

lemma powi_less_exponent: "(2 :: rat) powi a < 2 powi b \<Longrightarrow> a < b"
proof (rule ccontr)
  assume "(2 :: rat) powi a < 2 powi b" "\<not> a < b"
  then show False using power_int_increasing [of b a "2 :: rat"] by simp
qed

lemma dbl_error:
  assumes "x = 0 \<or> 2 powi (- 1022) \<le> \<bar>x\<bar>"
  shows "\<bar>dbl x - x\<bar> \<le> \<bar>x\<bar> / 2 ^ 53"
proof (cases "x = 0")
  case True
  then show ?thesis by (simp add: dbl_def)
next
  case False
  have "(2 :: rat) powi (- 1022) < 2 powi (dbl_exponent \<bar>x\<bar> + 1)"
    using assms False dbl_exponent_upper [of "\<bar>x\<bar>"] by simp
  then have e: "max (dbl_exponent \<bar>x\<bar>) (- 1022) = dbl_exponent \<bar>x\<bar>"
    using powi_less_exponent by fastforce
  define u :: rat where "u = 2 powi (dbl_exponent \<bar>x\<bar> - 52)"
  have u: "0 < u" by (simp add: u_def)
  have d: "dbl x = of_int (round_even (x / u)) * u"
    using False by (simp add: dbl_def u_def Let_def e)
  have "\<bar>dbl x - x\<bar> = \<bar>of_int (round_even (x / u)) - x / u\<bar> * u"
    using u by (simp add: d abs_mult_pos' algebra_simps flip: abs_mult_pos)
  also have "\<dots> \<le> 1 / 2 * u"
    using u by (intro mult_right_mono round_even_error) simp
  also have "2 ^ 52 * u \<le> \<bar>x\<bar>"
    using dbl_exponent_lower [of "\<bar>x\<bar>"] False by (simp add: u_def power_int_diff)
  then have "1 / 2 * u \<le> \<bar>x\<bar> / 2 ^ 53" by simp
  finally show ?thesis .
qed

lemma dbl_between:
  "2 powi (- 1022) \<le> x \<or> x = 0 \<Longrightarrow> x * (1 - 1 / 2 ^ 53) \<le> dbl x \<and> dbl x \<le> x * (1 + 1 / 2 ^ 53)"
proof -
  assume x: "2 powi (- 1022) \<le> x \<or> x = 0"
  have "(0 :: rat) \<le> 2 powi (- 1022)" by simp
  with x have "0 \<le> x" by linarith
  with x have "\<bar>dbl x - x\<bar> \<le> x / 2 ^ 53" using dbl_error [of x] by auto
  then show ?thesis unfolding abs_le_iff by (simp add: algebra_simps)
qed

lemma dbl_zero [simp]: "dbl 0 = 0"
  by (simp add: dbl_def)

lemma round_even_minus [simp]: "round_even (- r) = - round_even r"
proof (cases "of_int \<lfloor>r\<rfloor> = r")
  case True
  then show ?thesis by (metis of_int_minus round_even_int)
next
  case False
  then have "\<lfloor>- r\<rfloor> = - \<lfloor>r\<rfloor> - 1" by linarith
  then show ?thesis by (auto simp: round_even_def Let_def)
qed

lemma dbl_minus [simp]: "dbl (- x) = - dbl x"
  by (simp add: dbl_def Let_def)

lemma round_even_mono:
  assumes "r \<le> s" shows "round_even r \<le> round_even s"
proof (cases "\<lfloor>r\<rfloor> = \<lfloor>s\<rfloor>")
  case True
  then show ?thesis using assms by (simp add: round_even_def Let_def)
next
  case False
  then have "\<lfloor>r\<rfloor> + 1 \<le> \<lfloor>s\<rfloor>" using floor_mono [OF assms] by linarith
  moreover have "round_even r \<le> \<lfloor>r\<rfloor> + 1" "\<lfloor>s\<rfloor> \<le> round_even s"
    by (simp_all add: round_even_def Let_def)
  ultimately show ?thesis by linarith
qed

lemma dbl_nonneg: "0 \<le> x \<Longrightarrow> 0 \<le> dbl x"
  using round_even_mono [of 0 "x / u" for u] round_even_int [of 0] by (simp add: dbl_def Let_def)

lemma dbl_pos: "2 powi (- 1022) \<le> x \<Longrightarrow> 0 < dbl x"
proof -
  assume x: "2 powi (- 1022) \<le> x"
  have "(0 :: rat) < 2 powi (- 1022)" by simp
  with x have "0 < x" by linarith
  then have "0 < x * (1 - 1 / 2 ^ 53)" by simp
  then show "0 < dbl x" using dbl_between [of x] x by linarith
qed

lemma dbl_mono_pos:
  assumes "0 < x" "x \<le> y" shows "dbl x \<le> dbl y"
proof -
  define ex ey where "ex = max (dbl_exponent x) (- 1022)" and "ey = max (dbl_exponent y) (- 1022)"
  define ux uy :: rat where "ux = 2 powi (ex - 52)" and "uy = 2 powi (ey - 52)"
  have u: "0 < ux" "0 < uy" by (simp_all add: ux_def uy_def)
  have y: "0 < y" using assms by simp
  have dx: "dbl x = of_int (round_even (x / ux)) * ux" and dy: "dbl y = of_int (round_even (y / uy)) * uy"
    using assms(1) y by (simp_all add: dbl_def Let_def ux_def uy_def ex_def ey_def)
  have xy: "dbl_exponent x \<le> dbl_exponent y"
  proof (rule ccontr)
    assume "\<not> dbl_exponent x \<le> dbl_exponent y"
    then have "(2 :: rat) powi (dbl_exponent y + 1) \<le> 2 powi dbl_exponent x" by (intro power_int_increasing) simp_all
    then show False
      using dbl_exponent_lower [OF assms(1)] dbl_exponent_upper [OF y] assms(2) by linarith
  qed
  have bx: "x < 2 powi (ex + 1)"
    by (rule less_le_trans [OF dbl_exponent_upper [OF assms(1)]])
      (intro power_int_increasing, simp_all add: ex_def)
  have "ex \<le> ey" using xy by (auto simp: ex_def ey_def)
  then consider "ex = ey" | "ex < ey" by linarith
  then show ?thesis
  proof cases
    case 1
    then have "round_even (x / ux) \<le> round_even (y / uy)"
      using assms(2) u by (intro round_even_mono) (simp add: ux_def uy_def divide_right_mono)
    then show ?thesis
      using 1 u by (simp add: dx dy ux_def uy_def)
  next
    case 2
    then have "ey = dbl_exponent y" by (auto simp: ex_def ey_def)
    then have "by": "2 powi ey \<le> y" using dbl_exponent_lower [OF y] by simp
    have "x / ux \<le> of_int (2 ^ 53)"
      using bx u by (simp add: ux_def power_int_diff power_int_add field_simps)
    from round_even_mono [OF this] have "round_even (x / ux) \<le> 2 ^ 53" by (metis round_even_int)
    then have "dbl x \<le> of_int (2 ^ 53) * ux"
      unfolding dx using u(1) by (intro mult_right_mono) (simp_all only: of_int_le_iff less_imp_le)
    also have "\<dots> = 2 powi (ex + 1)" by (simp add: ux_def power_int_diff power_int_add)
    also have "\<dots> \<le> 2 powi ey" using 2 by (intro power_int_increasing) simp_all
    also have "\<dots> = of_int (2 ^ 52) * uy" by (simp add: uy_def power_int_diff)
    also have "\<dots> \<le> dbl y"
    proof -
      have "of_int (2 ^ 52) \<le> y / uy"
        using "by" u by (simp add: uy_def power_int_diff field_simps)
      from round_even_mono [OF this] have "2 ^ 52 \<le> round_even (y / uy)" by (metis round_even_int)
      then show ?thesis
        unfolding dy using u(2) by (intro mult_right_mono) (simp_all only: of_int_le_iff less_imp_le)
    qed
    finally show ?thesis .
  qed
qed

lemma dbl_mono:
  assumes "x \<le> y" shows "dbl x \<le> dbl y"
proof -
  consider "0 < x" | "x \<le> 0" "0 \<le> y" | "y < 0" by linarith
  then show ?thesis
  proof cases
    case 2
    then show ?thesis using dbl_nonneg [of y] dbl_nonneg [of "- x"] by simp
  next
    case 3
    then show ?thesis using dbl_mono_pos [of "- y" "- x"] assms by simp
  qed (use assms dbl_mono_pos in blast)
qed

text \<open>Integers of up to 53 bits are exact.\<close>

lemma dbl_of_int:
  assumes "\<bar>i\<bar> \<le> 2 ^ 53"
  shows "dbl (of_int i) = of_int i"
proof (cases "i = 0")
  case False
  define e where "e = dbl_exponent (of_int \<bar>i\<bar>)"
  have le: "2 powi e \<le> (of_int \<bar>i\<bar> :: rat)" and lt: "of_int \<bar>i\<bar> < (2 :: rat) powi (e + 1)"
    using False dbl_exponent_lower [of "of_int \<bar>i\<bar>"] dbl_exponent_upper [of "of_int \<bar>i\<bar>"]
    by (simp_all add: e_def)
  have "e \<le> 53"
  proof (rule ccontr)
    assume "\<not> e \<le> 53"
    then have "(2 :: rat) powi 54 \<le> 2 powi e" by (intro power_int_increasing) simp_all
    also have "\<dots> \<le> of_int \<bar>i\<bar>" by (rule le)
    also have "\<dots> \<le> 2 ^ 53" using assms by (metis of_int_le_iff of_int_numeral of_int_power)
    finally show False by simp
  qed
  have "\<exists>j. of_int i / (2 :: rat) powi (e - 52) = of_int j"
  proof (cases "e \<le> 52")
    case True
    then have "of_int i / (2 :: rat) powi (e - 52) = of_int (i * 2 ^ nat (52 - e))"
      by (simp add: power_int_def field_simps)
    then show ?thesis by blast
  next
    case False
    with \<open>e \<le> 53\<close> have e: "e = 53" by simp
    have "(2 :: rat) ^ 53 \<le> of_int \<bar>i\<bar>" using le by (simp add: e)
    then have "2 ^ 53 \<le> \<bar>i\<bar>" by (metis of_int_le_iff of_int_numeral of_int_power)
    with assms have "i = 2 ^ 53 \<or> i = - (2 ^ 53)" by linarith
    then have "of_int i / (2 :: rat) powi (e - 52) = of_int (i div 2)" by (auto simp: e)
    then show ?thesis by blast
  qed
  then obtain j where j: "of_int i / (2 :: rat) powi (e - 52) = of_int j" ..
  then have "of_int j * (2 :: rat) powi (e - 52) = of_int i"
    by (simp add: field_simps)
  moreover have "max e (- 1022) = e"
  proof -
    have "1 \<le> \<bar>i\<bar>" using False by simp
    then have "(2 :: rat) powi 0 \<le> of_int \<bar>i\<bar>" by (metis of_int_1_le_iff power_int_0_right)
    also have "\<dots> < 2 powi (e + 1)" by (rule lt)
    finally show ?thesis using powi_less_exponent [of 0 "e + 1"] by simp
  qed
  ultimately show ?thesis
    using False j by (simp add: dbl_def Let_def e_def)
qed simp

lemma dbl_ge_int: "\<bar>n\<bar> \<le> 2 ^ 53 \<Longrightarrow> of_int n \<le> x \<Longrightarrow> of_int n \<le> dbl x"
  using dbl_mono [of "of_int n" x] dbl_of_int [of n] by simp

lemma dbl_le_int: "\<bar>n\<bar> \<le> 2 ^ 53 \<Longrightarrow> x \<le> of_int n \<Longrightarrow> dbl x \<le> of_int n"
  using dbl_mono [of x "of_int n"] dbl_of_int [of n] by simp

lemma dbl_examples:
  "dbl (1 / 10) = 3602879701896397 / 36028797018963968"
  "dbl (dbl (1 / 10) + dbl (1 / 5)) \<noteq> dbl (3 / 10)"
  by code_simp+

end
