(* ===== verification/Transactional_Store.thy ===== *)
theory Transactional_Store
  imports Json_File_Store Transactional_Concurrency Js_Double
begin

section \<open>The transactional idempotency store\<close>

text \<open>
  \<^verbatim>\<open>packages/common/src/transactional-idempotency-store.ts\<close>: the durable document that
  maps an idempotency key to the record of the one send it stands for.  The
  document is an association list (the \<open>records\<close> object: distinct keys, in
  insertion order).  The operations are the callbacks of \<open>updateJsonFileStore\<close>:
  claim a key, commit an outcome, release a claim; each first sweeps the records
  that expired.  \<open>live\<close> is the abstract view, the map of unexpired records, that
  the operations implement.
\<close>

subsection \<open>Validation of stored records\<close>

text \<open>
  The tests of the validator for strings and booleans are the types of the record.  An
  instant stands for the text that \<open>toISOString\<close> writes for it, which has the four-digit
  year that \<open>isIsoTimestampValue\<close> asks for exactly in the years 0000 to 9999 (any other
  year is written with a sign and six digits).
\<close>

definition isIsoTimestampValue :: "instant \<Rightarrow> bool" where
  "isIsoTimestampValue t = (- 62167219200000 \<le> t \<and> t \<le> 253402300799999)"

definition isStoredTransactionalSendRecord :: "send_record \<Rightarrow> bool" where
  "isStoredTransactionalSendRecord r =
     (if tx_key r = [] then False
      else if tx_payloadHash r = [] then False
      else if tx_targetHash r = [] then False
      else if tx_status r = SendAccepted \<and> tx_sent r \<noteq> Some True then False
      else if tx_status r = SendFailed \<and> tx_sent r = Some True then False
      else if tx_claimToken r = [] then False
      else if \<not> isIsoTimestampValue (tx_createdAt r) then False
      else if \<not> isIsoTimestampValue (tx_updatedAt r) then False
      else if \<not> isIsoTimestampValue (tx_expiresAt r) then False
      else True)"

definition stored_entry_bad :: "string \<times> send_record \<Rightarrow> bool" where
  "stored_entry_bad p =
     (\<not> isStoredTransactionalSendRecord (snd p) \<or> tx_key (snd p) \<noteq> fst p)"

definition parseStoredTransactionalDocument :: "tx_document \<Rightarrow> string + tx_document" where
  "parseStoredTransactionalDocument d =
     (if tx_version d \<noteq> 1 then Inl ''unsupported schema version''
      else case List.find stored_entry_bad (tx_records d) of
             Some (k, r) \<Rightarrow>
               (if \<not> isStoredTransactionalSendRecord r
                then Inl (''record '' @ k @ '' failed schema validation'')
                else Inl (''record key '' @ tx_key r @ '' does not match map key '' @ k))
           | None \<Rightarrow> Inr \<lparr>tx_version = 1, tx_records = tx_records d\<rparr>)"

definition createTransactionalStore :: "tx_document json_store" where
  "createTransactionalStore =
     \<lparr>js_default = \<lparr>tx_version = 1, tx_records = []\<rparr>,
      js_parse = parseStoredTransactionalDocument\<rparr>"

subsection \<open>Sweeping expired records\<close>

definition getOwnRecord :: "(string \<times> send_record) list \<Rightarrow> string \<Rightarrow> send_record option" where
  "getOwnRecord rs k = map_of rs k"

definition sweepExpiredRecords :: "tx_document \<Rightarrow> instant \<Rightarrow> tx_document \<times> bool" where
  "sweepExpiredRecords d now =
     (let survivors = filter (\<lambda>(k, r). tx_expiresAt r \<ge> now) (tx_records d);
          changed = (\<exists>p \<in> set (tx_records d). \<not> tx_expiresAt (snd p) \<ge> now)
      in (if changed then \<lparr>tx_version = 1, tx_records = survivors\<rparr> else d, changed))"

subsection \<open>Claim, commit, release\<close>

definition resolve_ttl :: "js_number option \<Rightarrow> tx_error + rat" where
  "resolve_ttl ttl =
     (case (case ttl of None \<Rightarrow> Num (of_int DEFAULT_TRANSACTIONAL_TTL_MS) | Some n \<Rightarrow> n) of
        Num q \<Rightarrow> (if q \<le> 0 then Inl InvalidTtl else Inr q)
      | _ \<Rightarrow> Inl InvalidTtl)"

text \<open>
  \<open>new Date(now + ttl).toISOString()\<close>: the sum is a double, a date beyond the range of
  \<open>Date\<close> is invalid, and a date truncates to whole milliseconds toward zero.
\<close>

definition expiry :: "instant \<Rightarrow> rat \<Rightarrow> tx_error + instant" where
  "expiry now ttl =
     (let t = dbl (of_int now + ttl)
      in if \<bar>t\<bar> > of_int max_date then Inl InvalidDate
         else Inr (if 0 \<le> t then \<lfloor>t\<rfloor> else \<lceil>t\<rceil>))"

lemma expiry_int:
  assumes "expiry now ttl = Inr e" "of_int now + ttl = of_int n"
  shows "e = n"
proof -
  have m: "(of_int max_date :: rat) < 2 ^ 53" by (simp add: max_date_def)
  have b: "\<bar>dbl (of_int n)\<bar> \<le> of_int max_date"
    using assms by (auto simp: expiry_def Let_def split: if_splits)
  have "n \<le> 2 ^ 53"
  proof (rule ccontr)
    assume "\<not> ?thesis"
    then have "(2 :: rat) ^ 53 \<le> dbl (of_int n)"
      using dbl_ge_int [of "2 ^ 53" "of_int n"] by simp
    then show False using b m by linarith
  qed
  moreover have "- (2 ^ 53) \<le> n"
  proof (rule ccontr)
    assume "\<not> ?thesis"
    then have "dbl (of_int n) \<le> - ((2 :: rat) ^ 53)"
      using dbl_le_int [of "- (2 ^ 53)" "of_int n"] by simp
    then show False using b m by linarith
  qed
  ultimately have "dbl (of_int n) = of_int n" by (intro dbl_of_int) linarith
  then show ?thesis using assms by (auto simp: expiry_def Let_def split: if_splits)
qed

lemma expiry_later:
  assumes "0 < ttl" "expiry now ttl = Inr e"
  shows "now \<le> e"
proof -
  define t where "t = dbl (of_int now + ttl)"
  have e: "e = (if 0 \<le> t then \<lfloor>t\<rfloor> else \<lceil>t\<rceil>)" and b: "\<bar>t\<bar> \<le> of_int max_date"
    using assms(2) by (auto simp: expiry_def Let_def t_def split: if_splits)
  have m: "(of_int max_date :: rat) < 2 ^ 53" by (simp add: max_date_def)
  have "of_int now \<le> t"
  proof -
    consider "2 ^ 53 < now" | "now < - (2 ^ 53)" | "\<bar>now\<bar> \<le> 2 ^ 53" by linarith
    then show ?thesis
    proof cases
      case 1
      then have "(2 :: rat) ^ 53 \<le> t"
        using dbl_ge_int [of "2 ^ 53" "of_int now + ttl"] assms(1) by (simp add: t_def)
      then show ?thesis using b m by linarith
    next
      case 2
      then have "of_int now \<le> - ((2 :: rat) ^ 53)" by simp
      then show ?thesis using b m by linarith
    next
      case 3
      then show ?thesis using dbl_ge_int [of now "of_int now + ttl"] assms(1) by (simp add: t_def)
    qed
  qed
  then show ?thesis unfolding e by (auto simp: le_floor_iff) (metis le_of_int_ceiling of_int_le_iff order_trans)
qed

definition claim_update ::
  "claim_options \<Rightarrow> rat \<Rightarrow> instant \<Rightarrow> string \<Rightarrow> tx_document
     \<Rightarrow> tx_error + (tx_document \<times> claim_result)" where
  "claim_update opts ttl now token d =
     (case expiry now ttl of
        Inl e \<Rightarrow> Inl e
      | Inr expiresAt \<Rightarrow>
          (let swept = fst (sweepExpiredRecords d now); records = tx_records swept
           in case getOwnRecord records (co_key opts) of
                Some existing \<Rightarrow>
                  (let samePayload = (tx_payloadHash existing = co_payloadHash opts \<and>
                                      tx_targetHash existing = co_targetHash opts)
                   in if \<not> samePayload then Inr (swept, ClaimConflict existing)
                      else Inr (swept, ClaimReplay existing))
              | None \<Rightarrow>
                  (if length records \<ge> TRANSACTIONAL_STORE_MAX_RECORDS then Inl CapacityError
                   else let rec = \<lparr>tx_key = co_key opts,
                                   tx_payloadHash = co_payloadHash opts,
                                   tx_targetHash = co_targetHash opts,
                                   tx_status = SendPending,
                                   tx_sent = None,
                                   tx_errorMessage = None,
                                   tx_claimToken = token,
                                   tx_createdAt = now,
                                   tx_updatedAt = now,
                                   tx_expiresAt = expiresAt\<rparr>
                        in Inr (\<lparr>tx_version = 1,
                                 tx_records = AList.update (co_key opts) rec records\<rparr>,
                                ClaimNew rec))))"

definition claimTransactionalSend ::
  "io_env \<Rightarrow> claim_options \<Rightarrow> instant \<Rightarrow> string \<Rightarrow> tx_document option
     \<Rightarrow> tx_document option \<times> (tx_error store_failure + claim_result)" where
  "claimTransactionalSend io opts now token file =
     (case resolve_ttl (co_ttlMs opts) of
        Inl e \<Rightarrow> (file, Inl (CallbackFailed e))
      | Inr ttl \<Rightarrow>
          updateJsonFileStore createTransactionalStore io (claim_update opts ttl now token) file)"

definition commit_update ::
  "commit_options \<Rightarrow> instant \<Rightarrow> tx_document \<Rightarrow> tx_error + (tx_document \<times> unit)" where
  "commit_update opts now d =
     (let swept = fst (sweepExpiredRecords d now)
      in case getOwnRecord (tx_records swept) (cm_key opts) of
           None \<Rightarrow> Inr (swept, ())
         | Some existing \<Rightarrow>
             (if tx_claimToken existing \<noteq> cm_claimToken opts then Inr (swept, ())
              else let updated = commit_record opts now existing
                   in Inr (\<lparr>tx_version = 1,
                            tx_records = AList.update (cm_key opts) updated (tx_records swept)\<rparr>,
                           ())))"

definition commitTransactionalSend ::
  "io_env \<Rightarrow> commit_options \<Rightarrow> instant \<Rightarrow> tx_document option
     \<Rightarrow> tx_document option \<times> (tx_error store_failure + unit)" where
  "commitTransactionalSend io opts now file =
     updateJsonFileStore createTransactionalStore io (commit_update opts now) file"

definition release_update ::
  "string \<Rightarrow> string \<Rightarrow> instant \<Rightarrow> tx_document \<Rightarrow> tx_error + (tx_document \<times> unit)" where
  "release_update k token now d =
     (let swept = fst (sweepExpiredRecords d now)
      in case getOwnRecord (tx_records swept) k of
           None \<Rightarrow> Inr (swept, ())
         | Some existing \<Rightarrow>
             (if tx_claimToken existing \<noteq> token then Inr (swept, ())
              else Inr (\<lparr>tx_version = 1, tx_records = AList.delete k (tx_records swept)\<rparr>, ())))"

definition releaseTransactionalSend ::
  "io_env \<Rightarrow> string \<Rightarrow> string \<Rightarrow> instant \<Rightarrow> tx_document option
     \<Rightarrow> tx_document option \<times> (tx_error store_failure + unit)" where
  "releaseTransactionalSend io k token now file =
     updateJsonFileStore createTransactionalStore io (release_update k token now) file"

subsection \<open>Well-formed documents and the live view\<close>

definition tx_wf :: "tx_document \<Rightarrow> bool" where
  "tx_wf d \<longleftrightarrow> tx_version d = 1 \<and> distinct (map fst (tx_records d)) \<and>
     (\<forall>p \<in> set (tx_records d). \<not> stored_entry_bad p)"

definition live :: "instant \<Rightarrow> tx_document \<Rightarrow> string \<Rightarrow> send_record option" where
  "live t d k =
     (case map_of (tx_records d) k of
        None \<Rightarrow> None
      | Some r \<Rightarrow> (if tx_expiresAt r \<ge> t then Some r else None))"

definition live_count :: "instant \<Rightarrow> tx_document \<Rightarrow> nat" where
  "live_count t d = length (filter (\<lambda>(k, r). tx_expiresAt r \<ge> t) (tx_records d))"

lemma parse_ok_iff:
  "parseStoredTransactionalDocument d = Inr d' \<longleftrightarrow>
     d' = \<lparr>tx_version = 1, tx_records = tx_records d\<rparr> \<and> tx_version d = 1 \<and>
     (\<forall>p \<in> set (tx_records d). \<not> stored_entry_bad p)"
proof (cases "List.find stored_entry_bad (tx_records d)")
  case None
  then have "\<forall>p \<in> set (tx_records d). \<not> stored_entry_bad p"
    by (auto simp: find_None_iff)
  with None show ?thesis
    by (auto simp: parseStoredTransactionalDocument_def)
next
  case (Some p)
  then have "p \<in> set (tx_records d)" "stored_entry_bad p"
    by (auto dest: find_Some_in)
  moreover have "\<not> is_ok (parseStoredTransactionalDocument d)"
    using Some by (simp add: parseStoredTransactionalDocument_def split: prod.splits)
  ultimately show ?thesis by auto
qed

lemma parse_wf: "tx_wf d \<Longrightarrow> parseStoredTransactionalDocument d = Inr d"
  by (simp add: parse_ok_iff tx_wf_def)

lemma sweep_records [simp]:
  "tx_records (fst (sweepExpiredRecords d now)) =
     filter (\<lambda>(k, r). tx_expiresAt r \<ge> now) (tx_records d)"
  by (auto simp: sweepExpiredRecords_def Let_def case_prod_beta intro!: filter_True [symmetric])

lemma sweep_version [simp]: "tx_version d = 1 \<Longrightarrow> tx_version (fst (sweepExpiredRecords d now)) = 1"
  by (simp add: sweepExpiredRecords_def Let_def)

lemma distinct_filter_keys: "distinct (map fst xs) \<Longrightarrow> distinct (map fst (filter P xs))"
  by (rule distinct_map_filter)

lemma map_of_filter_live:
  assumes "distinct (map fst rs)"
  shows "map_of (filter (\<lambda>(k, r). tx_expiresAt r \<ge> now) rs) k =
         (case map_of rs k of None \<Rightarrow> None
          | Some r \<Rightarrow> if tx_expiresAt r \<ge> now then Some r else None)"
  using assms
proof (induction rs)
  case Nil
  then show ?case by simp
next
  case (Cons p rs)
  have "map_of rs (fst p) = None"
    using Cons.prems by (simp add: map_of_eq_None_iff)
  with Cons show ?case by (cases p) (auto split: option.splits)
qed

lemma sweep_lookup:
  "tx_wf d \<Longrightarrow> getOwnRecord (tx_records (fst (sweepExpiredRecords d now))) k = live now d k"
  by (simp add: getOwnRecord_def tx_wf_def map_of_filter_live live_def)

lemma sweep_wf: "tx_wf d \<Longrightarrow> tx_wf (fst (sweepExpiredRecords d now))"
  by (auto simp: tx_wf_def distinct_filter_keys)

lemma live_sweep:
  "tx_wf d \<Longrightarrow> now \<le> t \<Longrightarrow> live t (fst (sweepExpiredRecords d now)) = live t d"
  by (rule ext)
    (auto simp: live_def tx_wf_def map_of_filter_live split: option.splits)

lemma live_update:
  "live t (d\<lparr>tx_records := AList.update k r (tx_records d)\<rparr>) =
     (live t d)(k := if tx_expiresAt r \<ge> t then Some r else None)"
  by (rule ext) (auto simp: live_def update_conv)

lemma live_delete:
  "live t (d\<lparr>tx_records := AList.delete k (tx_records d)\<rparr>) = (live t d)(k := None)"
  by (rule ext) (auto simp: live_def delete_conv)

lemma doc_eta: "tx_version d = 1 \<Longrightarrow> \<lparr>tx_version = 1, tx_records = rs\<rparr> = d\<lparr>tx_records := rs\<rparr>"
  by (cases d) simp

lemma update_wf:
  assumes "tx_wf d" "isStoredTransactionalSendRecord r" "tx_key r = k"
  shows "tx_wf (d\<lparr>tx_records := AList.update k r (tx_records d)\<rparr>)"
proof -
  have sub: "set (AList.update k r rs) \<subseteq> insert (k, r) (set rs)" for rs
    by (induction rs) auto
  show ?thesis
    using assms sub [of "tx_records d"]
    by (auto simp: tx_wf_def distinct_update stored_entry_bad_def)
qed

lemma delete_wf: "tx_wf d \<Longrightarrow> tx_wf (d\<lparr>tx_records := AList.delete k (tx_records d)\<rparr>)"
  by (auto simp: tx_wf_def distinct_delete AList.delete_eq distinct_filter_keys)

lemma live_expires: "live t d k = Some r \<Longrightarrow> t \<le> tx_expiresAt r"
  by (auto simp: live_def split: option.splits if_splits)

lemma live_valid:
  "tx_wf d \<Longrightarrow> live t d k = Some r \<Longrightarrow> isStoredTransactionalSendRecord r \<and> tx_key r = k"
  by (auto simp: live_def tx_wf_def stored_entry_bad_def split: option.splits if_splits
      dest!: map_of_SomeD)

subsection \<open>The operations on the live view\<close>

lemma claim_update_existing:
  assumes "tx_wf d" "expiry now ttl = Inr e" "live now d (co_key opts) = Some r"
  shows "claim_update opts ttl now token d =
    Inr (fst (sweepExpiredRecords d now),
         if tx_payloadHash r = co_payloadHash opts \<and> tx_targetHash r = co_targetHash opts
         then ClaimReplay r else ClaimConflict r)"
proof -
  have "getOwnRecord (tx_records (fst (sweepExpiredRecords d now))) (co_key opts) = Some r"
    using sweep_lookup [OF assms(1)] assms(3) by simp
  then show ?thesis
    using assms(2) by (simp add: claim_update_def Let_def del: sweep_records)
qed

definition fresh_record :: "claim_options \<Rightarrow> instant \<Rightarrow> instant \<Rightarrow> string \<Rightarrow> send_record" where
  "fresh_record opts now e token =
     \<lparr>tx_key = co_key opts, tx_payloadHash = co_payloadHash opts,
      tx_targetHash = co_targetHash opts, tx_status = SendPending, tx_sent = None,
      tx_errorMessage = None, tx_claimToken = token, tx_createdAt = now,
      tx_updatedAt = now, tx_expiresAt = e\<rparr>"

lemma claim_update_fresh:
  assumes "tx_wf d" "expiry now ttl = Inr e" "live now d (co_key opts) = None"
  shows "claim_update opts ttl now token d =
    (if live_count now d \<ge> TRANSACTIONAL_STORE_MAX_RECORDS then Inl CapacityError
     else let s = fst (sweepExpiredRecords d now); r = fresh_record opts now e token
          in Inr (s\<lparr>tx_records := AList.update (co_key opts) r (tx_records s)\<rparr>, ClaimNew r))"
proof -
  have "getOwnRecord (tx_records (fst (sweepExpiredRecords d now))) (co_key opts) = None"
    using sweep_lookup [OF assms(1)] assms(3) by simp
  moreover have "tx_version (fst (sweepExpiredRecords d now)) = 1"
    using sweep_wf [OF assms(1)] by (simp add: tx_wf_def)
  ultimately show ?thesis
    using assms(2)
    by (simp add: claim_update_def Let_def fresh_record_def live_count_def doc_eta)
qed

lemma commit_update_eq:
  assumes "tx_wf d"
  shows "commit_update cm now d =
    (let s = fst (sweepExpiredRecords d now)
     in case live now d (cm_key cm) of
          None \<Rightarrow> Inr (s, ())
        | Some r \<Rightarrow> if tx_claimToken r \<noteq> cm_claimToken cm then Inr (s, ())
            else Inr (s\<lparr>tx_records := AList.update (cm_key cm) (commit_record cm now r) (tx_records s)\<rparr>, ()))"
proof -
  have "tx_version (fst (sweepExpiredRecords d now)) = 1"
    using sweep_wf [OF assms] by (simp add: tx_wf_def)
  then show ?thesis
    by (simp add: commit_update_def Let_def sweep_lookup [OF assms] doc_eta
        del: sweep_records split: option.split)
qed

lemma release_update_eq:
  assumes "tx_wf d"
  shows "release_update k tok now d =
    (let s = fst (sweepExpiredRecords d now)
     in case live now d k of
          None \<Rightarrow> Inr (s, ())
        | Some r \<Rightarrow> if tx_claimToken r \<noteq> tok then Inr (s, ())
            else Inr (s\<lparr>tx_records := AList.delete k (tx_records s)\<rparr>, ()))"
proof -
  have "tx_version (fst (sweepExpiredRecords d now)) = 1"
    using sweep_wf [OF assms] by (simp add: tx_wf_def)
  then show ?thesis
    by (simp add: release_update_def Let_def sweep_lookup [OF assms] doc_eta
        del: sweep_records split: option.split)
qed

lemma live_mono: "live now d k = None \<Longrightarrow> now \<le> t \<Longrightarrow> live t d k = None"
  by (auto simp: live_def split: option.splits if_splits)

lemma live_later: "live t d k = Some r \<Longrightarrow> now \<le> t \<Longrightarrow> live now d k = Some r"
  by (auto simp: live_def split: option.splits if_splits)

lemma live_at: "live now d k = Some r \<Longrightarrow> live t d k = (if t \<le> tx_expiresAt r then Some r else None)"
  by (auto simp: live_def split: option.splits if_splits)

text \<open>What a successful claim leaves in the live view.\<close>

lemma claim_update_live:
  assumes wf: "tx_wf d" and res: "claim_update opts ttl now token d = Inr (d', out)"
    and t: "now \<le> t"
  shows "live t d' = (case out of
           ClaimNew r \<Rightarrow> (live t d)(co_key opts := if t \<le> tx_expiresAt r then Some r else None)
         | _ \<Rightarrow> live t d)"
proof -
  obtain e where e: "expiry now ttl = Inr e"
    using res by (auto simp: claim_update_def split: sum.splits)
  show ?thesis
  proof (cases "live now d (co_key opts)")
    case None
    then show ?thesis
      using res claim_update_fresh [OF wf e None, of token]
      by (auto simp: Let_def live_update live_sweep [OF wf t] simp del: sweep_records
          split: if_splits)
  next
    case (Some r)
    then show ?thesis
      using res claim_update_existing [OF wf e Some, of token]
      by (auto simp: live_sweep [OF wf t] split: if_splits)
  qed
qed

lemma commit_update_live:
  assumes wf: "tx_wf d" and res: "commit_update cm now d = Inr (d', ())" and t: "now \<le> t"
  shows "live t d' = (case live t d (cm_key cm) of
           Some r \<Rightarrow> (if tx_claimToken r = cm_claimToken cm
                      then (live t d)(cm_key cm \<mapsto> commit_record cm now r) else live t d)
         | None \<Rightarrow> live t d)"
proof (cases "live now d (cm_key cm)")
  case None
  then show ?thesis
    using res live_mono [OF None t] live_sweep [OF wf t]
    by (auto simp: commit_update_eq [OF wf] Let_def)
next
  case (Some r)
  have "tx_expiresAt (commit_record cm now r) = tx_expiresAt r"
    by (simp add: commit_record_def)
  then show ?thesis
    using res Some live_at [OF Some, of t]
    by (auto simp: commit_update_eq [OF wf] Let_def live_update live_sweep [OF wf t]
        simp del: sweep_records split: if_splits)
qed

lemma release_update_live:
  assumes wf: "tx_wf d" and res: "release_update k tok now d = Inr (d', ())" and t: "now \<le> t"
  shows "live t d' = (case live t d k of
           Some r \<Rightarrow> (if tx_claimToken r = tok then (live t d)(k := None) else live t d)
         | None \<Rightarrow> live t d)"
proof (cases "live now d k")
  case None
  then show ?thesis
    using res live_mono [OF None t] live_sweep [OF wf t]
    by (auto simp: release_update_eq [OF wf] Let_def)
next
  case (Some r)
  then show ?thesis
    using res live_at [OF Some, of t]
    by (auto simp: release_update_eq [OF wf] Let_def live_delete live_sweep [OF wf t]
        simp del: sweep_records split: if_splits)
qed

subsection \<open>The file-backed store implements the interface\<close>

definition createFileBackedTransactionalIdempotencyStore ::
  "(tx_document option, io_env) idem_store" where
  "createFileBackedTransactionalIdempotencyStore =
     \<lparr>st_claim = (\<lambda>io now token opts. claimTransactionalSend io opts now token),
      st_commit = (\<lambda>io now cm. commitTransactionalSend io cm now),
      st_release = (\<lambda>io now k token. releaseTransactionalSend io k token now),
      st_load = (\<lambda>io. readJsonFileStore createTransactionalStore io)\<rparr>"

definition file_doc :: "tx_document option \<Rightarrow> tx_document" where
  "file_doc f = (case f of None \<Rightarrow> \<lparr>tx_version = 1, tx_records = []\<rparr> | Some d \<Rightarrow> d)"

definition file_ok :: "tx_document option \<Rightarrow> bool" where
  "file_ok f \<longleftrightarrow> tx_wf (file_doc f)"

definition file_view :: "instant \<Rightarrow> tx_document option \<Rightarrow> string \<Rightarrow> send_record option" where
  "file_view t f = live t (file_doc f)"

lemma read_ok:
  "file_ok f \<Longrightarrow> readJsonFileStore createTransactionalStore io f = Inr c \<Longrightarrow> c = file_doc f"
  by (cases f)
    (auto simp: file_ok_def file_doc_def createTransactionalStore_def parse_wf split: if_splits)

lemma file_update_cases:
  assumes "file_ok f"
  obtains (unchanged) e where
      "updateJsonFileStore createTransactionalStore io upd f = (f, Inl e)" "e \<noteq> ReleaseFailed"
  | (written) d r where "upd (file_doc f) = Inr (d, r)" "parseStoredTransactionalDocument d = Inr d"
      "updateJsonFileStore createTransactionalStore io upd f =
        (Some d, if io_release io then Inr r else Inl ReleaseFailed)"
proof (rule update_cases [of createTransactionalStore io upd f])
  fix e
  assume "updateJsonFileStore createTransactionalStore io upd f = (f, Inl e)" "e \<noteq> ReleaseFailed"
  then show thesis by (rule unchanged)
next
  fix cur v r w
  assume rd: "readJsonFileStore createTransactionalStore io f = Inr cur" and
    up: "upd cur = Inr (v, r)" and ps: "js_parse createTransactionalStore v = Inr w" and
    res: "updateJsonFileStore createTransactionalStore io upd f =
            (Some v, if io_release io then Inr r else Inl ReleaseFailed)"
  have "cur = file_doc f" using read_ok [OF assms] rd by blast
  moreover have "parseStoredTransactionalDocument v = Inr v"
    using ps by (auto simp: createTransactionalStore_def parse_ok_iff)
  ultimately show thesis using written up res by blast
qed

lemma claim_keys_distinct:
  "tx_wf d \<Longrightarrow> claim_update opts ttl now token d = Inr (d', out) \<Longrightarrow>
     distinct (map fst (tx_records d'))"
  by (auto simp: claim_update_def tx_wf_def Let_def distinct_update distinct_filter_keys
      split: sum.splits option.splits if_splits)

lemma commit_keys_distinct:
  "tx_wf d \<Longrightarrow> commit_update cm now d = Inr (d', out) \<Longrightarrow> distinct (map fst (tx_records d'))"
  by (auto simp: commit_update_def tx_wf_def Let_def distinct_update distinct_filter_keys
      split: option.splits if_splits)

lemma release_keys_distinct:
  "tx_wf d \<Longrightarrow> release_update k tok now d = Inr (d', out) \<Longrightarrow> distinct (map fst (tx_records d'))"
  by (auto simp: release_update_def tx_wf_def Let_def distinct_delete distinct_filter_keys
      split: option.splits if_splits)

lemma parsed_wf:
  "parseStoredTransactionalDocument d = Inr d \<Longrightarrow> distinct (map fst (tx_records d)) \<Longrightarrow> tx_wf d"
  by (simp add: parse_ok_iff tx_wf_def)

text \<open>Every operation on the file, seen through the live view.\<close>

lemma claim_file_cases:
  assumes "file_ok f"
  obtains (unchanged) e where "claimTransactionalSend io opts now token f = (f, Inl e)"
  | (written) ttl d out where "resolve_ttl (co_ttlMs opts) = Inr ttl"
      "claim_update opts ttl now token (file_doc f) = Inr (d, out)" "tx_wf d"
      "claimTransactionalSend io opts now token f =
         (Some d, if io_release io then Inr out else Inl ReleaseFailed)"
proof (cases "resolve_ttl (co_ttlMs opts)")
  case (Inl e)
  then show thesis using unchanged by (simp add: claimTransactionalSend_def)
next
  case (Inr ttl)
  have eq: "claimTransactionalSend io opts now token f =
      updateJsonFileStore createTransactionalStore io (claim_update opts ttl now token) f"
    using Inr by (simp add: claimTransactionalSend_def)
  have wf: "tx_wf (file_doc f)" using assms by (simp add: file_ok_def)
  show thesis
  proof (rule file_update_cases [OF assms, of io "claim_update opts ttl now token"])
    fix e
    assume "updateJsonFileStore createTransactionalStore io (claim_update opts ttl now token) f =
      (f, Inl e)"
    then show thesis using unchanged eq by simp
  next
    fix d out
    assume up: "claim_update opts ttl now token (file_doc f) = Inr (d, out)"
      and ps: "parseStoredTransactionalDocument d = Inr d"
      and res: "updateJsonFileStore createTransactionalStore io (claim_update opts ttl now token) f =
         (Some d, if io_release io then Inr out else Inl ReleaseFailed)"
    have "tx_wf d" using parsed_wf [OF ps claim_keys_distinct [OF wf up]] .
    then show thesis using written [OF Inr up] eq res by simp
  qed
qed

lemma commit_file_cases:
  assumes "file_ok f"
  obtains (unchanged) e where "commitTransactionalSend io cm now f = (f, Inl e)"
  | (written) d where "commit_update cm now (file_doc f) = Inr (d, ())" "tx_wf d"
      "commitTransactionalSend io cm now f =
         (Some d, if io_release io then Inr () else Inl ReleaseFailed)"
proof (rule file_update_cases [OF assms, of io "commit_update cm now"])
  fix e
  assume "updateJsonFileStore createTransactionalStore io (commit_update cm now) f = (f, Inl e)"
  then show thesis using unchanged by (simp add: commitTransactionalSend_def)
next
  fix d out
  assume up: "commit_update cm now (file_doc f) = Inr (d, out)"
    and ps: "parseStoredTransactionalDocument d = Inr d"
    and res: "updateJsonFileStore createTransactionalStore io (commit_update cm now) f =
         (Some d, if io_release io then Inr out else Inl ReleaseFailed)"
  have "tx_wf d"
    using parsed_wf [OF ps commit_keys_distinct [OF _ up]] assms by (simp add: file_ok_def)
  then show thesis using written up res by (simp add: commitTransactionalSend_def)
qed

lemma release_file_cases:
  assumes "file_ok f"
  obtains (unchanged) e where "releaseTransactionalSend io k tok now f = (f, Inl e)"
  | (written) d where "release_update k tok now (file_doc f) = Inr (d, ())" "tx_wf d"
      "releaseTransactionalSend io k tok now f =
         (Some d, if io_release io then Inr () else Inl ReleaseFailed)"
proof (rule file_update_cases [OF assms, of io "release_update k tok now"])
  fix e
  assume "updateJsonFileStore createTransactionalStore io (release_update k tok now) f = (f, Inl e)"
  then show thesis using unchanged by (simp add: releaseTransactionalSend_def)
next
  fix d out
  assume up: "release_update k tok now (file_doc f) = Inr (d, out)"
    and ps: "parseStoredTransactionalDocument d = Inr d"
    and res: "updateJsonFileStore createTransactionalStore io (release_update k tok now) f =
         (Some d, if io_release io then Inr out else Inl ReleaseFailed)"
  have "tx_wf d"
    using parsed_wf [OF ps release_keys_distinct [OF _ up]] assms by (simp add: file_ok_def)
  then show thesis using written up res by (simp add: releaseTransactionalSend_def)
qed

lemma file_doc_Some [simp]: "file_doc (Some d) = d"
  by (simp add: file_doc_def)

lemma claim_update_new:
  assumes wf: "tx_wf d" and res: "claim_update opts ttl now token d = Inr (d', ClaimNew r)"
  shows "\<exists>e. expiry now ttl = Inr e \<and> r = fresh_record opts now e token \<and>
             live now d (co_key opts) = None"
proof -
  obtain e where e: "expiry now ttl = Inr e"
    using res by (auto simp: claim_update_def split: sum.splits)
  show ?thesis
  proof (cases "live now d (co_key opts)")
    case None
    then show ?thesis
      using res claim_update_fresh [OF wf e None, of token] e
      by (auto simp: Let_def split: if_splits)
  next
    case (Some x)
    then show ?thesis
      using res claim_update_existing [OF wf e Some, of token] by (auto split: if_splits)
  qed
qed

lemma claim_update_old:
  assumes wf: "tx_wf d" and res: "claim_update opts ttl now token d = Inr (d', out)"
    and out: "out = ClaimReplay r \<or> out = ClaimConflict r"
  shows "live now d (co_key opts) = Some r \<and>
    (out = ClaimReplay r \<longleftrightarrow>
       tx_payloadHash r = co_payloadHash opts \<and> tx_targetHash r = co_targetHash opts)"
proof -
  obtain e where e: "expiry now ttl = Inr e"
    using res by (auto simp: claim_update_def split: sum.splits)
  show ?thesis
  proof (cases "live now d (co_key opts)")
    case None
    then show ?thesis
      using res claim_update_fresh [OF wf e None, of token] out
      by (auto simp: Let_def split: if_splits)
  next
    case (Some x)
    then show ?thesis
      using res claim_update_existing [OF wf e Some, of token] out by (auto split: if_splits)
  qed
qed

lemma default_expiry:
  assumes "resolve_ttl None = Inr ttl" "expiry now ttl = Inr e"
  shows "e = now + DEFAULT_TRANSACTIONAL_TTL_MS"
proof -
  have "ttl = of_int DEFAULT_TRANSACTIONAL_TTL_MS"
    using assms(1) by (simp add: resolve_ttl_def split: if_splits)
  then have "of_int now + ttl = of_int (now + DEFAULT_TRANSACTIONAL_TTL_MS)" by simp
  then show ?thesis by (rule expiry_int [OF assms(2)])
qed

interpretation file_store: idempotency_store
  createFileBackedTransactionalIdempotencyStore file_ok file_view
proof (unfold_locales, goal_cases)
  case (1 t t' d k r)
  show ?case using live_later [OF 1(2) [unfolded file_view_def] 1(1)] unfolding file_view_def .
next
  case (2 d io now tok opts)
  show ?case
    by (rule claim_file_cases [OF 2, of io opts now tok])
      (use 2 in \<open>auto simp: createFileBackedTransactionalIdempotencyStore_def file_ok_def\<close>)
next
  case (3 d io now cm)
  show ?case
    by (rule commit_file_cases [OF 3, of io cm now])
      (use 3 in \<open>auto simp: createFileBackedTransactionalIdempotencyStore_def file_ok_def\<close>)
next
  case (4 d io now k tok)
  show ?case
    by (rule release_file_cases [OF 4, of io k tok now])
      (use 4 in \<open>auto simp: createFileBackedTransactionalIdempotencyStore_def file_ok_def\<close>)
next
  case (5 d now t k opts io tok)
  show ?case
    by (rule claim_file_cases [OF 5(1), of io opts now tok])
      (use 5 in \<open>auto simp: createFileBackedTransactionalIdempotencyStore_def file_ok_def
        file_view_def claim_update_live split: claim_result.splits\<close>)
next
  case (6 d now t k r io tok opts)
  show ?case
  proof (rule claim_file_cases [OF 6(1), of io opts now tok])
    fix ttl d' out
    assume c: "claim_update opts ttl now tok (file_doc d) = Inr (d', out)"
      and res: "claimTransactionalSend io opts now tok d =
         (Some d', if io_release io then Inr out else Inl ReleaseFailed)"
    have wf: "tx_wf (file_doc d)" using 6(1) by (simp add: file_ok_def)
    have lv: "live now (file_doc d) k = Some r"
      using live_later [OF _ 6(2)] 6(3) by (simp add: file_view_def)
    have "k \<noteq> co_key opts" if "out = ClaimNew x" for x
    proof
      assume "k = co_key opts"
      moreover have "live now (file_doc d) (co_key opts) = None"
        using claim_update_new [OF wf c [unfolded that]] by blast
      ultimately show False using lv by simp
    qed
    then show ?thesis
      using claim_update_live [OF wf c 6(2)] 6(3) res
      by (auto simp: createFileBackedTransactionalIdempotencyStore_def file_view_def
          split: claim_result.splits)
  qed (use 6 in \<open>auto simp: createFileBackedTransactionalIdempotencyStore_def\<close>)
next
  case (7 d io now tok opts d' r)
  show ?case
  proof (rule claim_file_cases [OF 7(1), of io opts now tok])
    fix ttl d'' out
    assume ttl: "resolve_ttl (co_ttlMs opts) = Inr ttl"
      and c: "claim_update opts ttl now tok (file_doc d) = Inr (d'', out)"
      and res: "claimTransactionalSend io opts now tok d =
         (Some d'', if io_release io then Inr out else Inl ReleaseFailed)"
    have wf: "tx_wf (file_doc d)" using 7(1) by (simp add: file_ok_def)
    have out: "out = ClaimNew r" "d' = Some d''"
      using 7(2) res by (auto simp: createFileBackedTransactionalIdempotencyStore_def split: if_splits)
    obtain e where e: "expiry now ttl = Inr e" "r = fresh_record opts now e tok"
        "live now (file_doc d) (co_key opts) = None"
      using claim_update_new [OF wf] c out by blast
    show ?thesis
      using e out claim_update_live [OF wf c] default_expiry [of ttl now e] ttl
      by (auto simp: file_view_def fresh_record_def)
  qed (use 7 in \<open>auto simp: createFileBackedTransactionalIdempotencyStore_def\<close>)
next
  case (8 d io now tok opts d' r)
  show ?case
    by (rule claim_file_cases [OF 8(1), of io opts now tok])
      (use 8 claim_update_old in \<open>fastforce simp: createFileBackedTransactionalIdempotencyStore_def
         file_view_def file_ok_def split: if_splits\<close>)+
next
  case (9 d io now tok opts d' r)
  show ?case
    by (rule claim_file_cases [OF 9(1), of io opts now tok])
      (use 9 claim_update_old in \<open>fastforce simp: createFileBackedTransactionalIdempotencyStore_def
         file_view_def file_ok_def split: if_splits\<close>)+
next
  case (10 d now t io cm k)
  show ?case
    by (rule commit_file_cases [OF 10(1), of io cm now])
      (use 10 commit_update_live in \<open>auto simp: createFileBackedTransactionalIdempotencyStore_def
         file_view_def file_ok_def split: option.splits if_splits\<close>)
next
  case (11 d now t io key tok k)
  show ?case
    by (rule release_file_cases [OF 11(1), of io key tok now])
      (use 11 release_update_live in \<open>auto simp: createFileBackedTransactionalIdempotencyStore_def
         file_view_def file_ok_def split: option.splits if_splits\<close>)
qed

end
