(* ===== verification/Transactional_Properties.thy ===== *)
theory Transactional_Properties
  imports Transactional_Store
begin

section \<open>What the transactional send promises\<close>

text \<open>
  The properties of the send operation on the file-backed store: at most one
  delivery per key whatever the interleaving, the outcome of a second request with
  the same key, the abstract map the store implements, and the validity of the
  document over every history of operations and input/output faults.
\<close>

subsection \<open>The store without faults\<close>

definition valid_request :: "claim_options \<Rightarrow> string \<Rightarrow> bool" where
  "valid_request opts tok \<longleftrightarrow>
     co_key opts \<noteq> [] \<and> co_payloadHash opts \<noteq> [] \<and> co_targetHash opts \<noteq> [] \<and> tok \<noteq> []"

lemma file_update_fine:
  assumes "file_ok f"
  shows "updateJsonFileStore createTransactionalStore io_fine upd f =
    (case upd (file_doc f) of
       Inl e \<Rightarrow> (f, Inl (CallbackFailed e))
     | Inr (d, r) \<Rightarrow> (case parseStoredTransactionalDocument d of
           Inl m \<Rightarrow> (f, Inl (SchemaFailed m)) | Inr _ \<Rightarrow> (Some d, Inr r)))"
proof (cases f)
  case None
  then show ?thesis
    by (auto simp: json_store_defs io_fine_def createTransactionalStore_def file_doc_def
        split: sum.splits)
next
  case (Some d)
  then have "parseStoredTransactionalDocument d = Inr d"
    using assms by (simp add: file_ok_def parse_wf)
  with Some show ?thesis
    by (auto simp: json_store_defs io_fine_def createTransactionalStore_def split: sum.splits)
qed

definition storable :: "claim_options \<Rightarrow> instant \<Rightarrow> instant \<Rightarrow> string \<Rightarrow> bool" where
  "storable opts now e tok \<longleftrightarrow>
     valid_request opts tok \<and> isIsoTimestampValue now \<and> isIsoTimestampValue e"

lemma fresh_record_stored: "isStoredTransactionalSendRecord (fresh_record opts now e tok) = storable opts now e tok"
  by (simp add: storable_def valid_request_def fresh_record_def isStoredTransactionalSendRecord_def)

lemma commit_record_stored:
  "isStoredTransactionalSendRecord r \<Longrightarrow> isIsoTimestampValue now \<Longrightarrow>
     isStoredTransactionalSendRecord (commit_record cm now r)"
  by (simp add: isStoredTransactionalSendRecord_def commit_record_def committed_sent_def
      split: if_splits)

text \<open>What the validator says of the document a claim would write.\<close>

abbreviation refused_record :: "string \<Rightarrow> string" where
  "refused_record k \<equiv> ''record '' @ k @ '' failed schema validation''"

lemma find_new_bad:
  "\<forall>p \<in> set rs. \<not> P p \<Longrightarrow> P (k, r) \<Longrightarrow> List.find P (AList.update k r rs) = Some (k, r)"
  by (induction rs) auto

lemma claim_update_parse:
  assumes wf: "tx_wf d" and res: "claim_update opts ttl now tok d = Inr (d', out)"
  shows "parseStoredTransactionalDocument d' =
    (case out of
       ClaimNew r \<Rightarrow> (if isStoredTransactionalSendRecord r then Inr d'
                      else Inl (refused_record (co_key opts)))
     | _ \<Rightarrow> Inr d')"
proof -
  obtain e where e: "expiry now ttl = Inr e"
    using res by (auto simp: claim_update_def split: sum.splits)
  define s where "s = fst (sweepExpiredRecords d now)"
  have s: "tx_wf s" unfolding s_def by (rule sweep_wf [OF wf])
  show ?thesis
  proof (cases "live now d (co_key opts)")
    case None
    define r where "r = fresh_record opts now e tok"
    have k: "tx_key r = co_key opts" by (simp add: r_def fresh_record_def)
    have out: "out = ClaimNew r" and d': "d' = s\<lparr>tx_records := AList.update (co_key opts) r (tx_records s)\<rparr>"
      using res claim_update_fresh [OF wf e None, of tok]
      by (auto simp: Let_def r_def s_def simp del: sweep_records split: if_splits)
    show ?thesis
    proof (cases "isStoredTransactionalSendRecord r")
      case True
      then show ?thesis using parse_wf [OF update_wf [OF s True k]] out d' by simp
    next
      case False
      then have "List.find stored_entry_bad (tx_records d') = Some (co_key opts, r)"
        using s unfolding d' by (simp add: find_new_bad stored_entry_bad_def tx_wf_def)
      then show ?thesis
        using s False by (simp add: parseStoredTransactionalDocument_def out tx_wf_def d')
    qed
  next
    case (Some r)
    then have "d' = s" "\<forall>x. out \<noteq> ClaimNew x"
      using res claim_update_existing [OF wf e Some, of tok] by (auto simp: s_def split: if_splits)
    then show ?thesis using parse_wf [OF s] by (auto split: claim_result.split)
  qed
qed

lemma commit_update_wf:
  assumes wf: "tx_wf d" and now: "isIsoTimestampValue now" and res: "commit_update cm now d = Inr (d', ())"
  shows "tx_wf d'"
proof (cases "live now d (cm_key cm)")
  case None
  then show ?thesis using res sweep_wf [OF wf] by (auto simp: commit_update_eq [OF wf] Let_def)
next
  case (Some r)
  have "isStoredTransactionalSendRecord (commit_record cm now r)" "tx_key (commit_record cm now r) = cm_key cm"
    using live_valid [OF wf Some] commit_record_stored [OF _ now] by (auto simp: commit_record_def)
  then show ?thesis
    using res Some sweep_wf [OF wf]
    by (auto simp: commit_update_eq [OF wf] Let_def simp del: sweep_records split: if_splits
        intro!: update_wf)
qed

lemma release_update_wf:
  assumes wf: "tx_wf d" and res: "release_update k tok now d = Inr (d', ())"
  shows "tx_wf d'"
  using res sweep_wf [OF wf]
  by (auto simp: release_update_eq [OF wf] Let_def simp del: sweep_records
      split: option.splits if_splits intro!: delete_wf)

lemma claim_fine:
  assumes "file_ok f" "resolve_ttl (co_ttlMs opts) = Inr ttl"
  shows "claimTransactionalSend io_fine opts now tok f =
    (case claim_update opts ttl now tok (file_doc f) of
       Inl e \<Rightarrow> (f, Inl (CallbackFailed e))
     | Inr (d, ClaimNew r) \<Rightarrow>
         (if isStoredTransactionalSendRecord r then (Some d, Inr (ClaimNew r))
          else (f, Inl (SchemaFailed (refused_record (co_key opts)))))
     | Inr (d, out) \<Rightarrow> (Some d, Inr out))"
proof -
  have wf: "tx_wf (file_doc f)" using assms(1) by (simp add: file_ok_def)
  show ?thesis
    using assms(2)
    by (auto simp: claimTransactionalSend_def file_update_fine [OF assms(1)] claim_update_parse [OF wf]
        split: sum.splits claim_result.splits)
qed

lemma commit_fine:
  assumes "file_ok f" "isIsoTimestampValue now" "commit_update cm now (file_doc f) = Inr (d, ())"
  shows "commitTransactionalSend io_fine cm now f = (Some d, Inr ())"
proof -
  have "parseStoredTransactionalDocument d = Inr d"
    using commit_update_wf [OF _ assms(2,3)] assms(1) by (simp add: file_ok_def parse_wf)
  then show ?thesis
    by (simp add: commitTransactionalSend_def file_update_fine [OF assms(1)] assms(3))
qed

lemma release_fine:
  assumes "file_ok f" "release_update k tok now (file_doc f) = Inr (d, ())"
  shows "releaseTransactionalSend io_fine k tok now f = (Some d, Inr ())"
proof -
  have "parseStoredTransactionalDocument d = Inr d"
    using release_update_wf [OF _ assms(2)] assms(1) by (simp add: file_ok_def parse_wf)
  then show ?thesis
    by (simp add: releaseTransactionalSend_def file_update_fine [OF assms(1)] assms(2))
qed

lemma commit_update_total: "\<exists>d'. commit_update cm now d = Inr (d', ())"
  by (simp add: commit_update_def Let_def split: option.split)

lemma release_update_total: "\<exists>d'. release_update k tok now d = Inr (d', ())"
  by (simp add: release_update_def Let_def split: option.split)

subsection \<open>The map the store implements\<close>

text \<open>
  The specification: a map from keys to the records that have not expired.  A claim
  of a free key adds a pending record, of a taken key answers with its record, and a
  claim whose record the document cannot hold (an empty key, hash or token, a time
  outside the years 0000 to 9999) is refused and changes nothing; a commit or a release acts only for the owner of the claim token.
\<close>

type_synonym live_map = "string \<rightharpoonup> send_record"

definition spec_claim ::
  "claim_options \<Rightarrow> instant \<Rightarrow> string \<Rightarrow> live_map \<Rightarrow> live_map \<times> (tx_error store_failure + claim_result)" where
  "spec_claim opts now tok m =
     (case resolve_ttl (co_ttlMs opts) of
        Inl e \<Rightarrow> (m, Inl (CallbackFailed e))
      | Inr ttl \<Rightarrow>
          (case expiry now ttl of
             Inl e \<Rightarrow> (m, Inl (CallbackFailed e))
           | Inr e \<Rightarrow>
               (case m (co_key opts) of
                  Some r \<Rightarrow>
                    (m, Inr (if tx_payloadHash r = co_payloadHash opts \<and>
                                tx_targetHash r = co_targetHash opts
                             then ClaimReplay r else ClaimConflict r))
                | None \<Rightarrow>
                    (if card (dom m) \<ge> TRANSACTIONAL_STORE_MAX_RECORDS
                     then (m, Inl (CallbackFailed CapacityError))
                     else if \<not> storable opts now e tok
                     then (m, Inl (SchemaFailed (refused_record (co_key opts))))
                     else (m(co_key opts \<mapsto> fresh_record opts now e tok),
                           Inr (ClaimNew (fresh_record opts now e tok)))))))"

definition spec_commit :: "commit_options \<Rightarrow> instant \<Rightarrow> live_map \<Rightarrow> live_map" where
  "spec_commit cm now m =
     (case m (cm_key cm) of
        Some r \<Rightarrow> (if tx_claimToken r = cm_claimToken cm
                   then m(cm_key cm \<mapsto> commit_record cm now r) else m)
      | None \<Rightarrow> m)"

definition spec_release :: "string \<Rightarrow> string \<Rightarrow> live_map \<Rightarrow> live_map" where
  "spec_release k tok m =
     (case m k of Some r \<Rightarrow> (if tx_claimToken r = tok then m(k := None) else m) | None \<Rightarrow> m)"

lemma live_count_card:
  assumes "tx_wf d"
  shows "live_count now d = card (dom (live now d))"
proof -
  let ?rs = "filter (\<lambda>(k, r). tx_expiresAt r \<ge> now) (tx_records d)"
  have d: "distinct (map fst ?rs)" using assms by (simp add: tx_wf_def distinct_filter_keys)
  have "map_of ?rs = live now d"
    using assms by (intro ext) (simp add: map_of_filter_live live_def tx_wf_def)
  then have "dom (live now d) = fst ` set ?rs" by (metis dom_map_of_conv_image_fst)
  then show ?thesis using distinct_card [OF d] by (simp add: live_count_def)
qed

lemma finite_live: "finite (dom (live t d))"
proof (rule finite_subset)
  show "dom (live t d) \<subseteq> dom (map_of (tx_records d))" by (auto simp: live_def split: option.splits)
qed (rule finite_dom_map_of)

lemma resolve_ttl_pos: "resolve_ttl t = Inr ttl \<Longrightarrow> 0 < ttl"
  by (auto simp: resolve_ttl_def split: option.splits js_number.splits if_splits)

lemma fresh_expires [simp]: "tx_expiresAt (fresh_record opts now e tok) = e"
  by (simp add: fresh_record_def)

lemma claim_update_spec:
  assumes wf: "tx_wf d" and ttl: "resolve_ttl (co_ttlMs opts) = Inr ttl"
  shows "(case claim_update opts ttl now tok d of
            Inl e \<Rightarrow> (live now d, Inl (CallbackFailed e))
          | Inr (d', ClaimNew r) \<Rightarrow>
              (if isStoredTransactionalSendRecord r then (live now d', Inr (ClaimNew r))
               else (live now d, Inl (SchemaFailed (refused_record (co_key opts)))))
          | Inr (d', out) \<Rightarrow> (live now d', Inr out)) =
         spec_claim opts now tok (live now d)"
proof (cases "expiry now ttl")
  case (Inl e)
  then show ?thesis using ttl by (simp add: claim_update_def spec_claim_def)
next
  case (Inr e)
  have later: "now \<le> e" using expiry_later [OF resolve_ttl_pos [OF ttl] Inr] .
  show ?thesis
  proof (cases "live now d (co_key opts)")
    case None
    let ?s = "fst (sweepExpiredRecords d now)" and ?r = "fresh_record opts now e tok"
    let ?d = "?s\<lparr>tx_records := AList.update (co_key opts) ?r (tx_records ?s)\<rparr>"
    have up: "claim_update opts ttl now tok d =
        (if card (dom (live now d)) \<ge> TRANSACTIONAL_STORE_MAX_RECORDS then Inl CapacityError
         else Inr (?d, ClaimNew ?r))"
      using claim_update_fresh [OF wf Inr None, of tok] live_count_card [OF wf, of now]
      by (simp only: Let_def)
    have "live now ?d = (live now d)(co_key opts \<mapsto> ?r)"
      using later by (simp only: live_update live_sweep [OF wf order_refl] fresh_expires if_True)
    then show ?thesis
      unfolding up spec_claim_def by (simp add: ttl Inr None fresh_record_stored del: sweep_records)
  next
    case (Some r)
    show ?thesis
      unfolding claim_update_existing [OF wf Inr Some, of tok] spec_claim_def
      by (simp add: ttl Inr Some live_sweep [OF wf order_refl])
  qed
qed

text \<open>C8: A claim on the file implements the map specification.  Without input/output
  faults, \<open>claim\<close> of the file-backed store answers what \<open>spec_claim\<close> answers on the map
  of unexpired records, its refusals (the lifetime, the date, the capacity, a record the
  document cannot hold) included, and leaves the file with the specified map.\<close>

theorem claim_implements_map:
  assumes "file_ok f"
  shows "(case claimTransactionalSend io_fine opts now tok f of (f', r) \<Rightarrow> (file_view now f', r)) =
         spec_claim opts now tok (file_view now f)"
proof (cases "resolve_ttl (co_ttlMs opts)")
  case (Inl e)
  then show ?thesis by (simp add: claimTransactionalSend_def spec_claim_def)
next
  case (Inr ttl)
  have wf: "tx_wf (file_doc f)" using assms(1) by (simp add: file_ok_def)
  show ?thesis
    unfolding file_view_def claim_update_spec [OF wf Inr, symmetric] claim_fine [OF assms Inr]
    by (auto split: sum.split claim_result.split)
qed

definition sample_options :: claim_options where
  "sample_options = \<lparr>co_key = ''k'', co_payloadHash = ''p'', co_targetHash = ''t'', co_ttlMs = None\<rparr>"

definition sample_file :: "tx_document option" where
  "sample_file = Some \<lparr>tx_version = 1, tx_records = [(''k'', fresh_record sample_options 0 90000 ''tok'')]\<rparr>"

lemma sample_file_ok: "file_ok sample_file"
  by code_simp

lemma claim_implements_map_witness:
  "(case claimTransactionalSend io_fine sample_options 5 ''new'' sample_file of (f', r) \<Rightarrow> (file_view 5 f', r)) =
   (file_view 5 sample_file, Inr (ClaimReplay (fresh_record sample_options 0 90000 ''tok'')))"
proof -
  have "resolve_ttl (co_ttlMs sample_options) = Inr 86400000" "expiry 5 86400000 = Inr 86400005"
    by code_simp+
  moreover have "file_view 5 sample_file ''k'' = Some (fresh_record sample_options 0 90000 ''tok'')"
    by code_simp
  ultimately show ?thesis
    unfolding claim_implements_map [OF sample_file_ok]
    by (simp add: spec_claim_def) (simp add: sample_options_def fresh_record_def)
qed

lemma settled_maps:
  assumes "file_ok f" "now \<le> t" "isIsoTimestampValue now"
  shows "file_view t (fst (commitTransactionalSend io_fine cm now f)) = spec_commit cm now (file_view t f)"
    "file_view t (fst (releaseTransactionalSend io_fine k tok now f)) = spec_release k tok (file_view t f)"
    "snd (commitTransactionalSend io_fine cm now f) = Inr ()"
    "snd (releaseTransactionalSend io_fine k tok now f) = Inr ()"
proof -
  have wf: "tx_wf (file_doc f)" using assms(1) by (simp add: file_ok_def)
  obtain dc where c: "commit_update cm now (file_doc f) = Inr (dc, ())" using commit_update_total by blast
  obtain dr where r: "release_update k tok now (file_doc f) = Inr (dr, ())" using release_update_total by blast
  show "file_view t (fst (commitTransactionalSend io_fine cm now f)) = spec_commit cm now (file_view t f)"
    "file_view t (fst (releaseTransactionalSend io_fine k tok now f)) = spec_release k tok (file_view t f)"
    "snd (commitTransactionalSend io_fine cm now f) = Inr ()"
    "snd (releaseTransactionalSend io_fine k tok now f) = Inr ()"
    using commit_fine [OF assms(1,3) c] release_fine [OF assms(1) r]
      commit_update_live [OF wf c assms(2)] release_update_live [OF wf r assms(2)]
    by (simp_all add: file_view_def spec_commit_def spec_release_def)
qed

text \<open>A commit and a release on the file implement the map specification, at every
  instant from the operation on: only the owner of the claim token changes or frees
  its key, and no other key changes.\<close>

theorem settle_implements_map:
  assumes "file_ok f" "now \<le> t" "isIsoTimestampValue now"
  shows "file_view t (fst (commitTransactionalSend io_fine cm now f)) = spec_commit cm now (file_view t f) \<and>
         file_view t (fst (releaseTransactionalSend io_fine k tok now f)) = spec_release k tok (file_view t f) \<and>
         snd (commitTransactionalSend io_fine cm now f) = Inr () \<and>
         snd (releaseTransactionalSend io_fine k tok now f) = Inr ()"
  using settled_maps [OF assms] by blast

lemma settle_implements_map_witness:
  "file_view 2 (fst (releaseTransactionalSend io_fine ''k'' ''tok'' 1 sample_file)) ''k'' = None \<and>
   file_view 2 (fst (releaseTransactionalSend io_fine ''k'' ''foreign'' 1 sample_file)) = file_view 2 sample_file"
proof -
  have "file_view 2 sample_file ''k'' = Some (fresh_record sample_options 0 90000 ''tok'')"
    by code_simp
  moreover have "file_view 2 (fst (releaseTransactionalSend io_fine ''k'' tok 1 sample_file)) =
      spec_release ''k'' tok (file_view 2 sample_file)" for tok
    using settle_implements_map [OF sample_file_ok, of 1 2] by (simp add: isIsoTimestampValue_def)
  ultimately show ?thesis by (simp add: spec_release_def fresh_record_def)
qed

subsection \<open>A second request with the same key\<close>

lemma word_hex_length: "length (hex_text (unat (w :: 32 word))) \<le> 8"
  using hex_text_length [of "unat w" 7] unsigned_less [of w] by simp

lemma target_hash_length: "length (computeTransactionalTargetHash u w) = 16"
  using word_hex_length by (simp add: computeTransactionalTargetHash_def padStart_def Let_def)

abbreviation file_backed :: "(tx_document option, io_env) send_context \<Rightarrow> bool" where
  "file_backed ctx \<equiv> sc_idempotencyStore ctx = Some createFileBackedTransactionalIdempotencyStore"

abbreviation fine_pair :: "io_env \<times> io_env" where
  "fine_pair \<equiv> (io_fine, io_fine)"

lemma resolve_default: "resolve_ttl None = Inr (of_int DEFAULT_TRANSACTIONAL_TTL_MS)"
  by (simp add: resolve_ttl_def DEFAULT_TRANSACTIONAL_TTL_MS_def)

lemma expiry_default:
  "isIsoTimestampValue (t + DEFAULT_TRANSACTIONAL_TTL_MS) \<Longrightarrow>
     expiry t (of_int DEFAULT_TRANSACTIONAL_TTL_MS) = Inr (t + DEFAULT_TRANSACTIONAL_TTL_MS)"
proof -
  assume iso: "isIsoTimestampValue (t + DEFAULT_TRANSACTIONAL_TTL_MS)"
  have "(of_int t + of_int DEFAULT_TRANSACTIONAL_TTL_MS :: rat) = of_int (t + DEFAULT_TRANSACTIONAL_TTL_MS)" by simp
  moreover have "dbl (of_int (t + DEFAULT_TRANSACTIONAL_TTL_MS)) = of_int (t + DEFAULT_TRANSACTIONAL_TTL_MS)"
    using iso by (intro dbl_of_int) (auto simp: isIsoTimestampValue_def)
  moreover have "\<bar>t + DEFAULT_TRANSACTIONAL_TTL_MS\<bar> \<le> max_date"
    using iso unfolding isIsoTimestampValue_def max_date_def by linarith
  then have "\<bar>of_int (t + DEFAULT_TRANSACTIONAL_TTL_MS) :: rat\<bar> \<le> of_int max_date"
    by (simp only: of_int_abs [symmetric] of_int_le_iff)
  ultimately show ?thesis
    unfolding expiry_def Let_def by (simp only: floor_of_int ceiling_of_int) simp
qed

text \<open>A claim of a key whose record is alive, without faults.\<close>

lemma claim_taken:
  assumes "file_ok f" "file_view t f (co_key opts) = Some r" "co_ttlMs opts = None"
    and "isIsoTimestampValue (t + DEFAULT_TRANSACTIONAL_TTL_MS)"
  shows "\<exists>f'. claimTransactionalSend io_fine opts t tok f =
    (f', Inr (if tx_payloadHash r = co_payloadHash opts \<and> tx_targetHash r = co_targetHash opts
              then ClaimReplay r else ClaimConflict r))"
proof -
  have wf: "tx_wf (file_doc f)" using assms(1) by (simp add: file_ok_def)
  note up = claim_update_existing [OF wf expiry_default [OF assms(4)] assms(2) [unfolded file_view_def], of tok]
  have "parseStoredTransactionalDocument (fst (sweepExpiredRecords (file_doc f) t)) =
      Inr (fst (sweepExpiredRecords (file_doc f) t))"
    by (rule parse_wf [OF sweep_wf [OF wf]])
  then show ?thesis
    using assms(3) by (simp add: claimTransactionalSend_def resolve_default file_update_fine [OF assms(1)] up)
qed

lemma send_dispatched:
  assumes ok: "file_ok f" and ctx: "file_backed ctx" "si_idempotency_key input = Some k"
    and send: "sendTransactionalMessage ctx (io, io') (t1, t2) tok reply input f = (f', True, out)"
  obtains f1 rec h where "sc_hashPayload ctx = Some h"
    "out = snd (conclude k rec reply)" "file_ok f1" "tx_key rec = k"
    "f' = settle_send createFileBackedTransactionalIdempotencyStore io' t2 (fst (conclude k rec reply)) f1"
    "tx_payloadHash rec = co_payloadHash (claim_request h (sc_target ctx) k input)"
    "tx_targetHash rec = co_targetHash (claim_request h (sc_target ctx) k input)"
    "tx_expiresAt rec = t1 + DEFAULT_TRANSACTIONAL_TTL_MS"
    "\<And>t. t1 \<le> t \<Longrightarrow> t \<le> t1 + DEFAULT_TRANSACTIONAL_TTL_MS \<Longrightarrow> file_view t f1 k = Some rec"
    "fst (begin_send ctx io t1 tok input f) = f1"
proof -
  let ?S = "createFileBackedTransactionalIdempotencyStore"
  obtain f1 b where beg: "begin_send ctx io t1 tok input f = (f1, b)" by (cases "begin_send ctx io t1 tok input f")
  have "\<exists>rec. b = BeginDispatch (k, rec)"
    using send beg ctx
    by (cases b) (auto simp: sendTransactionalMessage_def begin_send_def
        split: option.splits prod.splits sum.splits claim_result.splits)
  then obtain rec where b: "b = BeginDispatch (k, rec)" by blast
  obtain h where h: "sc_hashPayload ctx = Some h"
    using beg b ctx by (auto simp: begin_send_def split: option.splits)
  define opts where "opts = claim_request h (sc_target ctx) k input"
  have cl: "st_claim ?S io t1 tok opts f = (f1, Inr (ClaimNew rec))"
    using beg b ctx h unfolding opts_def
    by (auto simp: begin_send_def split: prod.splits sum.splits claim_result.splits)
  have new: "file_view t1 f (co_key opts) = None \<and> tx_claimToken rec = tok \<and> tx_key rec = co_key opts \<and>
          tx_payloadHash rec = co_payloadHash opts \<and> tx_targetHash rec = co_targetHash opts \<and>
          (co_ttlMs opts = None \<longrightarrow> tx_expiresAt rec = t1 + DEFAULT_TRANSACTIONAL_TTL_MS) \<and>
          (\<forall>t. t1 \<le> t \<and> t \<le> tx_expiresAt rec \<longrightarrow> file_view t f1 (co_key opts) = Some rec)"
    using file_store.claim_new [OF ok cl] .
  have opts: "co_key opts = k" "co_ttlMs opts = None" by (simp_all add: opts_def claim_request_def)
  have "file_ok f1" using file_store.claim_ok [OF ok, of io t1 tok opts] cl by simp
  moreover have "out = snd (conclude k rec reply)"
    "f' = settle_send ?S io' t2 (fst (conclude k rec reply)) f1"
    using send beg b ctx by (auto simp: sendTransactionalMessage_def split: prod.splits)
  ultimately show thesis using that [OF h] new opts beg unfolding opts_def by auto
qed

text \<open>A dispatched send had room, and freeing its key leaves as much.\<close>

lemma dispatched_room:
  assumes ok: "file_ok f" and ctx: "file_backed ctx" "si_idempotency_key input = Some k"
    and send: "sendTransactionalMessage ctx (io, io') (t1, t2) tok reply input f = (f', True, out)"
  shows "live_count t1 (file_doc f) < TRANSACTIONAL_STORE_MAX_RECORDS \<and>
    (\<forall>t j. t1 \<le> t \<longrightarrow> j \<noteq> k \<longrightarrow>
       file_view t (fst (begin_send ctx io t1 tok input f)) j = file_view t f j)"
proof -
  let ?S = "createFileBackedTransactionalIdempotencyStore"
  obtain f1 b where beg: "begin_send ctx io t1 tok input f = (f1, b)" by (cases "begin_send ctx io t1 tok input f")
  have "\<exists>rec. b = BeginDispatch (k, rec)"
    using send beg ctx
    by (cases b) (auto simp: sendTransactionalMessage_def begin_send_def
        split: option.splits prod.splits sum.splits claim_result.splits)
  then obtain rec opts where o: "co_key opts = k" "co_ttlMs opts = None"
    and cl: "st_claim ?S io t1 tok opts f = (f1, Inr (ClaimNew rec))"
    using begin_dispatch_claim [OF _ ctx(1)] beg by blast
  have wf: "tx_wf (file_doc f)" using ok by (simp add: file_ok_def)
  have "\<exists>ttl d. claim_update opts ttl t1 tok (file_doc f) = Inr (d, ClaimNew rec)"
    by (rule claim_file_cases [OF ok, of io opts t1 tok])
      (use cl in \<open>auto simp: createFileBackedTransactionalIdempotencyStore_def split: if_splits\<close>)
  then obtain ttl d where up: "claim_update opts ttl t1 tok (file_doc f) = Inr (d, ClaimNew rec)" by blast
  obtain e where "expiry t1 ttl = Inr e" "live t1 (file_doc f) (co_key opts) = None"
    using claim_update_new [OF wf up] by blast
  from claim_update_fresh [OF wf this, of tok] up
  have "live_count t1 (file_doc f) < TRANSACTIONAL_STORE_MAX_RECORDS" by (auto split: if_splits)
  moreover have "file_view t f1 j = file_view t f j" if "t1 \<le> t" "j \<noteq> k" for t j
    using file_store.claim_frame [OF ok that(1), of j opts io tok] that(2) o cl by simp
  ultimately show ?thesis using beg by simp
qed

lemma resend_taken:
  assumes ok: "file_ok f" and ctx: "file_backed ctx" "si_idempotency_key input = Some k" "sc_hashPayload ctx = Some h"
    and r: "file_view t f k = Some r" "isIsoTimestampValue (t + DEFAULT_TRANSACTIONAL_TTL_MS)"
    and same: "tx_payloadHash r = co_payloadHash (claim_request h (sc_target ctx) k input)"
      "tx_targetHash r = co_targetHash (claim_request h (sc_target ctx) k input)"
  shows "\<exists>f'. sendTransactionalMessage ctx (io_fine, io) (t, t') tok reply input f = (f', False, replay_outcome r)"
proof -
  have "\<exists>f'. claimTransactionalSend io_fine (claim_request h (sc_target ctx) k input) t tok f =
      (f', Inr (ClaimReplay r))"
    using claim_taken [OF ok, of t "claim_request h (sc_target ctx) k input" r tok] r same
    by (simp add: claim_request_def)
  then obtain f' where "claimTransactionalSend io_fine (claim_request h (sc_target ctx) k input) t tok f =
      (f', Inr (ClaimReplay r))" by blast
  then have "begin_send ctx io_fine t tok input f = (f', BeginDone (replay_outcome r))"
    using ctx by (simp add: begin_send_def createFileBackedTransactionalIdempotencyStore_def)
  then show ?thesis by (simp add: sendTransactionalMessage_def)
qed

lemma free_key_dispatches:
  assumes ok: "file_ok f" and ctx: "file_backed ctx" "si_idempotency_key input = Some k" "k \<noteq> []"
    and h: "sc_hashPayload ctx = Some h" "h (serializeTransactionalPayload input) \<noteq> []" "tok \<noteq> []"
    and free: "file_view t f k = None" "live_count t (file_doc f) < TRANSACTIONAL_STORE_MAX_RECORDS"
      "isIsoTimestampValue (t + DEFAULT_TRANSACTIONAL_TTL_MS)" "isIsoTimestampValue t"
  shows "\<exists>d r. begin_send ctx io_fine t tok input f = (Some d, BeginDispatch (k, r))"
proof -
  have wf: "tx_wf (file_doc f)" using ok by (simp add: file_ok_def)
  define opts where "opts = claim_request h (sc_target ctx) k input"
  have o: "co_key opts = k" "co_ttlMs opts = None" by (simp_all add: opts_def claim_request_def)
  have "computeTransactionalTargetHash u w \<noteq> []" for u w
    using target_hash_length [of u w] by auto
  then have req: "valid_request opts tok"
    using h ctx(3) by (simp add: valid_request_def opts_def claim_request_def)
  define r where "r = fresh_record opts t (t + DEFAULT_TRANSACTIONAL_TTL_MS) tok"
  have st: "isStoredTransactionalSendRecord r"
    using req free(3,4) by (simp add: r_def fresh_record_stored storable_def)
  obtain d where up: "claim_update opts (of_int DEFAULT_TRANSACTIONAL_TTL_MS) t tok (file_doc f) = Inr (d, ClaimNew r)"
    using claim_update_fresh [OF wf expiry_default [OF free(3)], of opts tok] free o
    by (auto simp: file_view_def Let_def r_def)
  have "claimTransactionalSend io_fine opts t tok f = (Some d, Inr (ClaimNew r))"
    using claim_fine [OF ok, of opts "of_int DEFAULT_TRANSACTIONAL_TTL_MS" t tok] up o st by (simp add: resolve_default)
  then show ?thesis
    using ctx(1,2) h(1) unfolding opts_def
    by (simp add: begin_send_def createFileBackedTransactionalIdempotencyStore_def)
qed

lemma settled_commit:
  assumes "file_ok f" "file_view t f (cm_key cm) = Some r" "tx_claimToken r = cm_claimToken cm" "now \<le> t"
    "isIsoTimestampValue now"
  shows "file_view t (settle_send createFileBackedTransactionalIdempotencyStore io_fine now (SettleCommit cm) f)
           (cm_key cm) = Some (commit_record cm now r)"
  using settled_maps [OF assms(1,4,5)] assms(2,3)
  by (simp add: createFileBackedTransactionalIdempotencyStore_def spec_commit_def)

text \<open>A sample context and request, on a store without a file.\<close>

definition sample_ctx :: "(tx_document option, io_env) send_context" where
  "sample_ctx = \<lparr>sc_idempotencyStore = Some createFileBackedTransactionalIdempotencyStore,
                 sc_hashPayload = Some (\<lambda>s. s), sc_target = (None, None)\<rparr>"

definition sample_input :: send_input where
  "sample_input = \<lparr>dp_template_id = 1, dp_subscriber_email = Some ''a@b.c'', dp_subscriber_id = None,
     dp_from_email = None, dp_data = None, dp_headers = None, dp_content_type = None,
     dp_messenger = None, dp_subject = None, dp_altbody = None, si_idempotency_key = Some ''k''\<rparr>"

definition acknowledged :: listmonk_reply where
  "acknowledged = ReplyResponse \<lparr>rs_error = None, rs_status = None, rs_data = Some (JBool True)\<rparr>"

definition timed_out :: listmonk_reply where
  "timed_out = ReplyThrown (ThrownError (JsError ''timeout'' None None None))"

definition refused :: listmonk_reply where
  "refused = ReplyThrown (ThrownError (JsError ''connect'' None (Some ''ECONNREFUSED'') None))"

lemma no_file_ok: "file_ok None"
  by (simp add: file_ok_def file_doc_def tx_wf_def)

lemma sample_facts:
  "file_backed sample_ctx" "si_idempotency_key sample_input = Some ''k''"
  "sc_hashPayload sample_ctx = Some (\<lambda>s. s)" "serializeTransactionalPayload sample_input \<noteq> []"
  by (simp_all add: sample_ctx_def sample_input_def serializeTransactionalPayload_def payload_json_def)

lemma dates_ok:
  "0 \<le> t \<Longrightarrow> t \<le> 1000 \<Longrightarrow> isIsoTimestampValue (t + DEFAULT_TRANSACTIONAL_TTL_MS)"
  "0 \<le> t \<Longrightarrow> t \<le> 1000 \<Longrightarrow> isIsoTimestampValue t"
  by (simp_all add: DEFAULT_TRANSACTIONAL_TTL_MS_def isIsoTimestampValue_def)

lemma sample_first:
  "\<exists>f' r. sendTransactionalMessage sample_ctx fine_pair (1, 2) ''tok'' reply sample_input None =
     (f', True, snd (conclude ''k'' r reply))"
proof -
  have "file_view 1 None ''k'' = None" "live_count 1 (file_doc None) < TRANSACTIONAL_STORE_MAX_RECORDS"
    by (simp_all add: file_view_def file_doc_def live_def live_count_def TRANSACTIONAL_STORE_MAX_RECORDS_def)
  then obtain d r where "begin_send sample_ctx io_fine 1 ''tok'' sample_input None = (Some d, BeginDispatch (''k'', r))"
    using free_key_dispatches [OF no_file_ok sample_facts(1,2) _ sample_facts(3,4), of "''tok''" 1]
      dates_ok [of 1] by auto
  then show ?thesis
    by (cases "conclude ''k'' r reply") (auto simp: sendTransactionalMessage_def intro!: exI [of _ r])
qed

text \<open>A settled send is replayed, not repeated: when a keyed send has been dispatched
  and Listmonk acknowledged or refused it, the same request made again before the key
  expires does not call Listmonk and returns the first outcome, marked as replayed.\<close>

theorem settled_send_replays:
  assumes "file_ok f" "file_backed ctx" "si_idempotency_key input = Some k"
    and send: "sendTransactionalMessage ctx fine_pair (t1, t2) tok reply input f = (f', True, Inr out)"
    and t: "t1 \<le> t2" "t2 \<le> t3" "t3 \<le> t1 + DEFAULT_TRANSACTIONAL_TTL_MS"
      "isIsoTimestampValue t1" "isIsoTimestampValue (t3 + DEFAULT_TRANSACTIONAL_TTL_MS)"
  shows "\<exists>f''. sendTransactionalMessage ctx fine_pair (t3, t4) tok' reply' input f' =
    (f'', False, Inr (out\<lparr>so_status := OutReplayed, so_duplicate := Some True\<rparr>))"
proof -
  obtain f1 rec h where h: "sc_hashPayload ctx = Some h" and out: "Inr out = snd (conclude k rec reply)"
    and f1: "file_ok f1" and k: "tx_key rec = k"
    and f': "f' = settle_send createFileBackedTransactionalIdempotencyStore io_fine t2 (fst (conclude k rec reply)) f1"
    and same: "tx_payloadHash rec = co_payloadHash (claim_request h (sc_target ctx) k input)"
      "tx_targetHash rec = co_targetHash (claim_request h (sc_target ctx) k input)"
    and e: "tx_expiresAt rec = t1 + DEFAULT_TRANSACTIONAL_TTL_MS"
    and v: "\<And>t. t1 \<le> t \<Longrightarrow> t \<le> t1 + DEFAULT_TRANSACTIONAL_TTL_MS \<Longrightarrow> file_view t f1 k = Some rec"
    using send_dispatched [OF assms(1-4)] by metis
  have v3: "file_view t3 f1 k = Some rec" using v [of t3] t by simp
  have t2: "isIsoTimestampValue t2"
    using t by (simp add: isIsoTimestampValue_def DEFAULT_TRANSACTIONAL_TTL_MS_def)
  obtain cm where cm: "fst (conclude k rec reply) = SettleCommit cm" "cm_key cm = k"
      "cm_claimToken cm = tx_claimToken rec"
    and st: "cm_status cm = SendAccepted \<or> cm_status cm = SendFailed"
    and o: "replay_outcome (commit_record cm t2 rec) = Inr (out\<lparr>so_status := OutReplayed, so_duplicate := Some True\<rparr>)"
    using out k by (auto simp: conclude_def replay_outcome_def commit_record_def committed_sent_def
        recordToOutput_def split: sum.splits if_splits)
  have "file_ok f'"
    using file_store.commit_ok [OF f1] f' cm(1) by simp
  moreover have "file_view t3 f' k = Some (commit_record cm t2 rec)"
    using settled_commit [OF f1, of t3 cm rec t2] v3 cm f' t t2 by simp
  ultimately show ?thesis
    using resend_taken [OF _ assms(2,3) h, of f' t3 "commit_record cm t2 rec"] same t o
    by (simp add: commit_record_def)
qed

lemma settled_send_replays_witness:
  "\<exists>f' f'' out. sendTransactionalMessage sample_ctx fine_pair (1, 2) ''tok'' acknowledged sample_input None = (f', True, Inr out) \<and>
     so_sent out \<and>
     sendTransactionalMessage sample_ctx fine_pair (3, 4) ''new'' timed_out sample_input f' =
       (f'', False, Inr (out\<lparr>so_status := OutReplayed, so_duplicate := Some True\<rparr>))"
proof -
  obtain f' r where first: "sendTransactionalMessage sample_ctx fine_pair (1, 2) ''tok'' acknowledged sample_input None =
     (f', True, snd (conclude ''k'' r acknowledged))" using sample_first by blast
  obtain out where out: "snd (conclude ''k'' r acknowledged) = Inr out" "so_sent out"
    by (simp add: conclude_def dispatchToListmonk_def acknowledged_def unwrapData_def)
  show ?thesis
    using settled_send_replays [OF no_file_ok sample_facts(1,2) first [unfolded out(1)], of 3 4 "''new''" timed_out]
      dates_ok [of 3] dates_ok(2) [of 1] first out by (auto simp: DEFAULT_TRANSACTIONAL_TTL_MS_def)
qed

text \<open>After an ambiguous failure nothing is sent again: when the dispatch failed in a
  way that leaves open whether Listmonk processed the message, the same request made
  again before the key expires is refused without calling Listmonk.\<close>

theorem ambiguous_send_blocks:
  assumes "file_ok f" "file_backed ctx" "si_idempotency_key input = Some k"
    and send: "sendTransactionalMessage ctx fine_pair (t1, t2) tok reply input f =
      (f', True, Inl (SendReconcileError k' st m))"
    and t: "t1 \<le> t2" "t2 \<le> t3" "t3 \<le> t1 + DEFAULT_TRANSACTIONAL_TTL_MS"
      "isIsoTimestampValue t1" "isIsoTimestampValue (t3 + DEFAULT_TRANSACTIONAL_TTL_MS)"
  shows "\<exists>f'' m'. sendTransactionalMessage ctx fine_pair (t3, t4) tok' reply' input f' =
    (f'', False, Inl (SendReconcileError k SendUnknown m'))"
proof -
  obtain f1 rec h where h: "sc_hashPayload ctx = Some h" and out: "Inl (SendReconcileError k' st m) = snd (conclude k rec reply)"
    and f1: "file_ok f1" and k: "tx_key rec = k"
    and f': "f' = settle_send createFileBackedTransactionalIdempotencyStore io_fine t2 (fst (conclude k rec reply)) f1"
    and same: "tx_payloadHash rec = co_payloadHash (claim_request h (sc_target ctx) k input)"
      "tx_targetHash rec = co_targetHash (claim_request h (sc_target ctx) k input)"
    and v: "\<And>t. t1 \<le> t \<Longrightarrow> t \<le> t1 + DEFAULT_TRANSACTIONAL_TTL_MS \<Longrightarrow> file_view t f1 k = Some rec"
    using send_dispatched [OF assms(1-4)] by metis
  have v3: "file_view t3 f1 k = Some rec" using v [of t3] t by simp
  have t2: "isIsoTimestampValue t2"
    using t by (simp add: isIsoTimestampValue_def DEFAULT_TRANSACTIONAL_TTL_MS_def)
  obtain cm where cm: "fst (conclude k rec reply) = SettleCommit cm" "cm_key cm = k"
      "cm_claimToken cm = tx_claimToken rec" and st: "cm_status cm = SendUnknown"
    using out by (auto simp: conclude_def split: sum.splits if_splits)
  have ok': "file_ok f'"
    using file_store.commit_ok [OF f1] f' cm(1) by simp
  have v': "file_view t3 f' k = Some (commit_record cm t2 rec)"
    using settled_commit [OF f1, of t3 cm rec t2] v3 cm f' t t2 by simp
  have "\<exists>f''. sendTransactionalMessage ctx fine_pair (t3, t4) tok' reply' input f' =
      (f'', False, replay_outcome (commit_record cm t2 rec))"
    using resend_taken [OF ok' assms(2,3) h v'] same t by (simp add: commit_record_def)
  then show ?thesis
    using k st by (auto simp: replay_outcome_def commit_record_def)
qed

lemma ambiguous_send_blocks_witness:
  "\<exists>f' f'' m m'. sendTransactionalMessage sample_ctx fine_pair (1, 2) ''tok'' timed_out sample_input None =
       (f', True, Inl (SendReconcileError ''k'' SendUnknown m)) \<and>
     sendTransactionalMessage sample_ctx fine_pair (3, 4) ''new'' acknowledged sample_input f' =
       (f'', False, Inl (SendReconcileError ''k'' SendUnknown m'))"
proof -
  obtain f' r where first: "sendTransactionalMessage sample_ctx fine_pair (1, 2) ''tok'' timed_out sample_input None =
     (f', True, snd (conclude ''k'' r timed_out))" using sample_first by blast
  have "\<not> isDefinitivePreDispatchError (ThrownError (JsError ''timeout'' None None None))" by code_simp
  then obtain m where m: "snd (conclude ''k'' r timed_out) = Inl (SendReconcileError ''k'' SendUnknown m)"
    by (simp add: conclude_def dispatchToListmonk_def timed_out_def del: isDefinitivePreDispatchError.simps)
  show ?thesis
    using ambiguous_send_blocks [OF no_file_ok sample_facts(1,2) first [unfolded m], of 3 4 "''new''" acknowledged]
      dates_ok [of 3] dates_ok(2) [of 1] first m by (auto simp: DEFAULT_TRANSACTIONAL_TTL_MS_def)
qed

text \<open>A definitive failure frees the key: when the dispatch failed before Listmonk
  processed the message, the key has no record afterwards, and the same request made
  again reaches Listmonk (as long as the store has room).\<close>

theorem definitive_failure_frees:
  assumes "file_ok f" "file_backed ctx" "si_idempotency_key input = Some k"
    and send: "sendTransactionalMessage ctx fine_pair (t1, t2) tok reply input f = (f', True, Inl (SendThrown e))"
    and t: "t1 \<le> t2" "t2 \<le> t3" "t3 \<le> t1 + DEFAULT_TRANSACTIONAL_TTL_MS"
      "isIsoTimestampValue t1" "isIsoTimestampValue (t3 + DEFAULT_TRANSACTIONAL_TTL_MS)"
    and tok: "tok' \<noteq> []"
  shows "isDefinitivePreDispatchError e \<and> file_view t3 f' k = None \<and>
    (\<exists>f'' out. sendTransactionalMessage ctx fine_pair (t3, t4) tok' reply' input f' = (f'', True, out))"
proof -
  obtain f1 rec h where h: "sc_hashPayload ctx = Some h" and out: "Inl (SendThrown e) = snd (conclude k rec reply)"
    and f1: "file_ok f1"
    and f': "f' = settle_send createFileBackedTransactionalIdempotencyStore io_fine t2 (fst (conclude k rec reply)) f1"
    and same: "tx_payloadHash rec = co_payloadHash (claim_request h (sc_target ctx) k input)"
    and v: "\<And>t. t1 \<le> t \<Longrightarrow> t \<le> t1 + DEFAULT_TRANSACTIONAL_TTL_MS \<Longrightarrow> file_view t f1 k = Some rec"
    and b: "fst (begin_send ctx io_fine t1 tok input f) = f1"
    using send_dispatched [OF assms(1-3) send] by metis
  have v3: "file_view t3 f1 k = Some rec" using v [of t3] t by simp
  have t2: "isIsoTimestampValue t2" and t3: "isIsoTimestampValue t3"
    using t by (simp_all add: isIsoTimestampValue_def DEFAULT_TRANSACTIONAL_TTL_MS_def)
  have "isStoredTransactionalSendRecord rec \<and> tx_key rec = k"
    using live_valid [of "file_doc f1" t3 k rec] v3 f1 by (simp add: file_ok_def file_view_def)
  then have ne: "k \<noteq> []" "h (serializeTransactionalPayload input) \<noteq> []"
    using same by (auto simp: isStoredTransactionalSendRecord_def claim_request_def split: if_splits)
  have c: "fst (conclude k rec reply) = SettleRelease k (tx_claimToken rec)" "isDefinitivePreDispatchError e"
    using out by (auto simp: conclude_def split: sum.splits if_splits)
  have ok': "file_ok f'" using file_store.release_ok [OF f1] f' c(1) by simp
  have freed: "file_view t3 f' = (file_view t3 f1)(k := None)"
    using settled_maps(2) [OF f1, of t2 t3 k "tx_claimToken rec"] v3 f' c(1) t t2 
    by (simp add: createFileBackedTransactionalIdempotencyStore_def spec_release_def)
  then have free: "file_view t3 f' k = None" by simp
  note room1 = dispatched_room [OF assms(1-3) send]
  have "dom (file_view t3 f') \<subseteq> dom (file_view t1 f)"
    using freed room1 t b file_store.view_mono [of t1 t3 f] by (auto simp: dom_def)
  then have "live_count t3 (file_doc f') \<le> live_count t1 (file_doc f)"
    using ok' assms(1) by (simp add: live_count_card file_ok_def file_view_def card_mono finite_live)
  then have room: "live_count t3 (file_doc f') < TRANSACTIONAL_STORE_MAX_RECORDS" using room1 by simp
  obtain d r where "begin_send ctx io_fine t3 tok' input f' = (Some d, BeginDispatch (k, r))"
    using free_key_dispatches [OF ok' assms(2,3) ne(1) h ne(2) tok free room t(5) t3] by blast
  then show ?thesis using free c(2) by (simp add: sendTransactionalMessage_def split: prod.split)
qed

lemma definitive_failure_frees_witness:
  "\<exists>f' f'' e out. sendTransactionalMessage sample_ctx fine_pair (1, 2) ''tok'' refused sample_input None =
       (f', True, Inl (SendThrown e)) \<and>
     sendTransactionalMessage sample_ctx fine_pair (3, 4) ''new'' acknowledged sample_input f' = (f'', True, out)"
proof -
  obtain f' r where first: "sendTransactionalMessage sample_ctx fine_pair (1, 2) ''tok'' refused sample_input None =
     (f', True, snd (conclude ''k'' r refused))" using sample_first by blast
  have "isDefinitivePreDispatchError (ThrownError (JsError ''connect'' None (Some ''ECONNREFUSED'') None))" by code_simp
  then obtain e where e: "snd (conclude ''k'' r refused) = Inl (SendThrown e)"
      "fst (conclude ''k'' r refused) = SettleRelease ''k'' (tx_claimToken r)"
    by (simp add: conclude_def dispatchToListmonk_def refused_def del: isDefinitivePreDispatchError.simps)
  show ?thesis
    using definitive_failure_frees [OF no_file_ok sample_facts(1,2) first [unfolded e], of 3 "''new''" 4 acknowledged]
      dates_ok [of 3] dates_ok(2) [of 1] first e by (auto simp: DEFAULT_TRANSACTIONAL_TTL_MS_def)
qed

text \<open>A key is bound to its payload and target: a request whose key has a live record
  of another payload or another Listmonk target is refused as an input error, without
  calling Listmonk and without touching any live record.\<close>

theorem changed_payload_conflicts:
  assumes "file_ok f" "file_backed ctx" "si_idempotency_key input = Some k" "sc_hashPayload ctx = Some h"
    and r: "file_view t f k = Some r"
    and diff: "tx_payloadHash r \<noteq> h (serializeTransactionalPayload input) \<or>
      tx_targetHash r \<noteq> computeTransactionalTargetHash (fst (sc_target ctx)) (snd (sc_target ctx))"
    and t: "isIsoTimestampValue (t + DEFAULT_TRANSACTIONAL_TTL_MS)"
  shows "\<exists>f' m. sendTransactionalMessage ctx (io_fine, io) (t, t') tok reply input f =
      (f', False, Inl (SendInputError m)) \<and> (\<forall>u \<ge> t. file_view u f' = file_view u f)"
proof -
  define opts where "opts = claim_request h (sc_target ctx) k input"
  have o: "co_key opts = k" "co_ttlMs opts = None" by (simp_all add: opts_def claim_request_def)
  have d: "\<not> (tx_payloadHash r = co_payloadHash opts \<and> tx_targetHash r = co_targetHash opts)"
    using diff by (auto simp: opts_def claim_request_def)
  have wf: "tx_wf (file_doc f)" using assms(1) by (simp add: file_ok_def)
  have up: "claim_update opts (of_int DEFAULT_TRANSACTIONAL_TTL_MS) t tok (file_doc f) =
      Inr (fst (sweepExpiredRecords (file_doc f) t), ClaimConflict r)"
    using claim_update_existing [OF wf expiry_default [OF t], of opts r tok] r d o
    by (simp add: file_view_def)
  let ?f = "Some (fst (sweepExpiredRecords (file_doc f) t))"
  have cl: "claimTransactionalSend io_fine opts t tok f = (?f, Inr (ClaimConflict r))"
    using o parse_wf [OF sweep_wf [OF wf]]
    by (simp add: claimTransactionalSend_def resolve_default file_update_fine [OF assms(1)] up)
  have view: "\<forall>u \<ge> t. file_view u ?f = file_view u f"
    using live_sweep [OF wf] by (simp add: file_view_def)
  have beg: "\<exists>m. begin_send ctx io_fine t tok input f = (?f, BeginDone (Inl (SendInputError m)))"
    using cl assms(2-4) unfolding opts_def
    by (simp add: begin_send_def createFileBackedTransactionalIdempotencyStore_def)
  then obtain m where "begin_send ctx io_fine t tok input f = (?f, BeginDone (Inl (SendInputError m)))"
    by blast
  then have "sendTransactionalMessage ctx (io_fine, io) (t, t') tok reply input f =
      (?f, False, Inl (SendInputError m))" by (simp add: sendTransactionalMessage_def)
  then show ?thesis using view by blast
qed

lemma changed_payload_conflicts_witness:
  "\<exists>f' m. sendTransactionalMessage (sample_ctx\<lparr>sc_hashPayload := Some (\<lambda>s. ''other'')\<rparr>)
       (io_fine, io_fine) (1, 2) ''new'' acknowledged sample_input sample_file =
         (f', False, Inl (SendInputError m)) \<and> (\<forall>u \<ge> 1. file_view u f' = file_view u sample_file)"
proof -
  let ?ctx = "sample_ctx\<lparr>sc_hashPayload := Some (\<lambda>s. ''other'')\<rparr>"
  have v: "file_view 1 sample_file ''k'' = Some (fresh_record sample_options 0 90000 ''tok'')"
    by code_simp
  have "file_backed ?ctx" "sc_hashPayload ?ctx = Some (\<lambda>s. ''other'')"
    by (simp_all add: sample_ctx_def)
  from changed_payload_conflicts [OF sample_file_ok this(1) sample_facts(2) this(2) v _ dates_ok(1) [of 1]]
  show ?thesis by (simp add: fresh_record_def sample_options_def)
qed

end
