(* ===== verification/Transactional_History.thy ===== *)
theory Transactional_History
  imports Transactional_Properties
begin

section \<open>Histories of the transactional store, and the properties of a request\<close>

text \<open>
  The store as an \<open>op_system\<close>: claims, commits and releases in any order, each with
  its own input/output faults.  The document stays valid and within its capacity.
  Then the properties of concurrent senders on the file-backed store, and of what a
  request must satisfy before it is sent: its headers, its hashes.
\<close>

subsection \<open>Any history of operations\<close>

datatype tx_op =
    TxClaim io_env claim_options instant string
  | TxCommit io_env commit_options instant
  | TxRelease io_env string string instant

fun tx_step :: "tx_op \<Rightarrow> tx_document option
    \<Rightarrow> tx_document option \<times> (tx_error store_failure + claim_result option)" where
  "tx_step (TxClaim io opts now tok) f =
     apsnd (map_sum id Some) (claimTransactionalSend io opts now tok f)"
| "tx_step (TxCommit io cm now) f =
     apsnd (map_sum id (\<lambda>_. None)) (commitTransactionalSend io cm now f)"
| "tx_step (TxRelease io k tok now) f =
     apsnd (map_sum id (\<lambda>_. None)) (releaseTransactionalSend io k tok now f)"

definition tx_file_wf :: "tx_document option \<Rightarrow> bool" where
  "tx_file_wf f \<longleftrightarrow> file_ok f \<and> length (tx_records (file_doc f)) \<le> TRANSACTIONAL_STORE_MAX_RECORDS"

lemma length_alist_update:
  "length (AList.update k v xs) \<le> Suc (length xs)"
  "k \<in> fst ` set xs \<Longrightarrow> length (AList.update k v xs) = length xs"
  by (induction xs) auto

lemma update_present_length:
  assumes "tx_wf d" "live now d k = Some r"
  shows "length (AList.update k v (tx_records (fst (sweepExpiredRecords d now)))) \<le> length (tx_records d)"
proof -
  have "getOwnRecord (tx_records (fst (sweepExpiredRecords d now))) k = Some r"
    using sweep_lookup [OF assms(1)] assms(2) by simp
  then have "k \<in> fst ` set (tx_records (fst (sweepExpiredRecords d now)))"
    by (force simp: getOwnRecord_def dest: map_of_SomeD)
  then show ?thesis by (simp add: length_alist_update(2) length_filter_le)
qed

lemma claim_update_length:
  assumes wf: "tx_wf d" and res: "claim_update opts ttl now tok d = Inr (d', out)"
    and len: "length (tx_records d) \<le> TRANSACTIONAL_STORE_MAX_RECORDS"
  shows "length (tx_records d') \<le> TRANSACTIONAL_STORE_MAX_RECORDS"
proof -
  obtain e where e: "expiry now ttl = Inr e"
    using res by (auto simp: claim_update_def split: sum.splits)
  have sweep: "length (tx_records (fst (sweepExpiredRecords d now))) \<le> TRANSACTIONAL_STORE_MAX_RECORDS"
    using len length_filter_le order_trans unfolding sweep_records by blast
  show ?thesis
  proof (cases "live now d (co_key opts)")
    case None
    have "Suc (length (tx_records (fst (sweepExpiredRecords d now)))) \<le> TRANSACTIONAL_STORE_MAX_RECORDS"
      using res claim_update_fresh [OF wf e None, of tok] by (auto simp: live_count_def split: if_splits)
    moreover have "tx_records d' = AList.update (co_key opts) (fresh_record opts now e tok)
        (tx_records (fst (sweepExpiredRecords d now)))"
      using res claim_update_fresh [OF wf e None, of tok]
      by (auto simp: Let_def simp del: sweep_records split: if_splits)
    ultimately show ?thesis using length_alist_update(1) order_trans by metis
  next
    case (Some r)
    then show ?thesis
      using res claim_update_existing [OF wf e Some, of tok] sweep by (auto simp del: sweep_records)
  qed
qed

lemma commit_update_length:
  assumes wf: "tx_wf d" and res: "commit_update cm now d = Inr (d', ())"
  shows "length (tx_records d') \<le> length (tx_records d)"
proof (cases "live now d (cm_key cm)")
  case None
  then show ?thesis using res by (auto simp: commit_update_eq [OF wf] Let_def)
next
  case (Some r)
  then show ?thesis
    using res update_present_length [OF wf Some] length_filter_le
    by (auto simp: commit_update_eq [OF wf] Let_def split: if_splits)
qed

lemma release_update_length:
  assumes wf: "tx_wf d" and res: "release_update k tok now d = Inr (d', ())"
  shows "length (tx_records d') \<le> length (tx_records d)"
proof -
  have "length (tx_records (fst (sweepExpiredRecords d now))) \<le> length (tx_records d)"
    unfolding sweep_records by (rule length_filter_le)
  moreover have "length (AList.delete k xs) \<le> length xs" for xs :: "(string \<times> send_record) list"
    by (rule length_delete_le)
  ultimately show ?thesis
    using res by (fastforce simp: release_update_eq [OF wf] Let_def simp del: sweep_records
        split: option.splits if_splits intro: order_trans)
qed

interpretation tx_system: op_system tx_step tx_file_wf "\<lambda>_ _. True"
proof (unfold_locales, goal_cases)
  case (1 f x)
  then have ok: "file_ok f" "tx_wf (file_doc f)"
    and len: "length (tx_records (file_doc f)) \<le> TRANSACTIONAL_STORE_MAX_RECORDS"
    by (simp_all add: tx_file_wf_def file_ok_def)
  show ?case
  proof (cases x)
    case (TxClaim io opts now tok)
    show ?thesis
      by (rule claim_file_cases [OF ok(1), of io opts now tok])
        (use TxClaim 1 claim_update_length [OF ok(2) _ len] in \<open>auto simp: tx_file_wf_def file_ok_def\<close>)
  next
    case (TxCommit io cm now)
    show ?thesis
      by (rule commit_file_cases [OF ok(1), of io cm now])
        (use TxCommit 1 commit_update_length [OF ok(2)] len in \<open>fastforce simp: tx_file_wf_def file_ok_def\<close>)+
  next
    case (TxRelease io k tok now)
    show ?thesis
      by (rule release_file_cases [OF ok(1), of io k tok now])
        (use TxRelease 1 release_update_length [OF ok(2)] len in \<open>fastforce simp: tx_file_wf_def file_ok_def\<close>)+
  qed
qed

text \<open>C12: The transactional document is always valid and bounded: after any sequence of
  claims, commits and releases, whatever the input/output faults, the document read
  from the file has version 1, distinct keys, records that pass the validator under
  their own key, and at most 10000 of them.\<close>

theorem tx_document_history:
  "tx_file_wf (history tx_step ops None)"
  by (rule tx_system.history_wf)
    (simp_all add: tx_file_wf_def no_file_ok file_doc_def)

subsection \<open>Concurrent senders\<close>

text \<open>C1: At most one delivery per key: whatever the interleaving of any number of senders
  on the file-backed store, their crashes, the input/output faults of every store
  call and Listmonk's answers, within one time to live Listmonk processes at most one
  message for each idempotency key, provided an error that the code classifies as
  definitive does mean that Listmonk did not process the message (\<open>faithful_reply\<close>).\<close>

theorem keyed_send_at_most_once:
  assumes "file_ok d" "hi \<le> lo + DEFAULT_TRANSACTIONAL_TTL_MS"
    and "send_reachable createFileBackedTransactionalIdempotencyStore lo hi d s"
  shows "sy_delivered s k \<le> 1"
  by (rule file_store.delivered_at_most_once [OF assms])

lemma keyed_send_at_most_once_witness:
  "\<exists>s. send_reachable createFileBackedTransactionalIdempotencyStore 0 1000 None s \<and>
     sy_delivered s ''k'' = 1 \<and> (\<forall>k. sy_delivered s k \<le> 1)"
proof -
  let ?S = "createFileBackedTransactionalIdempotencyStore"
  have "file_view 1 None ''k'' = None" "live_count 1 (file_doc None) < TRANSACTIONAL_STORE_MAX_RECORDS"
    by (simp_all add: file_view_def file_doc_def live_def live_count_def TRANSACTIONAL_STORE_MAX_RECORDS_def)
  then obtain d r where beg:
    "begin_send sample_ctx io_fine 1 ''tok'' sample_input None = (Some d, BeginDispatch (''k'', r))"
    using free_key_dispatches [OF no_file_ok sample_facts(1,2) _ sample_facts(3,4), of "''tok''" 1]
      dates_ok [of 1] by auto
  define s1 where "s1 = (idle_system (None :: tx_document option))
    \<lparr>sy_store := Some d, sy_procs := (sy_procs (idle_system (None :: tx_document option)))(7 \<mapsto> Dispatching ''k'' r)\<rparr>"
  define s2 where "s2 = s1\<lparr>sy_procs := (sy_procs s1)(7 \<mapsto> Settling ''k'' (fst (conclude ''k'' r acknowledged))),
    sy_delivered := (sy_delivered s1)(''k'' := sy_delivered s1 ''k'' + of_bool True)\<rparr>"
  have "send_step ?S 0 1000 (idle_system None) s1"
    unfolding s1_def
    by (rule step_begin [where now = 1 and ctx = sample_ctx and io = io_fine and tok = "''tok''" and input = sample_input])
      (use beg sample_facts(1) in \<open>simp_all add: idle_system_def\<close>)
  moreover have "send_step ?S 0 1000 s1 s2"
    unfolding s2_def
    by (rule step_dispatch)
      (simp_all add: s1_def faithful_reply_def dispatchToListmonk_def acknowledged_def unwrapData_def)
  ultimately have reach: "send_reachable ?S 0 1000 None s2"
    unfolding send_reachable_def by (meson rtranclp.rtrancl_refl rtranclp.rtrancl_into_rtrancl)
  have "sy_delivered s2 ''k'' = 1" by (simp add: s2_def s1_def idle_system_def)
  moreover have "\<forall>k. sy_delivered s2 k \<le> 1"
    using keyed_send_at_most_once [OF no_file_ok _ reach] by (simp add: DEFAULT_TRANSACTIONAL_TTL_MS_def)
  ultimately show ?thesis using reach by blast
qed

subsection \<open>Requests\<close>

text \<open>Custom headers cannot forge the message: when the input passes validation, every
  custom header name is a non-empty token without colon, space, CR or LF, is none of
  the protected names or prefixes in any letter case, and its value holds no control
  character, so no header or body can be injected.\<close>

theorem accepted_headers_safe:
  assumes "sendTransactionalInput_refined p" "dp_headers p = Some hs" "entry \<in> set hs" "(n, v) \<in> set entry"
  shows "n \<noteq> [] \<and> \<not> header_reserved (toLowerCase n) \<and>
    (\<forall>c \<in> set n. c \<noteq> CHR '':'' \<and> c \<noteq> CHR 0x20 \<and> c \<noteq> CHR 0x0A \<and> c \<noteq> CHR 0x0D) \<and>
    (\<forall>c \<in> set v. 32 \<le> (of_char c :: nat) \<and> c \<noteq> CHR 0x7F)"
proof -
  have "header_issue_of n v = None"
    using no_header_issues [of hs entry n v] assms by (simp add: sendTransactionalInput_refined_def)
  then have ok: "trim n = n" "n \<noteq> []" "HEADER_NAME_PATTERN n" "\<not> header_reserved (toLowerCase n)"
    "\<not> HEADER_CONTROL_CHAR_PATTERN v"
    by (auto simp: header_issue_of_def Let_def split: if_splits)
  have bad: "\<not> header_name_char CHR '':''" "\<not> header_name_char CHR 0x20"
    "\<not> header_name_char CHR 0x0A" "\<not> header_name_char CHR 0x0D" by code_simp+
  have "header_name_char c" if "c \<in> set n" for c
    using ok(3) that by (simp add: HEADER_NAME_PATTERN_def list_all_iff)
  moreover have "32 \<le> (of_char c :: nat) \<and> c \<noteq> CHR 0x7F" if "c \<in> set v" for c
    using ok(5) that by (force simp: HEADER_CONTROL_CHAR_PATTERN_def list_ex_iff)
  ultimately show ?thesis using ok bad by metis
qed

lemma accepted_headers_safe_witness:
  "sendTransactionalInput_refined (sample_input\<lparr>dp_headers := Some [[(''X-Tag'', ''a'')]]\<rparr>) \<and>
   \<not> header_reserved (toLowerCase ''X-Tag'')"
proof -
  let ?p = "sample_input\<lparr>dp_headers := Some [[(''X-Tag'', ''a'')]]\<rparr>"
  have "sendTransactionalInput_refined ?p" by code_simp
  then show ?thesis
    using accepted_headers_safe [of ?p "[[(''X-Tag'', ''a'')]]" "[(''X-Tag'', ''a'')]" "''X-Tag''" "''a''"]
    by simp
qed

text \<open>The target hash is always sixteen lowercase hexadecimal digits, and surrounding
  white space of the configured URL or user does not change it.\<close>

theorem target_hash_format:
  "length (computeTransactionalTargetHash u w) = 16 \<and>
   set (computeTransactionalTargetHash u w) \<subseteq> set ''0123456789abcdef'' \<and>
   computeTransactionalTargetHash (map_option trim u) (map_option trim w) = computeTransactionalTargetHash u w"
proof (intro conjI)
  show "length (computeTransactionalTargetHash u w) = 16" by (rule target_hash_length)
  have pad: "set (padStart (hex_text n) 8 CHR ''0'') \<subseteq> set ''0123456789abcdef''" for n
    using hex_text_set [of n] by (auto simp: padStart_def)
  show "set (computeTransactionalTargetHash u w) \<subseteq> set ''0123456789abcdef''"
    unfolding computeTransactionalTargetHash_def Let_def set_append by (intro Un_least pad)
  have "trim (case map_option trim x of None \<Rightarrow> [] | Some b \<Rightarrow> b) = trim (case x of None \<Rightarrow> [] | Some b \<Rightarrow> b)" for x
    by (cases x) simp_all
  then show "computeTransactionalTargetHash (map_option trim u) (map_option trim w) = computeTransactionalTargetHash u w"
    unfolding computeTransactionalTargetHash_def by simp
qed

text \<open>The payload text that is hashed is canonical: two inputs whose JSON payloads are
  deeply equal, whatever the order of their keys, have the same serialisation, so a
  retry that rebuilds its data is a replay and not a conflict.\<close>

theorem payload_text_canonical:
  assumes "isDeepStrictEqual (payload_json p) (payload_json q)"
    and "json_distinct (payload_json p)" "json_distinct (payload_json q)"
  shows "serializeTransactionalPayload p = serializeTransactionalPayload q"
  unfolding serializeTransactionalPayload_def by (rule stableSerialize_equal [OF assms])

lemma payload_text_canonical_witness:
  "serializeTransactionalPayload (sample_input\<lparr>dp_data := Some [(''a'', JNum 1), (''b'', JBool True)]\<rparr>) =
   serializeTransactionalPayload (sample_input\<lparr>dp_data := Some [(''b'', JBool True), (''a'', JNum 1)]\<rparr>)"
  by (rule payload_text_canonical)
    (simp_all add: payload_json_def sample_input_def opt_property_def)

end
