(* ===== verification/Schema.thy ===== *)
theory Schema
  imports Ops_Prelude
begin

section \<open>Schemas\<close>

text \<open>
  The program validates its documents with a schema library: a schema is a partial
  function from a value to its parsed value.  Here are the combinators the
  components share (optional fields, arrays, trimmed strings with bounds, dates,
  loops that stop at the first problem or the first failing element) and the fact
  that a schema built of idempotent parts is idempotent.
\<close>

subsection \<open>Combinators\<close>

text \<open>Optional fields, and lists whose elements all parse.\<close>

definition opt_schema :: "('a \<Rightarrow> 'b option) \<Rightarrow> 'a option \<Rightarrow> 'b option option" where
  "opt_schema f v = (case v of None \<Rightarrow> Some None | Some x \<Rightarrow> map_option Some (f x))"

fun list_schema :: "('a \<Rightarrow> 'b option) \<Rightarrow> 'a list \<Rightarrow> 'b list option" where
  "list_schema f [] = Some []"
| "list_schema f (x # xs) =
     (case f x of None \<Rightarrow> None
      | Some y \<Rightarrow> map_option ((#) y) (list_schema f xs))"

definition iso_ok :: "instant \<Rightarrow> bool" where
  "iso_ok t = (- 62167219200000 \<le> t \<and> t \<le> 253402300799999)"

definition trimmed_between :: "nat \<Rightarrow> nat \<Rightarrow> string \<Rightarrow> string option" where
  "trimmed_between lo hi s =
     (let t = trim s in if lo \<le> length t \<and> length t \<le> hi then Some t else None)"

definition nonempty_trimmed :: "string \<Rightarrow> string option" where
  "nonempty_trimmed s = (let t = trim s in if 1 \<le> length t then Some t else None)"

definition nonempty_text :: "string \<Rightarrow> string option" where
  "nonempty_text s = (if 1 \<le> length s then Some s else None)"

fun first_issue :: "('a \<Rightarrow> 'e option) \<Rightarrow> 'a list \<Rightarrow> 'e option" where
  "first_issue f [] = None"
| "first_issue f (x # xs) = (case f x of Some e \<Rightarrow> Some e | None \<Rightarrow> first_issue f xs)"

fun list_parse :: "('a \<Rightarrow> 'e + 'b) \<Rightarrow> 'a list \<Rightarrow> 'e + 'b list" where
  "list_parse f [] = Inr []"
| "list_parse f (x # xs) =
     (case f x of Inl e \<Rightarrow> Inl e
      | Inr y \<Rightarrow> (case list_parse f xs of Inl e \<Rightarrow> Inl e | Inr ys \<Rightarrow> Inr (y # ys)))"

subsection \<open>Idempotent schemas\<close>

definition idem_schema :: "('a \<Rightarrow> 'a option) \<Rightarrow> bool" where
  "idem_schema f \<longleftrightarrow> (\<forall>x y. f x = Some y \<longrightarrow> f y = Some y)"

lemma idem_schemaD: "idem_schema f \<Longrightarrow> f x = Some y \<Longrightarrow> f y = Some y"
  by (simp add: idem_schema_def)

lemma idem_opt: "idem_schema f \<Longrightarrow> idem_schema (opt_schema f)"
  by (auto simp: idem_schema_def opt_schema_def split: option.splits)

lemma list_schema_fixed: "(\<forall>x \<in> set xs. f x = Some x) \<longleftrightarrow> list_schema f xs = Some xs"
  by (induction xs) (auto split: option.splits)

lemma list_schema_members:
  "list_schema f xs = Some ys \<Longrightarrow> y \<in> set ys \<Longrightarrow> \<exists>x \<in> set xs. f x = Some y"
  by (induction xs arbitrary: ys) (auto split: option.splits)

lemma list_schema_length: "list_schema f xs = Some ys \<Longrightarrow> length ys = length xs"
  by (induction xs arbitrary: ys) (auto split: option.splits)

lemma list_schema_map:
  "list_schema f xs = Some ys \<Longrightarrow> (\<And>x y. f x = Some y \<Longrightarrow> k y = k x) \<Longrightarrow> map k ys = map k xs"
  by (induction xs arbitrary: ys) (auto split: option.splits)

lemma idem_list:
  assumes "idem_schema f"
  shows "idem_schema (list_schema f)"
  unfolding idem_schema_def
proof (intro allI impI)
  fix xs ys
  assume "list_schema f xs = Some ys"
  then have "\<forall>y \<in> set ys. f y = Some y"
    using list_schema_members [of f xs ys] idem_schemaD [OF assms] by auto
  then show "list_schema f ys = Some ys" by (simp add: list_schema_fixed)
qed

lemma idem_trimmed_between: "idem_schema (trimmed_between lo hi)"
  by (auto simp: idem_schema_def trimmed_between_def Let_def split: if_splits)

lemma idem_nonempty_trimmed: "idem_schema nonempty_trimmed"
  by (auto simp: idem_schema_def nonempty_trimmed_def Let_def split: if_splits)

lemma idem_nonempty_text: "idem_schema nonempty_text"
  by (auto simp: idem_schema_def nonempty_text_def split: if_splits)

subsection \<open>Lists\<close>

lemma first_issue_None: "first_issue f xs = None \<longleftrightarrow> (\<forall>x \<in> set xs. f x = None)"
  by (induction xs) (auto split: option.splits)

lemma list_schema_weaken:
  "(\<And>x y. f x = Some y \<Longrightarrow> g x = Some y) \<Longrightarrow> list_schema f xs = Some ys \<Longrightarrow> list_schema g xs = Some ys"
  by (induction xs arbitrary: ys) (auto split: option.splits)

lemma list_parse_fixed: "(\<forall>x \<in> set xs. f x = Inr x) \<Longrightarrow> list_parse f xs = Inr xs"
  by (induction xs) auto

lemma list_parse_members:
  "list_parse f xs = Inr ys \<Longrightarrow> y \<in> set ys \<Longrightarrow> \<exists>x \<in> set xs. f x = Inr y"
  by (induction xs arbitrary: ys) (auto split: sum.splits)

lemma list_parse_map:
  "list_parse f xs = Inr ys \<Longrightarrow> (\<And>x y. f x = Inr y \<Longrightarrow> k y = k x) \<Longrightarrow> map k ys = map k xs"
  by (induction xs arbitrary: ys) (auto split: sum.splits)

lemma list_schema_append:
  "list_schema f (xs @ ys) =
     (case list_schema f xs of None \<Rightarrow> None
      | Some as \<Rightarrow> map_option (\<lambda>bs. as @ bs) (list_schema f ys))"
  by (cases "list_schema f ys"; induction xs) (auto split: option.splits)

end
