(* ===== verification/Sequence_Model.thy ===== *)
theory Sequence_Model
  imports Schema Json_File_Store Json_Value
begin

section \<open>Sequences: definitions, enrollments and their validation\<close>

text \<open>
  The first part of \<^verbatim>\<open>packages/automation/src/sequences.ts\<close>: the data of the sequence
  automation, its schemas, the topology a list of steps must have, and the creation
  of definitions and enrollments.

  A schema is a partial function from a value to its parsed value: \<open>.trim()\<close> changes
  strings, the bounds may refuse them.  Checks that only test a format are carried
  by the types: a \<open>uuid\<close> is a valid UUID, an \<open>instant\<close> a date.  A date computed by
  the program parses when its year has four digits (\<open>iso_ok\<close>).  The mailbox check of
  a sender address, which rests on the platform's Unicode tables and URL parser, is
  the argument \<open>mailbox\<close>.
\<close>

subsection \<open>Data\<close>

datatype content_type = ContentHtml | ContentMarkdown | ContentPlain

record send_step =
  ss_templateId :: int
  ss_fromEmail :: "string option"
  ss_data :: "json_object option"
  ss_contentType :: "content_type option"
  ss_messenger :: "string option"
  ss_subject :: "string option"
  ss_altBody :: "string option"

datatype condition_operator = OpEquals | OpNotEquals | OpExists

record condition_step =
  cs_path :: string
  cs_operator :: condition_operator
  cs_value :: "json option"
  cs_onTrue :: string
  cs_onFalse :: string

datatype step_type =
    SendStep send_step
  | WaitStep int
  | WaitUntilStep instant
  | ConditionStep condition_step
  | StopStep

record seq_step =
  step_id :: string
  step_type :: step_type

datatype definition_status = DefActive | DefPaused

datatype enrollment_status =
  EnrPending | EnrRunning | EnrWaiting | EnrPaused | EnrCompleted | EnrFailed |
  EnrAmbiguous | EnrCancelled

datatype worker_status = WorkerRunning | WorkerStopped | WorkerFailed

record seq_revision =
  rev_revision :: int
  rev_steps :: "seq_step list"
  rev_createdAt :: instant

record seq_definition =
  def_id :: uuid
  def_name :: string
  def_description :: "string option"
  def_status :: definition_status
  def_currentRevision :: int
  def_revisions :: "seq_revision list"
  def_createdAt :: instant
  def_updatedAt :: instant

record seq_enrollment =
  en_id :: uuid
  en_sequenceId :: uuid
  en_revision :: int
  en_subscriberId :: int
  en_context :: json_object
  en_status :: enrollment_status
  en_retryCount :: int
  en_currentStepId :: string
  en_nextRunAt :: instant
  en_leaseToken :: "uuid option"
  en_leaseExpiresAt :: "instant option"
  en_lastError :: "string option"
  en_lastTransitionAt :: instant
  en_createdAt :: instant
  en_updatedAt :: instant

record tick_summary =
  tk_claimed :: nat
  tk_advanced :: nat
  tk_waiting :: nat
  tk_completed :: nat
  tk_failed :: nat
  tk_ambiguous :: nat
  tk_cancelled :: nat
  tk_completedAt :: instant

record seq_worker =
  wk_id :: uuid
  wk_status :: worker_status
  wk_startedAt :: instant
  wk_heartbeatAt :: instant
  wk_stoppedAt :: "instant option"
  wk_lastError :: "string option"
  wk_lastTick :: "tick_summary option"

record seq_store =
  sq_version :: int
  sq_definitions :: "seq_definition list"
  sq_enrollments :: "seq_enrollment list"
  sq_workers :: "seq_worker list"

datatype seq_error =
    SeqSchemaError
  | SeqConflict string
  | SeqNotFound string

definition SEQUENCE_STORE_VERSION :: int where
  "SEQUENCE_STORE_VERSION = 1"

definition DEFAULT_SEQUENCE_LEASE_MS :: int where
  "DEFAULT_SEQUENCE_LEASE_MS = 90000"

definition DEFAULT_SEQUENCE_WORKER_RETENTION_MS :: int where
  "DEFAULT_SEQUENCE_WORKER_RETENTION_MS = 30 * 24 * 60 * 60 * 1000"

subsection \<open>Schemas\<close>

definition step_id_char :: "char \<Rightarrow> bool" where
  "step_id_char c = (is_alnum c \<or> c \<in> set ''._:-'')"

definition stepIdSchema :: "string \<Rightarrow> string option" where
  "stepIdSchema s =
     (case trimmed_between 1 80 s of
        None \<Rightarrow> None
      | Some t \<Rightarrow> (if list_all step_id_char t then Some t else None))"

definition path_segment :: "string \<Rightarrow> bool" where
  "path_segment w = (w \<noteq> [] \<and> list_all (\<lambda>c. is_alnum c \<or> c \<in> set ''_-'') w)"

definition pathSchema :: "string \<Rightarrow> string option" where
  "pathSchema s =
     (case trimmed_between 1 200 s of
        None \<Rightarrow> None
      | Some t \<Rightarrow> (if list_all path_segment (split_at CHR ''.'' t) then Some t else None))"

definition MAX_FROM_EMAIL_LENGTH :: nat where
  "MAX_FROM_EMAIL_LENGTH = 512"

definition transactionalFromEmailSchema :: "(string \<Rightarrow> bool) \<Rightarrow> string \<Rightarrow> string option" where
  "transactionalFromEmailSchema mailbox s =
     (if length s \<le> MAX_FROM_EMAIL_LENGTH
      then (let t = trim s in if 1 \<le> length t \<and> mailbox t then Some t else None)
      else None)"

definition ascii_control :: "char \<Rightarrow> bool" where
  "ascii_control c = ((of_char c :: nat) \<le> 31 \<or> (of_char c :: nat) = 127)"

definition transactionalSubjectSchema :: "string \<Rightarrow> string option" where
  "transactionalSubjectSchema s =
     (if list_ex (\<lambda>c. \<not> js_space c) s \<and> list_all (\<lambda>c. \<not> ascii_control c) s
      then nonempty_trimmed s else None)"

definition sendStepSchema :: "(string \<Rightarrow> string option) \<Rightarrow> send_step \<Rightarrow> send_step option" where
  "sendStepSchema fromSchema s =
     (if ss_templateId s > 0 then
        (case opt_schema fromSchema (ss_fromEmail s) of None \<Rightarrow> None | Some f \<Rightarrow>
        (case opt_schema nonempty_trimmed (ss_messenger s) of None \<Rightarrow> None | Some m \<Rightarrow>
        (case opt_schema transactionalSubjectSchema (ss_subject s) of None \<Rightarrow> None | Some j \<Rightarrow>
        (case opt_schema nonempty_text (ss_altBody s) of None \<Rightarrow> None | Some a \<Rightarrow>
           Some (s\<lparr>ss_fromEmail := f, ss_messenger := m, ss_subject := j, ss_altBody := a\<rparr>)))))
      else None)"

definition conditionStepSchema :: "condition_step \<Rightarrow> condition_step option" where
  "conditionStepSchema s =
     (case pathSchema (cs_path s) of None \<Rightarrow> None | Some p \<Rightarrow>
     (case stepIdSchema (cs_onTrue s) of None \<Rightarrow> None | Some t \<Rightarrow>
     (case stepIdSchema (cs_onFalse s) of None \<Rightarrow> None | Some f \<Rightarrow>
        Some (s\<lparr>cs_path := p, cs_onTrue := t, cs_onFalse := f\<rparr>))))"

definition stepTypeSchema :: "(string \<Rightarrow> string option) \<Rightarrow> step_type \<Rightarrow> step_type option" where
  "stepTypeSchema fromSchema ty =
     (case ty of
        SendStep s \<Rightarrow> map_option SendStep (sendStepSchema fromSchema s)
      | WaitStep d \<Rightarrow> (if 1 \<le> d \<and> d \<le> 31536000 then Some (WaitStep d) else None)
      | WaitUntilStep t \<Rightarrow> (if iso_ok t then Some (WaitUntilStep t) else None)
      | ConditionStep c \<Rightarrow> map_option ConditionStep (conditionStepSchema c)
      | StopStep \<Rightarrow> Some StopStep)"

definition step_schema :: "(string \<Rightarrow> string option) \<Rightarrow> seq_step \<Rightarrow> seq_step option" where
  "step_schema fromSchema s =
     (case stepIdSchema (step_id s) of None \<Rightarrow> None | Some i \<Rightarrow>
     (case stepTypeSchema fromSchema (step_type s) of None \<Rightarrow> None | Some t \<Rightarrow>
        Some \<lparr>step_id = i, step_type = t\<rparr>))"

definition sequenceStepSchema :: "(string \<Rightarrow> bool) \<Rightarrow> seq_step \<Rightarrow> seq_step option" where
  "sequenceStepSchema mailbox = step_schema (transactionalFromEmailSchema mailbox)"

text \<open>A stored step parses strictly, or else as a send step with any non-empty sender.\<close>

definition is_send :: "seq_step \<Rightarrow> bool" where
  "is_send s = (case step_type s of SendStep _ \<Rightarrow> True | _ \<Rightarrow> False)"

definition storedSequenceStepSchema :: "(string \<Rightarrow> bool) \<Rightarrow> seq_step \<Rightarrow> seq_step option" where
  "storedSequenceStepSchema mailbox s =
     (case sequenceStepSchema mailbox s of
        Some t \<Rightarrow> Some t
      | None \<Rightarrow> (if is_send s then step_schema nonempty_trimmed s else None))"

definition revision_schema :: "(seq_step \<Rightarrow> seq_step option) \<Rightarrow> seq_revision \<Rightarrow> seq_revision option" where
  "revision_schema stepSchema r =
     (if rev_revision r > 0 \<and> rev_steps r \<noteq> [] \<and> iso_ok (rev_createdAt r)
      then map_option (\<lambda>steps. r\<lparr>rev_steps := steps\<rparr>) (list_schema stepSchema (rev_steps r))
      else None)"

definition definition_schema ::
  "(seq_step \<Rightarrow> seq_step option) \<Rightarrow> seq_definition \<Rightarrow> seq_definition option" where
  "definition_schema stepSchema d =
     (case trimmed_between 1 120 (def_name d) of None \<Rightarrow> None | Some name \<Rightarrow>
     (case opt_schema (trimmed_between 0 500) (def_description d) of None \<Rightarrow> None | Some descr \<Rightarrow>
     (case list_schema (revision_schema stepSchema) (def_revisions d) of None \<Rightarrow> None | Some revs \<Rightarrow>
        if def_currentRevision d > 0 \<and> revs \<noteq> [] \<and> iso_ok (def_createdAt d) \<and> iso_ok (def_updatedAt d)
        then Some (d\<lparr>def_name := name, def_description := descr, def_revisions := revs\<rparr>)
        else None)))"

definition enrollmentSchema :: "seq_enrollment \<Rightarrow> seq_enrollment option" where
  "enrollmentSchema e =
     (case stepIdSchema (en_currentStepId e) of None \<Rightarrow> None | Some i \<Rightarrow>
        if en_revision e > 0 \<and> en_subscriberId e > 0 \<and> en_retryCount e \<ge> 0 \<and>
           iso_ok (en_nextRunAt e) \<and>
           (case en_leaseExpiresAt e of None \<Rightarrow> True | Some t \<Rightarrow> iso_ok t) \<and>
           (case en_lastError e of None \<Rightarrow> True | Some m \<Rightarrow> length m \<le> 1000) \<and>
           iso_ok (en_lastTransitionAt e) \<and> iso_ok (en_createdAt e) \<and> iso_ok (en_updatedAt e)
        then Some (e\<lparr>en_currentStepId := i\<rparr>) else None)"

definition workerSchema :: "seq_worker \<Rightarrow> seq_worker option" where
  "workerSchema w =
     (if iso_ok (wk_startedAt w) \<and> iso_ok (wk_heartbeatAt w) \<and>
         (case wk_stoppedAt w of None \<Rightarrow> True | Some t \<Rightarrow> iso_ok t) \<and>
         (case wk_lastError w of None \<Rightarrow> True | Some m \<Rightarrow> length m \<le> 1000) \<and>
         (case wk_lastTick w of None \<Rightarrow> True | Some k \<Rightarrow> iso_ok (tk_completedAt k))
      then Some w else None)"

subsection \<open>Topology of the steps\<close>

fun duplicate_step :: "string list \<Rightarrow> seq_step list \<Rightarrow> string option" where
  "duplicate_step ids [] = None"
| "duplicate_step ids (s # ss) =
     (if step_id s \<in> set ids then Some (step_id s) else duplicate_step (step_id s # ids) ss)"

definition is_wait :: "seq_step \<Rightarrow> bool" where
  "is_wait s = (case step_type s of WaitStep _ \<Rightarrow> True | WaitUntilStep _ \<Rightarrow> True | _ \<Rightarrow> False)"

definition wait_text :: "seq_step \<Rightarrow> string" where
  "wait_text s = (case step_type s of WaitStep _ \<Rightarrow> ''wait'' | _ \<Rightarrow> ''wait_until'')"

definition target_issue :: "seq_step list \<Rightarrow> seq_step \<Rightarrow> nat \<Rightarrow> string \<Rightarrow> seq_error option" where
  "target_issue parsed s stepIndex target =
     (case findIndex (\<lambda>c. step_id c = target) parsed of
        None \<Rightarrow> Some (SeqConflict
          (''Condition step '' @ step_id s @ '' references missing step: '' @ target))
      | Some targetIndex \<Rightarrow>
          (if targetIndex \<le> stepIndex
           then Some (SeqConflict
             (''Condition step '' @ step_id s @ '' must branch to a later step: '' @ target))
           else None))"

definition step_issue :: "seq_step list \<Rightarrow> seq_step \<Rightarrow> seq_error option" where
  "step_issue parsed s =
     (case findIndex (\<lambda>c. step_id c = step_id s) parsed of
        None \<Rightarrow> None
      | Some stepIndex \<Rightarrow>
          (if is_wait s \<and> stepIndex = length parsed - 1
           then Some (SeqConflict (''Sequence '' @ wait_text s @ '' step '' @ step_id s @ '' must be followed by another step''))
           else (case step_type s of
                   ConditionStep c \<Rightarrow>
                     (case target_issue parsed s stepIndex (cs_onTrue c) of
                        Some e \<Rightarrow> Some e
                      | None \<Rightarrow> target_issue parsed s stepIndex (cs_onFalse c))
                 | _ \<Rightarrow> None)))"

definition validateSequenceStepTopology :: "seq_step list \<Rightarrow> seq_error + seq_step list" where
  "validateSequenceStepTopology parsed =
     (case duplicate_step [] parsed of
        Some i \<Rightarrow> Inl (SeqConflict (''Sequence step ID must be unique: '' @ i))
      | None \<Rightarrow> (case first_issue (step_issue parsed) parsed of
                  Some e \<Rightarrow> Inl e
                | None \<Rightarrow> Inr parsed))"

definition validateSequenceSteps ::
  "(string \<Rightarrow> bool) \<Rightarrow> seq_step list \<Rightarrow> seq_error + seq_step list" where
  "validateSequenceSteps mailbox steps =
     (case list_schema (sequenceStepSchema mailbox) steps of
        None \<Rightarrow> Inl SeqSchemaError
      | Some parsed \<Rightarrow> (if parsed = [] then Inl SeqSchemaError else validateSequenceStepTopology parsed))"

definition revision_issue :: "seq_revision \<Rightarrow> seq_error option" where
  "revision_issue r =
     (case validateSequenceStepTopology (rev_steps r) of Inl e \<Rightarrow> Some e | Inr _ \<Rightarrow> None)"

definition validateSequenceDefinitionHistory :: "seq_definition \<Rightarrow> seq_error + seq_definition" where
  "validateSequenceDefinitionHistory parsed =
     (let revisionNumbers = map rev_revision (def_revisions parsed)
      in if \<not> distinct revisionNumbers \<or> def_currentRevision parsed \<notin> set revisionNumbers
         then Inl (SeqConflict (''Sequence '' @ def_id parsed @ '' has an invalid revision history''))
         else (case first_issue revision_issue (def_revisions parsed) of
                 Some e \<Rightarrow> Inl e
               | None \<Rightarrow> Inr parsed))"

definition parse_definition_with ::
  "(seq_step \<Rightarrow> seq_step option) \<Rightarrow> seq_definition \<Rightarrow> seq_error + seq_definition" where
  "parse_definition_with stepSchema d =
     (case definition_schema stepSchema d of
        None \<Rightarrow> Inl SeqSchemaError
      | Some parsed \<Rightarrow> validateSequenceDefinitionHistory parsed)"

definition parseSequenceDefinition ::
  "(string \<Rightarrow> bool) \<Rightarrow> seq_definition \<Rightarrow> seq_error + seq_definition" where
  "parseSequenceDefinition mailbox = parse_definition_with (sequenceStepSchema mailbox)"

definition parsePersistedSequenceDefinition ::
  "(string \<Rightarrow> bool) \<Rightarrow> seq_definition \<Rightarrow> seq_error + seq_definition" where
  "parsePersistedSequenceDefinition mailbox = parse_definition_with (storedSequenceStepSchema mailbox)"

definition parseSequenceEnrollment :: "seq_enrollment \<Rightarrow> seq_error + seq_enrollment" where
  "parseSequenceEnrollment e =
     (case enrollmentSchema e of None \<Rightarrow> Inl SeqSchemaError | Some p \<Rightarrow> Inr p)"

definition parseStore :: "(string \<Rightarrow> bool) \<Rightarrow> seq_store \<Rightarrow> seq_error + seq_store" where
  "parseStore mailbox s =
     (if sq_version s \<noteq> SEQUENCE_STORE_VERSION then Inl SeqSchemaError
      else case (list_schema (definition_schema (storedSequenceStepSchema mailbox)) (sq_definitions s),
                 list_schema enrollmentSchema (sq_enrollments s),
                 list_schema workerSchema (sq_workers s)) of
             (Some ds, Some es, Some ws) \<Rightarrow>
               (case list_parse (parsePersistedSequenceDefinition mailbox) ds of
                  Inl e \<Rightarrow> Inl e
                | Inr ds' \<Rightarrow> Inr (s\<lparr>sq_definitions := ds', sq_enrollments := es, sq_workers := ws\<rparr>))
           | _ \<Rightarrow> Inl SeqSchemaError)"

subsection \<open>Creating definitions and enrollments\<close>

record definition_input =
  di_id :: "uuid option"
  di_name :: string
  di_description :: "string option"
  di_steps :: "seq_step list"

record enrollment_input =
  ei_id :: "uuid option"
  ei_subscriberId :: int
  ei_context :: "json_object option"
  ei_startAt :: "instant option"

text \<open>The fresh UUID is drawn only when the input has no \<open>id\<close>.\<close>

definition createSequenceDefinition ::
  "(string \<Rightarrow> bool) \<Rightarrow> definition_input \<Rightarrow> uuid \<Rightarrow> instant \<Rightarrow> seq_error + seq_definition" where
  "createSequenceDefinition mailbox input fresh now =
     (case validateSequenceSteps mailbox (di_steps input) of
        Inl e \<Rightarrow> Inl e
      | Inr steps \<Rightarrow>
          parseSequenceDefinition mailbox
            \<lparr>def_id = (case di_id input of Some i \<Rightarrow> i | None \<Rightarrow> fresh),
             def_name = di_name input,
             def_description = di_description input,
             def_status = DefActive,
             def_currentRevision = 1,
             def_revisions = [\<lparr>rev_revision = 1, rev_steps = steps, rev_createdAt = now\<rparr>],
             def_createdAt = now,
             def_updatedAt = now\<rparr>)"

definition find_revision :: "seq_definition \<Rightarrow> int \<Rightarrow> seq_revision option" where
  "find_revision d n = List.find (\<lambda>c. rev_revision c = n) (def_revisions d)"

definition createSequenceEnrollment ::
  "seq_definition \<Rightarrow> enrollment_input \<Rightarrow> uuid \<Rightarrow> instant \<Rightarrow> seq_error + seq_enrollment" where
  "createSequenceEnrollment defn input fresh now =
     (if def_status defn \<noteq> DefActive
      then Inl (SeqConflict (''Cannot enroll into paused sequence: '' @ def_id defn))
      else case find_revision defn (def_currentRevision defn) of
             None \<Rightarrow> Inl (SeqConflict (''Sequence '' @ def_id defn @ '' has no executable current revision''))
           | Some revision \<Rightarrow>
               (case rev_steps revision of
                  [] \<Rightarrow> Inl (SeqConflict (''Sequence '' @ def_id defn @ '' has no executable current revision''))
                | firstStep # _ \<Rightarrow>
                    parseSequenceEnrollment
                      \<lparr>en_id = (case ei_id input of Some i \<Rightarrow> i | None \<Rightarrow> fresh),
                       en_sequenceId = def_id defn,
                       en_revision = rev_revision revision,
                       en_subscriberId = ei_subscriberId input,
                       en_context = (case ei_context input of Some c \<Rightarrow> c | None \<Rightarrow> []),
                       en_status = EnrPending,
                       en_retryCount = 0,
                       en_currentStepId = step_id firstStep,
                       en_nextRunAt = (case ei_startAt input of Some t \<Rightarrow> t | None \<Rightarrow> now),
                       en_leaseToken = None,
                       en_leaseExpiresAt = None,
                       en_lastError = None,
                       en_lastTransitionAt = now,
                       en_createdAt = now,
                       en_updatedAt = now\<rparr>))"

end
