(* ===== verification/Sequence_Validity.thy ===== *)
theory Sequence_Validity
  imports Sequence_Model
begin

section \<open>Valid sequences\<close>

text \<open>
  What the checks of \<open>Sequence_Model\<close> establish.  Every schema is idempotent: a parsed
  value parses to itself, so what the repository writes is what it reads back.  The
  topology check accepts exactly the lists of steps with distinct identifiers, no
  trailing wait, and branches that go forward (\<open>topology_ok\<close>).
\<close>

subsection \<open>Schemas are idempotent\<close>

lemma idem_stepId: "idem_schema stepIdSchema"
  using idem_trimmed_between [of 1 80]
  by (auto simp: idem_schema_def stepIdSchema_def split: option.splits if_splits)

lemma idem_path: "idem_schema pathSchema"
  using idem_trimmed_between [of 1 200]
  by (auto simp: idem_schema_def pathSchema_def split: option.splits if_splits)

lemma idem_from: "idem_schema (transactionalFromEmailSchema mailbox)"
  using length_trim order_trans
  by (fastforce simp: idem_schema_def transactionalFromEmailSchema_def Let_def split: if_splits)

lemma idem_subject: "idem_schema transactionalSubjectSchema"
proof -
  have "list_all (\<lambda>c. \<not> ascii_control c) (trim s)" if "list_all (\<lambda>c. \<not> ascii_control c) s" for s
    using that set_trim_subset [of s] by (auto simp: list_all_iff)
  moreover have "list_ex (\<lambda>c. \<not> js_space c) (trim s)" if "list_ex (\<lambda>c. \<not> js_space c) s" for s
    using that trim_nonempty [of _ s] by (auto simp: list_ex_iff)
  ultimately show ?thesis
    by (auto simp: idem_schema_def transactionalSubjectSchema_def nonempty_trimmed_def Let_def
        split: if_splits)
qed

lemma idem_sendStep: "idem_schema f \<Longrightarrow> idem_schema (sendStepSchema f)"
  using idem_opt [of f] idem_opt [OF idem_nonempty_trimmed] idem_opt [OF idem_subject]
    idem_opt [OF idem_nonempty_text]
  by (auto simp: idem_schema_def sendStepSchema_def split: option.splits if_splits)

lemma idem_conditionStep: "idem_schema conditionStepSchema"
  using idem_path idem_stepId
  by (auto simp: idem_schema_def conditionStepSchema_def split: option.splits)

lemma idem_stepType: "idem_schema f \<Longrightarrow> idem_schema (stepTypeSchema f)"
  using idem_sendStep [of f] idem_conditionStep
  by (auto simp: idem_schema_def stepTypeSchema_def split: step_type.splits if_splits)

lemma idem_step: "idem_schema f \<Longrightarrow> idem_schema (step_schema f)"
  using idem_stepType [of f] idem_stepId
  by (auto simp: idem_schema_def step_schema_def split: option.splits)

lemma idem_sequenceStep: "idem_schema (sequenceStepSchema mailbox)"
  by (simp add: sequenceStepSchema_def idem_step idem_from)

text \<open>A strictly parsed step is normal for the weak schema too.\<close>

lemma strict_weak_from:
  "transactionalFromEmailSchema mailbox x = Some y \<Longrightarrow> nonempty_trimmed x = Some y"
  by (auto simp: transactionalFromEmailSchema_def nonempty_trimmed_def Let_def split: if_splits)

lemma strict_weak_opt:
  "opt_schema (transactionalFromEmailSchema mailbox) x = Some y \<Longrightarrow> opt_schema nonempty_trimmed x = Some y"
  by (auto simp: opt_schema_def strict_weak_from split: option.splits)

lemma strict_weak_step:
  "sequenceStepSchema mailbox s = Some t \<Longrightarrow> step_schema nonempty_trimmed s = Some t"
  by (auto simp: sequenceStepSchema_def step_schema_def stepTypeSchema_def sendStepSchema_def
      strict_weak_opt split: option.splits step_type.splits if_splits)

lemma idem_storedStep: "idem_schema (storedSequenceStepSchema mailbox)"
  unfolding idem_schema_def
proof (intro allI impI)
  fix s t
  assume st: "storedSequenceStepSchema mailbox s = Some t"
  show "storedSequenceStepSchema mailbox t = Some t"
  proof (cases "sequenceStepSchema mailbox s")
    case None
    then have w: "is_send s" "step_schema nonempty_trimmed s = Some t"
      using st by (auto simp: storedSequenceStepSchema_def split: if_splits)
    have t: "step_schema nonempty_trimmed t = Some t"
      using idem_schemaD [OF idem_step [OF idem_nonempty_trimmed] w(2)] .
    moreover have "is_send t"
      using w by (auto simp: is_send_def step_schema_def stepTypeSchema_def
          split: option.splits step_type.splits if_splits)
    moreover have "sequenceStepSchema mailbox t = None \<or> sequenceStepSchema mailbox t = Some t"
      using strict_weak_step [of mailbox t] t by (cases "sequenceStepSchema mailbox t") auto
    ultimately show ?thesis by (auto simp: storedSequenceStepSchema_def)
  next
    case (Some u)
    then show ?thesis
      using st idem_schemaD [OF idem_sequenceStep Some] by (simp add: storedSequenceStepSchema_def)
  qed
qed

lemma strict_stored_step:
  "sequenceStepSchema mailbox s = Some t \<Longrightarrow> storedSequenceStepSchema mailbox s = Some t"
  by (simp add: storedSequenceStepSchema_def)

lemma idem_revision: "idem_schema f \<Longrightarrow> idem_schema (revision_schema f)"
  using idem_list [of f] list_schema_length
  by (fastforce simp: idem_schema_def revision_schema_def split: option.splits if_splits)

lemma idem_definition: "idem_schema f \<Longrightarrow> idem_schema (definition_schema f)"
  using idem_list [OF idem_revision [of f]] idem_trimmed_between [of 1 120]
    idem_opt [OF idem_trimmed_between [of 0 500]]
  by (auto simp: idem_schema_def definition_schema_def split: option.splits if_splits)

lemma idem_enrollment: "idem_schema enrollmentSchema"
  using idem_stepId
  by (auto simp: idem_schema_def enrollmentSchema_def split: option.splits if_splits)

lemma idem_worker: "idem_schema workerSchema"
  by (auto simp: idem_schema_def workerSchema_def split: if_splits)

subsection \<open>Topology\<close>

definition topology_ok :: "seq_step list \<Rightarrow> bool" where
  "topology_ok steps \<longleftrightarrow> distinct (map step_id steps) \<and>
     (\<forall>i < length steps. is_wait (steps ! i) \<longrightarrow> Suc i < length steps) \<and>
     (\<forall>i < length steps. \<forall>c. step_type (steps ! i) = ConditionStep c \<longrightarrow>
        (\<forall>t \<in> {cs_onTrue c, cs_onFalse c}.
           \<exists>j < length steps. i < j \<and> step_id (steps ! j) = t))"

lemma duplicate_step_None:
  "duplicate_step ids ss = None \<longleftrightarrow> distinct (map step_id ss) \<and> set ids \<inter> step_id ` set ss = {}"
  by (induction ss arbitrary: ids) auto

lemma findIndex_step:
  "distinct (map step_id steps) \<Longrightarrow> i < length steps \<Longrightarrow>
     findIndex (\<lambda>c. step_id c = step_id (steps ! i)) steps = Some i"
  by (rule findIndex_key)

lemma target_issue_None:
  assumes "distinct (map step_id steps)"
  shows "target_issue steps s i t = None \<longleftrightarrow> (\<exists>j < length steps. i < j \<and> step_id (steps ! j) = t)"
proof (cases "findIndex (\<lambda>c. step_id c = t) steps")
  case None
  have "step_id (steps ! j) \<noteq> t" if "j < length steps" for j
    using findIndex_NoneD [OF None nth_mem [OF that]] .
  then show ?thesis using None by (auto simp: target_issue_def)
next
  case (Some k)
  then have k: "k < length steps" "step_id (steps ! k) = t" by (auto dest: findIndex_SomeD)
  have "j = k" if "j < length steps" "step_id (steps ! j) = t" for j
    using findIndex_step [OF assms that(1)] unfolding that(2) Some by simp
  then have "(\<exists>j < length steps. i < j \<and> step_id (steps ! j) = t) \<longleftrightarrow> i < k"
    using k by blast
  then show ?thesis using Some by (simp add: target_issue_def not_le)
qed

lemma opt_chain_None: "(case x of None \<Rightarrow> y | Some e \<Rightarrow> Some e) = None \<longleftrightarrow> x = None \<and> y = None"
  by (cases x) auto

lemma step_issue_None:
  assumes "distinct (map step_id steps)" "i < length steps"
  shows "step_issue steps (steps ! i) = None \<longleftrightarrow>
    (is_wait (steps ! i) \<longrightarrow> Suc i < length steps) \<and>
    (\<forall>c. step_type (steps ! i) = ConditionStep c \<longrightarrow>
       (\<forall>t \<in> {cs_onTrue c, cs_onFalse c}. \<exists>j < length steps. i < j \<and> step_id (steps ! j) = t))"
proof -
  have "i = length steps - 1 \<longleftrightarrow> \<not> Suc i < length steps" using assms(2) by auto
  then show ?thesis
    by (cases "step_type (steps ! i)")
       (auto simp: step_issue_def findIndex_step [OF assms] is_wait_def opt_chain_None
        target_issue_None [OF assms(1)])
qed

lemma topology_iff:
  "validateSequenceStepTopology steps = Inr r \<longleftrightarrow> r = steps \<and> topology_ok steps"
proof (cases "distinct (map step_id steps)")
  case False
  then show ?thesis
    by (auto simp: validateSequenceStepTopology_def topology_ok_def duplicate_step_None
        split: option.splits)
next
  case True
  have "first_issue (step_issue steps) steps = None \<longleftrightarrow>
      (\<forall>i < length steps. step_issue steps (steps ! i) = None)"
    by (simp add: first_issue_None all_set_conv_all_nth)
  also have "\<dots> \<longleftrightarrow> topology_ok steps"
    using True by (simp add: step_issue_None topology_ok_def) blast
  finally have "first_issue (step_issue steps) steps = None \<longleftrightarrow> topology_ok steps" .
  moreover have "duplicate_step [] steps = None" using True by (simp add: duplicate_step_None)
  ultimately show ?thesis
    by (auto simp: validateSequenceStepTopology_def split: option.splits)
qed

text \<open>A definition that is valid: it parses to itself.\<close>

definition history_ok :: "seq_definition \<Rightarrow> bool" where
  "history_ok d \<longleftrightarrow> distinct (map rev_revision (def_revisions d)) \<and>
     def_currentRevision d \<in> rev_revision ` set (def_revisions d) \<and>
     (\<forall>r \<in> set (def_revisions d). topology_ok (rev_steps r))"

lemma revision_issue_None: "revision_issue r = None \<longleftrightarrow> topology_ok (rev_steps r)"
  by (auto simp: revision_issue_def topology_iff split: sum.splits)
     (metis sum.exhaust topology_iff Inl_Inr_False)

lemma history_iff: "validateSequenceDefinitionHistory d = Inr r \<longleftrightarrow> r = d \<and> history_ok d"
proof -
  have "first_issue revision_issue (def_revisions d) = None \<longleftrightarrow>
      (\<forall>x \<in> set (def_revisions d). topology_ok (rev_steps x))"
    by (simp add: first_issue_None revision_issue_None)
  then show ?thesis
    by (cases "first_issue revision_issue (def_revisions d)")
       (auto simp: validateSequenceDefinitionHistory_def history_ok_def Let_def)
qed

lemma parse_definition_iff:
  "parse_definition_with f d = Inr p \<longleftrightarrow> definition_schema f d = Some p \<and> history_ok p"
  by (auto simp: parse_definition_with_def history_iff split: option.splits)

definition valid_definition :: "(string \<Rightarrow> bool) \<Rightarrow> seq_definition \<Rightarrow> bool" where
  "valid_definition mailbox d \<longleftrightarrow>
     definition_schema (storedSequenceStepSchema mailbox) d = Some d \<and> history_ok d"

definition valid_enrollment :: "seq_enrollment \<Rightarrow> bool" where
  "valid_enrollment e \<longleftrightarrow> enrollmentSchema e = Some e"

lemma persisted_valid:
  "parsePersistedSequenceDefinition mailbox d = Inr p \<Longrightarrow> valid_definition mailbox p"
  using idem_schemaD [OF idem_definition [OF idem_storedStep]]
  by (auto simp: parsePersistedSequenceDefinition_def parse_definition_iff valid_definition_def)

lemma revision_weaken:
  "revision_schema (sequenceStepSchema mailbox) r = Some q \<Longrightarrow>
     revision_schema (storedSequenceStepSchema mailbox) r = Some q"
  using list_schema_weaken [of "sequenceStepSchema mailbox" "storedSequenceStepSchema mailbox"
      "rev_steps r", OF strict_stored_step]
  by (auto simp: revision_schema_def split: if_splits)

lemma definition_weaken:
  "definition_schema (sequenceStepSchema mailbox) d = Some p \<Longrightarrow>
     definition_schema (storedSequenceStepSchema mailbox) d = Some p"
  using list_schema_weaken [of "revision_schema (sequenceStepSchema mailbox)"
      "revision_schema (storedSequenceStepSchema mailbox)" "def_revisions d", OF revision_weaken]
  by (auto simp: definition_schema_def split: option.splits)

lemma strict_definition_stored:
  "definition_schema (sequenceStepSchema mailbox) d = Some p \<Longrightarrow>
     definition_schema (storedSequenceStepSchema mailbox) p = Some p"
  using idem_schemaD [OF idem_definition [OF idem_storedStep] definition_weaken] .

lemma parsed_valid:
  "parseSequenceDefinition mailbox d = Inr p \<Longrightarrow> valid_definition mailbox p"
  using strict_definition_stored
  by (auto simp: parseSequenceDefinition_def parse_definition_iff valid_definition_def)

lemma enrollment_parsed_valid: "parseSequenceEnrollment e = Inr p \<Longrightarrow> valid_enrollment p"
  using idem_schemaD [OF idem_enrollment]
  by (auto simp: parseSequenceEnrollment_def valid_enrollment_def split: option.splits)

end
