(* ===== verification/Sequence_Repository.thy ===== *)
theory Sequence_Repository
  imports Sequence_Validity Stable_Json "HOL-Library.Product_Lexorder"
begin

section \<open>The file-backed sequence repository\<close>

text \<open>
  \<open>createFileSequenceRepository\<close> of \<^verbatim>\<open>packages/automation/src/sequences.ts\<close>.  Each method
  is the callback it passes to \<open>updateJsonFileStore\<close>; \<open>sequence_callback\<close> gathers them,
  and \<open>sequence_repository_step\<close> runs one on the file.  The reads (\<open>list...\<close>, \<open>get...\<close>,
  health) are functions of the store.
\<close>

subsection \<open>Lookup and comparison\<close>

definition getFileDefinition :: "seq_store \<Rightarrow> uuid \<Rightarrow> seq_error + seq_definition" where
  "getFileDefinition store i =
     (case List.find (\<lambda>c. def_id c = i) (sq_definitions store) of
        None \<Rightarrow> Inl (SeqNotFound (''definition '' @ i)) | Some d \<Rightarrow> Inr d)"

definition getFileEnrollment :: "seq_store \<Rightarrow> uuid \<Rightarrow> seq_error + seq_enrollment" where
  "getFileEnrollment store i =
     (case List.find (\<lambda>c. en_id c = i) (sq_enrollments store) of
        None \<Rightarrow> Inl (SeqNotFound (''enrollment '' @ i)) | Some e \<Rightarrow> Inr e)"

fun canonicalJsonValue :: "json \<Rightarrow> json" where
  "canonicalJsonValue (JArr xs) = JArr (map canonicalJsonValue xs)"
| "canonicalJsonValue (JObj xs) =
     JObj (sort_key fst (map (\<lambda>p. (fst p, canonicalJsonValue (snd p))) xs))"
| "canonicalJsonValue v = v"

definition opt_field :: "string \<Rightarrow> ('a \<Rightarrow> json) \<Rightarrow> 'a option \<Rightarrow> json_object" where
  "opt_field name f v = (case v of None \<Rightarrow> [] | Some x \<Rightarrow> [(name, f x)])"

definition content_type_text :: "content_type \<Rightarrow> string" where
  "content_type_text c =
     (case c of ContentHtml \<Rightarrow> ''html'' | ContentMarkdown \<Rightarrow> ''markdown'' | ContentPlain \<Rightarrow> ''plain'')"

definition operator_text :: "condition_operator \<Rightarrow> string" where
  "operator_text o' =
     (case o' of OpEquals \<Rightarrow> ''equals'' | OpNotEquals \<Rightarrow> ''not_equals'' | OpExists \<Rightarrow> ''exists'')"

text \<open>The properties of a parsed step; an instant is written as its milliseconds.\<close>

definition step_properties :: "seq_step \<Rightarrow> json_object" where
  "step_properties s =
     [(''id'', JStr (step_id s))] @
     (case step_type s of
        SendStep p \<Rightarrow>
          [(''type'', JStr ''send''), (''templateId'', JNum (ss_templateId p))] @
          opt_field ''fromEmail'' JStr (ss_fromEmail p) @
          opt_field ''data'' JObj (ss_data p) @
          opt_field ''contentType'' (\<lambda>c. JStr (content_type_text c)) (ss_contentType p) @
          opt_field ''messenger'' JStr (ss_messenger p) @
          opt_field ''subject'' JStr (ss_subject p) @
          opt_field ''altBody'' JStr (ss_altBody p)
      | WaitStep d \<Rightarrow> [(''type'', JStr ''wait''), (''durationSeconds'', JNum d)]
      | WaitUntilStep t \<Rightarrow> [(''type'', JStr ''wait_until''), (''at'', JNum t)]
      | ConditionStep c \<Rightarrow>
          [(''type'', JStr ''condition''), (''path'', JStr (cs_path c)),
           (''operator'', JStr (operator_text (cs_operator c)))] @
          opt_field ''value'' id (cs_value c) @
          [(''onTrue'', JStr (cs_onTrue c)), (''onFalse'', JStr (cs_onFalse c))]
      | StopStep \<Rightarrow> [(''type'', JStr ''stop'')])"

definition canonicalStepsJson :: "seq_step list \<Rightarrow> string" where
  "canonicalStepsJson steps =
     JSON_stringify (JArr (map (\<lambda>s. canonicalJsonValue (JObj (step_properties s))) steps))"

definition enrollmentIsTerminal :: "enrollment_status \<Rightarrow> bool" where
  "enrollmentIsTerminal st = (st \<in> {EnrCompleted, EnrFailed, EnrCancelled})"

definition runnable_status :: "enrollment_status \<Rightarrow> bool" where
  "runnable_status st = (st \<in> {EnrPending, EnrRunning, EnrWaiting})"

subsection \<open>Reads\<close>

definition listDefinitions :: "seq_store \<Rightarrow> seq_definition list" where
  "listDefinitions s = sort_key (\<lambda>d. (def_createdAt d, def_id d)) (sq_definitions s)"

record enrollment_list_options =
  lo_sequenceId :: "uuid option"
  lo_status :: "enrollment_status option"
  lo_subscriberId :: "int option"
  lo_limit :: "nat option"

definition matches :: "'a option \<Rightarrow> 'a \<Rightarrow> bool" where
  "matches want v = (case want of None \<Rightarrow> True | Some w \<Rightarrow> v = w)"

definition listEnrollments :: "enrollment_list_options \<Rightarrow> seq_store \<Rightarrow> seq_enrollment list" where
  "listEnrollments options s =
     take (case lo_limit options of None \<Rightarrow> 100 | Some n \<Rightarrow> n)
       (sort_key (\<lambda>e. (en_createdAt e, en_id e))
         (filter (\<lambda>e. matches (lo_sequenceId options) (en_sequenceId e) \<and>
                       matches (lo_status options) (en_status e) \<and>
                       matches (lo_subscriberId options) (en_subscriberId e))
            (sq_enrollments s)))"

subsection \<open>Definitions\<close>

definition createDefinition ::
  "(string \<Rightarrow> bool) \<Rightarrow> seq_definition \<Rightarrow> seq_store \<Rightarrow> seq_error + (seq_store \<times> seq_definition)" where
  "createDefinition mailbox defn current =
     (case parseSequenceDefinition mailbox defn of
        Inl e \<Rightarrow> Inl e
      | Inr validated \<Rightarrow>
          (if list_ex (\<lambda>c. def_id c = def_id validated \<or>
                            toLowerCase (def_name c) = toLowerCase (def_name validated))
                (sq_definitions current)
           then Inl (SeqConflict (''Sequence ID or name already exists: '' @ def_name validated))
           else Inr (current\<lparr>sq_definitions := sq_definitions current @ [validated]\<rparr>, validated)))"

record definition_update =
  du_name :: "string option"
  du_description :: "string option"
  du_steps :: "seq_step list"

definition latest_revision :: "seq_definition \<Rightarrow> seq_revision option" where
  "latest_revision d =
     (case sort_key (\<lambda>r. - rev_revision r) (def_revisions d) of [] \<Rightarrow> None | r # _ \<Rightarrow> Some r)"

definition already_applied :: "seq_definition \<Rightarrow> definition_update \<Rightarrow> seq_step list \<Rightarrow> bool" where
  "already_applied previous input steps =
     (matches (du_name input) (def_name previous) \<and>
      (case du_description input of None \<Rightarrow> True | Some t \<Rightarrow> def_description previous = Some t) \<and>
      (case latest_revision previous of
         None \<Rightarrow> False
       | Some r \<Rightarrow> canonicalStepsJson (rev_steps r) = canonicalStepsJson steps))"

definition updated_definition ::
  "seq_definition \<Rightarrow> definition_update \<Rightarrow> seq_step list \<Rightarrow> instant \<Rightarrow> seq_definition" where
  "updated_definition previous input steps now =
     previous\<lparr>def_name := (case du_name input of None \<Rightarrow> def_name previous | Some n \<Rightarrow> n),
              def_description := (case du_description input of None \<Rightarrow> def_description previous
                                  | Some t \<Rightarrow> Some t),
              def_currentRevision := def_currentRevision previous + 1,
              def_revisions := def_revisions previous @
                [\<lparr>rev_revision = def_currentRevision previous + 1, rev_steps = steps,
                  rev_createdAt = now\<rparr>],
              def_updatedAt := now\<rparr>"

definition updateDefinition ::
  "(string \<Rightarrow> bool) \<Rightarrow> uuid \<Rightarrow> definition_update \<Rightarrow> instant \<Rightarrow> seq_store
     \<Rightarrow> seq_error + (seq_store \<times> (seq_definition \<times> bool))" where
  "updateDefinition mailbox i input now current =
     (case getFileDefinition current i of
        Inl e \<Rightarrow> Inl e
      | Inr previous \<Rightarrow>
          (if (case du_name input of None \<Rightarrow> False
               | Some n \<Rightarrow> list_ex (\<lambda>c. def_id c \<noteq> i \<and> toLowerCase (def_name c) = toLowerCase n)
                            (sq_definitions current))
           then Inl (SeqConflict (''Sequence name already exists: '' @ the (du_name input)))
           else (case validateSequenceSteps mailbox (du_steps input) of
                   Inl e \<Rightarrow> Inl e
                 | Inr steps \<Rightarrow>
                     (if already_applied previous input steps
                      then Inr (current, (previous, False))
                      else (case parsePersistedSequenceDefinition mailbox
                                   (updated_definition previous input steps now) of
                              Inl e \<Rightarrow> Inl e
                            | Inr updated \<Rightarrow>
                                Inr (current\<lparr>sq_definitions :=
                                       replace_by def_id (sq_definitions current) updated\<rparr>,
                                     (updated, True)))))))"

definition deleteDefinition :: "uuid \<Rightarrow> seq_store \<Rightarrow> seq_error + (seq_store \<times> seq_definition)" where
  "deleteDefinition i current =
     (case getFileDefinition current i of
        Inl e \<Rightarrow> Inl e
      | Inr defn \<Rightarrow>
          (case List.find (\<lambda>e. en_sequenceId e = i \<and> \<not> enrollmentIsTerminal (en_status e))
                  (sq_enrollments current) of
             Some _ \<Rightarrow> Inl (SeqConflict (''Sequence '' @ i @ '' still has non-terminal enrollments''))
           | None \<Rightarrow>
               Inr (current\<lparr>sq_definitions := filter (\<lambda>c. def_id c \<noteq> i) (sq_definitions current),
                            sq_enrollments := filter (\<lambda>e. en_sequenceId e \<noteq> i) (sq_enrollments current)\<rparr>,
                    defn)))"

definition setDefinitionStatus ::
  "(string \<Rightarrow> bool) \<Rightarrow> uuid \<Rightarrow> definition_status \<Rightarrow> instant \<Rightarrow> seq_store
     \<Rightarrow> seq_error + (seq_store \<times> seq_definition)" where
  "setDefinitionStatus mailbox i status now current =
     (case getFileDefinition current i of
        Inl e \<Rightarrow> Inl e
      | Inr previous \<Rightarrow>
          (if def_status previous = status then Inr (current, previous)
           else (case parsePersistedSequenceDefinition mailbox
                        (previous\<lparr>def_status := status, def_updatedAt := now\<rparr>) of
                   Inl e \<Rightarrow> Inl e
                 | Inr updated \<Rightarrow>
                     Inr (current\<lparr>sq_definitions := replace_by def_id (sq_definitions current) updated\<rparr>,
                          updated))))"

subsection \<open>Enrollments\<close>

definition createEnrollment ::
  "seq_enrollment \<Rightarrow> seq_store \<Rightarrow> seq_error + (seq_store \<times> seq_enrollment)" where
  "createEnrollment enrollment current =
     (case getFileDefinition current (en_sequenceId enrollment) of
        Inl e \<Rightarrow> Inl e
      | Inr _ \<Rightarrow>
          (if list_ex (\<lambda>c. en_id c = en_id enrollment \<or>
                 (en_sequenceId c = en_sequenceId enrollment \<and>
                  en_subscriberId c = en_subscriberId enrollment \<and>
                  \<not> enrollmentIsTerminal (en_status c)))
                (sq_enrollments current)
           then Inl (SeqConflict (''Subscriber '' @ int_text (en_subscriberId enrollment) @
                  '' already has an active enrollment for sequence '' @ en_sequenceId enrollment))
           else Inr (current\<lparr>sq_enrollments := sq_enrollments current @ [enrollment]\<rparr>, enrollment)))"

record claimed_enrollment =
  cl_enrollment :: seq_enrollment
  cl_definition :: seq_definition
  cl_revision :: seq_revision

definition lease_free :: "instant \<Rightarrow> seq_enrollment \<Rightarrow> bool" where
  "lease_free now e = (case en_leaseExpiresAt e of None \<Rightarrow> True | Some t \<Rightarrow> t \<le> now)"

definition claimable :: "instant \<Rightarrow> seq_enrollment \<Rightarrow> bool" where
  "claimable now e = (runnable_status (en_status e) \<and> en_nextRunAt e \<le> now \<and> lease_free now e)"

definition leased_enrollment :: "instant \<Rightarrow> int \<Rightarrow> uuid \<Rightarrow> seq_enrollment \<Rightarrow> seq_enrollment" where
  "leased_enrollment now leaseMs token c =
     c\<lparr>en_status := EnrRunning, en_leaseToken := Some token,
       en_leaseExpiresAt := Some (now + leaseMs), en_updatedAt := now\<rparr>"

fun claim_loop ::
  "int \<Rightarrow> instant \<Rightarrow> int \<Rightarrow> (nat \<Rightarrow> uuid) \<Rightarrow> seq_definition list \<Rightarrow> seq_enrollment list
     \<Rightarrow> seq_enrollment list \<Rightarrow> claimed_enrollment list
     \<Rightarrow> seq_error + (seq_enrollment list \<times> claimed_enrollment list)" where
  "claim_loop limit now leaseMs tokens defs [] enrollments claimed = Inr (enrollments, claimed)"
| "claim_loop limit now leaseMs tokens defs (c # cs) enrollments claimed =
     (if int (length claimed) \<ge> limit then Inr (enrollments, claimed)
      else if \<not> claimable now c then claim_loop limit now leaseMs tokens defs cs enrollments claimed
      else case List.find (\<lambda>d. def_id d = en_sequenceId c) defs of
             None \<Rightarrow> claim_loop limit now leaseMs tokens defs cs enrollments claimed
           | Some d \<Rightarrow>
               (if def_status d \<noteq> DefActive
                then claim_loop limit now leaseMs tokens defs cs enrollments claimed
                else case find_revision d (en_revision c) of
                       None \<Rightarrow> claim_loop limit now leaseMs tokens defs cs enrollments claimed
                     | Some r \<Rightarrow>
                         (case parseSequenceEnrollment
                                 (leased_enrollment now leaseMs (tokens (length claimed)) c) of
                            Inl e \<Rightarrow> Inl e
                          | Inr leased \<Rightarrow>
                              claim_loop limit now leaseMs tokens defs cs
                                (replace_by en_id enrollments leased)
                                (claimed @ [\<lparr>cl_enrollment = leased, cl_definition = d,
                                             cl_revision = r\<rparr>]))))"

definition claimDue ::
  "int \<Rightarrow> instant \<Rightarrow> int \<Rightarrow> (nat \<Rightarrow> uuid) \<Rightarrow> seq_store
     \<Rightarrow> seq_error + (seq_store \<times> claimed_enrollment list)" where
  "claimDue limit now leaseMs tokens current =
     (case claim_loop limit now leaseMs tokens (sq_definitions current)
             (sort_key en_nextRunAt (sq_enrollments current)) (sq_enrollments current) [] of
        Inl e \<Rightarrow> Inl e
      | Inr (enrollments, claimed) \<Rightarrow> Inr (current\<lparr>sq_enrollments := enrollments\<rparr>, claimed))"

definition completeClaim ::
  "seq_enrollment \<Rightarrow> seq_enrollment \<Rightarrow> seq_store \<Rightarrow> seq_error + (seq_store \<times> seq_enrollment)" where
  "completeClaim enrollment nxt current =
     (case getFileEnrollment current (en_id enrollment) of
        Inl e \<Rightarrow> Inl e
      | Inr stored \<Rightarrow>
          (if en_leaseToken stored = None \<or> en_leaseToken stored \<noteq> en_leaseToken enrollment
           then Inl (SeqConflict (''Sequence enrollment lease was lost: '' @ en_id enrollment))
           else (case parseSequenceEnrollment nxt of
                   Inl e \<Rightarrow> Inl e
                 | Inr completed \<Rightarrow>
                     Inr (current\<lparr>sq_enrollments := replace_by en_id (sq_enrollments current) completed\<rparr>,
                          completed))))"

definition resolveAmbiguous ::
  "seq_enrollment \<Rightarrow> seq_enrollment \<Rightarrow> seq_store \<Rightarrow> seq_error + (seq_store \<times> seq_enrollment)" where
  "resolveAmbiguous enrollment nxt current =
     (case getFileEnrollment current (en_id enrollment) of
        Inl e \<Rightarrow> Inl e
      | Inr stored \<Rightarrow>
          (if en_status stored \<noteq> EnrAmbiguous \<or> en_updatedAt stored \<noteq> en_updatedAt enrollment
           then Inl (SeqConflict (''Sequence enrollment changed before reconciliation: '' @ en_id enrollment))
           else (case parseSequenceEnrollment nxt of
                   Inl e \<Rightarrow> Inl e
                 | Inr resolved \<Rightarrow>
                     Inr (current\<lparr>sq_enrollments := replace_by en_id (sq_enrollments current) resolved\<rparr>,
                          resolved))))"

record reconcile_result =
  rr_scanned :: nat
  rr_recovered :: nat
  rr_unchanged :: nat
  rr_dryRun :: bool

definition lease_expired :: "instant \<Rightarrow> seq_enrollment \<Rightarrow> bool" where
  "lease_expired now e =
     ((case en_leaseExpiresAt e of None \<Rightarrow> False | Some t \<Rightarrow> t \<le> now) \<and>
      \<not> enrollmentIsTerminal (en_status e))"

definition recovered_enrollment :: "instant \<Rightarrow> seq_enrollment \<Rightarrow> seq_enrollment" where
  "recovered_enrollment now e =
     e\<lparr>en_status := EnrPending, en_leaseToken := None, en_leaseExpiresAt := None,
       en_nextRunAt := now, en_updatedAt := now\<rparr>"

definition reconcile ::
  "instant \<Rightarrow> nat \<Rightarrow> bool \<Rightarrow> seq_store \<Rightarrow> seq_error + (seq_store \<times> reconcile_result)" where
  "reconcile now limit dryRun current =
     (let expired = take limit (filter (lease_expired now) (sq_enrollments current));
          expiredIds = map en_id expired;
          result = \<lparr>rr_scanned = length expired, rr_recovered = length expired, rr_unchanged = 0,
                    rr_dryRun = dryRun\<rparr>
      in if dryRun then Inr (current, result)
         else (case list_parse (\<lambda>e. if en_id e \<in> set expiredIds
                                     then parseSequenceEnrollment (recovered_enrollment now e)
                                     else Inr e) (sq_enrollments current) of
                 Inl e \<Rightarrow> Inl e
               | Inr enrollments \<Rightarrow> Inr (current\<lparr>sq_enrollments := enrollments\<rparr>, result)))"

definition upsertWorker :: "seq_worker \<Rightarrow> seq_store \<Rightarrow> seq_error + (seq_store \<times> unit)" where
  "upsertWorker worker current =
     (let cutoff = wk_heartbeatAt worker - DEFAULT_SEQUENCE_WORKER_RETENTION_MS;
          retainedWorkers = filter (\<lambda>c. wk_id c = wk_id worker \<or> wk_heartbeatAt c \<ge> cutoff)
                              (sq_workers current);
          present = list_ex (\<lambda>c. wk_id c = wk_id worker) retainedWorkers
      in Inr (current\<lparr>sq_workers := (if present then replace_by wk_id retainedWorkers worker
                                     else retainedWorkers @ [worker])\<rparr>, ()))"

subsection \<open>The repository as operations on the file\<close>

definition createSequenceStore :: "(string \<Rightarrow> bool) \<Rightarrow> seq_store json_store" where
  "createSequenceStore mailbox =
     \<lparr>js_default = \<lparr>sq_version = SEQUENCE_STORE_VERSION, sq_definitions = [],
                    sq_enrollments = [], sq_workers = []\<rparr>,
      js_parse = (\<lambda>s. case parseStore mailbox s of
                        Inl e \<Rightarrow> Inl ''Invalid sequence store'' | Inr v \<Rightarrow> Inr v)\<rparr>"

datatype seq_op =
    CreateDefinition seq_definition
  | UpdateDefinition uuid definition_update instant
  | DeleteDefinition uuid
  | SetDefinitionStatus uuid definition_status instant
  | CreateEnrollment seq_enrollment
  | ClaimDue int instant int "nat \<Rightarrow> uuid"
  | CompleteClaim seq_enrollment seq_enrollment
  | ResolveAmbiguous seq_enrollment seq_enrollment
  | Reconcile instant nat bool
  | UpsertWorker seq_worker

datatype seq_result =
    ResDefinition seq_definition
  | ResUpdated seq_definition bool
  | ResEnrollment seq_enrollment
  | ResClaimed "claimed_enrollment list"
  | ResReconciled reconcile_result
  | ResDone

definition with_result :: "('r \<Rightarrow> seq_result) \<Rightarrow> seq_error + (seq_store \<times> 'r) \<Rightarrow> seq_error + (seq_store \<times> seq_result)" where
  "with_result f r = (case r of Inl e \<Rightarrow> Inl e | Inr (s, v) \<Rightarrow> Inr (s, f v))"

definition sequence_callback ::
  "(string \<Rightarrow> bool) \<Rightarrow> seq_op \<Rightarrow> seq_store \<Rightarrow> seq_error + (seq_store \<times> seq_result)" where
  "sequence_callback mailbox op s =
     (case op of
        CreateDefinition d \<Rightarrow> with_result ResDefinition (createDefinition mailbox d s)
      | UpdateDefinition i input now \<Rightarrow>
          with_result (\<lambda>(d, u). ResUpdated d u) (updateDefinition mailbox i input now s)
      | DeleteDefinition i \<Rightarrow> with_result ResDefinition (deleteDefinition i s)
      | SetDefinitionStatus i st now \<Rightarrow> with_result ResDefinition (setDefinitionStatus mailbox i st now s)
      | CreateEnrollment e \<Rightarrow> with_result ResEnrollment (createEnrollment e s)
      | ClaimDue limit now leaseMs tokens \<Rightarrow> with_result ResClaimed (claimDue limit now leaseMs tokens s)
      | CompleteClaim e nxt \<Rightarrow> with_result ResEnrollment (completeClaim e nxt s)
      | ResolveAmbiguous e nxt \<Rightarrow> with_result ResEnrollment (resolveAmbiguous e nxt s)
      | Reconcile now limit dryRun \<Rightarrow> with_result ResReconciled (reconcile now limit dryRun s)
      | UpsertWorker w \<Rightarrow> with_result (\<lambda>_. ResDone) (upsertWorker w s))"

definition sequence_repository_step ::
  "(string \<Rightarrow> bool) \<Rightarrow> io_env \<times> seq_op \<Rightarrow> seq_store option
     \<Rightarrow> seq_store option \<times> (seq_error store_failure + seq_result)" where
  "sequence_repository_step mailbox x file =
     updateJsonFileStore (createSequenceStore mailbox) (fst x) (sequence_callback mailbox (snd x)) file"

subsection \<open>Runtime health\<close>

record sequence_health =
  sh_healthy :: bool
  sh_definitions_active :: nat
  sh_definitions_paused :: nat
  sh_definitions_total :: nat
  sh_counts :: "(enrollment_status \<times> nat) list"
  sh_due :: nat
  sh_leased :: nat
  sh_oldestDueAt :: "instant option"
  sh_workers_running :: nat
  sh_workers_stale :: nat
  sh_workers_stopped :: nat
  sh_workers_failed :: nat
  sh_lastHeartbeatAt :: "instant option"

definition enrollment_statuses :: "enrollment_status list" where
  "enrollment_statuses =
     [EnrPending, EnrRunning, EnrWaiting, EnrPaused, EnrCompleted, EnrFailed, EnrAmbiguous, EnrCancelled]"

definition count_if :: "('a \<Rightarrow> bool) \<Rightarrow> 'a list \<Rightarrow> nat" where
  "count_if P xs = length (filter P xs)"

definition buildSequenceRuntimeHealth ::
  "seq_definition list \<Rightarrow> seq_enrollment list \<Rightarrow> seq_worker list \<Rightarrow> instant \<Rightarrow> int \<Rightarrow> sequence_health" where
  "buildSequenceRuntimeHealth definitions enrollments workers now workerStaleMs =
     (let due = filter (claimable now) enrollments;
          activeWorkers = filter (\<lambda>w. wk_status w = WorkerRunning) workers;
          staleWorkers = filter (\<lambda>w. now - wk_heartbeatAt w > workerStaleMs) activeWorkers;
          heartbeats = sort (map wk_heartbeatAt workers);
          dueTimes = sort (map en_nextRunAt due)
      in \<lparr>sh_healthy = (staleWorkers = [] \<and>
                        (due = [] \<or> length activeWorkers > length staleWorkers)),
          sh_definitions_active = count_if (\<lambda>d. def_status d = DefActive) definitions,
          sh_definitions_paused = count_if (\<lambda>d. def_status d = DefPaused) definitions,
          sh_definitions_total = length definitions,
          sh_counts = map (\<lambda>st. (st, count_if (\<lambda>e. en_status e = st) enrollments)) enrollment_statuses,
          sh_due = length due,
          sh_leased = count_if (\<lambda>e. case en_leaseExpiresAt e of None \<Rightarrow> False | Some t \<Rightarrow> t > now) enrollments,
          sh_oldestDueAt = (case dueTimes of [] \<Rightarrow> None | t # _ \<Rightarrow> Some t),
          sh_workers_running = length activeWorkers,
          sh_workers_stale = length staleWorkers,
          sh_workers_stopped = count_if (\<lambda>w. wk_status w = WorkerStopped) workers,
          sh_workers_failed = count_if (\<lambda>w. wk_status w = WorkerFailed) workers,
          sh_lastHeartbeatAt = (if heartbeats = [] then None else Some (last heartbeats))\<rparr>)"

end
