(* ===== verification/Lease_Queue.thy ===== *)
theory Lease_Queue
  imports Ops_Prelude
begin

section \<open>The interface of a leased work queue\<close>

text \<open>
  Two stores of the program hand out work the same way: the sequence repository
  (\<open>claimDue\<close>, \<open>completeClaim\<close>) and the webhook outbox (\<open>claimOutboundWebhookDeliveries\<close>,
  \<open>completeOutboundWebhookDelivery\<close>).  A worker claims items; each claimed item carries
  a fresh token and an expiry; completing an item requires its current token.  The
  locale \<open>lease_queue\<close> states that contract, and its lemmas what the workers rely on:
  until its lease expires, an item is handed to nobody else, whatever the other
  workers do, and a completion with another token changes nothing.

  A request \<open>r\<close> of a claim has its instant \<open>req_now r\<close>, the expiry \<open>req_until r\<close> of
  the leases it grants and the tokens \<open>req_tokens r\<close> it may draw.
\<close>

datatype ('req, 'id, 'tok, 'res) queue_event =
    QueueClaim 'req
  | QueueComplete 'id 'tok 'res

locale lease_queue =
  fixes lease :: "'s \<Rightarrow> 'id \<Rightarrow> ('tok \<times> instant) option"
    and claim :: "'req \<Rightarrow> 's \<Rightarrow> 's \<times> 'id list"
    and complete :: "'id \<Rightarrow> 'tok \<Rightarrow> 'res \<Rightarrow> 's \<Rightarrow> 's \<times> bool"
    and ok :: "'s \<Rightarrow> bool"
    and req_now :: "'req \<Rightarrow> instant"
    and req_until :: "'req \<Rightarrow> instant"
    and req_tokens :: "'req \<Rightarrow> 'tok set"
    and req_limit :: "'req \<Rightarrow> nat"
  assumes claim_ok: "ok s \<Longrightarrow> ok (fst (claim r s))"
    and complete_ok: "ok s \<Longrightarrow> ok (fst (complete i t x s))"
    and claim_distinct: "ok s \<Longrightarrow> distinct (snd (claim r s))"
    and claim_limit: "ok s \<Longrightarrow> length (snd (claim r s)) \<le> req_limit r"
    and claim_free: "ok s \<Longrightarrow> i \<in> set (snd (claim r s)) \<Longrightarrow> lease s i = Some (t, e) \<Longrightarrow> e \<le> req_now r"
    and claim_leased: "ok s \<Longrightarrow> i \<in> set (snd (claim r s)) \<Longrightarrow>
          \<exists>t \<in> req_tokens r. lease (fst (claim r s)) i = Some (t, req_until r)"
    and claim_frame: "ok s \<Longrightarrow> i \<notin> set (snd (claim r s)) \<Longrightarrow> lease (fst (claim r s)) i = lease s i"
    and complete_fenced: "ok s \<Longrightarrow> snd (complete i t x s) \<Longrightarrow> \<exists>e. lease s i = Some (t, e)"
    and complete_releases: "ok s \<Longrightarrow> snd (complete i t x s) \<Longrightarrow> lease (fst (complete i t x s)) i = None"
    and complete_refused: "\<not> snd (complete i t x s) \<Longrightarrow> fst (complete i t x s) = s"
    and complete_frame: "ok s \<Longrightarrow> j \<noteq> i \<Longrightarrow> lease (fst (complete i t x s)) j = lease s j"
begin

fun run :: "('req, 'id, 'tok, 'res) queue_event list \<Rightarrow> 's \<Rightarrow> 's" where
  "run [] s = s"
| "run (QueueClaim r # es) s = run es (fst (claim r s))"
| "run (QueueComplete i t x # es) s = run es (fst (complete i t x s))"

text \<open>The items that the claims of a run hand out.\<close>

fun handed :: "('req, 'id, 'tok, 'res) queue_event list \<Rightarrow> 's \<Rightarrow> 'id set" where
  "handed [] s = {}"
| "handed (QueueClaim r # es) s = set (snd (claim r s)) \<union> handed es (fst (claim r s))"
| "handed (QueueComplete i t x # es) s = handed es (fst (complete i t x s))"

text \<open>What others do before the expiry \<open>e\<close> of the lease of \<open>i\<close> under the token \<open>t\<close>.\<close>

fun others_before :: "instant \<Rightarrow> 'id \<Rightarrow> 'tok \<Rightarrow> ('req, 'id, 'tok, 'res) queue_event \<Rightarrow> bool" where
  "others_before e i t (QueueClaim r) = (req_now r < e)"
| "others_before e i t (QueueComplete j t' x) = (j \<noteq> i \<or> t' \<noteq> t)"

lemma claim_keeps_lease:
  assumes "ok s" "lease s i = Some (t, e)" "req_now r < e"
  shows "i \<notin> set (snd (claim r s))" "lease (fst (claim r s)) i = Some (t, e)"
proof -
  show "i \<notin> set (snd (claim r s))"
    using claim_free [OF assms(1) _ assms(2)] assms(3) by force
  then show "lease (fst (claim r s)) i = Some (t, e)"
    using claim_frame [OF assms(1)] assms(2) by simp
qed

lemma complete_keeps_lease:
  assumes "ok s" "lease s i = Some (t, e)" "j \<noteq> i \<or> t' \<noteq> t"
  shows "lease (fst (complete j t' x s)) i = Some (t, e)"
proof (cases "snd (complete j t' x s)")
  case True
  then have "j \<noteq> i" using complete_fenced [OF assms(1) True] assms(2,3) by auto
  then show ?thesis using complete_frame [OF assms(1), of i j] assms(2) by simp
next
  case False
  then show ?thesis using complete_refused assms(2) by simp
qed

lemma lease_exclusive:
  assumes "ok s" "lease s i = Some (t, e)" "list_all (others_before e i t) es"
  shows "lease (run es s) i = Some (t, e) \<and> i \<notin> handed es s"
  using assms
proof (induction es arbitrary: s)
  case Nil
  then show ?case by simp
next
  case (Cons ev es)
  show ?case
  proof (cases ev)
    case (QueueClaim r)
    then show ?thesis
      using Cons.IH [of "fst (claim r s)"] Cons.prems claim_ok claim_keeps_lease [of s i t e r]
      by simp
  next
    case (QueueComplete j t' x)
    then show ?thesis
      using Cons.IH [of "fst (complete j t' x s)"] Cons.prems complete_ok
        complete_keeps_lease [of s i t e j t' x]
      by simp
  qed
qed

text \<open>Two claims less than a lease apart hand out disjoint items.\<close>

lemma claims_disjoint:
  assumes "ok s" "req_now r2 < req_until r1"
  shows "set (snd (claim r1 s)) \<inter> set (snd (claim r2 (fst (claim r1 s)))) = {}"
proof -
  have "i \<notin> set (snd (claim r2 (fst (claim r1 s))))" if "i \<in> set (snd (claim r1 s))" for i
    using claim_leased [OF assms(1) that] claim_keeps_lease(1) [OF claim_ok [OF assms(1)] _ assms(2)]
    by blast
  then show ?thesis by blast
qed

end

end
