(* ===== verification/Sequence_Invariant.thy ===== *)
theory Sequence_Invariant
  imports Sequence_Repository Lease_Queue
begin

section \<open>What the sequence repository keeps\<close>

text \<open>
  The claim loop characterised by the list of its claims, the invariant \<open>seq_wf\<close> of
  the stored document with its preservation by every method, and the repository as
  a leased queue and as an operation system over its file.
\<close>

subsection \<open>Claims\<close>

definition cl_id :: "claimed_enrollment \<Rightarrow> uuid" where
  "cl_id cl = en_id (cl_enrollment cl)"

definition apply_claims :: "claimed_enrollment list \<Rightarrow> seq_enrollment list \<Rightarrow> seq_enrollment list" where
  "apply_claims cls es = fold (\<lambda>cl acc. replace_by en_id acc (cl_enrollment cl)) cls es"

lemma apply_claims_ids [simp]: "map en_id (apply_claims cls es) = map en_id es"
  unfolding apply_claims_def by (induction cls arbitrary: es) auto

lemma apply_claims_members:
  "e \<in> set (apply_claims cls es) \<Longrightarrow> e \<in> set es \<or> e \<in> cl_enrollment ` set cls"
  unfolding apply_claims_def
  using set_replace_by_subset by (induction cls arbitrary: es) fastforce+

lemma apply_claims_find_other:
  "i \<notin> cl_id ` set cls \<Longrightarrow>
     List.find (\<lambda>e. en_id e = i) (apply_claims cls es) = List.find (\<lambda>e. en_id e = i) es"
  unfolding apply_claims_def
  by (induction cls arbitrary: es) (auto simp: find_replace_by_other cl_id_def)

lemma apply_claims_find_claimed:
  assumes "distinct (map cl_id cls)" "cl \<in> set cls" "cl_id cl \<in> en_id ` set es"
  shows "List.find (\<lambda>e. en_id e = cl_id cl) (apply_claims cls es) = Some (cl_enrollment cl)"
  using assms
proof (induction cls arbitrary: es)
  case (Cons c cls)
  let ?es = "replace_by en_id es (cl_enrollment c)"
  have ids: "en_id ` set ?es = en_id ` set es"
    using map_key_replace_by [of en_id es "cl_enrollment c"] by (metis list.set_map)
  show ?case
  proof (cases "cl = c")
    case True
    have "List.find (\<lambda>e. en_id e = cl_id c) es \<noteq> None"
      using Cons.prems(3) True by (auto simp: find_None_iff)
    then have "List.find (\<lambda>e. en_id e = cl_id c) ?es = Some (cl_enrollment c)"
      using find_replace_by_same [of en_id "cl_enrollment c" es] by (simp add: cl_id_def)
    moreover have "cl_id c \<notin> cl_id ` set cls" using Cons.prems(1) by simp
    ultimately show ?thesis
      using apply_claims_find_other [of "cl_id c" cls ?es] True by (simp add: apply_claims_def)
  next
    case False
    then show ?thesis using Cons.IH [of ?es] Cons.prems ids by (simp add: apply_claims_def)
  qed
qed simp

text \<open>What one claim is: a claimable candidate of an active definition, leased.\<close>

definition claim_of ::
  "instant \<Rightarrow> int \<Rightarrow> (nat \<Rightarrow> uuid) \<Rightarrow> seq_definition list \<Rightarrow> seq_enrollment \<Rightarrow> claimed_enrollment \<Rightarrow> bool" where
  "claim_of now leaseMs tokens defs c cl \<longleftrightarrow> claimable now c \<and>
     cl_definition cl \<in> set defs \<and> def_id (cl_definition cl) = en_sequenceId c \<and>
     def_status (cl_definition cl) = DefActive \<and>
     find_revision (cl_definition cl) (en_revision c) = Some (cl_revision cl) \<and>
     valid_enrollment (cl_enrollment cl) \<and>
     (\<exists>n. cl_enrollment cl = leased_enrollment now leaseMs (tokens n) c)"

lemma leased_parse:
  assumes "valid_enrollment c" "parseSequenceEnrollment (leased_enrollment now leaseMs tok c) = Inr l"
  shows "l = leased_enrollment now leaseMs tok c \<and> valid_enrollment l"
proof -
  have step: "stepIdSchema (en_currentStepId c) = Some (en_currentStepId c)"
    using assms(1) unfolding valid_enrollment_def enrollmentSchema_def
    by (cases c) (auto split: option.splits if_splits)
  then have "l = leased_enrollment now leaseMs tok c"
    using assms(2)
    by (auto simp: parseSequenceEnrollment_def enrollmentSchema_def leased_enrollment_def
        split: option.splits if_splits)
  then show ?thesis using enrollment_parsed_valid [OF assms(2)] by simp
qed

lemma claim_loop_result:
  assumes "claim_loop limit now leaseMs tokens defs cs es cls = Inr (es', cls')"
    and "\<forall>c \<in> set cs. valid_enrollment c" "distinct (map en_id cs)"
  shows "\<exists>new. cls' = cls @ new \<and> es' = apply_claims new es \<and> distinct (map cl_id new) \<and>
           cl_id ` set new \<subseteq> en_id ` set cs \<and>
           (new = [] \<or> int (length cls') \<le> limit) \<and>
           (\<forall>cl \<in> set new. \<exists>c \<in> set cs. claim_of now leaseMs tokens defs c cl)"
  using assms
proof (induction cs arbitrary: es cls)
  case Nil
  then show ?case by (intro exI [of _ "[]"]) (simp add: apply_claims_def)
next
  case (Cons c cs)
  show ?case
  proof (cases "\<exists>d r l. int (length cls) < limit \<and> claimable now c \<and>
      List.find (\<lambda>d. def_id d = en_sequenceId c) defs = Some d \<and> def_status d = DefActive \<and>
      find_revision d (en_revision c) = Some r \<and>
      parseSequenceEnrollment (leased_enrollment now leaseMs (tokens (length cls)) c) = Inr l")
    case True
    then obtain d r l where h: "int (length cls) < limit" "claimable now c"
        "List.find (\<lambda>d. def_id d = en_sequenceId c) defs = Some d" "def_status d = DefActive"
        "find_revision d (en_revision c) = Some r"
        "parseSequenceEnrollment (leased_enrollment now leaseMs (tokens (length cls)) c) = Inr l"
      by blast
    define x where "x = \<lparr>cl_enrollment = l, cl_definition = d, cl_revision = r\<rparr>"
    have l: "l = leased_enrollment now leaseMs (tokens (length cls)) c" "valid_enrollment l"
      using leased_parse [OF _ h(6)] Cons.prems(2) by auto
    have idx: "cl_id x = en_id c" by (simp add: cl_id_def x_def l leased_enrollment_def)
    have "claim_loop limit now leaseMs tokens defs cs (replace_by en_id es l) (cls @ [x]) =
        Inr (es', cls')"
      using Cons.prems(1) h by (simp add: x_def)
    from Cons.IH [OF this] Cons.prems(2,3) obtain new where new:
        "cls' = (cls @ [x]) @ new" "es' = apply_claims new (replace_by en_id es l)"
        "distinct (map cl_id new)" "cl_id ` set new \<subseteq> en_id ` set cs"
        "new = [] \<or> int (length cls') \<le> limit"
        "\<forall>cl \<in> set new. \<exists>c \<in> set cs. claim_of now leaseMs tokens defs c cl"
      by auto
    have "claim_of now leaseMs tokens defs c x"
      using h l find_Some_in [OF h(3)] unfolding claim_of_def x_def by auto
    moreover have "es' = apply_claims (x # new) es"
      using new(2) by (simp add: apply_claims_def x_def)
    moreover have "cl_id x \<notin> cl_id ` set new"
      using Cons.prems(3) new(4) idx by auto
    ultimately show ?thesis
      using new idx h(1) by (intro exI [of _ "x # new"]) auto
  next
    case False
    then have "(es', cls') = (es, cls) \<or>
        claim_loop limit now leaseMs tokens defs cs es cls = Inr (es', cls')"
      using Cons.prems(1)
      by (auto split: if_splits option.splits sum.splits)
    then show ?thesis
    proof
      assume "(es', cls') = (es, cls)"
      then show ?thesis by (intro exI [of _ "[]"]) (simp add: apply_claims_def)
    next
      assume "claim_loop limit now leaseMs tokens defs cs es cls = Inr (es', cls')"
      from Cons.IH [OF this] Cons.prems(2,3) obtain new where
        "cls' = cls @ new" "es' = apply_claims new es" "distinct (map cl_id new)"
        "cl_id ` set new \<subseteq> en_id ` set cs" "new = [] \<or> int (length cls') \<le> limit"
        "\<forall>cl \<in> set new. \<exists>c \<in> set cs. claim_of now leaseMs tokens defs c cl"
        by auto
      then show ?thesis by (intro exI [of _ new]) auto
    qed
  qed
qed

lemma claimDue_result:
  assumes "claimDue limit now leaseMs tokens s = Inr (s', cls)"
    and "\<forall>e \<in> set (sq_enrollments s). valid_enrollment e" "distinct (map en_id (sq_enrollments s))"
  shows "s' = s\<lparr>sq_enrollments := apply_claims cls (sq_enrollments s)\<rparr>"
    and "distinct (map cl_id cls)"
    and "length cls \<le> nat limit"
    and "\<And>cl. cl \<in> set cls \<Longrightarrow>
           \<exists>c \<in> set (sq_enrollments s). claim_of now leaseMs tokens (sq_definitions s) c cl"
proof -
  obtain es where loop: "claim_loop limit now leaseMs tokens (sq_definitions s)
      (sort_key en_nextRunAt (sq_enrollments s)) (sq_enrollments s) [] = Inr (es, cls)"
      and s': "s' = s\<lparr>sq_enrollments := es\<rparr>"
    using assms(1) by (auto simp: claimDue_def split: sum.splits)
  obtain new where "cls = new" "es = apply_claims new (sq_enrollments s)" "distinct (map cl_id new)"
      "new = [] \<or> int (length cls) \<le> limit"
      "\<forall>cl \<in> set new. \<exists>c \<in> set (sq_enrollments s). claim_of now leaseMs tokens (sq_definitions s) c cl"
    using claim_loop_result [OF loop] assms(2,3) by auto
  then show "s' = s\<lparr>sq_enrollments := apply_claims cls (sq_enrollments s)\<rparr>"
    "distinct (map cl_id cls)" "length cls \<le> nat limit"
    "\<And>cl. cl \<in> set cls \<Longrightarrow>
       \<exists>c \<in> set (sq_enrollments s). claim_of now leaseMs tokens (sq_definitions s) c cl"
    using s' by auto
qed

lemma claim_of_id: "claim_of now leaseMs tokens defs c cl \<Longrightarrow> cl_id cl = en_id c"
  by (auto simp: claim_of_def cl_id_def leased_enrollment_def)

subsection \<open>The repository is a leased queue\<close>

definition lease_pair :: "seq_enrollment \<Rightarrow> bool" where
  "lease_pair e \<longleftrightarrow> (en_leaseToken e = None \<longleftrightarrow> en_leaseExpiresAt e = None) \<and>
     (en_leaseToken e \<noteq> None \<longrightarrow> en_status e = EnrRunning)"

definition lease_of :: "seq_enrollment \<Rightarrow> (uuid \<times> instant) option" where
  "lease_of e = (case (en_leaseToken e, en_leaseExpiresAt e) of (Some t, Some x) \<Rightarrow> Some (t, x) | _ \<Rightarrow> None)"

definition sequence_lease :: "seq_store \<Rightarrow> uuid \<Rightarrow> (uuid \<times> instant) option" where
  "sequence_lease s i = Option.bind (List.find (\<lambda>e. en_id e = i) (sq_enrollments s)) lease_of"

record claim_due_options =
  cd_limit :: int
  cd_now :: instant
  cd_leaseMs :: int
  cd_tokens :: "nat \<Rightarrow> uuid"

definition sequence_claim :: "claim_due_options \<Rightarrow> seq_store \<Rightarrow> seq_store \<times> uuid list" where
  "sequence_claim r s =
     (case claimDue (cd_limit r) (cd_now r) (cd_leaseMs r) (cd_tokens r) s of
        Inl e \<Rightarrow> (s, []) | Inr (s', cls) \<Rightarrow> (s', map cl_id cls))"

definition without_lease_fields :: "seq_enrollment \<Rightarrow> seq_enrollment" where
  "without_lease_fields e = e\<lparr>en_leaseToken := None, en_leaseExpiresAt := None\<rparr>"

definition sequence_complete :: "uuid \<Rightarrow> uuid \<Rightarrow> seq_enrollment \<Rightarrow> seq_store \<Rightarrow> seq_store \<times> bool" where
  "sequence_complete i t x s =
     (case completeClaim (x\<lparr>en_id := i, en_leaseToken := Some t\<rparr>) (without_lease_fields (x\<lparr>en_id := i\<rparr>)) s of
        Inl e \<Rightarrow> (s, False) | Inr (s', _) \<Rightarrow> (s', True))"

definition queue_ok :: "seq_store \<Rightarrow> bool" where
  "queue_ok s \<longleftrightarrow> distinct (map en_id (sq_enrollments s)) \<and>
     (\<forall>e \<in> set (sq_enrollments s). valid_enrollment e \<and> lease_pair e)"

lemma schema_keeps_fields:
  assumes "parseSequenceEnrollment e = Inr p"
  shows "en_id p = en_id e" "en_leaseToken p = en_leaseToken e" "en_leaseExpiresAt p = en_leaseExpiresAt e"
    "en_status p = en_status e" "en_sequenceId p = en_sequenceId e" "en_subscriberId p = en_subscriberId e"
    "en_revision p = en_revision e" "stepIdSchema (en_currentStepId e) = Some (en_currentStepId p)"
    "en_updatedAt p = en_updatedAt e" "en_retryCount p = en_retryCount e" "en_nextRunAt p = en_nextRunAt e"
    "en_lastError p = en_lastError e"
  using assms
  by (auto simp: parseSequenceEnrollment_def enrollmentSchema_def split: option.splits if_splits)

lemma claim_lease:
  "claim_of now leaseMs tokens defs c cl \<Longrightarrow>
     \<exists>n. lease_of (cl_enrollment cl) = Some (tokens n, now + leaseMs) \<and> lease_pair (cl_enrollment cl)"
  by (auto simp: claim_of_def lease_of_def lease_pair_def leased_enrollment_def)

lemma find_enrollment:
  "queue_ok s \<Longrightarrow> e \<in> set (sq_enrollments s) \<Longrightarrow>
     List.find (\<lambda>c. en_id c = en_id e) (sq_enrollments s) = Some e"
  by (simp add: queue_ok_def find_key_distinct)

lemma claimable_lease:
  assumes "claimable now e" "lease_of e = Some (t, x)"
  shows "x \<le> now"
  using assms by (auto simp: claimable_def lease_free_def lease_of_def split: option.splits)

lemma completeClaim_result:
  assumes "completeClaim e nxt s = Inr (s', c)"
  shows "\<exists>stored. List.find (\<lambda>x. en_id x = en_id e) (sq_enrollments s) = Some stored \<and>
    en_leaseToken stored \<noteq> None \<and> en_leaseToken stored = en_leaseToken e \<and>
    parseSequenceEnrollment nxt = Inr c \<and>
    s' = s\<lparr>sq_enrollments := replace_by en_id (sq_enrollments s) c\<rparr>"
  using assms
  by (auto simp: completeClaim_def getFileEnrollment_def split: option.splits sum.splits if_splits)
     metis

lemma queue_ok_claim:
  assumes "queue_ok s" "claimDue limit now leaseMs tokens s = Inr (s', cls)"
  shows "queue_ok s'"
proof -
  have v: "\<forall>e \<in> set (sq_enrollments s). valid_enrollment e" "distinct (map en_id (sq_enrollments s))"
    using assms(1) by (auto simp: queue_ok_def)
  note r = claimDue_result [OF assms(2) v]
  have "valid_enrollment e \<and> lease_pair e" if "e \<in> set (sq_enrollments s')" for e
    using apply_claims_members [of e cls "sq_enrollments s"] that r(1,4) assms(1) claim_lease
    by (fastforce simp: queue_ok_def claim_of_def)
  then show ?thesis using r(1) v(2) by (simp add: queue_ok_def)
qed

lemma queue_ok_replace:
  assumes "queue_ok s" "valid_enrollment x" "lease_pair x"
  shows "queue_ok (s\<lparr>sq_enrollments := replace_by en_id (sq_enrollments s) x\<rparr>)"
  using assms set_replace_by_subset [of en_id "sq_enrollments s" x] by (auto simp: queue_ok_def)

lemma sequence_complete_cases:
  assumes "snd (sequence_complete i t x s)"
  obtains stored c where "List.find (\<lambda>e. en_id e = i) (sq_enrollments s) = Some stored"
    "en_leaseToken stored = Some t" "valid_enrollment c" "en_id c = i" "lease_of c = None" "lease_pair c"
    "fst (sequence_complete i t x s) = s\<lparr>sq_enrollments := replace_by en_id (sq_enrollments s) c\<rparr>"
proof -
  obtain s' c where c: "completeClaim (x\<lparr>en_id := i, en_leaseToken := Some t\<rparr>)
      (without_lease_fields (x\<lparr>en_id := i\<rparr>)) s = Inr (s', c)"
      "fst (sequence_complete i t x s) = s'"
    using assms by (auto simp: sequence_complete_def split: sum.splits)
  obtain stored where st: "List.find (\<lambda>e. en_id e = i) (sq_enrollments s) = Some stored"
      "en_leaseToken stored = Some t"
      "parseSequenceEnrollment (without_lease_fields (x\<lparr>en_id := i\<rparr>)) = Inr c"
      "s' = s\<lparr>sq_enrollments := replace_by en_id (sq_enrollments s) c\<rparr>"
    using completeClaim_result [OF c(1)] by auto
  have "en_id c = i" "lease_of c = None" "lease_pair c"
    using schema_keeps_fields [OF st(3)] by (simp_all add: lease_of_def lease_pair_def without_lease_fields_def)
  then show thesis
    using that st c(2) enrollment_parsed_valid [OF st(3)] by simp
qed

interpretation sequence_queue: lease_queue sequence_lease sequence_claim sequence_complete queue_ok
  cd_now "\<lambda>r. cd_now r + cd_leaseMs r" "\<lambda>r. range (cd_tokens r)" "\<lambda>r. nat (cd_limit r)"
proof (unfold_locales, goal_cases)
  case (1 s r)
  then show ?case by (auto simp: sequence_claim_def queue_ok_claim split: sum.splits)
next
  case (2 s i t x)
  show ?case
  proof (cases "snd (sequence_complete i t x s)")
    case True
    then show ?thesis
      by (rule sequence_complete_cases) (use 2 queue_ok_replace in auto)
  next
    case False
    then show ?thesis using 2 by (auto simp: sequence_complete_def split: sum.splits)
  qed
next
  case (3 s r)
  then show ?case
    using claimDue_result(2) by (auto simp: sequence_claim_def queue_ok_def split: sum.splits)
next
  case (4 s r)
  then show ?case
    using claimDue_result(3) by (auto simp: sequence_claim_def queue_ok_def split: sum.splits)
next
  case (5 s i r t e)
  then obtain s' cls cl where c: "claimDue (cd_limit r) (cd_now r) (cd_leaseMs r) (cd_tokens r) s = Inr (s', cls)"
      "cl \<in> set cls" "i = cl_id cl"
    by (auto simp: sequence_claim_def split: sum.splits)
  obtain en where en: "en \<in> set (sq_enrollments s)"
      "claim_of (cd_now r) (cd_leaseMs r) (cd_tokens r) (sq_definitions s) en cl"
    using claimDue_result(4) [OF c(1) _ _ c(2)] 5(1) by (auto simp: queue_ok_def)
  then have "lease_of en = Some (t, e)"
    using 5(3) find_enrollment [OF 5(1) en(1)] claim_of_id [OF en(2)] c(3)
    by (simp add: sequence_lease_def)
  then show ?case using claimable_lease en(2) by (auto simp: claim_of_def)
next
  case (6 s i r)
  then obtain s' cls cl where c: "claimDue (cd_limit r) (cd_now r) (cd_leaseMs r) (cd_tokens r) s = Inr (s', cls)"
      "cl \<in> set cls" "i = cl_id cl" "fst (sequence_claim r s) = s'"
    by (auto simp: sequence_claim_def split: sum.splits)
  have v: "\<forall>e \<in> set (sq_enrollments s). valid_enrollment e" "distinct (map en_id (sq_enrollments s))"
    using 6(1) by (auto simp: queue_ok_def)
  obtain en where en: "en \<in> set (sq_enrollments s)"
      "claim_of (cd_now r) (cd_leaseMs r) (cd_tokens r) (sq_definitions s) en cl"
    using claimDue_result(4) [OF c(1) v c(2)] by auto
  have "List.find (\<lambda>e. en_id e = cl_id cl) (apply_claims cls (sq_enrollments s)) = Some (cl_enrollment cl)"
    using apply_claims_find_claimed [OF claimDue_result(2) [OF c(1) v] c(2)] en claim_of_id by auto
  then show ?case
    using claim_lease [OF en(2)] claimDue_result(1) [OF c(1) v] c
    by (auto simp: sequence_lease_def)
next
  case (7 s i r)
  show ?case
  proof (cases "claimDue (cd_limit r) (cd_now r) (cd_leaseMs r) (cd_tokens r) s")
    case (Inl e)
    then show ?thesis by (simp add: sequence_claim_def)
  next
    case (Inr p)
    then obtain s' cls where c: "claimDue (cd_limit r) (cd_now r) (cd_leaseMs r) (cd_tokens r) s = Inr (s', cls)"
      by (cases p) auto
    then have "i \<notin> cl_id ` set cls" using 7(2) by (simp add: sequence_claim_def)
    then show ?thesis
      using claimDue_result(1) [OF c] 7(1) c apply_claims_find_other
      by (auto simp: sequence_lease_def sequence_claim_def queue_ok_def)
  qed
next
  case (8 s i t x)
  show ?case
  proof (rule sequence_complete_cases [OF 8(2)])
    fix stored
    assume st: "List.find (\<lambda>e. en_id e = i) (sq_enrollments s) = Some stored" "en_leaseToken stored = Some t"
    then have "lease_pair stored" using 8(1) find_Some_in [OF st(1)] by (simp add: queue_ok_def)
    then show ?thesis using st by (auto simp: sequence_lease_def lease_of_def lease_pair_def)
  qed
next
  case (9 s i t x)
  show ?case
  proof (rule sequence_complete_cases [OF 9(2)])
    fix stored c
    assume c: "List.find (\<lambda>e. en_id e = i) (sq_enrollments s) = Some stored" "en_id c = i" "lease_of c = None"
      "fst (sequence_complete i t x s) = s\<lparr>sq_enrollments := replace_by en_id (sq_enrollments s) c\<rparr>"
    then show ?thesis
      using find_replace_by_same [of en_id c "sq_enrollments s"] by (simp add: sequence_lease_def)
  qed
next
  case (10 i t x s)
  then show ?case by (auto simp: sequence_complete_def split: sum.splits)
next
  case (11 s j i t x)
  show ?case
  proof (cases "snd (sequence_complete i t x s)")
    case True
    then show ?thesis
      by (rule sequence_complete_cases)
         (use 11 in \<open>auto simp: sequence_lease_def find_replace_by_other\<close>)
  next
    case False
    then show ?thesis by (auto simp: sequence_complete_def split: sum.splits)
  qed
qed

end
