(* ===== verification/Sequence_System.thy ===== *)
theory Sequence_System
  imports Sequence_Invariant
begin

section \<open>The invariant of the sequence document\<close>

text \<open>
  \<open>seq_wf\<close>: valid definitions with distinct identifiers and names, valid enrollments
  with distinct identifiers, at most one active enrollment per sequence and
  subscriber, every enrollment on a step of a revision of an existing definition,
  leases only on running enrollments.  Every method of the repository keeps it, so
  it holds of the file after any history of calls, whatever fails.
\<close>

subsection \<open>The invariant\<close>

definition positioned :: "seq_definition list \<Rightarrow> seq_enrollment \<Rightarrow> bool" where
  "positioned defs e \<longleftrightarrow>
     (\<exists>d \<in> set defs. def_id d = en_sequenceId e \<and>
        (\<exists>r \<in> set (def_revisions d). rev_revision r = en_revision e \<and>
           en_currentStepId e \<in> step_id ` set (rev_steps r)))"

definition active :: "seq_enrollment \<Rightarrow> bool" where
  "active e \<longleftrightarrow> \<not> enrollmentIsTerminal (en_status e)"

definition same_subscription :: "seq_enrollment \<Rightarrow> seq_enrollment \<Rightarrow> bool" where
  "same_subscription e e' \<longleftrightarrow> en_sequenceId e = en_sequenceId e' \<and> en_subscriberId e = en_subscriberId e'"

definition one_active :: "seq_enrollment list \<Rightarrow> bool" where
  "one_active es \<longleftrightarrow> (\<forall>e \<in> set es. \<forall>e' \<in> set es.
     active e \<longrightarrow> active e' \<longrightarrow> same_subscription e e' \<longrightarrow> en_id e = en_id e')"

definition enrollment_fine :: "seq_definition list \<Rightarrow> seq_enrollment \<Rightarrow> bool" where
  "enrollment_fine defs e \<longleftrightarrow> valid_enrollment e \<and> lease_pair e \<and> positioned defs e"

definition definition_key :: "seq_definition \<Rightarrow> string" where
  "definition_key d = toLowerCase (def_name d)"

definition definitions_fine :: "(string \<Rightarrow> bool) \<Rightarrow> seq_definition list \<Rightarrow> bool" where
  "definitions_fine mailbox ds \<longleftrightarrow> (\<forall>d \<in> set ds. valid_definition mailbox d) \<and>
     distinct (map def_id ds) \<and> distinct (map definition_key ds)"

definition enrollments_fine :: "seq_definition list \<Rightarrow> seq_enrollment list \<Rightarrow> bool" where
  "enrollments_fine ds es \<longleftrightarrow> (\<forall>e \<in> set es. enrollment_fine ds e) \<and>
     distinct (map en_id es) \<and> one_active es"

definition workers_fine :: "seq_worker list \<Rightarrow> bool" where
  "workers_fine ws \<longleftrightarrow> (\<forall>w \<in> set ws. workerSchema w = Some w) \<and> distinct (map wk_id ws)"

definition seq_wf :: "(string \<Rightarrow> bool) \<Rightarrow> seq_store \<Rightarrow> bool" where
  "seq_wf mailbox s \<longleftrightarrow> sq_version s = SEQUENCE_STORE_VERSION \<and>
     definitions_fine mailbox (sq_definitions s) \<and>
     enrollments_fine (sq_definitions s) (sq_enrollments s) \<and>
     workers_fine (sq_workers s)"

lemma seq_wf_queue_ok: "seq_wf mailbox s \<Longrightarrow> queue_ok s"
  by (simp add: seq_wf_def queue_ok_def enrollments_fine_def enrollment_fine_def)

lemma parse_wf_store:
  assumes "seq_wf mailbox s"
  shows "parseStore mailbox s = Inr s"
proof -
  have "list_parse (parsePersistedSequenceDefinition mailbox) (sq_definitions s) = Inr (sq_definitions s)"
    using assms
    by (intro list_parse_fixed)
       (auto simp: seq_wf_def definitions_fine_def valid_definition_def parse_definition_iff
         parsePersistedSequenceDefinition_def)
  moreover have "list_schema (definition_schema (storedSequenceStepSchema mailbox)) (sq_definitions s) =
      Some (sq_definitions s)"
    using assms unfolding list_schema_fixed [symmetric]
    by (simp add: seq_wf_def definitions_fine_def valid_definition_def)
  moreover have "list_schema enrollmentSchema (sq_enrollments s) = Some (sq_enrollments s)"
    using assms unfolding list_schema_fixed [symmetric]
    by (simp add: seq_wf_def enrollments_fine_def enrollment_fine_def valid_enrollment_def)
  moreover have "list_schema workerSchema (sq_workers s) = Some (sq_workers s)"
    using assms unfolding list_schema_fixed [symmetric] by (simp add: seq_wf_def workers_fine_def)
  ultimately show ?thesis using assms by (simp add: parseStore_def seq_wf_def)
qed

subsection \<open>Steps of a valid definition\<close>

lemma valid_definition_step:
  assumes "valid_definition mailbox d" "r \<in> set (def_revisions d)" "st \<in> set (rev_steps r)"
  shows "stepIdSchema (step_id st) = Some (step_id st)"
proof -
  let ?f = "storedSequenceStepSchema mailbox"
  have "list_schema (revision_schema ?f) (def_revisions d) = Some (def_revisions d)"
    using assms(1) unfolding valid_definition_def definition_schema_def
    by (cases d) (auto split: option.splits if_splits)
  then have "revision_schema ?f r = Some r"
    using assms(2) list_schema_fixed [of "def_revisions d" "revision_schema ?f"] by auto
  then have "list_schema ?f (rev_steps r) = Some (rev_steps r)"
    by (cases r) (auto simp: revision_schema_def split: if_splits)
  then have "?f st = Some st"
    using assms(3) list_schema_fixed [of "rev_steps r" ?f] by auto
  then show ?thesis
    by (cases st) (auto simp: storedSequenceStepSchema_def sequenceStepSchema_def step_schema_def
        split: option.splits if_splits)
qed

lemma positioned_step_id:
  assumes "definitions_fine mailbox ds" "positioned ds e"
  shows "stepIdSchema (en_currentStepId e) = Some (en_currentStepId e)"
  using assms valid_definition_step unfolding positioned_def definitions_fine_def by (metis imageE)

lemma parsed_positioned:
  assumes "definitions_fine mailbox ds" "positioned ds e" "parseSequenceEnrollment e = Inr p"
  shows "positioned ds p"
  using assms(2) schema_keeps_fields [OF assms(3)] positioned_step_id [OF assms(1,2)]
  by (simp add: positioned_def)

subsection \<open>Replacing enrollments\<close>

text \<open>What an enrollment may become without disturbing the others.\<close>

definition succeeds :: "seq_definition list \<Rightarrow> seq_enrollment \<Rightarrow> seq_enrollment \<Rightarrow> bool" where
  "succeeds ds e e' \<longleftrightarrow> en_id e' = en_id e \<and> same_subscription e' e \<and> (active e' \<longrightarrow> active e) \<and>
     enrollment_fine ds e'"

lemma enrollments_fine_succeed:
  assumes fine: "enrollments_fine ds es" and ids: "map en_id es' = map en_id es"
    and succ: "\<And>e'. e' \<in> set es' \<Longrightarrow> \<exists>e \<in> set es. succeeds ds e e'"
  shows "enrollments_fine ds es'"
proof -
  have "one_active es'"
    unfolding one_active_def
  proof (intro ballI impI)
    fix a b
    assume h: "a \<in> set es'" "b \<in> set es'" "active a" "active b" "same_subscription a b"
    obtain a0 where a0: "a0 \<in> set es" "succeeds ds a0 a" using succ h by blast
    obtain b0 where b0: "b0 \<in> set es" "succeeds ds b0 b" using succ h by blast
    have "same_subscription a0 b0"
      using a0 b0 h by (simp add: succeeds_def same_subscription_def)
    then have "en_id a0 = en_id b0"
      using fine a0 b0 h by (auto simp: enrollments_fine_def one_active_def succeeds_def)
    then show "en_id a = en_id b" using a0 b0 by (simp add: succeeds_def)
  qed
  moreover have "distinct (map en_id es')" using fine ids by (simp add: enrollments_fine_def)
  ultimately show ?thesis
    using succ by (auto simp: enrollments_fine_def succeeds_def)
qed

lemma succeeds_refl: "enrollment_fine ds e \<Longrightarrow> succeeds ds e e"
  by (simp add: succeeds_def same_subscription_def)

lemma enrollments_fine_replace:
  assumes fine: "enrollments_fine ds es" and "e \<in> set es" "succeeds ds e e'"
  shows "enrollments_fine ds (replace_by en_id es e')"
proof (rule enrollments_fine_succeed [OF fine])
  fix x
  assume "x \<in> set (replace_by en_id es e')"
  then have "x = e' \<or> x \<in> set es" using set_replace_by_subset [of en_id es e'] by auto
  then show "\<exists>e \<in> set es. succeeds ds e x"
    using assms succeeds_refl by (auto simp: enrollments_fine_def)
qed simp

lemma leased_succeeds:
  assumes "enrollment_fine ds c" "active c" "valid_enrollment (leased_enrollment now leaseMs tok c)"
  shows "succeeds ds c (leased_enrollment now leaseMs tok c)"
proof -
  let ?l = "leased_enrollment now leaseMs tok c"
  have "lease_pair ?l" "same_subscription ?l c" "en_id ?l = en_id c"
    by (simp_all add: leased_enrollment_def lease_pair_def same_subscription_def)
  moreover have "positioned ds ?l"
    using assms(1) by (simp add: enrollment_fine_def positioned_def leased_enrollment_def)
  ultimately show ?thesis using assms by (simp add: succeeds_def enrollment_fine_def)
qed

lemma claims_fine:
  assumes fine: "enrollments_fine ds es"
    and cl: "\<And>cl. cl \<in> set cls \<Longrightarrow> \<exists>c \<in> set es. claim_of now leaseMs tokens ds c cl"
  shows "enrollments_fine ds (apply_claims cls es)"
proof (rule enrollments_fine_succeed [OF fine apply_claims_ids])
  fix x
  assume "x \<in> set (apply_claims cls es)"
  then consider "x \<in> set es" | cl where "cl \<in> set cls" "x = cl_enrollment cl"
    using apply_claims_members by blast
  then show "\<exists>e \<in> set es. succeeds ds e x"
  proof cases
    case 1
    then show ?thesis using fine succeeds_refl by (auto simp: enrollments_fine_def)
  next
    case 2
    obtain c where c: "c \<in> set es" "claim_of now leaseMs tokens ds c cl" using cl 2(1) by blast
    have "enrollment_fine ds c" using fine c(1) by (simp add: enrollments_fine_def)
    moreover obtain n where n: "x = leased_enrollment now leaseMs (tokens n) c"
      using c(2) 2(2) by (auto simp: claim_of_def)
    moreover have "valid_enrollment x" using c(2) 2(2) by (simp add: claim_of_def)
    moreover have "active c"
      using c(2) by (auto simp: claim_of_def claimable_def active_def enrollmentIsTerminal_def
          runnable_status_def)
    ultimately have "succeeds ds c x"
      by (simp add: leased_succeeds)
    then show ?thesis using c(1) by blast
  qed
qed

subsection \<open>Changing definitions\<close>

text \<open>A definition keeps every revision it had.\<close>

definition extends_revisions :: "seq_definition \<Rightarrow> seq_definition \<Rightarrow> bool" where
  "extends_revisions d d' \<longleftrightarrow> def_id d' = def_id d \<and> set (def_revisions d) \<subseteq> set (def_revisions d')"

lemma positioned_extend:
  assumes "positioned ds e"
    and "\<And>d. d \<in> set ds \<Longrightarrow> def_id d = en_sequenceId e \<Longrightarrow> \<exists>d' \<in> set ds'. extends_revisions d d'"
  shows "positioned ds' e"
  using assms unfolding positioned_def extends_revisions_def by (metis subsetD)

lemma enrollments_fine_extend:
  assumes "enrollments_fine ds es"
    and "\<And>d. d \<in> set ds \<Longrightarrow> \<exists>d' \<in> set ds'. extends_revisions d d'"
  shows "enrollments_fine ds' es"
  using assms positioned_extend unfolding enrollments_fine_def enrollment_fine_def by blast

lemma find_definition_Some:
  assumes "getFileDefinition s i = Inr d"
  shows "d \<in> set (sq_definitions s) \<and> def_id d = i"
  using assms by (auto simp: getFileDefinition_def split: option.splits dest: find_Some_in)

lemma replace_definition_fine:
  assumes fine: "definitions_fine mailbox ds" and d: "d \<in> set ds" and d': "valid_definition mailbox d'"
    and ext: "extends_revisions d d'"
    and key: "\<And>c. c \<in> set ds \<Longrightarrow> def_id c \<noteq> def_id d \<Longrightarrow> definition_key c \<noteq> definition_key d'"
  shows "definitions_fine mailbox (replace_by def_id ds d')"
proof -
  have di: "distinct (map def_id ds)" and dk: "distinct (map definition_key ds)"
    using fine by (auto simp: definitions_fine_def)
  have "inj_on definition_key (set (replace_by def_id ds d'))"
  proof (rule inj_onI)
    fix x y
    assume "x \<in> set (replace_by def_id ds d')" "y \<in> set (replace_by def_id ds d')"
      "definition_key x = definition_key y"
    then show "x = y"
      using key ext distinct_key_inj [OF dk] unfolding set_replace_by extends_revisions_def
      by (auto split: if_splits; metis)
  qed
  moreover have "distinct (replace_by def_id ds d')"
    using di by (metis distinct_map map_key_replace_by)
  ultimately have "distinct (map definition_key (replace_by def_id ds d'))"
    by (simp add: distinct_map)
  then show ?thesis
    using fine d' di set_replace_by_subset [of def_id ds d'] by (auto simp: definitions_fine_def)
qed

lemma replace_definition_wf:
  assumes wf: "seq_wf mailbox s" and d: "d \<in> set (sq_definitions s)" and d': "valid_definition mailbox d'"
    and ext: "extends_revisions d d'"
    and key: "\<And>c. c \<in> set (sq_definitions s) \<Longrightarrow> def_id c \<noteq> def_id d \<Longrightarrow>
                 definition_key c \<noteq> definition_key d'"
  shows "seq_wf mailbox (s\<lparr>sq_definitions := replace_by def_id (sq_definitions s) d'\<rparr>)"
proof -
  have mem: "\<exists>c' \<in> set (replace_by def_id (sq_definitions s) d'). extends_revisions c c'"
    if c: "c \<in> set (sq_definitions s)" for c
  proof (cases "def_id c = def_id d'")
    case True
    then have "c = d"
      using wf c d ext distinct_key_inj [of def_id "sq_definitions s"]
      by (auto simp: seq_wf_def definitions_fine_def extends_revisions_def)
    moreover have "def_id d' \<in> def_id ` set (sq_definitions s)" using c True by (metis imageI)
    ultimately show ?thesis using ext by (auto simp: set_replace_by)
  next
    case False
    then show ?thesis using c by (auto simp: set_replace_by extends_revisions_def)
  qed
  have "enrollments_fine (sq_definitions s) (sq_enrollments s)" using wf by (simp add: seq_wf_def)
  from enrollments_fine_extend [OF this mem] show ?thesis
    using wf replace_definition_fine [OF _ d d' ext key] by (simp add: seq_wf_def)
qed

subsection \<open>Every method keeps the invariant\<close>

lemma createDefinition_wf:
  assumes "seq_wf mailbox s" "createDefinition mailbox d s = Inr (s', p)"
  shows "seq_wf mailbox s'"
proof -
  have p: "valid_definition mailbox p" "s' = s\<lparr>sq_definitions := sq_definitions s @ [p]\<rparr>"
      "\<forall>c \<in> set (sq_definitions s). def_id c \<noteq> def_id p \<and> definition_key c \<noteq> definition_key p"
    using assms(2) parsed_valid
    by (auto simp: createDefinition_def list_ex_iff definition_key_def split: sum.splits if_splits)
  have "enrollments_fine (sq_definitions s @ [p]) (sq_enrollments s)"
    using assms(1) enrollments_fine_extend [of "sq_definitions s" _ "sq_definitions s @ [p]"]
    by (auto simp: seq_wf_def extends_revisions_def)
  then show ?thesis
    using assms(1) p by (auto simp: seq_wf_def definitions_fine_def)
qed

lemma updated_extends: "extends_revisions d (updated_definition d input steps now)"
  by (auto simp: extends_revisions_def updated_definition_def)

lemma valid_revisions_fixed:
  assumes "valid_definition mailbox d"
  shows "list_schema (revision_schema (storedSequenceStepSchema mailbox)) (def_revisions d) =
           Some (def_revisions d)"
    "trim (def_name d) = def_name d"
  using assms unfolding valid_definition_def definition_schema_def trimmed_between_def Let_def
  by (cases d; auto split: option.splits if_splits)+

lemma persisted_fields:
  assumes "parsePersistedSequenceDefinition mailbox d = Inr p"
  shows "def_id p = def_id d" "def_name p = trim (def_name d)" "def_status p = def_status d"
    "def_currentRevision p = def_currentRevision d"
    "list_schema (revision_schema (storedSequenceStepSchema mailbox)) (def_revisions d) =
       Some (def_revisions p)"
  using assms
  by (auto simp: parsePersistedSequenceDefinition_def parse_definition_iff definition_schema_def
      trimmed_between_def Let_def split: option.splits if_splits)

lemma updated_parsed_extends:
  assumes "valid_definition mailbox d"
    and "parsePersistedSequenceDefinition mailbox (updated_definition d input steps now) = Inr p"
  shows "extends_revisions d p"
proof -
  have "list_schema (revision_schema (storedSequenceStepSchema mailbox))
      (def_revisions d @ [\<lparr>rev_revision = def_currentRevision d + 1, rev_steps = steps, rev_createdAt = now\<rparr>])
      = Some (def_revisions p)"
    using persisted_fields(5) [OF assms(2)] by (simp add: updated_definition_def)
  then obtain x where "def_revisions d @ [x] = def_revisions p"
    using valid_revisions_fixed(1) [OF assms(1)] by (auto simp: list_schema_append split: option.splits)
  then show ?thesis
    using persisted_fields(1) [OF assms(2)]
    by (auto simp: extends_revisions_def updated_definition_def dest: sym)
qed

lemma updateDefinition_wf:
  assumes wf: "seq_wf mailbox s" and upd: "updateDefinition mailbox i input now s = Inr (s', d, b)"
    and name: "\<And>n. du_name input = Some n \<Longrightarrow> trim n = n"
  shows "seq_wf mailbox s'"
proof (cases b)
  case False
  then show ?thesis
    using wf upd by (auto simp: updateDefinition_def split: sum.splits if_splits)
next
  case True
  obtain prev steps where prev: "getFileDefinition s i = Inr prev"
    and free: "\<forall>n. du_name input = Some n \<longrightarrow> (\<forall>c \<in> set (sq_definitions s).
                 def_id c \<noteq> i \<longrightarrow> definition_key c \<noteq> toLowerCase n)"
    and parsed: "parsePersistedSequenceDefinition mailbox (updated_definition prev input steps now) = Inr d"
    and s': "s' = s\<lparr>sq_definitions := replace_by def_id (sq_definitions s) d\<rparr>"
    using upd True
    by (auto simp: updateDefinition_def list_ex_iff definition_key_def split: sum.splits if_splits option.splits)
  have pm: "prev \<in> set (sq_definitions s)" "def_id prev = i"
    using find_definition_Some [OF prev] by auto
  then have pv: "valid_definition mailbox prev"
    using wf by (simp add: seq_wf_def definitions_fine_def)
  have nm: "def_name d = (case du_name input of None \<Rightarrow> def_name prev | Some n \<Rightarrow> n)"
    using persisted_fields(2) [OF parsed] name valid_revisions_fixed(2) [OF pv]
    by (simp add: updated_definition_def split: option.splits)
  have "definition_key c \<noteq> definition_key d"
    if c: "c \<in> set (sq_definitions s)" "def_id c \<noteq> def_id prev" for c
  proof (cases "du_name input")
    case None
    have "distinct (map definition_key (sq_definitions s))"
      using wf by (simp add: seq_wf_def definitions_fine_def)
    then show ?thesis
      using None nm c pm distinct_key_inj [of definition_key "sq_definitions s" c prev]
      by (auto simp: definition_key_def)
  next
    case (Some n)
    then show ?thesis using free c pm nm by (simp add: definition_key_def)
  qed
  then show ?thesis
    unfolding s'
    using replace_definition_wf [OF wf pm(1) persisted_valid [OF parsed]
        updated_parsed_extends [OF pv parsed]] by simp
qed

lemma setDefinitionStatus_wf:
  assumes wf: "seq_wf mailbox s" and upd: "setDefinitionStatus mailbox i st now s = Inr (s', d)"
  shows "seq_wf mailbox s'"
proof (cases "s' = s")
  case True
  then show ?thesis using wf by simp
next
  case False
  obtain prev where prev: "getFileDefinition s i = Inr prev"
    and parsed: "parsePersistedSequenceDefinition mailbox
                   (prev\<lparr>def_status := st, def_updatedAt := now\<rparr>) = Inr d"
    and s': "s' = s\<lparr>sq_definitions := replace_by def_id (sq_definitions s) d\<rparr>"
    using upd False by (auto simp: setDefinitionStatus_def split: sum.splits if_splits)
  have pm: "prev \<in> set (sq_definitions s)" using find_definition_Some [OF prev] by auto
  then have pv: "valid_definition mailbox prev"
    using wf by (simp add: seq_wf_def definitions_fine_def)
  have "extends_revisions prev d" "def_name d = def_name prev"
    using persisted_fields [OF parsed] valid_revisions_fixed [OF pv]
    by (simp_all add: extends_revisions_def)
  moreover have "definition_key c \<noteq> definition_key prev"
    if "c \<in> set (sq_definitions s)" "def_id c \<noteq> def_id prev" for c
    using wf that pm distinct_key_inj [of definition_key "sq_definitions s" c prev]
    by (auto simp: seq_wf_def definitions_fine_def)
  ultimately show ?thesis
    unfolding s'
    using replace_definition_wf [OF wf pm persisted_valid [OF parsed]] by (simp add: definition_key_def)
qed

lemma enrollments_fine_filter:
  "enrollments_fine ds es \<Longrightarrow> enrollments_fine ds (filter P es)"
  by (auto simp: enrollments_fine_def one_active_def distinct_map_filter)

lemma deleteDefinition_wf:
  assumes wf: "seq_wf mailbox s" and del: "deleteDefinition i s = Inr (s', d)"
  shows "seq_wf mailbox s'"
proof -
  have s': "s' = s\<lparr>sq_definitions := filter (\<lambda>c. def_id c \<noteq> i) (sq_definitions s),
                  sq_enrollments := filter (\<lambda>e. en_sequenceId e \<noteq> i) (sq_enrollments s)\<rparr>"
    using del by (auto simp: deleteDefinition_def split: sum.splits option.splits)
  let ?ds = "filter (\<lambda>c. def_id c \<noteq> i) (sq_definitions s)"
  let ?es = "filter (\<lambda>e. en_sequenceId e \<noteq> i) (sq_enrollments s)"
  have e: "enrollments_fine (sq_definitions s) ?es"
    using wf by (simp add: seq_wf_def enrollments_fine_filter)
  have "enrollment_fine ?ds x" if x: "x \<in> set ?es" for x
  proof -
    have fine: "enrollment_fine (sq_definitions s) x" using e x unfolding enrollments_fine_def by blast
    moreover have "positioned ?ds x"
      by (rule positioned_extend [of "sq_definitions s"])
         (use fine x in \<open>auto simp: enrollment_fine_def extends_revisions_def\<close>)
    ultimately show ?thesis by (simp add: enrollment_fine_def)
  qed
  then have "enrollments_fine ?ds ?es" using e by (simp add: enrollments_fine_def)
  then show ?thesis
    using wf by (auto simp: s' seq_wf_def definitions_fine_def distinct_map_filter)
qed

lemma one_active_snoc:
  assumes "one_active es" "\<forall>c \<in> set es. en_id c \<noteq> en_id e \<and> (same_subscription c e \<longrightarrow> \<not> active c)"
  shows "one_active (es @ [e])"
proof -
  have sym: "same_subscription c e" if "same_subscription e c" for c
    using that by (simp add: same_subscription_def)
  show ?thesis
    unfolding one_active_def
  proof (intro ballI impI)
    fix a b
    assume "a \<in> set (es @ [e])" "b \<in> set (es @ [e])" "active a" "active b" "same_subscription a b"
    then show "en_id a = en_id b"
      using assms sym unfolding one_active_def by (cases "a = e"; cases "b = e") auto
  qed
qed

lemma createEnrollment_wf:
  assumes wf: "seq_wf mailbox s" and c: "createEnrollment e s = Inr (s', x)"
    and e: "enrollment_fine (sq_definitions s) e"
  shows "seq_wf mailbox s'"
proof -
  have s': "s' = s\<lparr>sq_enrollments := sq_enrollments s @ [e]\<rparr>"
    and free: "\<forall>c \<in> set (sq_enrollments s). en_id c \<noteq> en_id e \<and>
                 (same_subscription c e \<longrightarrow> \<not> active c)"
    using c by (auto simp: createEnrollment_def list_ex_iff same_subscription_def active_def
        split: sum.splits if_splits)
  have "one_active (sq_enrollments s)" using wf by (simp add: seq_wf_def enrollments_fine_def)
  then have "one_active (sq_enrollments s @ [e])" using free by (rule one_active_snoc)
  then have "enrollments_fine (sq_definitions s) (sq_enrollments s @ [e])"
    using wf free e by (auto simp: seq_wf_def enrollments_fine_def)
  then show ?thesis using wf by (simp add: s' seq_wf_def)
qed

lemma claimDue_wf:
  assumes wf: "seq_wf mailbox s" and c: "claimDue limit now leaseMs tokens s = Inr (s', cls)"
  shows "seq_wf mailbox s'"
proof -
  have v: "\<forall>e \<in> set (sq_enrollments s). valid_enrollment e" "distinct (map en_id (sq_enrollments s))"
    using seq_wf_queue_ok [OF wf] by (auto simp: queue_ok_def)
  have "enrollments_fine (sq_definitions s) (apply_claims cls (sq_enrollments s))"
    using wf claimDue_result(4) [OF c v] by (intro claims_fine) (auto simp: seq_wf_def)
  then show ?thesis using wf claimDue_result(1) [OF c v] by (simp add: seq_wf_def)
qed

lemma replace_enrollment_wf:
  assumes "seq_wf mailbox s" "e \<in> set (sq_enrollments s)" "succeeds (sq_definitions s) e e'"
  shows "seq_wf mailbox (s\<lparr>sq_enrollments := replace_by en_id (sq_enrollments s) e'\<rparr>)"
  using assms enrollments_fine_replace by (simp add: seq_wf_def)

text \<open>
  What a caller of \<open>completeClaim\<close> or \<open>resolveAmbiguous\<close> owes: the next enrollment is
  the same subscription of the same sequence on a step of its revision, unleased.
\<close>

definition legal_next :: "seq_store \<Rightarrow> seq_enrollment \<Rightarrow> seq_enrollment \<Rightarrow> bool" where
  "legal_next s e nxt \<longleftrightarrow> en_id nxt = en_id e \<and> en_leaseToken nxt = None \<and> en_leaseExpiresAt nxt = None \<and>
     positioned (sq_definitions s) nxt \<and>
     (\<forall>x \<in> set (sq_enrollments s). en_id x = en_id e \<longrightarrow> same_subscription nxt x)"

lemma legal_next_succeeds:
  assumes wf: "seq_wf mailbox s" and leg: "legal_next s e nxt" and p: "parseSequenceEnrollment nxt = Inr c"
    and st: "stored \<in> set (sq_enrollments s)" "en_id stored = en_id e" "active stored"
  shows "succeeds (sq_definitions s) stored c"
proof -
  have "positioned (sq_definitions s) c"
    using parsed_positioned [of mailbox "sq_definitions s" nxt c, OF _ _ p] leg wf
    by (simp add: legal_next_def seq_wf_def)
  moreover have "lease_pair c"
    using schema_keeps_fields [OF p] leg by (simp add: lease_pair_def legal_next_def)
  moreover have "same_subscription c stored" "en_id c = en_id stored"
    using schema_keeps_fields [OF p] leg st by (auto simp: legal_next_def same_subscription_def)
  ultimately show ?thesis
    using st(3) enrollment_parsed_valid [OF p] by (simp add: succeeds_def enrollment_fine_def)
qed

lemma completeClaim_wf:
  assumes wf: "seq_wf mailbox s" and c: "completeClaim e nxt s = Inr (s', c)" and leg: "legal_next s e nxt"
  shows "seq_wf mailbox s'"
proof -
  obtain stored where st: "List.find (\<lambda>x. en_id x = en_id e) (sq_enrollments s) = Some stored"
      "en_leaseToken stored \<noteq> None" "parseSequenceEnrollment nxt = Inr c"
      "s' = s\<lparr>sq_enrollments := replace_by en_id (sq_enrollments s) c\<rparr>"
    using completeClaim_result [OF c] by auto
  have m: "stored \<in> set (sq_enrollments s)" "en_id stored = en_id e"
    using find_Some_in [OF st(1)] by auto
  then have "lease_pair stored"
    using wf by (simp add: seq_wf_def enrollments_fine_def enrollment_fine_def)
  then have "active stored"
    using st(2) by (simp add: lease_pair_def active_def enrollmentIsTerminal_def)
  then show ?thesis
    using replace_enrollment_wf [OF wf m(1)] legal_next_succeeds [OF wf leg st(3) m] st(4) by simp
qed

lemma resolveAmbiguous_result:
  assumes "resolveAmbiguous e nxt s = Inr (s', c)"
  shows "\<exists>stored. List.find (\<lambda>x. en_id x = en_id e) (sq_enrollments s) = Some stored \<and>
    en_status stored = EnrAmbiguous \<and> en_updatedAt stored = en_updatedAt e \<and>
    parseSequenceEnrollment nxt = Inr c \<and>
    s' = s\<lparr>sq_enrollments := replace_by en_id (sq_enrollments s) c\<rparr>"
  using assms
  by (auto simp: resolveAmbiguous_def getFileEnrollment_def split: option.splits sum.splits if_splits)

lemma resolveAmbiguous_wf:
  assumes wf: "seq_wf mailbox s" and c: "resolveAmbiguous e nxt s = Inr (s', c)" and leg: "legal_next s e nxt"
  shows "seq_wf mailbox s'"
proof -
  obtain stored where st: "List.find (\<lambda>x. en_id x = en_id e) (sq_enrollments s) = Some stored"
      "en_status stored = EnrAmbiguous" "parseSequenceEnrollment nxt = Inr c"
      "s' = s\<lparr>sq_enrollments := replace_by en_id (sq_enrollments s) c\<rparr>"
    using resolveAmbiguous_result [OF c] by auto
  have m: "stored \<in> set (sq_enrollments s)" "en_id stored = en_id e"
    using find_Some_in [OF st(1)] by auto
  have "active stored" using st(2) by (simp add: active_def enrollmentIsTerminal_def)
  then show ?thesis
    using replace_enrollment_wf [OF wf m(1)] legal_next_succeeds [OF wf leg st(3) m] st(4) by simp
qed

lemma recovered_succeeds:
  assumes fine: "enrollment_fine ds e" and a: "active e"
    and p: "parseSequenceEnrollment (recovered_enrollment now e) = Inr x" and ds: "definitions_fine mailbox ds"
  shows "succeeds ds e x"
proof -
  have "positioned ds (recovered_enrollment now e)"
    using fine by (simp add: enrollment_fine_def positioned_def recovered_enrollment_def)
  then have "positioned ds x" using parsed_positioned [OF ds _ p] by simp
  then show ?thesis
    using a enrollment_parsed_valid [OF p] schema_keeps_fields [OF p]
    by (simp add: succeeds_def enrollment_fine_def lease_pair_def same_subscription_def
        recovered_enrollment_def)
qed

lemma reconcile_wf:
  assumes wf: "seq_wf mailbox s" and r: "reconcile now limit dry s = Inr (s', res)"
  shows "seq_wf mailbox s'"
proof (cases dry)
  case True
  then show ?thesis using wf r by (simp add: reconcile_def Let_def)
next
  case False
  define ids where "ids = map en_id (take limit (filter (lease_expired now) (sq_enrollments s)))"
  define f where "f = (\<lambda>e. if en_id e \<in> set ids then parseSequenceEnrollment (recovered_enrollment now e)
                           else Inr e)"
  obtain es where es: "list_parse f (sq_enrollments s) = Inr es" "s' = s\<lparr>sq_enrollments := es\<rparr>"
    using r False unfolding reconcile_def Let_def f_def ids_def by (auto split: sum.splits)
  have fine: "definitions_fine mailbox (sq_definitions s)" "enrollments_fine (sq_definitions s) (sq_enrollments s)"
    using wf by (auto simp: seq_wf_def)
  have act: "active e" if e: "e \<in> set (sq_enrollments s)" "en_id e \<in> set ids" for e
  proof -
    obtain e' where e': "e' \<in> set (filter (lease_expired now) (sq_enrollments s))" "en_id e' = en_id e"
      using e(2) by (auto simp: ids_def dest!: in_set_takeD)
    then have "e' = e"
      using fine(2) e(1) distinct_key_inj [of en_id "sq_enrollments s" e' e]
      by (auto simp: enrollments_fine_def)
    then show ?thesis using e'(1) by (simp add: lease_expired_def active_def)
  qed
  have succ: "succeeds (sq_definitions s) e y" if e: "e \<in> set (sq_enrollments s)" "f e = Inr y" for e y
    using e act [OF e(1)] fine recovered_succeeds [of "sq_definitions s" e now y mailbox] succeeds_refl
    by (auto simp: f_def enrollments_fine_def split: if_splits)
  have keep: "en_id y = en_id x" if "f x = Inr y" for x y
    using that schema_keeps_fields(1) by (auto simp: f_def recovered_enrollment_def split: if_splits)
  have "enrollments_fine (sq_definitions s) es"
  proof (rule enrollments_fine_succeed [OF fine(2) list_parse_map [OF es(1) keep]])
    fix y
    assume "y \<in> set es"
    then show "\<exists>e \<in> set (sq_enrollments s). succeeds (sq_definitions s) e y"
      using list_parse_members [OF es(1)] succ by blast
  qed
  then show ?thesis using wf es(2) by (simp add: seq_wf_def)
qed

lemma upsertWorker_wf:
  assumes "seq_wf mailbox s" "upsertWorker w s = Inr (s', u)" "workerSchema w = Some w"
  shows "seq_wf mailbox s'"
proof -
  let ?r = "filter (\<lambda>c. wk_id c = wk_id w \<or>
      wk_heartbeatAt c \<ge> wk_heartbeatAt w - DEFAULT_SEQUENCE_WORKER_RETENTION_MS) (sq_workers s)"
  have s': "s' = s\<lparr>sq_workers := (if list_ex (\<lambda>c. wk_id c = wk_id w) ?r then replace_by wk_id ?r w
                                else ?r @ [w])\<rparr>"
    using assms(2) by (simp add: upsertWorker_def Let_def)
  have "workers_fine ?r" using assms(1) by (auto simp: seq_wf_def workers_fine_def distinct_map_filter)
  then have "workers_fine (replace_by wk_id ?r w)" "\<not> list_ex (\<lambda>c. wk_id c = wk_id w) ?r \<Longrightarrow> workers_fine (?r @ [w])"
    using assms(3) set_replace_by_subset [of wk_id ?r w]
    by (auto simp: workers_fine_def list_ex_iff)
  then show ?thesis using assms(1) by (simp add: s' seq_wf_def)
qed

subsection \<open>The repository file over any history\<close>

definition legal_op :: "seq_op \<Rightarrow> seq_store \<Rightarrow> bool" where
  "legal_op op s =
     (case op of
        UpdateDefinition i input now \<Rightarrow> (case du_name input of None \<Rightarrow> True | Some n \<Rightarrow> trim n = n)
      | CreateEnrollment e \<Rightarrow> enrollment_fine (sq_definitions s) e
      | CompleteClaim e nxt \<Rightarrow> legal_next s e nxt
      | ResolveAmbiguous e nxt \<Rightarrow> legal_next s e nxt
      | UpsertWorker w \<Rightarrow> workerSchema w = Some w
      | _ \<Rightarrow> True)"

lemma with_result_Inr:
  "with_result f r = Inr (s, v) \<longleftrightarrow> (\<exists>x. r = Inr (s, x) \<and> v = f x)"
  by (auto simp: with_result_def split: sum.splits)

lemma sequence_callback_wf:
  assumes "seq_wf mailbox s" "legal_op op s" "sequence_callback mailbox op s = Inr (s', r)"
  shows "seq_wf mailbox s'"
proof (cases op)
  case (CreateDefinition d)
  then show ?thesis using assms createDefinition_wf by (auto simp: sequence_callback_def with_result_Inr)
next
  case (UpdateDefinition i input now)
  then obtain d u where "updateDefinition mailbox i input now s = Inr (s', d, u)"
    using assms(3) by (auto simp: sequence_callback_def with_result_Inr)
  moreover have "\<And>n. du_name input = Some n \<Longrightarrow> trim n = n"
    using assms(2) UpdateDefinition by (simp add: legal_op_def)
  ultimately show ?thesis using updateDefinition_wf [OF assms(1)] by blast
next
  case (DeleteDefinition i)
  then show ?thesis using assms deleteDefinition_wf by (auto simp: sequence_callback_def with_result_Inr)
next
  case (SetDefinitionStatus i st now)
  then show ?thesis using assms setDefinitionStatus_wf by (auto simp: sequence_callback_def with_result_Inr)
next
  case (CreateEnrollment e)
  then show ?thesis
    using assms createEnrollment_wf by (auto simp: sequence_callback_def with_result_Inr legal_op_def)
next
  case (ClaimDue limit now leaseMs tokens)
  then show ?thesis using assms claimDue_wf by (auto simp: sequence_callback_def with_result_Inr)
next
  case (CompleteClaim e nxt)
  then show ?thesis
    using assms completeClaim_wf by (auto simp: sequence_callback_def with_result_Inr legal_op_def)
next
  case (ResolveAmbiguous e nxt)
  then show ?thesis
    using assms resolveAmbiguous_wf by (auto simp: sequence_callback_def with_result_Inr legal_op_def)
next
  case (Reconcile now limit dry)
  then show ?thesis using assms reconcile_wf by (auto simp: sequence_callback_def with_result_Inr)
next
  case (UpsertWorker w)
  then show ?thesis
    using assms upsertWorker_wf by (auto simp: sequence_callback_def with_result_Inr legal_op_def)
qed

definition seq_value :: "seq_store option \<Rightarrow> seq_store" where
  "seq_value file = (case file of
     None \<Rightarrow> \<lparr>sq_version = SEQUENCE_STORE_VERSION, sq_definitions = [], sq_enrollments = [], sq_workers = []\<rparr>
   | Some s \<Rightarrow> s)"

definition seq_file_wf :: "(string \<Rightarrow> bool) \<Rightarrow> seq_store option \<Rightarrow> bool" where
  "seq_file_wf mailbox file \<longleftrightarrow> seq_wf mailbox (seq_value file)"

definition seq_legal :: "io_env \<times> seq_op \<Rightarrow> seq_store option \<Rightarrow> bool" where
  "seq_legal x file \<longleftrightarrow> legal_op (snd x) (seq_value file)"

lemma seq_read:
  assumes "seq_file_wf mailbox file" "readJsonFileStore (createSequenceStore mailbox) io file = Inr cur"
  shows "cur = seq_value file"
  using assms parse_wf_store [of mailbox]
  by (cases "file") (auto simp: seq_file_wf_def seq_value_def createSequenceStore_def split: if_splits)

lemma sequence_step_wf:
  assumes wf: "seq_file_wf mailbox file" and leg: "seq_legal x file"
  shows "seq_file_wf mailbox (fst (sequence_repository_step mailbox x file))"
proof (rule update_cases [of "createSequenceStore mailbox" "fst x" "sequence_callback mailbox (snd x)" "file"])
  fix e
  assume "updateJsonFileStore (createSequenceStore mailbox) (fst x) (sequence_callback mailbox (snd x)) file =
    (file, Inl e)"
  then show ?thesis using wf by (simp add: sequence_repository_step_def)
next
  fix cur v r w
  assume rd: "readJsonFileStore (createSequenceStore mailbox) (fst x) file = Inr cur"
    and cb: "sequence_callback mailbox (snd x) cur = Inr (v, r)"
    and res: "updateJsonFileStore (createSequenceStore mailbox) (fst x) (sequence_callback mailbox (snd x)) file =
      (Some v, if io_release (fst x) then Inr r else Inl ReleaseFailed)"
  have cur: "cur = seq_value file" using seq_read [OF wf] rd by blast
  have "seq_wf mailbox v"
    using sequence_callback_wf [OF _ _ cb] cur wf leg by (simp add: seq_file_wf_def seq_legal_def)
  then show ?thesis using res by (simp add: sequence_repository_step_def seq_file_wf_def seq_value_def)
qed

interpretation sequence_system: op_system "sequence_repository_step mailbox" "seq_file_wf mailbox" seq_legal
  for mailbox
  by unfold_locales (rule sequence_step_wf)

end
