(* ===== verification/Sequence_Engine.thy ===== *)
theory Sequence_Engine
  imports Sequence_System Transactional_Store
begin

section \<open>The sequence engine\<close>

text \<open>
  \<^verbatim>\<open>packages/automation/src/sequence-engine.ts\<close>: one tick claims the due enrollments,
  executes the current step of each and completes the claim with the enrollment
  that follows; a send step goes through \<open>sendTransactionalMessage\<close> under a key
  determined by the enrollment, its revision and its step.

  Listmonk's answers (the subscriber looked up and the reply to the send), the
  instants and I/O outcomes of the idempotency store, and the jitter are the
  arguments \<open>send_env\<close>.  The claims of a tick run concurrently in the program;
  \<open>runSequenceTick\<close> executes them in the order of the claims, one of the
  interleavings.  Its effects on the two stores are atomic updates whose
  interleavings the lease queue and \<open>send_step\<close> treat.
\<close>

subsection \<open>Errors\<close>

text \<open>
  What \<open>executeSendStep\<close> catches: an error of the subscriber lookup, an error of the
  send, or any other thrown value.
\<close>

datatype engine_error =
    ResourceResponseError string "js_number option" "js_error option"
  | SendError send_error
  | OtherError thrown

text \<open>The error value a failed store call throws is reported by the file system.\<close>

fun send_error_thrown :: "(tx_error store_failure \<Rightarrow> thrown) \<Rightarrow> send_error \<Rightarrow> thrown" where
  "send_error_thrown failure (SendInputError m) = ThrownError (JsError m None None None)"
| "send_error_thrown failure (SendReconcileError k st m) =
     ThrownError (JsError m None None (Some (JsError m None None None)))"
| "send_error_thrown failure (SendThrown e) = e"
| "send_error_thrown failure (SendStoreFailure f) = failure f"

fun engine_error_thrown :: "(tx_error store_failure \<Rightarrow> thrown) \<Rightarrow> engine_error \<Rightarrow> thrown" where
  "engine_error_thrown failure (ResourceResponseError m st cause) = ThrownError (JsError m None None cause)"
| "engine_error_thrown failure (SendError e) = send_error_thrown failure e"
| "engine_error_thrown failure (OtherError e) = e"

fun isResourceMissingError :: "engine_error \<Rightarrow> bool" where
  "isResourceMissingError (ResourceResponseError m st cause) = (st = Some (Num 404))"
| "isResourceMissingError _ = False"

definition truncateError :: "thrown \<Rightarrow> string" where
  "truncateError e = take 1000 (thrown_message e)"

definition SEQUENCE_RETRY_BASE_DELAY_MS :: int where
  "SEQUENCE_RETRY_BASE_DELAY_MS = 5000"

definition SEQUENCE_RETRY_MAX_DELAY_MS :: int where
  "SEQUENCE_RETRY_MAX_DELAY_MS = 5 * 60000"

definition SEQUENCE_RETRY_MAX_ATTEMPTS :: int where
  "SEQUENCE_RETRY_MAX_ATTEMPTS = 24"

subsection \<open>Steps\<close>

definition nextStep :: "seq_revision \<Rightarrow> string \<Rightarrow> string + seq_step option" where
  "nextStep revision currentStepId =
     (case findIndex (\<lambda>s. step_id s = currentStepId) (rev_steps revision) of
        None \<Rightarrow> Inl (''Sequence revision '' @ int_text (rev_revision revision) @
                     '' does not contain current step '' @ currentStepId)
      | Some index \<Rightarrow>
          Inr (if Suc index < length (rev_steps revision) then Some (rev_steps revision ! Suc index)
               else None))"

fun resolve_segments :: "json \<Rightarrow> string list \<Rightarrow> json option" where
  "resolve_segments current [] = Some current"
| "resolve_segments current (segment # segments) =
     (case current of
        JObj o' \<Rightarrow> (case map_of o' segment of
                     None \<Rightarrow> None
                   | Some v \<Rightarrow> resolve_segments v segments)
      | _ \<Rightarrow> None)"

definition resolvePath :: "json_object \<Rightarrow> string \<Rightarrow> json option" where
  "resolvePath value path = resolve_segments (JObj value) (split_at CHR ''.'' path)"

definition equal_values :: "json option \<Rightarrow> json option \<Rightarrow> bool" where
  "equal_values a b =
     (case (a, b) of
        (None, None) \<Rightarrow> True
      | (Some x, Some y) \<Rightarrow> isDeepStrictEqual x y
      | _ \<Rightarrow> False)"

definition evaluateCondition :: "condition_step \<Rightarrow> json_object \<Rightarrow> bool" where
  "evaluateCondition c ctx =
     (let actual = resolvePath ctx (cs_path c)
      in case cs_operator c of
           OpExists \<Rightarrow> actual \<noteq> None
         | OpEquals \<Rightarrow> equal_values actual (cs_value c)
         | OpNotEquals \<Rightarrow> \<not> equal_values actual (cs_value c))"

definition withoutLease ::
  "seq_enrollment \<Rightarrow> (seq_enrollment \<Rightarrow> seq_enrollment) \<Rightarrow> instant \<Rightarrow> seq_enrollment" where
  "withoutLease enrollment changes now =
     (changes (enrollment\<lparr>en_leaseToken := None, en_leaseExpiresAt := None\<rparr>))
       \<lparr>en_lastTransitionAt := now, en_updatedAt := now\<rparr>"

definition completed_change :: "seq_enrollment \<Rightarrow> seq_enrollment" where
  "completed_change e = e\<lparr>en_status := EnrCompleted, en_retryCount := 0, en_lastError := None\<rparr>"

definition goto_change :: "enrollment_status \<Rightarrow> string \<Rightarrow> instant \<Rightarrow> seq_enrollment \<Rightarrow> seq_enrollment" where
  "goto_change st i t e =
     e\<lparr>en_status := st, en_retryCount := 0, en_currentStepId := i, en_nextRunAt := t, en_lastError := None\<rparr>"

definition ended_change :: "enrollment_status \<Rightarrow> string \<Rightarrow> seq_enrollment \<Rightarrow> seq_enrollment" where
  "ended_change st m e = e\<lparr>en_status := st, en_retryCount := 0, en_lastError := Some m\<rparr>"

definition transitionToNext :: "claimed_enrollment \<Rightarrow> instant \<Rightarrow> string + seq_enrollment" where
  "transitionToNext claimed now =
     (case nextStep (cl_revision claimed) (en_currentStepId (cl_enrollment claimed)) of
        Inl m \<Rightarrow> Inl m
      | Inr None \<Rightarrow> Inr (withoutLease (cl_enrollment claimed) completed_change now)
      | Inr (Some step) \<Rightarrow>
          Inr (withoutLease (cl_enrollment claimed) (goto_change EnrPending (step_id step) now) now))"

subsection \<open>Sending\<close>

record listmonk_subscriber =
  sb_status :: "string option"
  sb_lists :: "string option list"

text \<open>\<open>sb_lists\<close>: the \<open>subscription_status\<close> of each list when it is a string.\<close>

definition subscriberCannotReceive :: "listmonk_subscriber \<Rightarrow> string option" where
  "subscriberCannotReceive s =
     (let status = map_option toLowerCase (sb_status s)
      in if status = Some ''blocklisted'' \<or> status = Some ''disabled''
         then Some (''subscriber is '' @ the status)
         else if sb_lists s \<noteq> [] \<and>
                 list_all (\<lambda>l. case l of None \<Rightarrow> False | Some t \<Rightarrow> toLowerCase t = ''unsubscribed'') (sb_lists s)
         then Some ''subscriber is unsubscribed from every list''
         else None)"

record subscriber_response =
  sr_error :: "response_error option"
  sr_status :: "js_number option"
  sr_data :: "listmonk_subscriber option"

datatype subscriber_reply = SubscriberThrown thrown | SubscriberResponse subscriber_response

definition getSubscriber :: "subscriber_reply \<Rightarrow> engine_error + listmonk_subscriber" where
  "getSubscriber reply =
     (case reply of
        SubscriberThrown e \<Rightarrow> Inl (OtherError e)
      | SubscriberResponse r \<Rightarrow>
          (case sr_error r of
             Some err \<Rightarrow> Inl (ResourceResponseError (''Failed to fetch subscriber: '' @ toErrorMessage err)
                               (sr_status r) (body_cause err))
           | None \<Rightarrow>
               (case sr_data r of
                  None \<Rightarrow> Inl (ResourceResponseError ''Failed to fetch subscriber: received empty data''
                                (sr_status r) None)
                | Some s \<Rightarrow> Inr s)))"

definition deterministicSendKey :: "seq_enrollment \<Rightarrow> string" where
  "deterministicSendKey e =
     ''sequence:'' @ en_id e @ '':revision:'' @ int_text (en_revision e) @ '':step:'' @ en_currentStepId e"

fun clamp_jitter :: "js_number \<Rightarrow> rat" where
  "clamp_jitter (Num q) = min (max q 0) 1"
| "clamp_jitter _ = 1 / 2"

definition js_round :: "rat \<Rightarrow> int" where
  "js_round q = \<lfloor>q + 1 / 2\<rfloor>"

definition capped_delay :: "int \<Rightarrow> int" where
  "capped_delay retryCount =
     min (SEQUENCE_RETRY_BASE_DELAY_MS * 2 ^ nat (min (retryCount - 1) 16)) SEQUENCE_RETRY_MAX_DELAY_MS"

definition retry_delay :: "int \<Rightarrow> js_number \<Rightarrow> int" where
  "retry_delay retryCount jitter =
     (let half = of_int (capped_delay retryCount) / 2
      in js_round (half + half * clamp_jitter jitter))"

definition retryEnrollment ::
  "seq_enrollment \<Rightarrow> instant \<Rightarrow> thrown \<Rightarrow> js_number \<Rightarrow> seq_enrollment" where
  "retryEnrollment enrollment now err jitter =
     (let retryCount = en_retryCount enrollment + 1
      in if retryCount \<ge> SEQUENCE_RETRY_MAX_ATTEMPTS
         then withoutLease enrollment
                (\<lambda>e. e\<lparr>en_status := EnrFailed, en_retryCount := retryCount,
                       en_lastError := Some (''Sequence delivery failed after '' @ int_text retryCount @
                         '' retryable attempts: '' @ truncateError err)\<rparr>) now
         else withoutLease enrollment
                (\<lambda>e. e\<lparr>en_status := EnrPending, en_retryCount := retryCount,
                       en_nextRunAt := now + retry_delay retryCount jitter,
                       en_lastError := Some (truncateError err)\<rparr>) now)"

record ('d, 'io) sequence_context =
  sx_idempotencyStore :: "('d, 'io) idem_store"
  sx_hashPayload :: "string \<Rightarrow> string"
  sx_target :: "string option \<times> string option"
  sx_mailbox :: "string \<Rightarrow> bool"
  sx_failure :: "tx_error store_failure \<Rightarrow> thrown"

record 'io send_env =
  se_subscriber :: subscriber_reply
  se_reply :: listmonk_reply
  se_io :: "'io \<times> 'io"
  se_now :: "instant \<times> instant"
  se_token :: string
  se_jitter :: js_number

definition transactional_context :: "('d, 'io) sequence_context \<Rightarrow> ('d, 'io) send_context" where
  "transactional_context ctx =
     \<lparr>sc_idempotencyStore = Some (sx_idempotencyStore ctx),
      sc_hashPayload = Some (sx_hashPayload ctx),
      sc_target = sx_target ctx\<rparr>"

definition sequence_message ::
  "seq_enrollment \<Rightarrow> seq_step \<Rightarrow> send_step \<Rightarrow> string option \<Rightarrow> send_input" where
  "sequence_message e step s fromEmail =
     \<lparr>dp_template_id = ss_templateId s,
      dp_subscriber_email = None,
      dp_subscriber_id = Some (en_subscriberId e),
      dp_from_email = fromEmail,
      dp_data = Some (spread (spread (case ss_data s of None \<Rightarrow> [] | Some d \<Rightarrow> d) (en_context e))
                   [(''sequence_id'', JStr (en_sequenceId e)),
                    (''sequence_revision'', JNum (en_revision e)),
                    (''sequence_enrollment_id'', JStr (en_id e)),
                    (''sequence_step_id'', JStr (step_id step))]),
      dp_headers = None,
      dp_content_type = map_option content_type_text (ss_contentType s),
      dp_messenger = ss_messenger s,
      dp_subject = ss_subject s,
      dp_altbody = ss_altBody s,
      si_idempotency_key = Some (deterministicSendKey e)\<rparr>"

text \<open>The \<open>catch\<close> of \<open>executeSendStep\<close>.\<close>

definition handle_send_error ::
  "('d, 'io) sequence_context \<Rightarrow> 'io send_env \<Rightarrow> seq_enrollment \<Rightarrow> instant \<Rightarrow> engine_error \<Rightarrow> seq_enrollment" where
  "handle_send_error ctx env e now err =
     (let thrown = engine_error_thrown (sx_failure ctx) err;
          general =
            (if isResourceMissingError err
             then withoutLease e (ended_change EnrCancelled
                    ''Sequence delivery cancelled because the subscriber no longer exists'') now
             else if isDefinitivePreDispatchError thrown
             then retryEnrollment e now thrown (se_jitter env)
             else withoutLease e (ended_change EnrFailed (truncateError thrown)) now)
      in case err of
           SendError (SendReconcileError k st m) \<Rightarrow>
             (if st = SendPending then retryEnrollment e now thrown (se_jitter env)
              else withoutLease e (\<lambda>x. x\<lparr>en_status := EnrAmbiguous,
                                        en_lastError := Some (truncateError thrown)\<rparr>) now)
         | _ \<Rightarrow> general)"

definition executeSendStep ::
  "('d, 'io) sequence_context \<Rightarrow> 'io send_env \<Rightarrow> claimed_enrollment \<Rightarrow> seq_step \<Rightarrow> send_step
     \<Rightarrow> instant \<Rightarrow> 'd \<Rightarrow> 'd \<times> seq_enrollment" where
  "executeSendStep ctx env claimed step s now d =
     (let e = cl_enrollment claimed
      in case opt_schema (transactionalFromEmailSchema (sx_mailbox ctx)) (ss_fromEmail s) of
           None \<Rightarrow> (d, withoutLease e (ended_change EnrFailed
                        ''Sequence delivery failed because its stored From mailbox is invalid'') now)
         | Some fromEmail \<Rightarrow>
             (case getSubscriber (se_subscriber env) of
                Inl err \<Rightarrow> (d, handle_send_error ctx env e now err)
              | Inr subscriber \<Rightarrow>
                  (case subscriberCannotReceive subscriber of
                     Some reason \<Rightarrow> (d, withoutLease e (ended_change EnrCancelled
                       (''Sequence delivery cancelled because '' @ reason)) now)
                   | None \<Rightarrow>
                       (case sendTransactionalMessage (transactional_context ctx) (se_io env) (se_now env)
                               (se_token env) (se_reply env) (sequence_message e step s fromEmail) d of
                          (d', dispatched, Inl err) \<Rightarrow> (d', handle_send_error ctx env e now (SendError err))
                        | (d', dispatched, Inr out) \<Rightarrow>
                            (if \<not> so_sent out
                             then (d', withoutLease e (ended_change EnrFailed
                                    ''Listmonk rejected the sequence message'') now)
                             else (case transitionToNext claimed now of
                                     Inl m \<Rightarrow> (d', handle_send_error ctx env e now
                                                (OtherError (ThrownError (JsError m None None None))))
                                   | Inr nxt \<Rightarrow> (d', nxt)))))))"

subsection \<open>Executing a claim\<close>

text \<open>
  The enrollment that follows, before \<open>completeClaim\<close>.  \<open>nextStep\<close> cannot throw in the
  wait cases, where the step was found in the revision; the branch is kept.
  Instants are integers: the \<open>RangeError\<close> of \<open>toISOString\<close> for a wait that ends after the
  year 275760 is not modelled, the store refuses every date after the year 9999.
\<close>

definition execute_wait ::
  "claimed_enrollment \<Rightarrow> instant \<Rightarrow> enrollment_status \<Rightarrow> instant \<Rightarrow> string + seq_enrollment" where
  "execute_wait claimed now st t =
     (case nextStep (cl_revision claimed) (en_currentStepId (cl_enrollment claimed)) of
        Inl m \<Rightarrow> Inl m
      | Inr (Some following) \<Rightarrow>
          Inr (withoutLease (cl_enrollment claimed) (goto_change st (step_id following) t) now)
      | Inr None \<Rightarrow> Inr (withoutLease (cl_enrollment claimed) completed_change now))"

definition next_enrollment ::
  "('d, 'io) sequence_context \<Rightarrow> 'io send_env \<Rightarrow> claimed_enrollment \<Rightarrow> instant \<Rightarrow> 'd
     \<Rightarrow> 'd \<times> (string + seq_enrollment)" where
  "next_enrollment ctx env claimed now d =
     (let e = cl_enrollment claimed; revision = cl_revision claimed
      in case List.find (\<lambda>c. step_id c = en_currentStepId e) (rev_steps revision) of
           None \<Rightarrow> (d, Inr (withoutLease e (ended_change EnrFailed
                      (''Current step '' @ en_currentStepId e @ '' is missing from revision '' @
                       int_text (rev_revision revision))) now))
         | Some step \<Rightarrow>
             (case step_type step of
                SendStep s \<Rightarrow> (case executeSendStep ctx env claimed step s now d of (d', nxt) \<Rightarrow> (d', Inr nxt))
              | WaitStep durationSeconds \<Rightarrow>
                  (d, execute_wait claimed now EnrWaiting (now + durationSeconds * 1000))
              | WaitUntilStep t \<Rightarrow>
                  (d, if t > now then execute_wait claimed now EnrWaiting t
                      else execute_wait claimed now EnrPending now)
              | ConditionStep c \<Rightarrow>
                  (d, Inr (withoutLease e
                    (goto_change EnrPending
                      (if evaluateCondition c (en_context e) then cs_onTrue c else cs_onFalse c) now) now))
              | StopStep \<Rightarrow> (d, Inr (withoutLease e completed_change now))))"

datatype execute_error = StepThrew string | RepositoryFailed "seq_error store_failure"

definition executeClaimedEnrollment ::
  "('d, 'io) sequence_context \<Rightarrow> 'io send_env \<Rightarrow> io_env \<Rightarrow> claimed_enrollment \<Rightarrow> instant
     \<Rightarrow> seq_store option \<times> 'd \<Rightarrow> (seq_store option \<times> 'd) \<times> (execute_error + enrollment_status)" where
  "executeClaimedEnrollment ctx env io claimed now stores =
     (case next_enrollment ctx env claimed now (snd stores) of
        (d, Inl m) \<Rightarrow> ((fst stores, d), Inl (StepThrew m))
      | (d, Inr nxt) \<Rightarrow>
          (case sequence_repository_step (sx_mailbox ctx) (io, CompleteClaim (cl_enrollment claimed) nxt)
                  (fst stores) of
             (f, Inl e) \<Rightarrow> ((f, d), Inl (RepositoryFailed e))
           | (f, Inr (ResEnrollment c)) \<Rightarrow> ((f, d), Inr (en_status c))
           | (f, Inr _) \<Rightarrow> ((f, d), Inl (RepositoryFailed LockTimeout))))"

subsection \<open>The tick\<close>

definition empty_summary :: "nat \<Rightarrow> instant \<Rightarrow> tick_summary" where
  "empty_summary n now =
     \<lparr>tk_claimed = n, tk_advanced = 0, tk_waiting = 0, tk_completed = 0, tk_failed = 0,
      tk_ambiguous = 0, tk_cancelled = 0, tk_completedAt = now\<rparr>"

definition countOutcome :: "enrollment_status \<Rightarrow> tick_summary \<Rightarrow> tick_summary" where
  "countOutcome status summary =
     (if status = EnrWaiting then summary\<lparr>tk_waiting := tk_waiting summary + 1\<rparr>
      else if status = EnrCompleted then summary\<lparr>tk_completed := tk_completed summary + 1\<rparr>
      else if status = EnrFailed then summary\<lparr>tk_failed := tk_failed summary + 1\<rparr>
      else if status = EnrAmbiguous then summary\<lparr>tk_ambiguous := tk_ambiguous summary + 1\<rparr>
      else if status = EnrCancelled then summary\<lparr>tk_cancelled := tk_cancelled summary + 1\<rparr>
      else summary\<lparr>tk_advanced := tk_advanced summary + 1\<rparr>)"

fun execute_all ::
  "('d, 'io) sequence_context \<Rightarrow> (nat \<Rightarrow> 'io send_env \<times> io_env) \<Rightarrow> nat \<Rightarrow> instant \<Rightarrow> claimed_enrollment list
     \<Rightarrow> seq_store option \<times> 'd \<Rightarrow> (seq_store option \<times> 'd) \<times> (execute_error + enrollment_status) list" where
  "execute_all ctx envs n now [] stores = (stores, [])"
| "execute_all ctx envs n now (cl # cls) stores =
     (case executeClaimedEnrollment ctx (fst (envs n)) (snd (envs n)) cl now stores of
        (stores', r) \<Rightarrow>
          (case execute_all ctx envs (Suc n) now cls stores' of (stores'', rs) \<Rightarrow> (stores'', r # rs)))"

record tick_options =
  to_limit :: "int option"
  to_leaseMs :: "int option"

datatype tick_error = ClaimFailed "seq_error store_failure" | AggregateError "execute_error list"

fun rejected :: "('e + 'a) list \<Rightarrow> 'e list" where
  "rejected [] = []"
| "rejected (Inl e # rs) = e # rejected rs"
| "rejected (Inr a # rs) = rejected rs"

fun fulfilled :: "('e + 'a) list \<Rightarrow> 'a list" where
  "fulfilled [] = []"
| "fulfilled (Inl e # rs) = fulfilled rs"
| "fulfilled (Inr a # rs) = a # fulfilled rs"

definition runSequenceTick ::
  "('d, 'io) sequence_context \<Rightarrow> (nat \<Rightarrow> 'io send_env \<times> io_env) \<Rightarrow> io_env \<Rightarrow> (nat \<Rightarrow> uuid) \<Rightarrow> tick_options
     \<Rightarrow> instant \<Rightarrow> seq_store option \<times> 'd \<Rightarrow> (seq_store option \<times> 'd) \<times> (tick_error + tick_summary)" where
  "runSequenceTick ctx envs io tokens options now stores =
     (case sequence_repository_step (sx_mailbox ctx)
             (io, ClaimDue (case to_limit options of None \<Rightarrow> 25 | Some n \<Rightarrow> n) now
                    (case to_leaseMs options of None \<Rightarrow> DEFAULT_SEQUENCE_LEASE_MS | Some n \<Rightarrow> n) tokens)
             (fst stores) of
        (f, Inl e) \<Rightarrow> ((f, snd stores), Inl (ClaimFailed e))
      | (f, Inr (ResClaimed claimed)) \<Rightarrow>
          (case execute_all ctx envs 0 now claimed (f, snd stores) of
             (stores', results) \<Rightarrow>
               (let counts = fold countOutcome (fulfilled results) (empty_summary (length claimed) now);
                    failures = rejected results
                in if failures \<noteq> [] then (stores', Inl (AggregateError failures))
                   else (stores', Inr counts)))
      | (f, Inr _) \<Rightarrow> ((f, snd stores), Inl (ClaimFailed LockTimeout)))"

subsection \<open>Reconciling an ambiguous enrollment\<close>

datatype resolution = ResolvedSent | ResolvedNotSent

datatype reconcile_error = ReconcileRefused string | ReconcileStore "seq_error store_failure"
  | ReconcileIdempotency "tx_error store_failure"

definition reconcile_next ::
  "seq_revision \<Rightarrow> seq_enrollment \<Rightarrow> seq_step \<Rightarrow> resolution \<Rightarrow> instant \<Rightarrow> string + seq_enrollment" where
  "reconcile_next revision enrollment step res now =
     (if res = ResolvedSent
      then (case nextStep revision (step_id step) of
              Inl m \<Rightarrow> Inl m
            | Inr (Some following) \<Rightarrow>
                Inr (withoutLease enrollment (goto_change EnrPending (step_id following) now) now)
            | Inr None \<Rightarrow> Inr (withoutLease enrollment completed_change now))
      else Inr (withoutLease enrollment
             (\<lambda>e. e\<lparr>en_status := EnrPending, en_retryCount := 0, en_nextRunAt := now, en_lastError := None\<rparr>) now))"

definition reconcile_refusal :: "string \<Rightarrow> send_record option \<Rightarrow> resolution \<Rightarrow> string option" where
  "reconcile_refusal k record' res =
     (case record' of
        None \<Rightarrow> Some (''Transactional idempotency record '' @ k @ '' is missing'')
      | Some r \<Rightarrow>
          (if tx_status r = SendPending
           then Some (''Transactional idempotency record '' @ k @ '' is still pending and cannot be reconciled while delivery may be in flight'')
           else if tx_status r = SendAccepted \<and> res \<noteq> ResolvedSent
           then Some (''Transactional idempotency record '' @ k @ '' was already accepted and must be reconciled as sent'')
           else if tx_status r = SendFailed \<and> res \<noteq> ResolvedNotSent
           then Some (''Transactional idempotency record '' @ k @ '' was rejected and cannot be reconciled as sent'')
           else None))"

text \<open>\<open>io\<close>: the outcomes of the two reads, the repository update, the load and the store update.\<close>

definition reconcile_settle ::
  "('d, 'io) sequence_context \<Rightarrow> 'io \<Rightarrow> string \<Rightarrow> send_record \<Rightarrow> resolution \<Rightarrow> instant \<Rightarrow> 'd
     \<Rightarrow> 'd \<times> (tx_error store_failure + unit)" where
  "reconcile_settle ctx io k r res now d =
     (if res = ResolvedSent
      then (if tx_status r \<noteq> SendAccepted
            then st_commit (sx_idempotencyStore ctx) io now
                   \<lparr>cm_key = k, cm_claimToken = tx_claimToken r, cm_status = SendAccepted,
                    cm_sent = Some True, cm_errorMessage = None\<rparr> d
            else (d, Inr ()))
      else st_release (sx_idempotencyStore ctx) io now k (tx_claimToken r) d)"

definition reconcile_plan ::
  "seq_store \<Rightarrow> uuid \<Rightarrow> reconcile_error + (seq_enrollment \<times> seq_revision \<times> seq_step)" where
  "reconcile_plan s i =
     (case getFileEnrollment s i of
        Inl e \<Rightarrow> Inl (ReconcileStore (CallbackFailed e))
      | Inr enrollment \<Rightarrow>
          (if en_status enrollment \<noteq> EnrAmbiguous
           then Inl (ReconcileRefused (''Sequence enrollment '' @ i @ '' is not ambiguous''))
           else (case getFileDefinition s (en_sequenceId enrollment) of
                   Inl e \<Rightarrow> Inl (ReconcileStore (CallbackFailed e))
                 | Inr defn \<Rightarrow>
                     (case find_revision defn (en_revision enrollment) of
                        None \<Rightarrow> Inl (ReconcileRefused (''Sequence enrollment '' @ i @
                                  '' references missing revision '' @ int_text (en_revision enrollment)))
                      | Some revision \<Rightarrow>
                          (case List.find (\<lambda>c. step_id c = en_currentStepId enrollment) (rev_steps revision) of
                             None \<Rightarrow> Inl (ReconcileRefused (''Ambiguous sequence enrollment '' @ i @
                                      '' is not positioned on a send step''))
                           | Some step \<Rightarrow>
                               (if is_send step then Inr (enrollment, revision, step)
                                else Inl (ReconcileRefused (''Ambiguous sequence enrollment '' @ i @
                                      '' is not positioned on a send step''))))))))"

definition reconcileAmbiguousSequenceEnrollment ::
  "('d, 'io) sequence_context \<Rightarrow> io_env \<Rightarrow> 'io \<Rightarrow> 'io \<Rightarrow> uuid \<Rightarrow> resolution \<Rightarrow> instant
     \<Rightarrow> seq_store option \<times> 'd \<Rightarrow> (seq_store option \<times> 'd) \<times> (reconcile_error + seq_enrollment)" where
  "reconcileAmbiguousSequenceEnrollment ctx io io_load io_settle i res now stores =
     (case readJsonFileStore (createSequenceStore (sx_mailbox ctx)) io (fst stores) of
        Inl e \<Rightarrow> (stores, Inl (ReconcileStore e))
      | Inr s \<Rightarrow>
          (case reconcile_plan s i of
             Inl e \<Rightarrow> (stores, Inl e)
           | Inr (enrollment, revision, step) \<Rightarrow>
               (let k = deterministicSendKey enrollment
                in case st_load (sx_idempotencyStore ctx) io_load (snd stores) of
                     Inl e \<Rightarrow> (stores, Inl (ReconcileIdempotency e))
                   | Inr document \<Rightarrow>
                       (let record' = map_of (tx_records document) k
                        in case reconcile_refusal k record' res of
                             Some m \<Rightarrow> (stores, Inl (ReconcileRefused m))
                           | None \<Rightarrow>
                               (case reconcile_next revision enrollment step res now of
                                  Inl m \<Rightarrow> (stores, Inl (ReconcileRefused m))
                                | Inr nxt \<Rightarrow>
                                    (case sequence_repository_step (sx_mailbox ctx)
                                            (io, ResolveAmbiguous enrollment nxt) (fst stores) of
                                       (f, Inl e) \<Rightarrow> ((f, snd stores), Inl (ReconcileStore e))
                                     | (f, Inr (ResEnrollment resolved)) \<Rightarrow>
                                         (case reconcile_settle ctx io_settle k (the record') res now (snd stores) of
                                            (d, Inl e) \<Rightarrow> ((f, d), Inl (ReconcileIdempotency e))
                                          | (d, Inr _) \<Rightarrow> ((f, d), Inr resolved))
                                     | (f, Inr _) \<Rightarrow> ((f, snd stores), Inl (ReconcileStore LockTimeout))))))))"

end
