(* ===== verification/Sequence_Progress.thy ===== *)
theory Sequence_Progress
  imports Sequence_Engine
begin

section \<open>What the engine guarantees\<close>

text \<open>
  Executing a claim always gives a next enrollment: further on in its revision, or
  where it was and ended, ambiguous, or retrying with one more attempt.  Hence the
  bound on the number of executions of an enrollment, the legality of every
  completion, the invariant over a tick, and the accounting of its summary.
\<close>

subsection \<open>Sound claims\<close>

definition claim_sound :: "seq_definition list \<Rightarrow> claimed_enrollment \<Rightarrow> bool" where
  "claim_sound defs cl \<longleftrightarrow>
     cl_definition cl \<in> set defs \<and> def_id (cl_definition cl) = en_sequenceId (cl_enrollment cl) \<and>
     cl_revision cl \<in> set (def_revisions (cl_definition cl)) \<and>
     rev_revision (cl_revision cl) = en_revision (cl_enrollment cl) \<and>
     topology_ok (rev_steps (cl_revision cl)) \<and>
     en_currentStepId (cl_enrollment cl) \<in> step_id ` set (rev_steps (cl_revision cl)) \<and>
     en_retryCount (cl_enrollment cl) \<ge> 0"

lemma claim_of_sound:
  assumes "claim_of now leaseMs tokens defs c cl" "enrollment_fine defs c" "definitions_fine mailbox defs"
  shows "claim_sound defs cl"
proof -
  have r: "cl_revision cl \<in> set (def_revisions (cl_definition cl))"
      "rev_revision (cl_revision cl) = en_revision c"
    using assms(1) by (auto simp: claim_of_def find_revision_def dest!: find_Some_in)
  obtain d r' where d: "d \<in> set defs" "def_id d = en_sequenceId c" "r' \<in> set (def_revisions d)"
      "rev_revision r' = en_revision c" "en_currentStepId c \<in> step_id ` set (rev_steps r')"
    using assms(2) unfolding enrollment_fine_def positioned_def by blast
  have "d = cl_definition cl"
    using assms(1,3) d distinct_key_inj [of def_id defs d "cl_definition cl"]
    by (auto simp: claim_of_def definitions_fine_def)
  moreover have h: "history_ok (cl_definition cl)"
    using assms(1,3) by (auto simp: claim_of_def definitions_fine_def valid_definition_def)
  ultimately have "r' = cl_revision cl"
    using d r distinct_key_inj [of rev_revision "def_revisions d" r' "cl_revision cl"]
    by (auto simp: history_ok_def)
  moreover have "en_retryCount c \<ge> 0"
    using assms(2) by (auto simp: enrollment_fine_def valid_enrollment_def enrollmentSchema_def
        split: option.splits if_splits)
  moreover have "topology_ok (rev_steps (cl_revision cl))" using h r by (simp add: history_ok_def)
  ultimately show ?thesis
    using assms(1) d r by (auto simp: claim_sound_def claim_of_def leased_enrollment_def)
qed

lemma claimDue_sound:
  assumes wf: "seq_wf mailbox s" and c: "claimDue limit now leaseMs tokens s = Inr (s', cls)"
    and cl: "cl \<in> set cls"
  shows "claim_sound (sq_definitions s) cl"
proof -
  have v: "\<forall>e \<in> set (sq_enrollments s). valid_enrollment e" "distinct (map en_id (sq_enrollments s))"
    using seq_wf_queue_ok [OF wf] by (auto simp: queue_ok_def)
  obtain e where "e \<in> set (sq_enrollments s)" "claim_of now leaseMs tokens (sq_definitions s) e cl"
    using claimDue_result(4) [OF c v cl] by blast
  then show ?thesis
    using wf claim_of_sound by (auto simp: seq_wf_def enrollments_fine_def)
qed

subsection \<open>The next enrollment\<close>

definition same_enrollment :: "seq_enrollment \<Rightarrow> seq_enrollment \<Rightarrow> bool" where
  "same_enrollment e n \<longleftrightarrow> en_id n = en_id e \<and> en_sequenceId n = en_sequenceId e \<and>
     en_revision n = en_revision e \<and> en_subscriberId n = en_subscriberId e \<and>
     en_context n = en_context e \<and> en_createdAt n = en_createdAt e \<and>
     en_leaseToken n = None \<and> en_leaseExpiresAt n = None"

definition step_index :: "seq_revision \<Rightarrow> seq_enrollment \<Rightarrow> nat" where
  "step_index r e = the (findIndex (\<lambda>s. step_id s = en_currentStepId e) (rev_steps r))"

definition advanced :: "seq_revision \<Rightarrow> seq_enrollment \<Rightarrow> seq_enrollment \<Rightarrow> bool" where
  "advanced r e n \<longleftrightarrow> step_index r e < step_index r n \<and> step_index r n < length (rev_steps r) \<and>
     en_currentStepId n \<in> step_id ` set (rev_steps r) \<and>
     en_status n \<in> {EnrPending, EnrWaiting} \<and> en_retryCount n = 0"

definition retried :: "instant \<Rightarrow> seq_enrollment \<Rightarrow> seq_enrollment \<Rightarrow> bool" where
  "retried now e n \<longleftrightarrow> en_currentStepId n = en_currentStepId e \<and> en_status n = EnrPending \<and>
     en_retryCount n = en_retryCount e + 1 \<and> en_retryCount n < SEQUENCE_RETRY_MAX_ATTEMPTS \<and>
     now + 2500 \<le> en_nextRunAt n \<and> en_nextRunAt n \<le> now + SEQUENCE_RETRY_MAX_DELAY_MS"

definition stopped :: "seq_enrollment \<Rightarrow> seq_enrollment \<Rightarrow> bool" where
  "stopped e n \<longleftrightarrow> en_currentStepId n = en_currentStepId e \<and>
     en_status n \<in> {EnrCompleted, EnrFailed, EnrCancelled, EnrAmbiguous}"

definition step_outcome :: "instant \<Rightarrow> seq_revision \<Rightarrow> seq_enrollment \<Rightarrow> seq_enrollment \<Rightarrow> bool" where
  "step_outcome now r e n \<longleftrightarrow> same_enrollment e n \<and> (advanced r e n \<or> retried now e n \<or> stopped e n)"

subsection \<open>Delays\<close>

lemma capped_delay_bounds:
  assumes "1 \<le> n"
  shows "5000 \<le> capped_delay n \<and> capped_delay n \<le> 300000"
proof -
  have "(1 :: int) \<le> 2 ^ nat (min (n - 1) 16)" by simp
  then show ?thesis
    by (simp add: capped_delay_def SEQUENCE_RETRY_BASE_DELAY_MS_def SEQUENCE_RETRY_MAX_DELAY_MS_def)
qed

lemma clamp_jitter_bounds: "0 \<le> clamp_jitter j \<and> clamp_jitter j \<le> 1"
  by (cases j) auto

lemma retry_delay_bounds:
  assumes "1 \<le> n"
  shows "2500 \<le> retry_delay n j \<and> retry_delay n j \<le> SEQUENCE_RETRY_MAX_DELAY_MS"
proof -
  define h where "h = (of_int (capped_delay n) :: rat) / 2"
  have h: "2500 \<le> h" "h \<le> 150000"
    using capped_delay_bounds [OF assms] by (simp_all add: h_def)
  have "0 \<le> h * clamp_jitter j" "h * clamp_jitter j \<le> h"
    using clamp_jitter_bounds [of j] h by (simp_all add: mult_left_le)
  then have q: "2500 \<le> h + h * clamp_jitter j" "h + h * clamp_jitter j \<le> 300000"
    using h by linarith+
  then have "2500 \<le> \<lfloor>h + h * clamp_jitter j + 1 / 2\<rfloor>"
    by (simp add: le_floor_iff)
  moreover have "\<lfloor>h + h * clamp_jitter j + 1 / 2\<rfloor> < 300001"
    using q by (simp add: floor_less_iff)
  ultimately show ?thesis
    by (simp add: retry_delay_def js_round_def h_def SEQUENCE_RETRY_MAX_DELAY_MS_def Let_def)
qed

subsection \<open>Every branch\<close>

lemma nextStep_at:
  assumes "topology_ok (rev_steps r)" "i < length (rev_steps r)"
  shows "nextStep r (step_id (rev_steps r ! i)) =
    Inr (if Suc i < length (rev_steps r) then Some (rev_steps r ! Suc i) else None)"
  using assms by (simp add: nextStep_def findIndex_step topology_ok_def)

lemma step_index_at:
  assumes "topology_ok (rev_steps r)" "i < length (rev_steps r)"
    and "en_currentStepId e = step_id (rev_steps r ! i)"
  shows "step_index r e = i"
  using assms by (simp add: step_index_def findIndex_step topology_ok_def)

lemma sound_position:
  assumes "claim_sound defs cl"
  obtains i where "i < length (rev_steps (cl_revision cl))"
    "en_currentStepId (cl_enrollment cl) = step_id (rev_steps (cl_revision cl) ! i)"
    "step_index (cl_revision cl) (cl_enrollment cl) = i"
    "List.find (\<lambda>c. step_id c = en_currentStepId (cl_enrollment cl)) (rev_steps (cl_revision cl)) =
       Some (rev_steps (cl_revision cl) ! i)"
proof -
  let ?steps = "rev_steps (cl_revision cl)"
  have top: "topology_ok ?steps" using assms by (simp add: claim_sound_def)
  obtain i where i: "i < length ?steps" "en_currentStepId (cl_enrollment cl) = step_id (?steps ! i)"
    using assms by (auto simp: claim_sound_def in_set_conv_nth)
  moreover have "List.find (\<lambda>c. step_id c = step_id (?steps ! i)) ?steps = Some (?steps ! i)"
    using top i(1) by (intro find_key_distinct) (auto simp: topology_ok_def)
  ultimately show thesis using that step_index_at [OF top i] by simp
qed

lemma withoutLease_fields [simp]:
  "en_id (withoutLease e f now) = en_id (f (e\<lparr>en_leaseToken := None, en_leaseExpiresAt := None\<rparr>))"
  "en_status (withoutLease e f now) = en_status (f (e\<lparr>en_leaseToken := None, en_leaseExpiresAt := None\<rparr>))"
  "en_currentStepId (withoutLease e f now) =
     en_currentStepId (f (e\<lparr>en_leaseToken := None, en_leaseExpiresAt := None\<rparr>))"
  "en_retryCount (withoutLease e f now) =
     en_retryCount (f (e\<lparr>en_leaseToken := None, en_leaseExpiresAt := None\<rparr>))"
  "en_nextRunAt (withoutLease e f now) =
     en_nextRunAt (f (e\<lparr>en_leaseToken := None, en_leaseExpiresAt := None\<rparr>))"
  by (simp_all add: withoutLease_def)

lemmas change_defs = completed_change_def goto_change_def ended_change_def

lemma ended_outcome:
  "st \<in> {EnrCompleted, EnrFailed, EnrCancelled, EnrAmbiguous} \<Longrightarrow>
     step_outcome now r e (withoutLease e (ended_change st m) now)"
  by (simp add: step_outcome_def stopped_def same_enrollment_def withoutLease_def change_defs)

lemma ambiguous_outcome:
  "step_outcome now r e (withoutLease e (\<lambda>x. x\<lparr>en_status := EnrAmbiguous, en_lastError := m\<rparr>) now)"
  by (simp add: step_outcome_def stopped_def same_enrollment_def withoutLease_def)

lemma completed_outcome: "step_outcome now r e (withoutLease e completed_change now)"
  by (simp add: step_outcome_def stopped_def same_enrollment_def withoutLease_def change_defs)

lemma goto_outcome:
  assumes "topology_ok (rev_steps r)" "step_index r e < j" "j < length (rev_steps r)"
    "st \<in> {EnrPending, EnrWaiting}"
  shows "step_outcome now r e (withoutLease e (goto_change st (step_id (rev_steps r ! j)) t) now)"
proof -
  let ?n = "withoutLease e (goto_change st (step_id (rev_steps r ! j)) t) now"
  have "step_index r ?n = j" using assms by (intro step_index_at) (simp_all add: change_defs)
  then have "advanced r e ?n" using assms by (simp add: advanced_def change_defs)
  moreover have "same_enrollment e ?n" by (simp add: same_enrollment_def withoutLease_def change_defs)
  ultimately show ?thesis by (simp add: step_outcome_def)
qed

lemma retry_outcome:
  assumes "en_retryCount e \<ge> 0"
  shows "step_outcome now r e (retryEnrollment e now err jitter)"
proof (cases "en_retryCount e + 1 \<ge> SEQUENCE_RETRY_MAX_ATTEMPTS")
  case True
  then show ?thesis
    by (simp add: retryEnrollment_def step_outcome_def stopped_def same_enrollment_def withoutLease_def
        Let_def)
next
  case False
  then have "retried now e (retryEnrollment e now err jitter)"
    using retry_delay_bounds [of "en_retryCount e + 1" jitter] assms
    by (simp add: retryEnrollment_def retried_def Let_def)
  moreover have "same_enrollment e (retryEnrollment e now err jitter)"
    using False by (simp add: retryEnrollment_def same_enrollment_def withoutLease_def Let_def)
  ultimately show ?thesis by (simp add: step_outcome_def)
qed

lemma handle_send_error_outcome:
  assumes "en_retryCount e \<ge> 0"
  shows "step_outcome now r e (handle_send_error ctx env e now err)"
proof -
  have ended: "step_outcome now r e (withoutLease e (ended_change EnrFailed m) now)"
    "step_outcome now r e (withoutLease e (ended_change EnrCancelled m) now)" for m
    by (simp_all add: ended_outcome)
  show ?thesis
    unfolding handle_send_error_def Let_def
    using ended retry_outcome [OF assms] ambiguous_outcome
    by (simp split: engine_error.split send_error.split)
qed

lemma transition_outcome:
  assumes "claim_sound defs cl"
  shows "\<exists>n. transitionToNext cl now = Inr n \<and> step_outcome now (cl_revision cl) (cl_enrollment cl) n"
proof -
  obtain i where i: "i < length (rev_steps (cl_revision cl))"
      "en_currentStepId (cl_enrollment cl) = step_id (rev_steps (cl_revision cl) ! i)"
      "step_index (cl_revision cl) (cl_enrollment cl) = i"
    using sound_position [OF assms] .
  have top: "topology_ok (rev_steps (cl_revision cl))" using assms by (simp add: claim_sound_def)
  show ?thesis
    using nextStep_at [OF top i(1)] i completed_outcome goto_outcome [OF top, of "cl_enrollment cl" "Suc i"]
    by (simp add: transitionToNext_def)
qed

lemma wait_outcome:
  assumes "claim_sound defs cl" "st \<in> {EnrPending, EnrWaiting}"
  shows "\<exists>n. execute_wait cl now st t = Inr n \<and> step_outcome now (cl_revision cl) (cl_enrollment cl) n"
proof -
  obtain i where i: "i < length (rev_steps (cl_revision cl))"
      "en_currentStepId (cl_enrollment cl) = step_id (rev_steps (cl_revision cl) ! i)"
      "step_index (cl_revision cl) (cl_enrollment cl) = i"
    using sound_position [OF assms(1)] .
  have top: "topology_ok (rev_steps (cl_revision cl))" using assms(1) by (simp add: claim_sound_def)
  show ?thesis
    using nextStep_at [OF top i(1)] i completed_outcome
      goto_outcome [OF top, of "cl_enrollment cl" "Suc i" st] assms(2)
    by (auto simp: execute_wait_def)
qed

lemma send_outcome:
  assumes "claim_sound defs cl"
  shows "step_outcome now (cl_revision cl) (cl_enrollment cl) (snd (executeSendStep ctx env cl step s now d))"
proof -
  have rc: "en_retryCount (cl_enrollment cl) \<ge> 0" using assms by (simp add: claim_sound_def)
  obtain n where n: "transitionToNext cl now = Inr n" "step_outcome now (cl_revision cl) (cl_enrollment cl) n"
    using transition_outcome [OF assms] by blast
  show ?thesis
    unfolding executeSendStep_def Let_def n(1)
    using n(2) handle_send_error_outcome [OF rc] ended_outcome
    by (auto split: option.splits sum.splits prod.splits)
qed

lemma next_enrollment_outcome:
  assumes sound: "claim_sound defs cl"
  shows "\<exists>d' n. next_enrollment ctx env cl now d = (d', Inr n) \<and>
    step_outcome now (cl_revision cl) (cl_enrollment cl) n"
proof -
  let ?steps = "rev_steps (cl_revision cl)"
  obtain i where i: "i < length ?steps" "step_index (cl_revision cl) (cl_enrollment cl) = i"
      "List.find (\<lambda>c. step_id c = en_currentStepId (cl_enrollment cl)) ?steps = Some (?steps ! i)"
    using sound_position [OF sound] .
  have top: "topology_ok ?steps" using sound by (simp add: claim_sound_def)
  show ?thesis
  proof (cases "step_type (?steps ! i)")
    case (SendStep s)
    then show ?thesis
      using send_outcome [OF sound, of now ctx env "?steps ! i" s d] i(3)
      by (auto simp: next_enrollment_def Let_def split: prod.splits)
  next
    case (WaitStep t)
    then show ?thesis
      using wait_outcome [OF sound, of EnrWaiting now] i(3) by (auto simp: next_enrollment_def Let_def)
  next
    case (WaitUntilStep t)
    then show ?thesis
      using wait_outcome [OF sound, of EnrWaiting now] wait_outcome [OF sound, of EnrPending now] i(3)
      by (auto simp: next_enrollment_def Let_def)
  next
    case (ConditionStep c)
    have "\<exists>j < length ?steps. i < j \<and> step_id (?steps ! j) = t" if "t \<in> {cs_onTrue c, cs_onFalse c}" for t
      using top ConditionStep i(1) that unfolding topology_ok_def by blast
    then obtain j where j: "j < length ?steps" "i < j" "step_id (?steps ! j) =
        (if evaluateCondition c (en_context (cl_enrollment cl)) then cs_onTrue c else cs_onFalse c)"
      by (metis insertCI)
    then show ?thesis
      using goto_outcome [OF top, of "cl_enrollment cl" j EnrPending] i ConditionStep
      by (simp add: next_enrollment_def Let_def)
  next
    case StopStep
    then show ?thesis using completed_outcome i(3) by (simp add: next_enrollment_def Let_def)
  qed
qed

end
