(* ===== verification/Sequence_Tick.thy ===== *)
theory Sequence_Tick
  imports Sequence_Progress
begin

section \<open>Runs of the engine\<close>

text \<open>
  Consequences of \<open>Sequence_Progress\<close>: what remains of an enrollment decreases with
  every outcome (\<open>remaining\<close>), and a tick keeps the invariant of the repository and
  accounts for every claim.
\<close>

subsection \<open>Executions of one enrollment\<close>

definition claim_on :: "seq_definition \<Rightarrow> seq_revision \<Rightarrow> seq_enrollment \<Rightarrow> claimed_enrollment" where
  "claim_on d r e = \<lparr>cl_enrollment = e, cl_definition = d, cl_revision = r\<rparr>"

text \<open>What remains: 24 attempts at every step that is left.\<close>

definition remaining :: "seq_revision \<Rightarrow> seq_enrollment \<Rightarrow> nat" where
  "remaining r e =
     (if runnable_status (en_status e)
      then (length (rev_steps r) - step_index r e) * 24 - min (nat (en_retryCount e)) 23
      else 0)"

lemma claim_on_sel [simp]:
  "cl_enrollment (claim_on d r e) = e" "cl_definition (claim_on d r e) = d" "cl_revision (claim_on d r e) = r"
  by (simp_all add: claim_on_def)

lemma step_index_less:
  assumes "claim_sound defs (claim_on d r e)"
  shows "step_index r e < length (rev_steps r)"
  using sound_position [OF assms] by (metis claim_on_sel)

lemma outcome_sound:
  assumes "claim_sound defs (claim_on d r e)" "step_outcome now r e n"
  shows "claim_sound defs (claim_on d r n) \<or> \<not> runnable_status (en_status n)"
  using assms
  by (auto simp: claim_sound_def step_outcome_def same_enrollment_def advanced_def retried_def stopped_def
      runnable_status_def)

lemma outcome_remaining:
  assumes sound: "claim_sound defs (claim_on d r e)" and run: "runnable_status (en_status e)"
    and out: "step_outcome now r e n"
  shows "remaining r n < remaining r e"
proof -
  define L where "L = length (rev_steps r)"
  have lt: "step_index r e < L" using step_index_less [OF sound] by (simp add: L_def)
  have rc: "en_retryCount e \<ge> 0" using sound by (simp add: claim_sound_def)
  have big: "24 \<le> (L - step_index r e) * 24" using lt by simp
  consider "advanced r e n" | "retried now e n" | "stopped e n" using out by (auto simp: step_outcome_def)
  then show ?thesis
  proof cases
    case 1
    then have "step_index r e < step_index r n" "step_index r n < L" by (simp_all add: advanced_def L_def)
    then have "(L - step_index r n) * 24 + 24 \<le> (L - step_index r e) * 24" by simp
    moreover have "B + 24 \<le> A \<Longrightarrow> B - x < A - min y 23 \<and> 0 < A - min y 23" for A B x y :: nat
      by arith
    ultimately show ?thesis using run by (simp add: remaining_def L_def [symmetric])
  next
    case 2
    then have "step_index r n = step_index r e" by (simp add: retried_def step_index_def)
    moreover have "nat (en_retryCount n) = Suc (nat (en_retryCount e))" "nat (en_retryCount n) \<le> 23"
      using 2 rc by (auto simp: retried_def SEQUENCE_RETRY_MAX_ATTEMPTS_def)
    moreover have "(L - step_index r e) * 24 - Suc (nat (en_retryCount e)) <
        (L - step_index r e) * 24 - nat (en_retryCount e)"
      using calculation big by arith
    moreover have "runnable_status (en_status n)" using 2 by (simp add: retried_def runnable_status_def)
    ultimately show ?thesis using run by (simp add: remaining_def L_def [symmetric])
  next
    case 3
    then have "\<not> runnable_status (en_status n)" by (auto simp: stopped_def runnable_status_def)
    then show ?thesis using run big by (simp add: remaining_def L_def [symmetric])
  qed
qed

subsection \<open>Counting the outcomes\<close>

definition summary_total :: "tick_summary \<Rightarrow> nat" where
  "summary_total s = tk_advanced s + tk_waiting s + tk_completed s + tk_failed s + tk_ambiguous s + tk_cancelled s"

lemma countOutcome_total: "summary_total (countOutcome st s) = Suc (summary_total s)"
  by (simp add: countOutcome_def summary_total_def)

lemma countOutcome_claimed [simp]:
  "tk_claimed (countOutcome st s) = tk_claimed s" "tk_completedAt (countOutcome st s) = tk_completedAt s"
  by (simp_all add: countOutcome_def)

lemma fold_countOutcome:
  "summary_total (fold countOutcome sts s) = length sts + summary_total s \<and>
   tk_claimed (fold countOutcome sts s) = tk_claimed s"
  by (induction sts arbitrary: s) (simp_all add: countOutcome_total)

lemma no_rejected: "rejected rs = [] \<Longrightarrow> length (fulfilled rs) = length rs"
  by (induction rs rule: rejected.induct) auto

lemma execute_all_length: "length (snd (execute_all ctx envs n now cls stores)) = length cls"
  by (induction ctx envs n now cls stores rule: execute_all.induct) (auto split: prod.splits)

lemma tick_accounts:
  assumes "runSequenceTick ctx envs io tokens options now stores = (stores', Inr summary)"
  shows "tk_claimed summary = summary_total summary"
proof -
  obtain f claimed where "sequence_repository_step (sx_mailbox ctx)
      (io, ClaimDue (case to_limit options of None \<Rightarrow> 25 | Some n \<Rightarrow> n) now
         (case to_leaseMs options of None \<Rightarrow> DEFAULT_SEQUENCE_LEASE_MS | Some n \<Rightarrow> n) tokens)
      (fst stores) = (f, Inr (ResClaimed claimed))"
    using assms by (auto simp: runSequenceTick_def split: prod.splits sum.splits seq_result.splits)
  moreover obtain s2 results where ex: "execute_all ctx envs 0 now claimed (f, snd stores) = (s2, results)"
    by (cases "execute_all ctx envs 0 now claimed (f, snd stores)")
  ultimately have r: "rejected results = []"
      "summary = fold countOutcome (fulfilled results) (empty_summary (length claimed) now)"
    using assms by (auto simp: runSequenceTick_def Let_def split: if_splits)
  moreover have "length results = length claimed"
    using execute_all_length [of ctx envs 0 now claimed "(f, snd stores)"] ex by simp
  ultimately show ?thesis
    using fold_countOutcome [of "fulfilled results" "empty_summary (length claimed) now"] no_rejected [OF r(1)]
    by (simp add: empty_summary_def summary_total_def)
qed

subsection \<open>A tick keeps the invariant\<close>

definition claims_match :: "seq_store \<Rightarrow> claimed_enrollment list \<Rightarrow> bool" where
  "claims_match s cls \<longleftrightarrow> (\<forall>cl \<in> set cls. claim_sound (sq_definitions s) cl \<and>
     (\<forall>x \<in> set (sq_enrollments s). en_id x = cl_id cl \<longrightarrow> same_subscription (cl_enrollment cl) x))"

lemma outcome_positioned:
  assumes "claim_sound defs cl" "step_outcome now (cl_revision cl) (cl_enrollment cl) n"
  shows "positioned defs n"
  using assms unfolding positioned_def claim_sound_def step_outcome_def same_enrollment_def
    advanced_def retried_def stopped_def
  by (metis (no_types, lifting))

lemma outcome_legal:
  assumes "claims_match s (cl # cls)" "step_outcome now (cl_revision cl) (cl_enrollment cl) n"
  shows "legal_next s (cl_enrollment cl) n"
proof -
  have "positioned (sq_definitions s) n"
    using assms(1) outcome_positioned [OF _ assms(2)] by (simp add: claims_match_def)
  then show ?thesis
    using assms
    by (simp add: legal_next_def claims_match_def step_outcome_def same_enrollment_def
        same_subscription_def cl_id_def)
qed

lemma sequence_step_written:
  assumes wf: "seq_file_wf mailbox file"
    and st: "sequence_repository_step mailbox (io, op) file = (f', r)"
  shows "(f' = file \<and> (\<exists>e. r = Inl e)) \<or>
    (\<exists>v x. sequence_callback mailbox op (seq_value file) = Inr (v, x) \<and> f' = Some v \<and>
       (r = Inr x \<or> r = Inl ReleaseFailed))"
proof (rule update_cases [of "createSequenceStore mailbox" io "sequence_callback mailbox op" "file"])
  fix e
  assume "updateJsonFileStore (createSequenceStore mailbox) io (sequence_callback mailbox op) file = (file, Inl e)"
  then have "(f', r) = (file, Inl e)" using st by (simp add: sequence_repository_step_def)
  then show ?thesis by blast
next
  fix cur v x w
  assume rd: "readJsonFileStore (createSequenceStore mailbox) io file = Inr cur"
    and cb: "sequence_callback mailbox op cur = Inr (v, x)"
    and res: "updateJsonFileStore (createSequenceStore mailbox) io (sequence_callback mailbox op) file =
      (Some v, if io_release io then Inr x else Inl ReleaseFailed)"
  have "cur = seq_value file" using seq_read [OF wf] rd by blast
  then show ?thesis using cb res st by (auto simp: sequence_repository_step_def split: if_splits)
qed

lemma complete_matches:
  assumes m: "claims_match s (cl # cls)" and c: "completeClaim (cl_enrollment cl) n s = Inr (s', c)"
    and n: "same_enrollment (cl_enrollment cl) n"
  shows "claims_match s' cls"
proof -
  obtain stored where st: "List.find (\<lambda>x. en_id x = en_id (cl_enrollment cl)) (sq_enrollments s) = Some stored"
      "parseSequenceEnrollment n = Inr c"
      "s' = s\<lparr>sq_enrollments := replace_by en_id (sq_enrollments s) c\<rparr>"
    using completeClaim_result [OF c] by auto
  have stored: "stored \<in> set (sq_enrollments s)" "en_id stored = cl_id cl"
    using find_Some_in [OF st(1)] by (auto simp: cl_id_def)
  have sub: "same_subscription c stored" "en_id c = en_id stored"
    using schema_keeps_fields [OF st(2)] n m stored
    by (auto simp: claims_match_def same_enrollment_def same_subscription_def cl_id_def)
  have "same_subscription (cl_enrollment k) x"
    if k: "k \<in> set cls" "x \<in> set (sq_enrollments s')" "en_id x = cl_id k" for k x
  proof -
    have old: "y \<in> set (sq_enrollments s) \<Longrightarrow> en_id y = cl_id k \<Longrightarrow> same_subscription (cl_enrollment k) y" for y
      using m k(1) by (simp add: claims_match_def)
    have "x = c \<or> x \<in> set (sq_enrollments s)"
      using k(2) set_replace_by_subset [of en_id "sq_enrollments s" c] st(3) by auto
    then show ?thesis
      using old [of x] old [of stored] k(3) stored(1) sub by (auto simp: same_subscription_def)
  qed
  then show ?thesis using m st(3) by (simp add: claims_match_def)
qed

lemma execute_one_wf:
  assumes wf: "seq_file_wf (sx_mailbox ctx) f" and m: "claims_match (seq_value f) (cl # cls)"
    and ex: "executeClaimedEnrollment ctx env io cl now (f, d) = ((f', d'), r)"
  shows "seq_file_wf (sx_mailbox ctx) f' \<and> claims_match (seq_value f') cls"
proof -
  have sound: "claim_sound (sq_definitions (seq_value f)) cl" using m by (simp add: claims_match_def)
  obtain d2 n where n: "next_enrollment ctx env cl now d = (d2, Inr n)"
      "step_outcome now (cl_revision cl) (cl_enrollment cl) n"
    using next_enrollment_outcome [OF sound, of ctx env now d] by auto
  obtain f2 r2 where st: "sequence_repository_step (sx_mailbox ctx)
      (io, CompleteClaim (cl_enrollment cl) n) f = (f2, r2)"
    by (cases "sequence_repository_step (sx_mailbox ctx) (io, CompleteClaim (cl_enrollment cl) n) f")
  have f2: "f' = f2"
    using ex n st by (auto simp: executeClaimedEnrollment_def split: sum.splits seq_result.splits)
  have "seq_legal (io, CompleteClaim (cl_enrollment cl) n) f"
    using outcome_legal [OF m n(2)] by (simp add: seq_legal_def legal_op_def)
  then have "seq_file_wf (sx_mailbox ctx) f2"
    using sequence_step_wf [OF wf, of "(io, CompleteClaim (cl_enrollment cl) n)"] st by simp
  moreover have "claims_match (seq_value f2) cls"
  proof (cases "f2 = f")
    case True
    then show ?thesis using m by (simp add: claims_match_def)
  next
    case False
    then obtain v x where
      "sequence_callback (sx_mailbox ctx) (CompleteClaim (cl_enrollment cl) n) (seq_value f) = Inr (v, x)"
      "f2 = Some v"
      using sequence_step_written [OF wf st] by blast
    then show ?thesis
      using complete_matches [OF m] n(2)
      by (auto simp: sequence_callback_def with_result_Inr seq_value_def step_outcome_def)
  qed
  ultimately show ?thesis using f2 by simp
qed

lemma execute_all_wf:
  assumes "seq_file_wf (sx_mailbox ctx) (fst stores)" "claims_match (seq_value (fst stores)) cls"
    and "execute_all ctx envs n now cls stores = (stores', rs)"
  shows "seq_file_wf (sx_mailbox ctx) (fst stores')"
  using assms
proof (induction cls arbitrary: n stores rs)
  case Nil
  then show ?case by simp
next
  case (Cons cl cls)
  obtain f d where s: "stores = (f, d)" by (cases stores)
  obtain f' d' r where ex: "executeClaimedEnrollment ctx (fst (envs n)) (snd (envs n)) cl now (f, d) = ((f', d'), r)"
    by (metis prod.collapse)
  obtain rs' where rest: "execute_all ctx envs (Suc n) now cls (f', d') = (stores', rs')"
    using Cons.prems(3) ex s by (auto split: prod.splits)
  have "seq_file_wf (sx_mailbox ctx) f' \<and> claims_match (seq_value f') cls"
    using execute_one_wf [OF _ _ ex, of cls] Cons.prems(1,2) s by simp
  then show ?case using Cons.IH [OF _ _ rest] by simp
qed

lemma claimed_match:
  assumes wf: "seq_wf mailbox s" and c: "claimDue limit now leaseMs tokens s = Inr (s', cls)"
  shows "claims_match s' cls"
proof -
  have v: "\<forall>e \<in> set (sq_enrollments s). valid_enrollment e" "distinct (map en_id (sq_enrollments s))"
    using seq_wf_queue_ok [OF wf] by (auto simp: queue_ok_def)
  note r = claimDue_result [OF c v]
  have "same_subscription (cl_enrollment cl) x"
    if cl: "cl \<in> set cls" and x: "x \<in> set (sq_enrollments s')" "en_id x = cl_id cl" for cl x
  proof -
    obtain e where e: "e \<in> set (sq_enrollments s)" "claim_of now leaseMs tokens (sq_definitions s) e cl"
      using r(4) [OF cl] by blast
    have sub: "same_subscription (cl_enrollment cl) e"
      using e(2) by (auto simp: claim_of_def same_subscription_def leased_enrollment_def)
    consider "x \<in> set (sq_enrollments s)" | k where "k \<in> set cls" "x = cl_enrollment k"
      using apply_claims_members [of x cls "sq_enrollments s"] x(1) r(1) by auto
    then show ?thesis
    proof cases
      case 1
      then have "x = e"
        using distinct_key_inj [OF v(2)] e claim_of_id [OF e(2)] x(2) by simp
      then show ?thesis using sub by simp
    next
      case 2
      then have "k = cl" using distinct_key_inj [OF r(2)] cl x(2) by (simp add: cl_id_def)
      then show ?thesis using 2 by (simp add: same_subscription_def)
    qed
  qed
  then show ?thesis using claimDue_sound [OF wf c] r(1) by (simp add: claims_match_def)
qed

lemma tick_wf:
  assumes wf: "seq_file_wf (sx_mailbox ctx) (fst stores)"
  shows "seq_file_wf (sx_mailbox ctx) (fst (fst (runSequenceTick ctx envs io tokens options now stores)))"
proof -
  let ?op = "ClaimDue (case to_limit options of None \<Rightarrow> 25 | Some n \<Rightarrow> n) now
      (case to_leaseMs options of None \<Rightarrow> DEFAULT_SEQUENCE_LEASE_MS | Some n \<Rightarrow> n) tokens"
  obtain f r where st: "sequence_repository_step (sx_mailbox ctx) (io, ?op) (fst stores) = (f, r)"
    by (cases "sequence_repository_step (sx_mailbox ctx) (io, ?op) (fst stores)")
  have f: "seq_file_wf (sx_mailbox ctx) f"
    using sequence_step_wf [OF wf, of "(io, ?op)"] st by (simp add: seq_legal_def legal_op_def)
  show ?thesis
  proof (cases "\<exists>cls. r = Inr (ResClaimed cls)")
    case False
    then show ?thesis
      using st f by (auto simp: runSequenceTick_def split: sum.splits seq_result.splits)
  next
    case True
    then obtain cls where r: "r = Inr (ResClaimed cls)" by blast
    obtain stores' rs where ex: "execute_all ctx envs 0 now cls (f, snd stores) = (stores', rs)"
      by (cases "execute_all ctx envs 0 now cls (f, snd stores)")
    obtain v where "sequence_callback (sx_mailbox ctx) ?op (seq_value (fst stores)) = Inr (v, ResClaimed cls)"
        "f = Some v"
      using sequence_step_written [OF wf st] r by auto
    then have "claims_match (seq_value f) cls"
      using claimed_match wf
      by (auto simp: sequence_callback_def with_result_Inr seq_file_wf_def seq_value_def)
    then have "seq_file_wf (sx_mailbox ctx) (fst stores')"
      using execute_all_wf [of ctx "(f, snd stores)" cls envs 0 now stores' rs] f ex by simp
    then show ?thesis using st r ex by (simp add: runSequenceTick_def Let_def)
  qed
qed

end
