(* ===== verification/Sequence_Completion.thy ===== *)
theory Sequence_Completion
  imports Sequence_Tick
begin

section \<open>Completions that reach the store\<close>

text \<open>
  \<open>executeClaimedEnrollment\<close> runs the step and then completes the claim, and the store
  parses what the completion writes.  The enrollment a step leads to parses, but for
  one case: the last attempt at a send step has failed and its message, with the
  prefix of the engine, is longer than the schema allows.  So an execution under a
  lease stores its outcome, and the executions whose outcome was stored are bounded.
\<close>

subsection \<open>What a step writes\<close>

definition error_fits :: "string option \<Rightarrow> bool" where
  "error_fits m = (case m of None \<Rightarrow> True | Some t \<Rightarrow> length t \<le> 1000)"

definition attempts_exhausted :: "seq_enrollment \<Rightarrow> seq_enrollment \<Rightarrow> bool" where
  "attempts_exhausted e n \<longleftrightarrow> en_retryCount e + 1 \<ge> SEQUENCE_RETRY_MAX_ATTEMPTS \<and> en_status n = EnrFailed \<and>
     \<not> error_fits (en_lastError n)"

definition year_left :: "instant \<Rightarrow> bool" where
  "year_left now \<longleftrightarrow> iso_ok now \<and> iso_ok (now + 31536000000)"

definition storable_step :: "instant \<Rightarrow> seq_enrollment \<Rightarrow> seq_enrollment \<Rightarrow> bool" where
  "storable_step now e n \<longleftrightarrow> iso_ok (en_nextRunAt n) \<and> 0 \<le> en_retryCount n \<and>
     en_lastTransitionAt n = now \<and> en_updatedAt n = now \<and>
     (error_fits (en_lastError n) \<or> attempts_exhausted e n)"

lemma year_left_soon:
  assumes "year_left now" "0 \<le> t" "t \<le> 31536000000"
  shows "iso_ok (now + t)"
  using assms by (simp add: year_left_def iso_ok_def)

lemma truncated_fits [simp]: "error_fits (Some (truncateError t))"
  by (simp add: error_fits_def truncateError_def)

lemma no_error_fits [simp]: "error_fits None"
  by (simp add: error_fits_def)

lemma completed_storable: "iso_ok (en_nextRunAt e) \<Longrightarrow> storable_step now e (withoutLease e completed_change now)"
  by (simp add: storable_step_def withoutLease_def change_defs)

lemma goto_storable: "iso_ok t \<Longrightarrow> storable_step now e (withoutLease e (goto_change st i t) now)"
  by (simp add: storable_step_def withoutLease_def change_defs)

lemma ended_storable:
  "iso_ok (en_nextRunAt e) \<Longrightarrow> error_fits (Some m) \<Longrightarrow> storable_step now e (withoutLease e (ended_change st m) now)"
  by (simp add: storable_step_def withoutLease_def change_defs)

lemma retry_storable:
  assumes "year_left now" "iso_ok (en_nextRunAt e)" "en_retryCount e \<ge> 0"
  shows "storable_step now e (retryEnrollment e now err jitter)"
proof (cases "en_retryCount e + 1 \<ge> SEQUENCE_RETRY_MAX_ATTEMPTS")
  case True
  then show ?thesis
    using assms by (auto simp: storable_step_def retryEnrollment_def withoutLease_def attempts_exhausted_def Let_def)
next
  case False
  moreover have "iso_ok (now + retry_delay (en_retryCount e + 1) jitter)"
    using retry_delay_bounds [of "en_retryCount e + 1" jitter] assms
    by (intro year_left_soon) (simp_all add: SEQUENCE_RETRY_MAX_DELAY_MS_def)
  ultimately show ?thesis
    using assms by (simp add: storable_step_def retryEnrollment_def withoutLease_def Let_def)
qed

lemma send_error_storable:
  assumes "year_left now" "iso_ok (en_nextRunAt e)" "en_retryCount e \<ge> 0"
  shows "storable_step now e (handle_send_error ctx env e now err)"
proof -
  have "storable_step now e (withoutLease e (\<lambda>x. x\<lparr>en_status := EnrAmbiguous,
      en_lastError := Some (truncateError t)\<rparr>) now)" for t
    using assms by (simp add: storable_step_def withoutLease_def)
  moreover have "storable_step now e (withoutLease e (ended_change EnrCancelled
      ''Sequence delivery cancelled because the subscriber no longer exists'') now)"
    using assms(2) by (rule ended_storable) (simp add: error_fits_def)
  ultimately show ?thesis
    unfolding handle_send_error_def Let_def
    using ended_storable [OF assms(2)] retry_storable [OF assms]
    by (simp split: engine_error.split send_error.split)
qed

lemma cannot_receive_fits:
  assumes "subscriberCannotReceive s = Some reason"
  shows "error_fits (Some (''Sequence delivery cancelled because '' @ reason))"
  using assms by (auto simp: subscriberCannotReceive_def error_fits_def Let_def split: if_splits)

lemma transition_storable:
  assumes "transitionToNext cl now = Inr n" "iso_ok now" "iso_ok (en_nextRunAt (cl_enrollment cl))"
  shows "storable_step now (cl_enrollment cl) n"
  using assms completed_storable goto_storable
  by (auto simp: transitionToNext_def split: sum.splits option.splits)

lemma wait_storable:
  assumes "execute_wait cl now st t = Inr n" "iso_ok t" "iso_ok (en_nextRunAt (cl_enrollment cl))"
  shows "storable_step now (cl_enrollment cl) n"
  using assms completed_storable goto_storable
  by (auto simp: execute_wait_def split: sum.splits option.splits)

lemma send_storable:
  assumes "year_left now" "iso_ok (en_nextRunAt (cl_enrollment cl))" "en_retryCount (cl_enrollment cl) \<ge> 0"
  shows "storable_step now (cl_enrollment cl) (snd (executeSendStep ctx env cl step s now d))"
proof -
  have now: "iso_ok now" using assms(1) by (simp add: year_left_def)
  have fixed: "error_fits (Some ''Sequence delivery failed because its stored From mailbox is invalid'')"
    "error_fits (Some ''Listmonk rejected the sequence message'')" by (simp_all add: error_fits_def)
  show ?thesis
    unfolding executeSendStep_def Let_def
    using send_error_storable [OF assms] ended_storable [OF assms(2)] fixed
      transition_storable [OF _ now assms(2)] cannot_receive_fits
    by (auto split: option.splits sum.splits prod.splits)
qed

subsection \<open>The steps of a valid definition\<close>

lemma valid_step_fixed:
  assumes "valid_definition mailbox d" "r \<in> set (def_revisions d)" "st \<in> set (rev_steps r)"
  shows "storedSequenceStepSchema mailbox st = Some st"
proof -
  let ?f = "storedSequenceStepSchema mailbox"
  have "list_schema (revision_schema ?f) (def_revisions d) = Some (def_revisions d)"
    using assms(1) unfolding valid_definition_def definition_schema_def
    by (cases d) (auto split: option.splits if_splits)
  then have "revision_schema ?f r = Some r"
    using assms(2) list_schema_fixed [of "def_revisions d" "revision_schema ?f"] by auto
  then have "list_schema ?f (rev_steps r) = Some (rev_steps r)"
    by (cases r) (auto simp: revision_schema_def split: if_splits)
  then show ?thesis using assms(3) list_schema_fixed [of "rev_steps r" ?f] by auto
qed

lemma valid_wait:
  assumes "storedSequenceStepSchema mailbox st = Some st"
  shows "step_type st = WaitStep t \<Longrightarrow> 1 \<le> t \<and> t \<le> 31536000" "step_type st = WaitUntilStep u \<Longrightarrow> iso_ok u"
  using assms
  by (auto simp: storedSequenceStepSchema_def sequenceStepSchema_def step_schema_def stepTypeSchema_def is_send_def
      split: option.splits if_splits)

lemma next_enrollment_storable:
  assumes sound: "claim_sound defs cl" and valid: "valid_definition mailbox (cl_definition cl)"
    and now: "year_left now" and run: "iso_ok (en_nextRunAt (cl_enrollment cl))"
    and nxt: "next_enrollment ctx env cl now d = (d', Inr n)"
  shows "storable_step now (cl_enrollment cl) n"
proof -
  let ?steps = "rev_steps (cl_revision cl)"
  obtain i where i: "i < length ?steps"
      "List.find (\<lambda>c. step_id c = en_currentStepId (cl_enrollment cl)) ?steps = Some (?steps ! i)"
    using sound_position [OF sound] by blast
  have fixed: "storedSequenceStepSchema mailbox (?steps ! i) = Some (?steps ! i)"
    using sound i(1) by (intro valid_step_fixed [OF valid]) (auto simp: claim_sound_def)
  have rc: "en_retryCount (cl_enrollment cl) \<ge> 0" using sound by (simp add: claim_sound_def)
  have at: "iso_ok now" using now by (simp add: year_left_def)
  show ?thesis
  proof (cases "step_type (?steps ! i)")
    case (SendStep s)
    then show ?thesis
      using send_storable [OF now run rc, of ctx env "?steps ! i" s d] nxt i(2)
      by (auto simp: next_enrollment_def Let_def split: prod.splits)
  next
    case (WaitStep t)
    have "1 \<le> t \<and> t \<le> 31536000" using valid_wait(1) [OF fixed WaitStep] .
    then have "iso_ok (now + t * 1000)" using now by (intro year_left_soon) simp_all
    then show ?thesis using nxt i(2) WaitStep wait_storable run by (auto simp: next_enrollment_def Let_def)
  next
    case (WaitUntilStep t)
    then show ?thesis
      using nxt i(2) valid_wait(2) [OF fixed] wait_storable run at
      by (auto simp: next_enrollment_def Let_def split: if_splits)
  next
    case (ConditionStep c)
    then show ?thesis
      using nxt i(2) goto_storable [OF at] by (auto simp: next_enrollment_def Let_def)
  next
    case StopStep
    then show ?thesis
      using nxt i(2) completed_storable [OF run] by (auto simp: next_enrollment_def Let_def)
  qed
qed

subsection \<open>Storing the outcome\<close>

lemma outcome_parses:
  assumes "claim_sound defs cl" and valid: "valid_definition mailbox (cl_definition cl)"
    and e: "valid_enrollment (cl_enrollment cl)"
    and out: "step_outcome now (cl_revision cl) (cl_enrollment cl) n"
    and st: "storable_step now (cl_enrollment cl) n" and now: "iso_ok now"
  shows "parseSequenceEnrollment n =
    (if attempts_exhausted (cl_enrollment cl) n then Inl SeqSchemaError else Inr n)"
proof -
  have "en_currentStepId n \<in> step_id ` set (rev_steps (cl_revision cl))"
    using assms(1) out by (auto simp: claim_sound_def step_outcome_def advanced_def retried_def stopped_def)
  then have "stepIdSchema (en_currentStepId n) = Some (en_currentStepId n)"
    using valid_definition_step [OF valid] assms(1) unfolding claim_sound_def by (metis imageE)
  moreover have same: "same_enrollment (cl_enrollment cl) n" using out by (simp add: step_outcome_def)
  moreover have "en_revision (cl_enrollment cl) > 0" "en_subscriberId (cl_enrollment cl) > 0"
    "iso_ok (en_createdAt (cl_enrollment cl))"
    using e by (auto simp: valid_enrollment_def enrollmentSchema_def split: option.splits if_splits)
  moreover have "attempts_exhausted (cl_enrollment cl) n \<longleftrightarrow> \<not> error_fits (en_lastError n)"
    using st by (auto simp: storable_step_def attempts_exhausted_def)
  ultimately show ?thesis
    using st now
    by (cases n) (simp add: parseSequenceEnrollment_def enrollmentSchema_def storable_step_def
        same_enrollment_def error_fits_def)
qed

definition held_by :: "seq_store \<Rightarrow> claimed_enrollment \<Rightarrow> bool" where
  "held_by s cl \<longleftrightarrow> en_leaseToken (cl_enrollment cl) \<noteq> None \<and>
     (\<exists>x \<in> set (sq_enrollments s). en_id x = cl_id cl \<and> en_leaseToken x = en_leaseToken (cl_enrollment cl))"

definition completed_store :: "seq_store \<Rightarrow> seq_enrollment \<Rightarrow> seq_store" where
  "completed_store s n = s\<lparr>sq_enrollments := replace_by en_id (sq_enrollments s) n\<rparr>"

lemma completion_held:
  assumes "seq_wf mailbox s" "held_by s cl"
  shows "completeClaim (cl_enrollment cl) n s =
    (case parseSequenceEnrollment n of Inl e \<Rightarrow> Inl e | Inr c \<Rightarrow> Inr (completed_store s c, c))"
proof -
  obtain x where x: "x \<in> set (sq_enrollments s)" "en_id x = cl_id cl" "en_leaseToken x \<noteq> None"
      "en_leaseToken x = en_leaseToken (cl_enrollment cl)"
    using assms(2) by (auto simp: held_by_def)
  then have "List.find (\<lambda>c. en_id c = en_id (cl_enrollment cl)) (sq_enrollments s) = Some x"
    using find_enrollment [OF seq_wf_queue_ok [OF assms(1)] x(1)] by (simp add: cl_id_def)
  moreover have "\<not> (en_leaseToken x = None \<or> en_leaseToken x \<noteq> en_leaseToken (cl_enrollment cl))"
    using x by simp
  ultimately show ?thesis
    unfolding completeClaim_def getFileEnrollment_def completed_store_def
    by (simp only: option.simps sum.simps if_False)
qed

lemma completed_wf:
  assumes wf: "seq_wf mailbox s" and held: "held_by s cl" and p: "parseSequenceEnrollment n = Inr c"
    and m: "claims_match s [cl]" and out: "step_outcome now (cl_revision cl) (cl_enrollment cl) n"
  shows "seq_wf mailbox (completed_store s c)"
  using completeClaim_wf [OF wf _ outcome_legal [OF m out], of "completed_store s c" c]
    completion_held [OF wf held, of n] p by simp

lemma repository_completion:
  assumes wf: "seq_file_wf mailbox f" and held: "held_by (seq_value f) cl"
    and m: "claims_match (seq_value f) [cl]" and out: "step_outcome now (cl_revision cl) (cl_enrollment cl) n"
  shows "sequence_repository_step mailbox (io_fine, CompleteClaim (cl_enrollment cl) n) f =
    (case parseSequenceEnrollment n of
       Inl e \<Rightarrow> (f, Inl (CallbackFailed e))
     | Inr c \<Rightarrow> (Some (completed_store (seq_value f) c), Inr (ResEnrollment c)))"
proof -
  have wf': "seq_wf mailbox (seq_value f)" using wf by (simp add: seq_file_wf_def)
  have read: "readJsonFileStore (createSequenceStore mailbox) io_fine f =
      (Inr (seq_value f) :: seq_error store_failure + seq_store)"
    using parse_wf_store [OF wf'] by (cases f) (auto simp: seq_value_def createSequenceStore_def)
  note complete = completion_held [OF wf' held, of n]
  show ?thesis
  proof (cases "parseSequenceEnrollment n")
    case (Inl e)
    then show ?thesis
      using read complete
      by (simp add: sequence_repository_step_def json_store_defs sequence_callback_def with_result_def)
  next
    case (Inr c)
    have "js_parse (createSequenceStore mailbox) (completed_store (seq_value f) c) =
        Inr (completed_store (seq_value f) c)"
      using parse_wf_store [OF completed_wf [OF wf' held Inr m out]] by (simp add: createSequenceStore_def)
    then show ?thesis
      using read complete Inr
      by (simp add: sequence_repository_step_def json_store_defs sequence_callback_def with_result_def)
  qed
qed

lemma execution_completes:
  assumes wf: "seq_file_wf (sx_mailbox ctx) f" and m: "claims_match (seq_value f) [cl]"
    and held: "held_by (seq_value f) cl" and e: "valid_enrollment (cl_enrollment cl)" and now: "year_left now"
  shows "\<exists>d' n. next_enrollment ctx env cl now d = (d', Inr n) \<and>
    step_outcome now (cl_revision cl) (cl_enrollment cl) n \<and>
    executeClaimedEnrollment ctx env io_fine cl now (f, d) =
      (if attempts_exhausted (cl_enrollment cl) n
       then ((f, d'), Inl (RepositoryFailed (CallbackFailed SeqSchemaError)))
       else ((Some (completed_store (seq_value f) n), d'), Inr (en_status n)))"
proof -
  have sound: "claim_sound (sq_definitions (seq_value f)) cl" using m by (simp add: claims_match_def)
  have valid: "valid_definition (sx_mailbox ctx) (cl_definition cl)"
    using sound wf by (simp add: claim_sound_def seq_file_wf_def seq_wf_def definitions_fine_def)
  obtain d' n where n: "next_enrollment ctx env cl now d = (d', Inr n)"
      "step_outcome now (cl_revision cl) (cl_enrollment cl) n"
    using next_enrollment_outcome [OF sound, of ctx env now d] by auto
  have run: "iso_ok (en_nextRunAt (cl_enrollment cl))"
    using e by (auto simp: valid_enrollment_def enrollmentSchema_def split: option.splits if_splits)
  have at: "iso_ok now" using now by (simp add: year_left_def)
  note parses = outcome_parses [OF sound valid e n(2) next_enrollment_storable [OF sound valid now run n(1)] at]
  show ?thesis
    using n repository_completion [OF wf held m n(2)] parses
    by (intro exI [of _ d'] exI [of _ n]) (simp add: executeClaimedEnrollment_def)
qed

subsection \<open>Executions of one enrollment\<close>

text \<open>
  \<open>n\<close> executions that stored their outcome, of whatever instants, answers and
  input/output outcomes, lead from one stored enrollment to another.  Before each
  the enrollment is leased; an execution that stored nothing leaves it as it was, and
  is not counted.
\<close>

definition outcome_stored :: "execute_error + enrollment_status \<Rightarrow> bool" where
  "outcome_stored r =
     (case r of Inr _ \<Rightarrow> True | Inl (RepositoryFailed ReleaseFailed) \<Rightarrow> True | Inl _ \<Rightarrow> False)"

inductive execution_path ::
  "('d, 'io) sequence_context \<Rightarrow> seq_definition \<Rightarrow> seq_revision \<Rightarrow> nat \<Rightarrow> seq_enrollment \<Rightarrow> seq_enrollment \<Rightarrow> bool"
  for ctx d r where
  path_none: "execution_path ctx d r 0 e e"
| path_step: "execution_path ctx d r (Suc n) e e''"
    if "execution_path ctx d r n e e'" "runnable_status (en_status e')"
       "executeClaimedEnrollment ctx env io (claim_on d r (leased_enrollment since leaseMs tok e')) now (f, st) =
          ((f', st'), res)"
       "outcome_stored res"
       "List.find (\<lambda>x. en_id x = en_id e') (sq_enrollments (seq_value f')) = Some e''"

lemma leased_remaining:
  assumes "runnable_status (en_status e)"
  shows "remaining r (leased_enrollment since leaseMs tok e) = remaining r e"
  using assms by (simp add: remaining_def leased_enrollment_def step_index_def runnable_status_def)

lemma leased_sound:
  "claim_sound defs (claim_on d r (leased_enrollment since leaseMs tok e)) \<longleftrightarrow> claim_sound defs (claim_on d r e)"
  by (simp add: claim_sound_def leased_enrollment_def)

lemma stored_outcome:
  assumes sound: "claim_sound defs cl"
    and ex: "executeClaimedEnrollment ctx env io cl now (f, st) = ((f', st'), res)" and ok: "outcome_stored res"
    and found: "List.find (\<lambda>x. en_id x = cl_id cl) (sq_enrollments (seq_value f')) = Some c"
  shows "\<exists>n. step_outcome now (cl_revision cl) (cl_enrollment cl) n \<and> parseSequenceEnrollment n = Inr c"
proof -
  obtain d' n where n: "next_enrollment ctx env cl now st = (d', Inr n)"
      "step_outcome now (cl_revision cl) (cl_enrollment cl) n"
    using next_enrollment_outcome [OF sound, of ctx env now st] by auto
  let ?upd = "updateJsonFileStore (createSequenceStore (sx_mailbox ctx)) io
    (sequence_callback (sx_mailbox ctx) (CompleteClaim (cl_enrollment cl) n)) f"
  show ?thesis
  proof (rule update_cases [of "createSequenceStore (sx_mailbox ctx)" io
        "sequence_callback (sx_mailbox ctx) (CompleteClaim (cl_enrollment cl) n)" f])
    fix e
    assume "?upd = (f, Inl e)" "e \<noteq> ReleaseFailed"
    then have False
      using ex ok n(1)
      by (cases e) (auto simp: executeClaimedEnrollment_def sequence_repository_step_def outcome_stored_def)
    then show ?thesis by simp
  next
    fix cur v r w
    assume cb: "sequence_callback (sx_mailbox ctx) (CompleteClaim (cl_enrollment cl) n) cur = Inr (v, r)"
      and res: "?upd = (Some v, if io_release io then Inr r else Inl ReleaseFailed)"
    obtain c' where c': "completeClaim (cl_enrollment cl) n cur = Inr (v, c')" "r = ResEnrollment c'"
      using cb by (auto simp: sequence_callback_def with_result_Inr)
    have f': "f' = Some v"
      using ex n(1) res c'(2)
      by (auto simp: executeClaimedEnrollment_def sequence_repository_step_def split: if_splits)
    obtain stored where st: "List.find (\<lambda>x. en_id x = en_id (cl_enrollment cl)) (sq_enrollments cur) = Some stored"
        "parseSequenceEnrollment n = Inr c'"
        "v = cur\<lparr>sq_enrollments := replace_by en_id (sq_enrollments cur) c'\<rparr>"
      using completeClaim_result [OF c'(1)] by auto
    have i: "en_id c' = cl_id cl"
      using schema_keeps_fields [OF st(2)] n(2) by (simp add: step_outcome_def same_enrollment_def cl_id_def)
    then have "List.find (\<lambda>x. en_id x = en_id c') (sq_enrollments cur) \<noteq> None"
      using st(1) by (simp add: cl_id_def)
    then have "List.find (\<lambda>x. en_id x = en_id c') (sq_enrollments v) = Some c'"
      using st(3) find_replace_by_same [of en_id c' "sq_enrollments cur"] by simp
    then have "c' = c" using found i f' by (simp add: seq_value_def)
    then show ?thesis using n(2) st(2) by blast
  qed
qed

lemma parsed_outcome:
  assumes "claim_sound defs cl" "valid_definition mailbox (cl_definition cl)"
    and out: "step_outcome now (cl_revision cl) (cl_enrollment cl) n" and p: "parseSequenceEnrollment n = Inr c"
  shows "step_outcome now (cl_revision cl) (cl_enrollment cl) c"
proof -
  have "en_currentStepId n \<in> step_id ` set (rev_steps (cl_revision cl))"
    using assms(1) out by (auto simp: claim_sound_def step_outcome_def advanced_def retried_def stopped_def)
  then have "stepIdSchema (en_currentStepId n) = Some (en_currentStepId n)"
    using valid_definition_step [OF assms(2)] assms(1) unfolding claim_sound_def by (metis imageE)
  then have "c = n"
    using p by (cases n) (auto simp: parseSequenceEnrollment_def enrollmentSchema_def split: option.splits if_splits)
  then show ?thesis using out by simp
qed

lemma path_remaining:
  assumes "execution_path ctx d r n e e'" "claim_sound defs (claim_on d r e)" "valid_definition mailbox d"
  shows "n + remaining r e' \<le> remaining r e \<and>
    (claim_sound defs (claim_on d r e') \<or> \<not> runnable_status (en_status e'))"
  using assms
proof (induction rule: execution_path.induct)
  case (path_none e)
  then show ?case by simp
next
  case (path_step n e e' env io since leaseMs tok now f st f' st' res e'')
  let ?l = "leased_enrollment since leaseMs tok e'"
  have s: "claim_sound defs (claim_on d r ?l)" using path_step by (simp add: leased_sound)
  have run: "runnable_status (en_status ?l)" by (simp add: leased_enrollment_def runnable_status_def)
  have "cl_id (claim_on d r ?l) = en_id e'" by (simp add: cl_id_def leased_enrollment_def)
  then obtain m where "step_outcome now r ?l m" "parseSequenceEnrollment m = Inr e''"
    using stored_outcome [OF s path_step.hyps(3,4)] path_step.hyps(5) by auto
  then have out: "step_outcome now r ?l e''"
    using parsed_outcome [OF s, of mailbox now m e''] path_step.prems(2) by simp
  show ?case
    using outcome_remaining [OF s run out] outcome_sound [OF s out] leased_remaining [OF path_step.hyps(2)]
      path_step.IH [OF path_step.prems] by fastforce
qed

lemma path_bound:
  assumes "execution_path ctx d r n e e'" "claim_sound defs (claim_on d r e)" "valid_definition mailbox d"
  shows "n \<le> 24 * length (rev_steps r)"
proof -
  have "n \<le> remaining r e" using path_remaining [OF assms] by simp
  also have "\<dots> \<le> (length (rev_steps r) - step_index r e) * 24" by (simp add: remaining_def)
  also have "\<dots> \<le> length (rev_steps r) * 24" by (intro mult_right_mono) simp_all
  finally show ?thesis by (simp add: mult.commute)
qed

end
