(* ===== verification/Sequence_Delivery.thy ===== *)
theory Sequence_Delivery
  imports Sequence_Tick
begin

section \<open>Sequence messages and their idempotency keys\<close>

text \<open>
  A send of the engine is a run of the send system: claim, dispatch, settlement.  So
  the at-most-once guarantee of the store interface carries over to any list of
  sends, and since the key of a sequence message names its enrollment, revision and
  step, a step of an enrollment is delivered at most once per window.
\<close>

subsection \<open>Keys\<close>

lemma split_at_colon:
  "CHR '':'' \<notin> set a \<Longrightarrow> CHR '':'' \<notin> set b \<Longrightarrow> a @ CHR '':'' # x = b @ CHR '':'' # y \<Longrightarrow> a = b \<and> x = y"
proof (induction a arbitrary: b)
  case Nil
  then show ?case by (cases b) auto
next
  case (Cons c a)
  then show ?case by (cases b) auto
qed

lemma nat_text_colon: "CHR '':'' \<notin> set (nat_text n)"
  using nat_text_digits [of "CHR '':''" n] by auto

lemma send_key_inj:
  assumes "CHR '':'' \<notin> set (en_id e)" "CHR '':'' \<notin> set (en_id e')" "en_revision e > 0" "en_revision e' > 0"
    and eq: "deterministicSendKey e = deterministicSendKey e'"
  shows "en_id e = en_id e' \<and> en_revision e = en_revision e' \<and> en_currentStepId e = en_currentStepId e'"
proof -
  define tail where "tail = (\<lambda>x :: seq_enrollment. ''revision:'' @ int_text (en_revision x) @ '':step:'' @ en_currentStepId x)"
  have k: "deterministicSendKey x = ''sequence:'' @ en_id x @ CHR '':'' # tail x" for x
    by (simp add: deterministicSendKey_def tail_def)
  have ids: "en_id e = en_id e'" "tail e = tail e'"
    using split_at_colon [OF assms(1,2)] eq by (simp_all add: k)
  have t: "tail x = ''revision:'' @ nat_text (nat (en_revision x)) @ CHR '':'' # ''step:'' @ en_currentStepId x"
    if "en_revision x > 0" for x
    using that by (simp add: tail_def int_text_positive)
  have "nat_text (nat (en_revision e)) @ CHR '':'' # ''step:'' @ en_currentStepId e =
      nat_text (nat (en_revision e')) @ CHR '':'' # ''step:'' @ en_currentStepId e'"
    using ids(2) by (simp add: t [OF assms(3)] t [OF assms(4)])
  then have "nat_text (nat (en_revision e)) = nat_text (nat (en_revision e')) \<and>
      ''step:'' @ en_currentStepId e = ''step:'' @ en_currentStepId e'"
    by (rule split_at_colon [OF nat_text_colon nat_text_colon])
  then have "nat_text (nat (en_revision e)) = nat_text (nat (en_revision e'))"
    "en_currentStepId e = en_currentStepId e'" by simp_all
  then show ?thesis
    using ids(1) assms(3,4) by (metis nat_value_text nat_eq_iff2 less_imp_le)
qed

subsection \<open>A send is a run of the send system\<close>

lemma settle_releases_nothing:
  "sy_procs s pid = None \<Longrightarrow> (sy_procs s)(pid := None) = sy_procs s"
  by (rule ext) simp

lemma send_is_path:
  assumes key: "si_idempotency_key input = Some k" and store: "sc_idempotencyStore ctx = Some store"
    and now: "lo \<le> fst now" "fst now \<le> hi" "lo \<le> snd now" "snd now \<le> hi"
    and reply: "faithful_reply reply delivered" and free: "sy_procs s pid = None"
    and send: "sendTransactionalMessage ctx io now tok reply input (sy_store s) = (d', disp, out)"
  shows "(send_step store lo hi)\<^sup>*\<^sup>* s
    (s\<lparr>sy_store := d', sy_delivered := (sy_delivered s)(k := sy_delivered s k + of_bool (disp \<and> delivered))\<rparr>)"
proof (cases "begin_send ctx (fst io) (fst now) tok input (sy_store s)")
  case (Pair d1 b)
  show ?thesis
  proof (cases b)
    case (BeginDone r)
    have "send_step store lo hi s (s\<lparr>sy_store := d1\<rparr>)"
      using step_done [OF now(1,2) store] Pair BeginDone by blast
    moreover have "d' = d1" "\<not> disp"
      using send Pair BeginDone by (simp_all add: sendTransactionalMessage_def)
    ultimately show ?thesis by simp
  next
    case BeginUnkeyed
    then show ?thesis
      using Pair key by (auto simp: begin_send_def split: option.splits prod.splits sum.splits claim_result.splits)
  next
    case (BeginDispatch kr)
    obtain rec where kr: "kr = (k, rec)"
      using Pair BeginDispatch key
      by (auto simp: begin_send_def split: option.splits prod.splits sum.splits claim_result.splits)
    define st where "st = fst (conclude k rec reply)"
    have d': "d' = settle_send store (snd io) (snd now) st d1" "disp"
      using send Pair BeginDispatch kr store
      by (auto simp: sendTransactionalMessage_def st_def split: prod.splits)
    define n where "n = sy_delivered s k + of_bool delivered"
    let ?s1 = "s\<lparr>sy_store := d1, sy_procs := (sy_procs s)(pid \<mapsto> Dispatching k rec)\<rparr>"
    let ?s2 = "?s1\<lparr>sy_procs := (sy_procs ?s1)(pid \<mapsto> Settling k st),
                  sy_delivered := (sy_delivered ?s1)(k := sy_delivered ?s1 k + of_bool delivered)\<rparr>"
    let ?s3 = "?s2\<lparr>sy_store := settle_send store (snd io) (snd now) st (sy_store ?s2),
                  sy_procs := (sy_procs ?s2)(pid := None)\<rparr>"
    have "send_step store lo hi s ?s1"
      using step_begin [OF now(1,2) free store] Pair BeginDispatch kr by blast
    moreover have "send_step store lo hi ?s1 ?s2"
      unfolding st_def by (rule step_dispatch [OF _ reply]) simp
    moreover have "send_step store lo hi ?s2 ?s3"
      by (rule step_settle [OF now(3,4)]) simp
    moreover have "?s3 = s\<lparr>sy_store := d', sy_delivered := (sy_delivered s)(k := n)\<rparr>"
      by (simp add: d' n_def [symmetric] settle_releases_nothing [OF free])
    ultimately have "(send_step store lo hi)\<^sup>*\<^sup>* s (s\<lparr>sy_store := d', sy_delivered := (sy_delivered s)(k := n)\<rparr>)"
      by (metis (no_types, lifting) converse_rtranclp_into_rtranclp rtranclp.rtrancl_refl)
    then show ?thesis using d'(2) by (simp add: n_def)
  qed
qed

subsection \<open>Lists of sends\<close>

record ('d, 'io) send_request =
  rq_context :: "('d, 'io) send_context"
  rq_io :: "'io \<times> 'io"
  rq_now :: "instant \<times> instant"
  rq_token :: string
  rq_reply :: listmonk_reply
  rq_delivered :: bool
  rq_input :: send_input

text \<open>The deliveries of \<open>k\<close> by a list of sends: those dispatched that Listmonk processed.\<close>

fun deliveries :: "string \<Rightarrow> ('d, 'io) send_request list \<Rightarrow> 'd \<Rightarrow> nat" where
  "deliveries k [] d = 0"
| "deliveries k (rq # rqs) d =
     (case sendTransactionalMessage (rq_context rq) (rq_io rq) (rq_now rq) (rq_token rq) (rq_reply rq)
             (rq_input rq) d of
        (d', disp, out) \<Rightarrow>
          of_bool (si_idempotency_key (rq_input rq) = Some k \<and> disp \<and> rq_delivered rq) +
          deliveries k rqs d')"

definition send_request_ok ::
  "('d, 'io) idem_store \<Rightarrow> instant \<Rightarrow> instant \<Rightarrow> ('d, 'io) send_request \<Rightarrow> bool" where
  "send_request_ok store lo hi rq \<longleftrightarrow> sc_idempotencyStore (rq_context rq) = Some store \<and>
     si_idempotency_key (rq_input rq) \<noteq> None \<and>
     lo \<le> fst (rq_now rq) \<and> fst (rq_now rq) \<le> hi \<and> lo \<le> snd (rq_now rq) \<and> snd (rq_now rq) \<le> hi \<and>
     faithful_reply (rq_reply rq) (rq_delivered rq)"

lemma deliveries_path:
  assumes "list_all (send_request_ok store lo hi) rqs" "sy_procs s = Map.empty"
  shows "\<exists>s'. (send_step store lo hi)\<^sup>*\<^sup>* s s' \<and>
    sy_delivered s' k = sy_delivered s k + deliveries k rqs (sy_store s)"
  using assms
proof (induction rqs arbitrary: s)
  case Nil
  then show ?case by auto
next
  case (Cons rq rqs)
  obtain d' disp out where send: "sendTransactionalMessage (rq_context rq) (rq_io rq) (rq_now rq)
      (rq_token rq) (rq_reply rq) (rq_input rq) (sy_store s) = (d', disp, out)"
    by (metis prod_cases3)
  obtain k' where k': "si_idempotency_key (rq_input rq) = Some k'"
    using Cons.prems by (auto simp: send_request_ok_def)
  let ?s = "s\<lparr>sy_store := d', sy_delivered := (sy_delivered s)(k' := sy_delivered s k' +
      of_bool (disp \<and> rq_delivered rq))\<rparr>"
  have path: "(send_step store lo hi)\<^sup>*\<^sup>* s ?s"
    using Cons.prems by (intro send_is_path [OF k' _ _ _ _ _ _ _ send, where pid = 0])
       (simp_all add: send_request_ok_def)
  obtain s' where s': "(send_step store lo hi)\<^sup>*\<^sup>* ?s s'"
      "sy_delivered s' k = sy_delivered ?s k + deliveries k rqs (sy_store ?s)"
    using Cons.IH [of ?s] Cons.prems by auto
  have "(send_step store lo hi)\<^sup>*\<^sup>* s s'" using path s'(1) by (rule rtranclp_trans)
  then show ?case using s'(2) send k' by (intro exI [of _ s']) auto
qed

context idempotency_store
begin

lemma sends_deliver_once:
  assumes "ok d" "hi \<le> lo + DEFAULT_TRANSACTIONAL_TTL_MS" "list_all (send_request_ok store lo hi) rqs"
  shows "deliveries k rqs d \<le> 1"
proof -
  obtain s' where "(send_step store lo hi)\<^sup>*\<^sup>* (idle_system d) s'"
      "sy_delivered s' k = deliveries k rqs d"
    using deliveries_path [OF assms(3), of "idle_system d" k] by (auto simp: idle_system_def)
  then show ?thesis
    using delivered_at_most_once [OF assms(1,2), of s' k] by (simp add: send_reachable_def)
qed

end

subsection \<open>The last retry\<close>

lemma length_retry_message:
  "length (''Sequence delivery failed after '' @ int_text 24 @ '' retryable attempts: '' @ m) = 54 + length m"
proof -
  have "int_text 24 = ''24''" by code_simp
  then show ?thesis by simp
qed

lemma last_retry_unparsable:
  assumes "en_retryCount e = 23" "947 \<le> length (thrown_message err)"
  shows "parseSequenceEnrollment (retryEnrollment e now err jitter) = Inl SeqSchemaError"
proof -
  have "en_lastError (retryEnrollment e now err jitter) =
      Some (''Sequence delivery failed after '' @ int_text 24 @ '' retryable attempts: '' @ truncateError err)"
    using assms(1) by (simp add: retryEnrollment_def Let_def SEQUENCE_RETRY_MAX_ATTEMPTS_def withoutLease_def)
  moreover have "length (''Sequence delivery failed after '' @ int_text 24 @ '' retryable attempts: '' @
      truncateError err) > 1000"
    unfolding length_retry_message using assms(2) by (simp add: truncateError_def)
  ultimately show ?thesis
    by (simp add: parseSequenceEnrollment_def enrollmentSchema_def split: option.split)
qed

end
