(* ===== verification/Sequence_Properties.thy ===== *)
theory Sequence_Properties
  imports Sequence_Completion Sequence_Delivery Transactional_Properties
begin

section \<open>What the sequence automation promises\<close>

text \<open>
  The properties of sequence definitions, of the repository over its histories, of
  its leases, and of the engine that executes the claims.
\<close>

subsection \<open>A sample sequence\<close>

definition any_mailbox :: "string \<Rightarrow> bool" where
  "any_mailbox s = True"

definition sample_send :: send_step where
  "sample_send = \<lparr>ss_templateId = 7, ss_fromEmail = None, ss_data = None,
     ss_contentType = None, ss_messenger = None, ss_subject = None, ss_altBody = None\<rparr>"

definition sample_steps :: "seq_step list" where
  "sample_steps =
     [\<lparr>step_id = ''hello'', step_type = SendStep sample_send\<rparr>,
      \<lparr>step_id = ''pause'', step_type = WaitStep 60\<rparr>,
      \<lparr>step_id = ''end'', step_type = StopStep\<rparr>]"

definition sample_revision :: seq_revision where
  "sample_revision = \<lparr>rev_revision = 1, rev_steps = sample_steps, rev_createdAt = 1\<rparr>"

definition sample_definition :: seq_definition where
  "sample_definition = \<lparr>def_id = ''d'', def_name = ''welcome'', def_description = None, def_status = DefActive,
     def_currentRevision = 1, def_revisions = [sample_revision], def_createdAt = 1, def_updatedAt = 1\<rparr>"

definition sample_enrollment :: seq_enrollment where
  "sample_enrollment = \<lparr>en_id = ''e'', en_sequenceId = ''d'', en_revision = 1, en_subscriberId = 5, en_context = [],
     en_status = EnrPending, en_retryCount = 0, en_currentStepId = ''hello'', en_nextRunAt = 2,
     en_leaseToken = None, en_leaseExpiresAt = None, en_lastError = None, en_lastTransitionAt = 2,
     en_createdAt = 2, en_updatedAt = 2\<rparr>"

definition sample_store :: seq_store where
  "sample_store = \<lparr>sq_version = 1, sq_definitions = [sample_definition],
     sq_enrollments = [sample_enrollment], sq_workers = []\<rparr>"

lemma sample_steps_topology: "topology_ok sample_steps"
proof -
  have "validateSequenceStepTopology sample_steps = Inr sample_steps" by code_simp
  then show ?thesis by (simp add: topology_iff)
qed

lemma sample_definition_valid: "valid_definition any_mailbox sample_definition"
proof -
  have "parsePersistedSequenceDefinition any_mailbox sample_definition = Inr sample_definition" by code_simp
  then show ?thesis by (rule persisted_valid)
qed

lemma sample_enrollment_fine: "enrollment_fine [sample_definition] sample_enrollment"
proof -
  have "valid_enrollment sample_enrollment" by code_simp
  then show ?thesis
    by (simp add: enrollment_fine_def lease_pair_def positioned_def sample_enrollment_def
        sample_definition_def sample_revision_def sample_steps_def)
qed

lemma sample_store_wf: "seq_wf any_mailbox sample_store"
  using sample_definition_valid sample_enrollment_fine
  by (simp add: seq_wf_def sample_store_def SEQUENCE_STORE_VERSION_def definitions_fine_def
      enrollments_fine_def workers_fine_def one_active_def)

definition sample_ops :: "(io_env \<times> seq_op) list" where
  "sample_ops = [(io_fine, CreateDefinition sample_definition), (io_fine, CreateEnrollment sample_enrollment)]"

lemma sample_first_op:
  "fst (sequence_repository_step any_mailbox (io_fine, CreateDefinition sample_definition) None) =
     Some (sample_store\<lparr>sq_enrollments := []\<rparr>)"
  by code_simp

lemma sample_second_op:
  "fst (sequence_repository_step any_mailbox (io_fine, CreateEnrollment sample_enrollment)
     (Some (sample_store\<lparr>sq_enrollments := []\<rparr>))) = Some sample_store"
  by code_simp

lemma sample_ops_legal: "legal_history (sequence_repository_step any_mailbox) seq_legal sample_ops None"
  using sample_enrollment_fine
  by (simp add: sample_ops_def sample_first_op seq_legal_def legal_op_def seq_value_def sample_store_def)

lemma sample_ops_result: "history (sequence_repository_step any_mailbox) sample_ops None = Some sample_store"
  by (simp add: sample_ops_def sample_first_op sample_second_op)

subsection \<open>Definitions\<close>

text \<open>The topology check accepts exactly the well-formed lists of steps: distinct
  identifiers, no wait step at the end, and every branch of a condition naming a later
  step; an accepted list is returned unchanged.\<close>

theorem accepted_topology:
  "validateSequenceStepTopology steps = Inr r \<longleftrightarrow> r = steps \<and> topology_ok steps"
  by (rule topology_iff)

text \<open>C31: A definition that parses round-trips through the store: the parsed definition
  parses again, as a persisted one, to itself, and all its revisions have a well-formed
  topology.\<close>

theorem parsed_definition_roundtrip:
  assumes "parseSequenceDefinition mailbox d = Inr p"
  shows "parsePersistedSequenceDefinition mailbox p = Inr p \<and> history_ok p"
  using parsed_valid [OF assms]
  by (simp add: valid_definition_def parsePersistedSequenceDefinition_def parse_definition_iff)

lemma parsed_definition_roundtrip_witness:
  "parsePersistedSequenceDefinition any_mailbox sample_definition = Inr sample_definition \<and> history_ok sample_definition"
proof -
  have "parseSequenceDefinition any_mailbox (sample_definition\<lparr>def_name := ''  welcome ''\<rparr>) = Inr sample_definition"
    by code_simp
  then show ?thesis by (rule parsed_definition_roundtrip)
qed

subsection \<open>The repository\<close>

text \<open>C4: The sequence document is always valid: after any history of repository
  operations whose callers respect their contract (\<open>seq_legal\<close>), whatever the
  input/output faults, the file holds valid definitions with distinct identifiers and
  names, and every enrollment stands on a step of a revision of its definition.\<close>

theorem sequence_document_history:
  assumes "legal_history (sequence_repository_step mailbox) seq_legal ops None"
  shows "seq_file_wf mailbox (history (sequence_repository_step mailbox) ops None)"
  by (rule sequence_system.history_wf [OF _ assms])
    (simp add: seq_file_wf_def seq_value_def seq_wf_def definitions_fine_def enrollments_fine_def
      one_active_def workers_fine_def)

lemma sequence_document_history_witness: "seq_file_wf any_mailbox (Some sample_store)"
  using sequence_document_history [OF sample_ops_legal] by (simp add: sample_ops_result)

text \<open>A subscriber is never enrolled twice at the same time: in any document the
  repository can hold, two enrollments of the same subscriber in the same sequence that
  have not ended are one enrollment, on a step of an existing revision.\<close>

theorem one_active_enrollment:
  assumes "legal_history (sequence_repository_step mailbox) seq_legal ops None"
    and "s = seq_value (history (sequence_repository_step mailbox) ops None)"
    and "e \<in> set (sq_enrollments s)" "e' \<in> set (sq_enrollments s)"
    and "\<not> enrollmentIsTerminal (en_status e)" "\<not> enrollmentIsTerminal (en_status e')"
    and "en_sequenceId e = en_sequenceId e'" "en_subscriberId e = en_subscriberId e'"
  shows "e = e' \<and> positioned (sq_definitions s) e"
proof -
  have "seq_file_wf mailbox (history (sequence_repository_step mailbox) ops None)"
    by (rule sequence_system.history_wf [OF _ assms(1)])
      (simp add: seq_file_wf_def seq_value_def seq_wf_def definitions_fine_def enrollments_fine_def
        one_active_def workers_fine_def)
  then have fine: "enrollments_fine (sq_definitions s) (sq_enrollments s)"
    using assms(2) by (simp add: seq_file_wf_def seq_wf_def)
  then have "one_active (sq_enrollments s)" by (simp add: enrollments_fine_def)
  then have "en_id e = en_id e'"
    using assms(3-8) unfolding one_active_def active_def same_subscription_def by blast
  then have "e = e'"
    using fine assms(3,4) distinct_key_inj [of en_id "sq_enrollments s" e e']
    unfolding enrollments_fine_def by blast
  then show ?thesis
    using fine assms(3) unfolding enrollments_fine_def enrollment_fine_def by blast
qed

lemma sample_value: "seq_value (history (sequence_repository_step any_mailbox) sample_ops None) = sample_store"
  by (simp add: sample_ops_result seq_value_def)

lemma one_active_enrollment_witness:
  "sample_enrollment = sample_enrollment \<and> positioned (sq_definitions sample_store) sample_enrollment"
proof (rule one_active_enrollment [OF sample_ops_legal sample_value [symmetric]])
  show "sample_enrollment \<in> set (sq_enrollments sample_store)"
    "sample_enrollment \<in> set (sq_enrollments sample_store)"
    by (simp_all add: sample_store_def)
  show "\<not> enrollmentIsTerminal (en_status sample_enrollment)"
    "\<not> enrollmentIsTerminal (en_status sample_enrollment)" by code_simp+
qed simp_all

text \<open>C13: A leased enrollment is handed to nobody else: until its lease expires, whatever
  other workers claim and complete, the lease stays and no claim hands the enrollment
  out again.\<close>

theorem sequence_lease_exclusive:
  assumes "queue_ok s" "sequence_lease s i = Some (t, e)"
    and "list_all (sequence_queue.others_before e i t) es"
  shows "sequence_lease (sequence_queue.run es s) i = Some (t, e) \<and> i \<notin> sequence_queue.handed es s"
  by (rule sequence_queue.lease_exclusive [OF assms])

definition sample_claim :: claim_due_options where
  "sample_claim = \<lparr>cd_limit = 10, cd_now = 1000, cd_leaseMs = 90000, cd_tokens = (\<lambda>n. ''token'')\<rparr>"

lemma sample_queue_ok: "queue_ok sample_store"
  using sample_store_wf by (rule seq_wf_queue_ok)

lemma sample_claimed:
  "snd (sequence_claim sample_claim sample_store) = [''e'']"
  "sequence_lease (fst (sequence_claim sample_claim sample_store)) ''e'' = Some (''token'', 91000)"
  by code_simp+

lemma sequence_lease_exclusive_witness:
  "''e'' \<notin> sequence_queue.handed [QueueClaim (sample_claim\<lparr>cd_now := 90999\<rparr>), QueueComplete ''e'' ''stale'' sample_enrollment]
     (fst (sequence_claim sample_claim sample_store))"
  using sequence_lease_exclusive [OF sequence_queue.claim_ok [OF sample_queue_ok] sample_claimed(2),
      of "[QueueClaim (sample_claim\<lparr>cd_now := 90999\<rparr>), QueueComplete ''e'' ''stale'' sample_enrollment]"]
  by (simp add: sample_claim_def)

text \<open>A claim respects its limit, hands out distinct enrollments, and two claims less
  than a lease apart hand out disjoint ones.\<close>

theorem sequence_claims_disjoint:
  assumes "queue_ok s" "cd_now r2 < cd_now r1 + cd_leaseMs r1"
  shows "distinct (snd (sequence_claim r1 s)) \<and> length (snd (sequence_claim r1 s)) \<le> nat (cd_limit r1) \<and>
    set (snd (sequence_claim r1 s)) \<inter> set (snd (sequence_claim r2 (fst (sequence_claim r1 s)))) = {}"
  using sequence_queue.claim_distinct [OF assms(1)] sequence_queue.claim_limit [OF assms(1)]
    sequence_queue.claims_disjoint [OF assms] by blast

lemma sequence_claims_disjoint_witness:
  "set (snd (sequence_claim sample_claim sample_store)) \<inter>
     set (snd (sequence_claim (sample_claim\<lparr>cd_now := 2000\<rparr>) (fst (sequence_claim sample_claim sample_store)))) = {}"
  using sequence_claims_disjoint [OF sample_queue_ok, of "sample_claim\<lparr>cd_now := 2000\<rparr>" sample_claim]
  by (simp add: sample_claim_def)

text \<open>A stale worker cannot overwrite: completing a claim whose token is no longer the
  stored lease fails with a conflict and leaves the file as it was.\<close>

theorem stale_completion_refused:
  assumes "seq_file_wf mailbox f" "x \<in> set (sq_enrollments (seq_value f))" "en_id x = en_id e"
    and "en_leaseToken x = None \<or> en_leaseToken x \<noteq> en_leaseToken e"
  shows "sequence_repository_step mailbox (io_fine, CompleteClaim e nxt) f =
    (f, Inl (CallbackFailed (SeqConflict (''Sequence enrollment lease was lost: '' @ en_id e))))"
proof -
  have "List.find (\<lambda>c. en_id c = en_id e) (sq_enrollments (seq_value f)) = Some x"
    using assms find_key_distinct [of en_id "sq_enrollments (seq_value f)" x]
    by (simp add: seq_file_wf_def seq_wf_def enrollments_fine_def)
  then have up: "sequence_callback mailbox (CompleteClaim e nxt) (seq_value f) =
      Inl (SeqConflict (''Sequence enrollment lease was lost: '' @ en_id e))"
    using assms(4) by (auto simp: sequence_callback_def with_result_def completeClaim_def getFileEnrollment_def)
  have "readJsonFileStore (createSequenceStore mailbox) io_fine f =
      (Inr (seq_value f) :: seq_error store_failure + seq_store)"
    using parse_wf_store [of mailbox "seq_value f"] assms(1)
    by (cases f) (auto simp: seq_file_wf_def seq_value_def createSequenceStore_def io_fine_def)
  then show ?thesis
    using up by (simp add: sequence_repository_step_def json_store_defs)
qed

lemma stale_completion_refused_witness:
  "sequence_repository_step any_mailbox (io_fine, CompleteClaim (sample_enrollment\<lparr>en_leaseToken := Some ''old''\<rparr>) sample_enrollment) (Some sample_store) =
    (Some sample_store, Inl (CallbackFailed (SeqConflict (''Sequence enrollment lease was lost: '' @ ''e''))))"
  using stale_completion_refused [of any_mailbox "Some sample_store" sample_enrollment
      "sample_enrollment\<lparr>en_leaseToken := Some ''old''\<rparr>" sample_enrollment] sample_store_wf
  by (simp add: seq_file_wf_def seq_value_def sample_store_def sample_enrollment_def)

subsection \<open>The engine\<close>

definition sample_sequence_ctx :: "(tx_document option, io_env) sequence_context" where
  "sample_sequence_ctx = \<lparr>sx_idempotencyStore = createFileBackedTransactionalIdempotencyStore,
     sx_hashPayload = (\<lambda>s. s), sx_target = (None, None), sx_mailbox = any_mailbox,
     sx_failure = (\<lambda>e. ThrownValue ''store'')\<rparr>"

definition sample_env :: "io_env send_env" where
  "sample_env = \<lparr>se_subscriber = SubscriberThrown (ThrownError (JsError ''down'' None (Some ''ECONNREFUSED'') None)),
     se_reply = acknowledged, se_io = (io_fine, io_fine), se_now = (1, 2), se_token = ''tok'', se_jitter = Num 0\<rparr>"

definition paused_enrollment :: seq_enrollment where
  "paused_enrollment = sample_enrollment\<lparr>en_currentStepId := ''pause''\<rparr>"

definition sample_claimed :: "seq_enrollment \<Rightarrow> claimed_enrollment" where
  "sample_claimed e = claim_on sample_definition sample_revision e"

lemma sample_claim_sound:
  assumes "e \<in> {sample_enrollment, paused_enrollment}"
  shows "claim_sound [sample_definition] (sample_claimed e)"
proof -
  have "topology_ok (rev_steps sample_revision)"
    using sample_steps_topology by (simp add: sample_revision_def)
  then show ?thesis
    using assms by (auto simp: claim_sound_def sample_claimed_def sample_definition_def sample_revision_def
        sample_enrollment_def paused_enrollment_def sample_steps_def)
qed

definition leased_sample :: seq_enrollment where
  "leased_sample = leased_enrollment 900 90000 ''token'' sample_enrollment"

definition leased_store :: seq_store where
  "leased_store = sample_store\<lparr>sq_enrollments := [leased_sample]\<rparr>"

lemma leased_sample_valid: "valid_enrollment leased_sample"
  by code_simp

lemma leased_sample_fine: "enrollment_fine [sample_definition] leased_sample"
proof -
  show ?thesis
    using sample_enrollment_fine leased_sample_valid
    by (simp add: enrollment_fine_def lease_pair_def positioned_def leased_sample_def leased_enrollment_def)
qed

lemma leased_store_wf: "seq_file_wf any_mailbox (Some leased_store)"
  using sample_store_wf leased_sample_fine
  by (simp add: seq_file_wf_def seq_value_def seq_wf_def leased_store_def sample_store_def enrollments_fine_def
      one_active_def)

lemma leased_claim:
  "claims_match leased_store [sample_claimed leased_sample]" "held_by leased_store (sample_claimed leased_sample)"
proof -
  have "claim_sound [sample_definition] (claim_on sample_definition sample_revision leased_sample)"
    using sample_claim_sound [of sample_enrollment] by (simp add: leased_sound leased_sample_def sample_claimed_def)
  then show "claims_match leased_store [sample_claimed leased_sample]"
    by (simp add: claims_match_def leased_store_def sample_store_def sample_claimed_def same_subscription_def)
  show "held_by leased_store (sample_claimed leased_sample)"
    by (simp add: held_by_def leased_store_def sample_claimed_def cl_id_def leased_sample_def leased_enrollment_def)
qed

text \<open>C14: Executing a claim makes progress that reaches the store.  A worker that still
  holds the lease of an enrollment, whose definition is as it was claimed, executes it
  without input/output faults, at an instant a year or more before the year 10000:
  then the engine's next enrollment - of the same subscription, unleased, and further on
  in its revision, or retrying the same step with one more attempt and a bounded delay,
  or stopped - is stored in its place and its status returned, whatever Listmonk
  answers.  There is one exception, in which the store is left as it was and the
  execution fails: the 24th attempt at a send step failed with a message that, with the
  engine's prefix, is longer than the 1000 characters the store allows.\<close>

theorem execution_makes_progress:
  assumes "seq_file_wf (sx_mailbox ctx) f" "claims_match (seq_value f) [cl]" "held_by (seq_value f) cl"
    and "valid_enrollment (cl_enrollment cl)" "year_left now"
  shows "\<exists>d' n. next_enrollment ctx env cl now d = (d', Inr n) \<and>
    step_outcome now (cl_revision cl) (cl_enrollment cl) n \<and>
    executeClaimedEnrollment ctx env io_fine cl now (f, d) =
      (if attempts_exhausted (cl_enrollment cl) n
       then ((f, d'), Inl (RepositoryFailed (CallbackFailed SeqSchemaError)))
       else ((Some (completed_store (seq_value f) n), d'), Inr (en_status n)))"
  by (rule execution_completes [OF assms])

lemma execution_makes_progress_witness:
  "\<exists>d' n. step_outcome 1000 sample_revision leased_sample n \<and>
    executeClaimedEnrollment sample_sequence_ctx sample_env io_fine (sample_claimed leased_sample) 1000
      (Some leased_store, None) = ((Some (completed_store leased_store n), d'), Inr (en_status n))"
proof -
  have "seq_file_wf (sx_mailbox sample_sequence_ctx) (Some leased_store)"
    using leased_store_wf by (simp add: sample_sequence_ctx_def)
  moreover have "year_left 1000" by (simp add: year_left_def iso_ok_def)
  moreover have "en_retryCount leased_sample = 0"
    by (simp add: leased_sample_def leased_enrollment_def sample_enrollment_def)
  ultimately show ?thesis
    using execution_makes_progress [of sample_sequence_ctx "Some leased_store" "sample_claimed leased_sample" 1000
        sample_env None] leased_claim leased_sample_valid
    by (auto simp: seq_value_def sample_claimed_def attempts_exhausted_def SEQUENCE_RETRY_MAX_ATTEMPTS_def)
qed

text \<open>C23: An enrollment ends: whatever the answers of Listmonk, the instants and the
  leases, at most 24 executions for every step of its revision store an outcome, for
  each of them uses up an attempt, moves on, or ends the enrollment.  (An execution
  that stores nothing is not counted: its lease was lost, the file system failed, or
  the store refused the outcome, which \<open>execution_makes_progress\<close> and
  \<open>last_retry_rejected\<close> describe.)\<close>

theorem executions_bounded:
  assumes "execution_path ctx d r n e e'" "claim_sound defs (claim_on d r e)"
    and "valid_definition mailbox d"
  shows "n \<le> 24 * length (rev_steps r)"
  by (rule path_bound [OF assms])

definition paused_store :: seq_store where
  "paused_store = sample_store\<lparr>sq_enrollments := [paused_enrollment]\<rparr>"

definition paused_execution :: "(seq_store option \<times> tx_document option) \<times> (execute_error + enrollment_status)" where
  "paused_execution = executeClaimedEnrollment sample_sequence_ctx sample_env io_fine
     (claim_on sample_definition sample_revision (leased_enrollment 900 90000 ''token'' paused_enrollment)) 1000
     (Some (paused_store\<lparr>sq_enrollments := [leased_enrollment 900 90000 ''token'' paused_enrollment]\<rparr>), None)"

lemma paused_executed:
  "snd paused_execution = Inr EnrWaiting"
  "\<exists>e. List.find (\<lambda>x. en_id x = en_id paused_enrollment) (sq_enrollments (seq_value (fst (fst paused_execution)))) = Some e"
proof -
  show "snd paused_execution = Inr EnrWaiting" by code_simp
  have "map en_id (sq_enrollments (seq_value (fst (fst paused_execution)))) = [''e'']" by code_simp
  then show "\<exists>e. List.find (\<lambda>x. en_id x = en_id paused_enrollment)
      (sq_enrollments (seq_value (fst (fst paused_execution)))) = Some e"
    by (auto simp: paused_enrollment_def sample_enrollment_def)
qed

lemma executions_bounded_witness:
  "\<exists>e. execution_path sample_sequence_ctx sample_definition sample_revision (Suc 0) paused_enrollment e \<and>
     Suc 0 \<le> 24 * length (rev_steps sample_revision)"
proof -
  obtain e where e: "List.find (\<lambda>x. en_id x = en_id paused_enrollment)
      (sq_enrollments (seq_value (fst (fst paused_execution)))) = Some e"
    using paused_executed(2) by blast
  have run: "runnable_status (en_status paused_enrollment)" by code_simp
  have stored: "outcome_stored (snd paused_execution)" using paused_executed(1) by (simp add: outcome_stored_def)
  have "paused_execution = ((fst (fst paused_execution), snd (fst paused_execution)), snd paused_execution)"
    by simp
  from path_step [OF path_none run this [unfolded paused_execution_def] stored [unfolded paused_execution_def] e [unfolded paused_execution_def]]
  have path: "execution_path sample_sequence_ctx sample_definition sample_revision (Suc 0) paused_enrollment e" .
  show ?thesis
    using executions_bounded [OF path] sample_claim_sound [of paused_enrollment] path sample_definition_valid
    unfolding sample_claimed_def by blast
qed

text \<open>The retry delay is bounded whatever the jitter: at least 2.5 seconds, at most five
  minutes, also when the jitter source returns a value out of range or not a number.\<close>

theorem retry_delay_in_bounds:
  assumes "1 \<le> n"
  shows "2500 \<le> retry_delay n j \<and> retry_delay n j \<le> SEQUENCE_RETRY_MAX_DELAY_MS"
  by (rule retry_delay_bounds [OF assms])

lemma retry_delay_in_bounds_witness: "2500 \<le> retry_delay 30 NotANumber \<and> retry_delay 30 NotANumber \<le> 300000"
  using retry_delay_in_bounds [of 30 NotANumber] by (simp add: SEQUENCE_RETRY_MAX_DELAY_MS_def)

text \<open>The summary of a tick accounts for every claim: the claimed enrollments are the
  advanced, waiting, completed, failed, ambiguous and cancelled ones together.\<close>

theorem tick_accounts_for_claims:
  assumes "runSequenceTick ctx envs io tokens options now stores = (stores', Inr summary)"
  shows "tk_claimed summary =
    tk_advanced summary + tk_waiting summary + tk_completed summary + tk_failed summary +
    tk_ambiguous summary + tk_cancelled summary"
  using tick_accounts [OF assms] by (simp add: summary_total_def)

definition sample_tick :: "(seq_store option \<times> tx_document option) \<times> (tick_error + tick_summary)" where
  "sample_tick = runSequenceTick sample_sequence_ctx (\<lambda>n. (sample_env, io_fine)) io_fine (\<lambda>n. ''token'')
     \<lparr>to_limit = None, to_leaseMs = None\<rparr> 1000 (Some paused_store, None)"

lemma sample_tick_summary:
  "snd sample_tick = Inr ((empty_summary 1 1000)\<lparr>tk_waiting := 1\<rparr>)"
  by code_simp

lemma tick_accounts_for_claims_witness:
  "\<exists>summary. snd sample_tick = Inr summary \<and> tk_claimed summary = 1 \<and>
     1 = tk_advanced summary + tk_waiting summary + tk_completed summary + tk_failed summary +
         tk_ambiguous summary + tk_cancelled summary"
proof -
  obtain stores' where "sample_tick = (stores', Inr ((empty_summary 1 1000)\<lparr>tk_waiting := 1\<rparr>))"
    using sample_tick_summary by (metis prod.collapse)
  from tick_accounts_for_claims [OF this [unfolded sample_tick_def]] sample_tick_summary
  show ?thesis by (simp add: empty_summary_def)
qed

text \<open>A tick keeps the sequence document valid, whatever fails while it runs.\<close>

theorem tick_keeps_document:
  assumes "seq_file_wf (sx_mailbox ctx) (fst stores)"
  shows "seq_file_wf (sx_mailbox ctx) (fst (fst (runSequenceTick ctx envs io tokens options now stores)))"
  by (rule tick_wf [OF assms])

lemma paused_store_wf: "seq_wf any_mailbox paused_store"
proof -
  have "valid_enrollment paused_enrollment" by code_simp
  moreover have "lease_pair paused_enrollment" "positioned [sample_definition] paused_enrollment"
    by (simp_all add: lease_pair_def positioned_def sample_enrollment_def paused_enrollment_def
        sample_definition_def sample_revision_def sample_steps_def)
  ultimately show ?thesis
    using sample_store_wf
    by (simp add: seq_wf_def paused_store_def sample_store_def enrollments_fine_def enrollment_fine_def one_active_def)
qed

lemma tick_keeps_document_witness: "seq_file_wf any_mailbox (fst (fst sample_tick))"
  using tick_keeps_document [of sample_sequence_ctx "(Some paused_store, None)"] paused_store_wf
  by (simp add: sample_tick_def sample_sequence_ctx_def seq_file_wf_def seq_value_def)

text \<open>An ambiguous delivery is never retried by the engine: when the send reports that
  the message may have been sent, the enrollment becomes ambiguous on the same step and
  no later claim takes it, while a send still pending elsewhere is retried.\<close>

theorem ambiguous_never_claimed:
  assumes "st \<noteq> SendPending"
  shows "en_status (handle_send_error ctx env e now (SendError (SendReconcileError k st m))) = EnrAmbiguous \<and>
    en_currentStepId (handle_send_error ctx env e now (SendError (SendReconcileError k st m))) = en_currentStepId e \<and>
    \<not> claimable t (handle_send_error ctx env e now (SendError (SendReconcileError k st m)))"
  using assms by (simp add: handle_send_error_def Let_def withoutLease_def claimable_def runnable_status_def)

lemma ambiguous_never_claimed_witness:
  "\<not> claimable 5000 (handle_send_error sample_sequence_ctx sample_env sample_enrollment 1000
      (SendError (SendReconcileError ''k'' SendUnknown ''timeout'')))"
  using ambiguous_never_claimed [of SendUnknown sample_sequence_ctx sample_env sample_enrollment 1000 "''k''" "''timeout''" 5000]
  by simp

text \<open>The last retry can be lost: when the 24th attempt fails with a message of 947 or
  more characters, the enrollment the engine writes does not parse (its prefixed error
  exceeds the 1000 characters of the schema), so completing the claim throws.\<close>

theorem last_retry_rejected:
  assumes "en_retryCount e = 23" "947 \<le> length (thrown_message err)"
  shows "parseSequenceEnrollment (retryEnrollment e now err jitter) = Inl SeqSchemaError"
  by (rule last_retry_unparsable [OF assms])

lemma last_retry_rejected_witness:
  "parseSequenceEnrollment (retryEnrollment (sample_enrollment\<lparr>en_retryCount := 23\<rparr>) 1000
     (ThrownValue (replicate 950 CHR ''x'')) (Num 0)) = Inl SeqSchemaError"
  by (rule last_retry_rejected) simp_all

text \<open>Reconciliation respects the idempotency record: an ambiguous enrollment is resolved
  only when the record of its message exists and is not in flight, never as not sent
  when Listmonk accepted the message, and never as sent when Listmonk rejected it.\<close>

theorem reconcile_respects_record:
  assumes "reconcileAmbiguousSequenceEnrollment ctx io io_load io_settle i res now stores = (stores', Inr resolved)"
  shows "\<exists>document r e. st_load (sx_idempotencyStore ctx) io_load (snd stores) = Inr document \<and>
    en_status e = EnrAmbiguous \<and> map_of (tx_records document) (deterministicSendKey e) = Some r \<and>
    tx_status r \<noteq> SendPending \<and> \<not> (tx_status r = SendAccepted \<and> res = ResolvedNotSent) \<and>
    \<not> (tx_status r = SendFailed \<and> res = ResolvedSent)"
proof -
  obtain s where read: "readJsonFileStore (createSequenceStore (sx_mailbox ctx)) io (fst stores) =
      (Inr s :: seq_error store_failure + seq_store)"
    using assms by (auto simp: reconcileAmbiguousSequenceEnrollment_def split: sum.splits)
  obtain e rev step where plan: "reconcile_plan s i = Inr (e, rev, step)"
    using assms read by (auto simp: reconcileAmbiguousSequenceEnrollment_def split: sum.splits)
  have amb: "en_status e = EnrAmbiguous"
    using plan by (auto simp: reconcile_plan_def split: sum.splits option.splits if_splits)
  obtain document where load: "st_load (sx_idempotencyStore ctx) io_load (snd stores) = Inr document"
    using assms read plan by (auto simp: reconcileAmbiguousSequenceEnrollment_def Let_def split: sum.splits)
  have "reconcile_refusal (deterministicSendKey e) (map_of (tx_records document) (deterministicSendKey e)) res = None"
    using assms read plan load
    by (auto simp: reconcileAmbiguousSequenceEnrollment_def Let_def split: option.splits)
  then show ?thesis
    using load amb by (cases res) (auto simp: reconcile_refusal_def split: option.splits if_splits)
qed

definition ambiguous_store :: seq_store where
  "ambiguous_store = sample_store\<lparr>sq_enrollments := [sample_enrollment\<lparr>en_status := EnrAmbiguous\<rparr>]\<rparr>"

definition unknown_record :: send_record where
  "unknown_record = \<lparr>tx_key = deterministicSendKey sample_enrollment, tx_payloadHash = ''p'', tx_targetHash = ''t'',
     tx_status = SendUnknown, tx_sent = None, tx_errorMessage = None, tx_claimToken = ''tok'',
     tx_createdAt = 0, tx_updatedAt = 0, tx_expiresAt = 90000\<rparr>"

definition sample_reconcile :: "(seq_store option \<times> tx_document option) \<times> (reconcile_error + seq_enrollment)" where
  "sample_reconcile = reconcileAmbiguousSequenceEnrollment sample_sequence_ctx io_fine io_fine io_fine ''e'' ResolvedSent 1000
     (Some ambiguous_store, Some \<lparr>tx_version = 1, tx_records = [(deterministicSendKey sample_enrollment, unknown_record)]\<rparr>)"

lemma sample_reconcile_ok: "is_ok (snd sample_reconcile)"
  by code_simp

lemma reconcile_respects_record_witness:
  "\<exists>resolved (document :: tx_document) r e. snd sample_reconcile = Inr resolved \<and>
    en_status e = EnrAmbiguous \<and> map_of (tx_records document) (deterministicSendKey e) = Some r \<and>
    tx_status r \<noteq> SendPending"
proof -
  obtain stores' resolved where run: "sample_reconcile = (stores', Inr resolved)"
    using sample_reconcile_ok unfolding is_ok_iff by (metis prod.collapse)
  moreover have "snd sample_reconcile = Inr resolved" by (simp add: run)
  ultimately show ?thesis
    using reconcile_respects_record [OF run [unfolded sample_reconcile_def]] by blast
qed

subsection \<open>Messages\<close>

text \<open>The idempotency key of a sequence message identifies the enrollment, its revision
  and the step: two enrollments whose identifiers hold no colon have the same key only
  for the same enrollment, revision and step.\<close>

theorem send_keys_unique:
  assumes "CHR '':'' \<notin> set (en_id e)" "CHR '':'' \<notin> set (en_id e')" "en_revision e > 0" "en_revision e' > 0"
    and "deterministicSendKey e = deterministicSendKey e'"
  shows "en_id e = en_id e' \<and> en_revision e = en_revision e' \<and> en_currentStepId e = en_currentStepId e'"
  by (rule send_key_inj [OF assms])

lemma send_keys_unique_witness:
  "en_currentStepId sample_enrollment = en_currentStepId (sample_enrollment\<lparr>en_retryCount := 3\<rparr>)"
  using send_keys_unique [of sample_enrollment "sample_enrollment\<lparr>en_retryCount := 3\<rparr>"]
  by (simp add: sample_enrollment_def deterministicSendKey_def)

text \<open>A step of an enrollment is delivered at most once per time to live: however many
  times workers send it through the file-backed store, whatever the faults and
  Listmonk's answers, at most one of the sends was processed by Listmonk.\<close>

theorem sequence_step_delivered_once:
  assumes "file_ok d" "hi \<le> lo + DEFAULT_TRANSACTIONAL_TTL_MS"
    and "list_all (send_request_ok createFileBackedTransactionalIdempotencyStore lo hi) rqs"
  shows "deliveries (deterministicSendKey e) rqs d \<le> 1"
  by (rule file_store.sends_deliver_once [OF assms])

definition sample_request :: "instant \<Rightarrow> (tx_document option, io_env) send_request" where
  "sample_request t = \<lparr>rq_context = transactional_context sample_sequence_ctx, rq_io = (io_fine, io_fine),
     rq_now = (t, t), rq_token = ''tok'', rq_reply = acknowledged, rq_delivered = True,
     rq_input = sequence_message sample_enrollment (hd sample_steps) sample_send None\<rparr>"

lemma sequence_step_delivered_once_witness:
  "deliveries (deterministicSendKey sample_enrollment) [sample_request 1, sample_request 5] None \<le> 1"
proof (rule sequence_step_delivered_once [OF no_file_ok, of 1000 0])
  have "faithful_reply acknowledged True"
    by (simp add: faithful_reply_def dispatchToListmonk_def acknowledged_def unwrapData_def)
  then show "list_all (send_request_ok createFileBackedTransactionalIdempotencyStore 0 1000)
      [sample_request 1, sample_request 5]"
    by (simp add: send_request_ok_def sample_request_def transactional_context_def sample_sequence_ctx_def
        sequence_message_def)
qed (simp add: DEFAULT_TRANSACTIONAL_TTL_MS_def)

text \<open>The send operation run to its end refines the step relation of the concurrent
  senders: its effect on the store and on the deliveries is one of the interleavings
  (claim, dispatch, settlement) whose invariant gives the at-most-once guarantee.\<close>

theorem send_refines_steps:
  assumes "si_idempotency_key input = Some k" "sc_idempotencyStore ctx = Some store"
    and "lo \<le> fst now" "fst now \<le> hi" "lo \<le> snd now" "snd now \<le> hi"
    and "faithful_reply reply delivered" "sy_procs s pid = None"
    and "sendTransactionalMessage ctx io now tok reply input (sy_store s) = (d', disp, out)"
  shows "(send_step store lo hi)\<^sup>*\<^sup>* s
    (s\<lparr>sy_store := d', sy_delivered := (sy_delivered s)(k := sy_delivered s k + of_bool (disp \<and> delivered))\<rparr>)"
  by (rule send_is_path [OF assms])

lemma send_refines_steps_witness:
  "\<exists>d. (send_step createFileBackedTransactionalIdempotencyStore 0 1000)\<^sup>*\<^sup>* (idle_system None)
     ((idle_system None)\<lparr>sy_store := d, sy_delivered := (\<lambda>_. 0)(''k'' := 1)\<rparr>)"
proof -
  obtain d r where send: "sendTransactionalMessage sample_ctx fine_pair (1, 2) ''tok'' acknowledged sample_input None =
     (d, True, snd (conclude ''k'' r acknowledged))" using sample_first by blast
  have faith: "faithful_reply acknowledged True"
    by (simp add: faithful_reply_def dispatchToListmonk_def acknowledged_def unwrapData_def)
  have "sendTransactionalMessage sample_ctx fine_pair (1, 2) ''tok'' acknowledged sample_input (sy_store (idle_system None)) =
     (d, True, snd (conclude ''k'' r acknowledged))"
    using send by (simp add: idle_system_def)
  from send_refines_steps [OF sample_facts(2,1) _ _ _ _ faith _ this, of 0 1000 0]
  show ?thesis by (auto simp: idle_system_def)
qed

end
