(* ===== verification/Network_Policy.thy ===== *)
theory Network_Policy
  imports Ops_Prelude "HOL-Library.Word"
begin

unbundle bit_operations_syntax

section \<open>Which hosts may be fetched\<close>

text \<open>
  The address policy of \<^verbatim>\<open>packages/automation/src/campaign.ts\<close> (\<open>isPrivateHost\<close> and
  \<open>isSafeFetchUrl\<close>), which the link checker and the webhook transport consult before
  every request: literal addresses outside the public ranges are refused.  IPv4
  addresses are 32-bit words; the source's big integers for IPv6 are integers.
  The URL parser is the platform's: \<open>url_parser\<close> gives the parts of a valid URL.
\<close>

subsection \<open>IPv4\<close>

definition NON_PUBLIC_IPV4_RANGES :: "(32 word \<times> nat) list" where
  "NON_PUBLIC_IPV4_RANGES =
     [(0x00000000, 8), (0x0a000000, 8), (0x64400000, 10), (0x7f000000, 8), (0xa9fe0000, 16),
      (0xac100000, 12), (0xc0000000, 24), (0xc0000200, 24), (0xc0586300, 24), (0xc0a80000, 16),
      (0xc6120000, 15), (0xc6336400, 24), (0xcb007100, 24), (0xe0000000, 4), (0xf0000000, 4)]"

definition is_digit :: "char \<Rightarrow> bool" where
  "is_digit c = (48 \<le> (of_char c :: nat) \<and> (of_char c :: nat) \<le> 57)"

text \<open>\<open>/^(?:0|[1-9]\d{0,2})$/\<close>\<close>

definition octet_text :: "string \<Rightarrow> bool" where
  "octet_text p =
     (p = ''0'' \<or> (1 \<le> length p \<and> length p \<le> 3 \<and> list_all is_digit p \<and> hd p \<noteq> CHR ''0''))"

definition ipv4_word :: "nat \<Rightarrow> nat \<Rightarrow> nat \<Rightarrow> nat \<Rightarrow> 32 word" where
  "ipv4_word a b c d =
     push_bit 24 (of_nat a) OR push_bit 16 (of_nat b) OR push_bit 8 (of_nat c) OR of_nat d"

definition parseIpv4Address :: "string \<Rightarrow> 32 word option" where
  "parseIpv4Address value =
     (let parts = split_at CHR ''.'' value
      in if length parts \<noteq> 4 \<or> list_ex (\<lambda>p. \<not> octet_text p) parts then None
         else let octets = map nat_value parts
              in if list_ex (\<lambda>n. n > 255) octets then None
                 else Some (ipv4_word (octets ! 0) (octets ! 1) (octets ! 2) (octets ! 3)))"

definition ipv4_mask :: "nat \<Rightarrow> 32 word" where
  "ipv4_mask prefixLength =
     (if prefixLength = 0 then 0 else push_bit (32 - prefixLength) 0xffffffff)"

definition isIpv4InRange :: "32 word \<Rightarrow> 32 word \<times> nat \<Rightarrow> bool" where
  "isIpv4InRange address r =
     ((address AND ipv4_mask (snd r)) = (fst r AND ipv4_mask (snd r)))"

definition isPublicIpv4 :: "32 word \<Rightarrow> bool" where
  "isPublicIpv4 address = (\<not> list_ex (isIpv4InRange address) NON_PUBLIC_IPV4_RANGES)"

subsection \<open>IPv6\<close>

definition is_hex :: "char \<Rightarrow> bool" where
  "is_hex c = (is_digit c \<or> (97 \<le> (of_char c :: nat) \<and> (of_char c :: nat) \<le> 102))"

definition hex_value_of :: "char \<Rightarrow> int" where
  "hex_value_of c = (if is_digit c then of_char c - 48 else of_char c - 87)"

definition hex_value :: "string \<Rightarrow> int" where
  "hex_value s = foldl (\<lambda>a c. 16 * a + hex_value_of c) 0 s"

definition hex_char :: "nat \<Rightarrow> char" where
  "hex_char n = (if n < 10 then char_of (48 + n) else char_of (87 + n))"

fun hex_string :: "nat \<Rightarrow> string" where
  "hex_string n = (if n < 16 then [hex_char n] else hex_string (n div 16) @ [hex_char (n mod 16)])"

declare hex_string.simps [simp del]

text \<open>\<open>split("::")\<close>\<close>

fun split_double_colon :: "string \<Rightarrow> string list" where
  "split_double_colon [] = [[]]"
| "split_double_colon (c # cs) =
     (if c = CHR '':'' \<and> cs \<noteq> [] \<and> hd cs = CHR '':'' then [] # split_double_colon (tl cs)
      else case split_double_colon cs of [] \<Rightarrow> [[c]] | w # ws \<Rightarrow> (c # w) # ws)"

definition after_last_colon :: "string \<Rightarrow> string" where
  "after_last_colon s = rev (takeWhile (\<lambda>c. c \<noteq> CHR '':'') (rev s))"

text \<open>\<open>/(?:^|:)(\d+\.\d+\.\d+\.\d+)$/\<close>\<close>

definition ipv4_tail :: "string \<Rightarrow> string option" where
  "ipv4_tail s =
     (let t = after_last_colon s; parts = split_at CHR ''.'' t
      in if length parts = 4 \<and> list_all (\<lambda>p. p \<noteq> [] \<and> list_all is_digit p) parts then Some t else None)"

definition ipv6_parts :: "string \<Rightarrow> string list option" where
  "ipv6_parts normalized =
     (let halves = split_double_colon normalized
      in if length halves > 2 then None
         else let left = (if halves ! 0 = [] then [] else split_at CHR '':'' (halves ! 0));
                  right = (if length halves < 2 \<or> halves ! 1 = [] then [] else split_at CHR '':'' (halves ! 1));
                  missing = 8 - int (length left) - int (length right)
              in if (length halves = 1 \<and> missing \<noteq> 0) \<or> (length halves = 2 \<and> missing < 1) then None
                 else let parts = left @ replicate (nat missing) ''0'' @ right
                      in if length parts \<noteq> 8 \<or>
                            list_ex (\<lambda>p. \<not> (1 \<le> length p \<and> length p \<le> 4 \<and> list_all is_hex p)) parts
                         then None else Some parts)"

definition ipv6_number :: "string list \<Rightarrow> int" where
  "ipv6_number parts = foldl (\<lambda>r p. r * 2 ^ 16 + hex_value p) 0 parts"

definition parseIpv6Address :: "string \<Rightarrow> int option" where
  "parseIpv6Address value =
     (let normalized = takeWhile (\<lambda>c. c \<noteq> CHR ''%'') (toLowerCase value)
      in case ipv4_tail normalized of
           None \<Rightarrow> map_option ipv6_number (ipv6_parts normalized)
         | Some t \<Rightarrow>
             (case parseIpv4Address t of
                None \<Rightarrow> None
              | Some ipv4 \<Rightarrow>
                  map_option ipv6_number
                    (ipv6_parts (take (length normalized - length t) normalized @
                       hex_string (unat (drop_bit 16 ipv4)) @ '':'' @ hex_string (unat (ipv4 AND 0xffff))))))"

definition isIpv6InRange :: "int \<Rightarrow> int \<Rightarrow> nat \<Rightarrow> bool" where
  "isIpv6InRange address network prefixLength =
     (address div 2 ^ (128 - prefixLength) = network div 2 ^ (128 - prefixLength))"

definition nonPublicIpv6Ranges :: "(int \<times> nat) list" where
  "nonPublicIpv6Ranges =
     [(0x20010000000000000000000000000000, 23), (0x20010db8000000000000000000000000, 32),
      (0x20020000000000000000000000000000, 16), (0x3fff0000000000000000000000000000, 20)]"

definition isPublicIpv6 :: "int \<Rightarrow> bool" where
  "isPublicIpv6 address =
     (if address div 2 ^ 32 = 0xffff then isPublicIpv4 (word_of_int (address mod 2 ^ 32))
      else if \<not> isIpv6InRange address 0x20000000000000000000000000000000 3 then False
      else \<not> list_ex (\<lambda>(network, prefixLength). isIpv6InRange address network prefixLength)
               nonPublicIpv6Ranges)"

subsection \<open>Hosts and URLs\<close>

definition strip_brackets :: "string \<Rightarrow> string" where
  "strip_brackets s =
     (let t = (if s \<noteq> [] \<and> hd s = CHR ''['' then tl s else s)
      in if t \<noteq> [] \<and> last t = CHR '']'' then butlast t else t)"

definition isPrivateHost :: "string \<Rightarrow> bool" where
  "isPrivateHost hostname =
     (let host = toLowerCase (strip_brackets hostname)
      in if host = ''localhost'' then True
         else case parseIpv4Address host of
                Some ipv4 \<Rightarrow> \<not> isPublicIpv4 ipv4
              | None \<Rightarrow>
                  (case parseIpv6Address host of
                     None \<Rightarrow> False
                   | Some ipv6 \<Rightarrow> \<not> isPublicIpv6 ipv6))"

record url_parts =
  url_protocol :: string
  url_hostname :: string
  url_username :: string
  url_password :: string
  url_search :: string
  url_hash :: string
  url_href :: string

type_synonym url_parser = "string \<Rightarrow> url_parts option"

definition isSafeFetchUrl :: "url_parser \<Rightarrow> string \<Rightarrow> string option" where
  "isSafeFetchUrl parse url =
     (case parse url of
        None \<Rightarrow> Some ''Invalid URL''
      | Some parsed \<Rightarrow>
          (if url_protocol parsed \<noteq> ''http:'' \<and> url_protocol parsed \<noteq> ''https:''
           then Some (''Protocol '' @ url_protocol parsed @ '' not allowed'')
           else if isPrivateHost (url_hostname parsed)
           then Some (''Host '' @ url_hostname parsed @ '' is private/internal'')
           else None))"

text \<open>
  The asynchronous check: \<open>lookup\<close> gives the addresses the resolver returns, \<open>None\<close>
  when the lookup fails, which the code lets pass.
\<close>

definition isSafeResolvedHost :: "(string \<Rightarrow> string list option) \<Rightarrow> string \<Rightarrow> string option" where
  "isSafeResolvedHost lookup hostname =
     (case lookup hostname of
        None \<Rightarrow> None
      | Some addresses \<Rightarrow>
          (case List.find isPrivateHost addresses of
             None \<Rightarrow> None
           | Some a \<Rightarrow> Some (''Host '' @ hostname @ '' resolves to private/internal address '' @ a)))"

definition isSafeFetchUrlAsync ::
  "url_parser \<Rightarrow> (string \<Rightarrow> string list option) \<Rightarrow> string \<Rightarrow> string option" where
  "isSafeFetchUrlAsync parse lookup url =
     (case isSafeFetchUrl parse url of
        Some reason \<Rightarrow> Some reason
      | None \<Rightarrow> (case parse url of None \<Rightarrow> None
                 | Some parsed \<Rightarrow> isSafeResolvedHost lookup (url_hostname parsed)))"

subsection \<open>What the policy refuses\<close>

text \<open>
  The range test on words is a test on the four octets: a dotted address is refused
  exactly when it is in one of the special-purpose blocks, written out as
  \<open>special_ipv4\<close>.
\<close>

lemma mask_drop:
  fixes x y :: "32 word"
  shows "(x AND push_bit k 0xffffffff) = (y AND push_bit k 0xffffffff) \<longleftrightarrow> drop_bit k x = drop_bit k y"
proof -
  have m: "(0xffffffff :: 32 word) = mask 32" by (simp add: mask_eq_exp_minus_1)
  show ?thesis
  proof
    assume eq: "(x AND push_bit k 0xffffffff) = (y AND push_bit k 0xffffffff)"
    show "drop_bit k x = drop_bit k y"
    proof (rule bit_word_eqI)
      fix n assume "n < LENGTH(32)"
      show "bit (drop_bit k x) n = bit (drop_bit k y) n"
      proof (cases "k + n < 32")
        case True
        then have "bit (x AND push_bit k 0xffffffff) (k + n) = bit x (k + n)"
          "bit (y AND push_bit k 0xffffffff) (k + n) = bit y (k + n)"
          by (simp_all add: m bit_simps)
        then show ?thesis using eq by (simp add: bit_simps)
      next
        case False
        then show ?thesis by (auto simp: bit_simps dest: bit_imp_le_length)
      qed
    qed
  next
    assume eq: "drop_bit k x = drop_bit k y"
    show "(x AND push_bit k 0xffffffff) = (y AND push_bit k 0xffffffff)"
    proof (rule bit_word_eqI)
      fix n assume n: "n < LENGTH(32)"
      show "bit (x AND push_bit k 0xffffffff) n = bit (y AND push_bit k 0xffffffff) n"
      proof (cases "k \<le> n")
        case True
        have "bit (drop_bit k x) (n - k) = bit (drop_bit k y) (n - k)" using eq by simp
        then show ?thesis using True by (simp add: bit_simps m)
      next
        case False
        then show ?thesis by (simp add: bit_simps)
      qed
    qed
  qed
qed

lemma range_div:
  assumes "0 < p" "p \<le> 32"
  shows "isIpv4InRange x (y, p) \<longleftrightarrow> unat x div 2 ^ (32 - p) = unat y div 2 ^ (32 - p)"
proof -
  have "isIpv4InRange x (y, p) \<longleftrightarrow> drop_bit (32 - p) x = drop_bit (32 - p) y"
    using assms mask_drop [of x "32 - p" y] by (simp add: isIpv4InRange_def ipv4_mask_def)
  also have "\<dots> \<longleftrightarrow> unat x div 2 ^ (32 - p) = unat y div 2 ^ (32 - p)"
    by (simp only: word_unat_eq_iff unat_drop_bit_eq) (simp add: drop_bit_eq_div)
  finally show ?thesis .
qed

lemma small_bits: "d < 2 ^ k \<Longrightarrow> bit (of_nat d :: 32 word) n \<Longrightarrow> n < k"
  by (metis bit_of_nat_iff bit_take_bit_iff take_bit_nat_eq_self)

lemma ipv4_word_value:
  assumes "a < 256" "b < 256" "c < 256" "d < 256"
  shows "unat (ipv4_word a b c d) = a * 2 ^ 24 + b * 2 ^ 16 + c * 2 ^ 8 + d"
proof -
  define A where "A = push_bit 24 (of_nat a :: 32 word)"
  define B where "B = push_bit 16 (of_nat b :: 32 word)"
  define C where "C = push_bit 8 (of_nat c :: 32 word)"
  define D where "D = (of_nat d :: 32 word)"
  note abcd = A_def B_def C_def D_def
  have s: "bit (of_nat x :: 32 word) n \<Longrightarrow> n < 8" if "x < 256" for x n
    using small_bits [of x 8 n] that by simp
  have bits: "bit A n \<Longrightarrow> 24 \<le> n" "bit B n \<Longrightarrow> 16 \<le> n \<and> n < 24" "bit C n \<Longrightarrow> 8 \<le> n \<and> n < 16"
    "bit D n \<Longrightarrow> n < 8" for n
    using s [OF assms(2), of "n - 16"] s [OF assms(3), of "n - 8"] s [OF assms(4), of n]
    by (auto simp: abcd bit_simps)
  have "A OR B = A + B"
    by (rule disjunctive_add [symmetric]) (use bits in force)
  moreover have "(A OR B) OR C = (A OR B) + C"
    by (rule disjunctive_add [symmetric]) (use bits in \<open>force simp: bit_simps\<close>)
  moreover have "((A OR B) OR C) OR D = ((A OR B) OR C) + D"
    by (rule disjunctive_add [symmetric]) (use bits in \<open>force simp: bit_simps\<close>)
  ultimately have "ipv4_word a b c d =
      push_bit 24 (of_nat a) + push_bit 16 (of_nat b) + push_bit 8 (of_nat c) + of_nat d"
    unfolding ipv4_word_def abcd [symmetric] by (metis or.assoc)
  also have "\<dots> = of_nat (a * 2 ^ 24 + b * 2 ^ 16 + c * 2 ^ 8 + d)"
    by (simp add: push_bit_eq_mult)
  finally have w: "ipv4_word a b c d = of_nat (a * 2 ^ 24 + b * 2 ^ 16 + c * 2 ^ 8 + d)" .
  have "a * 2 ^ 24 + b * 2 ^ 16 + c * 2 ^ 8 + d < 2 ^ LENGTH(32)" using assms by simp
  then show ?thesis unfolding w unat_of_nat by (rule mod_less)
qed

lemma radix:
  fixes a b x y m :: nat
  assumes "b < m" "y < m"
  shows "a * m + b = x * m + y \<longleftrightarrow> a = x \<and> b = y"
proof
  assume eq: "a * m + b = x * m + y"
  have "(a * m + b) div m = a" "(x * m + y) div m = x" using assms by simp_all
  then have "a = x" using eq by simp
  then show "a = x \<and> b = y" using eq by simp
qed simp

lemma radix3:
  fixes a b c x y z :: nat
  assumes "b < 256" "c < 256" "y < 256" "z < 256"
  shows "a * 65536 + b * 256 + c = x * 65536 + y * 256 + z \<longleftrightarrow> a = x \<and> b = y \<and> c = z"
proof -
  have "a * 65536 + b * 256 + c = (a * 256 + b) * 256 + c" "x * 65536 + y * 256 + z = (x * 256 + y) * 256 + z"
    by simp_all
  then show ?thesis
    using radix [OF assms(2,4), of "a * 256 + b" "x * 256 + y"] radix [OF assms(1,3), of a x] by metis
qed

lemma octets_div:
  fixes a b c d :: nat
  assumes "a < 256" "b < 256" "c < 256" "d < 256"
  defines "n \<equiv> a * 2 ^ 24 + b * 2 ^ 16 + c * 2 ^ 8 + d"
  shows "n div 2 ^ 28 = a div 16" "n div 2 ^ 24 = a" "n div 2 ^ 22 = a * 4 + b div 64"
    "n div 2 ^ 20 = a * 16 + b div 16" "n div 2 ^ 17 = a * 128 + b div 2" "n div 2 ^ 16 = a * 256 + b"
    "n div 2 ^ 8 = a * 65536 + b * 256 + c"
  using assms(1-4) unfolding n_def by simp_all

definition special_ipv4 :: "nat \<Rightarrow> nat \<Rightarrow> nat \<Rightarrow> bool" where
  "special_ipv4 a b c \<longleftrightarrow>
     a = 0 \<or> a = 10 \<or> a = 127 \<or> a \<ge> 224 \<or> (a = 100 \<and> 64 \<le> b \<and> b < 128) \<or> (a = 169 \<and> b = 254) \<or>
     (a = 172 \<and> 16 \<le> b \<and> b < 32) \<or> (a = 192 \<and> b = 0 \<and> (c = 0 \<or> c = 2)) \<or>
     (a = 192 \<and> b = 88 \<and> c = 99) \<or> (a = 192 \<and> b = 168) \<or> (a = 198 \<and> (b = 18 \<or> b = 19)) \<or>
     (a = 198 \<and> b = 51 \<and> c = 100) \<or> (a = 203 \<and> b = 0 \<and> c = 113)"

lemma public_ipv4_iff:
  assumes "a < 256" "b < 256" "c < 256" "d < 256"
  shows "isPublicIpv4 (ipv4_word a b c d) \<longleftrightarrow> \<not> special_ipv4 a b c"
proof -
  let ?r = "isIpv4InRange (ipv4_word a b c d)"
  note v = ipv4_word_value [OF assms] and o = octets_div [OF assms]
  have "?r (0x00000000, 8) \<longleftrightarrow> a = 0" "?r (0x0a000000, 8) \<longleftrightarrow> a = 10" "?r (0x7f000000, 8) \<longleftrightarrow> a = 127"
    "?r (0xe0000000, 4) \<longleftrightarrow> a div 16 = 14" "?r (0xf0000000, 4) \<longleftrightarrow> a div 16 = 15"
    by (simp_all add: range_div v o [simplified])
  moreover have "?r (0x64400000, 10) \<longleftrightarrow> a * 4 + b div 64 = 401" "?r (0xac100000, 12) \<longleftrightarrow> a * 16 + b div 16 = 2753"
    "?r (0xc6120000, 15) \<longleftrightarrow> a * 128 + b div 2 = 25353"
    by (simp_all add: range_div v o [simplified])
  moreover have "?r (0xa9fe0000, 16) \<longleftrightarrow> a * 256 + b = 43518" "?r (0xc0a80000, 16) \<longleftrightarrow> a * 256 + b = 49320"
    by (simp_all add: range_div v o [simplified])
  moreover have "?r (0xc0000000, 24) \<longleftrightarrow> a * 65536 + b * 256 + c = 12582912"
    "?r (0xc0000200, 24) \<longleftrightarrow> a * 65536 + b * 256 + c = 12582914"
    "?r (0xc0586300, 24) \<longleftrightarrow> a * 65536 + b * 256 + c = 12605539"
    "?r (0xc6336400, 24) \<longleftrightarrow> a * 65536 + b * 256 + c = 12989284"
    "?r (0xcb007100, 24) \<longleftrightarrow> a * 65536 + b * 256 + c = 13303921"
    by (simp_all add: range_div v o [simplified])
  moreover have "a * 4 + b div 64 = 401 \<longleftrightarrow> a = 100 \<and> 64 \<le> b \<and> b < 128"
    using radix [of "b div 64" 4 1 a 100] assms(2) by auto
  moreover have "a * 16 + b div 16 = 2753 \<longleftrightarrow> a = 172 \<and> 16 \<le> b \<and> b < 32"
    using radix [of "b div 16" 16 1 a 172] assms(2) by auto
  moreover have "a * 128 + b div 2 = 25353 \<longleftrightarrow> a = 198 \<and> (b = 18 \<or> b = 19)"
    using radix [of "b div 2" 128 9 a 198] assms(2) by auto
  moreover have "a * 256 + b = 43518 \<longleftrightarrow> a = 169 \<and> b = 254"
    using radix [OF assms(2), of 254 a 169] by simp
  moreover have "a * 256 + b = 49320 \<longleftrightarrow> a = 192 \<and> b = 168"
    using radix [OF assms(2), of 168 a 192] by simp
  moreover have "a * 65536 + b * 256 + c = 12582912 \<longleftrightarrow> a = 192 \<and> b = 0 \<and> c = 0"
    "a * 65536 + b * 256 + c = 12582914 \<longleftrightarrow> a = 192 \<and> b = 0 \<and> c = 2"
    "a * 65536 + b * 256 + c = 12605539 \<longleftrightarrow> a = 192 \<and> b = 88 \<and> c = 99"
    "a * 65536 + b * 256 + c = 12989284 \<longleftrightarrow> a = 198 \<and> b = 51 \<and> c = 100"
    "a * 65536 + b * 256 + c = 13303921 \<longleftrightarrow> a = 203 \<and> b = 0 \<and> c = 113"
    using radix3 [OF assms(2,3), of 0 0 a 192] radix3 [OF assms(2,3), of 0 2 a 192]
      radix3 [OF assms(2,3), of 88 99 a 192] radix3 [OF assms(2,3), of 51 100 a 198]
      radix3 [OF assms(2,3), of 0 113 a 203] by simp_all
  moreover have "a div 16 = 14 \<or> a div 16 = 15 \<longleftrightarrow> a \<ge> 224" using assms(1) by auto
  ultimately show ?thesis
    unfolding isPublicIpv4_def NON_PUBLIC_IPV4_RANGES_def special_ipv4_def
    by (simp only: list_ex_iff set_simps bex_simps) argo
qed

definition dotted :: "nat \<Rightarrow> nat \<Rightarrow> nat \<Rightarrow> nat \<Rightarrow> string" where
  "dotted a b c d = join ''.'' [nat_text a, nat_text b, nat_text c, nat_text d]"

lemma nat_text_dot: "CHR ''.'' \<notin> set (nat_text n)"
  using nat_text_digits [of "CHR ''.''" n] by auto

lemma nat_text_is_digit: "list_all is_digit (nat_text n)"
  using nat_text_digits by (auto simp: list_all_iff is_digit_def)

lemma nat_text_short:
  "n < 10 \<Longrightarrow> nat_text n = [char_of (48 + n)]"
  "10 \<le> n \<Longrightarrow> n < 100 \<Longrightarrow> nat_text n = [char_of (48 + n div 10), char_of (48 + n mod 10)]"
  "100 \<le> n \<Longrightarrow> n < 1000 \<Longrightarrow>
     nat_text n = [char_of (48 + n div 100), char_of (48 + n div 10 mod 10), char_of (48 + n mod 10)]"
proof -
  show one: "n < 10 \<Longrightarrow> nat_text n = [char_of (48 + n)]" for n
    by (simp add: nat_text.simps [of n])
  show two: "10 \<le> n \<Longrightarrow> n < 100 \<Longrightarrow> nat_text n = [char_of (48 + n div 10), char_of (48 + n mod 10)]" for n
    by (subst nat_text.simps) (simp add: one)
  show "100 \<le> n \<Longrightarrow> n < 1000 \<Longrightarrow>
     nat_text n = [char_of (48 + n div 100), char_of (48 + n div 10 mod 10), char_of (48 + n mod 10)]"
    by (subst nat_text.simps) (simp add: two div_mult2_eq [of n 10 10, simplified])
qed

lemma digit_text_nonzero:
  assumes "0 < (k :: nat)" "k < 10"
  shows "(char_of (48 + k) :: char) \<noteq> CHR ''0''"
proof
  assume "char_of (48 + k) = CHR ''0''"
  then have "(of_char (char_of (48 + k) :: char) :: nat) = of_char CHR ''0''" by (rule arg_cong)
  then show False using assms by simp
qed

lemma zero_text: "nat_text 0 = ''0''"
  by code_simp

lemma octet_nat_text: "n < 256 \<Longrightarrow> octet_text (nat_text n)"
proof -
  assume n: "n < 256"
  consider "n = 0" | "0 < n" "n < 10" | "10 \<le> n" "n < 100" | "100 \<le> n" "n < 1000" using n by linarith
  then show ?thesis
  proof cases
    case 1
    then show ?thesis by (simp add: octet_text_def zero_text)
  next
    case 2
    then show ?thesis using nat_text_is_digit [of n] digit_text_nonzero [of n]
      by (simp add: octet_text_def nat_text_short)
  next
    case 3
    then show ?thesis using nat_text_is_digit [of n] digit_text_nonzero [of "n div 10"]
      by (simp add: octet_text_def nat_text_short)
  next
    case 4
    then show ?thesis using nat_text_is_digit [of n] digit_text_nonzero [of "n div 100"]
      by (simp add: octet_text_def nat_text_short)
  qed
qed

lemma parse_dotted:
  assumes "a < 256" "b < 256" "c < 256" "d < 256"
  shows "parseIpv4Address (dotted a b c d) = Some (ipv4_word a b c d)"
proof -
  have "split_at CHR ''.'' (dotted a b c d) = [nat_text a, nat_text b, nat_text c, nat_text d]"
    by (simp add: dotted_def split_at_append nat_text_dot split_at_plain)
  then show ?thesis using assms by (simp add: parseIpv4Address_def octet_nat_text nat_value_text)
qed

lemma dotted_chars:
  assumes "x \<in> set (dotted a b c d)"
  shows "46 \<le> (of_char x :: nat) \<and> (of_char x :: nat) \<le> 57"
proof -
  have "x = CHR ''.'' \<or> (\<exists>n. x \<in> set (nat_text n))" using assms by (auto simp: dotted_def)
  then show ?thesis
  proof
    assume "\<exists>n. x \<in> set (nat_text n)"
    then obtain n where "x \<in> set (nat_text n)" by blast
    from nat_text_digits [OF this] show ?thesis by linarith
  qed simp
qed

lemma toLowerCase_id: "(\<And>x. x \<in> set s \<Longrightarrow> (of_char x :: nat) < 65) \<Longrightarrow> toLowerCase s = s"
  unfolding toLowerCase_def by (rule map_idI) (fastforce simp: char_lower_def)

lemma dotted_host: "toLowerCase (strip_brackets (dotted a b c d)) = dotted a b c d"
proof -
  have ne: "dotted a b c d \<noteq> []" by (simp add: dotted_def)
  have "hd (dotted a b c d) \<noteq> CHR ''[''" "last (dotted a b c d) \<noteq> CHR '']''"
    using dotted_chars [OF hd_in_set [OF ne]] dotted_chars [OF last_in_set [OF ne]] by auto
  then have "strip_brackets (dotted a b c d) = dotted a b c d" by (simp add: strip_brackets_def)
  then show ?thesis using dotted_chars toLowerCase_id [of "dotted a b c d"] by fastforce
qed

lemma private_dotted:
  assumes "a < 256" "b < 256" "c < 256" "d < 256"
  shows "isPrivateHost (dotted a b c d) \<longleftrightarrow> special_ipv4 a b c"
proof -
  have "dotted a b c d \<noteq> ''localhost''"
  proof
    assume "dotted a b c d = ''localhost''"
    then show False using dotted_chars [of "CHR ''l''" a b c d] by simp
  qed
  then show ?thesis
    using parse_dotted [OF assms] public_ipv4_iff [OF assms] by (simp add: isPrivateHost_def dotted_host)
qed

text \<open>An IPv4 address mapped into IPv6 is judged by its IPv4 address.\<close>

lemma mapped_ipv6:
  assumes "0 \<le> x" "x < 2 ^ 32"
  shows "isPublicIpv6 (0xffff * 2 ^ 32 + x) = isPublicIpv4 (word_of_int x)"
proof -
  have d: "(0xffff * 2 ^ 32 + x) div 2 ^ 32 = 0xffff" using assms by simp
  moreover have "(0xffff * 2 ^ 32 + x) mod 2 ^ 32 = x"
    using div_mult_mod_eq [of "0xffff * 2 ^ 32 + x" "2 ^ 32"] unfolding d by (rule add_left_imp_eq)
  ultimately show ?thesis by (simp only: isPublicIpv6_def if_True refl)
qed

end
