(* ===== verification/Network_Properties.thy ===== *)
theory Network_Properties
  imports Network_Policy
begin

section \<open>Properties of the network policy\<close>

text \<open>
  Which literal addresses are refused, in the four octets of the address, also when the
  IPv4 address is written inside an IPv6 one; and what a URL that passes satisfies.
\<close>

unbundle bit_operations_syntax

subsection \<open>Hexadecimal text\<close>

lemma hex_char_code:
  assumes "n < 16"
  shows "(of_char (hex_char n) :: nat) = (if n < 10 then 48 + n else 87 + n)"
  using assms by (simp add: hex_char_def)

lemma hex_char_value:
  assumes "n < 16"
  shows "hex_value_of (hex_char n) = int n" "is_hex (hex_char n)" "hex_char n \<noteq> CHR '':''"
    "char_lower (hex_char n) = hex_char n"
proof -
  note code = hex_char_code [OF assms]
  have "(of_char (hex_char n) :: int) = int (if n < 10 then 48 + n else 87 + n)"
    unfolding code [symmetric] by (rule of_nat_of_char [symmetric])
  then show "hex_value_of (hex_char n) = int n"
    unfolding hex_value_of_def is_digit_def code by simp
  show "is_hex (hex_char n)" using assms unfolding is_hex_def is_digit_def code by auto
  show "char_lower (hex_char n) = hex_char n" using assms unfolding char_lower_def Let_def code by auto
  show "hex_char n \<noteq> CHR '':''"
  proof
    assume "hex_char n = CHR '':''"
    then have "(of_char (hex_char n) :: nat) = 58" by simp
    then show False using assms unfolding code by (auto split: if_splits)
  qed
qed

lemma hex_value_snoc: "hex_value (s @ [c]) = 16 * hex_value s + hex_value_of c"
  by (simp add: hex_value_def)

lemma hex_string_value: "hex_value (hex_string n) = int n"
proof (induction n rule: hex_string.induct)
  case (1 n)
  show ?case
  proof (cases "n < 16")
    case True
    then show ?thesis by (subst hex_string.simps) (simp add: hex_value_def hex_char_value)
  next
    case False
    then have "hex_value (hex_string n) = 16 * int (n div 16) + int (n mod 16)"
      using 1 by (subst hex_string.simps) (simp add: hex_value_snoc hex_char_value)
    also have "\<dots> = int n" by (metis mult_div_mod_eq of_nat_add of_nat_mult of_nat_numeral)
    finally show ?thesis .
  qed
qed

lemma hex_string_digits: "list_all is_hex (hex_string n) \<and> CHR '':'' \<notin> set (hex_string n) \<and> hex_string n \<noteq> []"
proof (induction n rule: hex_string.induct)
  case (1 n)
  show ?case
  proof (cases "n < 16")
    case True
    then show ?thesis by (subst (1 2 3) hex_string.simps) (simp add: hex_char_value not_sym)
  next
    case False
    then show ?thesis
      using 1 hex_char_value(2,3) [of "n mod 16"] by (subst (1 2 3) hex_string.simps) (auto simp: not_sym)
  qed
qed

lemma hex_string_length: "n < 16 ^ Suc k \<Longrightarrow> length (hex_string n) \<le> Suc k"
proof (induction k arbitrary: n)
  case 0
  then show ?case by (subst hex_string.simps) simp
next
  case (Suc k)
  show ?case
  proof (cases "n < 16")
    case True
    then show ?thesis by (subst hex_string.simps) simp
  next
    case False
    have "n div 16 < 16 ^ Suc k" using Suc.prems by (simp add: less_mult_imp_div_less)
    then show ?thesis using Suc.IH [of "n div 16"] False by (subst hex_string.simps) simp
  qed
qed

subsection \<open>An IPv4 address inside an IPv6 address\<close>

definition mapped_host :: "nat \<Rightarrow> nat \<Rightarrow> nat \<Rightarrow> nat \<Rightarrow> string" where
  "mapped_host a b c d = ''::ffff:'' @ dotted a b c d"

lemma dotted_parts: "split_at CHR ''.'' (dotted a b c d) = [nat_text a, nat_text b, nat_text c, nat_text d]"
  by (simp add: dotted_def split_at_append nat_text_dot split_at_plain)

lemma mapped_parts:
  "split_at CHR ''.'' (mapped_host a b c d) = [''::ffff:'' @ nat_text a, nat_text b, nat_text c, nat_text d]"
proof -
  have "split_at CHR ''.'' (mapped_host a b c d) =
      split_at CHR ''.'' ((''::ffff:'' @ nat_text a) @ CHR ''.'' # join ''.'' [nat_text b, nat_text c, nat_text d])"
    by (simp add: mapped_host_def dotted_def)
  also have "\<dots> = (''::ffff:'' @ nat_text a) # split_at CHR ''.'' (join ''.'' [nat_text b, nat_text c, nat_text d])"
    using nat_text_dot by (intro split_at_append) auto
  also have "split_at CHR ''.'' (join ''.'' [nat_text b, nat_text c, nat_text d]) = [nat_text b, nat_text c, nat_text d]"
    by (simp add: split_at_append nat_text_dot split_at_plain)
  finally show ?thesis .
qed

lemma mapped_not_ipv4: "parseIpv4Address (mapped_host a b c d) = None"
  by (simp add: parseIpv4Address_def mapped_parts octet_text_def)

lemma dotted_no_colon: "CHR '':'' \<notin> set (dotted a b c d)" "CHR ''%'' \<notin> set (dotted a b c d)"
  using dotted_chars [of "CHR '':''" a b c d] dotted_chars [of "CHR ''%''" a b c d] by auto

lemma mapped_lower: "toLowerCase (mapped_host a b c d) = mapped_host a b c d"
proof -
  have "toLowerCase (dotted a b c d) = dotted a b c d"
    using dotted_chars toLowerCase_id [of "dotted a b c d"] by fastforce
  moreover have "toLowerCase ''::ffff:'' = ''::ffff:''" by code_simp
  ultimately show ?thesis unfolding mapped_host_def by (simp only: toLowerCase_def map_append)
qed

lemma mapped_stripped: "strip_brackets (mapped_host a b c d) = mapped_host a b c d"
proof -
  have ne: "dotted a b c d \<noteq> []" by (simp add: dotted_def)
  then have "last (mapped_host a b c d) = last (dotted a b c d)" by (simp add: mapped_host_def)
  moreover have "last (dotted a b c d) \<noteq> CHR '']''" using dotted_chars [OF last_in_set [OF ne]] by auto
  ultimately show ?thesis by (simp add: strip_brackets_def mapped_host_def Let_def)
qed

lemma nat_text_nonempty: "nat_text n \<noteq> []"
  by (subst nat_text.simps) simp

lemma mapped_tail: "ipv4_tail (mapped_host a b c d) = Some (dotted a b c d)"
proof -
  have "after_last_colon (mapped_host a b c d) = dotted a b c d"
    using dotted_no_colon by (auto simp: after_last_colon_def mapped_host_def takeWhile_append)
  then show ?thesis
    using nat_text_is_digit by (simp add: ipv4_tail_def dotted_parts nat_text_nonempty)
qed

lemma split_double_plain: "CHR '':'' \<notin> set s \<Longrightarrow> split_double_colon (s @ t) =
  (case split_double_colon t of [] \<Rightarrow> [s] | w # ws \<Rightarrow> (s @ w) # ws)"
proof (induction s)
  case Nil
  have "split_double_colon t \<noteq> []" by (induction t rule: split_double_colon.induct) (auto split: list.split)
  then show ?case by (cases "split_double_colon t") auto
next
  case (Cons x s)
  then show ?case by (auto split: list.splits)
qed

lemma mapped_ipv6_parts:
  assumes "CHR '':'' \<notin> set hi" "hi \<noteq> []" "length hi \<le> 4" "list_all is_hex hi"
    and "CHR '':'' \<notin> set lo" "lo \<noteq> []" "length lo \<le> 4" "list_all is_hex lo"
  shows "ipv6_parts (''::ffff:'' @ hi @ '':'' @ lo) = Some (replicate 5 ''0'' @ [''ffff'', hi, lo])"
proof -
  obtain x xs where lo: "lo = x # xs" "x \<noteq> CHR '':''" using assms(5,6) by (cases lo) auto
  have l: "split_double_colon lo = [lo]" using split_double_plain [OF assms(5), of "[]"] by simp
  then have "split_double_colon ('':'' @ lo) = [CHR '':'' # lo]" using lo by simp
  then have h: "split_double_colon (hi @ '':'' @ lo) = [hi @ '':'' @ lo]"
    using split_double_plain [OF assms(1), of "'':'' @ lo"] by simp
  obtain y ys where hi: "hi = y # ys" "y \<noteq> CHR '':''" using assms(1,2) by (cases hi) auto
  have "split_double_colon (''::ffff:'' @ hi @ '':'' @ lo) = [[], ''ffff:'' @ hi @ '':'' @ lo]"
    using h hi by simp
  moreover have "split_at CHR '':'' (''ffff:'' @ hi @ '':'' @ lo) = [''ffff'', hi, lo]"
    using split_at_append [of "CHR '':''" "''ffff''" "hi @ '':'' @ lo"]
      split_at_append [OF assms(1), of lo] split_at_plain [OF assms(5)] by simp
  moreover have "list_all is_hex ''ffff''" "is_hex CHR ''0''" by code_simp+
  ultimately show ?thesis
    using assms by (simp add: ipv6_parts_def Let_def Suc_le_eq numeral_eq_Suc)
qed

lemma halves_number:
  "ipv6_number (replicate 5 ''0'' @ [''ffff'', hex_string m, hex_string n]) = 0xffff * 2 ^ 32 + (int m * 2 ^ 16 + int n)"
proof -
  have "ipv6_number (replicate 5 ''0'' @ [''ffff'']) = 0xffff" by code_simp
  then have "ipv6_number (replicate 5 ''0'' @ [''ffff'', hex_string m, hex_string n]) =
      (0xffff * 2 ^ 16 + int m) * 2 ^ 16 + int n"
    by (simp add: ipv6_number_def hex_string_value)
  then show ?thesis by simp
qed

lemma word_halves:
  fixes w :: "32 word"
  shows "int (unat (drop_bit 16 w)) * 2 ^ 16 + int (unat (w AND 0xffff)) = uint w"
    "unat (drop_bit 16 w) < 16 ^ Suc 3" "unat (w AND 0xffff) < 16 ^ Suc 3"
proof -
  have m: "(0xffff :: 32 word) = mask 16" by (simp add: mask_eq_exp_minus_1)
  have lo: "unat (w AND 0xffff) = unat w mod 2 ^ 16"
    unfolding m take_bit_eq_mask [symmetric] by (simp only: unsigned_take_bit_eq) (simp add: take_bit_eq_mod)
  have hi: "unat (drop_bit 16 w) = unat w div 2 ^ 16"
    by (simp only: unat_drop_bit_eq) (simp add: drop_bit_eq_div)
  have "unat (drop_bit 16 w) * 2 ^ 16 + unat (w AND 0xffff) = unat w"
    unfolding lo hi by (rule div_mult_mod_eq)
  then have "int (unat (drop_bit 16 w) * 2 ^ 16 + unat (w AND 0xffff)) = int (unat w)" by (rule arg_cong)
  then show "int (unat (drop_bit 16 w)) * 2 ^ 16 + int (unat (w AND 0xffff)) = uint w" by simp
  have "unat w < 2 ^ LENGTH(32)" by (rule unsigned_less)
  then show "unat (drop_bit 16 w) < 16 ^ Suc 3" unfolding hi by simp
  show "unat (w AND 0xffff) < 16 ^ Suc 3" unfolding lo by simp
qed

lemma mapped_number:
  assumes "a < 256" "b < 256" "c < 256" "d < 256"
  shows "parseIpv6Address (mapped_host a b c d) = Some (0xffff * 2 ^ 32 + uint (ipv4_word a b c d))"
proof -
  let ?w = "ipv4_word a b c d"
  let ?hi = "hex_string (unat (drop_bit 16 ?w))" and ?lo = "hex_string (unat (?w AND 0xffff))"
  have norm: "takeWhile (\<lambda>x. x \<noteq> CHR ''%'') (mapped_host a b c d) = mapped_host a b c d"
    using dotted_no_colon(2) [of a b c d] by (auto simp: mapped_host_def)
  have "ipv6_parts (''::ffff:'' @ ?hi @ '':'' @ ?lo) = Some (replicate 5 ''0'' @ [''ffff'', ?hi, ?lo])"
    using hex_string_digits hex_string_length [OF word_halves(2)] hex_string_length [OF word_halves(3)]
    by (intro mapped_ipv6_parts) auto
  moreover have "take (length (mapped_host a b c d) - length (dotted a b c d)) (mapped_host a b c d) = ''::ffff:''"
    by (simp add: mapped_host_def)
  ultimately have "parseIpv6Address (mapped_host a b c d) =
      Some (ipv6_number (replicate 5 ''0'' @ [''ffff'', ?hi, ?lo]))"
    unfolding parseIpv6Address_def Let_def mapped_lower norm mapped_tail
    by (simp add: parse_dotted [OF assms] del: replicate.simps)
  then show ?thesis unfolding halves_number word_halves(1) .
qed

text \<open>A literal IPv4 address is refused exactly when it lies in a special-purpose block,
  whichever way it is written: the host check on the dotted address, and on the same
  address inside an IPv6 address, is the test on the octets.\<close>

theorem literal_address_policy:
  assumes "a < 256" "b < 256" "c < 256" "d < 256"
  shows "(isPrivateHost (dotted a b c d) \<longleftrightarrow> special_ipv4 a b c) \<and>
    (isPrivateHost (mapped_host a b c d) \<longleftrightarrow> special_ipv4 a b c)"
proof -
  have "isPublicIpv6 (0xffff * 2 ^ 32 + uint (ipv4_word a b c d)) = isPublicIpv4 (ipv4_word a b c d)"
    using mapped_ipv6 [of "uint (ipv4_word a b c d)"] uint_lt2p [of "ipv4_word a b c d"] by simp
  moreover have "mapped_host a b c d \<noteq> ''localhost''" by (simp add: mapped_host_def)
  ultimately have "isPrivateHost (mapped_host a b c d) \<longleftrightarrow> special_ipv4 a b c"
    unfolding isPrivateHost_def Let_def mapped_stripped mapped_lower mapped_not_ipv4
    by (simp add: mapped_number [OF assms] public_ipv4_iff [OF assms])
  then show ?thesis using private_dotted [OF assms] by simp
qed

lemma literal_address_policy_witness:
  "isPrivateHost (mapped_host 169 254 169 254) \<and> \<not> isPrivateHost (dotted 93 184 216 34)"
  using literal_address_policy [of 169 254 169 254] literal_address_policy [of 93 184 216 34]
  by (simp add: special_ipv4_def)

subsection \<open>URLs that pass\<close>

text \<open>A URL that passes the asynchronous check is valid, is http or https, names no
  private host, and every address the resolver returns for its host is public; only a
  lookup that fails is let through.\<close>

theorem checked_url_public:
  assumes "isSafeFetchUrlAsync parse lookup url = None"
  shows "\<exists>u. parse url = Some u \<and> url_protocol u \<in> {''http:'', ''https:''} \<and>
    \<not> isPrivateHost (url_hostname u) \<and>
    (case lookup (url_hostname u) of None \<Rightarrow> True
     | Some addresses \<Rightarrow> list_all (\<lambda>a. \<not> isPrivateHost a) addresses)"
proof -
  have safe: "isSafeFetchUrl parse url = None"
    using assms by (auto simp: isSafeFetchUrlAsync_def split: option.splits)
  then obtain u where u: "parse url = Some u" "url_protocol u \<in> {''http:'', ''https:''}"
      "\<not> isPrivateHost (url_hostname u)"
    by (auto simp: isSafeFetchUrl_def split: option.splits if_splits)
  have "isSafeResolvedHost lookup (url_hostname u) = None"
    using assms safe u(1) by (simp add: isSafeFetchUrlAsync_def)
  then show ?thesis
    using u by (auto simp: isSafeResolvedHost_def list_all_iff find_None_iff split: option.splits)
qed

lemma checked_url_public_witness:
  "list_all (\<lambda>a. \<not> isPrivateHost a) [''93.184.216.34'', ''2606:2800:220:1::1'']"
proof -
  let ?u = "\<lparr>url_protocol = ''https:'', url_hostname = ''example.com'', url_username = [], url_password = [],
    url_search = [], url_hash = [], url_href = ''https://example.com/''\<rparr>"
  let ?l = "\<lambda>h :: string. Some [''93.184.216.34'', ''2606:2800:220:1::1'']"
  have "isSafeFetchUrlAsync (\<lambda>s. Some ?u) ?l ''https://example.com/'' = None" by code_simp
  from checked_url_public [OF this] show ?thesis by simp
qed

end
