(* ===== verification/Webhook_Model.thy ===== *)
theory Webhook_Model
  imports Schema Json_Value Json_File_Store Network_Policy
begin

section \<open>Outbound webhooks: data, validation and redaction\<close>

text \<open>
  The first part of \<^verbatim>\<open>packages/automation/src/outbound-webhooks.ts\<close>: the types, the
  schemas, the endpoint URL and the event filters, and the redaction of event data.

  Event types and filters are strings checked against the lists of the code.  UUIDs
  and dates are carried by the types as in \<open>Sequence_Model\<close>.  Event data is JSON data.
  A schema failure is \<open>WhSchemaError\<close>, also where a date outside the four-digit years
  makes \<open>toISOString\<close> throw before the schema is consulted.
\<close>

subsection \<open>Constants\<close>

definition OUTBOUND_WEBHOOK_STORE_VERSION :: int where
  "OUTBOUND_WEBHOOK_STORE_VERSION = 2"

definition OUTBOUND_WEBHOOK_EVENT_SCHEMA_VERSION :: int where
  "OUTBOUND_WEBHOOK_EVENT_SCHEMA_VERSION = 1"

definition DEFAULT_OUTBOUND_WEBHOOK_TIMEOUT_MS :: int where
  "DEFAULT_OUTBOUND_WEBHOOK_TIMEOUT_MS = 10000"

definition DEFAULT_OUTBOUND_WEBHOOK_MAX_ATTEMPTS :: int where
  "DEFAULT_OUTBOUND_WEBHOOK_MAX_ATTEMPTS = 6"

definition DEFAULT_OUTBOUND_WEBHOOK_RETRY_DELAY_MS :: int where
  "DEFAULT_OUTBOUND_WEBHOOK_RETRY_DELAY_MS = 30000"

definition MAX_OUTBOUND_WEBHOOK_RETRY_DELAY_MS :: int where
  "MAX_OUTBOUND_WEBHOOK_RETRY_DELAY_MS = 3600000"

definition DEFAULT_OUTBOUND_WEBHOOK_LEASE_MS :: int where
  "DEFAULT_OUTBOUND_WEBHOOK_LEASE_MS = 90000"

definition DEFAULT_OUTBOUND_WEBHOOK_STORE_LIMIT :: rat where
  "DEFAULT_OUTBOUND_WEBHOOK_STORE_LIMIT = 5000"

definition DEFAULT_OUTBOUND_WEBHOOK_CONCURRENCY :: nat where
  "DEFAULT_OUTBOUND_WEBHOOK_CONCURRENCY = 5"

definition DEFAULT_OUTBOUND_WEBHOOK_CIRCUIT_FAILURE_THRESHOLD :: int where
  "DEFAULT_OUTBOUND_WEBHOOK_CIRCUIT_FAILURE_THRESHOLD = 5"

definition DEFAULT_OUTBOUND_WEBHOOK_CIRCUIT_COOLDOWN_MS :: int where
  "DEFAULT_OUTBOUND_WEBHOOK_CIRCUIT_COOLDOWN_MS = 300000"

definition DEFAULT_OUTBOUND_WEBHOOK_WORKER_RETENTION_MS :: int where
  "DEFAULT_OUTBOUND_WEBHOOK_WORKER_RETENTION_MS = 30 * 24 * 60 * 60 * 1000"

definition OUTBOUND_WEBHOOK_EVENT_TYPES :: "string list" where
  "OUTBOUND_WEBHOOK_EVENT_TYPES =
     [''operation.started'', ''operation.blocked'', ''operation.succeeded'', ''operation.failed'',
      ''campaign.scheduled'', ''campaign.started'', ''campaign.paused'', ''campaign.cancelled'',
      ''campaign.finished'', ''subscriber.created'', ''subscriber.updated'', ''subscriber.blocklisted'',
      ''subscriber.unsubscribed'', ''delivery.delivered'', ''delivery.bounced'', ''delivery.complained'',
      ''delivery.delayed'', ''delivery.rejected'', ''abtest.started'', ''abtest.ready-for-analysis'',
      ''abtest.winner-selected'', ''abtest.inconclusive'', ''abtest.failed'', ''sequence.created'',
      ''sequence.revised'', ''sequence.enrolled'', ''sequence.paused'', ''sequence.resumed'',
      ''sequence.reconciled'', ''sequence.deleted'', ''webhook.test'']"

definition OUTBOUND_WEBHOOK_EVENT_FAMILY_FILTERS :: "string list" where
  "OUTBOUND_WEBHOOK_EVENT_FAMILY_FILTERS =
     [''operation.*'', ''campaign.*'', ''subscriber.*'', ''delivery.*'', ''abtest.*'', ''sequence.*'',
      ''webhook.*'']"

definition OUTBOUND_WEBHOOK_EVENT_FILTERS :: "string list" where
  "OUTBOUND_WEBHOOK_EVENT_FILTERS =
     [''*''] @ OUTBOUND_WEBHOOK_EVENT_TYPES @ OUTBOUND_WEBHOOK_EVENT_FAMILY_FILTERS"

subsection \<open>Data\<close>

datatype event_source =
  SourceListmonk | SourceProvider | SourceOperation | SourceAbtest | SourceSequence | SourceWebhook

datatype subject_kind =
  SubjectOperation | SubjectCampaign | SubjectSubscriber | SubjectMessage | SubjectExperiment |
  SubjectSequence | SubjectWebhook

datatype delivery_status =
  DeliveryPending | DeliveryDelivering | DeliveryRetry | DeliverySucceeded | DeliveryExhausted

datatype circuit_state = CircuitClosed | CircuitOpen

datatype wh_worker_status = WhWorkerRunning | WhWorkerStopped | WhWorkerFailed

record wh_subject =
  su_kind :: subject_kind
  su_key :: string

record wh_event =
  ev_id :: uuid
  ev_type :: string
  ev_schemaVersion :: int
  ev_occurredAt :: instant
  ev_source :: event_source
  ev_correlationId :: "string option"
  ev_subject :: "wh_subject option"
  ev_data :: json_object

record wh_endpoint =
  ep_id :: uuid
  ep_name :: string
  ep_url :: string
  ep_secretRef :: string
  ep_eventFilters :: "string list"
  ep_enabled :: bool
  ep_timeoutMs :: int
  ep_maxAttempts :: int
  ep_circuitFailureThreshold :: int
  ep_circuitCooldownMs :: int
  ep_createdAt :: instant
  ep_updatedAt :: instant

record wh_runtime =
  ru_endpointId :: uuid
  ru_consecutiveFailures :: int
  ru_circuitState :: circuit_state
  ru_circuitOpenedAt :: "instant option"
  ru_circuitOpenUntil :: "instant option"
  ru_lastFailureAt :: "instant option"
  ru_lastSuccessAt :: "instant option"

record wh_tick =
  wt_claimed :: nat
  wt_succeeded :: nat
  wt_retried :: nat
  wt_exhausted :: nat
  wt_completedAt :: instant

record wh_worker =
  ww_id :: uuid
  ww_status :: wh_worker_status
  ww_startedAt :: instant
  ww_heartbeatAt :: instant
  ww_stoppedAt :: "instant option"
  ww_lastError :: "string option"
  ww_lastTick :: "wh_tick option"

record wh_delivery =
  dv_id :: uuid
  dv_eventId :: uuid
  dv_endpointId :: uuid
  dv_event :: wh_event
  dv_status :: delivery_status
  dv_attemptCount :: int
  dv_manualRetryCount :: int
  dv_nextAttemptAt :: instant
  dv_lastAttemptAt :: "instant option"
  dv_completedAt :: "instant option"
  dv_statusCode :: "int option"
  dv_lastError :: "string option"
  dv_leaseToken :: "uuid option"
  dv_leaseExpiresAt :: "instant option"

record wh_store =
  ws_version :: int
  ws_endpoints :: "wh_endpoint list"
  ws_deliveries :: "wh_delivery list"
  ws_endpointRuntime :: "wh_runtime list"
  ws_workers :: "wh_worker list"

datatype conflict_code = CodeConflict | CodeEndpointUnavailable | CodeDeliveryStateConflict | CodeLeaseConflict

datatype wh_error =
    WhNotFound string uuid
  | WhConflict string conflict_code
  | WhSchemaError
  | WhRangeError string
  | WhTypeError string
  | WhSignatureError string

subsection \<open>Schemas\<close>

definition OUTBOUND_WEBHOOK_SECRET_PREFIX :: string where
  "OUTBOUND_WEBHOOK_SECRET_PREFIX = ''LISTMONK_OPS_WEBHOOK_SECRET''"

definition secret_group_char :: "char \<Rightarrow> bool" where
  "secret_group_char c =
     (let n = (of_char c :: nat) in (48 \<le> n \<and> n \<le> 57) \<or> (65 \<le> n \<and> n \<le> 90))"

text \<open>\<open>/^LISTMONK_OPS_WEBHOOK_SECRET(?:_[A-Z0-9]+)*$/\<close>: after the prefix, nothing or groups led by an underscore.\<close>

definition OUTBOUND_WEBHOOK_SECRET_REF_PATTERN :: "string \<Rightarrow> bool" where
  "OUTBOUND_WEBHOOK_SECRET_REF_PATTERN s =
     (startsWith s OUTBOUND_WEBHOOK_SECRET_PREFIX \<and>
      (case split_at CHR ''_'' (drop (length OUTBOUND_WEBHOOK_SECRET_PREFIX) s) of
         [] \<Rightarrow> False
       | g # gs \<Rightarrow> g = [] \<and> list_all (\<lambda>x. x \<noteq> [] \<and> list_all secret_group_char x) gs))"

definition secretRefSchema :: "string \<Rightarrow> string option" where
  "secretRefSchema s =
     (let t = trim s in if OUTBOUND_WEBHOOK_SECRET_REF_PATTERN t then Some t else None)"

definition outboundWebhookEventFilterSchema :: "string \<Rightarrow> string option" where
  "outboundWebhookEventFilterSchema s =
     (let t = trim s in if t \<in> set OUTBOUND_WEBHOOK_EVENT_FILTERS then Some t else None)"

definition endpointSchema :: "wh_endpoint \<Rightarrow> wh_endpoint option" where
  "endpointSchema e =
     (case trimmed_between 1 120 (ep_name e) of None \<Rightarrow> None | Some name \<Rightarrow>
     (case nonempty_trimmed (ep_url e) of None \<Rightarrow> None | Some url \<Rightarrow>
     (case secretRefSchema (ep_secretRef e) of None \<Rightarrow> None | Some ref \<Rightarrow>
     (case list_schema outboundWebhookEventFilterSchema (ep_eventFilters e) of None \<Rightarrow> None | Some filters \<Rightarrow>
        if filters \<noteq> [] \<and> 100 \<le> ep_timeoutMs e \<and> ep_timeoutMs e \<le> 30000 \<and>
           1 \<le> ep_maxAttempts e \<and> ep_maxAttempts e \<le> 12 \<and>
           1 \<le> ep_circuitFailureThreshold e \<and> ep_circuitFailureThreshold e \<le> 100 \<and>
           1000 \<le> ep_circuitCooldownMs e \<and> ep_circuitCooldownMs e \<le> 86400000 \<and>
           iso_ok (ep_createdAt e) \<and> iso_ok (ep_updatedAt e)
        then Some (e\<lparr>ep_name := name, ep_url := url, ep_secretRef := ref, ep_eventFilters := filters\<rparr>)
        else None))))"

definition opt_iso :: "instant option \<Rightarrow> bool" where
  "opt_iso t = (case t of None \<Rightarrow> True | Some x \<Rightarrow> iso_ok x)"

definition endpointRuntimeSchema :: "wh_runtime \<Rightarrow> wh_runtime option" where
  "endpointRuntimeSchema r =
     (if 0 \<le> ru_consecutiveFailures r \<and> opt_iso (ru_circuitOpenedAt r) \<and> opt_iso (ru_circuitOpenUntil r) \<and>
         opt_iso (ru_lastFailureAt r) \<and> opt_iso (ru_lastSuccessAt r)
      then Some r else None)"

definition short_text :: "string option \<Rightarrow> bool" where
  "short_text m = (case m of None \<Rightarrow> True | Some t \<Rightarrow> length t \<le> 500)"

definition webhookWorkerSchema :: "wh_worker \<Rightarrow> wh_worker option" where
  "webhookWorkerSchema w =
     (if iso_ok (ww_startedAt w) \<and> iso_ok (ww_heartbeatAt w) \<and> opt_iso (ww_stoppedAt w) \<and>
         short_text (ww_lastError w) \<and>
         (case ww_lastTick w of None \<Rightarrow> True | Some t \<Rightarrow> iso_ok (wt_completedAt t))
      then Some w else None)"

definition subjectSchema :: "wh_subject \<Rightarrow> wh_subject option" where
  "subjectSchema s = map_option (\<lambda>k. s\<lparr>su_key := k\<rparr>) (trimmed_between 1 300 (su_key s))"

definition eventSchema :: "wh_event \<Rightarrow> wh_event option" where
  "eventSchema e =
     (case opt_schema (trimmed_between 1 200) (ev_correlationId e) of None \<Rightarrow> None | Some c \<Rightarrow>
     (case opt_schema subjectSchema (ev_subject e) of None \<Rightarrow> None | Some s \<Rightarrow>
        if ev_type e \<in> set OUTBOUND_WEBHOOK_EVENT_TYPES \<and>
           ev_schemaVersion e = OUTBOUND_WEBHOOK_EVENT_SCHEMA_VERSION \<and> iso_ok (ev_occurredAt e)
        then Some (e\<lparr>ev_correlationId := c, ev_subject := s\<rparr>) else None))"

definition deliverySchema :: "wh_delivery \<Rightarrow> wh_delivery option" where
  "deliverySchema d =
     (case eventSchema (dv_event d) of None \<Rightarrow> None | Some ev \<Rightarrow>
        if 0 \<le> dv_attemptCount d \<and> 0 \<le> dv_manualRetryCount d \<and> iso_ok (dv_nextAttemptAt d) \<and>
           opt_iso (dv_lastAttemptAt d) \<and> opt_iso (dv_completedAt d) \<and>
           (case dv_statusCode d of None \<Rightarrow> True | Some c \<Rightarrow> 100 \<le> c \<and> c \<le> 599) \<and>
           short_text (dv_lastError d) \<and> opt_iso (dv_leaseExpiresAt d)
        then Some (d\<lparr>dv_event := ev\<rparr>) else None)"

definition webhook_store_schema :: "wh_store \<Rightarrow> wh_store option" where
  "webhook_store_schema s =
     (case list_schema endpointSchema (ws_endpoints s) of None \<Rightarrow> None | Some es \<Rightarrow>
     (case list_schema deliverySchema (ws_deliveries s) of None \<Rightarrow> None | Some ds \<Rightarrow>
     (case list_schema endpointRuntimeSchema (ws_endpointRuntime s) of None \<Rightarrow> None | Some rs \<Rightarrow>
     (case list_schema webhookWorkerSchema (ws_workers s) of None \<Rightarrow> None | Some ws \<Rightarrow>
        if ws_version s = OUTBOUND_WEBHOOK_STORE_VERSION
        then Some (s\<lparr>ws_endpoints := es, ws_deliveries := ds, ws_endpointRuntime := rs, ws_workers := ws\<rparr>)
        else None))))"

text \<open>
  A document of version 1 is migrated when it is read.  Its endpoints have no circuit
  settings and it has no runtime and no workers; whatever the record holds there is
  replaced.
\<close>

definition migrate_v1 :: "wh_store \<Rightarrow> wh_store" where
  "migrate_v1 s =
     \<lparr>ws_version = OUTBOUND_WEBHOOK_STORE_VERSION,
      ws_endpoints = map (\<lambda>e. e\<lparr>ep_circuitFailureThreshold := DEFAULT_OUTBOUND_WEBHOOK_CIRCUIT_FAILURE_THRESHOLD,
                               ep_circuitCooldownMs := DEFAULT_OUTBOUND_WEBHOOK_CIRCUIT_COOLDOWN_MS\<rparr>)
                       (ws_endpoints s),
      ws_deliveries = ws_deliveries s,
      ws_endpointRuntime = [],
      ws_workers = []\<rparr>"

definition parseWebhookStore :: "wh_store \<Rightarrow> string + wh_store" where
  "parseWebhookStore s =
     (case webhook_store_schema (if ws_version s = 1 then migrate_v1 s else s) of
        None \<Rightarrow> Inl ''Invalid outbound webhook store''
      | Some p \<Rightarrow> Inr p)"

definition parsed :: "('a \<Rightarrow> 'a option) \<Rightarrow> 'a \<Rightarrow> wh_error + 'a" where
  "parsed schema v = (case schema v of None \<Rightarrow> Inl WhSchemaError | Some p \<Rightarrow> Inr p)"

subsection \<open>Endpoint URLs and event filters\<close>

definition normalizeOutboundWebhookEndpointUrl :: "url_parser \<Rightarrow> string \<Rightarrow> wh_error + string" where
  "normalizeOutboundWebhookEndpointUrl parse value =
     (case parse (trim value) of
        None \<Rightarrow> Inl (WhTypeError ''Outbound webhook URL must be a valid absolute URL'')
      | Some u \<Rightarrow>
          (if url_protocol u \<noteq> ''https:'' then Inl (WhTypeError ''Outbound webhook URL must use HTTPS'')
           else if url_username u \<noteq> [] \<or> url_password u \<noteq> []
           then Inl (WhTypeError ''Outbound webhook URL must not contain credentials'')
           else if url_search u \<noteq> [] \<or> url_hash u \<noteq> []
           then Inl (WhTypeError ''Outbound webhook URL must not contain query parameters or a fragment'')
           else (case isSafeFetchUrl parse (url_href u) of
                   Some reason \<Rightarrow> Inl (WhTypeError (''Outbound webhook URL is unsafe: '' @ reason))
                 | None \<Rightarrow> Inr (url_href u))))"

text \<open>\<open>[...new Set(xs)]\<close>: the first occurrences, in order.\<close>

definition distinct_first :: "'a list \<Rightarrow> 'a list" where
  "distinct_first xs = rev (remdups (rev xs))"

definition normalizeEventFilters :: "string list \<Rightarrow> wh_error + string list" where
  "normalizeEventFilters filters =
     (case list_schema outboundWebhookEventFilterSchema filters of
        None \<Rightarrow> Inl WhSchemaError
      | Some fs \<Rightarrow> (if fs = [] then Inl WhSchemaError else Inr (distinct_first fs)))"

definition isSupportedEventFilter :: "string \<Rightarrow> bool" where
  "isSupportedEventFilter s = (trim s \<in> set OUTBOUND_WEBHOOK_EVENT_FILTERS)"

definition matchesOutboundWebhookEvent :: "string list \<Rightarrow> string \<Rightarrow> bool" where
  "matchesOutboundWebhookEvent filters eventType =
     list_ex (\<lambda>f. if f = ''*'' then True
                  else if endsWith f ''.*'' then startsWith eventType (butlast f)
                  else f = eventType) filters"

subsection \<open>Redaction\<close>

definition lower_or_digit :: "char \<Rightarrow> bool" where
  "lower_or_digit c =
     (let n = (of_char c :: nat) in (97 \<le> n \<and> n \<le> 122) \<or> (48 \<le> n \<and> n \<le> 57))"

definition upper_letter :: "char \<Rightarrow> bool" where
  "upper_letter c = (let n = (of_char c :: nat) in 65 \<le> n \<and> n \<le> 90)"

text \<open>\<open>key.replaceAll(/([a-z0-9])([A-Z])/gu, "$1_$2")\<close>\<close>

fun split_camel :: "string \<Rightarrow> string" where
  "split_camel (a # b # s) =
     (if lower_or_digit a \<and> upper_letter b then a # CHR ''_'' # split_camel (b # s)
      else a # split_camel (b # s))"
| "split_camel s = s"

definition SENSITIVE_WORDS :: "string list" where
  "SENSITIVE_WORDS =
     [''authorization'', ''cookie'', ''email'', ''password'', ''passwd'', ''recipient'', ''secret'',
      ''token'', ''apikey'', ''api_key'', ''api-key'']"

definition key_delimiter :: "char \<Rightarrow> bool" where
  "key_delimiter c = (c = CHR ''_'' \<or> c = CHR ''-'')"

definition at_boundary :: "string \<Rightarrow> bool" where
  "at_boundary s = (s = [] \<or> key_delimiter (hd s))"

definition sensitive_here :: "string \<Rightarrow> bool" where
  "sensitive_here s =
     list_ex (\<lambda>w. startsWith s w \<and> at_boundary (drop (length w) s)) SENSITIVE_WORDS"

text \<open>\<open>SENSITIVE_KEY_PATTERN\<close>, scanned from left to right; \<open>start\<close>: after the start or a delimiter.\<close>

fun sensitive_scan :: "bool \<Rightarrow> string \<Rightarrow> bool" where
  "sensitive_scan start [] = False"
| "sensitive_scan start (c # cs) =
     ((start \<and> sensitive_here (c # cs)) \<or> sensitive_scan (key_delimiter c) cs)"

definition isSensitiveKey :: "string \<Rightarrow> bool" where
  "isSensitiveKey k = sensitive_scan True (toLowerCase (split_camel k))"

definition MAX_REDACTION_DEPTH :: nat where
  "MAX_REDACTION_DEPTH = 8"

text \<open>
  Assigning the key \<open>__proto__\<close> of the output object sets its prototype and creates no
  property.
\<close>

fun redactValue :: "nat \<Rightarrow> json \<Rightarrow> json" where
  "redactValue depth (JArr xs) =
     (if depth \<ge> MAX_REDACTION_DEPTH then JStr ''[TRUNCATED]''
      else JArr (map (redactValue (Suc depth)) xs))"
| "redactValue depth (JObj xs) =
     (if depth \<ge> MAX_REDACTION_DEPTH then JStr ''[TRUNCATED]''
      else JObj (filter (\<lambda>p. fst p \<noteq> ''__proto__'')
             (map (\<lambda>p. (fst p, if isSensitiveKey (fst p) then JStr ''[REDACTED]''
                                else redactValue (Suc depth) (snd p))) xs)))"
| "redactValue depth v = v"

definition json_members :: "json \<Rightarrow> json_object" where
  "json_members v = (case v of JObj xs \<Rightarrow> xs | _ \<Rightarrow> [])"

definition redactOutboundWebhookData :: "json_object \<Rightarrow> json_object" where
  "redactOutboundWebhookData d = json_members (redactValue 0 (JObj d))"

subsection \<open>Events\<close>

record wh_event_input =
  ei_eventId :: "uuid option"
  ei_type :: string
  ei_occurredAt :: "instant option"
  ei_source :: event_source
  ei_correlationId :: "string option"
  ei_subject :: "wh_subject option"
  ei_data :: "json_object option"

definition createOutboundWebhookEvent :: "wh_event_input \<Rightarrow> uuid \<Rightarrow> instant \<Rightarrow> wh_error + wh_event" where
  "createOutboundWebhookEvent input fresh now =
     parsed eventSchema
       \<lparr>ev_id = (case ei_eventId input of Some i \<Rightarrow> i | None \<Rightarrow> fresh),
        ev_type = ei_type input,
        ev_schemaVersion = OUTBOUND_WEBHOOK_EVENT_SCHEMA_VERSION,
        ev_occurredAt = (case ei_occurredAt input of Some t \<Rightarrow> t | None \<Rightarrow> now),
        ev_source = ei_source input,
        ev_correlationId = (case ei_correlationId input of None \<Rightarrow> None
                            | Some c \<Rightarrow> (if trim c = [] then None else Some (trim c))),
        ev_subject = ei_subject input,
        ev_data = redactOutboundWebhookData (case ei_data input of None \<Rightarrow> [] | Some d \<Rightarrow> d)\<rparr>"

subsection \<open>Facts about the schemas\<close>

lemma idem_secretRef: "idem_schema secretRefSchema"
  by (auto simp: idem_schema_def secretRefSchema_def Let_def split: if_splits)

lemma idem_eventFilter: "idem_schema outboundWebhookEventFilterSchema"
  by (auto simp: idem_schema_def outboundWebhookEventFilterSchema_def Let_def split: if_splits)

lemma idem_endpoint: "idem_schema endpointSchema"
  using idem_trimmed_between [of 1 120] idem_nonempty_trimmed idem_secretRef
    idem_list [OF idem_eventFilter]
  by (auto simp: idem_schema_def endpointSchema_def split: option.splits if_splits)

lemma idem_subjectSchema: "idem_schema subjectSchema"
  using idem_trimmed_between [of 1 300]
  by (auto simp: idem_schema_def subjectSchema_def)

lemma idem_event: "idem_schema eventSchema"
  using idem_opt [OF idem_trimmed_between [of 1 200]] idem_opt [OF idem_subjectSchema]
  by (auto simp: idem_schema_def eventSchema_def split: option.splits if_splits)

lemma idem_delivery: "idem_schema deliverySchema"
  using idem_event by (auto simp: idem_schema_def deliverySchema_def split: option.splits if_splits)

lemma parsed_Inr [simp]: "parsed f v = Inr p \<longleftrightarrow> f v = Some p"
  by (auto simp: parsed_def split: option.splits)

lemma runtime_schema_same: "endpointRuntimeSchema r = Some q \<Longrightarrow> q = r"
  by (auto simp: endpointRuntimeSchema_def split: if_splits)

lemma worker_schema_same: "webhookWorkerSchema w = Some v \<Longrightarrow> v = w"
  by (auto simp: webhookWorkerSchema_def split: if_splits)

text \<open>A valid delivery stays valid when only its run-time fields change.\<close>

lemma delivery_schema_fields:
  assumes "deliverySchema d = Some p"
  shows "dv_id p = dv_id d" "dv_eventId p = dv_eventId d" "dv_endpointId p = dv_endpointId d"
    "dv_status p = dv_status d" "dv_attemptCount p = dv_attemptCount d"
    "dv_manualRetryCount p = dv_manualRetryCount d" "dv_nextAttemptAt p = dv_nextAttemptAt d"
    "dv_lastAttemptAt p = dv_lastAttemptAt d" "dv_completedAt p = dv_completedAt d"
    "dv_statusCode p = dv_statusCode d" "dv_lastError p = dv_lastError d"
    "dv_leaseToken p = dv_leaseToken d" "dv_leaseExpiresAt p = dv_leaseExpiresAt d"
    "eventSchema (dv_event d) = Some (dv_event p)"
  using assms by (auto simp: deliverySchema_def split: option.splits if_splits)

lemma delivery_schema_same:
  "deliverySchema d = Some p \<Longrightarrow> eventSchema (dv_event d) = Some (dv_event d) \<Longrightarrow> p = d"
  by (auto simp: deliverySchema_def split: option.splits if_splits)

lemma set_distinct_first [simp]: "set (distinct_first xs) = set xs"
  by (simp add: distinct_first_def)

lemma distinct_distinct_first [simp]: "distinct (distinct_first xs)"
  by (simp add: distinct_first_def)

lemma distinct_first_id [simp]: "distinct xs \<Longrightarrow> distinct_first xs = xs"
  by (simp add: distinct_first_def distinct_remdups_id)

end
