(* ===== verification/Webhook_Outbox.thy ===== *)
theory Webhook_Outbox
  imports Webhook_Model Stable_Json "HOL-Library.Product_Lexorder" "HOL-Library.Option_ord"
begin

section \<open>The webhook outbox\<close>

text \<open>
  The operations of the file-backed repository of
  \<^verbatim>\<open>packages/automation/src/outbound-webhooks.ts\<close>: endpoints, the outbox of deliveries,
  leases, the circuit breaker of each endpoint, maintenance and health.  Each method
  is the callback it passes to \<open>updateJsonFileStore\<close>.

  A JavaScript \<open>Map\<close> from identifiers to deliveries is an association list in insertion
  order (\<open>put_all\<close>), a \<open>Set\<close> the list of its first occurrences.
\<close>

subsection \<open>Maps of replacements\<close>

definition put_all :: "('a \<Rightarrow> 'k) \<Rightarrow> 'a list \<Rightarrow> ('k \<times> 'a) list" where
  "put_all k xs = fold (\<lambda>x m. AList.update (k x) x m) xs []"

definition apply_replacements :: "(uuid \<times> wh_delivery) list \<Rightarrow> wh_delivery list \<Rightarrow> wh_delivery list" where
  "apply_replacements reps ds =
     map (\<lambda>d. case map_of reps (dv_id d) of Some r \<Rightarrow> r | None \<Rightarrow> d) ds"

definition terminal_status :: "delivery_status \<Rightarrow> bool" where
  "terminal_status st = (st \<in> {DeliverySucceeded, DeliveryExhausted})"

definition opt_selected :: "'a list option \<Rightarrow> 'a \<Rightarrow> bool" where
  "opt_selected sel x = (case sel of None \<Rightarrow> True | Some xs \<Rightarrow> x \<in> set xs)"

definition opt_equal :: "'a option \<Rightarrow> 'a \<Rightarrow> bool" where
  "opt_equal want x = (case want of None \<Rightarrow> True | Some w \<Rightarrow> x = w)"

definition opt_default :: "'a option \<Rightarrow> 'a \<Rightarrow> 'a" where
  "opt_default x d = (case x of None \<Rightarrow> d | Some v \<Rightarrow> v)"

text \<open>A stable sort in descending order.\<close>

definition sort_descending :: "('a \<Rightarrow> 'b :: linorder) \<Rightarrow> 'a list \<Rightarrow> 'a list" where
  "sort_descending k xs = rev (sort_key k (rev xs))"

subsection \<open>Endpoints\<close>

definition listOutboundWebhookEndpoints :: "wh_store \<Rightarrow> wh_endpoint list" where
  "listOutboundWebhookEndpoints s = sort_key (\<lambda>e. (ep_createdAt e, ep_id e)) (ws_endpoints s)"

definition getOutboundWebhookEndpoint :: "uuid \<Rightarrow> wh_store \<Rightarrow> wh_error + wh_endpoint" where
  "getOutboundWebhookEndpoint i s =
     (case List.find (\<lambda>e. ep_id e = i) (listOutboundWebhookEndpoints s) of
        None \<Rightarrow> Inl (WhNotFound ''endpoint'' i) | Some e \<Rightarrow> Inr e)"

record wh_endpoint_input =
  in_name :: string
  in_url :: string
  in_secretRef :: string
  in_eventFilters :: "string list"
  in_enabled :: "bool option"
  in_timeoutMs :: "int option"
  in_maxAttempts :: "int option"
  in_circuitFailureThreshold :: "int option"
  in_circuitCooldownMs :: "int option"

text \<open>The endpoint that \<open>createOutboundWebhookEndpoint\<close> hands to the repository.\<close>

definition new_webhook_endpoint ::
  "url_parser \<Rightarrow> wh_endpoint_input \<Rightarrow> uuid \<Rightarrow> instant \<Rightarrow> wh_error + wh_endpoint" where
  "new_webhook_endpoint parse input fresh at' =
     (case normalizeOutboundWebhookEndpointUrl parse (in_url input) of
        Inl e \<Rightarrow> Inl e
      | Inr url \<Rightarrow>
          (case normalizeEventFilters (in_eventFilters input) of
             Inl e \<Rightarrow> Inl e
           | Inr filters \<Rightarrow>
               parsed endpointSchema
                 \<lparr>ep_id = fresh, ep_name = in_name input, ep_url = url, ep_secretRef = in_secretRef input,
                  ep_eventFilters = filters,
                  ep_enabled = opt_default (in_enabled input) True,
                  ep_timeoutMs = opt_default (in_timeoutMs input) DEFAULT_OUTBOUND_WEBHOOK_TIMEOUT_MS,
                  ep_maxAttempts = opt_default (in_maxAttempts input) DEFAULT_OUTBOUND_WEBHOOK_MAX_ATTEMPTS,
                  ep_circuitFailureThreshold = opt_default (in_circuitFailureThreshold input)
                    DEFAULT_OUTBOUND_WEBHOOK_CIRCUIT_FAILURE_THRESHOLD,
                  ep_circuitCooldownMs = opt_default (in_circuitCooldownMs input)
                    DEFAULT_OUTBOUND_WEBHOOK_CIRCUIT_COOLDOWN_MS,
                  ep_createdAt = at', ep_updatedAt = at'\<rparr>))"

definition persistFileOutboundWebhookEndpoint ::
  "wh_endpoint \<Rightarrow> wh_store \<Rightarrow> wh_error + (wh_store \<times> wh_endpoint)" where
  "persistFileOutboundWebhookEndpoint endpoint current =
     (if list_ex (\<lambda>c. toLowerCase (ep_name c) = toLowerCase (ep_name endpoint)) (ws_endpoints current)
      then Inl (WhConflict (''Outbound webhook endpoint name already exists: '' @ ep_name endpoint) CodeConflict)
      else Inr (current\<lparr>ws_endpoints := ws_endpoints current @ [endpoint]\<rparr>, endpoint))"

record wh_endpoint_update =
  up_name :: "string option"
  up_url :: "string option"
  up_secretRef :: "string option"
  up_eventFilters :: "string list option"
  up_enabled :: "bool option"
  up_timeoutMs :: "int option"
  up_maxAttempts :: "int option"
  up_circuitFailureThreshold :: "int option"
  up_circuitCooldownMs :: "int option"

definition opt_result :: "('a \<Rightarrow> 'e + 'b) \<Rightarrow> 'a option \<Rightarrow> 'b \<Rightarrow> 'e + 'b" where
  "opt_result f x d = (case x of None \<Rightarrow> Inr d | Some v \<Rightarrow> f v)"

definition mergeOutboundWebhookEndpointUpdate ::
  "url_parser \<Rightarrow> wh_endpoint \<Rightarrow> wh_endpoint_update \<Rightarrow> instant \<Rightarrow> wh_error + wh_endpoint" where
  "mergeOutboundWebhookEndpointUpdate parse previous input now =
     (case opt_result (normalizeOutboundWebhookEndpointUrl parse) (up_url input) (ep_url previous) of
        Inl e \<Rightarrow> Inl e
      | Inr url \<Rightarrow>
          (case opt_result normalizeEventFilters (up_eventFilters input) (ep_eventFilters previous) of
             Inl e \<Rightarrow> Inl e
           | Inr filters \<Rightarrow>
               parsed endpointSchema
                 (previous\<lparr>ep_name := opt_default (up_name input) (ep_name previous),
                           ep_url := url,
                           ep_secretRef := opt_default (up_secretRef input) (ep_secretRef previous),
                           ep_eventFilters := filters,
                           ep_enabled := opt_default (up_enabled input) (ep_enabled previous),
                           ep_timeoutMs := opt_default (up_timeoutMs input) (ep_timeoutMs previous),
                           ep_maxAttempts := opt_default (up_maxAttempts input) (ep_maxAttempts previous),
                           ep_circuitFailureThreshold :=
                             opt_default (up_circuitFailureThreshold input) (ep_circuitFailureThreshold previous),
                           ep_circuitCooldownMs :=
                             opt_default (up_circuitCooldownMs input) (ep_circuitCooldownMs previous),
                           ep_updatedAt := now\<rparr>)))"

definition updateOutboundWebhookEndpoint ::
  "url_parser \<Rightarrow> uuid \<Rightarrow> wh_endpoint_update \<Rightarrow> instant \<Rightarrow> wh_store
     \<Rightarrow> wh_error + (wh_store \<times> wh_endpoint)" where
  "updateOutboundWebhookEndpoint parse i input now current =
     (case findIndex (\<lambda>e. ep_id e = i) (ws_endpoints current) of
        None \<Rightarrow> Inl (WhNotFound ''endpoint'' i)
      | Some index \<Rightarrow>
          (case mergeOutboundWebhookEndpointUpdate parse (ws_endpoints current ! index) input now of
             Inl e \<Rightarrow> Inl e
           | Inr endpoint \<Rightarrow>
               (if list_ex (\<lambda>c. ep_id c \<noteq> i \<and> toLowerCase (ep_name c) = toLowerCase (ep_name endpoint))
                     (ws_endpoints current)
                then Inl (WhConflict (''Outbound webhook endpoint name already exists: '' @ ep_name endpoint)
                       CodeConflict)
                else Inr (current\<lparr>ws_endpoints := (ws_endpoints current)[index := endpoint]\<rparr>, endpoint))))"

definition orphaned_delivery :: "instant \<Rightarrow> wh_delivery \<Rightarrow> wh_delivery" where
  "orphaned_delivery now d =
     d\<lparr>dv_status := DeliveryExhausted, dv_completedAt := Some now,
       dv_lastError := Some ''Endpoint deleted before delivery'',
       dv_leaseToken := None, dv_leaseExpiresAt := None\<rparr>"

definition deleteOutboundWebhookEndpoint ::
  "uuid \<Rightarrow> instant \<Rightarrow> wh_store \<Rightarrow> wh_error + (wh_store \<times> wh_endpoint)" where
  "deleteOutboundWebhookEndpoint i now current =
     (case List.find (\<lambda>c. ep_id c = i) (ws_endpoints current) of
        None \<Rightarrow> Inl (WhNotFound ''endpoint'' i)
      | Some endpoint \<Rightarrow>
          Inr (current\<lparr>ws_endpoints := filter (\<lambda>c. ep_id c \<noteq> i) (ws_endpoints current),
                       ws_endpointRuntime := filter (\<lambda>r. ru_endpointId r \<noteq> i) (ws_endpointRuntime current),
                       ws_deliveries := map (\<lambda>d. if dv_endpointId d = i \<and> \<not> terminal_status (dv_status d)
                                                 then orphaned_delivery now d else d)
                                          (ws_deliveries current)\<rparr>,
               endpoint))"

subsection \<open>Enqueueing\<close>

definition resolveStoreLimit :: "js_number option \<Rightarrow> wh_error + rat" where
  "resolveStoreLimit limit =
     (let resolved = (case limit of None \<Rightarrow> Num DEFAULT_OUTBOUND_WEBHOOK_STORE_LIMIT | Some n \<Rightarrow> n)
      in case resolved of
           Num q \<Rightarrow> (if \<not> isInteger resolved \<or> q < 100
                     then Inl (WhRangeError ''Outbound webhook store limit must be an integer of at least 100'')
                     else Inr q)
         | _ \<Rightarrow> Inl (WhRangeError ''Outbound webhook store limit must be an integer of at least 100''))"

definition completion_key :: "wh_delivery \<Rightarrow> instant" where
  "completion_key d = opt_default (dv_completedAt d) (dv_nextAttemptAt d)"

text \<open>\<open>limit\<close> is a checked integer of at least 100.\<close>

definition pruneDeliveries :: "wh_delivery list \<Rightarrow> nat \<Rightarrow> wh_error + wh_delivery list" where
  "pruneDeliveries deliveries limit =
     (if length deliveries \<le> limit then Inr deliveries
      else let terminal = sort_key completion_key (filter (\<lambda>d. terminal_status (dv_status d)) deliveries);
               remove = map dv_id (take (length deliveries - limit) terminal);
               pruned = filter (\<lambda>d. dv_id d \<notin> set remove) deliveries
           in if length pruned > limit
              then Inl (WhConflict ''Outbound webhook store is full of active deliveries'' CodeConflict)
              else Inr pruned)"

definition delivery_key :: "uuid \<Rightarrow> uuid \<Rightarrow> string" where
  "delivery_key eventId endpointId = eventId @ '':'' @ endpointId"

definition key_of :: "wh_delivery \<Rightarrow> string" where
  "key_of d = delivery_key (dv_eventId d) (dv_endpointId d)"

definition new_delivery :: "wh_event \<Rightarrow> wh_endpoint \<Rightarrow> uuid \<Rightarrow> instant \<Rightarrow> wh_delivery" where
  "new_delivery event endpoint fresh now =
     \<lparr>dv_id = fresh, dv_eventId = ev_id event, dv_endpointId = ep_id endpoint, dv_event = event,
      dv_status = DeliveryPending, dv_attemptCount = 0, dv_manualRetryCount = 0,
      dv_nextAttemptAt = now, dv_lastAttemptAt = None, dv_completedAt = None, dv_statusCode = None,
      dv_lastError = None, dv_leaseToken = None, dv_leaseExpiresAt = None\<rparr>"

text \<open>The \<open>flatMap\<close> over the endpoints: the queued deliveries and the number of duplicates.\<close>

fun queue_endpoints ::
  "wh_event \<Rightarrow> string list \<Rightarrow> (nat \<Rightarrow> uuid) \<Rightarrow> instant \<Rightarrow> nat \<Rightarrow> wh_endpoint list
     \<Rightarrow> wh_error + (wh_delivery list \<times> nat)" where
  "queue_endpoints event existing fresh now n [] = Inr ([], 0)"
| "queue_endpoints event existing fresh now n (e # es) =
     (if delivery_key (ev_id event) (ep_id e) \<in> set existing
      then map_sum id (apsnd Suc) (queue_endpoints event existing fresh now n es)
      else case parsed deliverySchema (new_delivery event e (fresh n) now) of
             Inl x \<Rightarrow> Inl x
           | Inr d \<Rightarrow> map_sum id (apfst ((#) d)) (queue_endpoints event existing fresh now (Suc n) es))"

record enqueue_options =
  eq_endpointIds :: "uuid list option"
  eq_bypassEventFilters :: bool
  eq_limit :: nat
  eq_now :: instant
  eq_fresh :: "nat \<Rightarrow> uuid"

record enqueue_result =
  er_event :: wh_event
  er_matchedEndpoints :: nat
  er_queuedDeliveries :: nat
  er_duplicateDeliveries :: nat
  er_deliveryIds :: "uuid list"

definition matched_endpoints :: "wh_event \<Rightarrow> enqueue_options \<Rightarrow> wh_store \<Rightarrow> wh_endpoint list" where
  "matched_endpoints event options current =
     filter (\<lambda>e. ep_enabled e \<and> opt_selected (eq_endpointIds options) (ep_id e) \<and>
                 (eq_bypassEventFilters options \<or>
                  matchesOutboundWebhookEvent (ep_eventFilters e) (ev_type event)))
       (ws_endpoints current)"

definition enqueueOutboundWebhookEvent ::
  "wh_event \<Rightarrow> enqueue_options \<Rightarrow> wh_store \<Rightarrow> wh_error + (wh_store \<times> enqueue_result)" where
  "enqueueOutboundWebhookEvent event options current =
     (let endpoints = matched_endpoints event options current;
          existingKeys = map key_of (ws_deliveries current)
      in case queue_endpoints event existingKeys (eq_fresh options) (eq_now options) 0 endpoints of
           Inl e \<Rightarrow> Inl e
         | Inr (queued, duplicates) \<Rightarrow>
             (case pruneDeliveries (ws_deliveries current @ queued) (eq_limit options) of
                Inl e \<Rightarrow> Inl e
              | Inr deliveries \<Rightarrow>
                  Inr (current\<lparr>ws_deliveries := deliveries\<rparr>,
                       \<lparr>er_event = event, er_matchedEndpoints = length endpoints,
                        er_queuedDeliveries = length queued, er_duplicateDeliveries = duplicates,
                        er_deliveryIds = map dv_id queued\<rparr>)))"

subsection \<open>Listing and manual retries\<close>

record delivery_list_options =
  dl_endpointId :: "uuid option"
  dl_status :: "delivery_status option"
  dl_eventType :: "string option"
  dl_eventId :: "uuid option"
  dl_deliveryId :: "uuid option"
  dl_deliveryIds :: "uuid list option"
  dl_limit :: nat

definition listOutboundWebhookDeliveries ::
  "delivery_list_options \<Rightarrow> wh_store \<Rightarrow> wh_error + wh_delivery list" where
  "listOutboundWebhookDeliveries options s =
     (if dl_limit options = 0 \<or> dl_limit options > 1000
      then Inl (WhRangeError ''Delivery list limit must be between 1 and 1000'')
      else Inr (take (dl_limit options)
             (sort_descending (\<lambda>d. (dv_nextAttemptAt d, dv_id d))
               (filter (\<lambda>d. opt_equal (dl_endpointId options) (dv_endpointId d) \<and>
                            opt_equal (dl_eventId options) (dv_eventId d) \<and>
                            opt_equal (dl_deliveryId options) (dv_id d) \<and>
                            opt_selected (dl_deliveryIds options) (dv_id d) \<and>
                            opt_equal (dl_status options) (dv_status d) \<and>
                            opt_equal (dl_eventType options) (ev_type (dv_event d)))
                  (ws_deliveries s)))))"

definition delivery_status_text :: "delivery_status \<Rightarrow> string" where
  "delivery_status_text st =
     (case st of DeliveryPending \<Rightarrow> ''pending'' | DeliveryDelivering \<Rightarrow> ''delivering''
      | DeliveryRetry \<Rightarrow> ''retry'' | DeliverySucceeded \<Rightarrow> ''succeeded'' | DeliveryExhausted \<Rightarrow> ''exhausted'')"

definition requeued_delivery :: "instant \<Rightarrow> wh_delivery \<Rightarrow> wh_delivery" where
  "requeued_delivery now d =
     d\<lparr>dv_status := DeliveryPending, dv_attemptCount := 0,
       dv_manualRetryCount := dv_manualRetryCount d + 1, dv_nextAttemptAt := now,
       dv_lastAttemptAt := None, dv_completedAt := None, dv_statusCode := None, dv_lastError := None,
       dv_leaseToken := None, dv_leaseExpiresAt := None\<rparr>"

definition retryOutboundWebhookDelivery ::
  "uuid \<Rightarrow> instant \<Rightarrow> wh_store \<Rightarrow> wh_error + (wh_store \<times> (wh_delivery \<times> bool))" where
  "retryOutboundWebhookDelivery i now current =
     (case findIndex (\<lambda>d. dv_id d = i) (ws_deliveries current) of
        None \<Rightarrow> Inl (WhNotFound ''delivery'' i)
      | Some index \<Rightarrow>
          (let previous = ws_deliveries current ! index
           in if dv_status previous = DeliveryPending then Inr (current, (previous, False))
              else if dv_status previous \<notin> {DeliveryRetry, DeliveryExhausted}
              then Inl (WhConflict (''Delivery '' @ i @ '' cannot be retried from status '' @
                     delivery_status_text (dv_status previous)) CodeDeliveryStateConflict)
              else if \<not> list_ex (\<lambda>e. ep_id e = dv_endpointId previous \<and> ep_enabled e) (ws_endpoints current)
              then Inl (WhConflict (''Delivery '' @ i @ '' endpoint is missing or disabled'')
                     CodeEndpointUnavailable)
              else (case parsed deliverySchema (requeued_delivery now previous) of
                      Inl e \<Rightarrow> Inl e
                    | Inr d \<Rightarrow> Inr (current\<lparr>ws_deliveries := (ws_deliveries current)[index := d]\<rparr>, (d, True)))))"

subsection \<open>Replaying dead letters\<close>

definition resolveMaintenanceLimit :: "js_number option \<Rightarrow> wh_error + nat" where
  "resolveMaintenanceLimit limit =
     (let resolved = (case limit of None \<Rightarrow> Num 100 | Some n \<Rightarrow> n)
      in case resolved of
           Num q \<Rightarrow> (if \<not> isInteger resolved \<or> q \<le> 0 \<or> q > 1000
                     then Inl (WhRangeError ''Webhook maintenance limit must be between 1 and 1000'')
                     else Inr (nat \<lfloor>q\<rfloor>))
         | _ \<Rightarrow> Inl (WhRangeError ''Webhook maintenance limit must be between 1 and 1000''))"

record replay_options =
  rp_endpointId :: "uuid option"
  rp_deliveryIds :: "uuid list option"
  rp_limit :: nat
  rp_dryRun :: bool
  rp_now :: instant

record replay_result =
  rr_eligible :: nat
  rr_replayed :: nat
  rr_failed :: nat
  rr_dry :: bool
  rr_deliveryIds :: "uuid list"
  rr_errors :: "(uuid \<times> conflict_code) list"

definition dead_letter :: "uuid option \<Rightarrow> wh_delivery \<Rightarrow> bool" where
  "dead_letter endpointId d = (dv_status d = DeliveryExhausted \<and> opt_equal endpointId (dv_endpointId d))"

definition replay_candidates :: "replay_options \<Rightarrow> wh_store \<Rightarrow> wh_delivery list" where
  "replay_candidates options current =
     (case rp_deliveryIds options of
        None \<Rightarrow> take (rp_limit options) (sort_descending dv_nextAttemptAt
                 (filter (dead_letter (rp_endpointId options)) (ws_deliveries current)))
      | Some ids \<Rightarrow> filter (\<lambda>d. dv_id d \<in> set ids \<and> dead_letter (rp_endpointId options) d)
                     (ws_deliveries current))"

definition endpoint_enabled :: "wh_store \<Rightarrow> uuid \<Rightarrow> bool" where
  "endpoint_enabled s i = list_ex (\<lambda>e. ep_id e = i \<and> ep_enabled e) (ws_endpoints s)"

definition replayOutboundWebhookDeadLetters ::
  "replay_options \<Rightarrow> wh_store \<Rightarrow> wh_error + (wh_store \<times> replay_result)" where
  "replayOutboundWebhookDeadLetters options current =
     (let deliveries = replay_candidates options current
      in if rp_dryRun options
         then Inr (current, \<lparr>rr_eligible = length deliveries, rr_replayed = 0, rr_failed = 0, rr_dry = True,
                             rr_deliveryIds = map dv_id deliveries, rr_errors = []\<rparr>)
         else (let open' = filter (\<lambda>d. endpoint_enabled current (dv_endpointId d)) deliveries;
                   errors = map (\<lambda>d. (dv_id d, CodeEndpointUnavailable))
                              (filter (\<lambda>d. \<not> endpoint_enabled current (dv_endpointId d)) deliveries)
               in case list_parse (\<lambda>d. parsed deliverySchema (requeued_delivery (rp_now options) d)) open' of
                    Inl e \<Rightarrow> Inl e
                  | Inr requeued \<Rightarrow>
                      (let replacements = put_all dv_id requeued;
                           ids = map fst replacements;
                           result = \<lparr>rr_eligible = length deliveries, rr_replayed = length ids,
                                     rr_failed = length errors, rr_dry = False,
                                     rr_deliveryIds = ids, rr_errors = errors\<rparr>
                       in if replacements = [] then Inr (current, result)
                          else Inr (current\<lparr>ws_deliveries :=
                                      apply_replacements replacements (ws_deliveries current)\<rparr>, result))))"

end
