(* ===== verification/Webhook_Lease.thy ===== *)
theory Webhook_Lease
  imports Webhook_Outbox
begin

section \<open>Leases, the circuit breaker and maintenance of the outbox\<close>

text \<open>
  The rest of the file-backed repository of \<^verbatim>\<open>packages/automation/src/outbound-webhooks.ts\<close>:
  claiming and completing deliveries, the circuit breaker of an endpoint, recovery of
  expired leases, pruning, workers and health; then the repository as operations on
  the file.
\<close>

subsection \<open>Reconciling expired leases\<close>

record wh_reconcile_result =
  wr_scanned :: nat
  wr_recovered :: nat
  wr_exhausted :: nat
  wr_unchanged :: nat
  wr_dryRun :: bool

definition outboundWebhookLeaseReconciliationError :: "bool \<Rightarrow> bool \<Rightarrow> string" where
  "outboundWebhookLeaseReconciliationError canRetry endpointEnabled =
     (if canRetry then ''Recovered expired worker lease''
      else if endpointEnabled then ''Maximum delivery attempts reached during lease reconciliation''
      else ''Endpoint missing or disabled during lease reconciliation'')"

definition lease_key :: "wh_delivery \<Rightarrow> instant" where
  "lease_key d = opt_default (dv_leaseExpiresAt d) (opt_default (dv_lastAttemptAt d) (dv_nextAttemptAt d))"

definition delivery_lease_expired :: "instant \<Rightarrow> wh_delivery \<Rightarrow> bool" where
  "delivery_lease_expired now d = (case dv_leaseExpiresAt d of None \<Rightarrow> True | Some t \<Rightarrow> t \<le> now)"

text \<open>A \<open>Map\<close> from the identifiers: the last endpoint with the identifier.\<close>

definition endpoint_by_id :: "wh_store \<Rightarrow> uuid \<Rightarrow> wh_endpoint option" where
  "endpoint_by_id s i = List.find (\<lambda>e. ep_id e = i) (rev (ws_endpoints s))"

definition can_retry :: "wh_store \<Rightarrow> wh_delivery \<Rightarrow> bool" where
  "can_retry s d =
     (case endpoint_by_id s (dv_endpointId d) of
        None \<Rightarrow> False
      | Some e \<Rightarrow> ep_enabled e \<and> dv_attemptCount d < ep_maxAttempts e)"

definition enabled_by_id :: "wh_store \<Rightarrow> uuid \<Rightarrow> bool" where
  "enabled_by_id s i = (case endpoint_by_id s i of None \<Rightarrow> False | Some e \<Rightarrow> ep_enabled e)"

definition reconciled_delivery :: "wh_store \<Rightarrow> instant \<Rightarrow> wh_delivery \<Rightarrow> wh_delivery" where
  "reconciled_delivery s now d =
     d\<lparr>dv_status := (if can_retry s d then DeliveryRetry else DeliveryExhausted),
       dv_nextAttemptAt := now,
       dv_completedAt := (if can_retry s d then None else Some now),
       dv_lastError := Some (outboundWebhookLeaseReconciliationError (can_retry s d)
                         (enabled_by_id s (dv_endpointId d))),
       dv_leaseToken := None, dv_leaseExpiresAt := None\<rparr>"

definition reconcileOutboundWebhookDeliveries ::
  "instant \<Rightarrow> nat \<Rightarrow> bool \<Rightarrow> wh_store \<Rightarrow> wh_error + (wh_store \<times> wh_reconcile_result)" where
  "reconcileOutboundWebhookDeliveries now limit dryRun current =
     (let candidates = take limit (sort_key lease_key
            (filter (\<lambda>d. dv_status d = DeliveryDelivering) (ws_deliveries current)));
          expired = filter (delivery_lease_expired now) candidates
      in case list_parse (\<lambda>d. parsed deliverySchema (reconciled_delivery current now d)) expired of
           Inl e \<Rightarrow> Inl e
         | Inr recovered \<Rightarrow>
             (let replacements = put_all dv_id recovered;
                  result = \<lparr>wr_scanned = length candidates,
                            wr_recovered = length (filter (can_retry current) expired),
                            wr_exhausted = length (filter (\<lambda>d. \<not> can_retry current d) expired),
                            wr_unchanged = length candidates - length expired,
                            wr_dryRun = dryRun\<rparr>
              in if dryRun \<or> replacements = [] then Inr (current, result)
                 else Inr (current\<lparr>ws_deliveries := apply_replacements replacements (ws_deliveries current)\<rparr>,
                           result)))"

subsection \<open>Pruning\<close>

record prune_result =
  pr_eligible :: nat
  pr_deleted :: nat
  pr_dryRun :: bool
  pr_before :: instant
  pr_ids :: "uuid list"

definition matches_cutoff :: "instant \<Rightarrow> wh_delivery \<Rightarrow> bool" where
  "matches_cutoff before d =
     (terminal_status (dv_status d) \<and> (case dv_completedAt d of None \<Rightarrow> False | Some t \<Rightarrow> t < before))"

definition prune_candidates :: "instant \<Rightarrow> uuid list option \<Rightarrow> nat \<Rightarrow> wh_store \<Rightarrow> wh_delivery list" where
  "prune_candidates before ids limit current =
     (case ids of
        Some requested \<Rightarrow> filter (\<lambda>d. dv_id d \<in> set requested \<and> matches_cutoff before d) (ws_deliveries current)
      | None \<Rightarrow> take limit (sort_key (\<lambda>d. dv_completedAt d)
                  (filter (matches_cutoff before) (ws_deliveries current))))"

definition pruneOutboundWebhookDeliveries ::
  "instant \<Rightarrow> uuid list option \<Rightarrow> nat \<Rightarrow> bool \<Rightarrow> wh_store \<Rightarrow> wh_error + (wh_store \<times> prune_result)" where
  "pruneOutboundWebhookDeliveries before ids limit dryRun current =
     (let eligibleIds = map dv_id (prune_candidates before ids limit current);
          eligible = distinct_first eligibleIds;
          result = \<lparr>pr_eligible = length eligible, pr_deleted = (if dryRun then 0 else length eligible),
                    pr_dryRun = dryRun, pr_before = before, pr_ids = eligibleIds\<rparr>
      in if dryRun \<or> eligible = [] then Inr (current, result)
         else Inr (current\<lparr>ws_deliveries := filter (\<lambda>d. dv_id d \<notin> set eligible) (ws_deliveries current)\<rparr>,
                   result))"

subsection \<open>Claiming\<close>

record claim_deliveries_options =
  cd_dl_limit :: nat
  cd_dl_now :: instant
  cd_dl_leaseMs :: int
  cd_dl_deliveryIds :: "uuid list option"
  cd_dl_excludeDeliveryIds :: "uuid list"
  cd_dl_bypassCircuitBreaker :: bool
  cd_dl_tokens :: "nat \<Rightarrow> uuid"

record claimed_delivery =
  cw_delivery :: wh_delivery
  cw_endpoint :: "wh_endpoint option"

text \<open>\<open>circuitOpenUntilByEndpoint.get\<close>: the last open runtime record of the endpoint.\<close>

definition circuit_open_until :: "wh_store \<Rightarrow> uuid \<Rightarrow> instant option" where
  "circuit_open_until s i =
     (case List.find (\<lambda>r. ru_endpointId r = i \<and> ru_circuitState r = CircuitOpen \<and> ru_circuitOpenUntil r \<noteq> None)
             (rev (ws_endpointRuntime s)) of
        None \<Rightarrow> None | Some r \<Rightarrow> ru_circuitOpenUntil r)"

definition circuit_blocks :: "wh_store \<Rightarrow> instant \<Rightarrow> uuid \<Rightarrow> bool" where
  "circuit_blocks s now i = (case circuit_open_until s i of None \<Rightarrow> False | Some t \<Rightarrow> t > now)"

definition delivery_due :: "instant \<Rightarrow> wh_delivery \<Rightarrow> bool" where
  "delivery_due now d =
     (if dv_status d = DeliveryDelivering
      then (case dv_leaseExpiresAt d of None \<Rightarrow> False | Some t \<Rightarrow> t \<le> now)
      else dv_status d \<in> {DeliveryPending, DeliveryRetry} \<and> dv_nextAttemptAt d \<le> now)"

definition claimable_delivery :: "claim_deliveries_options \<Rightarrow> wh_store \<Rightarrow> wh_delivery \<Rightarrow> bool" where
  "claimable_delivery options s d =
     (\<not> (\<not> cd_dl_bypassCircuitBreaker options \<and> circuit_blocks s (cd_dl_now options) (dv_endpointId d)) \<and>
      dv_id d \<notin> set (cd_dl_excludeDeliveryIds options) \<and>
      opt_selected (cd_dl_deliveryIds options) (dv_id d) \<and>
      delivery_due (cd_dl_now options) d)"

definition leased_delivery :: "instant \<Rightarrow> int \<Rightarrow> uuid \<Rightarrow> wh_delivery \<Rightarrow> wh_delivery" where
  "leased_delivery now leaseMs token d =
     d\<lparr>dv_status := DeliveryDelivering, dv_attemptCount := dv_attemptCount d + 1,
       dv_lastAttemptAt := Some now, dv_leaseToken := Some token,
       dv_leaseExpiresAt := Some (now + leaseMs)\<rparr>"

definition claimable_deliveries :: "claim_deliveries_options \<Rightarrow> wh_store \<Rightarrow> wh_delivery list" where
  "claimable_deliveries options current =
     take (cd_dl_limit options)
       (sort_key dv_nextAttemptAt (filter (claimable_delivery options current) (ws_deliveries current)))"

definition claimOutboundWebhookDeliveries ::
  "claim_deliveries_options \<Rightarrow> wh_store \<Rightarrow> wh_error + (wh_store \<times> claimed_delivery list)" where
  "claimOutboundWebhookDeliveries options current =
     (case list_parse (\<lambda>(n, d). parsed deliverySchema
              (leased_delivery (cd_dl_now options) (cd_dl_leaseMs options) (cd_dl_tokens options n) d))
            (enumerate 0 (claimable_deliveries options current)) of
        Inl e \<Rightarrow> Inl e
      | Inr leased \<Rightarrow>
          (let claimedById = put_all dv_id leased
           in Inr (current\<lparr>ws_deliveries := apply_replacements claimedById (ws_deliveries current)\<rparr>,
                   map (\<lambda>p. \<lparr>cw_delivery = snd p,
                             cw_endpoint = endpoint_by_id current (dv_endpointId (snd p))\<rparr>) claimedById)))"

subsection \<open>Completing\<close>

record complete_result =
  cr_success :: bool
  cr_retryable :: bool
  cr_statusCode :: "int option"
  cr_error :: "string option"

definition control_space :: "char \<Rightarrow> bool" where
  "control_space c = ((of_char c :: nat) \<in> {9, 10, 13})"

text \<open>\<open>replaceAll(/[\r\n\t]+/gu, " ")\<close>: every maximal run becomes one space.\<close>

fun collapse_controls :: "bool \<Rightarrow> string \<Rightarrow> string" where
  "collapse_controls inside [] = []"
| "collapse_controls inside (c # cs) =
     (if control_space c then (if inside then collapse_controls True cs else CHR '' '' # collapse_controls True cs)
      else c # collapse_controls False cs)"

definition truncateOutboundWebhookError :: "string \<Rightarrow> string" where
  "truncateOutboundWebhookError m = take 500 (collapse_controls False m)"

definition outboundWebhookRetryDelayMs :: "int \<Rightarrow> int \<Rightarrow> int" where
  "outboundWebhookRetryDelayMs attemptCount baseDelayMs =
     min MAX_OUTBOUND_WEBHOOK_RETRY_DELAY_MS (baseDelayMs * 2 ^ nat (max 0 (attemptCount - 1)))"

definition completion_status :: "complete_result \<Rightarrow> wh_endpoint option \<Rightarrow> wh_delivery \<Rightarrow> delivery_status" where
  "completion_status result endpoint latest =
     (if cr_success result then DeliverySucceeded
      else if \<not> cr_retryable result \<or>
              (case endpoint of None \<Rightarrow> True | Some e \<Rightarrow> dv_attemptCount latest \<ge> ep_maxAttempts e)
      then DeliveryExhausted else DeliveryRetry)"

definition completed_delivery ::
  "complete_result \<Rightarrow> wh_endpoint option \<Rightarrow> instant \<Rightarrow> int \<Rightarrow> wh_delivery \<Rightarrow> wh_delivery" where
  "completed_delivery result endpoint now base latest =
     (let status = completion_status result endpoint latest
      in latest\<lparr>dv_status := status,
                dv_nextAttemptAt := (if status = DeliveryRetry
                  then now + outboundWebhookRetryDelayMs (dv_attemptCount latest) base
                  else dv_nextAttemptAt latest),
                dv_completedAt := (if terminal_status status then Some now else None),
                dv_statusCode := cr_statusCode result,
                dv_lastError := map_option truncateOutboundWebhookError (cr_error result),
                dv_leaseToken := None, dv_leaseExpiresAt := None\<rparr>)"

definition initial_runtime :: "uuid \<Rightarrow> wh_runtime" where
  "initial_runtime i =
     \<lparr>ru_endpointId = i, ru_consecutiveFailures = 0, ru_circuitState = CircuitClosed,
      ru_circuitOpenedAt = None, ru_circuitOpenUntil = None, ru_lastFailureAt = None,
      ru_lastSuccessAt = None\<rparr>"

definition next_runtime :: "wh_runtime \<Rightarrow> wh_endpoint \<Rightarrow> bool \<Rightarrow> instant \<Rightarrow> wh_runtime" where
  "next_runtime previous endpoint success now =
     (let failures = (if success then 0 else ru_consecutiveFailures previous + 1);
          shouldOpen = (\<not> success \<and> failures \<ge> ep_circuitFailureThreshold endpoint)
      in previous\<lparr>ru_consecutiveFailures := failures,
                  ru_circuitState := (if shouldOpen then CircuitOpen else CircuitClosed),
                  ru_circuitOpenedAt := (if shouldOpen then Some now else None),
                  ru_circuitOpenUntil := (if shouldOpen then Some (now + ep_circuitCooldownMs endpoint) else None),
                  ru_lastFailureAt := (if success then ru_lastFailureAt previous else Some now),
                  ru_lastSuccessAt := (if success then Some now else ru_lastSuccessAt previous)\<rparr>)"

definition updateEndpointRuntimeAfterAttempt ::
  "wh_runtime list \<Rightarrow> wh_endpoint option \<Rightarrow> complete_result \<Rightarrow> instant \<Rightarrow> wh_error + wh_runtime list" where
  "updateEndpointRuntimeAfterAttempt runtimes endpoint result now =
     (case endpoint of
        None \<Rightarrow> Inr runtimes
      | Some e \<Rightarrow>
          (if \<not> ep_enabled e \<and> \<not> cr_success result then Inr runtimes
           else (case findIndex (\<lambda>r. ru_endpointId r = ep_id e) runtimes of
                   None \<Rightarrow> map_sum id (\<lambda>r. runtimes @ [r])
                     (parsed endpointRuntimeSchema (next_runtime (initial_runtime (ep_id e)) e (cr_success result) now))
                 | Some index \<Rightarrow> map_sum id (\<lambda>r. runtimes[index := r])
                     (parsed endpointRuntimeSchema (next_runtime (runtimes ! index) e (cr_success result) now)))))"

definition completeOutboundWebhookDelivery ::
  "wh_delivery \<Rightarrow> complete_result \<Rightarrow> wh_endpoint option \<Rightarrow> instant \<Rightarrow> int \<Rightarrow> wh_store
     \<Rightarrow> wh_error + (wh_store \<times> wh_delivery)" where
  "completeOutboundWebhookDelivery claimed result endpoint now base current =
     (case findIndex (\<lambda>d. dv_id d = dv_id claimed) (ws_deliveries current) of
        None \<Rightarrow> Inl (WhNotFound ''delivery'' (dv_id claimed))
      | Some index \<Rightarrow>
          (let latest = ws_deliveries current ! index
           in if dv_status latest \<noteq> DeliveryDelivering \<or> dv_leaseToken latest \<noteq> dv_leaseToken claimed
              then Inl (WhConflict (''Delivery '' @ dv_id claimed @ '' lease is no longer owned by this worker'')
                     CodeLeaseConflict)
              else (case parsed deliverySchema (completed_delivery result endpoint now base latest) of
                      Inl e \<Rightarrow> Inl e
                    | Inr d \<Rightarrow>
                        (case updateEndpointRuntimeAfterAttempt (ws_endpointRuntime current) endpoint result now of
                           Inl e \<Rightarrow> Inl e
                         | Inr runtimes \<Rightarrow>
                             Inr (current\<lparr>ws_deliveries := (ws_deliveries current)[index := d],
                                          ws_endpointRuntime := runtimes\<rparr>, d)))))"

subsection \<open>Resetting a circuit\<close>

definition reset_runtime :: "wh_runtime \<Rightarrow> wh_runtime" where
  "reset_runtime r =
     r\<lparr>ru_circuitOpenedAt := None, ru_circuitOpenUntil := None, ru_consecutiveFailures := 0,
       ru_circuitState := CircuitClosed\<rparr>"

definition resetOutboundWebhookEndpointCircuit ::
  "uuid \<Rightarrow> wh_store \<Rightarrow> wh_error + (wh_store \<times> wh_runtime)" where
  "resetOutboundWebhookEndpointCircuit i current =
     (if \<not> list_ex (\<lambda>e. ep_id e = i) (ws_endpoints current) then Inl (WhNotFound ''endpoint'' i)
      else case List.find (\<lambda>r. ru_endpointId r = i) (ws_endpointRuntime current) of
             None \<Rightarrow> Inr (current, initial_runtime i)
           | Some existing \<Rightarrow>
               (if ru_circuitState existing = CircuitClosed \<and> ru_consecutiveFailures existing = 0
                then Inr (current, existing)
                else (case parsed endpointRuntimeSchema (reset_runtime existing) of
                        Inl e \<Rightarrow> Inl e
                      | Inr runtime \<Rightarrow>
                          Inr (current\<lparr>ws_endpointRuntime :=
                                 filter (\<lambda>r. ru_endpointId r \<noteq> i) (ws_endpointRuntime current) @ [runtime]\<rparr>,
                               runtime))))"

subsection \<open>Workers\<close>

definition retained_at :: "wh_worker \<Rightarrow> instant" where
  "retained_at w =
     (if ww_status w = WhWorkerRunning then ww_heartbeatAt w
      else opt_default (ww_stoppedAt w) (ww_heartbeatAt w))"

definition upsertOutboundWebhookWorker :: "wh_worker \<Rightarrow> wh_store \<Rightarrow> wh_error + (wh_store \<times> unit)" where
  "upsertOutboundWebhookWorker input current =
     (case parsed webhookWorkerSchema input of
        Inl e \<Rightarrow> Inl e
      | Inr worker \<Rightarrow>
          (let cutoff = ww_heartbeatAt worker - DEFAULT_OUTBOUND_WEBHOOK_WORKER_RETENTION_MS
           in Inr (current\<lparr>ws_workers :=
                     filter (\<lambda>c. ww_id c \<noteq> ww_id worker \<and> retained_at c \<ge> cutoff) (ws_workers current) @
                     [worker]\<rparr>, ())))"

subsection \<open>Health\<close>

record wh_health =
  wh_schemaVersion :: int
  wh_healthy :: bool
  wh_endpoints_total :: nat
  wh_endpoints_enabled :: nat
  wh_endpoints_circuitOpen :: nat
  wh_counts :: "(delivery_status \<times> nat) list"
  wh_due :: nat
  wh_deadLetter :: nat
  wh_oldestDueAt :: "instant option"
  wh_workers_running :: nat
  wh_workers_stale :: nat
  wh_workers_stopped :: nat
  wh_workers_failed :: nat
  wh_lastHeartbeatAt :: "instant option"

definition delivery_statuses :: "delivery_status list" where
  "delivery_statuses =
     [DeliveryPending, DeliveryDelivering, DeliveryRetry, DeliverySucceeded, DeliveryExhausted]"

definition health_due :: "instant \<Rightarrow> wh_delivery \<Rightarrow> bool" where
  "health_due now d =
     (if dv_status d \<in> {DeliveryPending, DeliveryRetry} then dv_nextAttemptAt d \<le> now
      else dv_status d = DeliveryDelivering \<and> delivery_lease_expired now d)"

definition due_time :: "wh_delivery \<Rightarrow> instant" where
  "due_time d = (if dv_status d = DeliveryDelivering then lease_key d else dv_nextAttemptAt d)"

definition runtime_open :: "instant \<Rightarrow> wh_runtime \<Rightarrow> bool" where
  "runtime_open now r =
     (ru_circuitState r = CircuitOpen \<and>
      (case ru_circuitOpenUntil r of None \<Rightarrow> True | Some t \<Rightarrow> t > now))"

definition summarizeOutboundWebhookRuntimeHealth :: "wh_store \<Rightarrow> instant \<Rightarrow> int \<Rightarrow> wh_health" where
  "summarizeOutboundWebhookRuntimeHealth s now workerStaleMs =
     (let deliveries = ws_deliveries s;
          count = (\<lambda>st. length (filter (\<lambda>d. dv_status d = st) deliveries));
          due = filter (health_due now) deliveries;
          running = filter (\<lambda>w. ww_status w = WhWorkerRunning) (ws_workers s);
          stale = filter (\<lambda>w. now - ww_heartbeatAt w > workerStaleMs) running;
          active = filter (\<lambda>w. now - ww_heartbeatAt w \<le> workerStaleMs) running;
          heartbeats = sort (map ww_heartbeatAt active);
          circuitOpen = length (filter (runtime_open now) (ws_endpointRuntime s));
          dueTimes = sort (map due_time due)
      in \<lparr>wh_schemaVersion = OUTBOUND_WEBHOOK_STORE_VERSION,
          wh_healthy = (circuitOpen = 0 \<and> (due = [] \<or> active \<noteq> [])),
          wh_endpoints_total = length (ws_endpoints s),
          wh_endpoints_enabled = length (filter ep_enabled (ws_endpoints s)),
          wh_endpoints_circuitOpen = circuitOpen,
          wh_counts = map (\<lambda>st. (st, count st)) delivery_statuses,
          wh_due = length due,
          wh_deadLetter = count DeliveryExhausted,
          wh_oldestDueAt = (case dueTimes of [] \<Rightarrow> None | t # _ \<Rightarrow> Some t),
          wh_workers_running = length active,
          wh_workers_stale = length stale,
          wh_workers_stopped = length (filter (\<lambda>w. ww_status w = WhWorkerStopped) (ws_workers s)),
          wh_workers_failed = length (filter (\<lambda>w. ww_status w = WhWorkerFailed) (ws_workers s)),
          wh_lastHeartbeatAt = (if heartbeats = [] then None else Some (last heartbeats))\<rparr>)"

definition getOutboundWebhookRuntimeHealth :: "js_number option \<Rightarrow> instant \<Rightarrow> wh_store \<Rightarrow> wh_error + wh_health" where
  "getOutboundWebhookRuntimeHealth workerStaleMs now s =
     (let stale = opt_default workerStaleMs (Num 90000)
      in case stale of
           Num q \<Rightarrow> (if \<not> isInteger stale \<or> q < 1000 \<or> q > 86400000
                     then Inl (WhRangeError ''Webhook worker stale threshold must be between 1000 and 86400000ms'')
                     else Inr (summarizeOutboundWebhookRuntimeHealth s now \<lfloor>q\<rfloor>))
         | _ \<Rightarrow> Inl (WhRangeError ''Webhook worker stale threshold must be between 1000 and 86400000ms''))"

subsection \<open>The repository as operations on the file\<close>

definition createOutboundWebhookStore :: "wh_store json_store" where
  "createOutboundWebhookStore =
     \<lparr>js_default = \<lparr>ws_version = OUTBOUND_WEBHOOK_STORE_VERSION, ws_endpoints = [], ws_deliveries = [],
                    ws_endpointRuntime = [], ws_workers = []\<rparr>,
      js_parse = parseWebhookStore\<rparr>"

datatype wh_op =
    WhCreateEndpoint wh_endpoint
  | WhUpdateEndpoint uuid wh_endpoint_update instant
  | WhDeleteEndpoint uuid instant
  | WhEnqueue wh_event enqueue_options
  | WhRetry uuid instant
  | WhReplay replay_options
  | WhReconcile instant nat bool
  | WhPrune instant "uuid list option" nat bool
  | WhClaim claim_deliveries_options
  | WhComplete wh_delivery complete_result "wh_endpoint option" instant int
  | WhResetCircuit uuid
  | WhUpsertWorker wh_worker

datatype wh_outcome =
    OutEndpoint wh_endpoint
  | OutEnqueued enqueue_result
  | OutRetried wh_delivery bool
  | OutReplayedLetters replay_result
  | OutReconciled wh_reconcile_result
  | OutPruned prune_result
  | OutClaimed "claimed_delivery list"
  | OutDelivery wh_delivery
  | OutRuntime wh_runtime
  | OutDone

definition wh_with :: "('r \<Rightarrow> wh_outcome) \<Rightarrow> wh_error + (wh_store \<times> 'r) \<Rightarrow> wh_error + (wh_store \<times> wh_outcome)" where
  "wh_with f r = (case r of Inl e \<Rightarrow> Inl e | Inr (s, v) \<Rightarrow> Inr (s, f v))"

definition webhook_callback :: "url_parser \<Rightarrow> wh_op \<Rightarrow> wh_store \<Rightarrow> wh_error + (wh_store \<times> wh_outcome)" where
  "webhook_callback parse op s =
     (case op of
        WhCreateEndpoint e \<Rightarrow> wh_with OutEndpoint (persistFileOutboundWebhookEndpoint e s)
      | WhUpdateEndpoint i input now \<Rightarrow> wh_with OutEndpoint (updateOutboundWebhookEndpoint parse i input now s)
      | WhDeleteEndpoint i now \<Rightarrow> wh_with OutEndpoint (deleteOutboundWebhookEndpoint i now s)
      | WhEnqueue ev options \<Rightarrow> wh_with OutEnqueued (enqueueOutboundWebhookEvent ev options s)
      | WhRetry i now \<Rightarrow> wh_with (\<lambda>(d, b). OutRetried d b) (retryOutboundWebhookDelivery i now s)
      | WhReplay options \<Rightarrow> wh_with OutReplayedLetters (replayOutboundWebhookDeadLetters options s)
      | WhReconcile now limit dry \<Rightarrow> wh_with OutReconciled (reconcileOutboundWebhookDeliveries now limit dry s)
      | WhPrune before ids limit dry \<Rightarrow> wh_with OutPruned (pruneOutboundWebhookDeliveries before ids limit dry s)
      | WhClaim options \<Rightarrow> wh_with OutClaimed (claimOutboundWebhookDeliveries options s)
      | WhComplete d result endpoint now base \<Rightarrow>
          wh_with OutDelivery (completeOutboundWebhookDelivery d result endpoint now base s)
      | WhResetCircuit i \<Rightarrow> wh_with OutRuntime (resetOutboundWebhookEndpointCircuit i s)
      | WhUpsertWorker w \<Rightarrow> wh_with (\<lambda>_. OutDone) (upsertOutboundWebhookWorker w s))"

definition webhook_repository_step ::
  "url_parser \<Rightarrow> io_env \<times> wh_op \<Rightarrow> wh_store option
     \<Rightarrow> wh_store option \<times> (wh_error store_failure + wh_outcome)" where
  "webhook_repository_step parse x file =
     updateJsonFileStore createOutboundWebhookStore (fst x) (webhook_callback parse (snd x)) file"

end
