(* ===== verification/Webhook_Invariant.thy ===== *)
theory Webhook_Invariant
  imports Webhook_Lease
begin

section \<open>The invariant of the webhook document\<close>

text \<open>
  \<open>wh_wf\<close>: valid endpoints with distinct identifiers and names; valid deliveries with
  distinct identifiers, at most one per event and endpoint, each in a consistent state
  (a lease exactly while delivering, a completion time exactly when terminal, no
  attempt counted while pending), whose endpoint exists unless they are terminal; a
  circuit record per endpoint at most, open exactly when it has its times; distinct
  workers.  Every operation of the repository keeps it.
\<close>

subsection \<open>The invariant\<close>

definition delivery_state_ok :: "wh_delivery \<Rightarrow> bool" where
  "delivery_state_ok d \<longleftrightarrow>
     (dv_status d = DeliveryDelivering \<longleftrightarrow> dv_leaseToken d \<noteq> None) \<and>
     (dv_leaseToken d = None \<longleftrightarrow> dv_leaseExpiresAt d = None) \<and>
     (terminal_status (dv_status d) \<longleftrightarrow> dv_completedAt d \<noteq> None) \<and>
     (dv_status d = DeliveryPending \<longrightarrow> dv_attemptCount d = 0) \<and>
     (dv_status d \<in> {DeliveryDelivering, DeliveryRetry} \<longrightarrow> 1 \<le> dv_attemptCount d)"

definition delivery_fine :: "uuid set \<Rightarrow> wh_delivery \<Rightarrow> bool" where
  "delivery_fine eps d \<longleftrightarrow> deliverySchema d = Some d \<and> delivery_state_ok d \<and>
     dv_eventId d = ev_id (dv_event d) \<and> (terminal_status (dv_status d) \<or> dv_endpointId d \<in> eps)"

definition deliveries_fine :: "uuid set \<Rightarrow> wh_delivery list \<Rightarrow> bool" where
  "deliveries_fine eps ds \<longleftrightarrow> (\<forall>d \<in> set ds. delivery_fine eps d) \<and>
     distinct (map dv_id ds) \<and> distinct (map key_of ds)"

definition endpoint_key :: "wh_endpoint \<Rightarrow> string" where
  "endpoint_key e = toLowerCase (ep_name e)"

definition endpoints_fine :: "wh_endpoint list \<Rightarrow> bool" where
  "endpoints_fine es \<longleftrightarrow> (\<forall>e \<in> set es. endpointSchema e = Some e) \<and>
     distinct (map ep_id es) \<and> distinct (map endpoint_key es)"

definition circuit_ok :: "wh_runtime \<Rightarrow> bool" where
  "circuit_ok r \<longleftrightarrow> (ru_circuitState r = CircuitOpen \<longleftrightarrow> ru_circuitOpenUntil r \<noteq> None) \<and>
     (ru_circuitState r = CircuitOpen \<longleftrightarrow> ru_circuitOpenedAt r \<noteq> None) \<and>
     (ru_circuitState r = CircuitOpen \<longrightarrow> 1 \<le> ru_consecutiveFailures r)"

definition runtimes_fine :: "uuid set \<Rightarrow> wh_runtime list \<Rightarrow> bool" where
  "runtimes_fine eps rs \<longleftrightarrow>
     (\<forall>r \<in> set rs. endpointRuntimeSchema r = Some r \<and> circuit_ok r \<and> ru_endpointId r \<in> eps) \<and>
     distinct (map ru_endpointId rs)"

definition wh_workers_fine :: "wh_worker list \<Rightarrow> bool" where
  "wh_workers_fine ws \<longleftrightarrow> (\<forall>w \<in> set ws. webhookWorkerSchema w = Some w) \<and> distinct (map ww_id ws)"

definition endpoint_ids :: "wh_store \<Rightarrow> uuid set" where
  "endpoint_ids s = ep_id ` set (ws_endpoints s)"

definition wh_wf :: "wh_store \<Rightarrow> bool" where
  "wh_wf s \<longleftrightarrow> ws_version s = OUTBOUND_WEBHOOK_STORE_VERSION \<and> endpoints_fine (ws_endpoints s) \<and>
     deliveries_fine (endpoint_ids s) (ws_deliveries s) \<and>
     runtimes_fine (endpoint_ids s) (ws_endpointRuntime s) \<and> wh_workers_fine (ws_workers s)"

lemma endpoint_ids_update [simp]:
  "endpoint_ids (s\<lparr>ws_deliveries := ds\<rparr>) = endpoint_ids s"
  "endpoint_ids (s\<lparr>ws_endpointRuntime := rs\<rparr>) = endpoint_ids s"
  "endpoint_ids (s\<lparr>ws_workers := ws\<rparr>) = endpoint_ids s"
  by (simp_all add: endpoint_ids_def)

lemma parse_wf_webhooks:
  assumes "wh_wf s"
  shows "parseWebhookStore s = Inr s"
proof -
  have "list_schema endpointSchema (ws_endpoints s) = Some (ws_endpoints s)"
    "list_schema deliverySchema (ws_deliveries s) = Some (ws_deliveries s)"
    "list_schema endpointRuntimeSchema (ws_endpointRuntime s) = Some (ws_endpointRuntime s)"
    "list_schema webhookWorkerSchema (ws_workers s) = Some (ws_workers s)"
    using assms unfolding list_schema_fixed [symmetric]
    by (simp_all add: wh_wf_def endpoints_fine_def deliveries_fine_def delivery_fine_def
        runtimes_fine_def wh_workers_fine_def)
  then show ?thesis
    using assms by (simp add: parseWebhookStore_def webhook_store_schema_def wh_wf_def
        OUTBOUND_WEBHOOK_STORE_VERSION_def)
qed

subsection \<open>Replacing deliveries\<close>

lemma key_of_parsed:
  "deliverySchema d = Some p \<Longrightarrow> key_of p = key_of d"
  by (simp add: key_of_def delivery_schema_fields)

lemma event_id_parsed: "eventSchema e = Some p \<Longrightarrow> ev_id p = ev_id e"
  by (auto simp: eventSchema_def split: option.splits if_splits)

text \<open>What a delivery may become.\<close>

definition becomes :: "uuid set \<Rightarrow> wh_delivery \<Rightarrow> wh_delivery \<Rightarrow> bool" where
  "becomes eps d d' \<longleftrightarrow> dv_id d' = dv_id d \<and> key_of d' = key_of d \<and> delivery_fine eps d'"

lemma deliveries_map:
  assumes "distinct (map dv_id ds)" "distinct (map key_of ds)" "\<And>d. d \<in> set ds \<Longrightarrow> becomes eps d (f d)"
  shows "deliveries_fine eps (map f ds)"
proof -
  have "map dv_id (map f ds) = map dv_id ds" "map key_of (map f ds) = map key_of ds"
    using assms(3) by (simp_all add: becomes_def)
  then show ?thesis using assms by (auto simp: deliveries_fine_def becomes_def simp del: map_map)
qed

lemma becomes_refl: "deliveries_fine eps ds \<Longrightarrow> d \<in> set ds \<Longrightarrow> becomes eps d d"
  by (simp add: becomes_def deliveries_fine_def)

lemma deliveries_filter: "deliveries_fine eps ds \<Longrightarrow> deliveries_fine eps (filter P ds)"
  by (auto simp: deliveries_fine_def distinct_map_filter)

lemma nth_update_map:
  assumes "distinct (map k xs)" "i < length xs" "k v = k (xs ! i)"
  shows "xs[i := v] = map (\<lambda>x. if k x = k v then v else x) xs"
proof (rule nth_equalityI)
  fix j
  assume j: "j < length (xs[i := v])"
  have "k (xs ! j) = k (xs ! i) \<longleftrightarrow> j = i"
    using assms(1,2) j by (auto simp: distinct_conv_nth)
  then show "xs[i := v] ! j = map (\<lambda>x. if k x = k v then v else x) xs ! j"
    using assms j by (simp add: nth_list_update)
qed simp

lemma deliveries_update:
  assumes "deliveries_fine eps ds" "i < length ds" "becomes eps (ds ! i) d"
  shows "deliveries_fine eps (ds[i := d])"
proof -
  have "ds[i := d] = map (\<lambda>x. if dv_id x = dv_id d then d else x) ds"
    using assms by (intro nth_update_map) (auto simp: deliveries_fine_def becomes_def)
  moreover have "becomes eps x (if dv_id x = dv_id d then d else x)" if x: "x \<in> set ds" for x
  proof (cases "dv_id x = dv_id d")
    case True
    then have "x = ds ! i"
      using assms x distinct_key_inj [of dv_id ds x "ds ! i"] by (auto simp: deliveries_fine_def becomes_def)
    then show ?thesis using True assms(3) by simp
  qed (use becomes_refl [OF assms(1) x] in simp)
  ultimately show ?thesis
    using assms(1) deliveries_map [of ds eps "\<lambda>x. if dv_id x = dv_id d then d else x"]
    by (simp add: deliveries_fine_def)
qed

subsection \<open>Maps of replacements\<close>

lemma put_all_snoc: "put_all k (xs @ [x]) = AList.update (k x) x (put_all k xs)"
  by (simp add: put_all_def)

lemma put_all_Some: "map_of (put_all k xs) i = Some v \<Longrightarrow> v \<in> set xs \<and> k v = i"
  by (induction xs rule: rev_induct) (auto simp: put_all_snoc update_conv put_all_def split: if_splits)

lemma put_all_None: "map_of (put_all k xs) i = None \<longleftrightarrow> i \<notin> k ` set xs"
  by (induction xs rule: rev_induct) (auto simp: put_all_snoc update_conv put_all_def)

lemma put_all_Nil [simp]: "put_all k [] = []"
  by (simp add: put_all_def)

lemma put_all_empty: "put_all k xs = [] \<longleftrightarrow> xs = []"
proof (cases xs rule: rev_cases)
  case (snoc ys y)
  have "AList.update a b al \<noteq> []" for a b and al :: "('a \<times> 'b) list"
    by (cases al) auto
  then show ?thesis using snoc by (simp add: put_all_snoc)
qed simp

lemma update_absent: "k \<notin> fst ` set xs \<Longrightarrow> AList.update k v xs = xs @ [(k, v)]"
  by (induction xs) auto

lemma put_all_distinct: "distinct (map k xs) \<Longrightarrow> put_all k xs = map (\<lambda>x. (k x, x)) xs"
proof (induction xs rule: rev_induct)
  case (snoc x xs)
  then have "k x \<notin> fst ` set (put_all k xs)" by (auto simp: image_iff)
  then show ?case using snoc by (simp add: put_all_snoc update_absent)
qed simp

lemma apply_replacements_parsed:
  assumes ds: "distinct (map dv_id ds)" and parse: "list_parse g cs = Inr rs"
    and cs: "\<And>c. c \<in> set cs \<Longrightarrow> h c \<in> set ds"
    and ids: "\<And>c r. g c = Inr r \<Longrightarrow> dv_id r = dv_id (h c)"
    and d: "d \<in> set ds"
  shows "(case map_of (put_all dv_id rs) (dv_id d) of Some r \<Rightarrow> r | None \<Rightarrow> d) = d \<or>
    (\<exists>c \<in> set cs. h c = d \<and>
       g c = Inr (case map_of (put_all dv_id rs) (dv_id d) of Some r \<Rightarrow> r | None \<Rightarrow> d))"
proof (cases "map_of (put_all dv_id rs) (dv_id d)")
  case (Some r)
  then obtain c where c: "c \<in> set cs" "g c = Inr r" "dv_id r = dv_id d"
    using put_all_Some [OF Some] list_parse_members [OF parse] by blast
  then have "dv_id (h c) = dv_id d" using ids [OF c(2)] by simp
  then have "h c = d" using distinct_key_inj [OF ds cs [OF c(1)] d] by simp
  then show ?thesis using Some c by auto
qed simp

lemma deliveries_replace:
  assumes fine: "deliveries_fine eps ds" and parse: "list_parse g cs = Inr rs"
    and cs: "\<And>c. c \<in> set cs \<Longrightarrow> h c \<in> set ds"
    and step: "\<And>c r. c \<in> set cs \<Longrightarrow> g c = Inr r \<Longrightarrow> becomes eps (h c) r"
    and ids: "\<And>c r. g c = Inr r \<Longrightarrow> dv_id r = dv_id (h c)"
  shows "deliveries_fine eps (apply_replacements (put_all dv_id rs) ds)"
proof -
  have dist: "distinct (map dv_id ds)" "distinct (map key_of ds)" using fine by (auto simp: deliveries_fine_def)
  show ?thesis
    unfolding apply_replacements_def
  proof (rule deliveries_map [OF dist])
    fix d
    assume d: "d \<in> set ds"
    show "becomes eps d (case map_of (put_all dv_id rs) (dv_id d) of Some r \<Rightarrow> r | None \<Rightarrow> d)"
      using apply_replacements_parsed [where h = h, OF dist(1) parse cs ids d] step becomes_refl [OF fine d] by metis
  qed
qed

text \<open>A parsed change of the run-time fields of a valid delivery.\<close>

lemma parsed_change:
  assumes d: "delivery_fine eps d" and p: "deliverySchema d' = Some p"
    and same: "dv_id d' = dv_id d" "dv_eventId d' = dv_eventId d" "dv_endpointId d' = dv_endpointId d"
      "dv_event d' = dv_event d"
    and ok: "delivery_state_ok d'" "terminal_status (dv_status d') \<or> dv_endpointId d \<in> eps"
  shows "p = d' \<and> becomes eps d p"
proof -
  have ev: "eventSchema (dv_event d) = Some (dv_event d)"
    using d delivery_schema_fields(14) [of d d] by (simp add: delivery_fine_def)
  then have "p = d'" using delivery_schema_same [OF p] same by simp
  then show ?thesis
    using d p same ok by (simp add: becomes_def delivery_fine_def key_of_def)
qed

end
