(* ===== verification/Webhook_System.thy ===== *)
theory Webhook_System
  imports Webhook_Invariant
begin

section \<open>Every repository operation keeps the webhook document valid\<close>

text \<open>
  One preservation lemma per operation of \<open>Webhook_Outbox\<close> and \<open>Webhook_Lease\<close>, then the
  repository file as an instance of \<open>op_system\<close>.  \<open>wh_legal\<close> states what the callers of
  the repository guarantee: an endpoint and an event have passed their schemas, fresh
  identifiers are fresh, and a completion names the endpoint the delivery belongs to.
\<close>

lemma wh_wf_parts:
  assumes "wh_wf s"
  shows "endpoints_fine (ws_endpoints s)" "deliveries_fine (endpoint_ids s) (ws_deliveries s)"
    "runtimes_fine (endpoint_ids s) (ws_endpointRuntime s)" "wh_workers_fine (ws_workers s)"
    "ws_version s = OUTBOUND_WEBHOOK_STORE_VERSION"
  using assms by (simp_all add: wh_wf_def)

lemma wh_wf_deliveries:
  "wh_wf s \<Longrightarrow> deliveries_fine (endpoint_ids s) ds \<Longrightarrow> wh_wf (s\<lparr>ws_deliveries := ds\<rparr>)"
  by (simp add: wh_wf_def)

lemma wf_delivery: "wh_wf s \<Longrightarrow> d \<in> set (ws_deliveries s) \<Longrightarrow> delivery_fine (endpoint_ids s) d"
  by (simp add: wh_wf_def deliveries_fine_def)

lemma deliveries_fine_mono:
  assumes "deliveries_fine A ds" "A \<subseteq> B"
  shows "deliveries_fine B ds"
  using assms by (auto simp: deliveries_fine_def delivery_fine_def)

lemma runtimes_fine_mono: "runtimes_fine A rs \<Longrightarrow> A \<subseteq> B \<Longrightarrow> runtimes_fine B rs"
  by (auto simp: runtimes_fine_def)

subsection \<open>Endpoints\<close>

lemma create_endpoint_wf:
  assumes "wh_wf s" "endpointSchema e = Some e" "ep_id e \<notin> endpoint_ids s"
    and "persistFileOutboundWebhookEndpoint e s = Inr (s', r)"
  shows "wh_wf s'"
proof -
  have n: "endpoint_key e \<notin> endpoint_key ` set (ws_endpoints s)"
    and s': "s' = s\<lparr>ws_endpoints := ws_endpoints s @ [e]\<rparr>"
    using assms(4) by (auto simp: persistFileOutboundWebhookEndpoint_def endpoint_key_def list_ex_iff
        split: if_splits)
  have ids: "endpoint_ids s' = insert (ep_id e) (endpoint_ids s)" by (simp add: s' endpoint_ids_def)
  show ?thesis
    using wh_wf_parts [OF assms(1)] n assms(2,3) deliveries_fine_mono [of "endpoint_ids s" _ "endpoint_ids s'"]
      runtimes_fine_mono [of "endpoint_ids s" _ "endpoint_ids s'"]
    by (auto simp: wh_wf_def ids endpoints_fine_def s' endpoint_ids_def)
qed

lemma merge_endpoint:
  assumes "mergeOutboundWebhookEndpointUpdate parse p input now = Inr e"
  shows "ep_id e = ep_id p" "endpointSchema e = Some e"
proof -
  obtain d where d: "endpointSchema d = Some e" "ep_id d = ep_id p"
    using assms by (auto simp: mergeOutboundWebhookEndpointUpdate_def split: sum.splits)
  show "ep_id e = ep_id p" using d by (auto simp: endpointSchema_def split: option.splits if_splits)
  show "endpointSchema e = Some e" using idem_endpoint d(1) by (simp add: idem_schema_def)
qed

lemma update_endpoint_wf:
  assumes "wh_wf s" "updateOutboundWebhookEndpoint parse i input now s = Inr (s', e)"
  shows "wh_wf s'"
proof -
  obtain n where n: "findIndex (\<lambda>e. ep_id e = i) (ws_endpoints s) = Some n"
      "mergeOutboundWebhookEndpointUpdate parse (ws_endpoints s ! n) input now = Inr e"
      "\<not> list_ex (\<lambda>c. ep_id c \<noteq> i \<and> toLowerCase (ep_name c) = toLowerCase (ep_name e)) (ws_endpoints s)"
      "s' = s\<lparr>ws_endpoints := (ws_endpoints s)[n := e]\<rparr>"
    using assms(2) by (auto simp: updateOutboundWebhookEndpoint_def split: option.splits sum.splits if_splits)
  note ix = findIndex_SomeD [OF n(1)]
  note me = merge_endpoint [OF n(2)]
  note p = wh_wf_parts [OF assms(1)]
  have dist: "distinct (map ep_id (ws_endpoints s))" using p(1) by (simp add: endpoints_fine_def)
  have upd: "(ws_endpoints s)[n := e] = map (\<lambda>x. if ep_id x = ep_id e then e else x) (ws_endpoints s)"
    using ix me dist by (intro nth_update_map) auto
  have id_e: "ep_id e = i" using ix me by simp
  have ids: "map ep_id ((ws_endpoints s)[n := e]) = map ep_id (ws_endpoints s)"
    by (simp add: upd)
  have "distinct (map endpoint_key ((ws_endpoints s)[n := e]))"
  proof -
    have "inj_on (\<lambda>x. endpoint_key (if ep_id x = i then e else x)) (set (ws_endpoints s))"
    proof (rule inj_onI)
      fix x y
      assume xy: "x \<in> set (ws_endpoints s)" "y \<in> set (ws_endpoints s)"
        "endpoint_key (if ep_id x = i then e else x) = endpoint_key (if ep_id y = i then e else y)"
      have other: "endpoint_key c \<noteq> endpoint_key e" if "c \<in> set (ws_endpoints s)" "ep_id c \<noteq> i" for c
        using n(3) that by (auto simp: list_ex_iff endpoint_key_def)
      show "x = y"
      proof (cases "ep_id x = i"; cases "ep_id y = i")
        assume "ep_id x = i" "ep_id y = i"
        then show ?thesis using distinct_key_inj [OF dist xy(1,2)] by simp
      next
        assume "ep_id x \<noteq> i" "ep_id y \<noteq> i"
        then show ?thesis using distinct_key_inj [of endpoint_key, OF _ xy(1,2)] xy(3) p(1)
          by (simp add: endpoints_fine_def)
      qed (use xy other in force)+
    qed
    moreover have "distinct (ws_endpoints s)" using dist by (simp add: distinct_map)
    ultimately show ?thesis by (simp add: upd id_e distinct_map comp_def inj_on_def)
  qed
  moreover have "\<forall>x \<in> set ((ws_endpoints s)[n := e]). endpointSchema x = Some x"
    using p(1) me(2) by (auto simp: upd endpoints_fine_def)
  moreover have "endpoint_ids s' = endpoint_ids s"
    using ids by (simp add: n(4) endpoint_ids_def flip: set_map)
  ultimately show ?thesis
    using p ids by (simp add: wh_wf_def endpoints_fine_def n(4))
qed

lemma valid_delivery:
  "deliverySchema d = Some d \<longleftrightarrow> eventSchema (dv_event d) = Some (dv_event d) \<and>
     0 \<le> dv_attemptCount d \<and> 0 \<le> dv_manualRetryCount d \<and> iso_ok (dv_nextAttemptAt d) \<and>
     opt_iso (dv_lastAttemptAt d) \<and> opt_iso (dv_completedAt d) \<and>
     (case dv_statusCode d of None \<Rightarrow> True | Some c \<Rightarrow> 100 \<le> c \<and> c \<le> 599) \<and>
     short_text (dv_lastError d) \<and> opt_iso (dv_leaseExpiresAt d)"
proof
  assume "deliverySchema d = Some d"
  then show "eventSchema (dv_event d) = Some (dv_event d) \<and>
     0 \<le> dv_attemptCount d \<and> 0 \<le> dv_manualRetryCount d \<and> iso_ok (dv_nextAttemptAt d) \<and>
     opt_iso (dv_lastAttemptAt d) \<and> opt_iso (dv_completedAt d) \<and>
     (case dv_statusCode d of None \<Rightarrow> True | Some c \<Rightarrow> 100 \<le> c \<and> c \<le> 599) \<and>
     short_text (dv_lastError d) \<and> opt_iso (dv_leaseExpiresAt d)"
    using delivery_schema_fields(14) [of d d]
    by (simp add: deliverySchema_def split: if_splits)
qed (simp add: deliverySchema_def)

lemma orphaned_becomes:
  assumes "delivery_fine A d" "\<not> terminal_status (dv_status d)" "iso_ok now"
  shows "becomes B d (orphaned_delivery now d)"
proof -
  have "deliverySchema (orphaned_delivery now d) = Some (orphaned_delivery now d)"
    using assms(1,3) by (simp add: delivery_fine_def valid_delivery orphaned_delivery_def opt_iso_def short_text_def)
  then show ?thesis
    using assms by (auto simp: becomes_def delivery_fine_def orphaned_delivery_def key_of_def
        delivery_state_ok_def terminal_status_def)
qed

lemma delete_endpoint_wf:
  assumes "wh_wf s" "iso_ok now" "deleteOutboundWebhookEndpoint i now s = Inr (s', e)"
  shows "wh_wf s'"
proof -
  let ?f = "\<lambda>d. if dv_endpointId d = i \<and> \<not> terminal_status (dv_status d) then orphaned_delivery now d else d"
  have s': "s' = s\<lparr>ws_endpoints := filter (\<lambda>c. ep_id c \<noteq> i) (ws_endpoints s),
                   ws_endpointRuntime := filter (\<lambda>r. ru_endpointId r \<noteq> i) (ws_endpointRuntime s),
                   ws_deliveries := map ?f (ws_deliveries s)\<rparr>"
    using assms(3) by (auto simp: deleteOutboundWebhookEndpoint_def split: option.splits)
  note p = wh_wf_parts [OF assms(1)]
  have ids: "endpoint_ids s' = endpoint_ids s - {i}" by (auto simp: s' endpoint_ids_def)
  have "deliveries_fine (endpoint_ids s') (map ?f (ws_deliveries s))"
  proof (rule deliveries_map)
    fix d
    assume d: "d \<in> set (ws_deliveries s)"
    then have fine: "delivery_fine (endpoint_ids s) d" using wf_delivery assms(1) by blast
    show "becomes (endpoint_ids s') d (?f d)"
    proof (cases "dv_endpointId d = i \<and> \<not> terminal_status (dv_status d)")
      case True
      then show ?thesis using orphaned_becomes [OF fine _ assms(2)] by simp
    next
      case False
      then show ?thesis using fine by (auto simp: becomes_def delivery_fine_def ids)
    qed
  qed (use p(2) in \<open>simp_all add: deliveries_fine_def\<close>)
  then show ?thesis
    using p by (auto simp: wh_wf_def ids [symmetric] s' endpoints_fine_def runtimes_fine_def
        distinct_map_filter endpoint_ids_def)
qed

subsection \<open>The outbox\<close>

lemma pruned_subset:
  assumes "pruneDeliveries ds limit = Inr ds'"
  shows "\<exists>P. ds' = filter P ds"
  using assms
  by (auto simp: pruneDeliveries_def Let_def intro: exI [of _ "\<lambda>_. True"] split: if_splits)

lemma delivery_key_inj [simp]: "delivery_key i a = delivery_key i b \<longleftrightarrow> a = b"
  by (simp add: delivery_key_def)

lemma queued_delivery:
  assumes "eventSchema ev = Some ev" "deliverySchema (new_delivery ev e i now) = Some d" "ep_id e \<in> A"
  shows "d = new_delivery ev e i now \<and> delivery_fine A d"
proof -
  have "d = new_delivery ev e i now"
    using delivery_schema_same [OF assms(2)] assms(1) by (simp add: new_delivery_def)
  then show ?thesis
    using assms by (simp add: delivery_fine_def delivery_state_ok_def new_delivery_def terminal_status_def)
qed

lemma queue_endpoints_result:
  assumes "queue_endpoints ev existing fresh now n es = Inr (queued, dup)" "eventSchema ev = Some ev"
    "\<forall>e \<in> set es. ep_id e \<in> A"
  shows "(\<forall>d \<in> set queued. delivery_fine A d \<and> dv_id d \<in> fresh ` {n..<n + length queued} \<and>
            (\<exists>e \<in> set es. key_of d = delivery_key (ev_id ev) (ep_id e) \<and>
                delivery_key (ev_id ev) (ep_id e) \<notin> set existing)) \<and>
         map dv_id queued = map fresh [n..<n + length queued] \<and> length queued + dup = length es"
  using assms
proof (induction es arbitrary: n queued dup)
  case (Cons e es)
  show ?case
  proof (cases "delivery_key (ev_id ev) (ep_id e) \<in> set existing")
    case True
    then obtain dup' where "queue_endpoints ev existing fresh now n es = Inr (queued, dup')" "dup = Suc dup'"
      using Cons.prems(1) by (auto split: sum.splits simp: map_sum_def apsnd_def map_prod_def)
    then show ?thesis using Cons.IH [of n queued dup'] Cons.prems(2,3) by auto
  next
    case False
    then obtain d qs where d: "deliverySchema (new_delivery ev e (fresh n) now) = Some d"
        "queue_endpoints ev existing fresh now (Suc n) es = Inr (qs, dup)" "queued = d # qs"
      using Cons.prems(1) by (auto split: sum.splits simp: map_sum_def apfst_def map_prod_def)
    have nd: "d = new_delivery ev e (fresh n) now" "delivery_fine A d"
      using queued_delivery [OF Cons.prems(2) d(1)] Cons.prems(3) by auto
    have "dv_id d = fresh n" "key_of d = delivery_key (ev_id ev) (ep_id e)"
      by (simp_all add: nd(1) new_delivery_def key_of_def)
    moreover have "[n..<n + length queued] = n # [Suc n..<Suc n + length qs]"
      by (simp add: d(3) upt_rec)
    ultimately show ?thesis
      using Cons.IH [OF d(2)] Cons.prems(2,3) nd(2) False by (auto simp: d(3))
  qed
qed simp

lemma queued_keys_distinct:
  assumes "queue_endpoints ev existing fresh now n es = Inr (queued, dup)" "eventSchema ev = Some ev"
    "distinct (map ep_id es)"
  shows "distinct (map key_of queued)"
  using assms
proof (induction es arbitrary: n queued dup)
  case (Cons e es)
  show ?case
  proof (cases "delivery_key (ev_id ev) (ep_id e) \<in> set existing")
    case True
    then obtain dup' where "queue_endpoints ev existing fresh now n es = Inr (queued, dup')"
      using Cons.prems(1) by (auto split: sum.splits simp: map_sum_def apsnd_def map_prod_def)
    then show ?thesis using Cons by auto
  next
    case False
    then obtain d qs where d: "deliverySchema (new_delivery ev e (fresh n) now) = Some d"
        "queue_endpoints ev existing fresh now (Suc n) es = Inr (qs, dup)" "queued = d # qs"
      using Cons.prems(1) by (auto split: sum.splits simp: map_sum_def apfst_def map_prod_def)
    have "key_of d = delivery_key (ev_id ev) (ep_id e)"
      using key_of_parsed [OF d(1)] by (simp add: new_delivery_def key_of_def)
    moreover have "\<forall>q \<in> set qs. \<exists>e \<in> set es. key_of q = delivery_key (ev_id ev) (ep_id e)"
      using queue_endpoints_result [OF d(2) Cons.prems(2), of "ep_id ` set es"] by blast
    ultimately show ?thesis
      using Cons.IH [OF d(2) Cons.prems(2)] Cons.prems(3) by (fastforce simp: d(3))
  qed
qed simp

definition fresh_ids :: "enqueue_options \<Rightarrow> wh_store \<Rightarrow> bool" where
  "fresh_ids options s \<longleftrightarrow>
     distinct (map (eq_fresh options) [0..<length (ws_endpoints s)]) \<and>
     set (map (eq_fresh options) [0..<length (ws_endpoints s)]) \<inter> dv_id ` set (ws_deliveries s) = {}"

lemma enqueue_queued:
  assumes "enqueueOutboundWebhookEvent ev options s = Inr (s', r)"
  obtains queued dup ds where
    "queue_endpoints ev (map key_of (ws_deliveries s)) (eq_fresh options) (eq_now options) 0
       (matched_endpoints ev options s) = Inr (queued, dup)"
    "pruneDeliveries (ws_deliveries s @ queued) (eq_limit options) = Inr ds"
    "s' = s\<lparr>ws_deliveries := ds\<rparr>"
    "r = \<lparr>er_event = ev, er_matchedEndpoints = length (matched_endpoints ev options s),
          er_queuedDeliveries = length queued, er_duplicateDeliveries = dup,
          er_deliveryIds = map dv_id queued\<rparr>"
  using assms by (auto simp: enqueueOutboundWebhookEvent_def Let_def split: sum.splits)

lemma enqueued_fine:
  assumes wf: "wh_wf s" and ev: "eventSchema ev = Some ev" and fr: "fresh_ids options s"
    and q: "queue_endpoints ev (map key_of (ws_deliveries s)) (eq_fresh options) now 0
       (matched_endpoints ev options s) = Inr (queued, dup)"
  shows "deliveries_fine (endpoint_ids s) (ws_deliveries s @ queued)"
proof -
  let ?es = "matched_endpoints ev options s"
  note p = wh_wf_parts [OF wf]
  have sub: "\<forall>e \<in> set ?es. ep_id e \<in> endpoint_ids s" by (auto simp: matched_endpoints_def endpoint_ids_def)
  note r = queue_endpoints_result [OF q ev sub]
  have "length ?es \<le> length (ws_endpoints s)" by (simp add: matched_endpoints_def)
  then have len: "length queued \<le> length (ws_endpoints s)" using r by linarith
  have "distinct (map (eq_fresh options) [0..<length queued])"
    using fr len by (auto simp: fresh_ids_def distinct_map inj_on_def)
  then have d1: "distinct (map dv_id queued)" using r by simp
  have "dv_id ` set queued \<subseteq> set (map (eq_fresh options) [0..<length (ws_endpoints s)])"
    using r len by force
  then have d2: "dv_id ` set queued \<inter> dv_id ` set (ws_deliveries s) = {}"
    using fr by (auto simp only: fresh_ids_def)
  have "distinct (map ep_id ?es)"
    using p(1) by (simp add: matched_endpoints_def endpoints_fine_def distinct_map_filter)
  then have d3: "distinct (map key_of queued)" using queued_keys_distinct [OF q ev] by simp
  have d4: "key_of ` set queued \<inter> key_of ` set (ws_deliveries s) = {}"
  proof -
    have "key_of d \<notin> key_of ` set (ws_deliveries s)" if "d \<in> set queued" for d
      using r that by (metis list.set_map)
    then show ?thesis by blast
  qed
  have "\<forall>d \<in> set queued. delivery_fine (endpoint_ids s) d" using r by blast
  then show ?thesis
    using p(2) d1 d2 d3 d4 unfolding deliveries_fine_def map_append distinct_append set_append set_map by blast
qed

lemma enqueue_wf:
  assumes "wh_wf s" "eventSchema ev = Some ev" "fresh_ids options s"
    "enqueueOutboundWebhookEvent ev options s = Inr (s', r)"
  shows "wh_wf s'"
proof (rule enqueue_queued [OF assms(4)])
  fix queued dup ds
  assume q: "queue_endpoints ev (map key_of (ws_deliveries s)) (eq_fresh options) (eq_now options) 0
       (matched_endpoints ev options s) = Inr (queued, dup)"
    and pr: "pruneDeliveries (ws_deliveries s @ queued) (eq_limit options) = Inr ds"
    and s': "s' = s\<lparr>ws_deliveries := ds\<rparr>"
  have "deliveries_fine (endpoint_ids s) ds"
    using pruned_subset [OF pr] deliveries_filter [OF enqueued_fine [OF assms(1-3) q]] by auto
  then show ?thesis using wh_wf_deliveries [OF assms(1)] s' by simp
qed

subsection \<open>Retries, replays and recovery\<close>

lemma iso_parsed: "deliverySchema d = Some p \<Longrightarrow> iso_ok (dv_nextAttemptAt d)"
  by (auto simp: deliverySchema_def split: option.splits if_splits)

lemma requeued_becomes:
  assumes "delivery_fine A d" "deliverySchema (requeued_delivery now d) = Some p" "dv_endpointId d \<in> A"
  shows "p = requeued_delivery now d \<and> becomes A d p"
  by (rule parsed_change [OF assms(1,2)])
     (use assms(3) in \<open>simp_all add: requeued_delivery_def delivery_state_ok_def terminal_status_def\<close>)

lemma enabled_endpoint_in: "list_ex (\<lambda>e. ep_id e = i \<and> ep_enabled e) (ws_endpoints s) \<Longrightarrow> i \<in> endpoint_ids s"
  by (auto simp: list_ex_iff endpoint_ids_def)

lemma retry_wf:
  assumes "wh_wf s" "retryOutboundWebhookDelivery i now s = Inr (s', d, b)"
  shows "wh_wf s'"
proof -
  obtain n where n: "findIndex (\<lambda>d. dv_id d = i) (ws_deliveries s) = Some n"
    using assms(2) by (auto simp: retryOutboundWebhookDelivery_def split: option.splits)
  then have ix: "n < length (ws_deliveries s)" using findIndex_SomeD by blast
  consider "s' = s" | p where "deliverySchema (requeued_delivery now (ws_deliveries s ! n)) = Some p"
      "dv_endpointId (ws_deliveries s ! n) \<in> endpoint_ids s"
      "s' = s\<lparr>ws_deliveries := (ws_deliveries s)[n := p]\<rparr>"
  proof (cases "dv_status (ws_deliveries s ! n) = DeliveryPending")
    case True
    then show thesis using that(1) assms(2) by (simp add: retryOutboundWebhookDelivery_def n Let_def)
  next
    case False
    then have en: "list_ex (\<lambda>e. ep_id e = dv_endpointId (ws_deliveries s ! n) \<and> ep_enabled e) (ws_endpoints s)"
      using assms(2) by (simp add: retryOutboundWebhookDelivery_def n Let_def split: if_splits)
    obtain p where "deliverySchema (requeued_delivery now (ws_deliveries s ! n)) = Some p"
      "s' = s\<lparr>ws_deliveries := (ws_deliveries s)[n := p]\<rparr>"
      using assms(2) False
      by (cases "deliverySchema (requeued_delivery now (ws_deliveries s ! n))")
         (auto simp: retryOutboundWebhookDelivery_def parsed_def n Let_def split: if_splits)
    then show thesis using that(2) enabled_endpoint_in [OF en] by blast
  qed
  then show ?thesis
  proof cases
    case 2
    then have "becomes (endpoint_ids s) (ws_deliveries s ! n) p"
      using requeued_becomes [OF wf_delivery [OF assms(1) nth_mem [OF ix]]] by blast
    then have "deliveries_fine (endpoint_ids s) ((ws_deliveries s)[n := p])"
      using deliveries_update [OF wh_wf_parts(2) [OF assms(1)] ix] by blast
    then show ?thesis using wh_wf_deliveries [OF assms(1)] 2(3) by simp
  qed (use assms(1) in simp)
qed

lemma replay_candidate: "d \<in> set (replay_candidates options s) \<Longrightarrow>
    d \<in> set (ws_deliveries s) \<and> dead_letter (rp_endpointId options) d"
  by (auto simp: replay_candidates_def sort_descending_def split: option.splits dest: in_set_takeD)

lemma replay_wf:
  assumes "wh_wf s" "replayOutboundWebhookDeadLetters options s = Inr (s', r)"
  shows "wh_wf s'"
proof -
  let ?g = "\<lambda>d. parsed deliverySchema (requeued_delivery (rp_now options) d)"
  let ?open = "filter (\<lambda>d. endpoint_enabled s (dv_endpointId d)) (replay_candidates options s)"
  consider "s' = s" | rs where "list_parse ?g ?open = Inr rs"
      "s' = s\<lparr>ws_deliveries := apply_replacements (put_all dv_id rs) (ws_deliveries s)\<rparr>"
  proof (cases "rp_dryRun options")
    case True
    then show thesis using that(1) assms(2) by (simp add: replayOutboundWebhookDeadLetters_def Let_def)
  next
    case False
    show thesis
    proof (cases "list_parse ?g ?open")
      case (Inl e)
      then show thesis using False assms(2) by (simp add: replayOutboundWebhookDeadLetters_def Let_def)
    next
      case (Inr rs)
      then show thesis using that False assms(2)
        by (cases "put_all dv_id rs = []") (simp_all add: replayOutboundWebhookDeadLetters_def Let_def)
    qed
  qed
  then show ?thesis
  proof cases
    case 2
    have "deliveries_fine (endpoint_ids s) (apply_replacements (put_all dv_id rs) (ws_deliveries s))"
    proof (rule deliveries_replace [where h = id, OF wh_wf_parts(2) [OF assms(1)] 2(1)])
      fix c r
      assume c: "c \<in> set ?open" "?g c = Inr r"
      then have "c \<in> set (ws_deliveries s)" "dv_endpointId c \<in> endpoint_ids s"
        using replay_candidate enabled_endpoint_in by (auto simp: endpoint_enabled_def)
      then show "becomes (endpoint_ids s) (id c) r"
        using requeued_becomes wf_delivery [OF assms(1)] c(2) by simp
    qed (use replay_candidate in \<open>auto simp: delivery_schema_fields requeued_delivery_def\<close>)
    then show ?thesis using wh_wf_deliveries [OF assms(1)] 2(2) by simp
  qed (use assms(1) in simp)
qed

lemma can_retry_endpoint: "can_retry s d \<Longrightarrow> dv_endpointId d \<in> endpoint_ids s"
  by (auto simp: can_retry_def endpoint_by_id_def endpoint_ids_def image_iff
      split: option.splits dest!: find_Some_in) metis

lemma reconciled_becomes:
  assumes "wh_wf s" "d \<in> set (ws_deliveries s)" "dv_status d = DeliveryDelivering"
    and "deliverySchema (reconciled_delivery s now d) = Some p"
  shows "p = reconciled_delivery s now d \<and> becomes (endpoint_ids s) d p"
  by (rule parsed_change [OF wf_delivery [OF assms(1,2)] assms(4)])
     (use assms(3) wf_delivery [OF assms(1,2)] can_retry_endpoint [of s d] in
       \<open>auto simp: reconciled_delivery_def delivery_state_ok_def terminal_status_def delivery_fine_def\<close>)

lemma reconcile_candidate:
  "d \<in> set (take limit (sort_key lease_key (filter (\<lambda>d. dv_status d = DeliveryDelivering) ds))) \<Longrightarrow>
     d \<in> set ds \<and> dv_status d = DeliveryDelivering"
  by (auto dest: in_set_takeD)

lemma reconcile_deliveries_wf:
  assumes "wh_wf s" "reconcileOutboundWebhookDeliveries now limit dry s = Inr (s', r)"
  shows "wh_wf s'"
proof -
  let ?g = "\<lambda>d. parsed deliverySchema (reconciled_delivery s now d)"
  let ?ex = "filter (delivery_lease_expired now)
     (take limit (sort_key lease_key (filter (\<lambda>d. dv_status d = DeliveryDelivering) (ws_deliveries s))))"
  consider "s' = s" | rs where "list_parse ?g ?ex = Inr rs"
      "s' = s\<lparr>ws_deliveries := apply_replacements (put_all dv_id rs) (ws_deliveries s)\<rparr>"
  proof (cases "list_parse ?g ?ex")
    case (Inl e)
    then show thesis using assms(2) by (simp add: reconcileOutboundWebhookDeliveries_def Let_def)
  next
    case (Inr rs)
    then show thesis using that assms(2)
      by (cases "dry \<or> put_all dv_id rs = []") (simp_all add: reconcileOutboundWebhookDeliveries_def Let_def)
  qed
  then show ?thesis
  proof cases
    case 2
    have cand: "c \<in> set (ws_deliveries s) \<and> dv_status c = DeliveryDelivering" if "c \<in> set ?ex" for c
      using reconcile_candidate [of c limit "ws_deliveries s"] that by (simp only: set_filter mem_Collect_eq)
    have "deliveries_fine (endpoint_ids s) (apply_replacements (put_all dv_id rs) (ws_deliveries s))"
    proof (rule deliveries_replace [where h = id, OF wh_wf_parts(2) [OF assms(1)] 2(1)])
      fix c r
      assume c: "c \<in> set ?ex" "?g c = Inr r"
      then show "becomes (endpoint_ids s) (id c) r"
        using reconciled_becomes [OF assms(1), of c now r] cand [OF c(1)] by (simp only: parsed_Inr id_apply)
    next
      fix c
      assume "c \<in> set ?ex"
      then show "id c \<in> set (ws_deliveries s)" using cand by (simp only: id_apply)
    qed (auto simp: delivery_schema_fields reconciled_delivery_def)
    then show ?thesis using wh_wf_deliveries [OF assms(1)] 2(2) by simp
  qed (use assms(1) in simp)
qed

lemma prune_wf:
  assumes "wh_wf s" "pruneOutboundWebhookDeliveries before ids limit dry s = Inr (s', r)"
  shows "wh_wf s'"
proof -
  have "s' = s \<or> (\<exists>P. s' = s\<lparr>ws_deliveries := filter P (ws_deliveries s)\<rparr>)"
    using assms(2) by (auto simp: pruneOutboundWebhookDeliveries_def Let_def split: if_splits)
  then show ?thesis
    using assms(1) wh_wf_deliveries [OF assms(1) deliveries_filter [OF wh_wf_parts(2) [OF assms(1)]]] by auto
qed

subsection \<open>Claims\<close>

lemma list_parse_length: "list_parse f xs = Inr ys \<Longrightarrow> length ys = length xs"
  by (induction xs arbitrary: ys) (auto split: sum.splits)

lemma list_parse_nth: "list_parse f xs = Inr ys \<Longrightarrow> n < length xs \<Longrightarrow> f (xs ! n) = Inr (ys ! n)"
proof (induction xs arbitrary: ys n)
  case (Cons x xs)
  then obtain y zs where "f x = Inr y" "list_parse f xs = Inr zs" "ys = y # zs"
    by (auto split: sum.splits)
  then show ?case using Cons by (cases n) auto
qed simp

lemma claimable_member:
  "d \<in> set (claimable_deliveries options s) \<Longrightarrow>
     d \<in> set (ws_deliveries s) \<and> claimable_delivery options s d"
  by (auto simp: claimable_deliveries_def dest: in_set_takeD)

lemma claimable_live: "claimable_delivery options s d \<Longrightarrow> \<not> terminal_status (dv_status d)"
  by (auto simp: claimable_delivery_def delivery_due_def terminal_status_def split: if_splits)

lemma leased_becomes:
  assumes "delivery_fine A d" "\<not> terminal_status (dv_status d)"
    and "deliverySchema (leased_delivery now leaseMs tok d) = Some p"
  shows "p = leased_delivery now leaseMs tok d \<and> becomes A d p"
proof (rule parsed_change [OF assms(1,3)])
  have "0 \<le> dv_attemptCount d" using assms(1) by (simp add: delivery_fine_def valid_delivery)
  then show "delivery_state_ok (leased_delivery now leaseMs tok d)"
    using assms(1,2)
    by (simp add: delivery_fine_def delivery_state_ok_def leased_delivery_def terminal_status_def)
  show "terminal_status (dv_status (leased_delivery now leaseMs tok d)) \<or> dv_endpointId d \<in> A"
    using assms(1,2) by (simp add: delivery_fine_def)
qed (simp_all add: leased_delivery_def)

text \<open>What a successful claim does: every claimed delivery is a claimable one, leased.\<close>

lemma claim_result_deliveries:
  assumes "deliveries_fine A (ws_deliveries s)" "claimOutboundWebhookDeliveries options s = Inr (s', cls)"
  obtains leased where
    "length leased = length (claimable_deliveries options s)"
    "\<And>n. n < length leased \<Longrightarrow> leased ! n =
       leased_delivery (cd_dl_now options) (cd_dl_leaseMs options) (cd_dl_tokens options n)
         (claimable_deliveries options s ! n) \<and>
       becomes A (claimable_deliveries options s ! n) (leased ! n)"
    "s' = s\<lparr>ws_deliveries := apply_replacements (map (\<lambda>d. (dv_id d, d)) leased) (ws_deliveries s)\<rparr>"
    "cls = map (\<lambda>d. \<lparr>cw_delivery = d, cw_endpoint = endpoint_by_id s (dv_endpointId d)\<rparr>) leased"
    "map dv_id leased = map dv_id (claimable_deliveries options s)"
    "distinct (map dv_id leased)"
proof -
  let ?c = "claimable_deliveries options s"
  let ?g = "\<lambda>(n, d). parsed deliverySchema
              (leased_delivery (cd_dl_now options) (cd_dl_leaseMs options) (cd_dl_tokens options n) d)"
  obtain leased where l: "list_parse ?g (enumerate 0 ?c) = Inr leased"
    using assms(2) by (cases "list_parse ?g (enumerate 0 ?c)") (simp_all add: claimOutboundWebhookDeliveries_def)
  then have out: "s' = s\<lparr>ws_deliveries := apply_replacements (put_all dv_id leased) (ws_deliveries s)\<rparr>"
      "cls = map (\<lambda>p. \<lparr>cw_delivery = snd p, cw_endpoint = endpoint_by_id s (dv_endpointId (snd p))\<rparr>)
         (put_all dv_id leased)"
    using assms(2) by (simp_all add: claimOutboundWebhookDeliveries_def Let_def)
  have nth: "n < length leased \<Longrightarrow> ?g (n, ?c ! n) = Inr (leased ! n)" and len: "length leased = length ?c" for n
    using list_parse_nth [OF l, of n] list_parse_length [OF l] by (simp_all add: nth_enumerate_eq)
  have each: "leased ! n = leased_delivery (cd_dl_now options) (cd_dl_leaseMs options) (cd_dl_tokens options n) (?c ! n) \<and>
      becomes A (?c ! n) (leased ! n)" if n: "n < length leased" for n
  proof -
    have m: "?c ! n \<in> set (ws_deliveries s)" "\<not> terminal_status (dv_status (?c ! n))"
      using claimable_member [OF nth_mem [of n ?c]] claimable_live n len by auto
    have "delivery_fine A (?c ! n)" using assms(1) m(1) by (simp add: deliveries_fine_def)
    then show ?thesis using leased_becomes [OF _ m(2)] nth [OF n] by simp
  qed
  have ids: "map dv_id leased = map dv_id ?c"
  proof (rule nth_equalityI)
    fix n
    assume "n < length (map dv_id leased)"
    then show "map dv_id leased ! n = map dv_id ?c ! n"
      using each [of n] len unfolding becomes_def by (metis length_map nth_map)
  qed (simp add: len)
  have "distinct (map dv_id ?c)"
    using assms(1)
    by (auto simp: claimable_deliveries_def deliveries_fine_def distinct_map_filter intro: distinct_take_map)
  then have dist: "distinct (map dv_id leased)" using ids by simp
  note pa = put_all_distinct [OF dist]
  have "s' = s\<lparr>ws_deliveries := apply_replacements (map (\<lambda>d. (dv_id d, d)) leased) (ws_deliveries s)\<rparr>"
    using out(1) unfolding pa .
  moreover have "cls = map (\<lambda>d. \<lparr>cw_delivery = d, cw_endpoint = endpoint_by_id s (dv_endpointId d)\<rparr>) leased"
    using out(2) unfolding pa by (simp add: comp_def)
  ultimately show thesis using that [OF len each] ids dist by blast
qed

lemma claimed_deliveries_fine:
  assumes "deliveries_fine A (ws_deliveries s)" "claimOutboundWebhookDeliveries options s = Inr (s', cls)"
  shows "deliveries_fine A (ws_deliveries s') \<and> s' = s\<lparr>ws_deliveries := ws_deliveries s'\<rparr>"
proof (rule claim_result_deliveries [OF assms])
  fix leased
  let ?c = "claimable_deliveries options s"
  assume len: "length leased = length ?c"
    and each: "\<And>n. n < length leased \<Longrightarrow> leased ! n =
       leased_delivery (cd_dl_now options) (cd_dl_leaseMs options) (cd_dl_tokens options n) (?c ! n) \<and>
       becomes A (?c ! n) (leased ! n)"
    and s': "s' = s\<lparr>ws_deliveries := apply_replacements (map (\<lambda>d. (dv_id d, d)) leased) (ws_deliveries s)\<rparr>"
    and dist: "distinct (map dv_id leased)"
  have "becomes A d (case map_of (map (\<lambda>d. (dv_id d, d)) leased) (dv_id d) of Some r \<Rightarrow> r | None \<Rightarrow> d)"
    if d: "d \<in> set (ws_deliveries s)" for d
  proof (cases "map_of (map (\<lambda>d. (dv_id d, d)) leased) (dv_id d)")
    case None
    then show ?thesis using becomes_refl [OF assms(1) d] by simp
  next
    case (Some r)
    then have "r \<in> set leased" "dv_id r = dv_id d" using map_of_SomeD [OF Some] by auto
    then obtain n where n: "n < length leased" "r = leased ! n" by (auto simp: in_set_conv_nth)
    have b: "becomes A (?c ! n) r" using each [OF n(1)] unfolding n(2) by (rule conjunct2)
    have "?c ! n \<in> set (ws_deliveries s)" using claimable_member nth_mem n(1) len by metis
    moreover have "dv_id (?c ! n) = dv_id d" using b \<open>dv_id r = dv_id d\<close> by (simp add: becomes_def)
    ultimately have "?c ! n = d"
      using distinct_key_inj [of dv_id "ws_deliveries s" "?c ! n" d] assms(1) d
      by (simp add: deliveries_fine_def)
    then show ?thesis using b Some by simp
  qed
  then have "deliveries_fine A (ws_deliveries s')"
    using assms(1)
    by (simp add: s' apply_replacements_def deliveries_map deliveries_fine_def [of _ "ws_deliveries s"])
  then show ?thesis using s' by simp
qed

lemma claim_wf:
  assumes "wh_wf s" "claimOutboundWebhookDeliveries options s = Inr (s', cls)"
  shows "wh_wf s'"
  using claimed_deliveries_fine [OF wh_wf_parts(2) [OF assms(1)] assms(2)] wh_wf_deliveries [OF assms(1)] by metis

subsection \<open>Completions and circuits\<close>

lemma next_runtime_ok:
  assumes "0 \<le> ru_consecutiveFailures r"
  shows "circuit_ok (next_runtime r e success now)"
  using assms by (simp add: circuit_ok_def next_runtime_def Let_def)

lemma runtime_failures: "endpointRuntimeSchema r = Some r \<Longrightarrow> 0 \<le> ru_consecutiveFailures r"
  by (simp add: endpointRuntimeSchema_def split: if_splits)

lemma runtime_update_fine:
  assumes "runtimes_fine A rs" "\<And>e. endpoint = Some e \<Longrightarrow> endpointSchema e = Some e \<and> ep_id e \<in> A"
    and "updateEndpointRuntimeAfterAttempt rs endpoint result now = Inr rs'"
  shows "runtimes_fine A rs'"
proof (cases endpoint)
  case None
  then show ?thesis using assms by (simp add: updateEndpointRuntimeAfterAttempt_def)
next
  case (Some e)
  note e = assms(2) [OF Some]
  show ?thesis
  proof (cases "\<not> ep_enabled e \<and> \<not> cr_success result")
    case True
    then show ?thesis using assms(1,3) Some by (simp add: updateEndpointRuntimeAfterAttempt_def)
  next
    case False
    show ?thesis
    proof (cases "findIndex (\<lambda>r. ru_endpointId r = ep_id e) rs")
      case None
      let ?n = "next_runtime (initial_runtime (ep_id e)) e (cr_success result) now"
      obtain r where r: "endpointRuntimeSchema ?n = Some r" "rs' = rs @ [r]"
        using assms(3) Some False None
        by (cases "endpointRuntimeSchema ?n")
           (auto simp: updateEndpointRuntimeAfterAttempt_def parsed_def)
      have same: "r = ?n" using runtime_schema_same [OF r(1)] .
      have "ru_endpointId r = ep_id e" unfolding same by (simp add: next_runtime_def initial_runtime_def Let_def)
      moreover have "circuit_ok r" unfolding same by (rule next_runtime_ok) (simp add: initial_runtime_def)
      moreover have "endpointRuntimeSchema r = Some r" using r(1) unfolding same .
      moreover have "ep_id e \<notin> ru_endpointId ` set rs"
      proof
        assume "ep_id e \<in> ru_endpointId ` set rs"
        then obtain x where "x \<in> set rs" "ru_endpointId x = ep_id e" by (metis imageE)
        then show False using findIndex_NoneD [OF None] by metis
      qed
      ultimately show ?thesis using assms(1) e unfolding r(2) runtimes_fine_def by simp
    next
      case (Some n)
      let ?n = "next_runtime (rs ! n) e (cr_success result) now"
      note ix = findIndex_SomeD [OF Some]
      obtain r where r: "endpointRuntimeSchema ?n = Some r" "rs' = rs[n := r]"
        using assms(3) \<open>endpoint = Some e\<close> False Some
        by (cases "endpointRuntimeSchema ?n")
           (auto simp: updateEndpointRuntimeAfterAttempt_def parsed_def)
      have same: "r = ?n" using runtime_schema_same [OF r(1)] .
      have id_n: "ru_endpointId r = ru_endpointId (rs ! n)" by (simp add: same next_runtime_def Let_def)
      have "endpointRuntimeSchema (rs ! n) = Some (rs ! n)"
        using assms(1) ix by (simp add: runtimes_fine_def)
      then have "circuit_ok r" unfolding same by (intro next_runtime_ok runtime_failures)
      moreover have "map ru_endpointId rs' = map ru_endpointId rs"
        using id_n ix by (simp add: r(2) map_update list_update_same_conv)
      moreover have "set rs' \<subseteq> insert r (set rs)" by (simp add: r(2) set_update_subset_insert)
      moreover have "ru_endpointId r \<in> A" using id_n ix e by simp
      ultimately show ?thesis using assms(1) r(1) same by (auto simp: runtimes_fine_def)
    qed
  qed
qed

lemma truncated_short: "short_text (map_option truncateOutboundWebhookError m)"
  by (simp add: short_text_def truncateOutboundWebhookError_def split: option.split)

text \<open>What a successful completion does.\<close>

lemma complete_delivery_result:
  assumes "completeOutboundWebhookDelivery claimed result endpoint now base s = Inr (s', d)"
  obtains n rs where
    "findIndex (\<lambda>d. dv_id d = dv_id claimed) (ws_deliveries s) = Some n"
    "n < length (ws_deliveries s)" "dv_id (ws_deliveries s ! n) = dv_id claimed"
    "dv_status (ws_deliveries s ! n) = DeliveryDelivering"
    "dv_leaseToken (ws_deliveries s ! n) = dv_leaseToken claimed"
    "deliverySchema (completed_delivery result endpoint now base (ws_deliveries s ! n)) = Some d"
    "updateEndpointRuntimeAfterAttempt (ws_endpointRuntime s) endpoint result now = Inr rs"
    "s' = s\<lparr>ws_deliveries := (ws_deliveries s)[n := d], ws_endpointRuntime := rs\<rparr>"
proof -
  obtain n where n: "findIndex (\<lambda>d. dv_id d = dv_id claimed) (ws_deliveries s) = Some n"
    using assms by (auto simp: completeOutboundWebhookDelivery_def split: option.splits)
  have own: "dv_status (ws_deliveries s ! n) = DeliveryDelivering \<and>
      dv_leaseToken (ws_deliveries s ! n) = dv_leaseToken claimed"
    using assms by (simp add: completeOutboundWebhookDelivery_def n Let_def split: if_splits)
  obtain p where p: "deliverySchema (completed_delivery result endpoint now base (ws_deliveries s ! n)) = Some p"
    using assms own
    by (cases "deliverySchema (completed_delivery result endpoint now base (ws_deliveries s ! n))")
       (simp_all add: completeOutboundWebhookDelivery_def n Let_def parsed_def)
  obtain rs where rs: "updateEndpointRuntimeAfterAttempt (ws_endpointRuntime s) endpoint result now = Inr rs"
    using assms own p
    by (cases "updateEndpointRuntimeAfterAttempt (ws_endpointRuntime s) endpoint result now")
       (simp_all add: completeOutboundWebhookDelivery_def n Let_def parsed_def)
  have "s' = s\<lparr>ws_deliveries := (ws_deliveries s)[n := d], ws_endpointRuntime := rs\<rparr> \<and> d = p"
    using own p assms by (auto simp: completeOutboundWebhookDelivery_def n rs Let_def parsed_def)
  then show thesis using that [OF n] findIndex_SomeD [OF n] own p rs by blast
qed

lemma completion_cases:
  "completion_status result endpoint d \<in> {DeliverySucceeded, DeliveryExhausted, DeliveryRetry}"
  by (simp add: completion_status_def)

lemma completed_becomes:
  assumes "delivery_fine A d" "dv_status d = DeliveryDelivering"
    and "deliverySchema (completed_delivery result endpoint now base d) = Some p"
  shows "p = completed_delivery result endpoint now base d \<and> becomes A d p"
proof (rule parsed_change [OF assms(1,3)])
  show "delivery_state_ok (completed_delivery result endpoint now base d)"
    using assms(1,2) completion_cases [of result endpoint d]
    by (auto simp: delivery_fine_def delivery_state_ok_def completed_delivery_def terminal_status_def Let_def)
  show "terminal_status (dv_status (completed_delivery result endpoint now base d)) \<or> dv_endpointId d \<in> A"
    using assms(1,2) by (simp add: delivery_fine_def terminal_status_def)
qed (simp_all add: completed_delivery_def Let_def)

definition completes_own :: "wh_delivery \<Rightarrow> wh_endpoint option \<Rightarrow> wh_store \<Rightarrow> bool" where
  "completes_own claimed endpoint s \<longleftrightarrow>
     (case endpoint of
        None \<Rightarrow> True
      | Some e \<Rightarrow> endpointSchema e = Some e \<and>
          list_all (\<lambda>d. dv_id d = dv_id claimed \<longrightarrow> dv_endpointId d = ep_id e) (ws_deliveries s))"

lemma complete_wf:
  assumes "wh_wf s" "completes_own claimed endpoint s"
    and "completeOutboundWebhookDelivery claimed result endpoint now base s = Inr (s', d)"
  shows "wh_wf s'"
proof (rule complete_delivery_result [OF assms(3)])
  fix n rs
  let ?l = "ws_deliveries s ! n"
  assume n: "n < length (ws_deliveries s)" "dv_id ?l = dv_id claimed" "dv_status ?l = DeliveryDelivering"
    and p: "deliverySchema (completed_delivery result endpoint now base ?l) = Some d"
    and rs: "updateEndpointRuntimeAfterAttempt (ws_endpointRuntime s) endpoint result now = Inr rs"
    and s': "s' = s\<lparr>ws_deliveries := (ws_deliveries s)[n := d], ws_endpointRuntime := rs\<rparr>"
  have fine: "delivery_fine (endpoint_ids s) ?l" using wf_delivery [OF assms(1)] n(1) by simp
  have ds: "deliveries_fine (endpoint_ids s) ((ws_deliveries s)[n := d])"
    using deliveries_update [OF wh_wf_parts(2) [OF assms(1)] n(1)] completed_becomes [OF fine n(3) p] by blast
  have "dv_endpointId ?l \<in> endpoint_ids s" using fine n(3) by (simp add: delivery_fine_def terminal_status_def)
  then have "endpointSchema e = Some e \<and> ep_id e \<in> endpoint_ids s" if "endpoint = Some e" for e
    using assms(2) n(1,2) that by (auto simp: completes_own_def list_all_length)
  then have "runtimes_fine (endpoint_ids s) rs"
    using runtime_update_fine [OF wh_wf_parts(3) [OF assms(1)] _ rs] by blast
  then show ?thesis using wh_wf_parts [OF assms(1)] ds by (simp add: wh_wf_def s')
qed

lemma reset_wf:
  assumes "wh_wf s" "resetOutboundWebhookEndpointCircuit i s = Inr (s', r)"
  shows "wh_wf s'"
proof (cases "s' = s")
  case False
  then obtain x where x: "list_ex (\<lambda>e. ep_id e = i) (ws_endpoints s)"
      "List.find (\<lambda>r. ru_endpointId r = i) (ws_endpointRuntime s) = Some x"
      "endpointRuntimeSchema (reset_runtime x) = Some r"
      "s' = s\<lparr>ws_endpointRuntime := filter (\<lambda>r. ru_endpointId r \<noteq> i) (ws_endpointRuntime s) @ [r]\<rparr>"
    using assms(2)
    by (cases "List.find (\<lambda>r. ru_endpointId r = i) (ws_endpointRuntime s)")
       (auto simp: resetOutboundWebhookEndpointCircuit_def parsed_def split: if_splits option.splits)
  have "r = reset_runtime x" using runtime_schema_same [OF x(3)] .
  moreover have "ru_endpointId x = i" using find_Some_in [OF x(2)] by simp
  moreover have "i \<in> endpoint_ids s" using x(1) by (auto simp: list_ex_iff endpoint_ids_def)
  ultimately have "runtimes_fine (endpoint_ids s) (filter (\<lambda>r. ru_endpointId r \<noteq> i) (ws_endpointRuntime s) @ [r])"
    using wh_wf_parts(3) [OF assms(1)] x(3)
    by (auto simp: runtimes_fine_def circuit_ok_def reset_runtime_def distinct_map_filter)
  then show ?thesis using wh_wf_parts [OF assms(1)] by (simp add: wh_wf_def x(4))
qed (use assms(1) in simp)

lemma upsert_worker_wf:
  assumes "wh_wf s" "upsertOutboundWebhookWorker w s = Inr (s', r)"
  shows "wh_wf s'"
proof -
  obtain v where v: "webhookWorkerSchema w = Some v"
    using assms(2) by (cases "webhookWorkerSchema w") (simp_all add: upsertOutboundWebhookWorker_def parsed_def)
  have "v = w" using worker_schema_same [OF v] .
  then have "s' = s\<lparr>ws_workers :=
      filter (\<lambda>c. ww_id c \<noteq> ww_id w \<and> retained_at c \<ge> ww_heartbeatAt w - DEFAULT_OUTBOUND_WEBHOOK_WORKER_RETENTION_MS)
        (ws_workers s) @ [w]\<rparr>"
    using assms(2) v by (simp add: upsertOutboundWebhookWorker_def parsed_def Let_def)
  then show ?thesis
    using wh_wf_parts [OF assms(1)] v \<open>v = w\<close>
    by (auto simp: wh_wf_def wh_workers_fine_def distinct_map_filter)
qed

subsection \<open>The repository file over any history\<close>

definition wh_legal_op :: "wh_op \<Rightarrow> wh_store \<Rightarrow> bool" where
  "wh_legal_op op s =
     (case op of
        WhCreateEndpoint e \<Rightarrow> endpointSchema e = Some e \<and> ep_id e \<notin> endpoint_ids s
      | WhDeleteEndpoint i now \<Rightarrow> iso_ok now
      | WhEnqueue ev options \<Rightarrow> eventSchema ev = Some ev \<and> fresh_ids options s
      | WhComplete d result endpoint now base \<Rightarrow> completes_own d endpoint s
      | _ \<Rightarrow> True)"

lemma wh_with_Inr: "wh_with f r = Inr (s, v) \<longleftrightarrow> (\<exists>x. r = Inr (s, x) \<and> v = f x)"
  by (auto simp: wh_with_def split: sum.splits)

lemma webhook_callback_wf:
  assumes "wh_wf s" "wh_legal_op op s" "webhook_callback parse op s = Inr (s', r)"
  shows "wh_wf s'"
proof (cases op)
  case (WhCreateEndpoint e)
  then show ?thesis
    using assms create_endpoint_wf by (auto simp: webhook_callback_def wh_with_Inr wh_legal_op_def)
next
  case (WhUpdateEndpoint i input now)
  then show ?thesis using assms update_endpoint_wf by (auto simp: webhook_callback_def wh_with_Inr)
next
  case (WhDeleteEndpoint i now)
  then show ?thesis
    using assms delete_endpoint_wf by (auto simp: webhook_callback_def wh_with_Inr wh_legal_op_def)
next
  case (WhEnqueue ev options)
  then show ?thesis
    using assms enqueue_wf by (auto simp: webhook_callback_def wh_with_Inr wh_legal_op_def)
next
  case (WhRetry i now)
  then obtain x where "retryOutboundWebhookDelivery i now s = Inr (s', x)"
    using assms(3) by (auto simp: webhook_callback_def wh_with_Inr)
  then show ?thesis using retry_wf [OF assms(1), of i now s' "fst x" "snd x"] by simp
next
  case (WhReplay options)
  then show ?thesis using assms replay_wf by (auto simp: webhook_callback_def wh_with_Inr)
next
  case (WhReconcile now limit dry)
  then show ?thesis using assms reconcile_deliveries_wf by (auto simp: webhook_callback_def wh_with_Inr)
next
  case (WhPrune before ids limit dry)
  then show ?thesis using assms prune_wf by (auto simp: webhook_callback_def wh_with_Inr)
next
  case (WhClaim options)
  then show ?thesis using assms claim_wf by (auto simp: webhook_callback_def wh_with_Inr)
next
  case (WhComplete d result endpoint now base)
  then show ?thesis
    using assms complete_wf by (auto simp: webhook_callback_def wh_with_Inr wh_legal_op_def)
next
  case (WhResetCircuit i)
  then show ?thesis using assms reset_wf by (auto simp: webhook_callback_def wh_with_Inr)
next
  case (WhUpsertWorker w)
  then show ?thesis using assms upsert_worker_wf by (auto simp: webhook_callback_def wh_with_Inr)
qed

definition wh_value :: "wh_store option \<Rightarrow> wh_store" where
  "wh_value file = (case file of None \<Rightarrow> js_default createOutboundWebhookStore | Some s \<Rightarrow> s)"

definition wh_file_wf :: "wh_store option \<Rightarrow> bool" where
  "wh_file_wf file \<longleftrightarrow> wh_wf (wh_value file)"

definition wh_legal :: "io_env \<times> wh_op \<Rightarrow> wh_store option \<Rightarrow> bool" where
  "wh_legal x file \<longleftrightarrow> wh_legal_op (snd x) (wh_value file)"

lemma wh_read:
  assumes "wh_file_wf file" "readJsonFileStore createOutboundWebhookStore io file = Inr cur"
  shows "cur = wh_value file"
  using assms parse_wf_webhooks
  by (cases "file") (auto simp: wh_file_wf_def wh_value_def createOutboundWebhookStore_def split: if_splits)

lemma webhook_step_wf:
  assumes wf: "wh_file_wf file" and leg: "wh_legal x file"
  shows "wh_file_wf (fst (webhook_repository_step parse x file))"
proof (rule update_cases [of createOutboundWebhookStore "fst x" "webhook_callback parse (snd x)" "file"])
  fix e
  assume "updateJsonFileStore createOutboundWebhookStore (fst x) (webhook_callback parse (snd x)) file =
    (file, Inl e)"
  then show ?thesis using wf by (simp add: webhook_repository_step_def)
next
  fix cur v r w
  assume rd: "readJsonFileStore createOutboundWebhookStore (fst x) file = Inr cur"
    and cb: "webhook_callback parse (snd x) cur = Inr (v, r)"
    and res: "updateJsonFileStore createOutboundWebhookStore (fst x) (webhook_callback parse (snd x)) file =
      (Some v, if io_release (fst x) then Inr r else Inl ReleaseFailed)"
  have cur: "cur = wh_value file" using wh_read [OF wf] rd by blast
  have "wh_wf v"
    using webhook_callback_wf [OF _ _ cb] cur wf leg by (simp add: wh_file_wf_def wh_legal_def)
  then show ?thesis using res by (simp add: webhook_repository_step_def wh_file_wf_def wh_value_def)
qed

interpretation webhook_system: op_system "webhook_repository_step parse" wh_file_wf wh_legal
  for parse
  by unfold_locales (rule webhook_step_wf)

end
