(* ===== verification/Webhook_Queue.thy ===== *)
theory Webhook_Queue
  imports Webhook_System Lease_Queue
begin

section \<open>The outbox is a leased queue\<close>

text \<open>
  \<open>claimOutboundWebhookDeliveries\<close> and \<open>completeOutboundWebhookDelivery\<close> meet the contract
  of \<open>Lease_Queue\<close>: the same guarantees as for the sequence repository follow, without
  repeating their proofs.
\<close>

definition delivery_lease :: "wh_delivery \<Rightarrow> (uuid \<times> instant) option" where
  "delivery_lease d = (case (dv_leaseToken d, dv_leaseExpiresAt d) of (Some t, Some x) \<Rightarrow> Some (t, x) | _ \<Rightarrow> None)"

definition webhook_lease :: "wh_store \<Rightarrow> uuid \<Rightarrow> (uuid \<times> instant) option" where
  "webhook_lease s i = Option.bind (List.find (\<lambda>d. dv_id d = i) (ws_deliveries s)) delivery_lease"

definition webhook_claim :: "claim_deliveries_options \<Rightarrow> wh_store \<Rightarrow> wh_store \<times> uuid list" where
  "webhook_claim r s =
     (case claimOutboundWebhookDeliveries r s of
        Inl e \<Rightarrow> (s, []) | Inr (s', cls) \<Rightarrow> (s', map (dv_id \<circ> cw_delivery) cls))"

record webhook_completion =
  wc_delivery :: wh_delivery
  wc_result :: complete_result
  wc_endpoint :: "wh_endpoint option"
  wc_now :: instant
  wc_base :: int

definition webhook_complete :: "uuid \<Rightarrow> uuid \<Rightarrow> webhook_completion \<Rightarrow> wh_store \<Rightarrow> wh_store \<times> bool" where
  "webhook_complete i t x s =
     (case completeOutboundWebhookDelivery ((wc_delivery x)\<lparr>dv_id := i, dv_leaseToken := Some t\<rparr>)
             (wc_result x) (wc_endpoint x) (wc_now x) (wc_base x) s of
        Inl e \<Rightarrow> (s, False) | Inr (s', d) \<Rightarrow> (s', True))"

definition outbox_ok :: "wh_store \<Rightarrow> bool" where
  "outbox_ok s \<longleftrightarrow> deliveries_fine UNIV (ws_deliveries s)"

lemma wf_outbox: "wh_wf s \<Longrightarrow> outbox_ok s"
  using deliveries_fine_mono wh_wf_parts(2) by (auto simp: outbox_ok_def)

lemma find_delivery:
  "outbox_ok s \<Longrightarrow> d \<in> set (ws_deliveries s) \<Longrightarrow>
     List.find (\<lambda>c. dv_id c = dv_id d) (ws_deliveries s) = Some d"
  by (simp add: outbox_ok_def deliveries_fine_def find_key_distinct)

lemma find_replaced:
  assumes "\<And>d. dv_id (f d) = dv_id d"
  shows "List.find (\<lambda>c. dv_id c = i) (map f ds) = map_option f (List.find (\<lambda>c. dv_id c = i) ds)"
  using assms by (induction ds) auto

lemma leased_find:
  assumes "s' = s\<lparr>ws_deliveries := apply_replacements (map (\<lambda>d. (dv_id d, d)) leased) (ws_deliveries s)\<rparr>"
  shows "List.find (\<lambda>c. dv_id c = i) (ws_deliveries s') =
    map_option (\<lambda>d. case map_of (map (\<lambda>d. (dv_id d, d)) leased) (dv_id d) of Some r \<Rightarrow> r | None \<Rightarrow> d)
      (List.find (\<lambda>c. dv_id c = i) (ws_deliveries s))"
  unfolding assms apply_replacements_def
  by (simp, rule find_replaced) (auto split: option.split dest!: map_of_SomeD)


lemma webhook_claim_cases:
  assumes "outbox_ok s"
  obtains "webhook_claim r s = (s, [])"
  | leased where "length leased = length (claimable_deliveries r s)"
      "\<And>n. n < length leased \<Longrightarrow> leased ! n =
         leased_delivery (cd_dl_now r) (cd_dl_leaseMs r) (cd_dl_tokens r n) (claimable_deliveries r s ! n)"
      "fst (webhook_claim r s) =
         s\<lparr>ws_deliveries := apply_replacements (map (\<lambda>d. (dv_id d, d)) leased) (ws_deliveries s)\<rparr>"
      "snd (webhook_claim r s) = map dv_id leased"
      "map dv_id leased = map dv_id (claimable_deliveries r s)" "distinct (map dv_id leased)"
      "deliveries_fine UNIV (ws_deliveries (fst (webhook_claim r s)))"
proof (cases "claimOutboundWebhookDeliveries r s")
  case (Inl e)
  then show ?thesis using that(1) by (simp add: webhook_claim_def)
next
  case (Inr p)
  then obtain s' cls where c: "claimOutboundWebhookDeliveries r s = Inr (s', cls)" by (cases p) auto
  have fine: "deliveries_fine UNIV (ws_deliveries s)" using assms by (simp add: outbox_ok_def)
  show ?thesis
  proof (rule claim_result_deliveries [OF fine c], rule that(2), assumption, blast)
  qed (use claimed_deliveries_fine [OF fine c] in \<open>simp_all add: webhook_claim_def c comp_def\<close>)
qed

lemma webhook_complete_cases:
  assumes "outbox_ok s" "snd (webhook_complete i t x s)"
  obtains n d where "n < length (ws_deliveries s)" "dv_id (ws_deliveries s ! n) = i"
    "dv_leaseToken (ws_deliveries s ! n) = Some t" "dv_id d = i" "delivery_lease d = None"
    "ws_deliveries (fst (webhook_complete i t x s)) = (ws_deliveries s)[n := d]"
    "deliveries_fine UNIV ((ws_deliveries s)[n := d])"
proof -
  obtain s' d where c: "completeOutboundWebhookDelivery ((wc_delivery x)\<lparr>dv_id := i, dv_leaseToken := Some t\<rparr>)
             (wc_result x) (wc_endpoint x) (wc_now x) (wc_base x) s = Inr (s', d)"
      "fst (webhook_complete i t x s) = s'"
    using assms(2) by (auto simp: webhook_complete_def split: sum.splits)
  obtain n rs where n: "n < length (ws_deliveries s)" "dv_id (ws_deliveries s ! n) = i"
      "dv_status (ws_deliveries s ! n) = DeliveryDelivering" "dv_leaseToken (ws_deliveries s ! n) = Some t"
      "deliverySchema (completed_delivery (wc_result x) (wc_endpoint x) (wc_now x) (wc_base x)
         (ws_deliveries s ! n)) = Some d"
      "s' = s\<lparr>ws_deliveries := (ws_deliveries s)[n := d], ws_endpointRuntime := rs\<rparr>"
    by (rule complete_delivery_result [OF c(1)]) simp
  have fine: "deliveries_fine UNIV (ws_deliveries s)" using assms(1) by (simp add: outbox_ok_def)
  then have "delivery_fine UNIV (ws_deliveries s ! n)" using n(1) by (simp add: deliveries_fine_def)
  note b = completed_becomes [OF this n(3,5)]
  have "dv_id d = i" "delivery_lease d = None"
    using b n(2) by (auto simp: completed_delivery_def delivery_lease_def Let_def)
  moreover have "ws_deliveries (fst (webhook_complete i t x s)) = (ws_deliveries s)[n := d]"
    using n(6) c(2) by simp
  moreover have "deliveries_fine UNIV ((ws_deliveries s)[n := d])"
    using deliveries_update [OF fine n(1)] b by blast
  ultimately show thesis using that [OF n(1,2,4)] by blast
qed

lemma leases_paired: "outbox_ok s \<Longrightarrow> d \<in> set (ws_deliveries s) \<Longrightarrow> dv_leaseToken d = Some t \<Longrightarrow>
    \<exists>e. delivery_lease d = Some (t, e)"
  by (auto simp: outbox_ok_def deliveries_fine_def delivery_fine_def delivery_state_ok_def delivery_lease_def
      split: option.splits)

lemma claimable_lease_expired:
  assumes "claimable_delivery r s d" "delivery_state_ok d" "delivery_lease d = Some (t, e)"
  shows "e \<le> cd_dl_now r"
  using assms
  by (auto simp: claimable_delivery_def delivery_due_def delivery_state_ok_def delivery_lease_def
      split: option.splits if_splits)

lemma find_update_same:
  assumes "deliveries_fine UNIV (xs[n := d])" "n < length xs" "dv_id d = i"
  shows "List.find (\<lambda>c. dv_id c = i) (xs[n := d]) = Some d"
  using find_key_distinct [of dv_id "xs[n := d]" d] assms
  by (auto simp: deliveries_fine_def set_update_memI)

lemma find_update_other:
  assumes "dv_id d = dv_id (xs ! n)" "n < length xs" "dv_id d \<noteq> j"
  shows "List.find (\<lambda>c. dv_id c = j) (xs[n := d]) = List.find (\<lambda>c. dv_id c = j) xs"
  using assms
proof (induction xs arbitrary: n)
  case (Cons x xs)
  then show ?case by (cases n) auto
qed simp

interpretation webhook_queue: lease_queue webhook_lease webhook_claim webhook_complete outbox_ok
  cd_dl_now "\<lambda>r. cd_dl_now r + cd_dl_leaseMs r" "\<lambda>r. range (cd_dl_tokens r)" cd_dl_limit
proof (unfold_locales, goal_cases)
  case (1 s r)
  show ?case by (rule webhook_claim_cases [OF 1, of r]) (use 1 in \<open>simp_all add: outbox_ok_def\<close>)
next
  case (2 s i t x)
  show ?case
  proof (cases "snd (webhook_complete i t x s)")
    case True
    then show ?thesis
      by (rule webhook_complete_cases [OF 2]) (simp add: outbox_ok_def)
  next
    case False
    then show ?thesis using 2 by (auto simp: webhook_complete_def split: sum.splits)
  qed
next
  case (3 s r)
  show ?case by (rule webhook_claim_cases [OF 3, of r]) simp_all
next
  case (4 s r)
  show ?case
  proof (rule webhook_claim_cases [OF 4, of r])
    fix leased :: "wh_delivery list"
    assume "length leased = length (claimable_deliveries r s)" "snd (webhook_claim r s) = map dv_id leased"
    then show ?thesis by (simp add: claimable_deliveries_def)
  qed simp
next
  case (5 s i r t e)
  show ?case
  proof (rule webhook_claim_cases [OF 5(1), of r])
    fix leased
    assume "snd (webhook_claim r s) = map dv_id leased"
      "map dv_id leased = map dv_id (claimable_deliveries r s)"
    then obtain d where d: "d \<in> set (claimable_deliveries r s)" "dv_id d = i" using 5(2) by auto
    then have m: "d \<in> set (ws_deliveries s)" "claimable_delivery r s d" using claimable_member by blast+
    then have "delivery_lease d = Some (t, e)"
      using 5(3) find_delivery [OF 5(1) m(1)] d(2) by (simp add: webhook_lease_def)
    then show ?thesis
      using claimable_lease_expired [OF m(2)] m(1) 5(1)
      by (simp add: outbox_ok_def deliveries_fine_def delivery_fine_def)
  qed (use 5 in simp)
next
  case (6 s i r)
  show ?case
  proof (rule webhook_claim_cases [OF 6(1), of r])
    fix leased
    assume l: "length leased = length (claimable_deliveries r s)"
      "\<And>n. n < length leased \<Longrightarrow> leased ! n =
         leased_delivery (cd_dl_now r) (cd_dl_leaseMs r) (cd_dl_tokens r n) (claimable_deliveries r s ! n)"
      "fst (webhook_claim r s) =
         s\<lparr>ws_deliveries := apply_replacements (map (\<lambda>d. (dv_id d, d)) leased) (ws_deliveries s)\<rparr>"
      "snd (webhook_claim r s) = map dv_id leased" "map dv_id leased = map dv_id (claimable_deliveries r s)"
      "distinct (map dv_id leased)"
    obtain n where n: "n < length leased" "dv_id (leased ! n) = i"
      using 6(2) l(4) by (auto simp: in_set_conv_nth)
    then have "map_of (map (\<lambda>d. (dv_id d, d)) leased) i = Some (leased ! n)"
      using map_of_eq_Some_iff [of "map (\<lambda>d. (dv_id d, d)) leased" i "leased ! n"] l(6) by (auto simp: comp_def)
    moreover obtain d where "d \<in> set (ws_deliveries s)" "dv_id d = i"
      using 6(2) l(4,5) claimable_member by (metis (no_types, lifting) imageE list.set_map)
    ultimately have "List.find (\<lambda>c. dv_id c = i) (ws_deliveries (fst (webhook_claim r s))) = Some (leased ! n)"
      using leased_find [OF l(3), of i] find_delivery [OF 6(1)] by auto
    moreover have "delivery_lease (leased ! n) = Some (cd_dl_tokens r n, cd_dl_now r + cd_dl_leaseMs r)"
      using l(2) [OF n(1)] by (simp add: leased_delivery_def delivery_lease_def)
    ultimately show ?thesis by (auto simp: webhook_lease_def)
  qed (use 6 in simp)
next
  case (7 s i r)
  show ?case
  proof (rule webhook_claim_cases [OF 7(1), of r])
    fix leased
    assume l: "fst (webhook_claim r s) =
         s\<lparr>ws_deliveries := apply_replacements (map (\<lambda>d. (dv_id d, d)) leased) (ws_deliveries s)\<rparr>"
      "snd (webhook_claim r s) = map dv_id leased"
    have none: "map_of (map (\<lambda>d. (dv_id d, d)) leased) i = None"
      using 7(2) l(2) by (auto simp: map_of_eq_None_iff)
    have "List.find (\<lambda>c. dv_id c = i) (ws_deliveries (fst (webhook_claim r s))) =
      List.find (\<lambda>c. dv_id c = i) (ws_deliveries s)"
    proof (cases "List.find (\<lambda>c. dv_id c = i) (ws_deliveries s)")
      case None
      then show ?thesis unfolding leased_find [OF l(1), of i] by simp
    next
      case (Some d)
      then have "dv_id d = i" using find_Some_in [OF Some] by simp
      then show ?thesis unfolding leased_find [OF l(1), of i] Some by (simp add: none)
    qed
    then show ?thesis by (simp add: webhook_lease_def)
  qed (use 7 in simp)
next
  case (8 s i t x)
  show ?case
  proof (rule webhook_complete_cases [OF 8])
    fix n d
    assume n: "n < length (ws_deliveries s)" "dv_id (ws_deliveries s ! n) = i"
      "dv_leaseToken (ws_deliveries s ! n) = Some t"
    note m = nth_mem [OF n(1)]
    have "List.find (\<lambda>d. dv_id d = i) (ws_deliveries s) = Some (ws_deliveries s ! n)"
      using find_delivery [OF 8(1) m] n(2) by simp
    then show ?thesis using leases_paired [OF 8(1) m n(3)] by (simp add: webhook_lease_def)
  qed
next
  case (9 s i t x)
  show ?case
    by (rule webhook_complete_cases [OF 9]) (simp add: webhook_lease_def find_update_same)
next
  case (10 i t x s)
  then show ?case by (auto simp: webhook_complete_def split: sum.splits)
next
  case (11 s j i t x)
  show ?case
  proof (cases "snd (webhook_complete i t x s)")
    case True
    show ?thesis
      by (rule webhook_complete_cases [OF 11(1) True])
         (use 11(2) in \<open>simp add: webhook_lease_def find_update_other\<close>)
  next
    case False
    then show ?thesis by (auto simp: webhook_complete_def split: sum.splits)
  qed
qed

end
