(* ===== verification/Webhook_Dispatch.thy ===== *)
theory Webhook_Dispatch
  imports Webhook_System
begin

section \<open>Delivering webhooks\<close>

text \<open>
  Signing, the delivery of one claimed webhook and the dispatch loop of
  \<^verbatim>\<open>packages/automation/src/outbound-webhooks.ts\<close>, and the fallback over the addresses of
  \<^verbatim>\<open>packages/automation/src/webhook-transport.ts\<close>.

  The functions of the host are arguments: the URL parser, \<open>isIP\<close>, the HMAC, the text
  of a date and the parser of dates (\<open>webhook_host\<close>).  What the network answers to one
  delivery is its \<open>delivery_env\<close>.  A delivery returns the requests it made besides its
  attempt.  Errors are their messages.

  A batch is started with \<open>Promise.all\<close>; its deliveries touch different records of the
  store, and the model runs them in list order.
\<close>

record webhook_host =
  ho_parse :: url_parser
  ho_isIP :: "string \<Rightarrow> nat"
  ho_hmac :: "string \<Rightarrow> string \<Rightarrow> string"
  ho_iso :: "instant \<Rightarrow> string"
  ho_dateParse :: "string \<Rightarrow> rat option"

subsection \<open>Signatures\<close>

definition signOutboundWebhookPayload ::
  "webhook_host \<Rightarrow> string \<Rightarrow> string \<Rightarrow> string \<Rightarrow> wh_error + string" where
  "signOutboundWebhookPayload host secret timestamp body =
     (if secret = [] then Inl (WhSignatureError ''Outbound webhook signing secret must not be blank'')
      else Inr (''v1='' @ ho_hmac host secret (timestamp @ ''.'' @ body)))"

record signature_input =
  vi_secret :: string
  vi_timestamp :: string
  vi_body :: string
  vi_signature :: string
  vi_now :: instant
  vi_toleranceMs :: "int option"

definition verifyOutboundWebhookSignature :: "webhook_host \<Rightarrow> signature_input \<Rightarrow> wh_error + bool" where
  "verifyOutboundWebhookSignature host input =
     (let toleranceMs = opt_default (vi_toleranceMs input) 300000
      in case ho_dateParse host (vi_timestamp input) of
           None \<Rightarrow> Inr False
         | Some timestampMs \<Rightarrow>
             (if \<bar>of_int (vi_now input) - timestampMs\<bar> > of_int toleranceMs then Inr False
              else case signOutboundWebhookPayload host (vi_secret input) (vi_timestamp input) (vi_body input) of
                     Inl e \<Rightarrow> Inl e
                   | Inr expected \<Rightarrow> Inr (vi_signature input = expected)))"

subsection \<open>Resolving the endpoint\<close>

record resolved_address =
  ra_address :: string
  ra_family :: nat

datatype address_resolution = AddressesSafe "resolved_address list" | AddressesUnsafe string

text \<open>\<open>Inl\<close>: the promise is rejected.\<close>

definition resolvePublicWebhookAddresses ::
  "webhook_host \<Rightarrow> (string \<Rightarrow> string + resolved_address list) \<Rightarrow> string \<Rightarrow> string + address_resolution" where
  "resolvePublicWebhookAddresses host dnsLookup url =
     (case ho_parse host url of
        None \<Rightarrow> Inl ''Invalid URL''
      | Some u \<Rightarrow>
          (case isSafeFetchUrl (ho_parse host) url of
             Some reason \<Rightarrow> Inr (AddressesUnsafe reason)
           | None \<Rightarrow>
               (let hostname = strip_brackets (url_hostname u);
                    literalFamily = ho_isIP host hostname
                in case (if literalFamily = 0 then dnsLookup hostname
                         else Inr [\<lparr>ra_address = hostname, ra_family = literalFamily\<rparr>]) of
                     Inl e \<Rightarrow> Inl e
                   | Inr addresses \<Rightarrow>
                       (if addresses = [] then Inl (''Endpoint host has no DNS addresses: '' @ hostname)
                        else let normalized = sort_key ra_family
                                   (map (\<lambda>a. a\<lparr>ra_family := (if ra_family a = 6 then 6 else 4)\<rparr>) addresses)
                             in case List.find (\<lambda>a. isPrivateHost (ra_address a)) normalized of
                                  Some blocked \<Rightarrow> Inr (AddressesUnsafe (''Host '' @ hostname @
                                    '' resolves to private/internal address '' @ ra_address blocked))
                                | None \<Rightarrow> Inr (AddressesSafe normalized)))))"

subsection \<open>Requests\<close>

record webhook_request =
  rq_url :: string
  rq_address :: "resolved_address option"
  rq_headers :: "(string \<times> string) list"
  rq_body :: string

text \<open>The answer to one request: an error, with whether the deadline has passed, or a status.\<close>

datatype http_reply = ReplyError string bool | ReplyStatus bool int

fun post_addresses ::
  "(webhook_request \<Rightarrow> http_reply) \<Rightarrow> (resolved_address \<Rightarrow> webhook_request) \<Rightarrow> string \<Rightarrow> resolved_address list
     \<Rightarrow> webhook_request list \<times> (string + bool \<times> int)" where
  "post_addresses send request hostname [] =
     ([], Inl (''Unable to connect to any validated address for '' @ hostname))"
| "post_addresses send request hostname (a # as) =
     (case send (request a) of
        ReplyStatus ok status \<Rightarrow> ([request a], Inr (ok, status))
      | ReplyError e aborted \<Rightarrow>
          (if aborted then ([request a], Inl e)
           else apfst ((#) (request a)) (post_addresses send request hostname as)))"

definition postPinnedHttpsWebhookWithFallback ::
  "webhook_host \<Rightarrow> (webhook_request \<Rightarrow> http_reply) \<Rightarrow> string \<Rightarrow> resolved_address list
     \<Rightarrow> (string \<times> string) list \<Rightarrow> string \<Rightarrow> webhook_request list \<times> (string + bool \<times> int)" where
  "postPinnedHttpsWebhookWithFallback host send url addresses headers body =
     post_addresses send
       (\<lambda>a. \<lparr>rq_url = url, rq_address = Some a, rq_headers = headers, rq_body = body\<rparr>)
       (case ho_parse host url of None \<Rightarrow> [] | Some u \<Rightarrow> url_hostname u) addresses"

subsection \<open>The event on the wire\<close>

definition event_source_text :: "event_source \<Rightarrow> string" where
  "event_source_text s =
     (case s of SourceListmonk \<Rightarrow> ''listmonk'' | SourceProvider \<Rightarrow> ''provider''
      | SourceOperation \<Rightarrow> ''operation'' | SourceAbtest \<Rightarrow> ''abtest'' | SourceSequence \<Rightarrow> ''sequence''
      | SourceWebhook \<Rightarrow> ''webhook'')"

definition subject_kind_text :: "subject_kind \<Rightarrow> string" where
  "subject_kind_text k =
     (case k of SubjectOperation \<Rightarrow> ''operation'' | SubjectCampaign \<Rightarrow> ''campaign''
      | SubjectSubscriber \<Rightarrow> ''subscriber'' | SubjectMessage \<Rightarrow> ''message''
      | SubjectExperiment \<Rightarrow> ''experiment'' | SubjectSequence \<Rightarrow> ''sequence''
      | SubjectWebhook \<Rightarrow> ''webhook'')"

definition event_json :: "webhook_host \<Rightarrow> wh_event \<Rightarrow> json" where
  "event_json host e = JObj
     ([(''id'', JStr (ev_id e)), (''type'', JStr (ev_type e)), (''schemaVersion'', JNum (ev_schemaVersion e)),
       (''occurredAt'', JStr (ho_iso host (ev_occurredAt e))),
       (''source'', JStr (event_source_text (ev_source e)))] @
      (case ev_correlationId e of None \<Rightarrow> [] | Some c \<Rightarrow> [(''correlationId'', JStr c)]) @
      (case ev_subject e of None \<Rightarrow> []
       | Some s \<Rightarrow> [(''subject'', JObj [(''kind'', JStr (subject_kind_text (su_kind s))),
                                        (''key'', JStr (su_key s))])]) @
      [(''data'', JObj (ev_data e))])"

subsection \<open>One delivery\<close>

datatype dispatch_code =
    EcEndpointUnavailable
  | EcDeliveryUnavailable
  | EcSigningSecretUnavailable
  | EcUrlPolicyBlocked
  | EcHttpRejected
  | EcLeaseConflict
  | EcDeliveryStateConflict
  | EcDeliveryFailed

record webhook_attempt = complete_result +
  at_errorCode :: "dispatch_code option"

record delivery_env =
  de_resolveSecret :: "string \<Rightarrow> string option"
  de_dnsTimedOut :: bool
  de_dnsLookup :: "string \<Rightarrow> string + resolved_address list"
  de_sentAt :: instant
  de_fetcher :: "(webhook_request \<Rightarrow> http_reply) option"
  de_send :: "webhook_request \<Rightarrow> http_reply"

definition failed_attempt :: "bool \<Rightarrow> string \<Rightarrow> dispatch_code \<Rightarrow> webhook_attempt" where
  "failed_attempt retryable error code =
     \<lparr>cr_success = False, cr_retryable = retryable, cr_statusCode = None, cr_error = Some error,
      at_errorCode = Some code\<rparr>"

definition retryable_status :: "int \<Rightarrow> bool" where
  "retryable_status n = (n = 408 \<or> n = 409 \<or> n = 425 \<or> n = 429 \<or> n \<ge> 500)"

definition reply_attempt :: "string + bool \<times> int \<Rightarrow> webhook_attempt" where
  "reply_attempt reply =
     (case reply of
        Inl e \<Rightarrow> failed_attempt True e EcDeliveryFailed
      | Inr (ok, status) \<Rightarrow>
          (if ok then \<lparr>cr_success = True, cr_retryable = False, cr_statusCode = Some status, cr_error = None,
                       at_errorCode = None\<rparr>
           else \<lparr>cr_success = False, cr_retryable = retryable_status status, cr_statusCode = Some status,
                 cr_error = Some (''Endpoint returned HTTP '' @ int_text status),
                 at_errorCode = Some EcHttpRejected\<rparr>))"

definition webhook_headers :: "wh_event \<Rightarrow> string \<Rightarrow> string \<Rightarrow> (string \<times> string) list" where
  "webhook_headers event timestamp signature =
     [(''Content-Type'', ''application/json''), (''User-Agent'', ''listmonk-ops-webhooks/1''),
      (''X-Listmonk-Ops-Event-Id'', ev_id event), (''X-Listmonk-Ops-Event-Type'', ev_type event),
      (''X-Listmonk-Ops-Timestamp'', timestamp), (''X-Listmonk-Ops-Signature'', signature)]"

definition post_event ::
  "webhook_host \<Rightarrow> delivery_env \<Rightarrow> wh_event \<Rightarrow> wh_endpoint \<Rightarrow> resolved_address list \<Rightarrow> string \<Rightarrow> string
     \<Rightarrow> string \<Rightarrow> webhook_request list \<times> webhook_attempt" where
  "post_event host env event endpoint addresses timestamp body signature =
     (let headers = webhook_headers event timestamp signature
      in case de_fetcher env of
           Some fetcher \<Rightarrow>
             (let request = \<lparr>rq_url = ep_url endpoint, rq_address = None, rq_headers = headers, rq_body = body\<rparr>
              in ([request], reply_attempt (case fetcher request of
                    ReplyError e _ \<Rightarrow> Inl e | ReplyStatus ok status \<Rightarrow> Inr (ok, status))))
         | None \<Rightarrow>
             apsnd reply_attempt (postPinnedHttpsWebhookWithFallback host (de_send env) (ep_url endpoint)
               addresses headers body))"

text \<open>The secret is not empty where it signs, so that call cannot throw.\<close>

definition deliverClaimedWebhook ::
  "webhook_host \<Rightarrow> delivery_env \<Rightarrow> claimed_delivery \<Rightarrow> webhook_request list \<times> webhook_attempt" where
  "deliverClaimedWebhook host env claimed =
     (case cw_endpoint claimed of
        None \<Rightarrow> ([], failed_attempt False ''Endpoint was deleted before delivery'' EcEndpointUnavailable)
      | Some endpoint \<Rightarrow>
          (if \<not> ep_enabled endpoint then ([], failed_attempt False ''Endpoint is disabled'' EcEndpointUnavailable)
           else case de_resolveSecret env (ep_secretRef endpoint) of
             None \<Rightarrow> ([], failed_attempt True
               (''Signing secret environment variable is unavailable: '' @ ep_secretRef endpoint)
               EcSigningSecretUnavailable)
           | Some secret \<Rightarrow>
               (if trim secret = []
                then ([], failed_attempt True
                  (''Signing secret environment variable is unavailable: '' @ ep_secretRef endpoint)
                  EcSigningSecretUnavailable)
                else case (if de_dnsTimedOut env then Inl ''Endpoint DNS validation timed out''
                           else resolvePublicWebhookAddresses host (de_dnsLookup env) (ep_url endpoint)) of
                  Inl e \<Rightarrow> ([], failed_attempt True e EcDeliveryFailed)
                | Inr (AddressesUnsafe reason) \<Rightarrow>
                    ([], failed_attempt False (''Endpoint blocked by URL policy: '' @ reason) EcUrlPolicyBlocked)
                | Inr (AddressesSafe addresses) \<Rightarrow>
                    (let event = dv_event (cw_delivery claimed);
                         timestamp = ho_iso host (de_sentAt env);
                         body = JSON_stringify (event_json host event)
                     in case signOutboundWebhookPayload host secret timestamp body of
                          Inl _ \<Rightarrow> ([], failed_attempt True '''' EcDeliveryFailed)
                        | Inr signature \<Rightarrow>
                            post_event host env event endpoint addresses timestamp body signature))))"

subsection \<open>The dispatch loop\<close>

record dispatch_options =
  do_limit :: "js_number option"
  do_leaseMs :: "js_number option"
  do_baseRetryDelayMs :: "js_number option"
  do_concurrency :: "js_number option"
  do_deliveryIds :: "uuid list option"
  do_bypassCircuitBreaker :: bool

record dispatch_config =
  dc_limit :: nat
  dc_leaseMs :: int
  dc_base :: int
  dc_concurrency :: nat
  dc_deliveryIds :: "uuid list option"
  dc_bypass :: bool

text \<open>
  A checked integer option: the default when absent, an error when it is not an integer
  or out of bounds.
\<close>

definition checked_integer :: "js_number option \<Rightarrow> int \<Rightarrow> int \<Rightarrow> int option \<Rightarrow> string \<Rightarrow> wh_error + int" where
  "checked_integer value fallback lo hi message =
     (case opt_default value (Num (of_int fallback)) of
        Num q \<Rightarrow> (if \<not> isInteger (Num q) \<or> \<lfloor>q\<rfloor> < lo \<or> (case hi of None \<Rightarrow> False | Some h \<Rightarrow> \<lfloor>q\<rfloor> > h)
                  then Inl (WhRangeError message) else Inr \<lfloor>q\<rfloor>)
      | _ \<Rightarrow> Inl (WhRangeError message))"

definition dispatch_config_of :: "dispatch_options \<Rightarrow> wh_error + dispatch_config" where
  "dispatch_config_of options =
     (case checked_integer (do_limit options) 25 1 (Some 100) ''Dispatch limit must be between 1 and 100'' of
        Inl e \<Rightarrow> Inl e | Inr limit \<Rightarrow>
     (case checked_integer (do_leaseMs options) DEFAULT_OUTBOUND_WEBHOOK_LEASE_MS 1000 None
             ''Webhook delivery lease must be at least 1000ms'' of
        Inl e \<Rightarrow> Inl e | Inr leaseMs \<Rightarrow>
     (case checked_integer (do_baseRetryDelayMs options) DEFAULT_OUTBOUND_WEBHOOK_RETRY_DELAY_MS 1000 None
             ''Webhook retry delay must be at least 1000ms'' of
        Inl e \<Rightarrow> Inl e | Inr base \<Rightarrow>
     (case checked_integer (do_concurrency options) (int DEFAULT_OUTBOUND_WEBHOOK_CONCURRENCY) 1 (Some 10)
             ''Webhook dispatch concurrency must be between 1 and 10'' of
        Inl e \<Rightarrow> Inl e | Inr concurrency \<Rightarrow>
        (if do_bypassCircuitBreaker options \<and> opt_default (do_deliveryIds options) [] = []
         then Inl (WhTypeError ''Circuit bypass requires one or more explicitly targeted delivery IDs'')
         else Inr \<lparr>dc_limit = nat limit, dc_leaseMs = leaseMs, dc_base = base,
                   dc_concurrency = nat concurrency, dc_deliveryIds = do_deliveryIds options,
                   dc_bypass = do_bypassCircuitBreaker options\<rparr>)))))"

text \<open>The outside world of one round of the loop.\<close>

record round_env =
  ro_claimIo :: io_env
  ro_claimNow :: instant
  ro_tokens :: "nat \<Rightarrow> uuid"
  ro_delivery :: "uuid \<Rightarrow> delivery_env"
  ro_completeIo :: "uuid \<Rightarrow> io_env"
  ro_completeNow :: "uuid \<Rightarrow> instant"

datatype entry_status = EntrySucceeded | EntryRetry | EntryExhausted | EntrySkipped | EntryOther

record dispatch_entry =
  en_deliveryId :: uuid
  en_endpointId :: uuid
  en_entryStatus :: entry_status
  en_statusCode :: "int option"
  en_errorCode :: "dispatch_code option"

record dispatch_result =
  dr_claimed :: nat
  dr_succeeded :: nat
  dr_retried :: nat
  dr_exhausted :: nat
  dr_skipped :: nat
  dr_results :: "dispatch_entry list"

definition entry_status_of :: "delivery_status \<Rightarrow> entry_status" where
  "entry_status_of st =
     (case st of DeliverySucceeded \<Rightarrow> EntrySucceeded | DeliveryRetry \<Rightarrow> EntryRetry
      | DeliveryExhausted \<Rightarrow> EntryExhausted | _ \<Rightarrow> EntryOther)"

definition dispatch_one ::
  "webhook_host \<Rightarrow> dispatch_config \<Rightarrow> round_env \<Rightarrow> claimed_delivery \<Rightarrow> wh_store option
     \<Rightarrow> wh_store option \<times> (wh_error store_failure + dispatch_entry)" where
  "dispatch_one host config env entry file =
     (let d = cw_delivery entry; i = dv_id d;
          attempt = snd (deliverClaimedWebhook host (ro_delivery env i) entry)
      in case updateJsonFileStore createOutboundWebhookStore (ro_completeIo env i)
             (completeOutboundWebhookDelivery d (complete_result.truncate attempt) (cw_endpoint entry)
               (ro_completeNow env i) (dc_base config)) file of
           (f, Inr completed) \<Rightarrow>
             (f, Inr \<lparr>en_deliveryId = dv_id completed, en_endpointId = dv_endpointId completed,
                      en_entryStatus = entry_status_of (dv_status completed),
                      en_statusCode = dv_statusCode completed, en_errorCode = at_errorCode attempt\<rparr>)
         | (f, Inl (CallbackFailed (WhConflict m c))) \<Rightarrow>
             (f, Inr \<lparr>en_deliveryId = i, en_endpointId = dv_endpointId d, en_entryStatus = EntrySkipped,
                      en_statusCode = None, en_errorCode = Some EcLeaseConflict\<rparr>)
         | (f, Inl e) \<Rightarrow> (f, Inl e))"

fun dispatch_batch ::
  "webhook_host \<Rightarrow> dispatch_config \<Rightarrow> round_env \<Rightarrow> claimed_delivery list \<Rightarrow> wh_store option
     \<Rightarrow> wh_store option \<times> (wh_error store_failure + dispatch_entry) list" where
  "dispatch_batch host config env [] file = (file, [])"
| "dispatch_batch host config env (c # cs) file =
     (let (f, r) = dispatch_one host config env c file;
          (f', rs) = dispatch_batch host config env cs f
      in (f', r # rs))"

text \<open>\<open>Promise.all\<close>: the first rejection, or all values.\<close>

fun promise_all :: "('e + 'a) list \<Rightarrow> 'e + 'a list" where
  "promise_all [] = Inr []"
| "promise_all (Inl e # rs) = Inl e"
| "promise_all (Inr x # rs) = map_sum id ((#) x) (promise_all rs)"

definition entry_count :: "entry_status \<Rightarrow> dispatch_entry list \<Rightarrow> nat" where
  "entry_count st es = length (filter (\<lambda>e. en_entryStatus e = st) es)"

definition dispatch_summary :: "nat \<Rightarrow> dispatch_entry list \<Rightarrow> dispatch_result" where
  "dispatch_summary claimed results =
     \<lparr>dr_claimed = claimed, dr_succeeded = entry_count EntrySucceeded results,
      dr_retried = entry_count EntryRetry results, dr_exhausted = entry_count EntryExhausted results,
      dr_skipped = entry_count EntrySkipped results, dr_results = results\<rparr>"

definition round_claim ::
  "dispatch_config \<Rightarrow> round_env \<Rightarrow> nat \<Rightarrow> uuid list \<Rightarrow> wh_store option
     \<Rightarrow> wh_store option \<times> (wh_error store_failure + claimed_delivery list)" where
  "round_claim config env claimedCount processed file =
     updateJsonFileStore createOutboundWebhookStore (ro_claimIo env)
       (claimOutboundWebhookDeliveries
          \<lparr>cd_dl_limit = min (dc_concurrency config) (dc_limit config - claimedCount),
           cd_dl_now = ro_claimNow env, cd_dl_leaseMs = dc_leaseMs config,
           cd_dl_deliveryIds = dc_deliveryIds config, cd_dl_excludeDeliveryIds = processed,
           cd_dl_bypassCircuitBreaker = dc_bypass config, cd_dl_tokens = ro_tokens env\<rparr>) file"

function dispatch_loop ::
  "webhook_host \<Rightarrow> dispatch_config \<Rightarrow> (nat \<Rightarrow> round_env) \<Rightarrow> nat \<Rightarrow> uuid list \<Rightarrow> dispatch_entry list
     \<Rightarrow> wh_store option \<Rightarrow> wh_store option \<times> (wh_error store_failure + dispatch_result)" where
  "dispatch_loop host config env claimedCount processed results file =
     (if claimedCount \<ge> dc_limit config then (file, Inr (dispatch_summary claimedCount results))
      else let (f, r) = round_claim config (env claimedCount) claimedCount processed file
           in case r of
                Inl e \<Rightarrow> (f, Inl e)
              | Inr claimed \<Rightarrow>
                  (if claimed = [] then (f, Inr (dispatch_summary claimedCount results))
                   else let (f', batch) = dispatch_batch host config (env claimedCount) claimed f
                        in case promise_all batch of
                             Inl e \<Rightarrow> (f', Inl e)
                           | Inr entries \<Rightarrow>
                               dispatch_loop host config env (claimedCount + length claimed)
                                 (processed @ map (dv_id \<circ> cw_delivery) claimed) (results @ entries) f'))"
  by pat_completeness auto
termination
  by (relation "measure (\<lambda>(host, config, env, claimedCount, processed, results, file). dc_limit config - claimedCount)")
     (auto simp flip: length_greater_0_conv)

declare dispatch_loop.simps [simp del]

datatype dispatch_failure = DispatchRefused wh_error | DispatchStore "wh_error store_failure"

definition dispatchOutboundWebhooks ::
  "webhook_host \<Rightarrow> dispatch_options \<Rightarrow> (nat \<Rightarrow> round_env) \<Rightarrow> wh_store option
     \<Rightarrow> wh_store option \<times> (dispatch_failure + dispatch_result)" where
  "dispatchOutboundWebhooks host options env file =
     (case dispatch_config_of options of
        Inl e \<Rightarrow> (file, Inl (DispatchRefused e))
      | Inr config \<Rightarrow> apsnd (map_sum DispatchStore id) (dispatch_loop host config env 0 [] [] file))"

end
