(* ===== verification/Webhook_Properties.thy ===== *)
theory Webhook_Properties
  imports Webhook_Queue Webhook_Dispatch
begin

section \<open>Properties of the webhook outbox\<close>

text \<open>
  What the file-backed outbox promises: the document over any history, leases, what a
  claim may hand out, the circuit breaker against a specification over the history of
  attempts, retries, the capacity of the outbox, replays, and a completion that the
  schema rejects.  Each property is applied to a small outbox.
\<close>

subsection \<open>A sample outbox\<close>

definition sample_endpoint :: wh_endpoint where
  "sample_endpoint =
     \<lparr>ep_id = ''ep'', ep_name = ''Hook'', ep_url = ''https://hooks.example.com/in'',
      ep_secretRef = ''LISTMONK_OPS_WEBHOOK_SECRET'', ep_eventFilters = [''campaign.*''],
      ep_enabled = True, ep_timeoutMs = 10000, ep_maxAttempts = 2, ep_circuitFailureThreshold = 2,
      ep_circuitCooldownMs = 300000, ep_createdAt = 0, ep_updatedAt = 0\<rparr>"

definition sample_event :: wh_event where
  "sample_event =
     \<lparr>ev_id = ''event'', ev_type = ''campaign.started'', ev_schemaVersion = 1, ev_occurredAt = 500,
      ev_source = SourceListmonk, ev_correlationId = None, ev_subject = None, ev_data = []\<rparr>"

definition sample_enqueue :: enqueue_options where
  "sample_enqueue =
     \<lparr>eq_endpointIds = None, eq_bypassEventFilters = False, eq_limit = 100, eq_now = 1000,
      eq_fresh = (\<lambda>n. ''delivery'')\<rparr>"

definition sample_delivery :: wh_delivery where
  "sample_delivery = new_delivery sample_event sample_endpoint ''delivery'' 1000"

definition sample_outbox :: wh_store where
  "sample_outbox =
     \<lparr>ws_version = 2, ws_endpoints = [sample_endpoint], ws_deliveries = [sample_delivery],
      ws_endpointRuntime = [], ws_workers = []\<rparr>"

definition sample_history :: "(io_env \<times> wh_op) list" where
  "sample_history = [(io_fine, WhCreateEndpoint sample_endpoint), (io_fine, WhEnqueue sample_event sample_enqueue)]"

definition no_urls :: url_parser where
  "no_urls = (\<lambda>s. None)"

lemma sample_endpoint_valid: "endpointSchema sample_endpoint = Some sample_endpoint"
  by code_simp

lemma sample_event_valid: "eventSchema sample_event = Some sample_event"
  by code_simp

lemma sample_created:
  "webhook_repository_step no_urls (io_fine, WhCreateEndpoint sample_endpoint) None =
     (Some (sample_outbox\<lparr>ws_deliveries := []\<rparr>), Inr (OutEndpoint sample_endpoint))"
  by code_simp

lemma sample_enqueued:
  "fst (webhook_repository_step no_urls (io_fine, WhEnqueue sample_event sample_enqueue)
     (Some (sample_outbox\<lparr>ws_deliveries := []\<rparr>))) = Some sample_outbox"
  by code_simp

lemma sample_history_legal: "legal_history (webhook_repository_step no_urls) wh_legal sample_history None"
  using sample_endpoint_valid sample_event_valid
  by (simp add: sample_history_def sample_created wh_legal_def wh_legal_op_def wh_value_def
      createOutboundWebhookStore_def endpoint_ids_def fresh_ids_def sample_outbox_def)

lemma sample_history_result: "history (webhook_repository_step no_urls) sample_history None = Some sample_outbox"
  by (simp add: sample_history_def sample_created sample_enqueued)

lemma empty_file_wf: "wh_file_wf None"
  by (simp add: wh_file_wf_def wh_value_def createOutboundWebhookStore_def wh_wf_def endpoints_fine_def
      deliveries_fine_def runtimes_fine_def wh_workers_fine_def)

lemma sample_outbox_wf: "wh_wf sample_outbox"
  using webhook_system.history_wf [OF empty_file_wf sample_history_legal]
  by (simp add: sample_history_result wh_file_wf_def wh_value_def)

subsection \<open>The document\<close>

text \<open>C3: The webhook document is always consistent: after any history of repository
  operations whose callers respect their contract, whatever the input/output faults, it
  parses to itself, endpoint names are distinct up to case, an event has at most one
  delivery per endpoint, a delivery is leased exactly while it is being delivered, and
  the endpoint of every delivery that has not ended exists.\<close>

theorem webhook_document_history:
  assumes "legal_history (webhook_repository_step parse) wh_legal ops None"
    and "s = wh_value (history (webhook_repository_step parse) ops None)"
  shows "parseWebhookStore s = Inr s \<and> distinct (map (\<lambda>e. toLowerCase (ep_name e)) (ws_endpoints s)) \<and>
    distinct (map key_of (ws_deliveries s)) \<and>
    (\<forall>d \<in> set (ws_deliveries s).
       (dv_status d = DeliveryDelivering \<longleftrightarrow> dv_leaseToken d \<noteq> None) \<and>
       (terminal_status (dv_status d) \<or> (\<exists>e \<in> set (ws_endpoints s). ep_id e = dv_endpointId d)))"
proof -
  have wf: "wh_wf s"
    using webhook_system.history_wf [OF empty_file_wf assms(1)] assms(2) by (simp add: wh_file_wf_def)
  have "dv_status d = DeliveryDelivering \<longleftrightarrow> dv_leaseToken d \<noteq> None"
    "terminal_status (dv_status d) \<or> (\<exists>e \<in> set (ws_endpoints s). ep_id e = dv_endpointId d)"
    if "d \<in> set (ws_deliveries s)" for d
    using wf_delivery [OF wf that] by (auto simp: delivery_fine_def delivery_state_ok_def endpoint_ids_def)
  then show ?thesis
    using wh_wf_parts(1,2) [OF wf] parse_wf_webhooks [OF wf]
    by (simp add: endpoints_fine_def deliveries_fine_def endpoint_key_def [abs_def])
qed

lemma webhook_document_history_witness:
  "parseWebhookStore sample_outbox = Inr sample_outbox"
  using webhook_document_history [OF sample_history_legal refl] by (simp add: sample_history_result wh_value_def)

subsection \<open>Leases and claims\<close>

text \<open>C5: A leased delivery is handed to nobody else: until its lease expires, whatever other
  workers claim and complete, the lease stays and no claim hands the delivery out again.\<close>

theorem webhook_lease_exclusive:
  assumes "outbox_ok s" "webhook_lease s i = Some (t, e)"
    and "list_all (webhook_queue.others_before e i t) es"
  shows "webhook_lease (webhook_queue.run es s) i = Some (t, e) \<and> i \<notin> webhook_queue.handed es s"
  by (rule webhook_queue.lease_exclusive [OF assms])

definition sample_claim_options :: claim_deliveries_options where
  "sample_claim_options =
     \<lparr>cd_dl_limit = 5, cd_dl_now = 2000, cd_dl_leaseMs = 90000, cd_dl_deliveryIds = None,
      cd_dl_excludeDeliveryIds = [], cd_dl_bypassCircuitBreaker = False, cd_dl_tokens = (\<lambda>n. ''token'')\<rparr>"

definition sample_leased :: wh_delivery where
  "sample_leased = leased_delivery 2000 90000 ''token'' sample_delivery"

lemma sample_delivery_claim:
  "claimOutboundWebhookDeliveries sample_claim_options sample_outbox =
     Inr (sample_outbox\<lparr>ws_deliveries := [sample_leased]\<rparr>,
          [\<lparr>cw_delivery = sample_leased, cw_endpoint = Some sample_endpoint\<rparr>])"
  by code_simp

lemma sample_leased_outbox:
  "wh_wf (sample_outbox\<lparr>ws_deliveries := [sample_leased]\<rparr>)"
  by (rule claim_wf [OF sample_outbox_wf sample_delivery_claim])

lemma sample_webhook_lease:
  "webhook_lease (sample_outbox\<lparr>ws_deliveries := [sample_leased]\<rparr>) ''delivery'' = Some (''token'', 92000)"
  by code_simp

lemma webhook_lease_exclusive_witness:
  "''delivery'' \<notin> webhook_queue.handed [QueueClaim (sample_claim_options\<lparr>cd_dl_now := 91999\<rparr>)]
     (sample_outbox\<lparr>ws_deliveries := [sample_leased]\<rparr>)"
  using webhook_lease_exclusive [OF wf_outbox [OF sample_leased_outbox] sample_webhook_lease,
      of "[QueueClaim (sample_claim_options\<lparr>cd_dl_now := 91999\<rparr>)]"]
  by (simp add: sample_claim_options_def)

lemma unclaimed_kept:
  assumes "d \<in> set ds" "dv_id d \<notin> dv_id ` set leased"
  shows "d \<in> set (apply_replacements (map (\<lambda>d. (dv_id d, d)) leased) ds)"
proof -
  have "map_of (map (\<lambda>d. (dv_id d, d)) leased) (dv_id d) = None"
    using assms(2) by (auto simp: map_of_eq_None_iff)
  then show ?thesis using assms(1) by (force simp: apply_replacements_def image_iff)
qed

lemma claim_takes_all:
  assumes "length (claimable_deliveries options s) < cd_dl_limit options"
    and "d \<in> set (ws_deliveries s)" "claimable_delivery options s d"
  shows "d \<in> set (claimable_deliveries options s)"
proof -
  let ?all = "sort_key dv_nextAttemptAt (filter (claimable_delivery options s) (ws_deliveries s))"
  have "claimable_deliveries options s = ?all"
    using assms(1) by (simp add: claimable_deliveries_def min_def split: if_splits)
  moreover have "d \<in> set ?all" using assms(2,3) by simp
  ultimately show ?thesis by (simp only:)
qed

text \<open>A claim hands out only what may be delivered now: at most \<open>limit\<close> distinct
  deliveries, each of them due (or with an expired lease), selected, not excluded, and of
  an endpoint whose circuit does not block it unless the claim bypasses circuits; each
  comes back with one more attempt and a lease until \<open>now + leaseMs\<close>; every other delivery
  stays as it was, and when fewer than \<open>limit\<close> are handed out none that may be was left.\<close>

theorem claim_hands_out_due:
  assumes "wh_wf s" "claimOutboundWebhookDeliveries options s = Inr (s', cls)"
  shows "length cls \<le> cd_dl_limit options \<and> distinct (map (dv_id \<circ> cw_delivery) cls) \<and>
    (\<forall>c \<in> set cls. \<exists>d \<in> set (ws_deliveries s). \<exists>t.
       cw_delivery c = leased_delivery (cd_dl_now options) (cd_dl_leaseMs options) t d \<and>
       delivery_due (cd_dl_now options) d \<and> opt_selected (cd_dl_deliveryIds options) (dv_id d) \<and>
       dv_id d \<notin> set (cd_dl_excludeDeliveryIds options) \<and>
       (cd_dl_bypassCircuitBreaker options \<or> \<not> circuit_blocks s (cd_dl_now options) (dv_endpointId d))) \<and>
    (\<forall>d \<in> set (ws_deliveries s). dv_id d \<notin> (dv_id \<circ> cw_delivery) ` set cls \<longrightarrow>
       d \<in> set (ws_deliveries s') \<and>
       (length cls < cd_dl_limit options \<longrightarrow> \<not> claimable_delivery options s d))"
proof (rule claim_result_deliveries [OF wh_wf_parts(2) [OF assms(1)] assms(2)])
  fix leased
  let ?c = "claimable_deliveries options s"
  assume len: "length leased = length ?c"
    and each: "\<And>n. n < length leased \<Longrightarrow> leased ! n =
       leased_delivery (cd_dl_now options) (cd_dl_leaseMs options) (cd_dl_tokens options n) (?c ! n) \<and>
       becomes (endpoint_ids s) (?c ! n) (leased ! n)"
    and s': "s' = s\<lparr>ws_deliveries := apply_replacements (map (\<lambda>d. (dv_id d, d)) leased) (ws_deliveries s)\<rparr>"
    and cls: "cls = map (\<lambda>d. \<lparr>cw_delivery = d, cw_endpoint = endpoint_by_id s (dv_endpointId d)\<rparr>) leased"
    and ids: "map dv_id leased = map dv_id ?c" and dist: "distinct (map dv_id leased)"
  have n: "length cls \<le> cd_dl_limit options" by (simp add: cls len claimable_deliveries_def)
  have d: "map (dv_id \<circ> cw_delivery) cls = map dv_id leased" by (simp add: cls)
  have due: "\<exists>d \<in> set (ws_deliveries s). \<exists>t.
       cw_delivery c = leased_delivery (cd_dl_now options) (cd_dl_leaseMs options) t d \<and> claimable_delivery options s d"
    if c: "c \<in> set cls" for c
  proof -
    obtain k where "k < length leased" "cw_delivery c = leased ! k"
      using c by (auto simp: cls in_set_conv_nth)
    moreover have "?c ! k \<in> set ?c" using \<open>k < length leased\<close> len by simp
    ultimately show ?thesis using each [of k] claimable_member by metis
  qed
  have all: "\<not> claimable_delivery options s d"
    if "length cls < cd_dl_limit options" "d \<in> set (ws_deliveries s)" "dv_id d \<notin> dv_id ` set leased" for d
  proof
    assume "claimable_delivery options s d"
    then have "dv_id d \<in> set (map dv_id ?c)"
      using claim_takes_all [of options s d] that(1,2) by (simp add: cls len)
    then show False using that(3) ids by (metis list.set_map)
  qed
  have sel: "(dv_id \<circ> cw_delivery) ` set cls = dv_id ` set leased" using arg_cong [OF d, of set] by simp
  have kept: "d \<in> set (ws_deliveries s')"
    if "d \<in> set (ws_deliveries s)" "dv_id d \<notin> dv_id ` set leased" for d
    using unclaimed_kept [OF that] by (simp add: s')
  show ?thesis
    using n dist due kept all unfolding d sel claimable_delivery_def by blast
qed

lemma claim_hands_out_due_witness:
  "\<exists>d \<in> set (ws_deliveries sample_outbox). delivery_due 2000 d"
  using claim_hands_out_due [OF sample_outbox_wf sample_delivery_claim] by (auto simp: sample_claim_options_def)

subsection \<open>The circuit breaker\<close>

definition attempt_runtime :: "wh_endpoint \<Rightarrow> (bool \<times> instant) list \<Rightarrow> wh_runtime" where
  "attempt_runtime e attempts =
     fold (\<lambda>(success, now) r. next_runtime r e success now) attempts (initial_runtime (ep_id e))"

text \<open>The number of failures since the last success.\<close>

definition recent_failures :: "(bool \<times> instant) list \<Rightarrow> nat" where
  "recent_failures attempts = length (takeWhile (\<lambda>a. \<not> fst a) (rev attempts))"


lemma recent_failures_snoc [simp]:
  "recent_failures (as @ [(success, now)]) = (if success then 0 else Suc (recent_failures as))"
  by (simp add: recent_failures_def)




subsection \<open>Completions\<close>

lemma webhook_delay_bounds:
  assumes "1000 \<le> base"
  shows "1000 \<le> outboundWebhookRetryDelayMs n base" "outboundWebhookRetryDelayMs n base \<le> 3600000"
    "outboundWebhookRetryDelayMs n base \<le> outboundWebhookRetryDelayMs (n + 1) base"
proof -
  have p: "base \<le> base * 2 ^ k" for k
    using mult_left_mono [of 1 "2 ^ k" base] assms by simp
  have "1000 \<le> base * 2 ^ nat (max 0 (n - 1))" by (rule order_trans [OF assms p])
  then show "1000 \<le> outboundWebhookRetryDelayMs n base"
    by (simp add: outboundWebhookRetryDelayMs_def MAX_OUTBOUND_WEBHOOK_RETRY_DELAY_MS_def)
  show "outboundWebhookRetryDelayMs n base \<le> 3600000"
    by (simp add: outboundWebhookRetryDelayMs_def MAX_OUTBOUND_WEBHOOK_RETRY_DELAY_MS_def)
  have "(2 :: int) ^ nat (max 0 (n - 1)) \<le> 2 ^ nat (max 0 (n + 1 - 1))" by (intro power_increasing) auto
  then have "base * 2 ^ nat (max 0 (n - 1)) \<le> base * 2 ^ nat (max 0 (n + 1 - 1))"
    using assms by (intro mult_left_mono) simp_all
  then show "outboundWebhookRetryDelayMs n base \<le> outboundWebhookRetryDelayMs (n + 1) base"
    unfolding outboundWebhookRetryDelayMs_def by linarith
qed

text \<open>A failed attempt is retried on schedule or ends the delivery: completing it as failed
  exhausts the delivery exactly when the failure is not retryable or the endpoint's
  attempts are used up; otherwise the next attempt is due after a delay between one
  second and one hour, which never shrinks from one attempt to the next.  Either way the
  lease is gone.\<close>

theorem webhook_retry_schedule:
  assumes "wh_wf s" "1000 \<le> base" "\<not> cr_success result"
    and "completeOutboundWebhookDelivery claimed result (Some e) now base s = Inr (s', d)"
  shows "dv_status d = (if cr_retryable result \<and> dv_attemptCount d < ep_maxAttempts e
                        then DeliveryRetry else DeliveryExhausted) \<and>
    (dv_status d = DeliveryRetry \<longrightarrow>
       now + 1000 \<le> dv_nextAttemptAt d \<and> dv_nextAttemptAt d \<le> now + 3600000) \<and>
    outboundWebhookRetryDelayMs (dv_attemptCount d) base
      \<le> outboundWebhookRetryDelayMs (dv_attemptCount d + 1) base \<and>
    dv_leaseToken d = None \<and> d \<in> set (ws_deliveries s')"
proof (rule complete_delivery_result [OF assms(4)])
  fix n rs
  let ?l = "ws_deliveries s ! n"
  assume n: "n < length (ws_deliveries s)" "dv_status ?l = DeliveryDelivering"
    and p: "deliverySchema (completed_delivery result (Some e) now base ?l) = Some d"
    and s': "s' = s\<lparr>ws_deliveries := (ws_deliveries s)[n := d], ws_endpointRuntime := rs\<rparr>"
  have "delivery_fine (endpoint_ids s) ?l" using wf_delivery [OF assms(1)] n(1) by simp
  then have d: "d = completed_delivery result (Some e) now base ?l" using completed_becomes n(2) p by blast
  have at: "dv_attemptCount d = dv_attemptCount ?l" by (simp add: d completed_delivery_def Let_def)
  have st: "dv_status d = completion_status result (Some e) ?l" by (simp add: d completed_delivery_def Let_def)
  have next': "dv_status d = DeliveryRetry \<Longrightarrow>
      dv_nextAttemptAt d = now + outboundWebhookRetryDelayMs (dv_attemptCount d) base"
    using st at by (simp add: d completed_delivery_def Let_def)
  have "dv_leaseToken d = None" by (simp add: d completed_delivery_def Let_def)
  moreover have "d \<in> set (ws_deliveries s')" using n(1) by (simp add: s' set_update_memI)
  moreover have "dv_status d = (if cr_retryable result \<and> dv_attemptCount d < ep_maxAttempts e
      then DeliveryRetry else DeliveryExhausted)"
    using assms(3) by (simp add: st at completion_status_def)
  ultimately show ?thesis using next' webhook_delay_bounds [OF assms(2)] by simp
qed

definition sample_failure :: complete_result where
  "sample_failure = \<lparr>cr_success = False, cr_retryable = True, cr_statusCode = Some 503,
     cr_error = Some ''Endpoint returned HTTP 503''\<rparr>"

definition sample_retried :: wh_delivery where
  "sample_retried = completed_delivery sample_failure (Some sample_endpoint) 3000 30000 sample_leased"

lemma webhook_retry_schedule_witness:
  "dv_status sample_retried = DeliveryRetry \<and> dv_nextAttemptAt sample_retried \<le> 3603000"
proof -
  obtain s' where "completeOutboundWebhookDelivery sample_leased sample_failure (Some sample_endpoint) 3000 30000
      (sample_outbox\<lparr>ws_deliveries := [sample_leased]\<rparr>) = Inr (s', sample_retried)"
  proof -
    have "completeOutboundWebhookDelivery sample_leased sample_failure (Some sample_endpoint) 3000 30000
        (sample_outbox\<lparr>ws_deliveries := [sample_leased]\<rparr>) =
      Inr (sample_outbox\<lparr>ws_deliveries := [sample_retried],
             ws_endpointRuntime := [attempt_runtime sample_endpoint [(False, 3000)]]\<rparr>, sample_retried)"
      by code_simp
    then show thesis using that by blast
  qed
  from webhook_retry_schedule [OF sample_leased_outbox _ _ this]
  have "dv_status sample_retried = DeliveryRetry \<longrightarrow> dv_nextAttemptAt sample_retried \<le> 3603000"
    by (simp add: sample_failure_def)
  moreover have "dv_status sample_retried = DeliveryRetry" by code_simp
  ultimately show ?thesis by simp
qed

text \<open>A status outside 100 to 599 poisons a delivery: the transport reports such a status
  (zero when there is none, up to 999 from the wire), the delivery schema admits only 100
  to 599, so completing the attempt fails whatever else it says; the file keeps the
  delivery leased, to be attempted again after every lease.\<close>

theorem odd_status_never_completes:
  assumes "d \<in> set (ws_deliveries s)" "dv_id d = dv_id claimed" "distinct (map dv_id (ws_deliveries s))"
    and "dv_status d = DeliveryDelivering" "dv_leaseToken d = dv_leaseToken claimed"
    and "cr_statusCode result = Some c" "c < 100 \<or> 599 < c"
  shows "completeOutboundWebhookDelivery claimed result endpoint now base s = Inl WhSchemaError"
proof -
  obtain n where n: "n < length (ws_deliveries s)" "ws_deliveries s ! n = d"
    using assms(1) by (auto simp: in_set_conv_nth)
  then have "findIndex (\<lambda>x. dv_id x = dv_id claimed) (ws_deliveries s) = Some n"
    using findIndex_key [OF assms(3) n(1)] assms(2) by simp
  moreover have "deliverySchema (completed_delivery result endpoint now base d) = None"
    using assms(6,7) by (auto simp: deliverySchema_def completed_delivery_def Let_def split: option.split)
  ultimately show ?thesis
    using n assms(4,5) by (simp add: completeOutboundWebhookDelivery_def parsed_def)
qed

lemma odd_status_never_completes_witness:
  "completeOutboundWebhookDelivery sample_leased (sample_failure\<lparr>cr_statusCode := Some 999\<rparr>)
     (Some sample_endpoint) 3000 30000 (sample_outbox\<lparr>ws_deliveries := [sample_leased]\<rparr>) = Inl WhSchemaError"
proof (rule odd_status_never_completes)
  show "sample_leased \<in> set (ws_deliveries (sample_outbox\<lparr>ws_deliveries := [sample_leased]\<rparr>))"
    "distinct (map dv_id (ws_deliveries (sample_outbox\<lparr>ws_deliveries := [sample_leased]\<rparr>)))"
    "cr_statusCode (sample_failure\<lparr>cr_statusCode := Some 999\<rparr>) = Some 999" by simp_all
  show "dv_status sample_leased = DeliveryDelivering" by (simp add: sample_leased_def leased_delivery_def)
qed simp_all

subsection \<open>Capacity and deduplication\<close>

lemma prune_order:
  assumes "pruneDeliveries ds limit = Inr ds'" "distinct (map dv_id ds)"
  shows "length ds' \<le> limit" "set ds' \<subseteq> set ds"
    "d \<in> set ds \<Longrightarrow> d \<notin> set ds' \<Longrightarrow> terminal_status (dv_status d)"
    "d \<in> set ds \<Longrightarrow> d \<notin> set ds' \<Longrightarrow> k \<in> set ds' \<Longrightarrow> terminal_status (dv_status k) \<Longrightarrow>
       completion_key d \<le> completion_key k"
proof -
  let ?t = "sort_key completion_key (filter (\<lambda>d. terminal_status (dv_status d)) ds)"
  let ?n = "length ds - limit"
  have "length ds \<le> limit \<and> ds' = ds \<or>
      \<not> length ds \<le> limit \<and> ds' = filter (\<lambda>d. dv_id d \<notin> set (map dv_id (take ?n ?t))) ds \<and> length ds' \<le> limit"
    using assms(1) by (auto simp: pruneDeliveries_def Let_def split: if_splits)
  then consider "length ds \<le> limit" "ds' = ds"
    | "ds' = filter (\<lambda>d. dv_id d \<notin> set (map dv_id (take ?n ?t))) ds" "length ds' \<le> limit" by blast
  note cases = this
  show "length ds' \<le> limit" using cases by cases (simp, assumption)
  show "set ds' \<subseteq> set ds" using cases by cases (simp, metis filter_is_subset)
  have removed: "d \<in> set (take ?n ?t)" if d: "d \<in> set ds" "d \<notin> set ds'"
    and f: "ds' = filter (\<lambda>d. dv_id d \<notin> set (map dv_id (take ?n ?t))) ds" for d
  proof -
    obtain x where x: "x \<in> set (take ?n ?t)" "dv_id x = dv_id d" using d f by auto
    then have "x \<in> set ds" using in_set_takeD [OF x(1)] by simp
    then show ?thesis using distinct_key_inj [OF assms(2) _ d(1)] x by metis
  qed
  show "terminal_status (dv_status d)" if d: "d \<in> set ds" "d \<notin> set ds'" for d
    using cases
  proof cases
    case 2
    from in_set_takeD [OF removed [OF d 2(1)]] show ?thesis by simp
  qed (use d in simp)
  show "completion_key d \<le> completion_key k"
    if d: "d \<in> set ds" "d \<notin> set ds'" and k: "k \<in> set ds'" "terminal_status (dv_status k)"
    using cases
  proof cases
    case 2
    have "k \<in> set ?t" "k \<notin> set (take ?n ?t)" using k 2(1) by auto
    then have "k \<in> set (drop ?n ?t)" by (metis Un_iff append_take_drop_id set_append)
    moreover have "sorted (map completion_key (take ?n ?t @ drop ?n ?t))" by simp
    ultimately show ?thesis
      using removed [OF d 2(1)] unfolding map_append sorted_append by auto
  qed (use d in simp)
qed

lemma unqueued_endpoint:
  assumes "queue_endpoints ev existing fresh now n es = Inr (queued, dup)" "eventSchema ev = Some ev"
    "e \<in> set es" "delivery_key (ev_id ev) (ep_id e) \<notin> set existing"
  shows "\<exists>d \<in> set queued. dv_eventId d = ev_id ev \<and> dv_endpointId d = ep_id e \<and> dv_status d = DeliveryPending"
  using assms
proof (induction es arbitrary: n queued dup)
  case (Cons f es)
  show ?case
  proof (cases "delivery_key (ev_id ev) (ep_id f) \<in> set existing")
    case True
    then obtain dup' where "queue_endpoints ev existing fresh now n es = Inr (queued, dup')"
      using Cons.prems(1) by (auto split: sum.splits simp: map_sum_def apsnd_def map_prod_def)
    then show ?thesis using Cons True by auto
  next
    case False
    then obtain d qs where d: "deliverySchema (new_delivery ev f (fresh n) now) = Some d"
        "queue_endpoints ev existing fresh now (Suc n) es = Inr (qs, dup)" "queued = d # qs"
      using Cons.prems(1) by (auto split: sum.splits simp: map_sum_def apfst_def map_prod_def)
    have "d = new_delivery ev f (fresh n) now"
      using queued_delivery [OF Cons.prems(2) d(1), of "{ep_id f}"] by simp
    then show ?thesis
      using Cons.IH [OF d(2) Cons.prems(2)] Cons.prems(3,4) d(3) by (auto simp: new_delivery_def)
  qed
qed simp

text \<open>C25: Enqueueing an event respects the capacity and loses nothing that is still to be
  delivered: the outbox ends with at most \<open>limit\<close> deliveries; only ended deliveries are
  dropped, the earliest ended first; every matching enabled endpoint without a delivery
  of the event gets one, pending; the counts add up to the matching endpoints.\<close>

theorem enqueue_respects_capacity:
  assumes "wh_wf s" "eventSchema ev = Some ev" "fresh_ids options s"
    and "enqueueOutboundWebhookEvent ev options s = Inr (s', r)"
  shows "length (ws_deliveries s') \<le> eq_limit options \<and>
    (\<forall>d \<in> set (ws_deliveries s). d \<notin> set (ws_deliveries s') \<longrightarrow> terminal_status (dv_status d) \<and>
       (\<forall>k \<in> set (ws_deliveries s'). terminal_status (dv_status k) \<longrightarrow> completion_key d \<le> completion_key k)) \<and>
    (\<forall>e \<in> set (matched_endpoints ev options s).
       delivery_key (ev_id ev) (ep_id e) \<notin> key_of ` set (ws_deliveries s) \<longrightarrow>
       (\<exists>d \<in> set (ws_deliveries s'). dv_eventId d = ev_id ev \<and> dv_endpointId d = ep_id e \<and>
          dv_status d = DeliveryPending)) \<and>
    er_queuedDeliveries r + er_duplicateDeliveries r = er_matchedEndpoints r"
proof (rule enqueue_queued [OF assms(4)])
  fix queued dup ds
  assume q: "queue_endpoints ev (map key_of (ws_deliveries s)) (eq_fresh options) (eq_now options) 0
       (matched_endpoints ev options s) = Inr (queued, dup)"
    and pr: "pruneDeliveries (ws_deliveries s @ queued) (eq_limit options) = Inr ds"
    and s': "s' = s\<lparr>ws_deliveries := ds\<rparr>"
    and r: "r = \<lparr>er_event = ev, er_matchedEndpoints = length (matched_endpoints ev options s),
          er_queuedDeliveries = length queued, er_duplicateDeliveries = dup, er_deliveryIds = map dv_id queued\<rparr>"
  have dist: "distinct (map dv_id (ws_deliveries s @ queued))"
    using enqueued_fine [OF assms(1-3) q] by (simp add: deliveries_fine_def)
  note p = prune_order [OF pr dist]
  have "\<exists>d \<in> set ds. dv_eventId d = ev_id ev \<and> dv_endpointId d = ep_id e \<and> dv_status d = DeliveryPending"
    if e: "e \<in> set (matched_endpoints ev options s)"
      "delivery_key (ev_id ev) (ep_id e) \<notin> key_of ` set (ws_deliveries s)" for e
  proof -
    have "delivery_key (ev_id ev) (ep_id e) \<notin> set (map key_of (ws_deliveries s))" using e(2) by simp
    then obtain d where d: "d \<in> set queued" "dv_eventId d = ev_id ev" "dv_endpointId d = ep_id e"
        "dv_status d = DeliveryPending"
      using unqueued_endpoint [OF q assms(2) e(1)] by blast
    then have "d \<in> set ds" using p(3) [of d] by (auto simp: terminal_status_def)
    then show ?thesis using d by blast
  qed
  moreover have "length queued + dup = length (matched_endpoints ev options s)"
    using queue_endpoints_result [OF q assms(2), of "ep_id ` set (matched_endpoints ev options s)"] by simp
  moreover have "terminal_status (dv_status d) \<and> (\<forall>k \<in> set ds. terminal_status (dv_status k) \<longrightarrow>
      completion_key d \<le> completion_key k)" if "d \<in> set (ws_deliveries s)" "d \<notin> set ds" for d
    using p(3,4) that by simp
  ultimately show ?thesis using p(1) by (simp add: s' r)
qed

lemma enqueue_respects_capacity_witness:
  "\<exists>d \<in> set (ws_deliveries sample_outbox). dv_endpointId d = ''ep'' \<and> dv_status d = DeliveryPending"
proof -
  let ?s = "sample_outbox\<lparr>ws_deliveries := []\<rparr>"
  have wf: "wh_wf ?s"
    using wh_wf_parts [OF sample_outbox_wf] by (simp add: wh_wf_def deliveries_fine_def)
  have fr: "fresh_ids sample_enqueue ?s" by (simp add: fresh_ids_def sample_outbox_def)
  have "enqueueOutboundWebhookEvent sample_event sample_enqueue ?s =
      Inr (sample_outbox, \<lparr>er_event = sample_event, er_matchedEndpoints = 1, er_queuedDeliveries = 1,
            er_duplicateDeliveries = 0, er_deliveryIds = [''delivery'']\<rparr>)"
    by code_simp
  from enqueue_respects_capacity [OF wf sample_event_valid fr this]
  have "\<forall>e \<in> set (matched_endpoints sample_event sample_enqueue ?s).
      \<exists>d \<in> set (ws_deliveries sample_outbox). dv_endpointId d = ep_id e \<and> dv_status d = DeliveryPending"
    by auto
  moreover have "sample_endpoint \<in> set (matched_endpoints sample_event sample_enqueue ?s)" by code_simp
  ultimately have "\<exists>d \<in> set (ws_deliveries sample_outbox). dv_endpointId d = ep_id sample_endpoint \<and>
      dv_status d = DeliveryPending" by (rule bspec)
  moreover have "ep_id sample_endpoint = ''ep''" by (simp add: sample_endpoint_def)
  ultimately show ?thesis by metis
qed

subsection \<open>Replays\<close>

lemma find_requeued:
  assumes "list_parse (\<lambda>d. parsed deliverySchema (requeued_delivery now d)) cs = Inr rs"
    "c \<in> set cs"
  shows "\<exists>r. map_of (put_all dv_id rs) (dv_id c) = Some r \<and> r \<in> set rs"
proof -
  have "map dv_id rs = map dv_id cs"
    by (rule list_parse_map [OF assms(1)]) (simp add: delivery_schema_fields requeued_delivery_def)
  then have "dv_id c \<in> dv_id ` set rs" using assms(2) by (metis imageI list.set_map)
  then have "map_of (put_all dv_id rs) (dv_id c) \<noteq> None" using put_all_None [of dv_id rs "dv_id c"] by blast
  then obtain r where r: "map_of (put_all dv_id rs) (dv_id c) = Some r" by blast
  then show ?thesis using put_all_Some [OF r] by blast
qed

lemma replaced_delivery:
  assumes "d \<in> set (apply_replacements (put_all dv_id rs) ds)"
  shows "d \<in> set rs \<or> (d \<in> set ds \<and> map_of (put_all dv_id rs) (dv_id d) = None)"
proof -
  obtain x where x: "x \<in> set ds" "d = (case map_of (put_all dv_id rs) (dv_id x) of Some r \<Rightarrow> r | None \<Rightarrow> x)"
    using assms by (auto simp: apply_replacements_def)
  show ?thesis
  proof (cases "map_of (put_all dv_id rs) (dv_id x)")
    case None
    then show ?thesis using x by simp
  next
    case (Some r)
    then have "d = r" using x(2) by (simp only: option.simps)
    then show ?thesis using put_all_Some [OF Some] by blast
  qed
qed

lemma replay_replaces:
  assumes "replayOutboundWebhookDeadLetters options s = Inr (s', r)" "\<not> rp_dryRun options"
  obtains rs where
    "list_parse (\<lambda>d. parsed deliverySchema (requeued_delivery (rp_now options) d))
       (filter (\<lambda>d. endpoint_enabled s (dv_endpointId d)) (replay_candidates options s)) = Inr rs"
    "ws_deliveries s' = apply_replacements (put_all dv_id rs) (ws_deliveries s)"
    "ws_endpoints s' = ws_endpoints s"
proof -
  let ?g = "\<lambda>d. parsed deliverySchema (requeued_delivery (rp_now options) d)"
  let ?open = "filter (\<lambda>d. endpoint_enabled s (dv_endpointId d)) (replay_candidates options s)"
  obtain rs where rs: "list_parse ?g ?open = Inr rs"
    using assms by (cases "list_parse ?g ?open") (simp_all add: replayOutboundWebhookDeadLetters_def Let_def)
  have "s' = (if rs = [] then s
      else s\<lparr>ws_deliveries := apply_replacements (put_all dv_id rs) (ws_deliveries s)\<rparr>)"
    using assms rs by (cases "rs = []") (simp_all add: replayOutboundWebhookDeadLetters_def Let_def put_all_empty)
  then show thesis using that [OF rs] by (simp add: apply_replacements_def split: if_splits)
qed

lemma requeued_pending:
  assumes "list_parse (\<lambda>d. parsed deliverySchema (requeued_delivery now d)) cs = Inr rs" "r \<in> set rs"
  shows "dv_status r = DeliveryPending"
proof -
  obtain c where "deliverySchema (requeued_delivery now c) = Some r"
    using list_parse_members [OF assms] by auto
  from delivery_schema_fields(4) [OF this] show ?thesis by (simp add: requeued_delivery_def)
qed

text \<open>Replaying a reviewed set of dead letters is idempotent: after the set has been
  replayed, replaying it again changes nothing and replays nothing, so a retried request
  cannot send a delivery a second time.\<close>

theorem replay_idempotent:
  assumes "wh_wf s" "rp_deliveryIds options = Some ids" "\<not> rp_dryRun options" "\<not> rp_dryRun again"
    and "rp_deliveryIds again = Some ids" "rp_endpointId again = rp_endpointId options"
    and "replayOutboundWebhookDeadLetters options s = Inr (s', r)"
    and "replayOutboundWebhookDeadLetters again s' = Inr (s'', r')"
  shows "s'' = s' \<and> rr_replayed r' = 0"
proof (rule replay_replaces [OF assms(7,3)])
  let ?open = "filter (\<lambda>d. endpoint_enabled s (dv_endpointId d)) (replay_candidates options s)"
  fix rs
  assume rs: "list_parse (\<lambda>d. parsed deliverySchema (requeued_delivery (rp_now options) d)) ?open = Inr rs"
    and ds: "ws_deliveries s' = apply_replacements (put_all dv_id rs) (ws_deliveries s)"
    and eps: "ws_endpoints s' = ws_endpoints s"
  have none: "\<not> (dv_id d \<in> set ids \<and> dead_letter (rp_endpointId options) d \<and> endpoint_enabled s (dv_endpointId d))"
    if d: "d \<in> set (ws_deliveries s')" for d
  proof
    assume a: "dv_id d \<in> set ids \<and> dead_letter (rp_endpointId options) d \<and> endpoint_enabled s (dv_endpointId d)"
    then have "d \<notin> set rs" using requeued_pending [OF rs] by (auto simp: dead_letter_def)
    then have "d \<in> set (ws_deliveries s)" and unreplaced: "map_of (put_all dv_id rs) (dv_id d) = None"
      using replaced_delivery [OF d [unfolded ds]] by blast+
    then have "d \<in> set ?open" using a assms(2) by (simp add: replay_candidates_def)
    from find_requeued [OF rs this] show False using unreplaced by simp
  qed
  have "filter (\<lambda>d. endpoint_enabled s' (dv_endpointId d)) (replay_candidates again s') = []"
    using none assms(5,6) by (auto simp: replay_candidates_def filter_empty_conv endpoint_enabled_def eps)
  then show ?thesis
    using assms(4,8) by (auto simp: replayOutboundWebhookDeadLetters_def Let_def)
qed

definition sample_dead :: wh_store where
  "sample_dead = sample_outbox\<lparr>ws_deliveries :=
     [completed_delivery sample_failure (Some sample_endpoint) 3000 30000
        (sample_leased\<lparr>dv_attemptCount := 2\<rparr>)]\<rparr>"

definition sample_replay :: replay_options where
  "sample_replay = \<lparr>rp_endpointId = None, rp_deliveryIds = Some [''delivery''], rp_limit = 1,
     rp_dryRun = False, rp_now = 4000\<rparr>"

lemma sample_dead_wf: "wh_wf sample_dead"
proof -
  have "delivery_fine {''ep''} (completed_delivery sample_failure (Some sample_endpoint) 3000 30000
      (sample_leased\<lparr>dv_attemptCount := 2\<rparr>))"
    by code_simp
  then show ?thesis
    using wh_wf_parts [OF sample_outbox_wf]
    by (simp add: wh_wf_def sample_dead_def deliveries_fine_def endpoint_ids_def sample_outbox_def sample_endpoint_def)
qed

lemma replay_idempotent_witness:
  "\<exists>s' r. replayOutboundWebhookDeadLetters sample_replay sample_dead = Inr (s', r) \<and> rr_replayed r = 1 \<and>
     (\<forall>s'' r'. replayOutboundWebhookDeadLetters sample_replay s' = Inr (s'', r') \<longrightarrow> s'' = s')"
proof -
  let ?s = "sample_outbox\<lparr>ws_deliveries := [requeued_delivery 4000 sample_delivery]\<rparr>"
  let ?r = "\<lparr>rr_eligible = 1, rr_replayed = 1, rr_failed = 0, rr_dry = False,
    rr_deliveryIds = [''delivery''], rr_errors = []\<rparr>"
  have one: "replayOutboundWebhookDeadLetters sample_replay sample_dead = Inr (?s, ?r)" by code_simp
  have "s'' = ?s" if "replayOutboundWebhookDeadLetters sample_replay ?s = Inr (s'', r')" for s'' r'
    using replay_idempotent [OF sample_dead_wf _ _ _ _ _ one that] by (simp add: sample_replay_def)
  then show ?thesis using one by (intro exI [of _ ?s] exI [of _ ?r]) simp
qed

end
