(* ===== verification/Operation_Audit.thy ===== *)
theory Operation_Audit
  imports Webhook_System
begin

section \<open>The operation audit and its webhook events\<close>

text \<open>
  \<^verbatim>\<open>packages/common/src/operation-audit.ts\<close>: the bounded audit file, and the functions of
  \<^verbatim>\<open>packages/automation/src/outbound-webhooks.ts\<close> that project an audited execution into the
  webhook outbox.  A date text is its instant.  The random identifiers and the clock are
  arguments.
\<close>

datatype audit_surface = SurfaceCli | SurfaceMcp

datatype audit_event = AuditStarted | AuditBlocked | AuditSucceeded | AuditFailed

record audit_entry =
  au_executionId :: string
  au_at :: instant
  au_surface :: audit_surface
  au_operationId :: string
  au_event :: audit_event
  au_confirmationRequired :: bool
  au_confirmed :: bool
  au_dryRun :: bool

record audit_store =
  as_version :: int
  as_entries :: "audit_entry list"

record audit_input =
  ai_executionId :: "string option"
  ai_at :: "instant option"
  ai_surface :: audit_surface
  ai_operationId :: string
  ai_event :: audit_event
  ai_confirmationRequired :: bool
  ai_confirmed :: bool
  ai_dryRun :: bool

definition OPERATION_AUDIT_STORE_VERSION :: int where
  "OPERATION_AUDIT_STORE_VERSION = 1"

definition DEFAULT_OPERATION_AUDIT_LIMIT :: int where
  "DEFAULT_OPERATION_AUDIT_LIMIT = 500"

definition parseAuditEntry :: "audit_entry \<Rightarrow> string + audit_entry" where
  "parseAuditEntry e =
     (if trim (au_executionId e) = [] then Inl ''Invalid operation audit entry executionId''
      else if trim (au_operationId e) = [] then Inl ''Invalid operation audit entry operationId''
      else Inr e)"

definition parseOperationAuditStore :: "audit_store \<Rightarrow> string + audit_store" where
  "parseOperationAuditStore s =
     (if as_version s \<noteq> OPERATION_AUDIT_STORE_VERSION then Inl ''Invalid operation audit store''
      else map_sum id (\<lambda>es. \<lparr>as_version = OPERATION_AUDIT_STORE_VERSION, as_entries = es\<rparr>)
             (list_parse parseAuditEntry (as_entries s)))"

definition createOperationAuditStore :: "audit_store json_store" where
  "createOperationAuditStore =
     \<lparr>js_default = \<lparr>as_version = OPERATION_AUDIT_STORE_VERSION, as_entries = []\<rparr>,
      js_parse = parseOperationAuditStore\<rparr>"

datatype audit_failure = AuditLimitError string | AuditStore "unit store_failure"

definition resolveAuditLimit :: "js_number option \<Rightarrow> audit_failure + nat" where
  "resolveAuditLimit limit =
     (case opt_default limit (Num (of_int DEFAULT_OPERATION_AUDIT_LIMIT)) of
        Num q \<Rightarrow> (if \<not> isInteger (Num q) \<or> q \<le> 0
                  then Inl (AuditLimitError ''Operation audit limit must be a positive integer'')
                  else Inr (nat \<lfloor>q\<rfloor>))
      | _ \<Rightarrow> Inl (AuditLimitError ''Operation audit limit must be a positive integer''))"

definition listOperationAuditEntries :: "io_env \<Rightarrow> audit_store option \<Rightarrow> unit store_failure + audit_entry list" where
  "listOperationAuditEntries io file =
     map_sum id as_entries (readJsonFileStore createOperationAuditStore io file)"

definition audit_entry_of :: "audit_input \<Rightarrow> string \<Rightarrow> instant \<Rightarrow> audit_entry" where
  "audit_entry_of input freshId now =
     \<lparr>au_executionId = opt_default (ai_executionId input) freshId,
      au_at = opt_default (ai_at input) now,
      au_surface = ai_surface input, au_operationId = ai_operationId input, au_event = ai_event input,
      au_confirmationRequired = ai_confirmationRequired input, au_confirmed = ai_confirmed input,
      au_dryRun = ai_dryRun input\<rparr>"

text \<open>\<open>slice(-limit)\<close>: the last \<open>limit\<close> elements.\<close>

definition slice_last :: "nat \<Rightarrow> 'a list \<Rightarrow> 'a list" where
  "slice_last n xs = drop (length xs - n) xs"

definition recordOperationAudit ::
  "audit_input \<Rightarrow> js_number option \<Rightarrow> string \<Rightarrow> instant \<Rightarrow> io_env \<Rightarrow> audit_store option
     \<Rightarrow> audit_store option \<times> (audit_failure + audit_entry)" where
  "recordOperationAudit input limit freshId now io file =
     (let entry = audit_entry_of input freshId now
      in case resolveAuditLimit limit of
           Inl e \<Rightarrow> (file, Inl e)
         | Inr n \<Rightarrow>
             apsnd (map_sum AuditStore id)
               (updateJsonFileStore createOperationAuditStore io
                  (\<lambda>current. Inr (\<lparr>as_version = OPERATION_AUDIT_STORE_VERSION,
                                    as_entries = slice_last n (as_entries current @ [entry])\<rparr>, entry))
                  file))"

subsection \<open>Events of an execution\<close>

definition audit_event_text :: "audit_event \<Rightarrow> string" where
  "audit_event_text e =
     (case e of AuditStarted \<Rightarrow> ''started'' | AuditBlocked \<Rightarrow> ''blocked''
      | AuditSucceeded \<Rightarrow> ''succeeded'' | AuditFailed \<Rightarrow> ''failed'')"

definition audit_surface_text :: "audit_surface \<Rightarrow> string" where
  "audit_surface_text s = (case s of SurfaceCli \<Rightarrow> ''cli'' | SurfaceMcp \<Rightarrow> ''mcp'')"

definition lifecycle_event_input :: "audit_entry \<Rightarrow> wh_event_input" where
  "lifecycle_event_input a =
     \<lparr>ei_eventId = None, ei_type = ''operation.'' @ audit_event_text (au_event a),
      ei_occurredAt = Some (au_at a), ei_source = SourceOperation,
      ei_correlationId = Some (au_executionId a),
      ei_subject = Some \<lparr>su_kind = SubjectOperation, su_key = au_operationId a\<rparr>,
      ei_data = Some [(''surface'', JStr (audit_surface_text (au_surface a))),
                      (''confirmation_required'', JBool (au_confirmationRequired a)),
                      (''confirmed'', JBool (au_confirmed a)),
                      (''dry_run'', JBool (au_dryRun a))]\<rparr>"

text \<open>An event handed to \<open>enqueueOutboundWebhookEvent\<close> as its input.\<close>

definition event_as_input :: "wh_event \<Rightarrow> wh_event_input" where
  "event_as_input e =
     \<lparr>ei_eventId = Some (ev_id e), ei_type = ev_type e, ei_occurredAt = Some (ev_occurredAt e),
      ei_source = ev_source e, ei_correlationId = ev_correlationId e, ei_subject = ev_subject e,
      ei_data = Some (ev_data e)\<rparr>"

record lifecycle_env =
  le_readIo :: io_env
  le_writeIo :: io_env
  le_eventId :: uuid
  le_limit :: "js_number option"
  le_now :: instant
  le_deliveryIds :: "nat \<Rightarrow> uuid"

definition enqueue_input ::
  "wh_event_input \<Rightarrow> uuid list option \<Rightarrow> lifecycle_env \<Rightarrow> wh_store option
     \<Rightarrow> wh_store option \<times> (wh_error store_failure + enqueue_result)" where
  "enqueue_input input endpointIds env file =
     (case createOutboundWebhookEvent input (le_eventId env) (le_now env) of
        Inl e \<Rightarrow> (file, Inl (CallbackFailed e))
      | Inr event \<Rightarrow>
          (case resolveStoreLimit (le_limit env) of
             Inl e \<Rightarrow> (file, Inl (CallbackFailed e))
           | Inr limit \<Rightarrow>
               updateJsonFileStore createOutboundWebhookStore (le_writeIo env)
                 (enqueueOutboundWebhookEvent event
                    \<lparr>eq_endpointIds = endpointIds, eq_bypassEventFilters = False,
                     eq_limit = nat \<lfloor>limit\<rfloor>, eq_now = le_now env, eq_fresh = le_deliveryIds env\<rparr>) file))"

definition enqueueOperationLifecycleEvent ::
  "audit_entry \<Rightarrow> lifecycle_env \<Rightarrow> wh_store option
     \<Rightarrow> wh_store option \<times> (wh_error store_failure + enqueue_result)" where
  "enqueueOperationLifecycleEvent a env file =
     (case createOutboundWebhookEvent (lifecycle_event_input a) (le_eventId env) (le_now env) of
        Inl e \<Rightarrow> (file, Inl (CallbackFailed e))
      | Inr event \<Rightarrow>
          (case readJsonFileStore createOutboundWebhookStore (le_readIo env) file of
             Inl e \<Rightarrow> (file, Inl e)
           | Inr store \<Rightarrow>
               (let matched = filter (\<lambda>e. ep_enabled e \<and>
                                matchesOutboundWebhookEvent (ep_eventFilters e) (ev_type event))
                              (listOutboundWebhookEndpoints store)
                in if matched = []
                   then (file, Inr \<lparr>er_event = event, er_matchedEndpoints = 0, er_queuedDeliveries = 0,
                                    er_duplicateDeliveries = 0, er_deliveryIds = []\<rparr>)
                   else enqueue_input (event_as_input event) (Some (map ep_id matched)) env file)))"

text \<open>The audit entry is the result whatever happens to the event; its error is reported.\<close>

definition recordOperationAuditWithLifecycle ::
  "audit_input \<Rightarrow> js_number option \<Rightarrow> string \<Rightarrow> instant \<Rightarrow> io_env \<Rightarrow> lifecycle_env
     \<Rightarrow> audit_store option \<Rightarrow> wh_store option
     \<Rightarrow> audit_store option \<times> wh_store option \<times> wh_error store_failure option \<times> (audit_failure + audit_entry)" where
  "recordOperationAuditWithLifecycle input limit freshId now io env auditFile webhookFile =
     (case recordOperationAudit input limit freshId now io auditFile of
        (auditFile', Inl e) \<Rightarrow> (auditFile', webhookFile, None, Inl e)
      | (auditFile', Inr entry) \<Rightarrow>
          (case enqueueOperationLifecycleEvent entry env webhookFile of
             (webhookFile', Inl e) \<Rightarrow> (auditFile', webhookFile', Some e, Inr entry)
           | (webhookFile', Inr _) \<Rightarrow> (auditFile', webhookFile', None, Inr entry)))"

subsection \<open>The audit file\<close>

lemma slice_last_snoc: "0 < n \<Longrightarrow> slice_last n (xs @ [x]) = slice_last (n - 1) xs @ [x]"
  by (cases n) (auto simp: slice_last_def Suc_diff_le)

lemma length_slice_last [simp]: "length (slice_last n xs) = min n (length xs)"
  by (simp add: slice_last_def)

lemma set_slice_last: "set (slice_last n xs) \<subseteq> set xs"
  by (simp add: slice_last_def set_drop_subset)

lemma audit_entry_same: "parseAuditEntry e = Inr f \<Longrightarrow> f = e"
  by (simp add: parseAuditEntry_def split: if_splits)

lemma list_parse_audit: "list_parse parseAuditEntry es = Inr fs \<Longrightarrow> fs = es"
  by (induction es arbitrary: fs) (auto split: sum.splits dest: audit_entry_same)

lemma audit_parse_same: "parseOperationAuditStore s = Inr p \<Longrightarrow> p = s"
  by (auto simp: parseOperationAuditStore_def map_sum_def dest: list_parse_audit split: if_splits sum.splits)

end
