(* ===== verification/Delivery_Properties.thy ===== *)
theory Delivery_Properties
  imports Webhook_Properties Operation_Audit
begin

section \<open>Properties of webhook deliveries and events\<close>

text \<open>
  What leaves the program: requests go to public addresses only and carry a signature
  that verifies, the data of an event shows no secret, and a dispatch run accounts for
  every delivery it claims.
\<close>

subsection \<open>Requests\<close>

definition sample_url :: url_parts where
  "sample_url = \<lparr>url_protocol = ''https:'', url_hostname = ''hooks.example.com'', url_username = [],
     url_password = [], url_search = [], url_hash = [], url_href = ''https://hooks.example.com/in''\<rparr>"

text \<open>A host whose date text of an instant is its decimal text, and whose HMAC joins key and text.\<close>

definition sample_host :: webhook_host where
  "sample_host =
     \<lparr>ho_parse = (\<lambda>s. if s = ''https://hooks.example.com/in'' then Some sample_url else None),
      ho_isIP = (\<lambda>s. 0), ho_hmac = (\<lambda>k m. k @ ''|'' @ m), ho_iso = int_text,
      ho_dateParse = (\<lambda>s. case s of [] \<Rightarrow> None
        | c # cs \<Rightarrow> Some (if c = CHR ''-'' then - of_nat (nat_value cs) else of_nat (nat_value s)))\<rparr>"

definition sample_address :: resolved_address where
  "sample_address = \<lparr>ra_address = ''93.184.216.34'', ra_family = 4\<rparr>"

definition sample_env :: delivery_env where
  "sample_env =
     \<lparr>de_resolveSecret = (\<lambda>r. Some ''key''), de_dnsTimedOut = False,
      de_dnsLookup = (\<lambda>h. Inr [sample_address]), de_sentAt = 2500, de_fetcher = None,
      de_send = (\<lambda>rq. ReplyStatus True 204)\<rparr>"

definition sample_claimed :: claimed_delivery where
  "sample_claimed = \<lparr>cw_delivery = sample_leased, cw_endpoint = Some sample_endpoint\<rparr>"

lemma post_addresses_from:
  "rq \<in> set (fst (post_addresses send request h as)) \<Longrightarrow> \<exists>a \<in> set as. rq = request a"
proof (induction "as")
  case (Cons a as)
  then show ?case
    by (auto simp: apfst_def map_prod_def split: http_reply.splits if_splits prod.splits)
qed simp

lemma post_event_requests:
  assumes "rq \<in> set (fst (post_event host env event endpoint addresses timestamp body signature))"
  shows "rq_url rq = ep_url endpoint \<and> rq_headers rq = webhook_headers event timestamp signature \<and>
    rq_body rq = body \<and> (\<forall>a. rq_address rq = Some a \<longrightarrow> a \<in> set addresses)"
proof (cases "de_fetcher env")
  case None
  have "fst (post_event host env event endpoint addresses timestamp body signature) =
    fst (post_addresses (de_send env)
      (\<lambda>a. \<lparr>rq_url = ep_url endpoint, rq_address = Some a,
            rq_headers = webhook_headers event timestamp signature, rq_body = body\<rparr>)
      (case ho_parse host (ep_url endpoint) of None \<Rightarrow> [] | Some u \<Rightarrow> url_hostname u) addresses)"
    using None by (simp add: post_event_def postPinnedHttpsWebhookWithFallback_def Let_def)
  then obtain a where "a \<in> set addresses" "rq = \<lparr>rq_url = ep_url endpoint, rq_address = Some a,
            rq_headers = webhook_headers event timestamp signature, rq_body = body\<rparr>"
    using assms post_addresses_from by (metis (no_types, lifting))
  then show ?thesis by simp
next
  case (Some f)
  then show ?thesis using assms by (simp add: post_event_def Let_def)
qed

text \<open>What a request of a delivery tells about the delivery.\<close>

lemma delivery_requests:
  assumes "rq \<in> set (fst (deliverClaimedWebhook host env claimed))"
  obtains endpoint secret addresses signature where
    "cw_endpoint claimed = Some endpoint" "ep_enabled endpoint"
    "de_resolveSecret env (ep_secretRef endpoint) = Some secret" "trim secret \<noteq> []"
    "resolvePublicWebhookAddresses host (de_dnsLookup env) (ep_url endpoint) = Inr (AddressesSafe addresses)"
    "signOutboundWebhookPayload host secret (ho_iso host (de_sentAt env)) (rq_body rq) = Inr signature"
    "rq_headers rq = webhook_headers (dv_event (cw_delivery claimed)) (ho_iso host (de_sentAt env)) signature"
    "rq_url rq = ep_url endpoint" "\<And>a. rq_address rq = Some a \<Longrightarrow> a \<in> set addresses"
proof -
  let ?t = "ho_iso host (de_sentAt env)"
  let ?b = "JSON_stringify (event_json host (dv_event (cw_delivery claimed)))"
  obtain endpoint where e: "cw_endpoint claimed = Some endpoint"
    using assms by (cases "cw_endpoint claimed") (simp_all add: deliverClaimedWebhook_def)
  have en: "ep_enabled endpoint"
    using assms by (cases "ep_enabled endpoint") (simp_all add: deliverClaimedWebhook_def e)
  obtain secret where s: "de_resolveSecret env (ep_secretRef endpoint) = Some secret"
    using assms by (cases "de_resolveSecret env (ep_secretRef endpoint)") (simp_all add: deliverClaimedWebhook_def e en)
  have ne: "trim secret \<noteq> []"
    using assms by (cases "trim secret = []") (simp_all add: deliverClaimedWebhook_def e en s)
  have to: "\<not> de_dnsTimedOut env"
    using assms by (cases "de_dnsTimedOut env") (simp_all add: deliverClaimedWebhook_def e en s ne)
  obtain r where r: "resolvePublicWebhookAddresses host (de_dnsLookup env) (ep_url endpoint) = Inr r"
    using assms by (cases "resolvePublicWebhookAddresses host (de_dnsLookup env) (ep_url endpoint)")
      (simp_all add: deliverClaimedWebhook_def e en s ne to)
  obtain addresses where a: "r = AddressesSafe addresses"
    using assms by (cases r) (simp_all add: deliverClaimedWebhook_def e en s ne to r)
  obtain signature where g: "signOutboundWebhookPayload host secret ?t ?b = Inr signature"
    using assms by (cases "signOutboundWebhookPayload host secret ?t ?b")
      (simp_all add: deliverClaimedWebhook_def e en s ne to r a Let_def)
  have "rq \<in> set (fst (post_event host env (dv_event (cw_delivery claimed)) endpoint addresses ?t ?b signature))"
    using assms by (simp add: deliverClaimedWebhook_def e en s ne to r a g Let_def)
  from post_event_requests [OF this] show thesis
    using that [OF e en s ne r [unfolded a], of signature] g by auto
qed

lemma resolved_public:
  assumes "resolvePublicWebhookAddresses host lookup url = Inr (AddressesSafe addresses)" "a \<in> set addresses"
  shows "\<not> isPrivateHost (ra_address a)" "isSafeFetchUrl (ho_parse host) url = None"
proof -
  show safe: "isSafeFetchUrl (ho_parse host) url = None"
    using assms(1)
    by (auto simp: resolvePublicWebhookAddresses_def split: option.splits)
  obtain ys where "List.find (\<lambda>a. isPrivateHost (ra_address a)) ys = None" "addresses = ys"
    using assms(1) safe
    by (auto simp: resolvePublicWebhookAddresses_def Let_def split: option.splits sum.splits if_splits)
  then show "\<not> isPrivateHost (ra_address a)" using find_None_all assms(2) by metis
qed

text \<open>C7: A webhook is never posted to a private address: whatever DNS answers, every pinned
  request of a delivery goes to an address the network policy holds public, of an
  endpoint that exists, is enabled and has an admissible URL.\<close>

theorem requests_stay_public:
  assumes "rq \<in> set (fst (deliverClaimedWebhook host env claimed))" "rq_address rq = Some a"
  shows "\<not> isPrivateHost (ra_address a) \<and> isSafeFetchUrl (ho_parse host) (rq_url rq) = None \<and>
    (\<exists>e. cw_endpoint claimed = Some e \<and> ep_enabled e \<and> rq_url rq = ep_url e)"
proof (rule delivery_requests [OF assms(1)])
  fix endpoint secret addresses signature
  assume e: "cw_endpoint claimed = Some endpoint" "ep_enabled endpoint" "rq_url rq = ep_url endpoint"
    and r: "resolvePublicWebhookAddresses host (de_dnsLookup env) (ep_url endpoint) = Inr (AddressesSafe addresses)"
    and a: "\<And>a. rq_address rq = Some a \<Longrightarrow> a \<in> set addresses"
  show ?thesis using resolved_public [OF r a [OF assms(2)]] e by simp
qed

lemma sample_requests:
  "map rq_address (fst (deliverClaimedWebhook sample_host sample_env sample_claimed)) = [Some sample_address]"
  by code_simp

lemma requests_stay_public_witness: "\<not> isPrivateHost ''93.184.216.34''"
proof -
  obtain rq where "rq \<in> set (fst (deliverClaimedWebhook sample_host sample_env sample_claimed))"
      "rq_address rq = Some sample_address"
    using sample_requests by (cases "fst (deliverClaimedWebhook sample_host sample_env sample_claimed)") auto
  from requests_stay_public [OF this] show ?thesis by (simp add: sample_address_def)
qed

text \<open>C29: A receiver can verify every request: with the endpoint's secret the signature header
  of a delivered request verifies over its timestamp and body while the receiver's clock
  is within the tolerance of the sending instant, and is refused outside it, given that
  the host parses the date texts it writes.\<close>

theorem delivered_signature_verifies:
  assumes "rq \<in> set (fst (deliverClaimedWebhook host env claimed))"
    and "\<And>t. ho_dateParse host (ho_iso host t) = Some (of_int t)"
  shows "\<exists>endpoint secret timestamp signature.
    cw_endpoint claimed = Some endpoint \<and> de_resolveSecret env (ep_secretRef endpoint) = Some secret \<and>
    (''X-Listmonk-Ops-Timestamp'', timestamp) \<in> set (rq_headers rq) \<and>
    (''X-Listmonk-Ops-Signature'', signature) \<in> set (rq_headers rq) \<and>
    (\<forall>now. verifyOutboundWebhookSignature host
       \<lparr>vi_secret = secret, vi_timestamp = timestamp, vi_body = rq_body rq, vi_signature = signature,
        vi_now = now, vi_toleranceMs = None\<rparr> = Inr (\<bar>now - de_sentAt env\<bar> \<le> 300000))"
proof (rule delivery_requests [OF assms(1)])
  fix endpoint secret addresses signature
  let ?t = "ho_iso host (de_sentAt env)"
  assume e: "cw_endpoint claimed = Some endpoint" "de_resolveSecret env (ep_secretRef endpoint) = Some secret"
    and g: "signOutboundWebhookPayload host secret ?t (rq_body rq) = Inr signature"
    and h: "rq_headers rq = webhook_headers (dv_event (cw_delivery claimed)) ?t signature"
  have "\<bar>of_int now - of_int (de_sentAt env) :: rat\<bar> > 300000 \<longleftrightarrow> \<bar>now - de_sentAt env\<bar> > 300000" for now
    by (simp flip: of_int_diff of_int_abs)
  then have "verifyOutboundWebhookSignature host
       \<lparr>vi_secret = secret, vi_timestamp = ?t, vi_body = rq_body rq, vi_signature = signature,
        vi_now = now, vi_toleranceMs = None\<rparr> = Inr (\<bar>now - de_sentAt env\<bar> \<le> 300000)" for now
    using g by (auto simp: verifyOutboundWebhookSignature_def assms(2) opt_default_def not_less)
  then show ?thesis using e h by (auto simp: webhook_headers_def)
qed

lemma sample_dates: "ho_dateParse sample_host (ho_iso sample_host t) = Some (of_int t)"
proof (cases "t < 0")
  case True
  then show ?thesis by (simp add: sample_host_def int_text_def nat_value_text)
next
  case False
  have "nat_text (nat t) \<noteq> []" by (subst nat_text.simps) simp
  then obtain c cs where n: "nat_text (nat t) = c # cs" by (cases "nat_text (nat t)") auto
  then have "c \<noteq> CHR ''-''" using nat_text_digits [of c "nat t"] by auto
  moreover have "nat_value (c # cs) = nat t" using nat_value_text [of "nat t"] n by simp
  ultimately show ?thesis using False by (simp add: sample_host_def int_text_def n)
qed

lemma delivered_signature_verifies_witness:
  "\<exists>timestamp body signature. verifyOutboundWebhookSignature sample_host
     \<lparr>vi_secret = ''key'', vi_timestamp = timestamp, vi_body = body, vi_signature = signature,
      vi_now = 3000, vi_toleranceMs = None\<rparr> = Inr True"
proof -
  obtain rq where "rq \<in> set (fst (deliverClaimedWebhook sample_host sample_env sample_claimed))"
    using sample_requests by (cases "fst (deliverClaimedWebhook sample_host sample_env sample_claimed)") auto
  from delivered_signature_verifies [OF this sample_dates]
  obtain secret timestamp signature where
    "de_resolveSecret sample_env (ep_secretRef sample_endpoint) = Some secret"
    "\<forall>now. verifyOutboundWebhookSignature sample_host
       \<lparr>vi_secret = secret, vi_timestamp = timestamp, vi_body = rq_body rq, vi_signature = signature,
        vi_now = now, vi_toleranceMs = None\<rparr> = Inr (\<bar>now - de_sentAt sample_env\<bar> \<le> 300000)"
    by (auto simp: sample_claimed_def)
  moreover from this have "secret = ''key''" by (simp add: sample_env_def)
  moreover have "\<bar>3000 - de_sentAt sample_env\<bar> \<le> 300000" by (simp add: sample_env_def)
  ultimately show ?thesis by metis
qed

subsection \<open>Redaction\<close>

text \<open>No sensitive member anywhere shows its value.\<close>

fun redacted :: "json \<Rightarrow> bool" where
  "redacted (JArr xs) = list_all redacted xs"
| "redacted (JObj xs) =
     list_all (\<lambda>p. (isSensitiveKey (fst p) \<longrightarrow> snd p = JStr ''[REDACTED]'') \<and> redacted (snd p)) xs"
| "redacted _ = True"

fun nesting :: "json \<Rightarrow> nat" where
  "nesting (JArr xs) = Suc (fold max (map nesting xs) 0)"
| "nesting (JObj xs) = Suc (fold max (map (\<lambda>p. nesting (snd p)) xs) 0)"
| "nesting _ = 0"

lemma fold_max_le: "(\<And>x. x \<in> set xs \<Longrightarrow> x \<le> n) \<Longrightarrow> m \<le> n \<Longrightarrow> fold max xs m \<le> (n :: nat)"
  by (induction xs arbitrary: m) auto

lemma redactValue_redacted: "redacted (redactValue depth v)"
  by (induction depth v rule: redactValue.induct) (auto simp: list_all_iff)

lemma redactValue_nesting: "depth \<le> MAX_REDACTION_DEPTH \<Longrightarrow> nesting (redactValue depth v) + depth \<le> MAX_REDACTION_DEPTH"
proof (induction depth v rule: redactValue.induct)
  case (1 depth xs)
  show ?case
  proof (cases "depth \<ge> MAX_REDACTION_DEPTH")
    case False
    have "nesting (redactValue (Suc depth) x) \<le> MAX_REDACTION_DEPTH - Suc depth" if "x \<in> set xs" for x
      using 1 False that by fastforce
    then have "fold max (map (\<lambda>x. nesting (redactValue (Suc depth) x)) xs) 0 \<le> MAX_REDACTION_DEPTH - Suc depth"
      by (intro fold_max_le) auto
    then show ?thesis using False by (simp add: comp_def)
  qed (use 1 in simp)
next
  case (2 depth xs)
  show ?case
  proof (cases "depth \<ge> MAX_REDACTION_DEPTH")
    case False
    have "nesting (redactValue (Suc depth) (snd p)) \<le> MAX_REDACTION_DEPTH - Suc depth"
      if "p \<in> set xs" "\<not> isSensitiveKey (fst p)" for p
      using 2 False that by fastforce
    then have "nesting (if isSensitiveKey (fst p) then JStr ''[REDACTED]'' else redactValue (Suc depth) (snd p))
        \<le> MAX_REDACTION_DEPTH - Suc depth" if "p \<in> set xs" for p
      using that by simp
    then have "fold max (map (\<lambda>p. nesting (snd p)) (filter (\<lambda>p. fst p \<noteq> ''__proto__'')
          (map (\<lambda>p. (fst p, if isSensitiveKey (fst p) then JStr ''[REDACTED]''
                              else redactValue (Suc depth) (snd p))) xs))) 0 \<le> MAX_REDACTION_DEPTH - Suc depth"
      by (intro fold_max_le) fastforce+
    then show ?thesis using False by simp
  qed (use 2 in simp)
qed simp_all

lemma redactValue_again: "redactValue depth (redactValue depth v) = redactValue depth v"
proof (induction depth v rule: redactValue.induct)
  case (2 depth xs)
  then show ?case by (auto simp: filter_map comp_def)
qed auto

lemma redacted_data: "JObj (redactOutboundWebhookData d) = redactValue 0 (JObj d)"
  by (simp add: redactOutboundWebhookData_def json_members_def MAX_REDACTION_DEPTH_def)

lemma redact_data_again: "redactOutboundWebhookData (redactOutboundWebhookData d) = redactOutboundWebhookData d"
  using redactValue_again [of 0 "JObj d"] by (metis redacted_data json.inject(5))

lemma event_fields:
  assumes "eventSchema e = Some v"
  shows "ev_data v = ev_data e" "eventSchema v = Some v"
    "opt_schema (trimmed_between 1 200) (ev_correlationId e) = Some (ev_correlationId v)"
    "ev_schemaVersion v = OUTBOUND_WEBHOOK_EVENT_SCHEMA_VERSION"
proof -
  show "eventSchema v = Some v" using idem_event assms unfolding idem_schema_def by blast
qed (use assms in \<open>auto simp: eventSchema_def split: option.splits if_splits\<close>)

lemma event_correlation:
  assumes "eventSchema v = Some v" "ev_correlationId v = Some c"
  shows "trim c = c" "c \<noteq> []"
proof -
  have "trimmed_between 1 200 c = Some c"
    using event_fields(3) [OF assms(1)] assms(2) by (auto simp: opt_schema_def split: option.splits)
  then have "trim c = c" "1 \<le> length c"
    by (auto simp: trimmed_between_def Let_def split: if_splits)
  then show "trim c = c" "c \<noteq> []" by auto
qed

text \<open>An event shows no secret, and passing it through again changes nothing: in the data
  of a created event, at any depth, a member whose name is sensitive holds the
  redaction mark, nothing is nested deeper than the limit, and creating an event from
  it again - as the lifecycle projection does - gives the same event.\<close>

theorem event_redacted_once:
  assumes "createOutboundWebhookEvent input fresh now = Inr ev"
  shows "redacted (JObj (ev_data ev)) \<and> nesting (JObj (ev_data ev)) \<le> MAX_REDACTION_DEPTH \<and>
    createOutboundWebhookEvent (event_as_input ev) fresh' now' = Inr ev"
proof -
  obtain e where e: "eventSchema e = Some ev" "ev_data e = redactOutboundWebhookData (case ei_data input of None \<Rightarrow> [] | Some d \<Rightarrow> d)"
    using assms by (simp add: createOutboundWebhookEvent_def)
  let ?d = "case ei_data input of None \<Rightarrow> [] | Some d \<Rightarrow> d"
  have d: "ev_data ev = redactOutboundWebhookData ?d" using event_fields(1) [OF e(1)] e(2) by simp
  have data: "JObj (ev_data ev) = redactValue 0 (JObj ?d)" unfolding d by (rule redacted_data)
  have valid: "eventSchema ev = Some ev" by (rule event_fields(2) [OF e(1)])
  have c: "(case ev_correlationId ev of None \<Rightarrow> None | Some c \<Rightarrow> if trim c = [] then None else Some (trim c)) =
      ev_correlationId ev"
    using event_correlation [OF valid] by (auto split: option.split)
  have "createOutboundWebhookEvent (event_as_input ev) fresh' now' =
      parsed eventSchema (ev\<lparr>ev_schemaVersion := OUTBOUND_WEBHOOK_EVENT_SCHEMA_VERSION,
        ev_data := redactOutboundWebhookData (ev_data ev)\<rparr>)"
    using c by (cases ev) (simp add: createOutboundWebhookEvent_def event_as_input_def)
  also have "ev\<lparr>ev_schemaVersion := OUTBOUND_WEBHOOK_EVENT_SCHEMA_VERSION,
        ev_data := redactOutboundWebhookData (ev_data ev)\<rparr> = ev"
    using event_fields(4) [OF e(1)] redact_data_again [of ?d] d by (cases ev) simp
  also have "parsed eventSchema ev = Inr ev" using valid by (simp only: parsed_Inr)
  finally show ?thesis
    using data redactValue_redacted [of 0 "JObj ?d"] redactValue_nesting [of 0 "JObj ?d"] by simp
qed

definition sample_input :: wh_event_input where
  "sample_input =
     \<lparr>ei_eventId = Some ''event'', ei_type = ''webhook.test'', ei_occurredAt = Some 0,
      ei_source = SourceWebhook, ei_correlationId = Some '' run-1 '', ei_subject = None,
      ei_data = Some [(''accessToken'', JStr ''hunter2''),
        (''user'', JObj [(''Email'', JStr ''a@example.com''), (''age'', JNum 7)])]\<rparr>"

lemma event_redacted_once_witness:
  "\<exists>ev. createOutboundWebhookEvent sample_input ''f'' 1 = Inr ev \<and> redacted (JObj (ev_data ev)) \<and>
     ev_data ev = [(''accessToken'', JStr ''[REDACTED]''),
       (''user'', JObj [(''Email'', JStr ''[REDACTED]''), (''age'', JNum 7)])]"
proof -
  let ?ev = "\<lparr>ev_id = ''event'', ev_type = ''webhook.test'', ev_schemaVersion = 1, ev_occurredAt = 0,
      ev_source = SourceWebhook, ev_correlationId = Some ''run-1'', ev_subject = None,
      ev_data = [(''accessToken'', JStr ''[REDACTED]''),
        (''user'', JObj [(''Email'', JStr ''[REDACTED]''), (''age'', JNum 7)])]\<rparr> :: wh_event"
  have "createOutboundWebhookEvent sample_input ''f'' 1 = Inr ?ev" by code_simp
  from event_redacted_once [OF this] this show ?thesis by (intro exI [of _ ?ev]) simp
qed

subsection \<open>Dispatch runs\<close>

lemma update_result:
  assumes "updateJsonFileStore st io upd file = (f, Inr r)"
  shows "\<exists>cur nxt. upd cur = Inr (nxt, r)"
proof (rule update_cases [of st io upd "file"])
  fix e
  assume "updateJsonFileStore st io upd file = (file, Inl e)"
  then show ?thesis using assms by simp
next
  fix cur v x w
  assume "upd cur = Inr (v, x)" "updateJsonFileStore st io upd file =
      (Some v, if io_release io then Inr x else Inl ReleaseFailed)"
  then show ?thesis using assms by (auto split: if_splits)
qed

lemma set_update_pair: "set (AList.update a b al) \<subseteq> insert (a, b) (set al)"
  by (induction al) auto

lemma length_update_pair: "length (AList.update a b al) \<le> Suc (length al)"
  by (induction al) auto

lemma put_all_pairs: "p \<in> set (put_all k xs) \<Longrightarrow> fst p = k (snd p) \<and> snd p \<in> set xs"
proof (induction xs rule: rev_induct)
  case (snoc x xs)
  then have "p = (k x, x) \<or> p \<in> set (put_all k xs)"
    using set_update_pair [of "k x" x "put_all k xs"] by (auto simp: put_all_snoc)
  then show ?case using snoc.IH by auto
qed simp

lemma put_all_keys: "distinct (map fst (put_all k xs)) \<and> length (put_all k xs) \<le> length xs"
proof (induction xs rule: rev_induct)
  case (snoc x xs)
  then show ?case
    using distinct_update [of "put_all k xs" "k x" x] length_update_pair [of "k x" x "put_all k xs"]
    unfolding put_all_snoc length_append by simp
qed simp

lemma claim_shape:
  assumes "claimOutboundWebhookDeliveries options s = Inr (s', cls)"
  shows "length cls \<le> cd_dl_limit options" "distinct (map (dv_id \<circ> cw_delivery) cls)"
    "(dv_id \<circ> cw_delivery) ` set cls \<inter> set (cd_dl_excludeDeliveryIds options) = {}"
proof -
  let ?c = "claimable_deliveries options s"
  let ?g = "\<lambda>(n, d). parsed deliverySchema
              (leased_delivery (cd_dl_now options) (cd_dl_leaseMs options) (cd_dl_tokens options n) d)"
  obtain leased where l: "list_parse ?g (enumerate 0 ?c) = Inr leased"
    using assms by (cases "list_parse ?g (enumerate 0 ?c)") (simp_all add: claimOutboundWebhookDeliveries_def)
  then have cls: "cls = map (\<lambda>p. \<lparr>cw_delivery = snd p, cw_endpoint = endpoint_by_id s (dv_endpointId (snd p))\<rparr>)
         (put_all dv_id leased)"
    using assms by (simp add: claimOutboundWebhookDeliveries_def Let_def)
  have "length leased = length ?c" using list_parse_length [OF l] by simp
  then show "length cls \<le> cd_dl_limit options"
    using put_all_keys [of dv_id leased] by (simp add: cls claimable_deliveries_def)
  have "map (dv_id \<circ> cw_delivery) cls = map fst (put_all dv_id leased)"
    using put_all_pairs [of _ dv_id leased] by (simp add: cls)
  then show "distinct (map (dv_id \<circ> cw_delivery) cls)" using put_all_keys [of dv_id leased] by simp
  have "dv_id (cw_delivery c) \<notin> set (cd_dl_excludeDeliveryIds options)" if c: "c \<in> set cls" for c
  proof -
    obtain p where "p \<in> set (put_all dv_id leased)" "cw_delivery c = snd p" using c by (auto simp: cls)
    then have "cw_delivery c \<in> set leased" using put_all_pairs by metis
    then obtain x where x: "x \<in> set (enumerate 0 ?c)" "?g x = Inr (cw_delivery c)"
      using list_parse_members [OF l] by blast
    obtain n d where nd: "x = (n, d)" by (rule prod.exhaust)
    then have "dv_id (cw_delivery c) = dv_id d"
      using x(2) by (simp add: delivery_schema_fields leased_delivery_def)
    moreover have "d \<in> set ?c" using x(1) by (auto simp: nd enumerate_eq_zip dest: set_zip_rightD)
    ultimately show ?thesis using claimable_member [of d options s] by (simp add: claimable_delivery_def)
  qed
  then show "(dv_id \<circ> cw_delivery) ` set cls \<inter> set (cd_dl_excludeDeliveryIds options) = {}" by auto
qed

lemma dispatch_one_entry:
  assumes "dispatch_one host config env c file = (f, Inr entry)"
  shows "en_deliveryId entry = dv_id (cw_delivery c) \<and> en_entryStatus entry \<noteq> EntryOther"
proof -
  let ?i = "dv_id (cw_delivery c)"
  let ?attempt = "snd (deliverClaimedWebhook host (ro_delivery env ?i) c)"
  let ?u = "updateJsonFileStore createOutboundWebhookStore (ro_completeIo env ?i)
     (completeOutboundWebhookDelivery (cw_delivery c) (complete_result.truncate ?attempt) (cw_endpoint c)
        (ro_completeNow env ?i) (dc_base config)) file"
  obtain g r where u: "?u = (g, r)" by (cases ?u) auto
  show ?thesis
  proof (cases r)
    case (Inl e)
    then show ?thesis
      using assms u by (auto simp: dispatch_one_def Let_def split: store_failure.splits wh_error.splits)
  next
    case (Inr d)
    then obtain cur nxt where "completeOutboundWebhookDelivery (cw_delivery c) (complete_result.truncate ?attempt)
        (cw_endpoint c) (ro_completeNow env ?i) (dc_base config) cur = Inr (nxt, d)"
      using update_result u by metis
    then obtain l where l: "dv_id l = ?i"
        "deliverySchema (completed_delivery (complete_result.truncate ?attempt) (cw_endpoint c)
           (ro_completeNow env ?i) (dc_base config) l) = Some d"
      by (rule complete_delivery_result) blast
    have "dv_id d = ?i" "dv_status d \<in> {DeliverySucceeded, DeliveryExhausted, DeliveryRetry}"
      using delivery_schema_fields(1,4) [OF l(2)] l(1) completion_cases
      by (simp_all add: completed_delivery_def Let_def)
    then show ?thesis
      using assms u Inr by (auto simp: dispatch_one_def Let_def entry_status_of_def)
  qed
qed

lemma promise_all_Inr: "promise_all rs = Inr xs \<longleftrightarrow> rs = map Inr xs"
proof (induction rs arbitrary: xs)
  case (Cons r rs)
  show ?case
  proof (cases r)
    case (Inr x)
    then show ?thesis
      using Cons.IH by (cases "promise_all rs") (auto simp: map_eq_Cons_conv Cons_eq_map_conv)
  qed auto
qed auto

definition entry_known :: "dispatch_entry \<Rightarrow> bool" where
  "entry_known e \<longleftrightarrow> en_entryStatus e \<noteq> EntryOther"

lemma dispatch_batch_entries:
  assumes "dispatch_batch host config env cs file = (f, map Inr entries)"
  shows "map en_deliveryId entries = map (dv_id \<circ> cw_delivery) cs \<and> list_all entry_known entries"
  using assms
proof (induction cs arbitrary: entries "file")
  case (Cons c cs)
  obtain g r where one: "dispatch_one host config env c file = (g, r)" by (rule prod.exhaust)
  obtain h rs where rest: "dispatch_batch host config env cs g = (h, rs)" by (rule prod.exhaust)
  obtain e es where "entries = e # es" "r = Inr e" "rs = map Inr es"
    using Cons.prems one rest by (auto simp: Cons_eq_map_conv)
  then show ?case
    using Cons.IH [of g es] dispatch_one_entry [of host config env c "file" g e] Cons.prems one rest
    by (simp add: entry_known_def)
qed simp

lemma round_claim_shape:
  assumes "round_claim config env n processed file = (f, Inr cls)"
  shows "n + length cls \<le> max n (dc_limit config)" "distinct (map (dv_id \<circ> cw_delivery) cls)"
    "set (map (dv_id \<circ> cw_delivery) cls) \<inter> set processed = {}"
proof -
  obtain options cur nxt where "claimOutboundWebhookDeliveries options cur = Inr (nxt, cls)"
      "cd_dl_limit options \<le> dc_limit config - n" "cd_dl_excludeDeliveryIds options = processed"
    using update_result [OF assms [unfolded round_claim_def]] by fastforce
  from claim_shape [OF this(1)] this(2,3)
  show "n + length cls \<le> max n (dc_limit config)" "distinct (map (dv_id \<circ> cw_delivery) cls)"
    "set (map (dv_id \<circ> cw_delivery) cls) \<inter> set processed = {}" by auto
qed

lemma entry_counts:
  "list_all entry_known es \<Longrightarrow> entry_count EntrySucceeded es + entry_count EntryRetry es +
     entry_count EntryExhausted es + entry_count EntrySkipped es = length es"
proof (induction es)
  case (Cons e es)
  then show ?case by (cases "en_entryStatus e") (simp_all add: entry_count_def entry_known_def)
qed (simp add: entry_count_def)

text \<open>What a finished run reports, from any round on.\<close>

definition accounted :: "nat \<Rightarrow> dispatch_result \<Rightarrow> bool" where
  "accounted limit r \<longleftrightarrow>
     dr_claimed r \<le> limit \<and> length (dr_results r) = dr_claimed r \<and>
     distinct (map en_deliveryId (dr_results r)) \<and>
     dr_succeeded r + dr_retried r + dr_exhausted r + dr_skipped r = dr_claimed r"

lemma summary_accounted:
  assumes "n \<le> limit" "map en_deliveryId results = processed" "length results = n" "distinct processed"
    and "list_all entry_known results"
  shows "accounted limit (dispatch_summary n results)"
  using assms entry_counts [OF assms(5)] by (auto simp: accounted_def dispatch_summary_def)

lemma dispatch_loop_accounted:
  assumes "dispatch_loop host config env n processed results file = (f, Inr r)"
    and "n \<le> dc_limit config" "map en_deliveryId results = processed" "length results = n"
    "distinct processed" "list_all entry_known results"
  shows "accounted (dc_limit config) r"
  using assms
proof (induction host config env n processed results "file" rule: dispatch_loop.induct)
  case (1 host config env n processed results "file")
  obtain g c where claim: "round_claim config (env n) n processed file = (g, c)" by (rule prod.exhaust)
  have run: "(if dc_limit config \<le> n then (file, Inr (dispatch_summary n results))
      else case c of Inl e \<Rightarrow> (g, Inl e)
        | Inr cls \<Rightarrow> if cls = [] then (g, Inr (dispatch_summary n results))
            else let (h, batch) = dispatch_batch host config (env n) cls g
                 in case promise_all batch of Inl e \<Rightarrow> (h, Inl e)
                    | Inr entries \<Rightarrow> dispatch_loop host config env (n + length cls)
                        (processed @ map (dv_id \<circ> cw_delivery) cls) (results @ entries) h) = (f, Inr r)"
    using 1(2) by (subst (asm) dispatch_loop.simps) (simp only: claim Let_def prod.case)
  note finished = summary_accounted [OF 1(3-7)]
  show ?case
  proof (cases "n \<ge> dc_limit config \<or> c = Inr []")
    case True
    then have "r = dispatch_summary n results" using run by (auto split: if_splits)
    then show ?thesis using finished by simp
  next
    case False
    then obtain cls where c: "c = Inr cls" "cls \<noteq> []" using run by (cases c) auto
    obtain h batch where b: "dispatch_batch host config (env n) cls g = (h, batch)" by (rule prod.exhaust)
    obtain entries where e: "promise_all batch = Inr entries"
      using run False c b by (cases "promise_all batch") auto
    have rest: "dispatch_loop host config env (n + length cls) (processed @ map (dv_id \<circ> cw_delivery) cls)
        (results @ entries) h = (f, Inr r)"
      using run False c b e by simp
    note s = round_claim_shape [OF claim [unfolded c]]
    have es: "map en_deliveryId entries = map (dv_id \<circ> cw_delivery) cls" "list_all entry_known entries"
      using dispatch_batch_entries b e by (metis promise_all_Inr)+
    then have "length entries = length cls" by (metis length_map)
    then show ?thesis
      using 1(1) [OF _ claim [symmetric] refl c b [symmetric] refl e rest] 1(3-7) False s es by auto
  qed
qed

lemma dispatch_limit:
  assumes "dispatch_config_of options = Inr config"
  shows "\<exists>q. opt_default (do_limit options) (Num 25) = Num q \<and> 1 \<le> q \<and> q \<le> 100 \<and> of_nat (dc_limit config) = q"
proof -
  obtain limit where l: "checked_integer (do_limit options) 25 1 (Some 100)
      ''Dispatch limit must be between 1 and 100'' = Inr limit" "dc_limit config = nat limit"
    using assms by (auto simp: dispatch_config_of_def split: sum.splits if_splits)
  then obtain q where q: "opt_default (do_limit options) (Num 25) = Num q" "of_int \<lfloor>q\<rfloor> = q" "\<lfloor>q\<rfloor> = limit"
      "1 \<le> limit" "limit \<le> 100"
    by (auto simp: checked_integer_def split: js_number.splits if_splits)
  then have "of_nat (dc_limit config) = q" using l(2) by (metis of_int_of_nat_eq int_nat_eq of_int_eq_iff order_trans zero_le_one)
  moreover have "1 \<le> q" "q \<le> 100" using q(2-5) by (metis of_int_1_le_iff, metis of_int_le_numeral_iff)
  ultimately show ?thesis using q(1) by blast
qed

lemma map_sum_Inr: "map_sum f g r = Inr y \<longleftrightarrow> (\<exists>x. r = Inr x \<and> y = g x)"
  by (cases r) auto

text \<open>C6: A dispatch run accounts for everything it claims: a run that
  reports a result was given a limit between 1 and 100, 25 if none, and has claimed at
  most that many deliveries; it has one entry per claimed delivery, no delivery
  twice, and each counted once as succeeded, retried, exhausted or skipped.\<close>

theorem dispatch_accounts:
  assumes "dispatchOutboundWebhooks host options env file = (file', Inr r)"
  shows "(\<exists>limit. opt_default (do_limit options) (Num 25) = Num limit \<and> 1 \<le> limit \<and> limit \<le> 100 \<and>
      of_nat (dr_claimed r) \<le> limit) \<and>
    length (dr_results r) = dr_claimed r \<and> distinct (map en_deliveryId (dr_results r)) \<and>
    dr_succeeded r + dr_retried r + dr_exhausted r + dr_skipped r = dr_claimed r"
proof -
  obtain config where c: "dispatch_config_of options = Inr config"
      "dispatch_loop host config env 0 [] [] file = (file', Inr r)"
    using assms
    by (auto simp: map_sum_Inr dispatchOutboundWebhooks_def apsnd_def map_prod_def split: sum.splits prod.splits)
  have "accounted (dc_limit config) r" by (rule dispatch_loop_accounted [OF c(2)]) auto
  then show ?thesis using dispatch_limit [OF c(1)] by (auto simp: accounted_def)
qed

text \<open>Round 0 leases at 2000 and completes at 3000; the next round finds nothing to claim.\<close>

definition sample_round :: "nat \<Rightarrow> round_env" where
  "sample_round = (\<lambda>n. \<lparr>ro_claimIo = io_fine, ro_claimNow = 2000, ro_tokens = (\<lambda>_. ''token''),
     ro_delivery = (\<lambda>_. sample_env), ro_completeIo = (\<lambda>_. io_fine), ro_completeNow = (\<lambda>_. 3000)\<rparr>)"

definition no_options :: dispatch_options where
  "no_options = \<lparr>do_limit = None, do_leaseMs = None, do_baseRetryDelayMs = None, do_concurrency = None,
     do_deliveryIds = None, do_bypassCircuitBreaker = False\<rparr>"

lemma sample_run:
  "snd (dispatchOutboundWebhooks sample_host no_options sample_round (Some sample_outbox)) =
     Inr \<lparr>dr_claimed = 1, dr_succeeded = 1, dr_retried = 0, dr_exhausted = 0, dr_skipped = 0,
          dr_results = [\<lparr>en_deliveryId = ''delivery'', en_endpointId = ''ep'',
            en_entryStatus = EntrySucceeded, en_statusCode = Some 204, en_errorCode = None\<rparr>]\<rparr>"
  by code_simp

lemma dispatch_accounts_witness:
  "\<exists>r. snd (dispatchOutboundWebhooks sample_host no_options sample_round (Some sample_outbox)) = Inr r \<and>
     dr_claimed r = 1 \<and> length (dr_results r) = dr_claimed r"
proof -
  obtain f r where r: "dispatchOutboundWebhooks sample_host no_options sample_round (Some sample_outbox) = (f, Inr r)"
      "dr_claimed r = 1"
    using sample_run by (metis dispatch_result.select_convs(1) prod.collapse)
  then show ?thesis using dispatch_accounts [OF r(1)] by simp
qed

end
