(* ===== verification/File_Lock.thy ===== *)
theory File_Lock
  imports Json_File_Store
begin

section \<open>The lock of a JSON file\<close>

text \<open>
  The lock protocol of \<^verbatim>\<open>packages/common/src/json-file-store.ts\<close> (\<open>acquireLock\<close> to
  \<open>withJsonFileLock\<close>) as a state machine over the file system.  A task is one call of
  \<open>updateJsonFileStore\<close>; it runs in a process and is at one of the points of
  \<open>lock_pc\<close>.  Between two awaited file operations, tasks of any process may run.

  The lock is a file that holds the token, process and host of its owner; a second file,
  the recovery sentinel, is the lock under which an abandoned lock is removed.  A lock
  file is linked into place complete, so what a reader finds parses.  A file operation may
  fail (\<open>fault\<close>), which has no effect on the files; a process may die at any point and its
  process number may be used again.  The creation time in the file plays no part in the
  protocol.
\<close>

subsection \<open>State\<close>

type_synonym task = nat
type_synonym process = nat

datatype lock_path = LockPath | RecoveryPath

record lock_metadata =
  lm_token :: uuid
  lm_pid :: nat
  lm_hostname :: string

text \<open>
  What \<open>removeDeadOwnerFile\<close> works on: the sentinel of another process, or the lock itself
  while this task owns the sentinel with the given token.
\<close>

datatype recovering = Sentinel | Abandoned uuid

text \<open>
  The points of a task: entering, \<open>createLockFile\<close> of the lock and of the sentinel, the two
  reads and the removal of \<open>removeDeadOwnerFile\<close>, the two steps of \<open>releaseLock\<close> with
  whether the action under the lock completed, the deadline check of the loop, and inside
  the lock before and after the read of the document.
\<close>

datatype 'v lock_pc =
    Entering
  | CreateLock
  | CreateSentinel
  | DeadRead recovering
  | DeadCheck recovering lock_metadata
  | DeadReread recovering lock_metadata bool
  | DeadUnlink recovering lock_metadata bool
  | ReleaseRead lock_path uuid bool
  | ReleaseUnlink lock_path uuid bool
  | CheckDeadline
  | Holding uuid
  | HoldingValue uuid 'v
  | Returned
  | TimedOut
  | Threw
  | Killed

text \<open>
  The processes, and what a task does to the document: \<open>None\<close> when its callback, the
  validation of its result or the write fails.
\<close>

record 'v lock_env =
  le_process :: "task \<Rightarrow> process"
  le_pid :: "process \<Rightarrow> nat"
  le_host :: "process \<Rightarrow> string"
  le_update :: "task \<Rightarrow> 'v \<Rightarrow> 'v option"

text \<open>
  The files, the document, the running processes and those that have started, the map
  \<open>knownAbandonedLockTokens\<close> of each process and the point of each task.  Two histories
  are kept for the statements: the tokens drawn and the tasks that have written.
\<close>

record 'v lock_state =
  lf_file :: "lock_path \<Rightarrow> lock_metadata option"
  lf_data :: 'v
  lf_alive :: "process list"
  lf_started :: "process list"
  lf_known :: "process \<Rightarrow> lock_path \<Rightarrow> uuid option"
  lf_pc :: "task \<Rightarrow> 'v lock_pc"
  lf_used :: "uuid list"
  lf_log :: "task list"

definition go :: "task \<Rightarrow> 'v lock_pc \<Rightarrow> 'v lock_state \<Rightarrow> 'v lock_state" where
  "go i pc s = s\<lparr>lf_pc := (lf_pc s)(i := pc)\<rparr>"

definition put_file :: "lock_path \<Rightarrow> lock_metadata option \<Rightarrow> 'v lock_state \<Rightarrow> 'v lock_state" where
  "put_file p m s = s\<lparr>lf_file := (lf_file s)(p := m)\<rparr>"

definition put_known :: "process \<Rightarrow> lock_path \<Rightarrow> uuid option \<Rightarrow> 'v lock_state \<Rightarrow> 'v lock_state" where
  "put_known q p t s = s\<lparr>lf_known := (lf_known s)(q := (lf_known s q)(p := t))\<rparr>"

subsection \<open>The file operations\<close>

definition createLockMetadata :: "'v lock_env \<Rightarrow> process \<Rightarrow> uuid \<Rightarrow> lock_metadata" where
  "createLockMetadata env q token =
     \<lparr>lm_token = token, lm_pid = le_pid env q, lm_hostname = le_host env q\<rparr>"

text \<open>The process numbers that answer a signal on a host.\<close>

definition isProcessAlive :: "'v lock_env \<Rightarrow> 'v lock_state \<Rightarrow> string \<Rightarrow> nat \<Rightarrow> bool" where
  "isProcessAlive env s host pid = list_ex (\<lambda>q. le_host env q = host \<and> le_pid env q = pid) (lf_alive s)"

text \<open>
  \<open>createLockFile\<close>: whether the file was created decides between two points; a failing
  operation throws.
\<close>

definition createLockFile ::
  "'v lock_env \<Rightarrow> task \<Rightarrow> lock_path \<Rightarrow> uuid \<Rightarrow> bool \<Rightarrow> 'v lock_pc \<Rightarrow> 'v lock_pc
     \<Rightarrow> 'v lock_state \<Rightarrow> 'v lock_state" where
  "createLockFile env i p token fault created existing s =
     (let q = le_process env i
      in if fault then go i Threw s
         else case lf_file s p of
                Some m \<Rightarrow> go i existing s
              | None \<Rightarrow> go i created (put_known q p None
                          (put_file p (Some (createLockMetadata env q token)) s)))"

fun recovering_path :: "recovering \<Rightarrow> lock_path" where
  "recovering_path Sentinel = RecoveryPath"
| "recovering_path (Abandoned r) = LockPath"

text \<open>
  After \<open>removeDeadOwnerFile\<close>: the sentinel's result goes to the loop of \<open>acquireLock\<close> and
  its error out of it; under the own sentinel both go through the release of the sentinel.
\<close>

fun recovered :: "recovering \<Rightarrow> 'v lock_pc" where
  "recovered Sentinel = CheckDeadline"
| "recovered (Abandoned r) = ReleaseRead RecoveryPath r True"

fun recovery_threw :: "recovering \<Rightarrow> 'v lock_pc" where
  "recovery_threw Sentinel = Threw"
| "recovery_threw (Abandoned r) = ReleaseRead RecoveryPath r False"

definition forget :: "bool \<Rightarrow> process \<Rightarrow> lock_path \<Rightarrow> 'v lock_state \<Rightarrow> 'v lock_state" where
  "forget known q p s = (if known then put_known q p None s else s)"

definition deadRead :: "task \<Rightarrow> recovering \<Rightarrow> bool \<Rightarrow> 'v lock_state \<Rightarrow> 'v lock_state" where
  "deadRead i g fault s =
     (if fault then go i (recovery_threw g) s
      else case lf_file s (recovering_path g) of
             None \<Rightarrow> go i (recovered g) s
           | Some m \<Rightarrow> go i (DeadCheck g m) s)"

definition deadCheck ::
  "'v lock_env \<Rightarrow> task \<Rightarrow> recovering \<Rightarrow> lock_metadata \<Rightarrow> 'v lock_state \<Rightarrow> 'v lock_state" where
  "deadCheck env i g m s =
     (let q = le_process env i;
          known = (lf_known s q (recovering_path g) = Some (lm_token m))
      in if lm_hostname m \<noteq> le_host env q then go i (recovered g) s
         else if \<not> known \<and> isProcessAlive env s (le_host env q) (lm_pid m) then go i (recovered g) s
         else go i (DeadReread g m known) s)"

definition deadReread ::
  "'v lock_env \<Rightarrow> task \<Rightarrow> recovering \<Rightarrow> lock_metadata \<Rightarrow> bool \<Rightarrow> bool \<Rightarrow> 'v lock_state \<Rightarrow> 'v lock_state" where
  "deadReread env i g m known fault s =
     (let p = recovering_path g
      in if fault then go i (recovery_threw g) s
         else case lf_file s p of
                None \<Rightarrow> go i (recovered g) s
              | Some m' \<Rightarrow>
                  (if lm_token m' \<noteq> lm_token m
                   then go i (recovered g) (forget known (le_process env i) p s)
                   else go i (DeadUnlink g m known) s))"

definition deadUnlink ::
  "'v lock_env \<Rightarrow> task \<Rightarrow> recovering \<Rightarrow> bool \<Rightarrow> bool \<Rightarrow> 'v lock_state \<Rightarrow> 'v lock_state" where
  "deadUnlink env i g known fault s =
     (let p = recovering_path g
      in if fault then go i (recovery_threw g) s
         else go i (recovered g) (forget known (le_process env i) p (put_file p None s)))"

text \<open>
  \<open>releaseLock\<close> inside \<open>runWithOwnedLock\<close>: where a task goes once the lock is released,
  given whether the action completed; a failing release remembers the token.
\<close>

fun released :: "lock_path \<Rightarrow> bool \<Rightarrow> 'v lock_pc" where
  "released LockPath ok = (if ok then Returned else Threw)"
| "released RecoveryPath ok = (if ok then CheckDeadline else Threw)"

definition finish_release ::
  "'v lock_env \<Rightarrow> task \<Rightarrow> lock_path \<Rightarrow> uuid \<Rightarrow> bool \<Rightarrow> 'v lock_state \<Rightarrow> 'v lock_state" where
  "finish_release env i p token ok s =
     (let q = le_process env i
      in go i (released p ok) (forget (lf_known s q p = Some token) q p s))"

definition fail_release ::
  "'v lock_env \<Rightarrow> task \<Rightarrow> lock_path \<Rightarrow> uuid \<Rightarrow> 'v lock_state \<Rightarrow> 'v lock_state" where
  "fail_release env i p token s = go i Threw (put_known (le_process env i) p (Some token) s)"

definition releaseRead ::
  "'v lock_env \<Rightarrow> task \<Rightarrow> lock_path \<Rightarrow> uuid \<Rightarrow> bool \<Rightarrow> bool \<Rightarrow> 'v lock_state \<Rightarrow> 'v lock_state" where
  "releaseRead env i p token ok fault s =
     (if fault then fail_release env i p token s
      else case lf_file s p of
             None \<Rightarrow> finish_release env i p token ok s
           | Some m \<Rightarrow> (if lm_token m \<noteq> token then finish_release env i p token ok s
                        else go i (ReleaseUnlink p token ok) s))"

definition releaseUnlink ::
  "'v lock_env \<Rightarrow> task \<Rightarrow> lock_path \<Rightarrow> uuid \<Rightarrow> bool \<Rightarrow> bool \<Rightarrow> 'v lock_state \<Rightarrow> 'v lock_state" where
  "releaseUnlink env i p token ok fault s =
     (if fault then fail_release env i p token s
      else finish_release env i p token ok (put_file p None s))"

subsection \<open>Steps\<close>

text \<open>
  One step of a task: \<open>token\<close> is what \<open>randomUUID\<close> gives it, \<open>fault\<close> whether its file
  operation fails, \<open>late\<close> whether its deadline has passed.
\<close>

fun task_step ::
  "'v lock_env \<Rightarrow> task \<Rightarrow> uuid \<Rightarrow> bool \<Rightarrow> bool \<Rightarrow> 'v lock_pc \<Rightarrow> 'v lock_state \<Rightarrow> 'v lock_state" where
  "task_step env i token fault late Entering s = go i (if fault then Threw else CreateLock) s"
| "task_step env i token fault late CreateLock s =
     createLockFile env i LockPath token fault (Holding token) CreateSentinel s"
| "task_step env i token fault late CreateSentinel s =
     createLockFile env i RecoveryPath token fault (DeadRead (Abandoned token)) (DeadRead Sentinel) s"
| "task_step env i token fault late (DeadRead g) s = deadRead i g fault s"
| "task_step env i token fault late (DeadCheck g m) s = deadCheck env i g m s"
| "task_step env i token fault late (DeadReread g m known) s = deadReread env i g m known fault s"
| "task_step env i token fault late (DeadUnlink g m known) s = deadUnlink env i g known fault s"
| "task_step env i token fault late (ReleaseRead p t ok) s = releaseRead env i p t ok fault s"
| "task_step env i token fault late (ReleaseUnlink p t ok) s = releaseUnlink env i p t ok fault s"
| "task_step env i token fault late CheckDeadline s = go i (if late then TimedOut else CreateLock) s"
| "task_step env i token fault late (Holding t) s =
     go i (if fault then ReleaseRead LockPath t False else HoldingValue t (lf_data s)) s"
| "task_step env i token fault late (HoldingValue t v) s =
     (case (if fault then None else le_update env i v) of
        None \<Rightarrow> go i (ReleaseRead LockPath t False) s
      | Some w \<Rightarrow> go i (ReleaseRead LockPath t True) (s\<lparr>lf_data := w, lf_log := lf_log s @ [i]\<rparr>))"
| "task_step env i token fault late pc s = s"

datatype lock_action =
    Run task uuid bool bool
  | Start process
  | Die process

definition kill :: "'v lock_env \<Rightarrow> process \<Rightarrow> 'v lock_state \<Rightarrow> 'v lock_state" where
  "kill env q s =
     s\<lparr>lf_alive := removeAll q (lf_alive s),
       lf_pc := (\<lambda>i. if le_process env i = q \<and> lf_pc s i \<notin> {Returned, TimedOut, Threw} then Killed else lf_pc s i)\<rparr>"

text \<open>A process starts once; its number must not be in use on its host.\<close>

definition lock_step :: "'v lock_env \<Rightarrow> lock_action \<Rightarrow> 'v lock_state \<Rightarrow> 'v lock_state option" where
  "lock_step env a s =
     (case a of
        Run i token fault late \<Rightarrow>
          (if le_process env i \<in> set (lf_alive s) \<and> token \<notin> set (lf_used s)
           then Some (task_step env i token fault late (lf_pc s i) (s\<lparr>lf_used := token # lf_used s\<rparr>))
           else None)
      | Start q \<Rightarrow>
          (if q \<notin> set (lf_started s) \<and> \<not> isProcessAlive env s (le_host env q) (le_pid env q)
           then Some (s\<lparr>lf_alive := q # lf_alive s, lf_started := q # lf_started s\<rparr>) else None)
      | Die q \<Rightarrow> (if q \<in> set (lf_alive s) then Some (kill env q s) else None))"

definition lock_init :: "'v \<Rightarrow> 'v lock_state" where
  "lock_init v =
     \<lparr>lf_file = (\<lambda>_. None), lf_data = v, lf_alive = [], lf_started = [], lf_known = (\<lambda>_ _. None),
      lf_pc = (\<lambda>_. Entering), lf_used = [], lf_log = []\<rparr>"

text \<open>The states reachable by the actions that \<open>allowed\<close> admits.\<close>

inductive lock_reachable ::
  "'v lock_env \<Rightarrow> (lock_action \<Rightarrow> 'v lock_state \<Rightarrow> bool) \<Rightarrow> 'v \<Rightarrow> 'v lock_state \<Rightarrow> bool"
  for env allowed v where
  initial: "lock_reachable env allowed v (lock_init v)"
| action: "lock_reachable env allowed v s \<Longrightarrow> allowed a s \<Longrightarrow> lock_step env a s = Some s' \<Longrightarrow>
    lock_reachable env allowed v s'"

text \<open>A list of allowed actions, one after the other.\<close>

fun lock_run ::
  "'v lock_env \<Rightarrow> (lock_action \<Rightarrow> 'v lock_state \<Rightarrow> bool) \<Rightarrow> lock_action list \<Rightarrow> 'v lock_state
     \<Rightarrow> 'v lock_state option" where
  "lock_run env allowed [] s = Some s"
| "lock_run env allowed (a # as) s =
     (if \<not> allowed a s then None
      else case lock_step env a s of None \<Rightarrow> None | Some s' \<Rightarrow> lock_run env allowed as s')"

lemma lock_run_reachable:
  assumes "lock_run env allowed as s = Some s'" "lock_reachable env allowed v s"
  shows "lock_reachable env allowed v s'"
  using assms
  by (induction "as" arbitrary: s) (auto split: option.splits if_splits intro: lock_reachable.action)

end
