(* ===== verification/Lock_Invariant.thy ===== *)
theory Lock_Invariant
  imports File_Lock
begin

section \<open>What the lock protocol guarantees\<close>

text \<open>
  The invariant of the lock protocol while the recovery sentinel works as a lock: no
  process dies while it owns the sentinel, and no release of the sentinel fails
  (\<open>orderly\<close>).  Under it a task that holds a lock file finds its own token there, so at
  most one task is inside the lock, and the document is what its updates, one after the
  other, make of the initial one.
\<close>

subsection \<open>What a point says\<close>

text \<open>The token of the lock file a task owns.\<close>

fun recovering_token :: "recovering \<Rightarrow> uuid option" where
  "recovering_token Sentinel = None"
| "recovering_token (Abandoned r) = Some r"

fun owned :: "lock_path \<Rightarrow> 'v lock_pc \<Rightarrow> uuid option" where
  "owned LockPath (Holding t) = Some t"
| "owned LockPath (HoldingValue t v) = Some t"
| "owned RecoveryPath (DeadRead g) = recovering_token g"
| "owned RecoveryPath (DeadCheck g m) = recovering_token g"
| "owned RecoveryPath (DeadReread g m k) = recovering_token g"
| "owned RecoveryPath (DeadUnlink g m k) = recovering_token g"
| "owned p (ReleaseRead p' t ok) = (if p' = p then Some t else None)"
| "owned p (ReleaseUnlink p' t ok) = (if p' = p then Some t else None)"
| "owned p pc = None"

text \<open>The lock file a task has read, has found abandoned, and is about to remove.\<close>

fun seen :: "'v lock_pc \<Rightarrow> (lock_path \<times> lock_metadata) option" where
  "seen (DeadCheck g m) = Some (recovering_path g, m)"
| "seen (DeadReread g m k) = Some (recovering_path g, m)"
| "seen (DeadUnlink g m k) = Some (recovering_path g, m)"
| "seen pc = None"

fun condemned :: "'v lock_pc \<Rightarrow> (lock_path \<times> lock_metadata) option" where
  "condemned (DeadReread g m k) = Some (recovering_path g, m)"
| "condemned (DeadUnlink g m k) = Some (recovering_path g, m)"
| "condemned pc = None"

fun doomed :: "'v lock_pc \<Rightarrow> (lock_path \<times> lock_metadata) option" where
  "doomed (DeadUnlink g m k) = Some (recovering_path g, m)"
| "doomed pc = None"

subsection \<open>The invariant\<close>

definition owner_there :: "'v lock_env \<Rightarrow> 'v lock_state \<Rightarrow> bool" where
  "owner_there env s \<longleftrightarrow>
     (\<forall>p i t. owned p (lf_pc s i) = Some t \<longrightarrow>
        lf_file s p = Some (createLockMetadata env (le_process env i) t) \<and>
        le_process env i \<in> set (lf_alive s))"

definition owner_unique :: "'v lock_state \<Rightarrow> bool" where
  "owner_unique s \<longleftrightarrow>
     (\<forall>p i j t. owned p (lf_pc s i) = Some t \<longrightarrow> owned p (lf_pc s j) = Some t \<longrightarrow> i = j)"

definition tokens_used :: "'v lock_state \<Rightarrow> bool" where
  "tokens_used s \<longleftrightarrow>
     (\<forall>p m. lf_file s p = Some m \<longrightarrow> lm_token m \<in> set (lf_used s)) \<and>
     (\<forall>i p m. seen (lf_pc s i) = Some (p, m) \<longrightarrow> lm_token m \<in> set (lf_used s)) \<and>
     (\<forall>q p t. lf_known s q p = Some t \<longrightarrow> t \<in> set (lf_used s))"

definition seen_same :: "'v lock_state \<Rightarrow> bool" where
  "seen_same s \<longleftrightarrow>
     (\<forall>i p m m'. seen (lf_pc s i) = Some (p, m) \<longrightarrow> lf_file s p = Some m' \<longrightarrow>
        lm_token m' = lm_token m \<longrightarrow> m' = m)"

definition ownerless :: "lock_path \<Rightarrow> uuid \<Rightarrow> 'v lock_state \<Rightarrow> bool" where
  "ownerless p t s \<longleftrightarrow> (\<forall>j. owned p (lf_pc s j) \<noteq> Some t)"

definition condemned_ownerless :: "'v lock_state \<Rightarrow> bool" where
  "condemned_ownerless s \<longleftrightarrow>
     (\<forall>i p m. condemned (lf_pc s i) = Some (p, m) \<longrightarrow> ownerless p (lm_token m) s)"

definition known_ownerless :: "'v lock_state \<Rightarrow> bool" where
  "known_ownerless s \<longleftrightarrow> (\<forall>q p t. lf_known s q p = Some t \<longrightarrow> ownerless p t s)"

definition doomed_there :: "'v lock_state \<Rightarrow> bool" where
  "doomed_there s \<longleftrightarrow>
     (\<forall>i p m. doomed (lf_pc s i) = Some (p, m) \<longrightarrow> p = LockPath \<and> lf_file s p = Some m)"

definition sentinel_owned :: "'v lock_state \<Rightarrow> bool" where
  "sentinel_owned s \<longleftrightarrow>
     (\<forall>m. lf_file s RecoveryPath = Some m \<longrightarrow> (\<exists>i. owned RecoveryPath (lf_pc s i) = Some (lm_token m)))"

definition lock_inv :: "'v lock_env \<Rightarrow> 'v lock_state \<Rightarrow> bool" where
  "lock_inv env s \<longleftrightarrow>
     owner_there env s \<and> owner_unique s \<and> tokens_used s \<and> seen_same s \<and> condemned_ownerless s \<and>
     known_ownerless s \<and> doomed_there s \<and> sentinel_owned s"

lemmas lock_inv_defs = lock_inv_def owner_there_def owner_unique_def tokens_used_def seen_same_def
  condemned_ownerless_def known_ownerless_def doomed_there_def sentinel_owned_def

text \<open>Its parts, as they are used.\<close>

lemma inv_owner:
  assumes "lock_inv env s" "owned p (lf_pc s i) = Some t"
  shows "lf_file s p = Some (createLockMetadata env (le_process env i) t)" "le_process env i \<in> set (lf_alive s)"
  using assms by (simp_all add: lock_inv_def owner_there_def)

lemma inv_unique:
  "lock_inv env s \<Longrightarrow> owned p (lf_pc s i) = Some t \<Longrightarrow> owned p (lf_pc s j) = Some t \<Longrightarrow> i = j"
  by (auto simp: lock_inv_def owner_unique_def)

lemma inv_used:
  assumes "lock_inv env s"
  shows "lf_file s p = Some m \<Longrightarrow> lm_token m \<in> set (lf_used s)"
    and "seen (lf_pc s i) = Some (p, m) \<Longrightarrow> lm_token m \<in> set (lf_used s)"
    and "lf_known s q p = Some t \<Longrightarrow> t \<in> set (lf_used s)"
  using assms unfolding lock_inv_def tokens_used_def by metis+

lemma inv_seen:
  "lock_inv env s \<Longrightarrow> seen (lf_pc s i) = Some (p, m) \<Longrightarrow> lf_file s p = Some m' \<Longrightarrow>
     lm_token m' = lm_token m \<Longrightarrow> m' = m"
  unfolding lock_inv_def seen_same_def by metis

lemma inv_condemned:
  "lock_inv env s \<Longrightarrow> condemned (lf_pc s i) = Some (p, m) \<Longrightarrow> ownerless p (lm_token m) s"
  unfolding lock_inv_def condemned_ownerless_def by metis

lemma inv_known: "lock_inv env s \<Longrightarrow> lf_known s q p = Some t \<Longrightarrow> ownerless p t s"
  unfolding lock_inv_def known_ownerless_def by metis

lemma inv_doomed:
  "lock_inv env s \<Longrightarrow> doomed (lf_pc s i) = Some (p, m) \<Longrightarrow> p = LockPath \<and> lf_file s p = Some m"
  unfolding lock_inv_def doomed_there_def by metis

lemma inv_sentinel:
  "lock_inv env s \<Longrightarrow> lf_file s RecoveryPath = Some m \<Longrightarrow> \<exists>i. owned RecoveryPath (lf_pc s i) = Some (lm_token m)"
  unfolding lock_inv_def sentinel_owned_def by metis

text \<open>What a task owns, it is the only one to own.\<close>

lemma inv_sole_owner:
  assumes "lock_inv env s" "owned p (lf_pc s i) = Some t" "owned p (lf_pc s j) = Some u"
  shows "j = i" "u = t"
proof -
  have "createLockMetadata env (le_process env i) t = createLockMetadata env (le_process env j) u"
    using inv_owner(1) [OF assms(1,2)] inv_owner(1) [OF assms(1,3)] by simp
  then show "u = t" by (simp add: createLockMetadata_def)
  then show "j = i" using inv_unique [OF assms(1,2)] assms(3) by blast
qed

lemma inv_owned_used:
  assumes "lock_inv env s" "owned p (lf_pc s i) = Some t"
  shows "t \<in> set (lf_used s)"
  using inv_used(1) [OF assms(1) inv_owner(1) [OF assms]] by (simp add: createLockMetadata_def)

lemma seen_condemned: "condemned c = Some x \<Longrightarrow> seen c = Some x"
  by (cases c) auto

lemma condemned_doomed: "doomed c = Some x \<Longrightarrow> condemned c = Some x"
  by (cases c) auto

text \<open>Under its sentinel a task works on the lock.\<close>

lemma recovering_lock: "recovering_path g = LockPath \<Longrightarrow> \<exists>r. recovering_token g = Some r"
  by (cases g) auto

lemma lock_seen_owned: "seen c = Some (LockPath, m) \<Longrightarrow> \<exists>r. owned RecoveryPath c = Some r"
  by (cases c) (auto dest: recovering_lock)

subsection \<open>Three kinds of step\<close>

text \<open>A task moves, the files stay.\<close>

lemma quiet_step:
  assumes inv: "lock_inv env s"
    and s': "lf_pc s' = (lf_pc s)(i := c)" "lf_file s' = lf_file s" "lf_alive s' = lf_alive s"
      "set (lf_used s) \<subseteq> set (lf_used s')"
    and owned: "\<And>p t. owned p c = Some t \<Longrightarrow> owned p (lf_pc s i) = Some t"
    and kept: "owned RecoveryPath c = owned RecoveryPath (lf_pc s i)"
    and seen: "\<And>p m. seen c = Some (p, m) \<Longrightarrow> seen (lf_pc s i) = Some (p, m) \<or> lf_file s p = Some m"
    and condemned: "\<And>p m. condemned c = Some (p, m) \<Longrightarrow>
      condemned (lf_pc s i) = Some (p, m) \<or> ownerless p (lm_token m) s"
    and doomed: "\<And>p m. doomed c = Some (p, m) \<Longrightarrow> p = LockPath \<and> lf_file s p = Some m"
    and known: "\<And>q p t. lf_known s' q p = Some t \<Longrightarrow>
      lf_known s q p = Some t \<or> (owned p (lf_pc s i) = Some t \<and> owned p c \<noteq> Some t)"
  shows "lock_inv env s'"
proof -
  have own: "owned p (lf_pc s' j) = Some t \<Longrightarrow> owned p (lf_pc s j) = Some t" for p j t
    using owned by (auto simp: s' split: if_splits)
  have less: "ownerless p t s \<Longrightarrow> ownerless p t s'" for p t
    using own unfolding ownerless_def by metis
  have sn: "seen (lf_pc s' j) = Some (p, m) \<Longrightarrow> seen (lf_pc s j) = Some (p, m) \<or> lf_file s p = Some m" for j p m
    using seen by (auto simp: s' split: if_splits)
  have "owner_there env s'"
    unfolding owner_there_def s' using own inv_owner [OF inv] by (metis s'(1))
  moreover have "owner_unique s'"
    unfolding owner_unique_def using own inv_unique [OF inv] by metis
  moreover have "tokens_used s'"
  proof -
    have "lm_token m \<in> set (lf_used s')" if "seen (lf_pc s' j) = Some (p, m)" for j p m
      using sn [OF that] inv_used(1,2) [OF inv] s'(4) by blast
    moreover have "t \<in> set (lf_used s')" if "lf_known s' q p = Some t" for q p t
      using known [OF that] inv_used(3) [OF inv] inv_owned_used [OF inv] s'(4) by blast
    ultimately show ?thesis
      unfolding tokens_used_def s'(2) using inv_used(1) [OF inv] s'(4) by blast
  qed
  moreover have "seen_same s'"
    unfolding seen_same_def s'(2) using sn inv_seen [OF inv] by (metis option.inject)
  moreover have "condemned_ownerless s'"
  proof -
    have "ownerless p (lm_token m) s" if "condemned (lf_pc s' j) = Some (p, m)" for j p m
    proof (cases "j = i")
      case True
      then show ?thesis
        using that condemned [of p m] inv_condemned [OF inv, of i p m] by (simp add: s'(1)) blast
    next
      case False
      then show ?thesis using that inv_condemned [OF inv, of j p m] by (simp add: s'(1))
    qed
    then show ?thesis unfolding condemned_ownerless_def using less by blast
  qed
  moreover have "known_ownerless s'"
  proof -
    have "ownerless p t s'" if k: "lf_known s' q p = Some t" for q p t
      using known [OF k]
    proof
      assume o: "owned p (lf_pc s i) = Some t \<and> owned p c \<noteq> Some t"
      have "owned p (lf_pc s' j) \<noteq> Some t" for j
      proof (cases "j = i")
        case False
        then show ?thesis using o inv_unique [OF inv, of p i t j] by (simp add: s'(1)) blast
      qed (use o in \<open>simp add: s'(1)\<close>)
      then show ?thesis by (simp add: ownerless_def)
    next
      assume "lf_known s q p = Some t"
      from less [OF inv_known [OF inv this]] show ?thesis .
    qed
    then show ?thesis unfolding known_ownerless_def by blast
  qed
  moreover have "doomed_there s'"
  proof -
    have "p = LockPath \<and> lf_file s p = Some m" if "doomed (lf_pc s' j) = Some (p, m)" for j p m
    proof (cases "j = i")
      case True
      then have "doomed c = Some (p, m)" using that by (simp add: s'(1))
      from doomed [OF this] show ?thesis .
    next
      case False
      then have "doomed (lf_pc s j) = Some (p, m)" using that by (simp add: s'(1))
      from inv_doomed [OF inv this] show ?thesis .
    qed
    then show ?thesis unfolding doomed_there_def s'(2) by blast
  qed
  moreover have "sentinel_owned s'"
  proof -
    have "owned RecoveryPath (lf_pc s' j) = owned RecoveryPath (lf_pc s j)" for j
      using kept by (simp add: s'(1))
    then show ?thesis unfolding sentinel_owned_def s'(2) using inv_sentinel [OF inv] by simp
  qed
  ultimately show ?thesis by (simp add: lock_inv_def)
qed

text \<open>A task creates a lock file with a fresh token.\<close>

lemma create_step:
  assumes inv: "lock_inv env s"
    and s': "lf_pc s' = (lf_pc s)(i := c)" "lf_alive s' = lf_alive s"
      "lf_file s' = (lf_file s)(p := Some (createLockMetadata env (le_process env i) t))"
      "set (lf_used s') = insert t (set (lf_used s))"
    and fresh: "t \<notin> set (lf_used s)" and free: "lf_file s p = None"
    and run: "le_process env i \<in> set (lf_alive s)"
    and c: "owned p c = Some t" "\<And>p'. p' \<noteq> p \<Longrightarrow> owned p' c = owned p' (lf_pc s i)" "seen c = None"
    and known: "\<And>q p t. lf_known s' q p = Some t \<Longrightarrow> lf_known s q p = Some t"
  shows "lock_inv env s'"
proof -
  have none: "owned p (lf_pc s j) = None" for j
    using inv_owner(1) [OF inv, of p j] free by (cases "owned p (lf_pc s j)") auto
  have own: "owned p' (lf_pc s' j) = (if p' = p \<and> j = i then Some t else owned p' (lf_pc s j))" for p' j
    using c none by (auto simp: s'(1))
  have sn: "seen (lf_pc s' j) = Some x \<Longrightarrow> seen (lf_pc s j) = Some x" for j x
    using c(3) by (auto simp: s'(1) split: if_splits)
  have cn: "condemned (lf_pc s' j) = Some x \<Longrightarrow> condemned (lf_pc s j) = Some x" for j x
    using c(3) seen_condemned [of c] by (auto simp: s'(1) split: if_splits)
  have dm: "doomed (lf_pc s' j) = Some x \<Longrightarrow> doomed (lf_pc s j) = Some x" for j x
    using c(3) seen_condemned [of c] condemned_doomed [of c] by (auto simp: s'(1) split: if_splits)
  have less: "ownerless p' u s'" if "ownerless p' u s" "u \<in> set (lf_used s)" for p' u
    using that fresh own by (auto simp: ownerless_def)
  have "owner_there env s'"
    unfolding owner_there_def s'(2,3) own using inv_owner [OF inv] none run by auto
  moreover have "owner_unique s'"
    unfolding owner_unique_def own using inv_unique [OF inv] none by (auto split: if_splits)
  moreover have "tokens_used s'"
    unfolding tokens_used_def s'(3,4)
    using inv_used [OF inv] sn known by (auto simp: createLockMetadata_def split: if_splits) metis+
  moreover have "seen_same s'"
  proof -
    have "m' = m" if m: "seen (lf_pc s' j) = Some (p', m)" "lf_file s' p' = Some m'" "lm_token m' = lm_token m"
      for j p' m m'
    proof -
      have "lm_token m \<in> set (lf_used s)" using inv_used(2) [OF inv sn [OF m(1)]] .
      then have "lf_file s p' = Some m'"
        using m(2,3) fresh by (auto simp: s'(3) createLockMetadata_def split: if_splits)
      then show ?thesis using inv_seen [OF inv sn [OF m(1)]] m(3) by blast
    qed
    then show ?thesis unfolding seen_same_def by blast
  qed
  moreover have "condemned_ownerless s'"
    unfolding condemned_ownerless_def
    using cn less inv_condemned [OF inv] inv_used(2) [OF inv] seen_condemned by metis
  moreover have "known_ownerless s'"
    unfolding known_ownerless_def using known less inv_known [OF inv] inv_used(3) [OF inv] by metis
  moreover have "doomed_there s'"
  proof -
    have "p' = LockPath \<and> lf_file s' p' = Some m" if "doomed (lf_pc s' j) = Some (p', m)" for j p' m
      using inv_doomed [OF inv dm [OF that]] free by (auto simp: s'(3))
    then show ?thesis unfolding doomed_there_def by blast
  qed
  moreover have "sentinel_owned s'"
  proof -
    have "\<exists>j. owned RecoveryPath (lf_pc s' j) = Some (lm_token m)" if "lf_file s' RecoveryPath = Some m" for m
    proof (cases "p = RecoveryPath")
      case True
      then have "lm_token m = t" using that by (auto simp: s'(3) createLockMetadata_def)
      then show ?thesis using own [of RecoveryPath i] True by auto
    next
      case False
      then have "lf_file s RecoveryPath = Some m" using that by (simp add: s'(3))
      from inv_sentinel [OF inv this] show ?thesis using own False by auto
    qed
    then show ?thesis unfolding sentinel_owned_def by blast
  qed
  ultimately show ?thesis by (simp add: lock_inv_def)
qed

text \<open>A task removes a lock file that nobody else owns.\<close>

lemma remove_step:
  assumes inv: "lock_inv env s"
    and s': "lf_pc s' = (lf_pc s)(i := c)" "lf_alive s' = lf_alive s" "lf_file s' = (lf_file s)(p := None)"
      "set (lf_used s) \<subseteq> set (lf_used s')"
    and sole: "\<And>j. j \<noteq> i \<Longrightarrow> owned p (lf_pc s j) = None"
    and not_doomed: "\<And>j m. j \<noteq> i \<Longrightarrow> doomed (lf_pc s j) \<noteq> Some (p, m)"
    and c: "owned p c = None" "\<And>p'. p' \<noteq> p \<Longrightarrow> owned p' c = owned p' (lf_pc s i)" "seen c = None"
    and known: "\<And>q p t. lf_known s' q p = Some t \<Longrightarrow> lf_known s q p = Some t"
  shows "lock_inv env s'"
proof -
  have own: "owned p' (lf_pc s' j) = (if p' = p then None else owned p' (lf_pc s j))" for p' j
    using c sole by (cases "j = i") (auto simp: s'(1))
  have sn: "seen (lf_pc s' j) = Some x \<Longrightarrow> seen (lf_pc s j) = Some x" for j x
    using c(3) by (auto simp: s'(1) split: if_splits)
  have cn: "condemned (lf_pc s' j) = Some x \<Longrightarrow> condemned (lf_pc s j) = Some x" for j x
    using c(3) seen_condemned [of c] by (auto simp: s'(1) split: if_splits)
  have dm: "doomed (lf_pc s' j) = Some x \<Longrightarrow> doomed (lf_pc s j) = Some x \<and> j \<noteq> i" for j x
    using c(3) seen_condemned [of c] condemned_doomed [of c] by (auto simp: s'(1) split: if_splits)
  have less: "ownerless p' u s \<Longrightarrow> ownerless p' u s'" for p' u
    using own by (auto simp: ownerless_def)
  have "owner_there env s'"
    unfolding owner_there_def s'(2,3) own using inv_owner [OF inv] by auto
  moreover have "owner_unique s'"
    unfolding owner_unique_def own using inv_unique [OF inv] by (auto split: if_splits)
  moreover have "tokens_used s'"
  proof -
    have "lm_token m \<in> set (lf_used s')" if "seen (lf_pc s' j) = Some (p', m)" for j p' m
      using inv_used(2) [OF inv sn [OF that]] s'(4) by blast
    moreover have "u \<in> set (lf_used s')" if "lf_known s' q p' = Some u" for q p' u
      using inv_used(3) [OF inv known [OF that]] s'(4) by blast
    ultimately show ?thesis
      unfolding tokens_used_def s'(3) using inv_used(1) [OF inv] s'(4) by (auto split: if_splits)
  qed
  moreover have "seen_same s'"
    unfolding seen_same_def s'(3) using sn inv_seen [OF inv] by (metis fun_upd_apply option.distinct(1))
  moreover have "condemned_ownerless s'"
    unfolding condemned_ownerless_def using cn less inv_condemned [OF inv] by metis
  moreover have "known_ownerless s'"
    unfolding known_ownerless_def using known less inv_known [OF inv] by metis
  moreover have "doomed_there s'"
  proof -
    have "p' = LockPath \<and> lf_file s' p' = Some m" if d: "doomed (lf_pc s' j) = Some (p', m)" for j p' m
    proof -
      have "doomed (lf_pc s j) = Some (p', m)" "j \<noteq> i" using dm [OF d] by simp_all
      then have "p' \<noteq> p" using not_doomed by blast
      then show ?thesis using inv_doomed [OF inv \<open>doomed (lf_pc s j) = Some (p', m)\<close>] by (auto simp: s'(3))
    qed
    then show ?thesis unfolding doomed_there_def by blast
  qed
  moreover have "sentinel_owned s'"
    unfolding sentinel_owned_def own s'(3) using inv_sentinel [OF inv] by auto
  ultimately show ?thesis by (simp add: lock_inv_def)
qed

subsection \<open>Every action keeps the invariant\<close>

text \<open>
  No process dies while it owns the sentinel, and no operation of the release of the
  sentinel fails.
\<close>

definition orderly :: "'v lock_env \<Rightarrow> lock_action \<Rightarrow> 'v lock_state \<Rightarrow> bool" where
  "orderly env a s =
     (case a of
        Run i token fault late \<Rightarrow>
          (case lf_pc s i of
             ReleaseRead p t ok \<Rightarrow> p = RecoveryPath \<longrightarrow> \<not> fault
           | ReleaseUnlink p t ok \<Rightarrow> p = RecoveryPath \<longrightarrow> \<not> fault
           | _ \<Rightarrow> True)
      | Start q \<Rightarrow> True
      | Die q \<Rightarrow>
          (case lf_file s RecoveryPath of
             None \<Rightarrow> True
           | Some m \<Rightarrow> \<not> (lm_pid m = le_pid env q \<and> lm_hostname m = le_host env q)))"

lemma go_sel [simp]:
  "lf_pc (go i c s) = (lf_pc s)(i := c)" "lf_file (go i c s) = lf_file s" "lf_alive (go i c s) = lf_alive s"
  "lf_used (go i c s) = lf_used s" "lf_known (go i c s) = lf_known s" "lf_data (go i c s) = lf_data s"
  "lf_log (go i c s) = lf_log s"
  by (simp_all add: go_def)

lemma put_sel [simp]:
  "lf_pc (put_file p m s) = lf_pc s" "lf_file (put_file p m s) = (lf_file s)(p := m)"
  "lf_alive (put_file p m s) = lf_alive s" "lf_used (put_file p m s) = lf_used s"
  "lf_known (put_file p m s) = lf_known s" "lf_data (put_file p m s) = lf_data s"
  "lf_log (put_file p m s) = lf_log s"
  "lf_pc (put_known q p t s) = lf_pc s" "lf_file (put_known q p t s) = lf_file s"
  "lf_alive (put_known q p t s) = lf_alive s" "lf_used (put_known q p t s) = lf_used s"
  "lf_data (put_known q p t s) = lf_data s" "lf_log (put_known q p t s) = lf_log s"
  "lf_known (put_known q p t s) = (lf_known s)(q := (lf_known s q)(p := t))"
  "lf_pc (forget k q p s) = lf_pc s" "lf_file (forget k q p s) = lf_file s"
  "lf_alive (forget k q p s) = lf_alive s" "lf_used (forget k q p s) = lf_used s"
  "lf_data (forget k q p s) = lf_data s" "lf_log (forget k q p s) = lf_log s"
  by (simp_all add: put_file_def put_known_def forget_def)

lemma forget_known: "lf_known (forget k q p s) q' p' = Some t \<Longrightarrow> lf_known s q' p' = Some t"
  by (auto simp: forget_def split: if_splits)

lemma owned_recovered [simp]:
  "owned RecoveryPath (recovered g) = recovering_token g" "owned LockPath (recovered g) = None"
  "owned RecoveryPath (recovery_threw g) = recovering_token g" "owned LockPath (recovery_threw g) = None"
  "seen (recovered g) = None" "seen (recovery_threw g) = None"
  "condemned (recovered g) = None" "condemned (recovery_threw g) = None"
  "doomed (recovered g) = None" "doomed (recovery_threw g) = None"
  by (cases g; simp)+

lemma owned_released [simp]:
  "owned p (released p' ok) = None" "seen (released p' ok) = None" "condemned (released p' ok) = None"
  "doomed (released p' ok) = None"
  by (cases p'; cases p; cases ok; simp)+

text \<open>A task that only moves, with what it owned of the lock or less.\<close>

lemma moves:
  assumes inv: "lock_inv env s"
    and s': "lf_pc s' = (lf_pc s)(i := c)" "lf_file s' = lf_file s" "lf_alive s' = lf_alive s"
      "set (lf_used s) \<subseteq> set (lf_used s')"
    and lock: "owned LockPath c = None \<or> owned LockPath c = owned LockPath (lf_pc s i)"
    and sentinel: "owned RecoveryPath c = owned RecoveryPath (lf_pc s i)"
    and seen: "\<And>p m. seen c = Some (p, m) \<Longrightarrow> seen (lf_pc s i) = Some (p, m) \<or> lf_file s p = Some m"
    and condemned: "\<And>p m. condemned c = Some (p, m) \<Longrightarrow>
      condemned (lf_pc s i) = Some (p, m) \<or> ownerless p (lm_token m) s"
    and doomed: "\<And>p m. doomed c = Some (p, m) \<Longrightarrow> p = LockPath \<and> lf_file s p = Some m"
    and known: "\<And>q p t. lf_known s' q p = Some t \<Longrightarrow> lf_known s q p = Some t \<or>
      (p = LockPath \<and> owned LockPath (lf_pc s i) = Some t \<and> owned LockPath c = None)"
  shows "lock_inv env s'"
proof (rule quiet_step [OF inv s' _ sentinel seen condemned doomed])
  show "owned p (lf_pc s i) = Some t" if "owned p c = Some t" for p t
    using that lock sentinel by (cases p) auto
  show "lf_known s q p = Some t \<or> (owned p (lf_pc s i) = Some t \<and> owned p c \<noteq> Some t)"
    if "lf_known s' q p = Some t" for q p t
    using known [OF that] by auto
qed

definition draw :: "uuid \<Rightarrow> 'v lock_state \<Rightarrow> 'v lock_state" where
  "draw token s = s\<lparr>lf_used := token # lf_used s\<rparr>"

lemma draw_sel [simp]:
  "lf_pc (draw u s) = lf_pc s" "lf_file (draw u s) = lf_file s" "lf_alive (draw u s) = lf_alive s"
  "lf_used (draw u s) = u # lf_used s" "lf_known (draw u s) = lf_known s" "lf_data (draw u s) = lf_data s"
  "lf_log (draw u s) = lf_log s"
  by (simp_all add: draw_def)

lemma create_lock_inv:
  assumes "lock_inv env s" "lf_pc s i = CreateLock" "le_process env i \<in> set (lf_alive s)" "u \<notin> set (lf_used s)"
  shows "lock_inv env (createLockFile env i LockPath u fault (Holding u) CreateSentinel (draw u s))"
proof (cases "fault \<or> lf_file s LockPath \<noteq> None")
  case True
  then have eq: "createLockFile env i LockPath u fault (Holding u) CreateSentinel (draw u s) =
      go i (if fault then Threw else CreateSentinel) (draw u s)"
    by (auto simp: createLockFile_def)
  show ?thesis
    unfolding eq
    by (rule moves [OF assms(1), of _ i "if fault then Threw else CreateSentinel"])
       (auto simp: assms(2) split: if_splits)
next
  case False
  then have eq: "createLockFile env i LockPath u fault (Holding u) CreateSentinel (draw u s) =
      go i (Holding u) (put_known (le_process env i) LockPath None
        (put_file LockPath (Some (createLockMetadata env (le_process env i) u)) (draw u s)))"
    by (simp add: createLockFile_def Let_def)
  have other: "owned p' (Holding u :: 'a lock_pc) = owned p' (lf_pc s i)" if "p' \<noteq> LockPath" for p'
    using that assms(2) by (cases p') auto
  show ?thesis
    unfolding eq
    by (rule create_step [OF assms(1), of _ i "Holding u" LockPath u])
       (use False assms(3,4) other in \<open>auto split: if_splits\<close>)
qed

lemma create_sentinel_inv:
  assumes "lock_inv env s" "lf_pc s i = CreateSentinel" "le_process env i \<in> set (lf_alive s)" "u \<notin> set (lf_used s)"
  shows "lock_inv env (createLockFile env i RecoveryPath u fault (DeadRead (Abandoned u)) (DeadRead Sentinel) (draw u s))"
proof (cases "fault \<or> lf_file s RecoveryPath \<noteq> None")
  case True
  then have eq: "createLockFile env i RecoveryPath u fault (DeadRead (Abandoned u)) (DeadRead Sentinel) (draw u s) =
      go i (if fault then Threw else DeadRead Sentinel) (draw u s)"
    by (auto simp: createLockFile_def)
  show ?thesis
    unfolding eq
    by (rule moves [OF assms(1), of _ i "if fault then Threw else DeadRead Sentinel"])
       (auto simp: assms(2) split: if_splits)
next
  case False
  then have eq: "createLockFile env i RecoveryPath u fault (DeadRead (Abandoned u)) (DeadRead Sentinel) (draw u s) =
      go i (DeadRead (Abandoned u)) (put_known (le_process env i) RecoveryPath None
        (put_file RecoveryPath (Some (createLockMetadata env (le_process env i) u)) (draw u s)))"
    by (simp add: createLockFile_def Let_def)
  have other: "owned p' (DeadRead (Abandoned u) :: 'a lock_pc) = owned p' (lf_pc s i)" if "p' \<noteq> RecoveryPath" for p'
    using that assms(2) by (cases p') auto
  show ?thesis
    unfolding eq
    by (rule create_step [OF assms(1), of _ i "DeadRead (Abandoned u)" RecoveryPath u])
       (use False assms(3,4) other in \<open>auto split: if_splits\<close>)
qed

lemma dead_read_inv:
  fixes s :: "'v lock_state"
  assumes "lock_inv env s" "lf_pc s i = DeadRead g"
  shows "lock_inv env (deadRead i g fault (draw u s))"
proof -
  define c :: "'v lock_pc" where "c = (if fault then recovery_threw g else case lf_file s (recovering_path g) of
      None \<Rightarrow> recovered g | Some m \<Rightarrow> DeadCheck g m)"
  have eq: "deadRead i g fault (draw u s) = go i c (draw u s)"
    by (simp add: deadRead_def c_def split: option.splits)
  show ?thesis
    unfolding eq
    by (rule moves [OF assms(1), of _ i c]) (auto simp: assms(2) c_def split: if_splits option.splits)
qed

text \<open>A lock file that a task finds abandoned has no owner.\<close>

lemma dead_owner:
  assumes "lock_inv env s" "seen (lf_pc s i) = Some (p, m)" "lm_hostname m = host"
    and "lf_known s q p = Some (lm_token m) \<or> \<not> isProcessAlive env s host (lm_pid m)"
  shows "ownerless p (lm_token m) s"
  using assms(4)
proof
  assume dead: "\<not> isProcessAlive env s host (lm_pid m)"
  have False if "owned p (lf_pc s j) = Some (lm_token m)" for j
  proof -
    have m: "createLockMetadata env (le_process env j) (lm_token m) = m"
      using inv_seen [OF assms(1,2) inv_owner(1) [OF assms(1) that]] by (simp add: createLockMetadata_def)
    have "le_host env (le_process env j) = host" "le_pid env (le_process env j) = lm_pid m"
      using arg_cong [OF m, of lm_hostname] arg_cong [OF m, of lm_pid] assms(3)
      by (simp_all add: createLockMetadata_def)
    then show False
      using dead inv_owner(2) [OF assms(1) that] by (auto simp: isProcessAlive_def list_ex_iff)
  qed
  then show ?thesis by (auto simp: ownerless_def)
qed (use inv_known [OF assms(1)] in blast)

lemma dead_check_inv:
  fixes s :: "'v lock_state"
  assumes "lock_inv env s" "lf_pc s i = DeadCheck g m"
  shows "lock_inv env (deadCheck env i g m (draw u s))"
proof -
  let ?q = "le_process env i" and ?p = "recovering_path g"
  define known where "known \<longleftrightarrow> lf_known s ?q ?p = Some (lm_token m)"
  define dead where "dead \<longleftrightarrow> lm_hostname m = le_host env ?q \<and>
    (known \<or> \<not> isProcessAlive env s (le_host env ?q) (lm_pid m))"
  define c :: "'v lock_pc" where "c = (if dead then DeadReread g m known else recovered g)"
  have "isProcessAlive env (draw u s) = isProcessAlive env s" by (intro ext) (simp add: isProcessAlive_def)
  then have eq: "deadCheck env i g m (draw u s) = go i c (draw u s)"
    by (simp add: deadCheck_def c_def known_def dead_def Let_def)
  have gone: "ownerless ?p (lm_token m) s" if dead
  proof (rule dead_owner [OF assms(1), of i _ _ "le_host env ?q" ?q])
    show "seen (lf_pc s i) = Some (?p, m)" by (simp add: assms(2))
  qed (use that in \<open>auto simp: dead_def known_def\<close>)
  show ?thesis
    unfolding eq
    by (rule moves [OF assms(1), of _ i c]) (use gone in \<open>auto simp: assms(2) c_def split: if_splits\<close>)
qed

lemma dead_reread_inv:
  fixes s :: "'v lock_state"
  assumes "lock_inv env s" "lf_pc s i = DeadReread g m known"
  shows "lock_inv env (deadReread env i g m known fault (draw u s))"
proof -
  let ?p = "recovering_path g"
  have gone: "ownerless ?p (lm_token m) s"
    by (rule inv_condemned [OF assms(1), of i]) (simp add: assms(2))
  show ?thesis
  proof (cases "\<not> fault \<and> (\<exists>m'. lf_file s ?p = Some m' \<and> lm_token m' = lm_token m)")
    case True
    then obtain m' where m': "lf_file s ?p = Some m'" "lm_token m' = lm_token m" "\<not> fault" by blast
    have same: "lf_file s ?p = Some m"
      using inv_seen [OF assms(1), of i ?p m m'] m' by (simp add: assms(2))
    have lock: "?p = LockPath"
    proof (rule ccontr)
      assume "?p \<noteq> LockPath"
      then have r: "?p = RecoveryPath" by (cases g) auto
      obtain j where "owned RecoveryPath (lf_pc s j) = Some (lm_token m)"
        using inv_sentinel [OF assms(1)] same r by metis
      then show False using gone r by (simp add: ownerless_def)
    qed
    have eq: "deadReread env i g m known fault (draw u s) = go i (DeadUnlink g m known) (draw u s)"
      using m' by (simp add: deadReread_def Let_def)
    show ?thesis
      unfolding eq
      by (rule moves [OF assms(1), of _ i "DeadUnlink g m known"]) (use lock same in \<open>auto simp: assms(2)\<close>)
  next
    case False
    then obtain k and c :: "'v lock_pc" where
      eq: "deadReread env i g m known fault (draw u s) = go i c (forget k (le_process env i) ?p (draw u s))"
      and c: "c \<in> {recovered g, recovery_threw g}"
      by (cases fault; cases "lf_file s ?p")
         (auto simp: deadReread_def Let_def forget_def split: if_splits intro: that [of _ False] that [of _ known])
    show ?thesis
      unfolding eq
      by (rule moves [OF assms(1), of _ i c]) (use c in \<open>auto simp: assms(2) dest: forget_known\<close>)
  qed
qed

lemma dead_unlink_inv:
  fixes s :: "'v lock_state"
  assumes "lock_inv env s" "lf_pc s i = DeadUnlink g m known"
  shows "lock_inv env (deadUnlink env i g known fault (draw u s))"
proof -
  have d: "recovering_path g = LockPath \<and> lf_file s (recovering_path g) = Some m"
    by (rule inv_doomed [OF assms(1), of i]) (simp add: assms(2))
  show ?thesis
  proof (cases fault)
    case True
    then have eq: "deadUnlink env i g known fault (draw u s) = go i (recovery_threw g) (draw u s)"
      by (simp add: deadUnlink_def Let_def)
    show ?thesis
      unfolding eq by (rule moves [OF assms(1), of _ i "recovery_threw g"]) (auto simp: assms(2))
  next
    case False
    obtain r where g: "g = Abandoned r" using d by (cases g) auto
    have mine: "owned RecoveryPath (lf_pc s i) = Some r" by (simp add: assms(2) g)
    have sole: "owned LockPath (lf_pc s j) = None" for j
    proof (cases "owned LockPath (lf_pc s j)")
      case (Some t)
      then have "t = lm_token m"
        using inv_owner(1) [OF assms(1) Some] d by (auto simp: createLockMetadata_def)
      moreover have "ownerless LockPath (lm_token m) s"
        by (rule inv_condemned [OF assms(1), of i]) (simp add: assms(2) g)
      ultimately show ?thesis using Some by (auto simp: ownerless_def)
    qed simp
    have other: "doomed (lf_pc s j) \<noteq> Some (LockPath, m')" if "j \<noteq> i" for j m'
    proof
      assume "doomed (lf_pc s j) = Some (LockPath, m')"
      then obtain r' where "owned RecoveryPath (lf_pc s j) = Some r'"
        using lock_seen_owned seen_condemned condemned_doomed by metis
      then show False using inv_sole_owner(1) [OF assms(1) mine] that by blast
    qed
    have rest: "owned p' (recovered g :: 'v lock_pc) = owned p' (lf_pc s i)" if "p' \<noteq> LockPath" for p'
      using that by (cases p') (auto simp: assms(2))
    have eq: "deadUnlink env i g known fault (draw u s) =
        go i (recovered g) (forget known (le_process env i) LockPath (put_file LockPath None (draw u s)))"
      using False d by (simp add: deadUnlink_def Let_def)
    show ?thesis
      unfolding eq
      by (rule remove_step [OF assms(1), of _ i "recovered g" LockPath])
         (use sole other rest in \<open>auto dest: forget_known\<close>)
  qed
qed

text \<open>Releasing: a task that is at it owns the file.\<close>

lemma fail_release_inv:
  fixes s :: "'v lock_state"
  assumes "lock_inv env s" "lf_pc s i = c" "owned LockPath c = Some t" "owned RecoveryPath c = None"
  shows "lock_inv env (fail_release env i LockPath t (draw u s))"
  unfolding fail_release_def
  by (rule moves [OF assms(1), of _ i Threw]) (auto simp: assms(2-4) split: if_splits)

lemma release_read_inv:
  fixes s :: "'v lock_state"
  assumes "lock_inv env s" "lf_pc s i = ReleaseRead p t ok" "p = RecoveryPath \<longrightarrow> \<not> fault"
  shows "lock_inv env (releaseRead env i p t ok fault (draw u s))"
proof (cases fault)
  case True
  then have p: "p = LockPath" using assms(3) by (cases p) auto
  show ?thesis
    using fail_release_inv [OF assms(1), of i "ReleaseRead LockPath t ok" t u] True p assms(2)
    by (simp add: releaseRead_def)
next
  case False
  have "owned p (lf_pc s i) = Some t" by (cases p) (simp_all add: assms(2))
  then have here: "lf_file s p = Some (createLockMetadata env (le_process env i) t)"
    by (rule inv_owner(1) [OF assms(1)])
  have eq: "releaseRead env i p t ok fault (draw u s) = go i (ReleaseUnlink p t ok) (draw u s)"
    using False here by (simp add: releaseRead_def createLockMetadata_def)
  show ?thesis
    unfolding eq
    by (rule moves [OF assms(1), of _ i "ReleaseUnlink p t ok"]) (auto simp: assms(2))
qed

lemma release_unlink_inv:
  fixes s :: "'v lock_state"
  assumes "lock_inv env s" "lf_pc s i = ReleaseUnlink p t ok" "p = RecoveryPath \<longrightarrow> \<not> fault"
  shows "lock_inv env (releaseUnlink env i p t ok fault (draw u s))"
proof (cases fault)
  case True
  then have p: "p = LockPath" using assms(3) by (cases p) auto
  show ?thesis
    using fail_release_inv [OF assms(1), of i "ReleaseUnlink LockPath t ok" t u] True p assms(2)
    by (simp add: releaseUnlink_def)
next
  case False
  have mine: "owned p (lf_pc s i) = Some t" by (cases p) (simp_all add: assms(2))
  have here: "lf_file s p = Some (createLockMetadata env (le_process env i) t)"
    by (rule inv_owner(1) [OF assms(1) mine])
  have sole: "owned p (lf_pc s j) = None" if "j \<noteq> i" for j
    using inv_sole_owner(1) [OF assms(1) mine, of j] that by (cases "owned p (lf_pc s j)") auto
  have other: "doomed (lf_pc s j) \<noteq> Some (p, m)" if "j \<noteq> i" for j m
  proof
    assume d: "doomed (lf_pc s j) = Some (p, m)"
    then have "lm_token m = t"
      using inv_doomed [OF assms(1) d] here by (auto simp: createLockMetadata_def)
    then show False
      using inv_condemned [OF assms(1) condemned_doomed [OF d]] mine by (auto simp: ownerless_def)
  qed
  have rest: "owned p' (released p ok :: 'v lock_pc) = owned p' (lf_pc s i)" if "p' \<noteq> p" for p'
    using that by (cases p'; cases p) (auto simp: assms(2))
  have eq: "releaseUnlink env i p t ok fault (draw u s) = go i (released p ok)
      (forget (lf_known s (le_process env i) p = Some t) (le_process env i) p (put_file p None (draw u s)))"
    using False by (simp add: releaseUnlink_def finish_release_def Let_def)
  show ?thesis
    unfolding eq
    by (rule remove_step [OF assms(1), of _ i "released p ok" p])
       (use sole other rest in \<open>auto dest: forget_known\<close>)
qed

lemma inside_inv:
  fixes s :: "'v lock_state"
  assumes "lock_inv env s" "lf_pc s i = HoldingValue t v"
  shows "lock_inv env (task_step env i u fault late (HoldingValue t v) (draw u s))"
proof (cases "if fault then None else le_update env i v")
  case None
  then show ?thesis
    by simp (rule moves [OF assms(1), of _ i "ReleaseRead LockPath t False"], auto simp: assms(2))
next
  case (Some w)
  then show ?thesis
    by simp (rule moves [OF assms(1), of _ i "ReleaseRead LockPath t True"], auto simp: assms(2))
qed

lemma run_inv:
  fixes s :: "'v lock_state"
  assumes inv: "lock_inv env s" and run: "le_process env i \<in> set (lf_alive s)" and fresh: "u \<notin> set (lf_used s)"
    and ord: "orderly env (Run i u fault late) s"
  shows "lock_inv env (task_step env i u fault late (lf_pc s i) (draw u s))"
proof (cases "lf_pc s i")
  case Entering
  show ?thesis
    unfolding Entering task_step.simps
    by (rule moves [OF inv, of _ i "if fault then Threw else CreateLock"]) (auto simp: Entering split: if_splits)
next
  case CheckDeadline
  show ?thesis
    unfolding CheckDeadline task_step.simps
    by (rule moves [OF inv, of _ i "if late then TimedOut else CreateLock"]) (auto simp: CheckDeadline split: if_splits)
next
  case (Holding t)
  show ?thesis
    unfolding Holding task_step.simps
    by (rule moves [OF inv, of _ i "if fault then ReleaseRead LockPath t False
          else HoldingValue t (lf_data (draw u s))"]) (auto simp: Holding split: if_splits)
next
  case (HoldingValue t v)
  then show ?thesis using inside_inv [OF inv HoldingValue] by (simp only:)
next
  case CreateLock
  then show ?thesis using create_lock_inv [OF inv CreateLock run fresh] by simp
next
  case CreateSentinel
  then show ?thesis using create_sentinel_inv [OF inv CreateSentinel run fresh] by simp
next
  case (DeadRead g)
  then show ?thesis using dead_read_inv [OF inv DeadRead] by simp
next
  case (DeadCheck g m)
  then show ?thesis using dead_check_inv [OF inv DeadCheck] by simp
next
  case (DeadReread g m k)
  then show ?thesis using dead_reread_inv [OF inv DeadReread] by simp
next
  case (DeadUnlink g m k)
  then show ?thesis using dead_unlink_inv [OF inv DeadUnlink] by simp
next
  case (ReleaseRead p t ok)
  then show ?thesis using release_read_inv [OF inv ReleaseRead] ord by (simp add: orderly_def)
next
  case (ReleaseUnlink p t ok)
  then show ?thesis using release_unlink_inv [OF inv ReleaseUnlink] ord by (simp add: orderly_def)
qed (simp_all; rule moves [OF inv, of _ i "lf_pc s i"]; auto intro!: ext)+

lemma start_inv:
  assumes "lock_inv env s"
  shows "lock_inv env (s\<lparr>lf_alive := q # lf_alive s, lf_started := q # lf_started s\<rparr>)"
  using assms
  by (auto simp: lock_inv_def owner_there_def owner_unique_def tokens_used_def seen_same_def
      condemned_ownerless_def known_ownerless_def doomed_there_def sentinel_owned_def ownerless_def)

lemma owned_terminal: "c \<in> {Returned, TimedOut, Threw} \<Longrightarrow> owned p c = None"
  by (cases p) auto

lemma kill_inv:
  assumes inv: "lock_inv env s" and ord: "orderly env (Die q) s"
  shows "lock_inv env (kill env q s)"
proof -
  let ?s = "kill env q s"
  have rest: "lf_file ?s = lf_file s" "lf_used ?s = lf_used s" "lf_known ?s = lf_known s"
      "lf_alive ?s = removeAll q (lf_alive s)"
    by (simp_all add: kill_def)
  have pc: "lf_pc ?s j = lf_pc s j \<or> lf_pc ?s j = Killed" for j by (simp add: kill_def)
  have own: "owned p (lf_pc ?s j) = (if le_process env j = q then None else owned p (lf_pc s j))" for p j
    using owned_terminal [of "lf_pc s j" p] by (cases p) (auto simp: kill_def)
  have less: "ownerless p t s \<Longrightarrow> ownerless p t ?s" for p t by (simp add: ownerless_def own)
  have sn: "seen (lf_pc ?s j) = Some x \<Longrightarrow> seen (lf_pc s j) = Some x"
    "condemned (lf_pc ?s j) = Some x \<Longrightarrow> condemned (lf_pc s j) = Some x"
    "doomed (lf_pc ?s j) = Some x \<Longrightarrow> doomed (lf_pc s j) = Some x" for j x
    using pc [of j] by auto
  have "\<exists>i. owned RecoveryPath (lf_pc ?s i) = Some (lm_token m)" if m: "lf_file s RecoveryPath = Some m" for m
  proof -
    obtain i where i: "owned RecoveryPath (lf_pc s i) = Some (lm_token m)" using inv_sentinel [OF inv m] by blast
    have "m = createLockMetadata env (le_process env i) (lm_token m)" using inv_owner(1) [OF inv i] m by simp
    then have "lm_pid m = le_pid env (le_process env i)" "lm_hostname m = le_host env (le_process env i)"
      by (metis createLockMetadata_def lock_metadata.select_convs)+
    then have "le_process env i \<noteq> q" using ord m by (auto simp: orderly_def)
    then show ?thesis using i by (auto simp: own)
  qed
  then have "sentinel_owned ?s" by (simp add: sentinel_owned_def rest)
  moreover have "owner_there env ?s"
    using inv_owner [OF inv] by (auto simp: owner_there_def own rest)
  moreover have "owner_unique ?s"
    unfolding owner_unique_def own using inv_unique [OF inv] by (auto split: if_splits)
  moreover have "tokens_used ?s" "seen_same ?s"
    unfolding tokens_used_def seen_same_def rest using inv_used [OF inv] inv_seen [OF inv] sn(1) by blast+
  moreover have "condemned_ownerless ?s"
    unfolding condemned_ownerless_def using sn(2) inv_condemned [OF inv] less by blast
  moreover have "known_ownerless ?s"
    unfolding known_ownerless_def rest using inv_known [OF inv] less by blast
  moreover have "doomed_there ?s"
    unfolding doomed_there_def rest using sn(3) inv_doomed [OF inv] by blast
  ultimately show ?thesis by (simp add: lock_inv_def)
qed

lemma init_inv: "lock_inv env (lock_init v)"
proof -
  have "owned p (Entering :: 'a lock_pc) = None" for p by (cases p) simp_all
  then show ?thesis
    by (auto simp: lock_init_def lock_inv_def owner_there_def owner_unique_def tokens_used_def seen_same_def
        condemned_ownerless_def known_ownerless_def doomed_there_def sentinel_owned_def)
qed

lemma step_inv:
  assumes "lock_inv env s" "orderly env a s" "lock_step env a s = Some s'"
  shows "lock_inv env s'"
proof (cases a)
  case (Run i u fault late)
  then show ?thesis
    using assms run_inv [OF assms(1), of i u fault late]
    by (simp add: lock_step_def draw_def split: if_splits)
next
  case (Start q)
  then show ?thesis using assms start_inv [OF assms(1)] by (auto simp: lock_step_def split: if_splits)
next
  case (Die q)
  then show ?thesis using assms kill_inv [OF assms(1)] by (auto simp: lock_step_def split: if_splits)
qed

lemma lock_reachable_inv: "lock_reachable env (orderly env) v s \<Longrightarrow> lock_inv env s"
  by (induction rule: lock_reachable.induct) (auto intro: init_inv step_inv)

end
