(* ===== verification/Lock_Properties.thy ===== *)
theory Lock_Properties
  imports Lock_Invariant
begin

section \<open>Updates under the lock\<close>

text \<open>
  While the sentinel works, an update under the lock is atomic: the document is the one
  that the updates make which have written, each once, one after the other, as
  \<open>updateJsonFileStore\<close> is modelled everywhere else.  When a process dies while it owns the
  sentinel, the protocol can let two tasks into the lock, and an update is lost.
\<close>

subsection \<open>The document\<close>

definition replay :: "'v lock_env \<Rightarrow> task list \<Rightarrow> 'v \<Rightarrow> 'v" where
  "replay env is v = fold (\<lambda>i w. case le_update env i w of None \<Rightarrow> w | Some w' \<Rightarrow> w') is v"

text \<open>The points after a completed action, and those after which the task never writes again.\<close>

fun completed :: "'v lock_pc \<Rightarrow> bool" where
  "completed (ReleaseRead p t ok) = (p = LockPath \<and> ok)"
| "completed (ReleaseUnlink p t ok) = (p = LockPath \<and> ok)"
| "completed Returned = True"
| "completed c = False"

fun past :: "'v lock_pc \<Rightarrow> bool" where
  "past (ReleaseRead p t ok) = (p = LockPath)"
| "past (ReleaseUnlink p t ok) = (p = LockPath)"
| "past c = (c \<in> {Returned, Threw, Killed})"

definition document_inv :: "'v lock_env \<Rightarrow> 'v \<Rightarrow> 'v lock_state \<Rightarrow> bool" where
  "document_inv env v s \<longleftrightarrow>
     lf_data s = replay env (lf_log s) v \<and> distinct (lf_log s) \<and>
     (\<forall>i t w. lf_pc s i = HoldingValue t w \<longrightarrow> w = lf_data s) \<and>
     (\<forall>i \<in> set (lf_log s). past (lf_pc s i)) \<and>
     (\<forall>i. completed (lf_pc s i) \<longrightarrow> i \<in> set (lf_log s))"

definition inside :: "'v lock_pc \<Rightarrow> bool" where
  "inside c \<longleftrightarrow> owned LockPath c \<noteq> None"

lemma one_inside:
  assumes "lock_inv env s" "inside (lf_pc s i)" "inside (lf_pc s j)"
  shows "i = j"
  using assms inv_sole_owner(1) [OF assms(1)] unfolding inside_def by fastforce

text \<open>A step that does not write.\<close>

definition harmless :: "'v lock_pc \<Rightarrow> 'v lock_pc \<Rightarrow> 'v \<Rightarrow> bool" where
  "harmless c c' v \<longleftrightarrow>
     (past c \<longrightarrow> past c') \<and> (completed c' \<longrightarrow> completed c) \<and> (\<forall>t w. c' = HoldingValue t w \<longrightarrow> w = v)"

lemma harmless_points [simp]:
  "completed (recovered g) = False" "completed (recovery_threw g) = False"
  "recovered g \<noteq> HoldingValue t w" "recovery_threw g \<noteq> HoldingValue t w" "released p ok \<noteq> HoldingValue t w"
  by (cases g; cases p; cases ok; simp)+

lemma released_points:
  "completed (released p ok) = (p = LockPath \<and> ok)" "p = LockPath \<Longrightarrow> past (released p ok)"
  by (cases p; cases ok; simp)+

lemma other_steps:
  fixes env :: "'v lock_env" and i :: task and u :: uuid and fault late :: bool
  assumes "\<And>t w. c \<noteq> HoldingValue t w" "lf_pc s i = c"
  defines "s' \<equiv> task_step env i u fault late c s"
  shows "lf_pc s' = (lf_pc s)(i := lf_pc s' i) \<and> harmless c (lf_pc s' i) (lf_data s) \<and>
    lf_data s' = lf_data s \<and> lf_log s' = lf_log s"
  using assms(1,2) unfolding s'_def
  by (cases c)
     (auto simp: createLockFile_def deadRead_def deadCheck_def deadReread_def deadUnlink_def releaseRead_def
        releaseUnlink_def finish_release_def fail_release_def Let_def harmless_def released_points
        split: option.splits)

lemma document_other:
  assumes "document_inv env v s" "lf_pc s' = (lf_pc s)(i := c)" "harmless (lf_pc s i) c (lf_data s)"
    and "lf_data s' = lf_data s" "lf_log s' = lf_log s"
  shows "document_inv env v s'"
  using assms unfolding document_inv_def harmless_def by auto

lemma document_write:
  assumes "document_inv env v s" "lf_pc s i = HoldingValue t w" "le_update env i w = Some w'"
    and "\<And>j. inside (lf_pc s j) \<Longrightarrow> j = i"
    and "lf_pc s' = (lf_pc s)(i := ReleaseRead LockPath t True)" "lf_data s' = w'" "lf_log s' = lf_log s @ [i]"
  shows "document_inv env v s'"
proof -
  have w: "w = replay env (lf_log s) v" and new: "i \<notin> set (lf_log s)"
    using assms(1,2) by (auto simp: document_inv_def)
  have other: "lf_pc s j \<noteq> HoldingValue t' x" if "j \<noteq> i" for j t' x
    using assms(4) [of j] that by (auto simp: inside_def)
  have "replay env (lf_log s @ [i]) v = w'" using assms(3) w by (simp add: replay_def)
  moreover have "distinct (lf_log s @ [i])" using assms(1) new by (simp add: document_inv_def)
  moreover have "past (((lf_pc s)(i := ReleaseRead LockPath t True)) j)" if "j \<in> set (lf_log s @ [i])" for j
    using assms(1) that by (auto simp: document_inv_def)
  moreover have "j \<in> set (lf_log s @ [i])" if "completed (((lf_pc s)(i := ReleaseRead LockPath t True)) j)" for j
    using assms(1) that by (auto simp: document_inv_def split: if_splits)
  ultimately show ?thesis
    using other unfolding document_inv_def assms(5-7) by (auto split: if_splits)
qed

lemma document_run:
  assumes "document_inv env v s" "lock_inv env s"
  shows "document_inv env v (task_step env i u fault late (lf_pc s i) (draw u s))"
proof (cases "\<exists>t w. lf_pc s i = HoldingValue t w")
  case False
  let ?s = "task_step env i u fault late (lf_pc s i) (draw u s)"
  have "lf_pc ?s = (lf_pc s)(i := lf_pc ?s i) \<and> harmless (lf_pc s i) (lf_pc ?s i) (lf_data s) \<and>
      lf_data ?s = lf_data s \<and> lf_log ?s = lf_log s"
    using other_steps [of "lf_pc s i" "draw u s" i env u fault late] False by auto
  then show ?thesis using document_other [OF assms(1), of ?s i "lf_pc ?s i"] by blast
next
  case True
  then obtain t w where c: "lf_pc s i = HoldingValue t w" by blast
  show ?thesis
  proof (cases "if fault then None else le_update env i w")
    case None
    then have eq: "task_step env i u fault late (lf_pc s i) (draw u s) = go i (ReleaseRead LockPath t False) (draw u s)"
      using c by simp
    show ?thesis
      unfolding eq
      by (rule document_other [OF assms(1), of _ i "ReleaseRead LockPath t False"]) (auto simp: c harmless_def)
  next
    case (Some w')
    then have eq: "task_step env i u fault late (lf_pc s i) (draw u s) =
        go i (ReleaseRead LockPath t True) ((draw u s)\<lparr>lf_data := w', lf_log := lf_log s @ [i]\<rparr>)"
      using c by simp
    have "inside (lf_pc s i)" by (simp add: c inside_def)
    then have "j = i" if "inside (lf_pc s j)" for j using one_inside [OF assms(2)] that by blast
    then show ?thesis
      unfolding eq using document_write [OF assms(1) c, of w'] Some by (auto split: if_splits)
  qed
qed

lemma document_kill:
  assumes "document_inv env v s"
  shows "document_inv env v (kill env q s)"
proof -
  have pc: "lf_pc (kill env q s) j = lf_pc s j \<or> lf_pc (kill env q s) j = Killed" for j by (simp add: kill_def)
  have "past (lf_pc (kill env q s) j)" if "past (lf_pc s j)" for j using pc [of j] that by auto
  moreover have "completed (lf_pc (kill env q s) j) \<Longrightarrow> completed (lf_pc s j)" for j using pc [of j] by auto
  moreover have "lf_pc (kill env q s) j = HoldingValue t w \<Longrightarrow> lf_pc s j = HoldingValue t w" for j t w
    using pc [of j] by auto
  moreover have "lf_data (kill env q s) = lf_data s" "lf_log (kill env q s) = lf_log s" by (simp_all add: kill_def)
  ultimately show ?thesis using assms unfolding document_inv_def by metis
qed

lemma document_start:
  "document_inv env v s \<Longrightarrow> document_inv env v (s\<lparr>lf_alive := a, lf_started := b\<rparr>)"
  by (auto simp: document_inv_def)

lemma document_init: "document_inv env v (lock_init v)"
  by (simp add: document_inv_def lock_init_def replay_def)

lemma document_step:
  assumes "document_inv env v s" "lock_inv env s" "lock_step env a s = Some s'"
  shows "document_inv env v s'"
proof (cases a)
  case (Run i u fault late)
  then show ?thesis
    using assms(3) document_run [OF assms(1,2), of i u fault late] by (simp add: lock_step_def draw_def split: if_splits)
next
  case (Start q)
  then show ?thesis using assms(3) document_start [OF assms(1)] by (auto simp: lock_step_def split: if_splits)
next
  case (Die q)
  then show ?thesis using assms(3) document_kill [OF assms(1)] by (auto simp: lock_step_def split: if_splits)
qed

lemma reachable_document: "lock_reachable env (orderly env) v s \<Longrightarrow> document_inv env v s"
proof (induction rule: lock_reachable.induct)
  case initial
  show ?case by (rule document_init)
next
  case (action s a s')
  show ?case
    using document_step [OF action.IH lock_reachable_inv [OF action.hyps(1)] action.hyps(3)] .
qed

subsection \<open>Tasks that update a store\<close>

text \<open>What a task writes: the document \<open>updateJsonFileStore\<close> would leave, when it writes one.\<close>

definition store_update ::
  "'a json_store \<Rightarrow> (task \<Rightarrow> io_env) \<Rightarrow> (task \<Rightarrow> 'a \<Rightarrow> 'e + ('a \<times> 'r)) \<Rightarrow> task \<Rightarrow> 'a option \<Rightarrow> 'a option option" where
  "store_update st io cb i f =
     (case update_action st (io i) (cb i) f of (f', Inr r) \<Rightarrow> Some f' | (f', Inl e) \<Rightarrow> None)"

lemma store_update_value:
  assumes "io_lock (io i)"
  shows "(case store_update st io cb i f of None \<Rightarrow> f | Some f' \<Rightarrow> f') = fst (updateJsonFileStore st (io i) (cb i) f)"
proof -
  obtain g r where u: "update_action st (io i) (cb i) f = (g, r)" by (rule prod.exhaust)
  show ?thesis
  proof (cases r)
    case (Inl e)
    then have "g = f"
      using u by (auto simp: update_action_def writeJsonFileAtomic_def split: sum.splits prod.splits if_splits)
    then show ?thesis
      using u Inl assms by (simp add: store_update_def updateJsonFileStore_def withJsonFileLock_def runWithOwnedLock_def)
  next
    case (Inr x)
    then show ?thesis
      using u assms by (simp add: store_update_def updateJsonFileStore_def withJsonFileLock_def runWithOwnedLock_def)
  qed
qed

text \<open>C2: An update of a JSON file is atomic: as long as no process dies while it owns the
  recovery sentinel and no release of the sentinel fails - whatever else fails, dies or
  times out, in any interleaving - at most one task is inside the lock, and the file is
  what the tasks that have written make of it, each once, one after the other, as
  \<open>updateJsonFileStore\<close> without concurrency would; a task that reports success is one of
  them.\<close>

theorem locked_updates_atomic:
  assumes "lock_reachable env (orderly env) f s" "le_update env = store_update st io cb" "\<And>i. io_lock (io i)"
  shows "(inside (lf_pc s i) \<and> inside (lf_pc s j) \<longrightarrow> i = j) \<and>
    lf_data s = fold (\<lambda>i f. fst (updateJsonFileStore st (io i) (cb i) f)) (lf_log s) f \<and>
    distinct (lf_log s) \<and> (\<forall>i. lf_pc s i = Returned \<longrightarrow> i \<in> set (lf_log s))"
proof -
  have "(\<lambda>i f. case store_update st io cb i f of None \<Rightarrow> f | Some f' \<Rightarrow> f') =
      (\<lambda>i f. fst (updateJsonFileStore st (io i) (cb i) f))"
    using store_update_value [of io, OF assms(3)] by (intro ext)
  then have "replay env (lf_log s) f = fold (\<lambda>i f. fst (updateJsonFileStore st (io i) (cb i) f)) (lf_log s) f"
    unfolding replay_def assms(2) by simp
  moreover have "completed (lf_pc s i)" if "lf_pc s i = Returned" for i using that by simp
  ultimately show ?thesis
    using reachable_document [OF assms(1)] one_inside [OF lock_reachable_inv [OF assms(1)]]
    unfolding document_inv_def by metis
qed

subsection \<open>Two runs\<close>

text \<open>Actions whose tokens are numbered.\<close>

fun numbered :: "nat \<Rightarrow> lock_action list \<Rightarrow> lock_action list" where
  "numbered n (Run i t fault late # as) = Run i (nat_text n) fault late # numbered (Suc n) as"
| "numbered n (a # as) = a # numbered n as"
| "numbered n [] = []"

definition steps :: "task \<Rightarrow> nat \<Rightarrow> lock_action list" where
  "steps i n = replicate n (Run i [] False False)"

definition counter_store :: "int json_store" where
  "counter_store = \<lparr>js_default = 0, js_parse = Inr\<rparr>"

definition increment :: "task \<Rightarrow> int \<Rightarrow> unit + (int \<times> unit)" where
  "increment i v = Inr (v + 1, ())"

text \<open>Each task has a process of its own on one host, and increments a counter.\<close>

definition counter_env :: "int option lock_env" where
  "counter_env =
     \<lparr>le_process = id, le_pid = id, le_host = (\<lambda>_. ''host''),
      le_update = store_update counter_store (\<lambda>_. io_fine) increment\<rparr>"

text \<open>The process of task 0 dies inside the lock; task 1 recovers the lock and updates.\<close>

definition recovery_run :: "lock_action list" where
  "recovery_run = numbered 0 ([Start 0, Start 1] @ steps 0 2 @ [Die 0] @ steps 1 15)"

definition run_view :: "lock_action list \<Rightarrow> (lock_action \<Rightarrow> int option lock_state \<Rightarrow> bool)
     \<Rightarrow> (int option lock_pc list \<times> int option \<times> task list) option" where
  "run_view as allowed =
     map_option (\<lambda>s. (map (lf_pc s) [0, 1, 2, 3], lf_data s, lf_log s)) (lock_run counter_env allowed as (lock_init None))"

lemma recovery_result:
  "run_view recovery_run (orderly counter_env) = Some ([Killed, Returned, Entering, Entering], Some 1, [1])"
  by code_simp

lemma run_view_reachable:
  assumes "run_view as allowed = Some (pcs, d, is)"
  shows "\<exists>s. lock_reachable counter_env allowed None s \<and> map (lf_pc s) [0, 1, 2, 3] = pcs \<and> lf_data s = d \<and> lf_log s = is"
  using assms lock_run_reachable [OF _ lock_reachable.initial, of counter_env allowed "as" None]
  by (auto simp: run_view_def)

lemma locked_updates_atomic_witness:
  "\<exists>s. lock_reachable counter_env (orderly counter_env) None s \<and> lf_pc s 1 = Returned \<and>
     lf_data s = fst (updateJsonFileStore counter_store io_fine (increment 1) None)"
proof -
  obtain s where s: "lock_reachable counter_env (orderly counter_env) None s" "lf_pc s 1 = Returned" "lf_log s = [1]"
    using run_view_reachable [OF recovery_result] by auto
  have "lf_data s = fold (\<lambda>i f. fst (updateJsonFileStore counter_store io_fine (increment i) f)) (lf_log s) None"
    using locked_updates_atomic [OF s(1), of counter_store "\<lambda>_. io_fine" increment]
    by (simp add: counter_env_def)
  then show ?thesis using s by auto
qed

subsection \<open>The race for an abandoned sentinel\<close>

text \<open>Four tasks in processes of their own on one host.\<close>

definition rivals :: "'v lock_env \<Rightarrow> bool" where
  "rivals env \<longleftrightarrow>
     distinct (map (le_process env) [0, 1, 2, 3]) \<and>
     distinct (map (\<lambda>i. le_pid env (le_process env i)) [0, 1, 2, 3]) \<and>
     (\<forall>i \<in> {1, 2, 3}. le_host env (le_process env i) = le_host env (le_process env 0))"

text \<open>No file operation fails, no deadline passes and no process dies.\<close>

definition calm :: "lock_action \<Rightarrow> 'v lock_state \<Rightarrow> bool" where
  "calm a s = (case a of Run i token fault late \<Rightarrow> \<not> fault \<and> \<not> late | Start q \<Rightarrow> True | Die q \<Rightarrow> False)"

text \<open>
  The schedule.  Task 0 enters the lock and dies; task 1 creates the sentinel and dies.
  Tasks 2 and 3 both find the sentinel abandoned; 2 removes it and creates its own, which
  3 then removes; so both recover the lock, and 3 removes the lock that 2 has acquired.
\<close>

definition until_lock :: "(task \<Rightarrow> process) \<Rightarrow> lock_action list" where
  "until_lock q = [Start (q 0), Start (q 1), Start (q 2), Start (q 3)] @ numbered 0 (steps 0 2)"

definition until_sentinel :: "lock_action list" where
  "until_sentinel = numbered 2 (steps 1 3)"

definition until_both :: "lock_action list" where
  "until_both = numbered 5 (steps 2 6 @ steps 3 6 @ steps 2 7 @ steps 3 7 @ steps 2 5 @ steps 3 6)"

definition until_done :: "lock_action list" where
  "until_done = numbered 42 (steps 2 2 @ steps 3 3)"

lemma numbered_steps:
  "numbered n (steps i 0 @ as) = numbered n as" "numbered n (steps i 0) = []"
  "numbered n (steps i (Suc m) @ as) = Run i (nat_text n) False False # numbered (Suc n) (steps i m @ as)"
  "numbered n (steps i (Suc m)) = Run i (nat_text n) False False # numbered (Suc n) (steps i m)"
  by (simp_all add: steps_def)

lemma numbered_numeral:
  "numbered n (steps i (numeral k) @ as) =
     Run i (nat_text n) False False # numbered (Suc n) (steps i (pred_numeral k) @ as)"
  "numbered n (steps i (numeral k)) = Run i (nat_text n) False False # numbered (Suc n) (steps i (pred_numeral k))"
  by (simp_all add: steps_def numeral_eq_Suc)

lemma nat_text_eq_iff: "nat_text m = nat_text n \<longleftrightarrow> m = n"
  by (metis nat_value_text)

lemmas lock_execution =
  lock_step_def calm_def isProcessAlive_def lock_init_def numbered_steps numbered_numeral nat_text_eq_iff go_def createLockFile_def
  put_known_def put_file_def kill_def deadRead_def deadCheck_def deadReread_def deadUnlink_def releaseRead_def
  releaseUnlink_def finish_release_def forget_def createLockMetadata_def Let_def

text \<open>C30: The removal of an abandoned sentinel is a race.  Whatever the document, and whatever
  two updates that succeed on it, there is a run without any failing file operation or
  deadline in which two processes die, one inside the lock and one that owns the
  sentinel; afterwards two tasks of living processes are inside the lock at once, both
  report success, and the document is what the second made of the original document: the
  first task's update is lost.\<close>

theorem sentinel_race_loses_update:
  assumes "rivals env" and "le_update env 2 v = Some w2" and "le_update env 3 v = Some w3"
  shows "\<exists>as1 as2 as3 as4 s1 s2 s3 s4.
    lock_run env calm as1 (lock_init v) = Some s1 \<and> inside (lf_pc s1 0) \<and>
    lock_run env calm as2 (kill env (le_process env 0) s1) = Some s2 \<and> owned RecoveryPath (lf_pc s2 1) \<noteq> None \<and>
    lock_run env calm as3 (kill env (le_process env 1) s2) = Some s3 \<and>
    inside (lf_pc s3 2) \<and> inside (lf_pc s3 3) \<and> {le_process env 2, le_process env 3} \<subseteq> set (lf_alive s3) \<and>
    lock_run env calm as4 s3 = Some s4 \<and> lf_pc s4 2 = Returned \<and> lf_pc s4 3 = Returned \<and>
    lf_log s4 = [2, 3] \<and> lf_data s4 = w3"
proof -
  define q0 q1 q2 q3 where q: "q0 = le_process env 0" "q1 = le_process env 1" "q2 = le_process env 2" "q3 = le_process env 3"
  have proc: "le_process env 0 = q0" "le_process env 1 = q1" "le_process env (Suc 0) = q1" "le_process env 2 = q2"
    "le_process env 3 = q3"
    by (simp_all add: q)
  have ne: "q0 \<noteq> q1" "q0 \<noteq> q2" "q0 \<noteq> q3" "q1 \<noteq> q0" "q1 \<noteq> q2" "q1 \<noteq> q3" "q2 \<noteq> q0" "q2 \<noteq> q1" "q2 \<noteq> q3"
    "q3 \<noteq> q0" "q3 \<noteq> q1" "q3 \<noteq> q2"
    using assms(1) by (auto simp: rivals_def q)
  have pid: "le_pid env q0 \<noteq> le_pid env q1" "le_pid env q0 \<noteq> le_pid env q2" "le_pid env q0 \<noteq> le_pid env q3"
    "le_pid env q1 \<noteq> le_pid env q0" "le_pid env q1 \<noteq> le_pid env q2" "le_pid env q1 \<noteq> le_pid env q3"
    "le_pid env q2 \<noteq> le_pid env q0" "le_pid env q2 \<noteq> le_pid env q1" "le_pid env q2 \<noteq> le_pid env q3"
    "le_pid env q3 \<noteq> le_pid env q0" "le_pid env q3 \<noteq> le_pid env q1" "le_pid env q3 \<noteq> le_pid env q2"
    using assms(1) by (auto simp: rivals_def q)
  have host: "le_host env q1 = le_host env q0" "le_host env q2 = le_host env q0" "le_host env q3 = le_host env q0"
    using assms(1) by (auto simp: rivals_def q)
  show ?thesis
    by (rule exI [of _ "until_lock (le_process env)"], rule exI [of _ until_sentinel],
        rule exI [of _ until_both], rule exI [of _ until_done])
      (simp add: until_lock_def until_sentinel_def until_both_def until_done_def proc ne pid host assms(2,3)
        lock_execution inside_def)
qed

lemma counter_rivals: "rivals counter_env"
  by (simp add: rivals_def counter_env_def)

text \<open>Of two increments of the counter one is left.\<close>

lemma sentinel_race_loses_update_witness:
  "replay counter_env [2, 3] None = Some 2 \<and>
   (\<exists>as3 as4 s2 s3 s4. lock_run counter_env calm as3 (kill counter_env 1 s2) = Some s3 \<and>
      inside (lf_pc s3 2) \<and> inside (lf_pc s3 3) \<and> lock_run counter_env calm as4 s3 = Some s4 \<and>
      lf_pc s4 2 = Returned \<and> lf_pc s4 3 = Returned \<and> lf_log s4 = [2, 3] \<and> lf_data s4 = Some 1)"
proof -
  have "le_update counter_env 2 None = Some (Some 1)" "le_update counter_env 3 None = Some (Some 1)"
    "replay counter_env [2, 3] None = Some 2"
    by code_simp+
  moreover have "le_process counter_env 1 = 1" by (simp add: counter_env_def)
  ultimately show ?thesis
    using sentinel_race_loses_update [OF counter_rivals, of None "Some 1" "Some 1"] by metis
qed

end
