(* ===== verification/Abtest_Allocation.thy ===== *)
theory Abtest_Allocation
  imports Js_Double
begin

section \<open>Largest-remainder allocation of recipients\<close>

text \<open>
  \<open>allocation.ts\<close>: \<open>allocateByLargestRemainder\<close> distributes \<open>total\<close> seats over
  weights, \<open>allocateTestAndHoldout\<close> splits an audience by a percentage.  Weights
  and quotas are doubles (\<open>dbl\<close> rounds each operation), seat counts are integers
  below \<open>2\<^sup>5\<^sup>3\<close> and so exact.  A sum or a product of weights can be infinite: then
  the quotas are infinite, zero or NaN, and \<open>quotas_of\<close> has what follows.  The lemmas
  bound the error of a computed quota and derive that the invariant errors of the
  code cannot be raised for up to a thousand groups with weights between \<open>2 powi - 500\<close>
  and \<open>2 ^ 500\<close> and up to \<open>10 ^ 12\<close> recipients.
\<close>

datatype allocation_error =
    AllocationInputError string
  | AllocationValueError string
  | AllocationInvariantError string

fun validateNonNegativeInteger :: "string \<Rightarrow> js_number \<Rightarrow> allocation_error + int" where
  "validateNonNegativeInteger name (Num q) =
     (if q < 0 \<or> \<not> isInteger (Num q) then Inl (AllocationValueError name) else Inr \<lfloor>q\<rfloor>)"
| "validateNonNegativeInteger name _ = Inl (AllocationValueError name)"

text \<open>The weights after validation; the first offending one raises.\<close>

fun valid_weights :: "js_number list \<Rightarrow> allocation_error + rat list" where
  "valid_weights [] = Inr []"
| "valid_weights (Num w # ws) =
     (if w \<le> 0 then Inl (AllocationInputError ''weights'')
      else case valid_weights ws of Inl e \<Rightarrow> Inl e | Inr vs \<Rightarrow> Inr (w # vs))"
| "valid_weights (_ # ws) = Inl (AllocationInputError ''weights'')"

definition validateAllocationInput ::
  "js_number \<Rightarrow> js_number list \<Rightarrow> allocation_error + int \<times> rat list" where
  "validateAllocationInput seats weights =
     (case validateNonNegativeInteger ''total'' seats of
        Inl e \<Rightarrow> Inl e
      | Inr t \<Rightarrow>
          if weights = [] then Inl (AllocationInputError ''weights'')
          else (case valid_weights weights of Inl e \<Rightarrow> Inl e | Inr ws \<Rightarrow> Inr (t, ws)))"

definition weight_sum :: "rat list \<Rightarrow> rat" where
  "weight_sum ws = foldl (\<lambda>sum w. dbl (sum + w)) 0 ws"

definition quota :: "int \<Rightarrow> rat \<Rightarrow> rat \<Rightarrow> rat" where
  "quota seats weightSum w = dbl (dbl (of_int seats * w) / weightSum)"

text \<open>
  The quotas, or the error that infinite ones lead to.  With a finite sum a product that
  overflows makes its quota and base seats infinite, so that the base allocation
  exceeds the total.  With an infinite sum the quota is 0 for a finite product; one for an
  infinite product is NaN, the remaining seats are NaN and never exhausted.
\<close>

definition quotas_of :: "int \<Rightarrow> rat list \<Rightarrow> allocation_error + rat list" where
  "quotas_of t ws =
     (let infinite_product = list_ex (\<lambda>w. overflows (dbl (of_int t * w))) ws
      in if \<not> overflows (weight_sum ws) then
           (if infinite_product then Inl (AllocationInvariantError ''base allocation exceeded total'')
            else Inr (map (quota t (weight_sum ws)) ws))
         else if infinite_product then Inl (AllocationInvariantError ''failed to exhaust seats'')
         else Inr (map (\<lambda>_. 0) ws))"

text \<open>Indices by descending fractional remainder, ties by the index.\<close>

definition remainder_at :: "rat list \<Rightarrow> nat \<Rightarrow> rat" where
  "remainder_at quotas i = dbl (quotas ! i - of_int \<lfloor>quotas ! i\<rfloor>)"

definition rankings :: "rat list \<Rightarrow> nat list" where
  "rankings quotas = sort_key (\<lambda>i. - remainder_at quotas i) [0..<length quotas]"

text \<open>One seat more to each ranked group while seats remain.\<close>

fun distribute :: "nat list \<Rightarrow> int list \<times> int \<Rightarrow> int list \<times> int" where
  "distribute [] (counts, remaining) = (counts, remaining)"
| "distribute (i # is) (counts, remaining) =
     (if remaining \<le> 0 then (counts, remaining)
      else distribute is (counts[i := counts ! i + 1], remaining - 1))"

definition allocateByLargestRemainder ::
  "js_number \<Rightarrow> js_number list \<Rightarrow> allocation_error + int list" where
  "allocateByLargestRemainder seats weights =
     (case validateAllocationInput seats weights of
        Inl e \<Rightarrow> Inl e
      | Inr (t, ws) \<Rightarrow>
          if t = 0 then Inr (map (\<lambda>_. 0) ws)
          else (case quotas_of t ws of
                  Inl e \<Rightarrow> Inl e
                | Inr quotas \<Rightarrow>
                    let baseSeats = map floor quotas;
                        remaining = t - sum_list baseSeats
                    in if remaining < 0 then Inl (AllocationInvariantError ''base allocation exceeded total'')
                       else let (counts, left) = distribute (rankings quotas) (baseSeats, remaining)
                            in if left \<noteq> 0 then Inl (AllocationInvariantError ''failed to exhaust seats'')
                               else if sum_list counts \<noteq> t then Inl (AllocationInvariantError ''sum mismatch'')
                               else Inr counts))"

definition allocateTestAndHoldout ::
  "js_number \<Rightarrow> js_number \<Rightarrow> allocation_error + int \<times> int" where
  "allocateTestAndHoldout audienceSize testGroupPercentage =
     (case validateNonNegativeInteger ''audienceSize'' audienceSize of
        Inl e \<Rightarrow> Inl e
      | Inr n \<Rightarrow>
          (case testGroupPercentage of
             Num pct \<Rightarrow>
               if pct < 0 \<or> 100 < pct then Inl (AllocationValueError ''testGroupPercentage'')
               else if n = 0 then Inr (0, 0)
               else if pct = 0 then Inr (0, n)
               else if pct = 100 then Inr (n, 0)
               else (case allocateByLargestRemainder audienceSize [Num pct, Num (dbl (100 - pct))] of
                       Inl e \<Rightarrow> Inl e
                     | Inr counts \<Rightarrow> Inr (counts ! 0, counts ! 1))
           | _ \<Rightarrow> Inl (AllocationValueError ''testGroupPercentage'')))"

subsection \<open>Distribution of the remaining seats\<close>

lemma distribute_spec:
  assumes "distinct is" "set is \<subseteq> {..<length counts}" "0 \<le> r" "r \<le> int (length is)"
  shows "distribute is (counts, r) =
    (map (\<lambda>i. counts ! i + (if i \<in> set (take (nat r) is) then 1 else 0)) [0..<length counts], 0)"
  using assms
proof (induction "is" arbitrary: counts r)
  case Nil
  then show ?case by (simp add: map_nth)
next
  case (Cons i "is")
  show ?case
  proof (cases "r \<le> 0")
    case True
    with Cons.prems show ?thesis by (simp add: map_nth)
  next
    case False
    then obtain n where n: "nat r = Suc n" "nat (r - 1) = n"
      by (metis Suc_nat_eq_nat_zadd1 add.commute diff_add_cancel int_one_le_iff_zero_less not_le diff_ge_0_iff_ge)
    have "i < length counts" "i \<notin> set is" using Cons.prems by auto
    moreover have "i \<notin> set (take n is)" using \<open>i \<notin> set is\<close> by (auto dest: in_set_takeD)
    ultimately show ?thesis
      using False Cons.prems Cons.IH [of "counts[i := counts ! i + 1]" "r - 1"]
      by (auto simp: n nth_list_update intro!: map_cong)
  qed
qed

lemma distinct_rankings: "distinct (rankings quotas)"
  and set_rankings: "set (rankings quotas) = {..<length quotas}"
  and length_rankings: "length (rankings quotas) = length quotas"
  by (auto simp: rankings_def)

lemma sum_list_indicator:
  fixes xs :: "int list"
  assumes "S \<subseteq> {..<length xs}"
  shows "sum_list (map (\<lambda>i. xs ! i + (if i \<in> S then 1 else 0)) [0..<length xs]) = sum_list xs + int (card S)"
proof -
  have fin: "finite S" using assms finite_subset by blast
  have "sum_list (map (\<lambda>i. xs ! i + (if i \<in> S then 1 else 0)) [0..<length xs]) =
      (\<Sum>i<length xs. xs ! i) + (\<Sum>i<length xs. if i \<in> S then 1 else 0)"
    by (simp add: interv_sum_list_conv_sum_set_nat atLeast0LessThan sum.distrib)
  also have "(\<Sum>i<length xs. xs ! i) = sum_list xs"
    by (simp add: sum_list_sum_nth atLeast0LessThan)
  also have "(\<Sum>i<length xs. if i \<in> S then 1 else 0) = int (card S)"
    using assms by (simp add: sum.If_cases Int_absorb1)
  finally show ?thesis .
qed

lemma distribute_total:
  fixes quotas :: "rat list"
  assumes "0 \<le> r" "r \<le> int (length quotas)"
  defines "base \<equiv> map floor quotas"
  obtains counts where
    "distribute (rankings quotas) (base, r) = (counts, 0)"
    "length counts = length quotas" "sum_list counts = sum_list base + r"
    "\<And>i. i < length quotas \<Longrightarrow> counts ! i \<in> {\<lfloor>quotas ! i\<rfloor>, \<lfloor>quotas ! i\<rfloor> + 1}"
proof -
  let ?S = "set (take (nat r) (rankings quotas))"
  let ?c = "map (\<lambda>i. base ! i + (if i \<in> ?S then 1 else 0)) [0..<length base]"
  have S: "?S \<subseteq> {..<length base}"
    by (auto simp: base_def dest!: in_set_takeD simp: set_rankings)
  have card: "int (card ?S) = r"
    using assms by (simp add: distinct_card distinct_rankings length_rankings)
  show thesis
  proof
    show "distribute (rankings quotas) (base, r) = (?c, 0)"
      using assms by (intro distribute_spec)
        (simp_all add: distinct_rankings set_rankings length_rankings)
    show "length ?c = length quotas" by (simp add: base_def)
    show "sum_list ?c = sum_list base + r"
      using sum_list_indicator [OF S] card by simp
    show "?c ! i \<in> {\<lfloor>quotas ! i\<rfloor>, \<lfloor>quotas ! i\<rfloor> + 1}" if "i < length quotas" for i
      using that by (simp add: base_def)
  qed
qed

subsection \<open>Error of the computed quotas\<close>

abbreviation epsilon :: rat where
  "epsilon \<equiv> 1 / 2 ^ 53"

text \<open>Weights for which nothing overflows or underflows.\<close>

definition moderate :: "rat list \<Rightarrow> bool" where
  "moderate ws = (\<forall>w \<in> set ws. 2 powi (- 500) \<le> w \<and> w \<le> 2 ^ 500)"

lemma moderate_pos: "moderate ws \<Longrightarrow> w \<in> set ws \<Longrightarrow> 0 < w"
proof -
  assume "moderate ws" "w \<in> set ws"
  then have "2 powi (- 500) \<le> w" by (simp add: moderate_def)
  moreover have "(0 :: rat) < 2 powi (- 500)" by simp
  ultimately show "0 < w" by linarith
qed

lemma tiny_powers: "(2 :: rat) powi (- 1022) \<le> 2 powi (- 500)" "(2 :: rat) powi (- 1022) \<le> 1 / 2"
proof -
  show "(2 :: rat) powi (- 1022) \<le> 2 powi (- 500)" by (intro power_int_increasing) simp_all
  have "(2 :: rat) powi (- 1022) \<le> 2 powi (- 1)" by (intro power_int_increasing) simp_all
  then show "(2 :: rat) powi (- 1022) \<le> 1 / 2" by (simp add: power_int_minus)
qed

lemma weight_sum_bounds:
  assumes "\<forall>w \<in> set ws. 2 powi (- 1022) \<le> w" "0 \<le> a"
  shows "(1 - epsilon) ^ length ws * (a + sum_list ws) \<le> foldl (\<lambda>s w. dbl (s + w)) a ws \<and>
         foldl (\<lambda>s w. dbl (s + w)) a ws \<le> (1 + epsilon) ^ length ws * (a + sum_list ws)"
  using assms
proof (induction ws arbitrary: a)
  case (Cons w ws)
  let ?b = "dbl (a + w)"
  have "(0 :: rat) < 2 powi (- 1022)" by simp
  then have "\<forall>v \<in> set (w # ws). 0 < v" using Cons.prems(1) less_le_trans by blast
  then have pos: "0 < a + w" "0 \<le> sum_list ws" using Cons.prems(2) by (auto intro: sum_list_nonneg less_imp_le)
  have "2 powi (- 1022) \<le> a + w" using Cons.prems by simp
  then have b: "(1 - epsilon) * (a + w) \<le> ?b" "?b \<le> (1 + epsilon) * (a + w)"
    using dbl_between [of "a + w"] by (simp_all add: mult.commute)
  have IH: "(1 - epsilon) ^ length ws * (?b + sum_list ws) \<le> foldl (\<lambda>s w. dbl (s + w)) ?b ws"
      "foldl (\<lambda>s w. dbl (s + w)) ?b ws \<le> (1 + epsilon) ^ length ws * (?b + sum_list ws)"
    using Cons.IH [of ?b] Cons.prems dbl_nonneg [of "a + w"] pos by auto
  have "(1 - epsilon) * (a + w + sum_list ws) \<le> ?b + sum_list ws"
    using b(1) pos by (simp add: algebra_simps)
  then have lo: "(1 - epsilon) ^ length ws * ((1 - epsilon) * (a + w + sum_list ws)) \<le>
      (1 - epsilon) ^ length ws * (?b + sum_list ws)"
    by (rule mult_left_mono) simp
  have "?b + sum_list ws \<le> (1 + epsilon) * (a + w + sum_list ws)"
    using b(2) pos by (simp add: algebra_simps)
  then have hi: "(1 + epsilon) ^ length ws * (?b + sum_list ws) \<le>
      (1 + epsilon) ^ length ws * ((1 + epsilon) * (a + w + sum_list ws))"
    by (rule mult_left_mono) simp
  show ?case
    using order_trans [OF lo IH(1)] order_trans [OF IH(2) hi]
    by (simp only: foldl_Cons list.size power_Suc sum_list.Cons add.assoc [symmetric] mult_ac)
       (simp only: mult_ac power_Suc2 add_Suc_right add_0_right power_Suc simp_thms)
qed simp

lemma epsilon_powers:
  assumes "n \<le> 1000"
  shows "1 - 1000 * epsilon \<le> (1 - epsilon) ^ n" "(1 + epsilon) ^ n \<le> 1 + 1001 * epsilon"
proof -
  have b: "1 - of_nat n * epsilon \<le> (1 - epsilon) ^ n"
    using Bernoulli_inequality [of "- epsilon" n] by simp
  have n: "(of_nat n :: rat) \<le> 1000" using assms by (simp add: of_nat_le_numeral_iff)
  have "of_nat n * epsilon \<le> 1000 * epsilon" using n by (intro mult_right_mono) simp_all
  with b show low: "1 - 1000 * epsilon \<le> (1 - epsilon) ^ n" by linarith
  have "(1 + epsilon) ^ n * (1 - 1000 * epsilon) \<le> (1 + epsilon) ^ n * (1 - epsilon) ^ n"
    by (rule mult_left_mono [OF low]) simp
  also have "(1 + epsilon) ^ n * (1 - epsilon) ^ n = (1 - epsilon * epsilon) ^ n"
    by (simp only: power_mult_distrib [symmetric] square_diff_one_factored) (simp add: algebra_simps)
  also have "\<dots> \<le> 1" by (intro power_le_one) simp_all
  finally have "(1 + epsilon) ^ n * (1 - 1000 * epsilon) \<le> 1" .
  then have "(1 + epsilon) ^ n \<le> 1 / (1 - 1000 * epsilon)" by (simp add: field_simps)
  also have "\<dots> \<le> 1 + 1001 * epsilon" by (simp add: field_simps)
  finally show "(1 + epsilon) ^ n \<le> 1 + 1001 * epsilon" .
qed

lemma weight_sum_error:
  assumes "moderate ws" "length ws \<le> 1000"
  shows "(1 - 1000 * epsilon) * sum_list ws \<le> weight_sum ws"
    and "weight_sum ws \<le> (1 + 1001 * epsilon) * sum_list ws"
proof -
  have S: "0 \<le> sum_list ws"
    using moderate_pos [OF assms(1)] by (auto intro: sum_list_nonneg less_imp_le)
  have m: "\<forall>w \<in> set ws. 2 powi (- 1022) \<le> w"
    using assms(1) tiny_powers(1) by (auto simp: moderate_def)
  show "(1 - 1000 * epsilon) * sum_list ws \<le> weight_sum ws"
    using order_trans [OF mult_right_mono [OF epsilon_powers(1) [OF assms(2)] S]]
      weight_sum_bounds [OF m, of 0] by (simp only: weight_sum_def add_0)
  show "weight_sum ws \<le> (1 + 1001 * epsilon) * sum_list ws"
    using order_trans [OF _ mult_right_mono [OF epsilon_powers(2) [OF assms(2)] S]]
      weight_sum_bounds [OF m, of 0] by (simp only: weight_sum_def add_0)
qed

lemma sum_list_pos: "ws \<noteq> [] \<Longrightarrow> \<forall>w \<in> set ws. 0 < w \<Longrightarrow> 0 < (sum_list ws :: rat)"
proof (induction ws)
  case (Cons w ws)
  then show ?case by (cases ws) auto
qed simp

lemma frac_regroup: "a * ((a * x) / (b * y)) = (a * a / b) * (x / y :: rat)"
  by simp

lemma moderate_weight_sum:
  assumes "moderate ws" "length ws \<le> 1000"
  shows "weight_sum ws \<le> 2 ^ 511"
proof -
  have "sum_list ws \<le> sum_list (map (\<lambda>_. 2 ^ 500) ws)"
    using assms(1) by (intro sum_list_mono [where f = "\<lambda>w. w", simplified map_ident]) (simp add: moderate_def)
  also have "\<dots> = of_nat (length ws) * 2 ^ 500" by (simp add: sum_list_triv)
  also have "\<dots> \<le> 1000 * 2 ^ 500" using assms(2) by (intro mult_right_mono) (simp_all add: of_nat_le_numeral_iff)
  finally have "sum_list ws \<le> 1000 * 2 ^ 500" .
  then have "(1 + 1001 * epsilon) * sum_list ws \<le> (1 + 1001 * epsilon) * (1000 * 2 ^ 500)"
    by (intro mult_left_mono) simp_all
  also have "\<dots> \<le> 2 ^ 511" by simp
  finally show ?thesis using weight_sum_error(2) [OF assms] by linarith
qed

lemma quota_error:
  assumes ws: "moderate ws" "length ws \<le> 1000" and t: "0 \<le> t" and w: "w \<in> set ws"
  shows "(1 - 1003 * epsilon) * (of_int t * w / sum_list ws) \<le> quota t (weight_sum ws) w"
    and "quota t (weight_sum ws) w \<le> (1 + 1003 * epsilon) * (of_int t * w / sum_list ws)"
proof -
  let ?S = "sum_list ws" and ?S' = "weight_sum ws"
  define A where "A = dbl (of_int t * w)"
  have wpos: "0 < w" "2 powi (- 500) \<le> w" using ws(1) w moderate_pos by (auto simp: moderate_def)
  have S: "0 < ?S" using moderate_pos [OF ws(1)] w by (intro sum_list_pos) auto
  have S': "(1 - 1000 * epsilon) * ?S \<le> ?S'" "?S' \<le> (1 + 1001 * epsilon) * ?S"
    using weight_sum_error [OF ws] by blast+
  have pos': "0 < ?S'" by (rule less_le_trans [OF _ S'(1)]) (use S in simp)
  have tw: "0 \<le> of_int t * w" using t wpos by simp
  have tw': "2 powi (- 500) \<le> of_int t * w \<or> of_int t * w = 0"
  proof (cases "t = 0")
    case False
    then have "1 \<le> (of_int t :: rat)" using t by simp
    from mult_right_mono [OF this less_imp_le [OF wpos(1)]] show ?thesis using wpos(2) by linarith
  qed simp
  then have tw'': "2 powi (- 1022) \<le> of_int t * w \<or> of_int t * w = 0" using tiny_powers(1) by linarith
  have A: "(1 - epsilon) * (of_int t * w) \<le> A" "A \<le> (1 + epsilon) * (of_int t * w)" "0 \<le> A"
    using dbl_between [OF tw''] dbl_nonneg [OF tw] by (simp_all only: A_def mult.commute)
  have AS: "2 powi (- 1022) \<le> A / ?S' \<or> A / ?S' = 0"
  proof (cases "of_int t * w = 0")
    case False
    then have "(1 - epsilon) * 2 powi (- 500) \<le> (1 - epsilon) * (of_int t * w)"
      using tw' by (intro mult_left_mono) simp_all
    then have "(1 - epsilon) * 2 powi (- 500) \<le> A" using A(1) by linarith
    then have "(1 - epsilon) * 2 powi (- 500) / 2 ^ 511 \<le> A / ?S'"
      using A(3) pos' moderate_weight_sum [OF ws] by (intro frac_le) simp_all
    moreover have "(2 :: rat) powi (- 1022) \<le> (1 - epsilon) * 2 powi (- 500) / 2 ^ 511"
      by (simp add: power_int_minus)
    ultimately show ?thesis by linarith
  next
    case True
    then have "A = 0" by (simp only: A_def dbl_zero)
    then show ?thesis by simp
  qed
  have Q: "(1 - epsilon) * (A / ?S') \<le> quota t ?S' w" "quota t ?S' w \<le> (1 + epsilon) * (A / ?S')"
    using dbl_between [OF AS] by (simp_all only: quota_def A_def mult.commute)
  have "A / ?S' \<le> ((1 + epsilon) * (of_int t * w)) / ((1 - 1000 * epsilon) * ?S)"
    using A S S'(1) by (intro frac_le) simp_all
  then have "(1 + epsilon) * (A / ?S') \<le>
      (1 + epsilon) * (((1 + epsilon) * (of_int t * w)) / ((1 - 1000 * epsilon) * ?S))"
    by (rule mult_left_mono) simp
  also have "\<dots> = ((1 + epsilon) * (1 + epsilon) / (1 - 1000 * epsilon)) * (of_int t * w / ?S)"
    by (simp only: frac_regroup)
  also have "\<dots> \<le> (1 + 1003 * epsilon) * (of_int t * w / ?S)"
    using tw S by (intro mult_right_mono divide_nonneg_pos) simp_all
  finally show "quota t ?S' w \<le> (1 + 1003 * epsilon) * (of_int t * w / ?S)"
    using Q(2) by linarith
  have "((1 - epsilon) * (of_int t * w)) / ((1 + 1001 * epsilon) * ?S) \<le> A / ?S'"
    using A S'(2) pos' by (intro frac_le) simp_all
  then have low: "(1 - epsilon) * (((1 - epsilon) * (of_int t * w)) / ((1 + 1001 * epsilon) * ?S)) \<le>
      (1 - epsilon) * (A / ?S')"
    by (rule mult_left_mono) simp
  have "(1 - 1003 * epsilon) * (of_int t * w / ?S) \<le>
      ((1 - epsilon) * (1 - epsilon) / (1 + 1001 * epsilon)) * (of_int t * w / ?S)"
    using tw S by (intro mult_right_mono divide_nonneg_pos) simp_all
  also have "\<dots> = (1 - epsilon) * (((1 - epsilon) * (of_int t * w)) / ((1 + 1001 * epsilon) * ?S))"
    by (simp only: frac_regroup)
  finally show "(1 - 1003 * epsilon) * (of_int t * w / ?S) \<le> quota t ?S' w"
    using low Q(1) by linarith
qed

lemma foldl_dbl_nonneg: "\<forall>w \<in> set ws. 0 < w \<Longrightarrow> 0 \<le> a \<Longrightarrow> 0 \<le> foldl (\<lambda>s w. dbl (s + w)) a ws"
proof (induction ws arbitrary: a)
  case (Cons w ws)
  then have "0 \<le> dbl (a + w)" by (intro dbl_nonneg) simp
  then show ?case using Cons by simp
qed simp

lemma weight_sum_nonneg: "\<forall>w \<in> set ws. 0 < w \<Longrightarrow> 0 \<le> weight_sum ws"
  by (simp add: weight_sum_def foldl_dbl_nonneg)

lemma quota_nonneg: "\<forall>w \<in> set ws. 0 < w \<Longrightarrow> 0 \<le> t \<Longrightarrow> w \<in> set ws \<Longrightarrow> 0 \<le> quota t (weight_sum ws) w"
  by (auto simp: quota_def less_imp_le weight_sum_nonneg intro!: dbl_nonneg divide_nonneg_nonneg mult_nonneg_nonneg)

lemma sum_list_exact:
  fixes ws :: "rat list"
  assumes "ws \<noteq> []" "\<forall>w \<in> set ws. 0 < w"
  shows "sum_list (map (\<lambda>w. c * (of_int t * w / sum_list ws)) ws) = c * of_int t"
proof -
  have "sum_list (map (\<lambda>w. c * (of_int t * w / sum_list ws)) ws) =
      (c * of_int t / sum_list ws) * sum_list ws"
    using sum_list_const_mult [of "c * of_int t / sum_list ws" "\<lambda>w. w" ws] by (simp add: mult_ac)
  then show ?thesis using sum_list_pos [OF assms] by simp
qed

lemma floor_sum_bounds:
  "of_int (sum_list (map floor qs)) \<le> (sum_list qs :: rat)"
  "sum_list qs \<le> of_int (sum_list (map floor qs)) + of_nat (length qs)"
proof (induction qs)
  case (Cons q qs)
  have "of_int \<lfloor>q\<rfloor> \<le> q" "q \<le> of_int \<lfloor>q\<rfloor> + 1" by linarith+
  note q = this
  { case 1 show ?case using add_mono [OF q(1) Cons(1)] by simp }
  { case 2 show ?case using add_mono [OF q(2) Cons(2)] by simp }
qed simp_all

lemma remaining_bounds:
  assumes ws: "ws \<noteq> []" "moderate ws" "length ws \<le> 1000"
    and t: "0 \<le> t" "t \<le> 10 ^ 12"
  defines "r \<equiv> t - sum_list (map floor (map (quota t (weight_sum ws)) ws))"
  shows "0 \<le> r" "r \<le> int (length ws)"
proof -
  let ?qs = "map (quota t (weight_sum ws)) ws"
  have t12: "of_int t \<le> (10 :: rat) ^ 12"
    using t(2) by (metis of_int_le_iff of_int_numeral of_int_power)
  have "sum_list ?qs \<le> sum_list (map (\<lambda>w. (1 + 1003 * epsilon) * (of_int t * w / sum_list ws)) ws)"
    using quota_error(2) [OF ws(2,3) t(1)] by (intro sum_list_mono) blast
  also have "\<dots> = (1 + 1003 * epsilon) * of_int t" by (rule sum_list_exact) (use ws(1) moderate_pos [OF ws(2)] in blast)+
  also have "\<dots> < of_int t + 1" using t12 by simp
  finally have "of_int (sum_list (map floor ?qs)) < (of_int (t + 1) :: rat)"
    using floor_sum_bounds(1) [of ?qs] by simp
  then show "0 \<le> r" unfolding r_def of_int_less_iff by simp
  have "of_int t - 1 < (1 - 1003 * epsilon) * of_int t" using t12 by simp
  also have "\<dots> = sum_list (map (\<lambda>w. (1 - 1003 * epsilon) * (of_int t * w / sum_list ws)) ws)"
    by (rule sum_list_exact [symmetric]) (use ws(1) moderate_pos [OF ws(2)] in blast)+
  also have "\<dots> \<le> sum_list ?qs"
    using quota_error(1) [OF ws(2,3) t(1)] by (intro sum_list_mono) blast
  finally have "of_int t - 1 < of_int (sum_list (map floor ?qs)) + (of_nat (length ws) :: rat)"
    using floor_sum_bounds(2) [of ?qs] by simp
  then have "(of_int (t - 1) :: rat) < of_int (sum_list (map floor ?qs) + int (length ws))" by simp
  then have "t - 1 < sum_list (map floor ?qs) + int (length ws)" unfolding of_int_less_iff .
  then show "r \<le> int (length ws)" unfolding r_def by simp
qed

subsection \<open>The allocation succeeds and is exact\<close>

lemma validateNonNegativeInteger_int [simp]:
  "0 \<le> t \<Longrightarrow> validateNonNegativeInteger name (Num (of_int t)) = Inr t"
  by simp

lemma valid_weights_positive:
  "\<forall>w \<in> set ws. 0 < w \<Longrightarrow> valid_weights (map Num ws) = Inr ws"
  by (induction ws) auto

lemma valid_weightsD: "valid_weights vs = Inr ws \<Longrightarrow> vs = map Num ws \<and> (\<forall>w \<in> set ws. 0 < w)"
  by (induction vs arbitrary: ws rule: valid_weights.induct) (auto split: if_splits sum.splits)

lemma validateNonNegativeIntegerD:
  "validateNonNegativeInteger name x = Inr t \<Longrightarrow> x = Num (of_int t) \<and> 0 \<le> t"
  by (cases x) (auto split: if_splits)

lemma validateAllocationInput_valid:
  assumes "0 \<le> t" "ws \<noteq> []" "\<forall>w \<in> set ws. 0 < w"
  shows "validateAllocationInput (Num (of_int t)) (map Num ws) = Inr (t, ws)"
  using assms by (simp add: validateAllocationInput_def valid_weights_positive del: validateNonNegativeInteger.simps)

lemma moderate_quotas:
  assumes "ws \<noteq> []" "moderate ws" "length ws \<le> 1000" and t: "0 \<le> t" "t \<le> 10 ^ 12"
  shows "quotas_of t ws = Inr (map (quota t (weight_sum ws)) ws)"
proof -
  have t12: "of_int t \<le> (10 :: rat) ^ 12" using t(2) by (metis of_int_le_iff of_int_numeral of_int_power)
  have "\<not> overflows (dbl (of_int t * w))" if "w \<in> set ws" for w
  proof -
    have w: "0 < w" "w \<le> 2 ^ 500" using that assms(2) moderate_pos by (auto simp: moderate_def)
    have "of_int t * w \<le> 10 ^ 12 * 2 ^ 500" using w t12 t(1) by (intro mult_mono) simp_all
    then have "dbl (of_int t * w) \<le> dbl (2 ^ 600)"
      by (intro dbl_mono) (rule order_trans, assumption, simp)
    also have "\<dots> \<le> 2 ^ 600 * (1 + 1 / 2 ^ 53)"
    proof -
      have "(2 :: rat) powi (- 1022) \<le> 2 powi 600" by (intro power_int_increasing) simp_all
      then show ?thesis using dbl_between [of "2 ^ 600"] by simp
    qed
    also have "\<dots> < 2 ^ 1024" by simp
    finally show ?thesis using dbl_nonneg [of "of_int t * w"] t(1) w(1) by (simp add: overflows_def)
  qed
  moreover have "\<not> overflows (weight_sum ws)"
  proof -
    have "weight_sum ws < 2 ^ 1024" by (rule le_less_trans [OF moderate_weight_sum [OF assms(2,3)]]) simp
    moreover have "0 \<le> weight_sum ws" using moderate_pos [OF assms(2)] weight_sum_nonneg by blast
    ultimately show ?thesis by (simp add: overflows_def)
  qed
  ultimately show ?thesis by (simp add: quotas_of_def list_ex_iff)
qed

lemma allocate_ok:
  assumes ws: "ws \<noteq> []" "moderate ws" "length ws \<le> 1000"
    and t: "0 \<le> t" "t \<le> 10 ^ 12"
  obtains counts where
    "allocateByLargestRemainder (Num (of_int t)) (map Num ws) = Inr counts"
    "length counts = length ws" "sum_list counts = t"
    "\<And>i. i < length ws \<Longrightarrow>
       counts ! i \<in> {\<lfloor>quota t (weight_sum ws) (ws ! i)\<rfloor>, \<lfloor>quota t (weight_sum ws) (ws ! i)\<rfloor> + 1}"
proof (cases "t = 0")
  case True
  have "allocateByLargestRemainder (Num (of_int t)) (map Num ws) = Inr (map (\<lambda>_. 0) ws)"
    using True validateAllocationInput_valid [OF t(1) ws(1)] moderate_pos [OF ws(2)]
    by (simp add: allocateByLargestRemainder_def)
  moreover have "quota t (weight_sum ws) w = 0" for w by (simp add: quota_def True)
  ultimately show thesis
    using that [of "map (\<lambda>_. 0) ws"] by (simp add: True sum_list_triv)
next
  case False
  define qs where "qs = map (quota t (weight_sum ws)) ws"
  have r: "0 \<le> t - sum_list (map floor qs)" "t - sum_list (map floor qs) \<le> int (length qs)"
    using remaining_bounds [OF ws t] by (simp_all add: qs_def)
  obtain counts where c:
    "distribute (rankings qs) (map floor qs, t - sum_list (map floor qs)) = (counts, 0)"
    "length counts = length qs" "sum_list counts = sum_list (map floor qs) + (t - sum_list (map floor qs))"
    "\<And>i. i < length qs \<Longrightarrow> counts ! i \<in> {\<lfloor>qs ! i\<rfloor>, \<lfloor>qs ! i\<rfloor> + 1}"
    using distribute_total [OF r] by blast
  have pos: "\<forall>w \<in> set ws. 0 < w" using moderate_pos [OF ws(2)] by blast
  show thesis
  proof (rule that)
    have "allocateByLargestRemainder (Num (of_int t)) (map Num ws) =
      (let quotas = qs; baseSeats = map floor quotas; remaining = t - sum_list baseSeats
       in if remaining < 0 then Inl (AllocationInvariantError ''base allocation exceeded total'')
          else let (counts, left) = distribute (rankings quotas) (baseSeats, remaining)
               in if left \<noteq> 0 then Inl (AllocationInvariantError ''failed to exhaust seats'')
                  else if sum_list counts \<noteq> t then Inl (AllocationInvariantError ''sum mismatch'')
                  else Inr counts)"
      unfolding allocateByLargestRemainder_def validateAllocationInput_valid [OF t(1) ws(1) pos]
      using False by (simp only: sum.case prod.case if_False qs_def moderate_quotas [OF ws t] Let_def)
    also have "\<dots> = Inr counts"
      using r(1) c(1,3) by (simp add: Let_def)
    finally show "allocateByLargestRemainder (Num (of_int t)) (map Num ws) = Inr counts" .
  qed (use c in \<open>simp_all add: qs_def\<close>)
qed

text \<open>A percentage that leaves each side empty or at least a 2^40th of a percent.\<close>

definition splitting :: "rat \<Rightarrow> bool" where
  "splitting p \<longleftrightarrow> p = 0 \<or> p = 100 \<or> 1 / 2 ^ 40 \<le> p \<and> p \<le> 100 - 1 / 2 ^ 40"

lemma splitting_range: "splitting p \<Longrightarrow> 0 \<le> p \<and> p \<le> 100"
  by (auto simp: splitting_def)

lemma splitting_moderate:
  assumes "splitting p" "p \<noteq> 0" "p \<noteq> 100"
  shows "moderate [p, dbl (100 - p)]"
proof -
  have p: "1 / 2 ^ 40 \<le> p" "p \<le> 100 - 1 / 2 ^ 40" using assms by (auto simp: splitting_def)
  have "(2 :: rat) powi (- 500) \<le> 2 powi (- 41)" by (intro power_int_increasing) simp_all
  also have "\<dots> = 1 / 2 ^ 41" by (simp add: power_int_minus)
  finally have tiny: "(2 :: rat) powi (- 500) \<le> 1 / 2 ^ 41" .
  have big: "(100 :: rat) \<le> 2 ^ 500" by simp
  have q: "1 / 2 ^ 40 \<le> 100 - p" "100 - p \<le> 100" using p by simp_all
  have "2 powi (- 1022) \<le> 100 - p"
  proof -
    have "(1 :: rat) / 2 ^ 41 \<le> 1 / 2 ^ 40" by simp
    then show ?thesis using q(1) tiny tiny_powers(1) by linarith
  qed
  then have "(100 - p) * (1 - 1 / 2 ^ 53) \<le> dbl (100 - p)" using dbl_between by blast
  moreover have "1 / 2 ^ 40 * (1 - 1 / 2 ^ 53) \<le> (100 - p) * (1 - 1 / 2 ^ 53)"
    using q(1) by (intro mult_right_mono) simp_all
  moreover have "(1 :: rat) / 2 ^ 41 \<le> 1 / 2 ^ 40 * (1 - 1 / 2 ^ 53)" by simp
  ultimately have "2 powi (- 500) \<le> dbl (100 - p)" using tiny by linarith
  moreover have "dbl (100 - p) \<le> 100" using dbl_le_int [of 100 "100 - p"] q by simp
  then have "dbl (100 - p) \<le> 2 ^ 500" using big by linarith
  moreover have "(1 :: rat) / 2 ^ 41 \<le> 1 / 2 ^ 40" by simp
  then have "2 powi (- 500) \<le> p" using tiny p by linarith
  moreover have "p \<le> 2 ^ 500" using splitting_range [OF assms(1)] big by linarith
  ultimately show ?thesis unfolding moderate_def by simp
qed

lemma allocateTestAndHoldout_ok:
  assumes "0 \<le> n" "n \<le> 10 ^ 12" "splitting p"
  obtains a b where "allocateTestAndHoldout (Num (of_int n)) (Num p) = Inr (a, b)"
    "a + b = n" "0 \<le> a" "0 \<le> b"
proof (cases "n = 0 \<or> p = 0 \<or> p = 100")
  case True
  define a where "a = (if p = 0 then 0 else n)"
  have "0 \<le> p" "p \<le> 100" using splitting_range [OF assms(3)] by simp_all
  then have "allocateTestAndHoldout (Num (of_int n)) (Num p) = Inr (a, n - a)"
    using assms True
    by (auto simp: a_def allocateTestAndHoldout_def simp del: validateNonNegativeInteger.simps)
  then show thesis using assms(1) by (intro that [of a "n - a"]) (simp_all add: a_def)
next
  case False
  define ws where "ws = [p, dbl (100 - p)]"
  have ws: "ws \<noteq> []" "moderate ws" "length ws \<le> 1000"
    using False splitting_moderate [OF assms(3)] by (auto simp: ws_def)
  obtain counts where c:
    "allocateByLargestRemainder (Num (of_int n)) (map Num ws) = Inr counts"
    "length counts = length ws" "sum_list counts = n"
    "\<And>i. i < length ws \<Longrightarrow>
       counts ! i \<in> {\<lfloor>quota n (weight_sum ws) (ws ! i)\<rfloor>, \<lfloor>quota n (weight_sum ws) (ws ! i)\<rfloor> + 1}"
    using allocate_ok [OF ws assms(1,2)] by blast
  obtain a b where ab: "counts = [a, b]"
    using c(2) by (auto simp: ws_def length_Suc_conv)
  have "0 \<le> counts ! i" if "i < 2" for i
  proof -
    have "0 \<le> quota n (weight_sum ws) (ws ! i)"
      by (rule quota_nonneg [OF _ assms(1)]) (use moderate_pos [OF ws(2)] that in \<open>auto simp: ws_def less_2_cases_iff\<close>)
    then show ?thesis using c(4) [of i] that by (auto simp: ws_def)
  qed
  from this [of 0] this [of 1] have "0 \<le> a" "0 \<le> b" by (simp_all add: ab)
  moreover have "allocateTestAndHoldout (Num (of_int n)) (Num p) = Inr (a, b)"
    using False splitting_range [OF assms(3)] assms(1) c(1)
    by (simp add: allocateTestAndHoldout_def ws_def ab del: validateNonNegativeInteger.simps)
  moreover have "a + b = n" using c(3) by (simp add: ab)
  ultimately show thesis by (intro that [of a b]) simp_all
qed

subsection \<open>Whatever is returned distributes the total\<close>

lemma distribute_increases:
  "distribute is (counts, r) = (counts', r') \<Longrightarrow>
     length counts' = length counts \<and> (\<forall>i < length counts. counts ! i \<le> counts' ! i)"
proof (induction "is" arbitrary: counts r)
  case (Cons i "is")
  show ?case
  proof (cases "r \<le> 0")
    case True
    with Cons.prems show ?thesis by simp
  next
    case False
    with Cons.prems have "distribute is (counts[i := counts ! i + 1], r - 1) = (counts', r')" by simp
    note IH = Cons.IH [OF this]
    have "counts ! j \<le> counts' ! j" if "j < length counts" for j
    proof -
      have "counts ! j \<le> counts[i := counts ! i + 1] ! j"
        using that by (cases "j = i") simp_all
      also have "\<dots> \<le> counts' ! j" using IH that by simp
      finally show ?thesis .
    qed
    with IH show ?thesis by simp
  qed
qed simp

lemma allocate_Inr:
  assumes "allocateByLargestRemainder (Num (of_int t)) vs = Inr counts"
  shows "length counts = length vs" "sum_list counts = t" "\<forall>n \<in> set counts. 0 \<le> n" "vs \<noteq> []" "0 \<le> t"
proof -
  obtain t' ws where "validateAllocationInput (Num (of_int t)) vs = Inr (t', ws)"
    using assms by (auto simp: allocateByLargestRemainder_def split: sum.splits)
  then have v: "validateAllocationInput (Num (of_int t)) vs = Inr (t, ws)" "0 \<le> t" "vs \<noteq> []"
      "vs = map Num ws" "\<forall>w \<in> set ws. 0 < w"
    by (auto simp: validateAllocationInput_def split: sum.splits if_splits dest: valid_weightsD)
  have "length counts = length vs \<and> sum_list counts = t \<and> (\<forall>n \<in> set counts. 0 \<le> n)"
  proof (cases "t = 0")
    case True
    with assms v show ?thesis
      by (auto simp: allocateByLargestRemainder_def sum_list_triv)
  next
    case False
    obtain qs where qs: "quotas_of t ws = Inr qs"
      using assms v(1) False by (auto simp: allocateByLargestRemainder_def split: sum.splits)
    obtain cs left where d:
      "distribute (rankings qs) (map floor qs, t - sum_list (map floor qs)) = (cs, left)"
      by fastforce
    from assms have cs: "counts = cs" "sum_list counts = t"
      unfolding allocateByLargestRemainder_def v(1)
      using False d qs by (auto simp: Let_def split: if_splits)
    have len: "length qs = length ws" and "\<forall>q \<in> set qs. 0 \<le> q"
      using qs quota_nonneg [OF v(5,2)] by (auto simp: quotas_of_def Let_def split: if_splits)
    then have "0 \<le> q" if "q \<in> set qs" for q using that by blast
    then have "0 \<le> counts ! i" if "i < length counts" for i
      using distribute_increases [OF d] that order_trans [of 0 "map floor qs ! i" "cs ! i"]
      by (simp add: cs)
    then show ?thesis
      using distribute_increases [OF d] cs v(4) len by (auto simp: in_set_conv_nth)
  qed
  with v show "length counts = length vs" "sum_list counts = t" "\<forall>n \<in> set counts. 0 \<le> n" "vs \<noteq> []" "0 \<le> t"
    by simp_all
qed

lemma allocateTestAndHoldout_Inr:
  assumes "allocateTestAndHoldout (Num (of_int n)) p = Inr (a, b)" "0 \<le> n"
  shows "a + b = n \<and> 0 \<le> a \<and> 0 \<le> b"
proof -
  obtain q where q: "p = Num q"
    using assms by (cases p) (auto simp: allocateTestAndHoldout_def split: sum.splits)
  show ?thesis
  proof (cases "n = 0 \<or> q = 0 \<or> q = 100")
    case True
    with assms q show ?thesis
      by (auto simp: allocateTestAndHoldout_def simp del: validateNonNegativeInteger.simps split: if_splits)
  next
    case False
    with assms q obtain counts where
      c: "allocateByLargestRemainder (Num (of_int n)) [Num q, Num (dbl (100 - q))] = Inr counts"
        "a = counts ! 0" "b = counts ! 1"
      by (auto simp: allocateTestAndHoldout_def simp del: validateNonNegativeInteger.simps
          split: if_splits sum.splits)
    from allocate_Inr(1) [OF c(1)] obtain x y where "counts = [x, y]"
      by (auto simp: length_Suc_conv)
    with allocate_Inr [OF c(1)] c(2,3) show ?thesis by simp
  qed
qed

lemma quota_close:
  assumes "moderate ws" "length ws \<le> 1000" "0 \<le> t" "t \<le> 10 ^ 12" "w \<in> set ws"
  shows "\<bar>quota t (weight_sum ws) w - of_int t * w / sum_list ws\<bar> < 1 / 8"
proof -
  note pos = moderate_pos [OF assms(1)]
  have S: "0 < sum_list ws" using pos assms(5) by (intro sum_list_pos) auto
  have t12: "of_int t \<le> (10 :: rat) ^ 12"
    using assms(4) by (metis of_int_le_iff of_int_numeral of_int_power)
  have "w \<le> sum_list ws"
    using pos assms(5) by (intro member_le_sum_list) (auto simp: less_imp_le)
  then have "of_int t * w / sum_list ws \<le> of_int t"
    using S assms(3) by (simp add: pos_divide_le_eq mult_left_mono)
  then have "of_int t * w / sum_list ws \<le> 10 ^ 12" using t12 by linarith
  moreover have "0 \<le> of_int t * w / sum_list ws"
    using S pos assms(3,5) by (intro divide_nonneg_pos mult_nonneg_nonneg) (auto simp: less_imp_le)
  moreover note quota_error [OF assms(1,2,3,5)]
  moreover define x where "x = of_int t * w / sum_list ws"
  moreover define y where "y = quota t (weight_sum ws) w"
  ultimately have "x \<le> 10 ^ 12" "0 \<le> x" "(1 - 1003 * epsilon) * x \<le> y" "y \<le> (1 + 1003 * epsilon) * x"
    by simp_all
  then have "y - x < 1 / 8" "x - y < 1 / 8" by simp_all
  then have "\<bar>y - x\<bar> < 1 / 8" by (simp only: abs_less_iff minus_diff_eq)
  then show ?thesis by (simp add: x_def y_def)
qed

lemma near_quota:
  fixes q x :: rat
  assumes "c \<in> {\<lfloor>q\<rfloor>, \<lfloor>q\<rfloor> + 1}" "\<bar>q - x\<bar> < 1 / 8"
  shows "\<bar>of_int c - x\<bar> < 1 + 1 / 8"
proof -
  have "of_int \<lfloor>q\<rfloor> \<le> q" "q < of_int \<lfloor>q\<rfloor> + 1" by linarith+
  moreover have "of_int c = (of_int \<lfloor>q\<rfloor> :: rat) \<or> of_int c = (of_int \<lfloor>q\<rfloor> :: rat) + 1"
    using assms(1) by auto
  ultimately show ?thesis using assms(2) unfolding abs_less_iff by linarith
qed

end
