(* ===== verification/Abtest_Audience.thy ===== *)
theory Abtest_Audience
  imports Ops_Prelude "HOL-Library.List_Lexorder" "HOL-Library.Char_ord" "HOL-Library.Multiset"
begin

section \<open>Resolving the audience of an experiment\<close>

text \<open>
  \<open>audience.ts\<close>: the resolver reads each source list page by page from the
  Listmonk client, keeps the enabled subscribers, checks that numeric ids and
  uuids are one to one, drops duplicates across lists and stamps a checksum.
  The client (\<open>list_subscribers\<close>, by list id, page and page size) and SHA-256
  are parameters.  The lemmas: the state of the resolver stays consistent
  (\<open>resolver_ok\<close>), and over a client that serves a list as consecutive pages
  the pages read are the whole list.
\<close>

record audience_member =
  subscriberId :: int
  subscriberUuid :: string
  subscriberEmail :: "string option"

record audience_snapshot =
  capturedAt :: instant
  sourceListIds :: "int list"
  subscriberCount :: nat
  subscriberChecksum :: string

text \<open>A subscriber as the client returns it: an absent or null field is \<open>None\<close>.\<close>

record subscriber =
  sub_id :: "int option"
  sub_uuid :: "string option"
  sub_status :: "string option"
  sub_email :: "string option"

datatype audience_error =
    QueryFailed int nat string
  | MissingIdentity
  | UuidMapsToTwoIds string int int
  | IdMapsToTwoUuids int string string
  | NoSourceLists
  | NotResolved

type_synonym subscriber_client = "int \<Rightarrow> nat \<Rightarrow> nat \<Rightarrow> string + subscriber list"

definition isEligibleSubscriber :: "subscriber \<Rightarrow> bool" where
  "isEligibleSubscriber s = (sub_status s = Some ''enabled'')"

definition groupChecksum :: "(string \<Rightarrow> string) \<Rightarrow> string list \<Rightarrow> string" where
  "groupChecksum sha256 uuids = sha256 (join [CHR 0x0A] (sort uuids))"

definition buildAudienceSnapshot ::
  "(string \<Rightarrow> string) \<Rightarrow> int list \<Rightarrow> audience_member list \<Rightarrow> instant \<Rightarrow> audience_snapshot" where
  "buildAudienceSnapshot sha256 listIds members now =
     \<lparr>capturedAt = now, sourceListIds = sort listIds, subscriberCount = length members,
      subscriberChecksum = groupChecksum sha256 (map subscriberUuid members)\<rparr>"

record resolver_state =
  seen :: "string \<rightharpoonup> int"
  idToUuid :: "int \<rightharpoonup> string"
  collected :: "audience_member list"

definition empty_resolver :: resolver_state where
  "empty_resolver = \<lparr>seen = Map.empty, idToUuid = Map.empty, collected = []\<rparr>"

definition assertUniqueUuid :: "resolver_state \<Rightarrow> subscriber \<Rightarrow> audience_error + int \<times> string" where
  "assertUniqueUuid st s =
     (case (sub_id s, sub_uuid s) of
        (Some i, Some u) \<Rightarrow>
          if u = '''' then Inl MissingIdentity
          else (case seen st u of
                  Some j \<Rightarrow>
                    if j \<noteq> i then Inl (UuidMapsToTwoIds u j i)
                    else (case idToUuid st i of
                            Some v \<Rightarrow> if v \<noteq> u then Inl (IdMapsToTwoUuids i v u) else Inr (i, u)
                          | None \<Rightarrow> Inr (i, u))
                | None \<Rightarrow>
                    (case idToUuid st i of
                       Some v \<Rightarrow> if v \<noteq> u then Inl (IdMapsToTwoUuids i v u) else Inr (i, u)
                     | None \<Rightarrow> Inr (i, u)))
      | _ \<Rightarrow> Inl MissingIdentity)"

definition add_subscriber :: "resolver_state \<Rightarrow> subscriber \<Rightarrow> audience_error + resolver_state" where
  "add_subscriber st s =
     (if \<not> isEligibleSubscriber s then Inr st
      else case assertUniqueUuid st s of
             Inl e \<Rightarrow> Inl e
           | Inr (i, u) \<Rightarrow>
               Inr (if seen st u \<noteq> None then st
                    else \<lparr>seen = (seen st)(u \<mapsto> i), idToUuid = (idToUuid st)(i \<mapsto> u),
                          collected = collected st @
                            [\<lparr>subscriberId = i, subscriberUuid = u, subscriberEmail = sub_email s\<rparr>]\<rparr>))"

fun add_page :: "resolver_state \<Rightarrow> subscriber list \<Rightarrow> audience_error + resolver_state" where
  "add_page st [] = Inr st"
| "add_page st (s # ss) =
     (case add_subscriber st s of Inl e \<Rightarrow> Inl e | Inr st' \<Rightarrow> add_page st' ss)"

definition maxPages :: nat where
  "maxPages = 10000"

text \<open>The pages of one list: two consecutive empty pages or a short page end it.\<close>

function resolve_list ::
  "subscriber_client \<Rightarrow> nat \<Rightarrow> int \<Rightarrow> nat \<Rightarrow> nat \<Rightarrow> resolver_state \<Rightarrow> audience_error + resolver_state" where
  "resolve_list client pageSize l page emptyPages st =
     (if maxPages < page then Inr st
      else case client l page pageSize of
             Inl e \<Rightarrow> Inl (QueryFailed l page e)
           | Inr subscribers \<Rightarrow>
               if subscribers = [] then
                 if 2 \<le> emptyPages + 1 then Inr st
                 else resolve_list client pageSize l (page + 1) (emptyPages + 1) st
               else (case add_page st subscribers of
                       Inl e \<Rightarrow> Inl e
                     | Inr st' \<Rightarrow>
                         if length subscribers < pageSize then Inr st'
                         else resolve_list client pageSize l (page + 1) 0 st'))"
  by pat_completeness auto
termination by (relation "measure (\<lambda>(_, _, _, page, _). Suc maxPages - page)") auto

declare resolve_list.simps [simp del]

fun resolve_lists ::
  "subscriber_client \<Rightarrow> nat \<Rightarrow> int list \<Rightarrow> resolver_state \<Rightarrow> audience_error + resolver_state" where
  "resolve_lists client pageSize [] st = Inr st"
| "resolve_lists client pageSize (l # ls) st =
     (case resolve_list client pageSize l 1 0 st of
        Inl e \<Rightarrow> Inl e
      | Inr st' \<Rightarrow> resolve_lists client pageSize ls st')"

fun positive_id :: "js_number \<Rightarrow> int list" where
  "positive_id (Num q) = (if isInteger (Num q) \<and> 0 < q then [\<lfloor>q\<rfloor>] else [])"
| "positive_id _ = []"

definition dedupedListIds :: "js_number list \<Rightarrow> int list" where
  "dedupedListIds ids = sort (concat (map positive_id (remdups ids)))"

definition resolve_audience ::
  "(string \<Rightarrow> string) \<Rightarrow> subscriber_client \<Rightarrow> nat option \<Rightarrow> instant \<Rightarrow> js_number list \<Rightarrow>
     audience_error + audience_snapshot \<times> audience_member list" where
  "resolve_audience sha256 client pageSizeOption now ids =
     (let pageSize = (case pageSizeOption of Some n \<Rightarrow> n | None \<Rightarrow> 500);
          ls = dedupedListIds ids
      in if ls = [] then Inl NoSourceLists
         else case resolve_lists client pageSize ls empty_resolver of
                Inl e \<Rightarrow> Inl e
              | Inr st \<Rightarrow> Inr (buildAudienceSnapshot sha256 ls (collected st) now, collected st))"

text \<open>The resolver object: \<open>members\<close> before a successful \<open>resolve\<close> throws.\<close>

definition audience_members ::
  "(audience_snapshot \<times> audience_member list) option \<Rightarrow> audience_error + audience_member list" where
  "audience_members cached =
     (case cached of None \<Rightarrow> Inl NotResolved | Some (_, members) \<Rightarrow> Inr members)"

subsection \<open>Consistency of the resolver state\<close>

text \<open>
  The two maps are inverse to each other and list exactly the collected
  members, whose uuids and ids are distinct.
\<close>

definition resolver_ok :: "resolver_state \<Rightarrow> bool" where
  "resolver_ok st \<longleftrightarrow>
     (\<forall>u i. seen st u = Some i \<longleftrightarrow> idToUuid st i = Some u) \<and>
     (\<forall>u i. seen st u = Some i \<longleftrightarrow> (u, i) \<in> (\<lambda>m. (subscriberUuid m, subscriberId m)) ` set (collected st)) \<and>
     distinct (map subscriberUuid (collected st)) \<and> distinct (map subscriberId (collected st))"

lemma resolver_okD:
  assumes "resolver_ok st"
  shows "seen st u = Some i \<longleftrightarrow> idToUuid st i = Some u"
    and "seen st u = Some i \<longleftrightarrow> (u, i) \<in> (\<lambda>m. (subscriberUuid m, subscriberId m)) ` set (collected st)"
    and "distinct (map subscriberUuid (collected st))"
    and "distinct (map subscriberId (collected st))"
  using assms unfolding resolver_ok_def by blast+

lemma resolver_ok_empty: "resolver_ok empty_resolver"
  by (simp add: resolver_ok_def empty_resolver_def)

lemma assertUniqueUuidD:
  assumes "assertUniqueUuid st s = Inr (i, u)"
  shows "sub_id s = Some i" "sub_uuid s = Some u" "u \<noteq> ''''"
    "seen st u = None \<or> seen st u = Some i" "idToUuid st i = None \<or> idToUuid st i = Some u"
  using assms by (auto simp: assertUniqueUuid_def split: option.splits if_splits)

definition member_of :: "subscriber \<Rightarrow> (string \<times> int) option" where
  "member_of s =
     (if isEligibleSubscriber s then
        (case (sub_uuid s, sub_id s) of (Some u, Some i) \<Rightarrow> Some (u, i) | _ \<Rightarrow> None)
      else None)"

abbreviation identities :: "audience_member list \<Rightarrow> (string \<times> int) set" where
  "identities ms \<equiv> (\<lambda>m. (subscriberUuid m, subscriberId m)) ` set ms"

abbreviation enabled_identities :: "subscriber list \<Rightarrow> (string \<times> int) set" where
  "enabled_identities ss \<equiv> {p. \<exists>s \<in> set ss. member_of s = Some p}"

lemma add_subscriber_ok:
  assumes ok: "resolver_ok st" and add: "add_subscriber st s = Inr st'"
  shows "resolver_ok st'"
    and "identities (collected st') = identities (collected st) \<union> enabled_identities [s]"
proof -
  have "resolver_ok st' \<and>
    identities (collected st') = identities (collected st) \<union> enabled_identities [s]"
  proof (cases "isEligibleSubscriber s")
    case False
    with add ok show ?thesis by (simp add: add_subscriber_def member_of_def)
  next
    case True
    with add obtain i u where a: "assertUniqueUuid st s = Inr (i, u)"
      by (auto simp: add_subscriber_def split: sum.splits)
    note iu = assertUniqueUuidD [OF a]
    have m: "enabled_identities [s] = {(u, i)}"
      using True iu(1,2) by (simp add: member_of_def)
    show ?thesis
    proof (cases "seen st u")
      case (Some j)
      then have "j = i" using iu(4) by simp
      then have "(u, i) \<in> identities (collected st)"
        using resolver_okD(2) [OF ok] Some by simp
      moreover have "st' = st" using True add a Some by (simp add: add_subscriber_def)
      ultimately show ?thesis using ok m by auto
    next
      case None
      let ?m = "\<lparr>subscriberId = i, subscriberUuid = u, subscriberEmail = sub_email s\<rparr>"
      have st': "st' = \<lparr>seen = (seen st)(u \<mapsto> i), idToUuid = (idToUuid st)(i \<mapsto> u),
          collected = collected st @ [?m]\<rparr>"
        using True add a None by (simp add: add_subscriber_def)
      have i: "idToUuid st i = None"
        using iu(5) resolver_okD(1) [OF ok, of u i] None by auto
      have fresh: "u \<notin> subscriberUuid ` set (collected st)" "i \<notin> subscriberId ` set (collected st)"
        using None i resolver_okD(1,2) [OF ok] by (force simp: image_iff)+
      have gone: "idToUuid st j \<noteq> Some u" "seen st v \<noteq> Some i" for j v
        using None i resolver_okD(1) [OF ok] by (metis option.distinct(1))+
      have "resolver_ok st'"
        unfolding resolver_ok_def st'
        using resolver_okD [OF ok] fresh None i gone by (auto simp: image_iff)
      moreover have "identities (collected st') = identities (collected st) \<union> enabled_identities [s]"
        unfolding m by (simp add: st')
      ultimately show ?thesis ..
    qed
  qed
  then show "resolver_ok st'"
    "identities (collected st') = identities (collected st) \<union> enabled_identities [s]" by blast+
qed

lemma add_page_ok:
  assumes "resolver_ok st" "add_page st ss = Inr st'"
  shows "resolver_ok st' \<and>
    identities (collected st') = identities (collected st) \<union> enabled_identities ss"
  using assms
proof (induction ss arbitrary: st)
  case (Cons s ss)
  then obtain st1 where st1: "add_subscriber st s = Inr st1" "add_page st1 ss = Inr st'"
    by (auto split: sum.splits)
  show ?case
    using Cons.IH [OF add_subscriber_ok(1) [OF Cons.prems(1) st1(1)] st1(2)]
      add_subscriber_ok(2) [OF Cons.prems(1) st1(1)] by auto
qed simp

lemma resolve_list_ok:
  assumes "resolver_ok st" "resolve_list client ps l page e st = Inr st'"
  shows "resolver_ok st'"
  using assms
proof (induction client ps l page e st rule: resolve_list.induct)
  case (1 client ps l page e st)
  show ?case
  proof (cases "maxPages < page")
    case True
    with "1.prems" show ?thesis by (simp add: resolve_list.simps [of client ps l page])
  next
    case False
    then obtain ss where ss: "client l page ps = Inr ss"
      using "1.prems"(2) by (auto simp: resolve_list.simps [of client ps l page] split: sum.splits)
    show ?thesis
    proof (cases "ss = []")
      case True
      then show ?thesis
        using "1.prems" "1.IH"(1) [OF False ss True] False ss
        by (auto simp: resolve_list.simps [of client ps l page] split: if_splits)
    next
      case ne: False
      then obtain st1 where st1: "add_page st ss = Inr st1"
        using "1.prems"(2) False ss
        by (auto simp: resolve_list.simps [of client ps l page] split: sum.splits)
      have ok1: "resolver_ok st1" using add_page_ok [OF "1.prems"(1) st1] by blast
      show ?thesis
        using "1.prems"(2) "1.IH"(2) [OF False ss ne st1 _ ok1] False ss ne st1 ok1
        by (auto simp: resolve_list.simps [of client ps l page] split: if_splits)
    qed
  qed
qed

lemma resolve_lists_ok:
  "resolver_ok st \<Longrightarrow> resolve_lists client ps ls st = Inr st' \<Longrightarrow> resolver_ok st'"
  by (induction ls arbitrary: st) (auto split: sum.splits intro: resolve_list_ok)

subsection \<open>A client that pages through each list\<close>

text \<open>
  The documented pagination, with the intermittent empty pages some deployments
  answer: \<open>gaps l k\<close> says that page \<open>k\<close> of list \<open>l\<close> comes back empty, the other pages
  hold the consecutive chunks of the list's contents, and pages past the end are
  empty.  \<open>served\<close> counts the chunks answered before a page.
\<close>

definition served :: "(int \<Rightarrow> nat \<Rightarrow> bool) \<Rightarrow> int \<Rightarrow> nat \<Rightarrow> nat" where
  "served gaps l page = length (filter (\<lambda>k. \<not> gaps l k) [1..<page])"

definition paged :: "(int \<Rightarrow> nat \<Rightarrow> bool) \<Rightarrow> (int \<Rightarrow> subscriber list) \<Rightarrow> subscriber_client" where
  "paged gaps contents l page n =
     Inr (if gaps l page then [] else take n (drop (served gaps l page * n) (contents l)))"

definition single_gaps :: "(int \<Rightarrow> nat \<Rightarrow> bool) \<Rightarrow> bool" where
  "single_gaps gaps \<longleftrightarrow> (\<forall>l k. gaps l k \<longrightarrow> \<not> gaps l (k + 1))"

lemma served_next: "1 \<le> page \<Longrightarrow>
    served gaps l (page + 1) = (if gaps l page then served gaps l page else served gaps l page + 1)"
  by (simp add: served_def)

lemma served_first [simp]: "served gaps l 1 = 0" "served gaps l (Suc 0) = 0"
  by (simp_all add: served_def)

lemma served_mono: "p \<le> q \<Longrightarrow> served gaps l p \<le> served gaps l q"
proof (cases "1 \<le> p")
  case True
  assume "p \<le> q"
  then have "[1..<q] = [1..<p] @ [p..<q]" using True upt_add_eq_append [of 1 p "q - p"] by simp
  then show ?thesis by (simp add: served_def)
qed (simp add: served_def)

text \<open>Enabled subscribers of the given ones have an id and a uuid, one to one.\<close>

definition consistent :: "subscriber set \<Rightarrow> bool" where
  "consistent S \<longleftrightarrow>
     (\<forall>s \<in> S. isEligibleSubscriber s \<longrightarrow> (\<exists>i u. sub_id s = Some i \<and> sub_uuid s = Some u \<and> u \<noteq> '''')) \<and>
     (\<forall>s \<in> S. \<forall>t \<in> S. isEligibleSubscriber s \<longrightarrow> isEligibleSubscriber t \<longrightarrow>
        (sub_id s = sub_id t \<longleftrightarrow> sub_uuid s = sub_uuid t))"

lemma add_subscriber_consistent:
  assumes ok: "resolver_ok st" and S: "consistent S" "s \<in> S"
    and seen: "identities (collected st) \<subseteq> {p. \<exists>t \<in> S. member_of t = Some p}"
  obtains st' where "add_subscriber st s = Inr st'"
proof (cases "isEligibleSubscriber s")
  case False
  then show thesis using that by (simp add: add_subscriber_def)
next
  case True
  then obtain i u where iu: "sub_id s = Some i" "sub_uuid s = Some u" "u \<noteq> ''''"
    using S by (auto simp: consistent_def)
  have same: "j = i \<longleftrightarrow> v = u" if "seen st v = Some j" for v j
  proof -
    have "(v, j) \<in> {p. \<exists>t \<in> S. member_of t = Some p}"
      using that resolver_okD(2) [OF ok] seen by blast
    then obtain t where t: "t \<in> S" "isEligibleSubscriber t" "sub_id t = Some j" "sub_uuid t = Some v"
      by (auto simp: member_of_def split: option.splits if_splits)
    have "sub_id t = sub_id s \<longleftrightarrow> sub_uuid t = sub_uuid s"
      using S t(1,2) True unfolding consistent_def by blast
    then show ?thesis using iu t by simp
  qed
  have a: "seen st u = None \<or> seen st u = Some i" using same [of u] by (cases "seen st u") auto
  have "v = u" if "idToUuid st i = Some v" for v
    using that same [of v i] resolver_okD(1) [OF ok, of v i] by simp
  then have b: "idToUuid st i = None \<or> idToUuid st i = Some u" by (cases "idToUuid st i") auto
  have "assertUniqueUuid st s = Inr (i, u)"
    using a b by (elim disjE) (simp_all add: assertUniqueUuid_def iu)
  then show thesis using that True by (simp add: add_subscriber_def)
qed

lemma add_page_consistent:
  assumes "resolver_ok st" "consistent S" "set ss \<subseteq> S"
    "identities (collected st) \<subseteq> {p. \<exists>t \<in> S. member_of t = Some p}"
  shows "\<exists>st'. add_page st ss = Inr st'"
  using assms
proof (induction ss arbitrary: st)
  case (Cons s ss)
  obtain st1 where st1: "add_subscriber st s = Inr st1"
    using add_subscriber_consistent [OF Cons.prems(1,2) _ Cons.prems(4)] Cons.prems(3) by auto
  note ok1 = add_subscriber_ok [OF Cons.prems(1) st1]
  have "\<exists>st'. add_page st1 ss = Inr st'"
    using Cons.prems ok1 by (intro Cons.IH) auto
  then show ?case using st1 by auto
qed simp

lemma enabled_identities_append:
  "enabled_identities (xs @ ys) = enabled_identities xs \<union> enabled_identities ys"
  by auto

lemma resolve_list_paged:
  assumes "resolver_ok st" "consistent S" "set (contents l) \<subseteq> S"
    "identities (collected st) \<subseteq> {p. \<exists>t \<in> S. member_of t = Some p}"
    "0 < ps" "1 \<le> page" "length (contents l) \<le> served gaps l (maxPages + 1) * ps" "single_gaps gaps"
    "e = 0 \<or> \<not> gaps l page \<or> drop (served gaps l page * ps) (contents l) = []"
  shows "\<exists>st'. resolve_list (paged gaps contents) ps l page e st = Inr st' \<and> resolver_ok st' \<and>
    identities (collected st') =
      identities (collected st) \<union> enabled_identities (drop (served gaps l page * ps) (contents l))"
  using assms
proof (induction "paged gaps contents" ps l page e st rule: resolve_list.induct)
  case (1 ps l page e st)
  define rest where "rest = drop (served gaps l page * ps) (contents l)"
  define answer where "answer = (if gaps l page then [] else take ps rest)"
  have client: "paged gaps contents l page ps = Inr answer"
    by (simp add: paged_def rest_def answer_def)
  have rest': "drop (served gaps l (page + 1) * ps) (contents l) = (if gaps l page then rest else drop ps rest)"
    using "1.prems"(6) by (simp add: served_next [unfolded Suc_eq_plus1 [symmetric]] rest_def add.commute)
  note unfold = resolve_list.simps [of "paged gaps contents" ps l page e st]
  have "\<exists>st'. resolve_list (paged gaps contents) ps l page e st = Inr st' \<and> resolver_ok st' \<and>
      identities (collected st') = identities (collected st) \<union> enabled_identities rest"
  proof (cases "maxPages < page")
    case True
    then have "served gaps l (maxPages + 1) * ps \<le> served gaps l page * ps"
      by (intro mult_le_mono1 served_mono) simp
    then have "rest = []"
      unfolding rest_def using "1.prems"(7) by (intro drop_all) (rule order_trans)
    then show ?thesis using True "1.prems"(1) by (simp add: unfold)
  next
    case False
    show ?thesis
    proof (cases "answer = []")
      case True
      then have gap: "gaps l page \<or> rest = []" using "1.prems"(5) by (auto simp: answer_def split: if_splits)
      then have stay: "drop (served gaps l (page + 1) * ps) (contents l) = rest" using rest' by auto
      have sg: "gaps l page \<Longrightarrow> \<not> gaps l (page + 1)" using "1.prems"(8) by (simp add: single_gaps_def)
      have later: "\<exists>st'. resolve_list (paged gaps contents) ps l (page + 1) (e + 1) st = Inr st' \<and> resolver_ok st' \<and>
          identities (collected st') = identities (collected st) \<union> enabled_identities rest" if "\<not> 2 \<le> e + 1"
        using "1.hyps"(1) [OF False client True that "1.prems"(1-5) _ "1.prems"(7,8)] gap sg
        unfolding stay by fastforce
      show ?thesis
      proof (cases "2 \<le> e + 1")
        case True
        then have "rest = []" using "1.prems"(9) gap by (auto simp: rest_def)
        then show ?thesis using True False client \<open>answer = []\<close> "1.prems"(1) by (simp add: unfold)
      next
        case go: False
        then show ?thesis using later False client \<open>answer = []\<close> by (simp add: unfold)
      qed
    next
      case ne: False
      then have page: "answer = take ps rest" "\<not> gaps l page" by (auto simp: answer_def split: if_splits)
      note client = client [unfolded page(1)] and ne = ne [unfolded page(1)]
      have sub: "set (take ps rest) \<subseteq> S"
        using "1.prems"(3) by (auto simp: rest_def dest!: in_set_takeD in_set_dropD)
      obtain st1 where st1: "add_page st (take ps rest) = Inr st1"
        using add_page_consistent [OF "1.prems"(1,2) sub "1.prems"(4)] by blast
      have ok1: "resolver_ok st1"
        and id1: "identities (collected st1) = identities (collected st) \<union> enabled_identities (take ps rest)"
        using add_page_ok [OF "1.prems"(1) st1] by simp_all
      have split: "enabled_identities rest =
          enabled_identities (take ps rest) \<union> enabled_identities (drop ps rest)"
        by (metis append_take_drop_id enabled_identities_append)
      have in1: "identities (collected st1) \<subseteq> {p. \<exists>t \<in> S. member_of t = Some p}"
        unfolding id1 using "1.prems"(4) sub by blast
      show ?thesis
      proof (cases "length (take ps rest) < ps")
        case True
        then have all: "rest = take ps rest" by simp
        have "identities (collected st1) = identities (collected st) \<union> enabled_identities rest"
          by (subst all) (rule id1)
        moreover have "resolve_list (paged gaps contents) ps l page e st = Inr st1"
          using False client ne st1 True by (simp add: unfold del: length_take take_all take_all_iff)
        ultimately show ?thesis using ok1 by blast
      next
        case full: False
        from "1.hyps"(2) [OF False client ne st1 full ok1 "1.prems"(2,3) in1 "1.prems"(5) _ "1.prems"(7,8)]
        obtain st' where "resolve_list (paged gaps contents) ps l (page + 1) 0 st1 = Inr st'" "resolver_ok st'"
          "identities (collected st') = identities (collected st1) \<union> enabled_identities (drop ps rest)"
          using rest' page(2) by auto
        moreover from this(1) have "resolve_list (paged gaps contents) ps l page e st = Inr st'"
          using False client ne st1 full by (simp add: unfold del: length_take take_all take_all_iff)
        ultimately show ?thesis unfolding split id1 Un_assoc by blast
      qed
    qed
  qed
  then show ?case unfolding rest_def .
qed

lemma resolve_lists_paged:
  assumes "resolver_ok st" "consistent S" "\<forall>l \<in> set ls. set (contents l) \<subseteq> S"
    "identities (collected st) \<subseteq> {p. \<exists>t \<in> S. member_of t = Some p}"
    "0 < ps" "\<forall>l \<in> set ls. length (contents l) \<le> served gaps l (maxPages + 1) * ps" "single_gaps gaps"
  shows "\<exists>st'. resolve_lists (paged gaps contents) ps ls st = Inr st' \<and> resolver_ok st' \<and>
    identities (collected st') =
      identities (collected st) \<union> (\<Union>l \<in> set ls. enabled_identities (contents l))"
  using assms
proof (induction ls arbitrary: st)
  case (Cons l ls)
  obtain st1 where st1: "resolve_list (paged gaps contents) ps l 1 0 st = Inr st1" "resolver_ok st1"
    "identities (collected st1) = identities (collected st) \<union> enabled_identities (contents l)"
    using resolve_list_paged [OF Cons.prems(1,2) _ Cons.prems(4,5), of contents l 1 gaps 0] Cons.prems(3,6,7)
    by auto
  have in1: "identities (collected st1) \<subseteq> {p. \<exists>t \<in> S. member_of t = Some p}"
    unfolding st1(3) using Cons.prems(3,4) by auto
  obtain st' where "resolve_lists (paged gaps contents) ps ls st1 = Inr st'" "resolver_ok st'"
    "identities (collected st') = identities (collected st1) \<union> (\<Union>l \<in> set ls. enabled_identities (contents l))"
    using Cons.IH [OF st1(2) Cons.prems(2) _ in1 Cons.prems(5)] Cons.prems(3,6,7) by auto
  then show ?case using st1 by (simp add: Un_assoc)
qed simp

lemma member_of_iff:
  "member_of s = Some (u, i) \<longleftrightarrow>
     sub_status s = Some ''enabled'' \<and> sub_uuid s = Some u \<and> sub_id s = Some i"
  by (auto simp: member_of_def isEligibleSubscriber_def split: option.splits)

end
