(* ===== verification/Abtest_Assignment.thy ===== *)
theory Abtest_Assignment
  imports Abtest_Allocation Abtest_Audience "HOL-Library.Product_Lexorder"
begin

section \<open>Deterministic assignment of subscribers to groups\<close>

text \<open>
  \<open>assignment.ts\<close>: the audience is ranked by a digest of the test id, a seed
  and the uuid, and sliced by exact counts into one group per variant and the
  holdout.  The manifest keeps the counts and checksums; \<open>groupIndexForUuid\<close>
  recovers the group of a subscriber from it.  SHA-256 is a parameter.  The
  lemmas relate ranking, slices and lookup: the ranking does not depend on the
  order of the members, and the lookup returns \<open>i\<close> exactly for the members of
  the \<open>i\<close>-th slice.
\<close>

datatype group_kind = VariantGroup string | HoldoutGroup

record assignment_group =
  group_kind :: group_kind
  expectedCount :: int
  group_checksum :: string

record assignment_manifest =
  mf_seed :: string
  audienceChecksum :: string
  groups :: "assignment_group list"
  assignedCount :: nat

record ab_variant =
  variant_id :: string
  variant_name :: string
  percentage :: js_number

datatype assignment_error = AssignmentError string | AllocationFailed allocation_error

definition ASSIGNMENT_VERSION :: string where
  "ASSIGNMENT_VERSION = ''abtest-assignment:v1''"

definition assignmentDigest :: "(string \<Rightarrow> string) \<Rightarrow> string \<Rightarrow> string \<Rightarrow> string \<Rightarrow> string" where
  "assignmentDigest sha256 testId seed u = sha256 (join [CHR 0x00] [ASSIGNMENT_VERSION, testId, seed, u])"

definition rankMembers ::
  "(string \<Rightarrow> string) \<Rightarrow> string \<Rightarrow> string \<Rightarrow> audience_member list \<Rightarrow> (audience_member \<times> string) list" where
  "rankMembers sha256 testId seed members =
     sort_key (\<lambda>(m, digest). (digest, subscriberUuid m))
       (map (\<lambda>m. (m, assignmentDigest sha256 testId seed (subscriberUuid m))) members)"

definition computeAudienceChecksum :: "(string \<Rightarrow> string) \<Rightarrow> audience_member list \<Rightarrow> string" where
  "computeAudienceChecksum sha256 members = groupChecksum sha256 (map subscriberUuid members)"

abbreviation entry_uuid :: "audience_member \<times> string \<Rightarrow> string" where
  "entry_uuid e \<equiv> subscriberUuid (fst e)"

fun sizes_head :: "int list \<Rightarrow> int" where
  "sizes_head [] = 0"
| "sizes_head (n # ns) = n"

text \<open>The variant groups, and the cursor after the last of them.\<close>

fun variant_groups ::
  "(string \<Rightarrow> string) \<Rightarrow> (audience_member \<times> string) list \<Rightarrow> ab_variant list \<Rightarrow> int list \<Rightarrow> int \<Rightarrow>
     assignment_group list \<times> int" where
  "variant_groups sha256 ranked [] sizes cursor = ([], cursor)"
| "variant_groups sha256 ranked (v # vs) sizes cursor =
     (let n = sizes_head sizes;
          slice = take (nat n) (drop (nat cursor) ranked);
          (gs, end_cursor) = variant_groups sha256 ranked vs (tl sizes) (cursor + n)
      in (\<lparr>group_kind = VariantGroup (variant_id v), expectedCount = n,
           group_checksum = groupChecksum sha256 (map entry_uuid slice)\<rparr> # gs, end_cursor))"

definition buildAssignmentManifest ::
  "(string \<Rightarrow> string) \<Rightarrow> string \<Rightarrow> string \<Rightarrow> audience_snapshot \<Rightarrow> audience_member list \<Rightarrow>
     ab_variant list \<Rightarrow> js_number \<Rightarrow> assignment_error + assignment_manifest" where
  "buildAssignmentManifest sha256 testId seed audience members variants testGroupPercentage =
     (if length members \<noteq> subscriberCount audience then Inl (AssignmentError ''audience size mismatch'')
      else if variants = [] then Inl (AssignmentError ''at least one variant is required'')
      else
        let ranked = rankMembers sha256 testId seed members; n = length ranked
        in case allocateTestAndHoldout (Num (of_nat n)) testGroupPercentage of
             Inl e \<Rightarrow> Inl (AllocationFailed e)
           | Inr (testGroupSize, holdoutGroupSize) \<Rightarrow>
               (case allocateByLargestRemainder (Num (of_int testGroupSize)) (map percentage variants) of
                  Inl e \<Rightarrow> Inl (AllocationFailed e)
                | Inr variantSizes \<Rightarrow>
                    let (vgs, cursor) = variant_groups sha256 ranked variants variantSizes 0;
                        holdout = \<lparr>group_kind = HoldoutGroup, expectedCount = holdoutGroupSize,
                          group_checksum = groupChecksum sha256 (map entry_uuid (drop (nat cursor) ranked))\<rparr>;
                        variantTotal = sum_list (map expectedCount vgs);
                        recomputed = computeAudienceChecksum sha256 members
                    in if variantTotal \<noteq> testGroupSize then Inl (AssignmentError ''variant sizes sum'')
                       else if variantTotal + holdoutGroupSize \<noteq> int n then Inl (AssignmentError ''manifest total'')
                       else if subscriberChecksum audience \<noteq> '''' \<and> recomputed \<noteq> subscriberChecksum audience
                       then Inl (AssignmentError ''audience checksum mismatch'')
                       else Inr \<lparr>mf_seed = seed, audienceChecksum = recomputed,
                                 groups = vgs @ [holdout], assignedCount = n\<rparr>))"

text \<open>
  The loop over the groups and the positions of each; a position past the end
  of the ranking matches no uuid.
\<close>

fun group_index_from ::
  "(audience_member \<times> string) list \<Rightarrow> assignment_group list \<Rightarrow> int \<Rightarrow> int \<Rightarrow> string \<Rightarrow> int" where
  "group_index_from ranked [] cursor index u = - 1"
| "group_index_from ranked (g # gs) cursor index u =
     (let next_cursor = cursor + expectedCount g
      in if list_ex (\<lambda>p. 0 \<le> p \<and> p < int (length ranked) \<and> entry_uuid (ranked ! nat p) = u)
              [cursor..next_cursor - 1]
         then index
         else group_index_from ranked gs next_cursor (index + 1) u)"

definition groupIndexOfRanked ::
  "(audience_member \<times> string) list \<Rightarrow> assignment_manifest \<Rightarrow> string \<Rightarrow> int" where
  "groupIndexOfRanked ranked manifest u = group_index_from ranked (groups manifest) 0 0 u"

definition rankAndVerifyMembers ::
  "(string \<Rightarrow> string) \<Rightarrow> string \<Rightarrow> assignment_manifest \<Rightarrow> audience_member list \<Rightarrow>
     (audience_member \<times> string) list" where
  "rankAndVerifyMembers sha256 testId manifest members =
     (if computeAudienceChecksum sha256 members \<noteq> audienceChecksum manifest then []
      else rankMembers sha256 testId (mf_seed manifest) members)"

definition groupIndexForUuid ::
  "(string \<Rightarrow> string) \<Rightarrow> assignment_manifest \<Rightarrow> string \<Rightarrow> audience_member list \<Rightarrow> string \<Rightarrow> int" where
  "groupIndexForUuid sha256 manifest testId members u =
     groupIndexOfRanked (rankAndVerifyMembers sha256 testId manifest members) manifest u"

definition groupIndexForUuids ::
  "(string \<Rightarrow> string) \<Rightarrow> assignment_manifest \<Rightarrow> string \<Rightarrow> audience_member list \<Rightarrow> string list \<Rightarrow>
     (string \<rightharpoonup> int)" where
  "groupIndexForUuids sha256 manifest testId members us =
     (let ranked = rankAndVerifyMembers sha256 testId manifest members
      in fold (\<lambda>u result. result(u \<mapsto> groupIndexOfRanked ranked manifest u)) us Map.empty)"

subsection \<open>Ranking\<close>

text \<open>Sorting by a key that is injective on the elements ignores their order.\<close>

lemma sort_key_mset_eq:
  assumes "mset xs = mset ys" "inj_on f (set xs)"
  shows "sort_key f xs = sort_key f ys"
proof -
  have "set xs = set ys" by (rule mset_eq_setD [OF assms(1)])
  moreover have keys: "map f (sort_key f zs) = sort (map f zs)" for zs
    by (rule sym, rule properties_for_sort) simp_all
  have "sort (map f xs) = sort (map f ys)"
    by (rule properties_for_sort) (simp_all add: assms(1))
  ultimately show ?thesis
    using inj_on_map_eq_map [of f "sort_key f xs" "sort_key f ys"] assms(2) by (simp add: keys)
qed

lemma entry_uuids_rank:
  "mset (map entry_uuid (rankMembers sha256 testId seed members)) = mset (map subscriberUuid members)"
  by (simp add: rankMembers_def image_mset.compositionality o_def)

lemma length_rank [simp]: "length (rankMembers sha256 testId seed members) = length members"
  by (simp add: rankMembers_def)

lemma rank_permutation:
  assumes "mset members = mset members'" "distinct (map subscriberUuid members)"
  shows "rankMembers sha256 testId seed members = rankMembers sha256 testId seed members'"
  unfolding rankMembers_def
proof (rule sort_key_mset_eq)
  show "inj_on (\<lambda>(m, digest). (digest, subscriberUuid m))
      (set (map (\<lambda>m. (m, assignmentDigest sha256 testId seed (subscriberUuid m))) members))"
    using assms(2) by (auto simp: inj_on_def distinct_map)
qed (simp add: assms(1))

lemma groupChecksum_mset: "mset us = mset vs \<Longrightarrow> groupChecksum sha256 us = groupChecksum sha256 vs"
  unfolding groupChecksum_def by (metis properties_for_sort mset_sort sorted_sort)

subsection \<open>Slices\<close>

fun slices :: "nat list \<Rightarrow> 'a list \<Rightarrow> 'a list list" where
  "slices [] xs = []"
| "slices (n # ns) xs = take n xs # slices ns (drop n xs)"

lemma length_slices [simp]: "length (slices ns xs) = length ns"
  by (induction ns arbitrary: xs) auto

lemma concat_slices: "sum_list ns = length xs \<Longrightarrow> concat (slices ns xs) = xs"
  by (induction ns arbitrary: xs) auto

lemma length_nth_slices:
  "sum_list ns \<le> length xs \<Longrightarrow> i < length ns \<Longrightarrow> length (slices ns xs ! i) = ns ! i"
  by (induction ns arbitrary: xs i) (auto simp: nth_Cons split: nat.splits)

lemma slices_append:
  "slices (ns @ ms) xs = slices ns xs @ slices ms (drop (sum_list ns) xs)"
  by (induction ns arbitrary: xs) (auto simp: add.commute)

lemma variant_groups_spec:
  assumes "\<forall>n \<in> set sizes. 0 \<le> n" "length sizes = length vs" "0 \<le> c"
  shows "map expectedCount (fst (variant_groups sha256 ranked vs sizes c)) = sizes \<and>
    map group_checksum (fst (variant_groups sha256 ranked vs sizes c)) =
      map (\<lambda>s. groupChecksum sha256 (map entry_uuid s)) (slices (map nat sizes) (drop (nat c) ranked)) \<and>
    snd (variant_groups sha256 ranked vs sizes c) = c + sum_list sizes"
  using assms
proof (induction sha256 ranked vs sizes c rule: variant_groups.induct)
  case (2 sha256 ranked v vs sizes cursor)
  obtain n ns where sizes: "sizes = n # ns" using "2.prems"(2) by (cases sizes) auto
  with "2.prems" have n: "0 \<le> n" "0 \<le> cursor" by auto
  note IH = "2.IH" [OF refl refl, unfolded sizes sizes_head.simps list.sel]
  have IH: "map expectedCount (fst (variant_groups sha256 ranked vs ns (cursor + n))) = ns \<and>
    map group_checksum (fst (variant_groups sha256 ranked vs ns (cursor + n))) =
      map (\<lambda>s. groupChecksum sha256 (map entry_uuid s)) (slices (map nat ns) (drop (nat (cursor + n)) ranked)) \<and>
    snd (variant_groups sha256 ranked vs ns (cursor + n)) = cursor + n + sum_list ns"
    using "2.prems" n by (intro IH) (simp_all add: sizes)
  show ?case
    using IH n by (simp add: sizes case_prod_unfold Let_def nat_add_distrib add.commute)
qed simp

text \<open>The lookup finds the first slice that holds the uuid.\<close>

lemma list_ex_positions:
  assumes "0 \<le> c" "0 \<le> n"
  shows "list_ex (\<lambda>p. 0 \<le> p \<and> p < int (length ranked) \<and> entry_uuid (ranked ! nat p) = u) [c..c + n - 1]
     \<longleftrightarrow> u \<in> entry_uuid ` set (take (nat n) (drop (nat c) ranked))"
    (is "?L \<longleftrightarrow> ?R")
proof
  assume ?L
  then obtain p where p: "c \<le> p" "p < c + n" "p < int (length ranked)" "entry_uuid (ranked ! nat p) = u"
    by (auto simp: list_ex_iff)
  let ?s = "take (nat n) (drop (nat c) ranked)"
  have "nat p - nat c < length ?s" "?s ! (nat p - nat c) = ranked ! nat p"
    using p assms by auto
  then show ?R using p(4) by (metis image_eqI nth_mem)
next
  assume ?R
  then obtain k where k: "k < length (take (nat n) (drop (nat c) ranked))"
      "entry_uuid (take (nat n) (drop (nat c) ranked) ! k) = u"
    by (auto simp: in_set_conv_nth)
  then have "0 \<le> c + int k" "c + int k < int (length ranked)" "c + int k \<in> set [c..c + n - 1]"
    "entry_uuid (ranked ! nat (c + int k)) = u"
    using assms by (auto simp: nat_add_distrib)
  then show ?L by (auto simp: list_ex_iff simp del: set_upto)
qed

lemma group_index_slices:
  assumes "\<forall>g \<in> set gs. 0 \<le> expectedCount g" "0 \<le> c"
  shows "group_index_from ranked gs c k u =
    (case findIndex (\<lambda>s. u \<in> entry_uuid ` set s)
      (slices (map (nat \<circ> expectedCount) gs) (drop (nat c) ranked)) of None \<Rightarrow> - 1 | Some i \<Rightarrow> k + int i)"
  using assms
proof (induction ranked gs c k u rule: group_index_from.induct)
  case (2 ranked g gs c k u)
  then have n: "0 \<le> expectedCount g" "0 \<le> c" by simp_all
  show ?case
  proof (cases "u \<in> entry_uuid ` set (take (nat (expectedCount g)) (drop (nat c) ranked))")
    case True
    then show ?thesis using list_ex_positions [OF n(2,1), of ranked u] by (simp add: Let_def)
  next
    case False
    then show ?thesis
      using list_ex_positions [OF n(2,1), of ranked u] 2 n
      by (auto simp: Let_def nat_add_distrib add.commute split: option.splits)
  qed
qed simp

subsection \<open>The manifest describes a partition\<close>

lemma build_Inr:
  assumes "buildAssignmentManifest sha256 testId seed audience members variants p = Inr m"
  defines "ranked \<equiv> rankMembers sha256 testId seed members"
  shows "\<forall>g \<in> set (groups m). 0 \<le> expectedCount g"
    and "sum_list (map (nat \<circ> expectedCount) (groups m)) = length members"
    and "length (groups m) = length variants + 1"
    and "map group_checksum (groups m) =
      map (\<lambda>s. groupChecksum sha256 (map entry_uuid s)) (slices (map (nat \<circ> expectedCount) (groups m)) ranked)"
    and "audienceChecksum m = computeAudienceChecksum sha256 members"
    and "mf_seed m = seed" and "assignedCount m = length members"
proof -
  have len: "length ranked = length members" by (simp add: ranked_def)
  from assms(1) obtain a b sizes where
    ab: "allocateTestAndHoldout (Num (of_int (int (length members)))) p = Inr (a, b)" and
    sizes: "allocateByLargestRemainder (Num (of_int a)) (map percentage variants) = Inr sizes"
    unfolding buildAssignmentManifest_def
    by (auto simp: Let_def split: if_splits sum.splits prod.splits)
  define vgs cursor where "vgs = fst (variant_groups sha256 ranked variants sizes 0)"
    and "cursor = snd (variant_groups sha256 ranked variants sizes 0)"
  define h where "h = \<lparr>group_kind = HoldoutGroup, expectedCount = b,
      group_checksum = groupChecksum sha256 (map entry_uuid (drop (nat cursor) ranked))\<rparr>"
  have m: "m = \<lparr>mf_seed = seed, audienceChecksum = computeAudienceChecksum sha256 members,
      groups = vgs @ [h], assignedCount = length members\<rparr>"
    using assms(1) ab sizes
    by (auto simp: buildAssignmentManifest_def Let_def case_prod_unfold h_def vgs_def cursor_def ranked_def
        split: if_splits)
  note s = allocate_Inr [OF sizes]
  note t = allocateTestAndHoldout_Inr [OF ab]
  have vg: "map expectedCount vgs = sizes" "cursor = a"
    "map group_checksum vgs = map (\<lambda>s. groupChecksum sha256 (map entry_uuid s)) (slices (map nat sizes) ranked)"
    using variant_groups_spec [of sizes variants 0 sha256 ranked] s by (simp_all add: vgs_def cursor_def)
  have nat_sizes: "sum_list (map nat sizes) = nat a"
    using s(2,3) by (induction sizes arbitrary: a) (auto simp: nat_add_distrib sum_list_nonneg)
  have ab_sum: "nat a + nat b = length members" using t by linarith
  have counts: "map expectedCount (groups m) = sizes @ [b]" by (simp add: m vg h_def)
  then have ncounts: "map (nat \<circ> expectedCount) (groups m) = map nat sizes @ [nat b]"
    by (metis (no_types, lifting) list.map_comp list.simps(8,9) map_append)
  show "\<forall>g \<in> set (groups m). 0 \<le> expectedCount g"
    using arg_cong [OF counts, of set] s(3) t by (auto simp: image_iff)
  show "sum_list (map (nat \<circ> expectedCount) (groups m)) = length members"
    unfolding ncounts by (simp add: nat_sizes ab_sum)
  show "length (groups m) = length variants + 1"
    using arg_cong [OF counts, of length] s(1) by simp
  have "map group_checksum (groups m) = map group_checksum vgs @ [groupChecksum sha256 (map entry_uuid (drop (nat a) ranked))]"
    by (simp add: m h_def vg)
  moreover have "take (nat b) (drop (nat a) ranked) = drop (nat a) ranked"
    using ab_sum len by simp
  ultimately show "map group_checksum (groups m) =
      map (\<lambda>s. groupChecksum sha256 (map entry_uuid s)) (slices (map (nat \<circ> expectedCount) (groups m)) ranked)"
    unfolding ncounts slices_append vg(3) by (simp add: nat_sizes)
  show "audienceChecksum m = computeAudienceChecksum sha256 members" "mf_seed m = seed"
    "assignedCount m = length members" by (simp_all add: m)
qed

lemma findIndex_slices:
  assumes "distinct (map f (concat ss))" "i < length ss"
  shows "findIndex (\<lambda>s. u \<in> f ` set s) ss = Some i \<longleftrightarrow> u \<in> f ` set (ss ! i)"
  using assms
proof (induction ss arbitrary: i)
  case (Cons s ss)
  show ?case
  proof (cases i)
    case (Suc j)
    have "u \<notin> f ` set s" if "u \<in> f ` set (ss ! j)"
    proof -
      have "u \<in> f ` set (concat ss)" using that Cons.prems(2) Suc by (auto intro: nth_mem)
      then show ?thesis using Cons.prems(1) by auto
    qed
    then show ?thesis using Cons Suc by auto
  qed (auto split: option.splits)
qed simp

lemma findIndex_slices_None:
  "findIndex (\<lambda>s. u \<in> f ` set s) ss = None \<longleftrightarrow> u \<notin> f ` set (concat ss)"
  by (induction ss) auto

lemma lookup_spec:
  assumes build: "buildAssignmentManifest sha256 testId seed audience members variants p = Inr m"
    and distinct: "distinct (map subscriberUuid members)"
    and perm: "mset members' = mset members"
  defines "idx \<equiv> groupIndexForUuid sha256 m testId members'"
    and "ss \<equiv> slices (map (nat \<circ> expectedCount) (groups m)) (rankMembers sha256 testId seed members)"
  shows "idx u = (case findIndex (\<lambda>s. u \<in> entry_uuid ` set s) ss of None \<Rightarrow> - 1 | Some i \<Rightarrow> int i)"
    and "concat ss = rankMembers sha256 testId seed members"
    and "length ss = length (groups m)"
    and "i < length (groups m) \<Longrightarrow>
      length (ss ! i) = nat (expectedCount (groups m ! i)) \<and>
      group_checksum (groups m ! i) = groupChecksum sha256 (map entry_uuid (ss ! i))"
proof -
  note b = build_Inr [OF build]
  have "mset (map subscriberUuid members') = mset (map subscriberUuid members)"
    using perm by simp
  then have "computeAudienceChecksum sha256 members' = audienceChecksum m"
    unfolding computeAudienceChecksum_def b(5) by (rule groupChecksum_mset)
  then have "rankAndVerifyMembers sha256 testId m members' = rankMembers sha256 testId seed members"
    using rank_permutation [OF perm [symmetric] distinct] by (simp add: rankAndVerifyMembers_def b(6))
  then show "idx u = (case findIndex (\<lambda>s. u \<in> entry_uuid ` set s) ss of None \<Rightarrow> - 1 | Some i \<Rightarrow> int i)"
    using group_index_slices [OF b(1), of 0 "rankMembers sha256 testId seed members" 0 u]
    by (simp add: idx_def ss_def groupIndexForUuid_def groupIndexOfRanked_def cong: option.case_cong)
  show "concat ss = rankMembers sha256 testId seed members"
    unfolding ss_def by (rule concat_slices) (simp add: b(2))
  show "length ss = length (groups m)" by (simp add: ss_def)
  show "length (ss ! i) = nat (expectedCount (groups m ! i)) \<and>
      group_checksum (groups m ! i) = groupChecksum sha256 (map entry_uuid (ss ! i))"
    if "i < length (groups m)"
    using that arg_cong [OF b(4), of "\<lambda>xs. xs ! i"] b(2)
    by (simp add: ss_def length_nth_slices)
qed

lemma mset_slice:
  assumes "distinct (map f (concat ss))" "i < length ss"
    and "mset (map f (concat ss)) = mset us" and "\<And>u. P u \<longleftrightarrow> u \<in> f ` set (ss ! i)"
  shows "mset (map f (ss ! i)) = mset (filter P us)"
proof (rule set_eq_iff_mset_eq_distinct [THEN iffD1])
  have sub: "distinct (map f (ss ! i)) \<and> set (ss ! i) \<subseteq> set (concat ss)"
    using assms(1,2)
  proof (induction ss arbitrary: i)
    case (Cons s ss)
    then show ?case by (cases i) auto
  qed simp
  then show "distinct (map f (ss ! i))" by blast
  show "distinct (filter P us)"
    using mset_eq_imp_distinct_iff [OF assms(3)] assms(1) by simp
  have "f ` set (ss ! i) \<subseteq> f ` set (concat ss)" using sub by (intro image_mono) blast
  also have "\<dots> = set us" using mset_eq_setD [OF assms(3)] by simp
  finally show "set (map f (ss ! i)) = set (filter P us)" by (auto simp: assms(4))
qed

lemma sum_list_int_nat:
  "\<forall>x \<in> set xs. 0 \<le> f x \<Longrightarrow> sum_list (map (nat \<circ> f) xs) = n \<Longrightarrow> sum_list (map f xs) = int n"
  by (induction xs arbitrary: n) auto

lemma build_total:
  assumes "subscriberCount audience = length members"
    and "subscriberChecksum audience = computeAudienceChecksum sha256 members"
    and "length members \<le> 10 ^ 12" and "variants \<noteq> []" and "length variants \<le> 1000"
    and "\<forall>v \<in> set variants. \<exists>w. percentage v = Num w \<and> 2 powi (- 500) \<le> w \<and> w \<le> 2 ^ 500" and "splitting p"
  obtains m where "buildAssignmentManifest sha256 testId seed audience members variants (Num p) = Inr m"
proof -
  define n where "n = int (length members)"
  have n: "0 \<le> n" "n \<le> 10 ^ 12" using assms(3) by (simp_all add: n_def)
  obtain a b where ab: "allocateTestAndHoldout (Num (of_int n)) (Num p) = Inr (a, b)" "a + b = n" "0 \<le> a" "0 \<le> b"
    using allocateTestAndHoldout_ok [OF n assms(7)] by blast
  define ws where "ws = map (\<lambda>v. case percentage v of Num w \<Rightarrow> w | _ \<Rightarrow> 0) variants"
  have ws: "ws \<noteq> []" "length ws \<le> 1000" "moderate ws" "map percentage variants = map Num ws"
    using assms(4,5,6) by (fastforce simp: ws_def moderate_def)+
  obtain sizes where s: "allocateByLargestRemainder (Num (of_int a)) (map percentage variants) = Inr sizes"
    using allocate_ok [OF ws(1,3,2) ab(3)] ab n unfolding ws(4) by fastforce
  note si = allocate_Inr [OF s]
  define ranked where "ranked = rankMembers sha256 testId seed members"
  have vg: "map expectedCount (fst (variant_groups sha256 ranked variants sizes 0)) = sizes"
    using variant_groups_spec [of sizes variants 0 sha256 ranked] si by simp
  show thesis
    by (rule that)
       (use assms ab s si(2) vg in
        \<open>simp add: buildAssignmentManifest_def Let_def case_prod_unfold n_def ranked_def\<close>)
qed

end
