(* ===== verification/Abtest_Properties.thy ===== *)
theory Abtest_Properties
  imports Abtest_Assignment
begin

section \<open>Properties of allocation, audience and assignment\<close>

text \<open>
  The statements about experiments: seats are always distributed exactly, an
  audience is complete and free of duplicates, and a manifest partitions it.
\<close>

text \<open>The inputs of the witnesses.\<close>

definition sample_list :: "int \<Rightarrow> subscriber list" where
  "sample_list l =
     [\<lparr>sub_id = Some 1, sub_uuid = Some ''a'', sub_status = Some ''enabled'', sub_email = None\<rparr>,
      \<lparr>sub_id = Some 2, sub_uuid = None, sub_status = Some ''blocklisted'', sub_email = None\<rparr>,
      \<lparr>sub_id = Some l, sub_uuid = Some (int_text l), sub_status = Some ''enabled'', sub_email = None\<rparr>]"

definition sample_variants :: "ab_variant list" where
  "sample_variants =
     [\<lparr>variant_id = ''A'', variant_name = ''a'', percentage = Num 50\<rparr>,
      \<lparr>variant_id = ''B'', variant_name = ''b'', percentage = Num 50\<rparr>]"

definition sample_members :: "audience_member list" where
  "sample_members =
     [\<lparr>subscriberId = 1, subscriberUuid = ''a'', subscriberEmail = None\<rparr>,
      \<lparr>subscriberId = 7, subscriberUuid = ''7'', subscriberEmail = None\<rparr>,
      \<lparr>subscriberId = 8, subscriberUuid = ''8'', subscriberEmail = None\<rparr>]"

definition sample_snapshot :: audience_snapshot where
  "sample_snapshot = buildAudienceSnapshot id [7, 8] sample_members 0"

definition sample_gaps :: "int \<Rightarrow> nat \<Rightarrow> bool" where
  "sample_gaps l k = (k = 2)"

lemma sample_resolution:
  "resolve_audience id (paged sample_gaps sample_list) (Some 2) 0 [Num 7, Num 8, NotANumber] = Inr (sample_snapshot, sample_members)"
  by code_simp

lemma sample_percentage: "(2 :: rat) powi (- 500) \<le> 50" "(50 :: rat) \<le> 2 ^ 500"
proof -
  have "(2 :: rat) powi (- 500) \<le> 2 powi 0" by (intro power_int_increasing) simp_all
  then show "(2 :: rat) powi (- 500) \<le> 50" by (simp only: power_int_0_right)
  show "(50 :: rat) \<le> 2 ^ 500" by simp
qed

lemma sample_splitting: "splitting 50"
  by (simp add: splitting_def)

lemma sample_build:
  obtains m where "buildAssignmentManifest id ''t'' ''s'' sample_snapshot sample_members sample_variants (Num 50) = Inr m"
proof (rule build_total [where audience = sample_snapshot and ?sha256.0 = id and members = sample_members
        and variants = sample_variants and p = 50 and testId = "''t''" and seed = "''s''"])
  show "\<forall>v \<in> set sample_variants. \<exists>w. percentage v = Num w \<and> 2 powi (- 500) \<le> w \<and> w \<le> 2 ^ 500"
    by (simp add: sample_variants_def sample_percentage)
qed (simp_all add: sample_snapshot_def buildAudienceSnapshot_def computeAudienceChecksum_def
    sample_members_def sample_variants_def sample_splitting that)

text \<open>C9: For up to a thousand groups with weights between \<open>2 powi - 500\<close> and
  \<open>2 ^ 500\<close> and up to \<open>10 ^ 12\<close> recipients the largest-remainder allocation, computed in
  doubles, never raises one of its invariant errors: it returns one count per
  weight, none negative, that sum to the total, and each count differs from the
  group's exact proportional share by less than 1.125.\<close>

theorem allocation_exact:
  assumes "ws \<noteq> []" "length ws \<le> 1000" "\<forall>w \<in> set ws. 2 powi (- 500) \<le> w \<and> w \<le> 2 ^ 500" "0 \<le> t" "t \<le> 10 ^ 12"
  shows "\<exists>counts. allocateByLargestRemainder (Num (of_int t)) (map Num ws) = Inr counts \<and>
    length counts = length ws \<and> sum_list counts = t \<and> (\<forall>n \<in> set counts. 0 \<le> n) \<and>
    (\<forall>i < length ws. \<bar>of_int (counts ! i) - of_int t * ws ! i / sum_list ws\<bar> < 1 + 1 / (8 :: rat))"
proof -
  have m: "moderate ws" using assms(3) by (simp add: moderate_def)
  obtain counts where c: "allocateByLargestRemainder (Num (of_int t)) (map Num ws) = Inr counts"
    "length counts = length ws" "sum_list counts = t"
    "\<And>i. i < length ws \<Longrightarrow>
       counts ! i \<in> {\<lfloor>quota t (weight_sum ws) (ws ! i)\<rfloor>, \<lfloor>quota t (weight_sum ws) (ws ! i)\<rfloor> + 1}"
    using allocate_ok [OF assms(1) m assms(2,4,5)] by blast
  have "\<bar>of_int (counts ! i) - of_int t * ws ! i / sum_list ws\<bar> < 1 + 1 / (8 :: rat)" if i: "i < length ws" for i
    using c(4) [OF i] quota_close [OF m assms(2,4,5) nth_mem [OF i]] by (intro near_quota)
  then show ?thesis using c allocate_Inr(3) [OF c(1)] by blast
qed

lemma allocation_exact_witness:
  "\<exists>counts. allocateByLargestRemainder (Num (of_int 10)) (map Num [1, 1, 1 / 2]) = Inr counts \<and>
    length counts = length [1, 1, 1 / 2 :: rat] \<and> sum_list counts = 10 \<and> (\<forall>n \<in> set counts. 0 \<le> n) \<and>
    (\<forall>i < length [1, 1, 1 / 2 :: rat].
      \<bar>of_int (counts ! i) - of_int 10 * [1, 1, 1 / 2] ! i / sum_list [1, 1, 1 / 2]\<bar> < 1 + 1 / (8 :: rat))"
proof (rule allocation_exact)
  have t: "(2 :: rat) powi (- 500) \<le> 2 powi (- 1)" by (intro power_int_increasing) simp_all
  have "(2 :: rat) powi (- 1) = 1 / 2" by (simp add: power_int_minus)
  then have "(2 :: rat) powi (- 500) \<le> 1 / 2" "(2 :: rat) powi (- 500) \<le> 1" using t by linarith+
  then show "\<forall>w \<in> set [1, 1, 1 / 2]. (2 :: rat) powi (- 500) \<le> w \<and> w \<le> 2 ^ 500" by simp
qed simp_all

text \<open>C10: A manifest partitions its audience.  Whatever the order in which the
  members are later read, every member's lookup returns one group index, nobody
  else's does, group \<open>i\<close> has exactly the members counted by its
  \<open>expectedCount\<close>, and its checksum is the checksum of exactly those members;
  the counts sum to the audience.\<close>

theorem manifest_partitions_audience:
  assumes "buildAssignmentManifest sha256 testId seed audience members variants p = Inr m"
    and "distinct (map subscriberUuid members)" and "mset members' = mset members"
  shows "(\<forall>u. groupIndexForUuid sha256 m testId members' u \<in>
      (if u \<in> subscriberUuid ` set members then {0..int (length variants)} else {- 1})) \<and>
    (\<forall>i \<le> length variants.
       let is_in = (\<lambda>u. groupIndexForUuid sha256 m testId members' u = int i)
       in int (card (Set.filter is_in (subscriberUuid ` set members))) = expectedCount (groups m ! i) \<and>
          group_checksum (groups m ! i) =
            groupChecksum sha256 (filter is_in (map subscriberUuid members))) \<and>
    sum_list (map expectedCount (groups m)) = int (length members)"
proof -
  let ?idx = "groupIndexForUuid sha256 m testId members'"
  let ?us = "map subscriberUuid members"
  define ss where "ss = slices (map (nat \<circ> expectedCount) (groups m)) (rankMembers sha256 testId seed members)"
  note b = build_Inr [OF assms(1)]
  note l = lookup_spec [OF assms, folded ss_def]
  have all: "mset (map entry_uuid (concat ss)) = mset ?us"
    unfolding l(2) by (rule entry_uuids_rank)
  have d: "distinct (map entry_uuid (concat ss))"
    using assms(2) mset_eq_imp_distinct_iff [OF all] by simp
  have idx: "?idx u = int i \<longleftrightarrow> u \<in> entry_uuid ` set (ss ! i)" if "i < length (groups m)" for u i
    using findIndex_slices [OF d, of i u] that l(3) by (auto simp: l(1) split: option.splits)
  have range: "?idx u \<in> (if u \<in> set ?us then {0..int (length variants)} else {- 1})" for u
  proof (cases "findIndex (\<lambda>s. u \<in> entry_uuid ` set s) ss")
    case None
    then have "u \<notin> set ?us"
      using findIndex_slices_None [of u entry_uuid ss] mset_eq_setD [OF all] by simp
    then show ?thesis using None by (simp add: l(1))
  next
    case (Some i)
    then have "u \<in> entry_uuid ` set (concat ss)"
      using findIndex_slices_None [of u entry_uuid ss] by (simp del: set_concat)
    then have "u \<in> set ?us" using mset_eq_setD [OF all] by (simp only: set_map)
    moreover have "i < length ss" using findIndex_SomeD [OF Some] by blast
    ultimately show ?thesis using Some l(3) b(3) by (simp add: l(1))
  qed
  have grp: "int (card (Set.filter (\<lambda>u. ?idx u = int i) (set ?us))) = expectedCount (groups m ! i) \<and>
      group_checksum (groups m ! i) = groupChecksum sha256 (filter (\<lambda>u. ?idx u = int i) ?us)"
    if "i \<le> length variants" for i
  proof -
    have i: "i < length (groups m)" using that b(3) by simp
    have sub: "mset (map entry_uuid (ss ! i)) = mset (filter (\<lambda>u. ?idx u = int i) ?us)"
      using mset_slice [OF d, of i ?us] all idx [OF i] i l(3) by simp
    have "card (Set.filter (\<lambda>u. ?idx u = int i) (set ?us)) = length (filter (\<lambda>u. ?idx u = int i) ?us)"
    proof -
      have "Set.filter (\<lambda>u. ?idx u = int i) (set ?us) = set (filter (\<lambda>u. ?idx u = int i) ?us)" by auto
      then show ?thesis using distinct_card [OF distinct_filter [OF assms(2)]] by metis
    qed
    also have "\<dots> = nat (expectedCount (groups m ! i))"
      using mset_eq_length [OF sub] l(4) [OF i] by simp
    finally show ?thesis
      using b(1) i l(4) [OF i] groupChecksum_mset [OF sub, of sha256] by simp
  qed
  have "sum_list (map expectedCount (groups m)) = int (length members)"
    by (rule sum_list_int_nat [OF b(1,2)])
  then show ?thesis using range grp by (simp add: Let_def)
qed

lemma manifest_partitions_audience_witness:
  "\<exists>m. let members' = rev sample_members in
    (\<forall>u. groupIndexForUuid id m ''t'' members' u \<in>
      (if u \<in> subscriberUuid ` set sample_members then {0..int (length sample_variants)} else {- 1})) \<and>
    (\<forall>i \<le> length sample_variants.
       let is_in = (\<lambda>u. groupIndexForUuid id m ''t'' members' u = int i)
       in int (card (Set.filter is_in (subscriberUuid ` set sample_members))) = expectedCount (groups m ! i) \<and>
          group_checksum (groups m ! i) =
            groupChecksum id (filter is_in (map subscriberUuid sample_members))) \<and>
    sum_list (map expectedCount (groups m)) = int (length sample_members)"
proof -
  obtain m where m: "buildAssignmentManifest id ''t'' ''s'' sample_snapshot sample_members sample_variants (Num 50) = Inr m"
    by (rule sample_build)
  have "distinct (map subscriberUuid sample_members)" by (simp add: sample_members_def)
  from manifest_partitions_audience [OF m this mset_rev] show ?thesis
    unfolding Let_def by blast
qed

text \<open>C11: Over a client that serves each source list as consecutive pages, any of
  which may come back empty as long as no two in a row do, with consistent
  identities and each list served within 10000 pages, the audience is exactly the
  enabled subscribers of the lists: nobody is missed at a page boundary or behind an
  intermittent empty page, nobody is taken twice, and the snapshot counts them.\<close>

theorem audience_complete:
  assumes "dedupedListIds ids \<noteq> []" "0 < ps"
    and "consistent (\<Union>l \<in> set (dedupedListIds ids). set (contents l))"
    and "single_gaps gaps"
    and "\<forall>l \<in> set (dedupedListIds ids). length (contents l) \<le> served gaps l (maxPages + 1) * ps"
  shows "\<exists>snapshot members. resolve_audience sha256 (paged gaps contents) (Some ps) now ids = Inr (snapshot, members) \<and>
    (\<lambda>m. (subscriberUuid m, subscriberId m)) ` set members =
      {(u, i). \<exists>l \<in> set (dedupedListIds ids). \<exists>s \<in> set (contents l).
         sub_status s = Some ''enabled'' \<and> sub_uuid s = Some u \<and> sub_id s = Some i} \<and>
    distinct (map subscriberUuid members) \<and> distinct (map subscriberId members) \<and>
    subscriberCount snapshot = length members \<and>
    subscriberChecksum snapshot = computeAudienceChecksum sha256 members"
proof -
  have sub: "\<forall>l \<in> set (dedupedListIds ids). set (contents l) \<subseteq> (\<Union>l \<in> set (dedupedListIds ids). set (contents l))"
    "identities (collected empty_resolver) \<subseteq>
       {p. \<exists>t \<in> \<Union>l \<in> set (dedupedListIds ids). set (contents l). member_of t = Some p}"
    by (blast, simp add: empty_resolver_def)
  obtain st where st: "resolve_lists (paged gaps contents) ps (dedupedListIds ids) empty_resolver = Inr st"
    "resolver_ok st"
    "identities (collected st) = identities (collected empty_resolver) \<union>
       (\<Union>l \<in> set (dedupedListIds ids). enabled_identities (contents l))"
    using resolve_lists_paged [OF resolver_ok_empty assms(3) sub assms(2,5,4)] by blast
  have "identities (collected st) =
      {(u, i). \<exists>l \<in> set (dedupedListIds ids). \<exists>s \<in> set (contents l).
         sub_status s = Some ''enabled'' \<and> sub_uuid s = Some u \<and> sub_id s = Some i}"
    unfolding st(3)
    by (intro set_eqI iffI; elim case_prodE CollectE UnE UN_E bexE conjE exE; simp add: empty_resolver_def member_of_iff)
      (auto simp: member_of_iff intro!: bexI)
  moreover have "resolve_audience sha256 (paged gaps contents) (Some ps) now ids =
      Inr (buildAudienceSnapshot sha256 (dedupedListIds ids) (collected st) now, collected st)"
    using assms(1) st(1) by (simp add: resolve_audience_def)
  ultimately show ?thesis
    using resolver_okD(3,4) [OF st(2)]
    by (simp add: buildAudienceSnapshot_def computeAudienceChecksum_def)
qed

lemma audience_complete_witness:
  "\<exists>snapshot members. resolve_audience id (paged sample_gaps sample_list) (Some 2) 0 [Num 7, Num 8, NotANumber, Num 7] = Inr (snapshot, members) \<and>
    (\<lambda>m. (subscriberUuid m, subscriberId m)) ` set members =
      {(u, i). \<exists>l \<in> set (dedupedListIds [Num 7, Num 8, NotANumber, Num 7]). \<exists>s \<in> set (sample_list l).
         sub_status s = Some ''enabled'' \<and> sub_uuid s = Some u \<and> sub_id s = Some i} \<and>
    distinct (map subscriberUuid members) \<and> distinct (map subscriberId members) \<and>
    subscriberCount snapshot = length members \<and>
    subscriberChecksum snapshot = computeAudienceChecksum id members"
proof (rule audience_complete)
  have ids: "dedupedListIds [Num 7, Num 8, NotANumber, Num 7] = [7, 8]" by code_simp
  have digits: "int_text 7 = ''7''" "int_text 8 = ''8''" by code_simp+
  show "dedupedListIds [Num 7, Num 8, NotANumber, Num 7] \<noteq> []" by (simp add: ids)
  show "consistent (\<Union>l \<in> set (dedupedListIds [Num 7, Num 8, NotANumber, Num 7]). set (sample_list l))"
    unfolding ids by (simp add: consistent_def sample_list_def isEligibleSubscriber_def digits)
  show "single_gaps sample_gaps" by (simp add: single_gaps_def sample_gaps_def)
  have "served sample_gaps l 4 = 2" for l by (simp add: served_def sample_gaps_def upt_rec [of _ 4])
  moreover have "served sample_gaps l 4 \<le> served sample_gaps l (maxPages + 1)" for l
    by (rule served_mono) (simp add: maxPages_def)
  ultimately have s: "2 \<le> served sample_gaps l (maxPages + 1)" for l by metis
  show "\<forall>l \<in> set (dedupedListIds [Num 7, Num 8, NotANumber, Num 7]).
      length (sample_list l) \<le> served sample_gaps l (maxPages + 1) * 2"
  proof
    fix l show "length (sample_list l) \<le> served sample_gaps l (maxPages + 1) * 2"
      using s [of l] by (simp add: sample_list_def)
  qed
qed simp

text \<open>An audience that was resolved, from any client, is always assigned: with
  its own snapshot, up to 10^12 members, up to a thousand variants with
  percentages between \<open>2 powi - 500\<close> and \<open>2 ^ 500\<close> and a test share whose two sides
  each are nothing or at least \<open>1 / 2 ^ 40\<close> percent, no check of
  \<open>buildAssignmentManifest\<close> fails and everyone is counted.\<close>

theorem resolved_audience_assigned:
  assumes "resolve_audience sha256 client pageSize now ids = Inr (snapshot, members)"
    and "length members \<le> 10 ^ 12" and "variants \<noteq> []" and "length variants \<le> 1000"
    and "\<forall>v \<in> set variants. \<exists>w. percentage v = Num w \<and> 2 powi (- 500) \<le> w \<and> w \<le> 2 ^ 500"
    and "splitting p"
  shows "\<exists>m. buildAssignmentManifest sha256 testId seed snapshot members variants (Num p) = Inr m \<and>
    assignedCount m = length members \<and> length (groups m) = length variants + 1 \<and>
    sum_list (map expectedCount (groups m)) = int (length members) \<and>
    (\<forall>u. groupIndexForUuid sha256 m testId members u = - 1 \<longleftrightarrow> u \<notin> subscriberUuid ` set members)"
proof -
  obtain ps st where r: "resolve_lists client ps (dedupedListIds ids) empty_resolver = Inr st"
    and st': "members = collected st"
      "snapshot = buildAudienceSnapshot sha256 (dedupedListIds ids) (collected st) now"
    using assms(1) by (auto simp: resolve_audience_def Let_def split: if_splits sum.splits)
  note st = resolve_lists_ok [OF resolver_ok_empty r] st'
  obtain m where m: "buildAssignmentManifest sha256 testId seed snapshot members variants (Num p) = Inr m"
    using build_total [where audience = snapshot and ?sha256.0 = sha256 and members = members and variants = variants and p = p and testId = testId and seed = seed] assms(2-) st(3)
    by (auto simp: buildAudienceSnapshot_def computeAudienceChecksum_def st(2))
  have d: "distinct (map subscriberUuid members)" using resolver_okD(3) [OF st(1)] st(2) by simp
  define ss where "ss = slices (map (nat \<circ> expectedCount) (groups m)) (rankMembers sha256 testId seed members)"
  note l = lookup_spec [OF m d refl, folded ss_def]
  have "groupIndexForUuid sha256 m testId members u = - 1 \<longleftrightarrow> u \<notin> subscriberUuid ` set members" for u
  proof -
    have "u \<in> entry_uuid ` set (concat ss) \<longleftrightarrow> u \<in> subscriberUuid ` set members"
      using mset_eq_setD [OF entry_uuids_rank] unfolding l(2) set_map [symmetric] by blast
    then show ?thesis
      using findIndex_slices_None [of u entry_uuid ss]
      by (auto simp: l(1) simp del: set_concat split: option.splits)
  qed
  moreover have "sum_list (map expectedCount (groups m)) = int (length members)"
    by (rule sum_list_int_nat [OF build_Inr(1,2) [OF m]])
  ultimately show ?thesis using m build_Inr(3,7) [OF m] by simp
qed

lemma resolved_audience_assigned_witness:
  "\<exists>m. buildAssignmentManifest id ''t'' ''s'' sample_snapshot sample_members sample_variants (Num 50) = Inr m \<and>
    assignedCount m = length sample_members \<and> length (groups m) = length sample_variants + 1 \<and>
    sum_list (map expectedCount (groups m)) = int (length sample_members) \<and>
    (\<forall>u. groupIndexForUuid id m ''t'' sample_members u = - 1 \<longleftrightarrow> u \<notin> subscriberUuid ` set sample_members)"
  by (rule resolved_audience_assigned [OF sample_resolution])
     (simp_all add: sample_members_def sample_variants_def sample_percentage sample_splitting)

end
