(* ===== verification/Abtest_Stratification.thy ===== *)
theory Abtest_Stratification
  imports Abtest_Assignment "HOL-Library.AList"
begin

section \<open>Stratified quotas by recipient domain\<close>

text \<open>
  \<open>stratification.ts\<close> and its caller in \<open>listmonk-integration.ts\<close>: subscribers
  are classified by the provider of their domain, small strata are merged, and
  a matrix of quotas is computed by largest remainder in every row followed by
  seat swaps that correct the columns.  Records of the code are association
  lists in insertion order; keys that JavaScript would reorder (decimal
  integers) are not modelled.  Quotas are \<open>int\<close>, ideals are doubles.
\<close>

subsection \<open>Classification\<close>

definition after_last_at :: "string \<Rightarrow> string" where
  "after_last_at email = rev (takeWhile (\<lambda>c. c \<noteq> CHR ''@'') (rev email))"

definition normalizeDomain :: "string \<Rightarrow> string" where
  "normalizeDomain email =
     (if CHR ''@'' \<notin> set email \<or> last email = CHR ''@'' then ''''
      else rev (dropWhile (\<lambda>c. c = CHR ''.'') (rev (toLowerCase (trim (after_last_at email))))))"

record stratification_policy =
  policy_enabled :: bool
  providerDomainMap :: "(string \<times> string list) list"
  minimumStratumSize :: int
  unknownStratumKey :: string
  otherStratumKey :: string

definition DEFAULT_STRATIFICATION_POLICY :: stratification_policy where
  "DEFAULT_STRATIFICATION_POLICY =
     \<lparr>policy_enabled = False,
      providerDomainMap =
        [(''gmail'', [''gmail.com'', ''googlemail.com'']), (''naver'', [''naver.com'']),
         (''daum'', [''daum.net'', ''hanmail.net'']), (''kakao'', [''kakao.com''])],
      minimumStratumSize = 20, unknownStratumKey = ''unknown'', otherStratumKey = ''other''\<rparr>"

definition buildProviderLookup :: "stratification_policy \<Rightarrow> (string \<rightharpoonup> string)" where
  "buildProviderLookup policy =
     fold (\<lambda>(provider, domains) lookup.
             fold (\<lambda>raw lookup.
                     let normalized = normalizeDomain (CHR ''@'' # raw)
                     in if normalized \<noteq> '''' then lookup(normalized \<mapsto> provider) else lookup)
               domains lookup)
       (providerDomainMap policy) Map.empty"

definition classifyStratum :: "string \<Rightarrow> stratification_policy \<Rightarrow> string" where
  "classifyStratum email policy =
     (let domain = normalizeDomain email
      in if domain = '''' then unknownStratumKey policy
         else case buildProviderLookup policy domain of
                Some provider \<Rightarrow> provider
              | None \<Rightarrow> otherStratumKey policy)"

type_synonym tally = "(string \<times> int) list"

text \<open>\<open>record[key] ?? 0\<close>\<close>

definition at0 :: "tally \<Rightarrow> string \<Rightarrow> int" where
  "at0 t k = (case map_of t k of Some n \<Rightarrow> n | None \<Rightarrow> 0)"

definition tally_strata :: "stratification_policy \<Rightarrow> string list \<Rightarrow> tally" where
  "tally_strata policy emails =
     fold (\<lambda>e t. let k = classifyStratum e policy in AList.update k (at0 t k + 1) t) emails []"

text \<open>The loop runs over the entries taken before it starts.\<close>

definition merge_small :: "stratification_policy \<Rightarrow> tally \<Rightarrow> tally" where
  "merge_small policy t =
     (if 0 < minimumStratumSize policy then
        fold (\<lambda>(k, n) t.
                if k \<noteq> otherStratumKey policy \<and> n < minimumStratumSize policy
                then AList.delete k (AList.update (otherStratumKey policy) (at0 t (otherStratumKey policy) + n) t)
                else t)
          t t
      else t)"

subsection \<open>The quota matrix\<close>

datatype stratification_error =
    BadStratumSize string
  | BadGroupCount string
  | SumsDiffer int int
  | AudienceNotPositive
  | AudienceDiffers
  | MissingGroup string
  | DidNotConverge string int

record quota_cell =
  stratumKey :: string
  groupKey :: string
  cell_quota :: int
  cell_ideal :: rat

record stratification_result =
  quotas :: "(string \<times> tally) list"
  cells :: "quota_cell list"
  stratumSizes :: tally

fun isNonNegInt :: "js_number \<Rightarrow> bool" where
  "isNonNegInt (Num q) = (isInteger (Num q) \<and> 0 \<le> q)"
| "isNonNegInt _ = False"

fun int_entries :: "(string \<Rightarrow> stratification_error) \<Rightarrow> (string \<times> js_number) list \<Rightarrow> stratification_error + tally" where
  "int_entries bad [] = Inr []"
| "int_entries bad ((k, v) # kvs) =
     (if isNonNegInt v
      then case v of Num q \<Rightarrow>
             (case int_entries bad kvs of Inl e \<Rightarrow> Inl e | Inr t \<Rightarrow> Inr ((k, \<lfloor>q\<rfloor>) # t))
           | _ \<Rightarrow> Inl (bad k)
      else Inl (bad k))"

definition ideal_quota :: "int \<Rightarrow> int \<Rightarrow> int \<Rightarrow> rat" where
  "ideal_quota size_of_stratum exactCount totalAudience =
     dbl (dbl (of_int size_of_stratum * of_int exactCount) / of_int totalAudience)"

fun row_ideals :: "tally \<Rightarrow> int \<Rightarrow> int \<Rightarrow> string list \<Rightarrow> stratification_error + (string \<times> rat) list" where
  "row_ideals counts n audience [] = Inr []"
| "row_ideals counts n audience (g # gs) =
     (case map_of counts g of
        None \<Rightarrow> Inl (MissingGroup g)
      | Some c \<Rightarrow>
          (case row_ideals counts n audience gs of
             Inl e \<Rightarrow> Inl e
           | Inr ids \<Rightarrow> Inr ((g, ideal_quota n c audience) # ids)))"

definition floor_row :: "(string \<times> rat) list \<Rightarrow> tally" where
  "floor_row ids = fold (\<lambda>(g, q) row. AList.update g \<lfloor>q\<rfloor> row) ids []"

definition by_remainder :: "(string \<times> rat) list \<Rightarrow> (string \<times> rat) list" where
  "by_remainder ids = sort_key (\<lambda>(g, q). - dbl (q - of_int \<lfloor>q\<rfloor>)) ids"

fun give_seats :: "(string \<times> rat) list \<Rightarrow> tally \<Rightarrow> int \<Rightarrow> tally" where
  "give_seats [] row remaining = row"
| "give_seats ((g, q) # gs) row remaining =
     (if remaining \<le> 0 then row
      else give_seats gs (AList.update g (at0 row g + 1) row) (remaining - 1))"

definition seat_row :: "int \<Rightarrow> (string \<times> rat) list \<Rightarrow> tally" where
  "seat_row n ids =
     (let row = floor_row ids in give_seats (by_remainder ids) row (n - sum_list (map snd row)))"

definition ideal_of :: "(string \<times> rat) list \<Rightarrow> string \<Rightarrow> rat" where
  "ideal_of ids g = (case map_of ids g of Some q \<Rightarrow> q | None \<Rightarrow> 0)"

definition row_cells :: "string \<Rightarrow> string list \<Rightarrow> (string \<times> rat) list \<Rightarrow> tally \<Rightarrow> quota_cell list" where
  "row_cells k order ids row =
     map (\<lambda>g. \<lparr>stratumKey = k, groupKey = g, cell_quota = at0 row g, cell_ideal = ideal_of ids g\<rparr>) order"

fun seat_rows ::
  "tally \<Rightarrow> string list \<Rightarrow> int \<Rightarrow> tally \<Rightarrow> stratification_error + (string \<times> tally) list \<times> quota_cell list" where
  "seat_rows counts order audience [] = Inr ([], [])"
| "seat_rows counts order audience ((k, n) # strata) =
     (case row_ideals counts n audience order of
        Inl e \<Rightarrow> Inl e
      | Inr ids \<Rightarrow>
          (case seat_rows counts order audience strata of
             Inl e \<Rightarrow> Inl e
           | Inr (rows, cs) \<Rightarrow>
               let row = seat_row n ids in Inr ((k, row) # rows, row_cells k order ids row @ cs)))"

definition column_sum :: "(string \<times> tally) list \<Rightarrow> string \<Rightarrow> int" where
  "column_sum rows g = sum_list (map (\<lambda>(k, row). at0 row g) rows)"

definition column_deficits :: "tally \<Rightarrow> string list \<Rightarrow> (string \<times> tally) list \<Rightarrow> tally" where
  "column_deficits counts order rows =
     fold (\<lambda>g t. AList.update g (at0 counts g - column_sum rows g) t) order []"

text \<open>\<open>idealLookup\<close>, keyed by the two keys joined with a colon.\<close>

definition ideal_key :: "string \<Rightarrow> string \<Rightarrow> string" where
  "ideal_key k g = k @ '':'' @ g"

definition idealLookup :: "quota_cell list \<Rightarrow> (string \<times> rat) list" where
  "idealLookup cs = fold (\<lambda>c l. AList.update (ideal_key (stratumKey c) (groupKey c)) (cell_ideal c) l) cs []"

record seat_swap =
  deficitGroup :: string
  surplusGroup :: string
  swap_stratum :: string
  swap_bounded :: bool
  swap_score :: rat

definition row_of :: "(string \<times> tally) list \<Rightarrow> string \<Rightarrow> tally" where
  "row_of rows k = (case map_of rows k of Some row \<Rightarrow> row | None \<Rightarrow> [])"

definition swap_of ::
  "(string \<times> tally) list \<Rightarrow> (string \<times> rat) list \<Rightarrow> string \<times> string \<times> string \<Rightarrow> seat_swap option" where
  "swap_of rows ideals = (\<lambda>(d, s, k).
     let row = row_of rows k;
         surplusQuota = at0 row s; deficitQuota = at0 row d;
         surplusIdeal = ideal_of ideals (ideal_key k s); deficitIdeal = ideal_of ideals (ideal_key k d)
     in if surplusQuota \<le> 0 \<or> \<lceil>deficitIdeal\<rceil> \<le> deficitQuota then None
        else Some \<lparr>deficitGroup = d, surplusGroup = s, swap_stratum = k,
                   swap_bounded = (\<lfloor>surplusIdeal\<rfloor> < surplusQuota \<and> deficitQuota < \<lceil>deficitIdeal\<rceil>),
                   swap_score = dbl (dbl (of_int surplusQuota - surplusIdeal) - dbl (of_int deficitQuota - deficitIdeal))\<rparr>)"

definition better :: "seat_swap \<Rightarrow> seat_swap option \<Rightarrow> bool" where
  "better s best =
     (case best of None \<Rightarrow> True
      | Some b \<Rightarrow> (swap_bounded s \<and> \<not> swap_bounded b) \<or> (swap_bounded s = swap_bounded b \<and> swap_score b < swap_score s))"

definition bestSwap ::
  "(string \<times> tally) list \<Rightarrow> (string \<times> rat) list \<Rightarrow> string list \<Rightarrow> string list \<Rightarrow> seat_swap option" where
  "bestSwap rows ideals deficitGroups surplusGroups =
     fold (\<lambda>t best. case swap_of rows ideals t of
                       None \<Rightarrow> best
                     | Some s \<Rightarrow> if better s best then Some s else best)
       (concat (map (\<lambda>d. concat (map (\<lambda>s. map (\<lambda>k. (d, s, k)) (map fst rows)) surplusGroups)) deficitGroups))
       None"

definition apply_swap :: "seat_swap \<Rightarrow> (string \<times> tally) list \<Rightarrow> (string \<times> tally) list" where
  "apply_swap s rows =
     (let row = row_of rows (swap_stratum s);
          row1 = AList.update (deficitGroup s) (at0 row (deficitGroup s) + 1) row;
          row2 = AList.update (surplusGroup s) (at0 row1 (surplusGroup s) - 1) row1
      in AList.update (swap_stratum s) row2 rows)"

definition settle_deficits :: "seat_swap \<Rightarrow> tally \<Rightarrow> tally" where
  "settle_deficits s t =
     (let t1 = AList.update (deficitGroup s) (at0 t (deficitGroup s) - 1) t
      in AList.update (surplusGroup s) (at0 t1 (surplusGroup s) + 1) t1)"

fun correct_columns ::
  "nat \<Rightarrow> string list \<Rightarrow> (string \<times> rat) list \<Rightarrow> (string \<times> tally) list \<times> tally \<Rightarrow> (string \<times> tally) list \<times> tally" where
  "correct_columns 0 order ideals (rows, deficits) = (rows, deficits)"
| "correct_columns (Suc iter) order ideals (rows, deficits) =
     (let deficitGroups = filter (\<lambda>g. 0 < at0 deficits g) order;
          surplusGroups = filter (\<lambda>g. at0 deficits g < 0) order
      in if deficitGroups = [] \<or> surplusGroups = [] then (rows, deficits)
         else case bestSwap rows ideals deficitGroups surplusGroups of
                None \<Rightarrow> (rows, deficits)
              | Some s \<Rightarrow> correct_columns iter order ideals (apply_swap s rows, settle_deficits s deficits))"

definition maxIterations :: "(string \<times> tally) list \<Rightarrow> string list \<Rightarrow> nat" where
  "maxIterations rows order = length rows * length order * length order + 16"

definition computeStratifiedQuotas ::
  "(string \<times> js_number) list \<Rightarrow> (string \<times> js_number) list \<Rightarrow> string list \<Rightarrow> int \<Rightarrow>
     stratification_error + stratification_result" where
  "computeStratifiedQuotas sizes counts order audience =
     (case int_entries BadStratumSize sizes of
        Inl e \<Rightarrow> Inl e
      | Inr strata \<Rightarrow>
          (case int_entries BadGroupCount counts of
             Inl e \<Rightarrow> Inl e
           | Inr gcounts \<Rightarrow>
               let fromStrata = sum_list (map snd strata); fromGroups = sum_list (map snd gcounts)
               in if fromStrata \<noteq> fromGroups then Inl (SumsDiffer fromStrata fromGroups)
                  else if audience \<le> 0 then Inl AudienceNotPositive
                  else if audience \<noteq> fromStrata then Inl AudienceDiffers
                  else (case seat_rows gcounts order audience strata of
                          Inl e \<Rightarrow> Inl e
                        | Inr (rows, cs) \<Rightarrow>
                            let (rows', deficits) =
                                  correct_columns (maxIterations rows order) order (idealLookup cs)
                                    (rows, column_deficits gcounts order rows)
                            in case List.find (\<lambda>g. at0 deficits g \<noteq> 0) order of
                                 Some g \<Rightarrow> Inl (DidNotConverge g (at0 deficits g))
                               | None \<Rightarrow>
                                   Inr \<lparr>quotas = rows',
                                        cells = map (\<lambda>c. c\<lparr>cell_quota := at0 (row_of rows' (stratumKey c)) (groupKey c)\<rparr>) cs,
                                        stratumSizes = strata\<rparr>)))"

end
