(* ===== verification/Stratification_Margins.thy ===== *)
theory Stratification_Margins
  imports Abtest_Stratification
begin

section \<open>Row and column sums of the quota matrix\<close>

text \<open>
  Row seating never exceeds the stratum, whatever the rounding of the ideals;
  a swap keeps row sums, non-negative cells and the meaning of the deficits.
  If all deficits end at zero the column sums are exact, and then every row
  must be full.
\<close>

abbreviation row_sum :: "tally \<Rightarrow> int" where
  "row_sum row \<equiv> sum_list (map snd row)"

lemma at0_update: "at0 (AList.update k v t) k' = (if k' = k then v else at0 t k')"
  by (simp add: at0_def update_conv)

lemma row_sum_update: "row_sum (AList.update k v row) = row_sum row - at0 row k + v"
  by (induction row) (auto simp: at0_def)

lemma row_of_update: "row_of (AList.update k row rows) k' = (if k' = k then row else row_of rows k')"
  by (simp add: row_of_def update_conv)

lemma at0_Nil [simp]: "at0 [] g = 0"
  by (simp add: at0_def)

lemma column_sum_update:
  "column_sum (AList.update k row rows) g = column_sum rows g - at0 (row_of rows k) g + at0 row g"
  by (induction rows) (auto simp: column_sum_def row_of_def)

lemma keys_update_same: "k \<in> set (map fst t) \<Longrightarrow> map fst (AList.update k v t) = map fst t"
  by (simp add: update_keys)

lemma row_sum_order:
  assumes "map fst row = order" "distinct order"
  shows "row_sum row = sum_list (map (at0 row) order)"
proof -
  have "map snd row = map (at0 row) (map fst row)"
    using assms by (auto simp: at0_def)
  then show ?thesis using assms(1) by simp
qed

definition well_formed :: "string list \<Rightarrow> string list \<Rightarrow> (string \<times> tally) list \<Rightarrow> bool" where
  "well_formed ks order rows \<longleftrightarrow>
     map fst rows = ks \<and> distinct ks \<and> distinct order \<and>
     (\<forall>(k, row) \<in> set rows. map fst row = order \<and> (\<forall>g. 0 \<le> at0 row g))"

lemma well_formed_row:
  assumes "well_formed ks order rows" "k \<in> set ks"
  shows "(k, row_of rows k) \<in> set rows" "map fst (row_of rows k) = order" "0 \<le> at0 (row_of rows k) g"
proof -
  from assms obtain row where row: "(k, row) \<in> set rows" unfolding well_formed_def by auto
  then have "row_of rows k = row"
    using assms unfolding well_formed_def by (auto simp: row_of_def)
  with row show "(k, row_of rows k) \<in> set rows" by simp
  with assms show "map fst (row_of rows k) = order" "0 \<le> at0 (row_of rows k) g"
    unfolding well_formed_def by auto
qed

lemma well_formed_update:
  assumes wf: "well_formed ks order rows" and k: "k \<in> set ks"
    and row: "map fst row = order" "\<And>g. 0 \<le> at0 row g"
  shows "well_formed ks order (AList.update k row rows)"
proof -
  have "map fst (AList.update k row rows) = ks"
    using wf k by (simp add: well_formed_def keys_update_same)
  moreover have "(j, r) \<in> set (AList.update k row rows) \<Longrightarrow> (j, r) = (k, row) \<or> (j, r) \<in> set rows" for j r
    by (induction rows) (auto split: if_splits)
  ultimately show ?thesis using wf row unfolding well_formed_def by fastforce
qed

lemma double_sum:
  assumes "well_formed ks order rows"
  shows "sum_list (map (\<lambda>k. row_sum (row_of rows k)) ks) = sum_list (map (column_sum rows) order)"
proof -
  have eq: "map (\<lambda>k. row_sum (row_of rows k)) ks = map (\<lambda>(k, row). row_sum row) rows"
    using assms unfolding well_formed_def by (auto simp: row_of_def)
  have tot: "sum_list (map (\<lambda>(k, row). row_sum row) rs) = sum_list (map (column_sum rs) order)"
    if "\<forall>(k, row) \<in> set rs. map fst row = order" for rs
    using that
  proof (induction rs)
    case Nil
    then show ?case by (simp add: column_sum_def sum_list_triv)
  next
    case (Cons p rs)
    have r: "row_sum (snd p) = sum_list (map (at0 (snd p)) order)"
      using Cons.prems assms by (intro row_sum_order) (auto simp: well_formed_def case_prod_unfold)
    have "column_sum (p # rs) = (\<lambda>g. at0 (snd p) g + column_sum rs g)"
      by (simp add: column_sum_def case_prod_unfold fun_eq_iff)
    then have c: "sum_list (map (column_sum (p # rs)) order) =
        sum_list (map (at0 (snd p)) order) + sum_list (map (column_sum rs) order)"
      by (simp only: sum_list_addf)
    have IH: "sum_list (map (\<lambda>(k, row). row_sum row) rs) = sum_list (map (column_sum rs) order)"
      using Cons.prems by (intro Cons.IH) simp
    have "sum_list (map (\<lambda>(k, row). row_sum row) (p # rs)) =
        row_sum (snd p) + sum_list (map (\<lambda>(k, row). row_sum row) rs)"
      by (cases p) simp
    then show ?case unfolding c IH r .
  qed
  have "\<forall>(k, row) \<in> set rows. map fst row = order"
    using assms unfolding well_formed_def by auto
  from tot [OF this] show ?thesis unfolding eq .
qed

subsection \<open>Seating a row\<close>

lemma update_append_new: "k \<notin> fst ` set t \<Longrightarrow> AList.update k v t = t @ [(k, v)]"
  by (induction t) auto

lemma fold_update_append:
  assumes "distinct (map fst ids)" "fst ` set ids \<inter> fst ` set acc = {}"
  shows "fold (\<lambda>(g, q) row. AList.update g (f q) row) ids acc = acc @ map (\<lambda>(g, q). (g, f q)) ids"
  using assms
proof (induction ids arbitrary: acc)
  case (Cons p ids)
  obtain g q where p: "p = (g, q)" by fastforce
  have "AList.update g (f q) acc = acc @ [(g, f q)]"
    using Cons.prems by (intro update_append_new) (auto simp: p)
  then show ?case using Cons by (auto simp: p)
qed simp

lemma floor_row_eq:
  "distinct (map fst ids) \<Longrightarrow> floor_row ids = map (\<lambda>(g, q). (g, \<lfloor>q\<rfloor>)) ids"
  using fold_update_append [of ids "[]" floor] by (simp add: floor_row_def)

lemma give_seats_spec:
  assumes "fst ` set gs \<subseteq> set (map fst row)" "0 \<le> r"
  shows "map fst (give_seats gs row r) = map fst row \<and>
    row_sum (give_seats gs row r) \<le> row_sum row + r \<and> (\<forall>g. at0 row g \<le> at0 (give_seats gs row r) g)"
  using assms
proof (induction gs row r rule: give_seats.induct)
  case (2 g q gs row r)
  show ?case
  proof (cases "r \<le> 0")
    case True
    with 2 show ?thesis by simp
  next
    case False
    let ?row = "AList.update g (at0 row g + 1) row"
    have keys: "map fst ?row = map fst row" using "2.prems" by (intro keys_update_same) auto
    have IH: "map fst (give_seats gs ?row (r - 1)) = map fst ?row \<and>
        row_sum (give_seats gs ?row (r - 1)) \<le> row_sum ?row + (r - 1) \<and>
        (\<forall>h. at0 ?row h \<le> at0 (give_seats gs ?row (r - 1)) h)"
      using False "2.prems" keys by (intro "2.IH") auto
    have "at0 row h \<le> at0 (give_seats gs ?row (r - 1)) h" for h
    proof -
      have "at0 row h \<le> at0 ?row h" by (simp add: at0_update)
      also have "\<dots> \<le> at0 (give_seats gs ?row (r - 1)) h" using IH by blast
      finally show ?thesis .
    qed
    moreover have "row_sum ?row = row_sum row + 1" by (simp add: row_sum_update)
    ultimately show ?thesis using IH False keys by simp
  qed
qed simp

lemma seat_row_spec:
  assumes "distinct (map fst ids)" "\<forall>(g, q) \<in> set ids. 0 \<le> q" "sum_list (map (floor \<circ> snd) ids) \<le> n"
  shows "map fst (seat_row n ids) = map fst ids" "row_sum (seat_row n ids) \<le> n"
    "0 \<le> at0 (seat_row n ids) g"
proof -
  let ?row = "map (\<lambda>(g, q). (g, \<lfloor>q\<rfloor>)) ids"
  have keys: "map fst ?row = map fst ids" and sum: "row_sum ?row = sum_list (map (floor \<circ> snd) ids)"
    by (simp_all add: case_prod_unfold o_def)
  have "set (by_remainder ids) = set ids" by (simp add: by_remainder_def)
  then have s: "map fst (seat_row n ids) = map fst ?row \<and> row_sum (seat_row n ids) \<le> row_sum ?row + (n - row_sum ?row) \<and>
      (\<forall>g. at0 ?row g \<le> at0 (seat_row n ids) g)"
    unfolding seat_row_def Let_def floor_row_eq [OF assms(1)]
    using assms(3) keys sum by (intro give_seats_spec) auto
  then show "map fst (seat_row n ids) = map fst ids" "row_sum (seat_row n ids) \<le> n"
    using keys by simp_all
  have "0 \<le> at0 ?row g"
    using assms(2) by (force simp: at0_def split: option.splits dest!: map_of_SomeD)
  then show "0 \<le> at0 (seat_row n ids) g" using s order_trans by blast
qed

lemma row_idealsD:
  "row_ideals counts n audience order = Inr ids \<Longrightarrow>
     ids = map (\<lambda>g. (g, ideal_quota n (at0 counts g) audience)) order"
  by (induction order arbitrary: ids) (auto simp: at0_def split: option.splits sum.splits)

lemma ideal_quota_bounds:
  assumes "0 \<le> n" "0 \<le> c" "0 < a"
  shows "0 \<le> ideal_quota n c a"
    and "of_int \<lfloor>ideal_quota n c a\<rfloor> \<le> (1 + epsilon) * (1 + epsilon) * (of_int n / of_int a) * of_int c"
proof -
  define x :: rat where "x = of_int n * of_int c"
  have xi: "x = of_int (n * c)" by (simp add: x_def)
  have "0 \<le> n * c" using assms(1,2) by simp
  then have "n * c = 0 \<or> 1 \<le> n * c" by linarith
  then have x: "0 \<le> x" "1 \<le> x \<or> x = 0"
    unfolding xi using \<open>0 \<le> n * c\<close> by (simp_all only: of_int_0_le_iff of_int_1_le_iff of_int_eq_0_iff disj_commute)
  have y: "0 \<le> dbl x / of_int a" using dbl_nonneg [OF x(1)] assms by simp
  show "0 \<le> ideal_quota n c a" unfolding ideal_quota_def x_def [symmetric] using y by (rule dbl_nonneg)
  have tiny: "(2 :: rat) powi (- 1022) \<le> 1 / 2" by (rule tiny_powers(2))
  show "of_int \<lfloor>ideal_quota n c a\<rfloor> \<le> (1 + epsilon) * (1 + epsilon) * (of_int n / of_int a) * of_int c"
  proof (cases "2 powi (- 1022) \<le> dbl x / of_int a")
    case True
    have "of_int \<lfloor>ideal_quota n c a\<rfloor> \<le> ideal_quota n c a" by (rule of_int_floor_le)
    also have "\<dots> \<le> dbl x / of_int a * (1 + epsilon)"
      unfolding ideal_quota_def x_def [symmetric] using dbl_between True by blast
    also have "\<dots> \<le> (x * (1 + epsilon)) / of_int a * (1 + epsilon)"
    proof -
      have "2 powi (- 1022) \<le> x \<or> x = 0" using x(2) tiny by linarith
      then show ?thesis
        using dbl_between [of x] assms(3) by (intro mult_right_mono divide_right_mono) auto
    qed
    also have "\<dots> = (1 + epsilon) * (1 + epsilon) * (of_int n / of_int a) * of_int c"
      by (simp only: x_def times_divide_eq_right times_divide_eq_left mult_ac)
    finally show ?thesis .
  next
    case False
    then have "ideal_quota n c a \<le> dbl (1 / 2)"
      unfolding ideal_quota_def x_def [symmetric] using tiny by (intro dbl_mono) linarith
    also have "\<dots> \<le> 1 / 2 * (1 + epsilon)" using dbl_between tiny by blast
    also have "\<dots> < 1" by simp
    finally have "\<lfloor>ideal_quota n c a\<rfloor> \<le> 0" by linarith
    then have "(of_int \<lfloor>ideal_quota n c a\<rfloor> :: rat) \<le> 0" by (simp only: of_int_le_0_iff)
    also have "0 \<le> (1 + epsilon) * (1 + epsilon) * (of_int n / of_int a) * of_int c"
      using assms by (intro mult_nonneg_nonneg divide_nonneg_pos) simp_all
    finally show ?thesis .
  qed
qed

lemma floor_sum_le:
  assumes c: "\<forall>g. 0 \<le> at0 counts g" "sum_list (map (at0 counts) order) = a"
    and n: "0 \<le> n" "n \<le> 10 ^ 12" and a: "0 < a"
  shows "sum_list (map (floor \<circ> snd) (map (\<lambda>g. (g, ideal_quota n (at0 counts g) a)) order)) \<le> n"
proof -
  let ?k = "(1 + epsilon) * (1 + epsilon) * (of_int n / of_int a)"
  let ?fs = "sum_list (map (\<lambda>g. \<lfloor>ideal_quota n (at0 counts g) a\<rfloor>) order)"
  have "of_int ?fs = sum_list (map (\<lambda>g. of_int \<lfloor>ideal_quota n (at0 counts g) a\<rfloor> :: rat) order)"
    by (induction order) simp_all
  also have "\<dots> \<le> sum_list (map (\<lambda>g. ?k * of_int (at0 counts g)) order)"
    by (intro sum_list_mono ideal_quota_bounds(2) [OF n(1) _ a])
      (use c(1) in blast)
  also have "\<dots> = ?k * of_int (sum_list (map (at0 counts) order))"
  proof -
    have "of_int (sum_list (map (at0 counts) order)) = (sum_list (map (\<lambda>g. of_int (at0 counts g)) order) :: rat)"
      by (induction order) simp_all
    then show ?thesis by (simp only: sum_list_const_mult)
  qed
  also have "\<dots> = (1 + epsilon) * (1 + epsilon) * of_int n" using a c(2) by simp
  also have "\<dots> < of_int n + 1"
  proof -
    have "of_int n \<le> (10 :: rat) ^ 12" using n(2) by (metis of_int_le_iff of_int_numeral of_int_power)
    then show ?thesis using n(1) by simp
  qed
  finally have "of_int ?fs < (of_int (n + 1) :: rat)" by simp
  then have "?fs < n + 1" unfolding of_int_less_iff .
  then show ?thesis by (simp add: o_def)
qed

lemma seat_rows_spec:
  assumes "seat_rows counts order a strata = Inr (rows, cs)"
    and c: "\<forall>g. 0 \<le> at0 counts g" "sum_list (map (at0 counts) order) = a"
    and n: "\<forall>(k, n) \<in> set strata. 0 \<le> n \<and> n \<le> 10 ^ 12" and a: "0 < a"
    and d: "distinct order"
  shows "map fst rows = map fst strata \<and>
    (\<forall>(k, row) \<in> set rows. map fst row = order \<and> (\<forall>g. 0 \<le> at0 row g)) \<and>
    list_all2 (\<lambda>p q. row_sum (snd p) \<le> snd q) rows strata"
  using assms(1) n
proof (induction strata arbitrary: rows cs)
  case (Cons s strata)
  obtain k n where s: "s = (k, n)" by fastforce
  with Cons.prems(1) obtain ids rows' cs' where
    ids: "row_ideals counts n a order = Inr ids" and
    rows': "seat_rows counts order a strata = Inr (rows', cs')" and
    rows: "rows = (k, seat_row n ids) # rows'"
    by (auto simp: Let_def split: sum.splits prod.splits)
  have n: "0 \<le> n" "n \<le> 10 ^ 12" using Cons.prems(2) s by auto
  note ids_eq = row_idealsD [OF ids]
  have keys: "map fst ids = order" by (simp add: ids_eq o_def)
  have "\<forall>(g, q) \<in> set ids. 0 \<le> q"
    using ideal_quota_bounds(1) [OF n(1) _ a] c(1) by (auto simp: ids_eq)
  then have seat: "map fst (seat_row n ids) = order \<and> row_sum (seat_row n ids) \<le> n \<and> (\<forall>g. 0 \<le> at0 (seat_row n ids) g)"
    using seat_row_spec [of ids n] floor_sum_le [OF c n a] keys d by (simp add: ids_eq)
  show ?case using Cons.IH [OF rows'] Cons.prems(2) seat by (auto simp: s rows)
qed simp

subsection \<open>Correcting the columns\<close>

lemma bestSwap_SomeD:
  assumes "bestSwap rows ideals D S = Some s"
  shows "deficitGroup s \<in> set D" "surplusGroup s \<in> set S" "swap_stratum s \<in> set (map fst rows)"
    "0 < at0 (row_of rows (swap_stratum s)) (surplusGroup s)"
proof -
  let ?ok = "\<lambda>s. deficitGroup s \<in> set D \<and> surplusGroup s \<in> set S \<and> swap_stratum s \<in> set (map fst rows) \<and>
      0 < at0 (row_of rows (swap_stratum s)) (surplusGroup s)"
  have step: "fold (\<lambda>t best. case swap_of rows ideals t of None \<Rightarrow> best
        | Some s \<Rightarrow> if better s best then Some s else best) ts best = Some s \<Longrightarrow>
      (\<forall>b. best = Some b \<longrightarrow> ?ok b) \<Longrightarrow>
      (\<forall>(d, e, k) \<in> set ts. d \<in> set D \<and> e \<in> set S \<and> k \<in> set (map fst rows)) \<Longrightarrow> ?ok s" for ts best
  proof (induction ts arbitrary: best)
    case (Cons t ts)
    have "?ok b" if "swap_of rows ideals t = Some b" for b
      using that Cons.prems(3) by (cases t) (auto simp: swap_of_def Let_def simp del: set_map split: if_splits)
    then show ?case
      using Cons by (cases "swap_of rows ideals t") (auto split: if_splits)
  qed simp
  have "?ok s"
    using assms unfolding bestSwap_def by (rule step) auto
  then show "deficitGroup s \<in> set D" "surplusGroup s \<in> set S" "swap_stratum s \<in> set (map fst rows)"
    "0 < at0 (row_of rows (swap_stratum s)) (surplusGroup s)" by blast+
qed

text \<open>What the loop keeps: shape, row sums, and deficits that mean what they say.\<close>

definition balanced :: "string list \<Rightarrow> string list \<Rightarrow> tally \<Rightarrow> (string \<Rightarrow> int) \<Rightarrow> (string \<times> tally) list \<times> tally \<Rightarrow> bool" where
  "balanced ks order counts totals = (\<lambda>(rows, deficits).
     well_formed ks order rows \<and>
     (\<forall>k \<in> set ks. row_sum (row_of rows k) = totals k) \<and>
     (\<forall>g \<in> set order. at0 deficits g = at0 counts g - column_sum rows g))"

lemma apply_swap_balanced:
  assumes inv: "balanced ks order counts totals (rows, deficits)"
    and s: "deficitGroup s \<in> set order" "surplusGroup s \<in> set order" "deficitGroup s \<noteq> surplusGroup s"
      "swap_stratum s \<in> set ks" "0 < at0 (row_of rows (swap_stratum s)) (surplusGroup s)"
  shows "balanced ks order counts totals (apply_swap s rows, settle_deficits s deficits)"
proof -
  let ?k = "swap_stratum s" and ?d = "deficitGroup s" and ?e = "surplusGroup s"
  let ?row = "row_of rows ?k"
  let ?row1 = "AList.update ?d (at0 ?row ?d + 1) ?row"
  let ?row2 = "AList.update ?e (at0 ?row1 ?e - 1) ?row1"
  have wf: "well_formed ks order rows"
    and totals: "\<And>k. k \<in> set ks \<Longrightarrow> row_sum (row_of rows k) = totals k"
    and def: "\<And>g. g \<in> set order \<Longrightarrow> at0 deficits g = at0 counts g - column_sum rows g"
    using inv by (auto simp: balanced_def)
  note row = well_formed_row [OF wf s(4)]
  have a: "apply_swap s rows = AList.update ?k ?row2 rows" by (simp add: apply_swap_def Let_def)
  have keys: "map fst ?row2 = order" using row(2) s(1,2) by (simp add: keys_update_same)
  have at: "at0 ?row2 g = (if g = ?e then at0 ?row g - 1 else if g = ?d then at0 ?row g + 1 else at0 ?row g)" for g
    using s(3) by (simp add: at0_update)
  have "0 \<le> at0 ?row2 g" for g using row(3) [of g] s(5) unfolding at by auto
  then have "well_formed ks order (apply_swap s rows)"
    unfolding a using keys by (intro well_formed_update [OF wf s(4)])
  moreover have "row_sum (row_of (apply_swap s rows) k) = totals k" if "k \<in> set ks" for k
    using totals [OF that] s(3) by (auto simp: a row_of_update row_sum_update at0_update)
  moreover have "at0 (settle_deficits s deficits) g = at0 counts g - column_sum (apply_swap s rows) g"
    if "g \<in> set order" for g
    using def [OF that] s(3)
    by (auto simp: a column_sum_update settle_deficits_def Let_def at0_update)
  ultimately show ?thesis by (simp add: balanced_def)
qed

lemma correct_columns_balanced:
  "balanced ks order counts totals (rows, deficits) \<Longrightarrow>
     balanced ks order counts totals (correct_columns iter order ideals (rows, deficits))"
proof (induction iter order ideals "(rows, deficits)" arbitrary: rows deficits rule: correct_columns.induct)
  case (2 iter order ideals rows deficits)
  let ?D = "filter (\<lambda>g. 0 < at0 deficits g) order" and ?S = "filter (\<lambda>g. at0 deficits g < 0) order"
  show ?case
  proof (cases "?D = [] \<or> ?S = [] \<or> bestSwap rows ideals ?D ?S = None")
    case True
    with 2 show ?thesis by (auto simp: Let_def)
  next
    case False
    then obtain s where s: "bestSwap rows ideals ?D ?S = Some s" by auto
    note b = bestSwap_SomeD [OF s]
    have "set (map fst rows) = set ks" using 2(2) by (auto simp: balanced_def well_formed_def)
    then have "balanced ks order counts totals (apply_swap s rows, settle_deficits s deficits)"
      using b 2(2) by (intro apply_swap_balanced) auto
    then show ?thesis using 2(1) [OF refl refl] False s by (auto simp: Let_def)
  qed
qed simp

lemma column_deficits_at:
  "g \<in> set order \<Longrightarrow> at0 (column_deficits counts order rows) g = at0 counts g - column_sum rows g"
proof -
  have "at0 (fold (\<lambda>g t. AList.update g (f g) t) order t) g = (if g \<in> set order then f g else at0 t g)" for f t
    by (induction order arbitrary: t) (auto simp: at0_update)
  then show "g \<in> set order \<Longrightarrow> ?thesis" by (simp add: column_deficits_def)
qed

lemma int_entriesD:
  "int_entries bad vs = Inr t \<Longrightarrow> vs = map (\<lambda>(k, n). (k, Num (of_int n))) t \<and> (\<forall>(k, n) \<in> set t. 0 \<le> n)"
proof (induction bad vs arbitrary: t rule: int_entries.induct)
  case (2 bad k v kvs)
  have ok: "isNonNegInt v" using "2.prems" by (auto split: if_splits)
  then obtain q where q: "v = Num q" by (cases v) auto
  with ok have "of_int \<lfloor>q\<rfloor> = q" "0 \<le> q" by auto
  with "2.prems" "2.IH" [OF ok q] show ?case by (auto simp: q split: sum.splits if_splits)
qed simp

lemma sum_order_eq:
  assumes "distinct (map fst t)" "distinct order" "set order = set (map fst t)"
  shows "sum_list (map (at0 t) order) = sum_list (map snd t)"
proof -
  have "sum_list (map (at0 t) order) = sum (at0 t) (set order)"
    using assms(2) by (simp add: sum_list_distinct_conv_sum_set)
  also have "\<dots> = sum_list (map (at0 t) (map fst t))"
    unfolding assms(3) using assms(1) by (simp only: sum_list_distinct_conv_sum_set)
  also have "\<dots> = sum_list (map snd t)"
    using row_sum_order [OF refl assms(1)] by simp
  finally show ?thesis .
qed

text \<open>Sums below their bounds with the same total meet the bounds.\<close>

lemma sum_list_tight:
  fixes f g :: "'a \<Rightarrow> int"
  assumes "\<forall>x \<in> set xs. f x \<le> g x" "sum_list (map f xs) = sum_list (map g xs)" "x \<in> set xs"
  shows "f x = g x"
  using assms
proof (induction xs)
  case (Cons y ys)
  have le: "sum_list (map f ys) \<le> sum_list (map g ys)"
    using Cons.prems(1) by (intro sum_list_mono) simp
  then have "f y = g y" "sum_list (map f ys) = sum_list (map g ys)"
    using Cons.prems(1,2) by auto
  then show ?case using Cons by auto
qed simp

lemma stratified_quotas_spec:
  assumes r: "computeStratifiedQuotas sizes counts order audience = Inr r"
    and d: "distinct (map fst sizes)" "distinct (map fst counts)" "distinct order"
      "set order = set (map fst counts)" and a: "audience \<le> 10 ^ 12"
  obtains gcounts where
    "sizes = map (\<lambda>(k, n). (k, Num (of_int n))) (stratumSizes r)"
    "counts = map (\<lambda>(k, n). (k, Num (of_int n))) gcounts"
    "\<forall>(k, n) \<in> set (stratumSizes r). row_sum (row_of (quotas r) k) = n"
    "\<forall>(g, c) \<in> set gcounts. column_sum (quotas r) g = c"
    "\<forall>k \<in> set (map fst sizes). \<forall>g. 0 \<le> at0 (row_of (quotas r) k) g"
    "\<forall>c \<in> set (cells r). cell_quota c = at0 (row_of (quotas r) (stratumKey c)) (groupKey c)"
proof -
  from r obtain strata gcounts rows cs rows' deficits where
    strata: "int_entries BadStratumSize sizes = Inr strata" and
    gcounts: "int_entries BadGroupCount counts = Inr gcounts" and
    sum: "sum_list (map snd strata) = sum_list (map snd gcounts)" "0 < audience"
      "audience = sum_list (map snd strata)" and
    rows: "seat_rows gcounts order audience strata = Inr (rows, cs)" and
    corr: "correct_columns (maxIterations rows order) order (idealLookup cs)
             (rows, column_deficits gcounts order rows) = (rows', deficits)" and
    conv: "List.find (\<lambda>g. at0 deficits g \<noteq> 0) order = None" and
    res: "r = \<lparr>quotas = rows',
       cells = map (\<lambda>c. c\<lparr>cell_quota := at0 (row_of rows' (stratumKey c)) (groupKey c)\<rparr>) cs, stratumSizes = strata\<rparr>"
    by (auto simp: computeStratifiedQuotas_def Let_def split: sum.splits if_splits prod.splits option.splits)
  note st = int_entriesD [OF strata] and gc = int_entriesD [OF gcounts]
  have keys: "map fst sizes = map fst strata" "map fst counts = map fst gcounts"
    using st gc by (auto simp: case_prod_unfold)
  have tot: "sum_list (map (at0 gcounts) order) = audience"
    using sum_order_eq [of gcounts order] d keys sum by simp
  have nonneg: "\<forall>g. 0 \<le> at0 gcounts g"
    using gc by (auto simp: at0_def split: option.splits dest!: map_of_SomeD)
  have bound: "\<forall>(k, n) \<in> set strata. 0 \<le> n \<and> n \<le> 10 ^ 12"
  proof clarify
    fix k n assume kn: "(k, n) \<in> set strata"
    have "n \<le> sum_list (map snd strata)"
      using st kn by (intro member_le_sum_list) (auto intro: rev_image_eqI)
    then show "0 \<le> n \<and> n \<le> 10 ^ 12" using st kn sum(3) a by auto
  qed
  note seat = seat_rows_spec [OF rows nonneg tot bound sum(2) d(3)]
  define totals where "totals k = row_sum (row_of rows k)" for k
  have wf: "well_formed (map fst strata) order rows"
    using seat d keys by (auto simp: well_formed_def)
  then have "balanced (map fst strata) order gcounts totals (rows, column_deficits gcounts order rows)"
    by (simp add: balanced_def totals_def column_deficits_at)
  then have bal: "balanced (map fst strata) order gcounts totals (rows', deficits)"
    using correct_columns_balanced corr by metis
  then have wf': "well_formed (map fst strata) order rows'" by (simp add: balanced_def)
  have col: "column_sum rows' g = at0 gcounts g" if "g \<in> set order" for g
    using bal that find_None_all [OF conv that] by (auto simp: balanced_def)
  have le: "\<forall>p \<in> set strata. totals (fst p) \<le> snd p"
  proof
    fix p assume "p \<in> set strata"
    then obtain i where i: "i < length strata" "strata ! i = p" by (auto simp: in_set_conv_nth)
    with seat have i': "i < length rows" "row_sum (snd (rows ! i)) \<le> snd p"
      by (auto simp: list_all2_conv_all_nth)
    have "map fst rows ! i = map fst strata ! i" using seat by simp
    with i i'(1) have fst_i: "fst (rows ! i) = fst p" by simp
    have "map_of rows (fst (rows ! i)) = Some (snd (rows ! i))"
      using i'(1) wf nth_mem by (intro map_of_is_SomeI) (auto simp: well_formed_def)
    then show "totals (fst p) \<le> snd p" using i'(2) fst_i by (simp add: totals_def row_of_def)
  qed
  have "sum_list (map (\<lambda>p. totals (fst p)) strata) =
      sum_list (map (\<lambda>k. row_sum (row_of rows' k)) (map fst strata))"
    using bal by (auto simp: balanced_def intro!: arg_cong [of _ _ sum_list])
  also have "\<dots> = sum_list (map (column_sum rows') order)" by (rule double_sum [OF wf'])
  also have "\<dots> = sum_list (map (at0 gcounts) order)"
    using col by (intro arg_cong [of _ _ sum_list] map_cong) auto
  also have "\<dots> = sum_list (map snd strata)" using tot sum(3) by simp
  finally have "totals (fst p) = snd p" if "p \<in> set strata" for p
    using sum_list_tight [OF le _ that] by simp
  then have "row_sum (row_of rows' k) = n" if "(k, n) \<in> set strata" for k n
    using bal that by (force simp: balanced_def)
  moreover have "column_sum rows' g = c" if "(g, c) \<in> set gcounts" for g c
    using col [of g] that d(2,4) keys by (force simp: at0_def)
  ultimately show thesis
    using that [of gcounts] st gc well_formed_row(3) [OF wf'] keys by (auto simp: res)
qed

end
