(* ===== verification/Stratification_Limits.thy ===== *)
theory Stratification_Limits
  imports Stratification_Margins
begin

section \<open>Where the column correction falls short\<close>

text \<open>
  Two audiences for which the greedy swaps of \<open>computeStratifiedQuotas\<close> do less
  than the header of \<open>stratification.ts\<close> says, although a matrix with the
  promised bounds exists.  The doubles involved are evaluated once, and the
  phases of the code one after the other.
\<close>

lemma dbl_values:
  "dbl (- (375299968947541 / 562949953421312)) = - (375299968947541 / 562949953421312)"
  "dbl (6004799503160661 / 36028797018963968) = 6004799503160661 / 36028797018963968"
  "dbl (1 / 6) = 6004799503160661 / 36028797018963968"
  "dbl (375299968947541 / 1125899906842624) = 375299968947541 / 1125899906842624"
  "dbl (1501199875790165 / 4503599627370496) = 1501199875790165 / 4503599627370496"
  "dbl (6004799503160661 / 18014398509481984) = 6004799503160661 / 18014398509481984"
  "dbl (1 / 3) = 6004799503160661 / 18014398509481984"
  "dbl (1 / 2) = 1 / 2"
  "dbl (375299968947541 / 562949953421312) = 375299968947541 / 562949953421312"
  "dbl (6004799503160661 / 9007199254740992) = 6004799503160661 / 9007199254740992"
  "dbl (2 / 3) = 6004799503160661 / 9007199254740992"
  "dbl (750599937895083 / 1125899906842624) = 750599937895083 / 1125899906842624"
  "dbl (469124961184427 / 562949953421312) = 469124961184427 / 562949953421312"
  "dbl (1) = 1"
  "dbl (4 / 3) = 6004799503160661 / 4503599627370496"
  "dbl (2) = 2"
  "dbl (4) = 4"
  "dbl (13 / 3) = 4878899596318037 / 1125899906842624"
  "dbl (14 / 3) = 5254199565265579 / 1125899906842624"
  "dbl (6) = 6"
  "dbl (13 / 2) = 13 / 2"
  "dbl (7) = 7"
  "dbl (8) = 8"
  "dbl (65 / 6) = 6098624495397547 / 562949953421312"
  "dbl (35 / 3) = 6567749456581973 / 562949953421312"
  "dbl (12) = 12"
  "dbl (16) = 16"
  "dbl (468) = 468"
  "dbl (504) = 504"
  "dbl (702) = 702"
  "dbl (756) = 756"
  "dbl (1170) = 1170"
  "dbl (1260) = 1260"  by code_simp+

lemma floor_values:
  "\<lfloor>numeral a / numeral b :: rat\<rfloor> = numeral a div numeral b"
  "\<lfloor>1 / numeral b :: rat\<rfloor> = 1 div numeral b"
  "\<lceil>numeral a / numeral b :: rat\<rceil> = - (- numeral a div numeral b)"
  "\<lceil>1 / numeral b :: rat\<rceil> = - (- 1 div numeral b)"
  using floor_divide_of_int_eq [of "numeral a" "numeral b", where 'a = rat]
    floor_divide_of_int_eq [of "1" "numeral b", where 'a = rat]
    floor_divide_of_int_eq [of "- numeral a" "numeral b", where 'a = rat]
    floor_divide_of_int_eq [of "- 1" "numeral b", where 'a = rat]
  by (simp_all add: ceiling_def)

definition proportional :: "tally \<Rightarrow> tally \<Rightarrow> (string \<times> tally) list \<Rightarrow> bool" where
  "proportional strata gcounts rows \<longleftrightarrow>
     (\<forall>(k, n) \<in> set strata. sum_list (map snd (row_of rows k)) = n) \<and>
     (\<forall>(g, c) \<in> set gcounts. column_sum rows g = c) \<and>
     (\<forall>(k, n) \<in> set strata. \<forall>(g, c) \<in> set gcounts.
        let ideal = (of_int (n * c) / of_int (sum_list (map snd strata)) :: rat)
        in at0 (row_of rows k) g \<in> {\<lfloor>ideal\<rfloor>, \<lceil>ideal\<rceil>})"

lemma correct_columns_stop:
  assumes "filter (\<lambda>g. 0 < at0 deficits g) order = [] \<or>
    bestSwap rows ideals (filter (\<lambda>g. 0 < at0 deficits g) order) (filter (\<lambda>g. at0 deficits g < 0) order) = None"
  shows "correct_columns iter order ideals (rows, deficits) = (rows, deficits)"
  using assms by (cases iter) (auto simp: Let_def)

lemma correct_columns_swap:
  assumes "bestSwap rows ideals (filter (\<lambda>g. 0 < at0 deficits g) order) (filter (\<lambda>g. at0 deficits g < 0) order) = Some s"
    and "filter (\<lambda>g. 0 < at0 deficits g) order \<noteq> []" "filter (\<lambda>g. at0 deficits g < 0) order \<noteq> []" and "0 < iter"
  shows "correct_columns iter order ideals (rows, deficits) =
    correct_columns (iter - 1) order ideals (apply_swap s rows, settle_deficits s deficits)"
  using assms by (cases iter) (simp_all add: Let_def)

definition limit_order :: "string list" where
  "limit_order = [''A'', ''B'', ''C'', ''H'']"

abbreviation as_numbers :: "tally \<Rightarrow> (string \<times> js_number) list" where
  "as_numbers t \<equiv> map (\<lambda>(k, n). (k, Num (of_int n))) t"

definition stuck_strata :: tally where
  "stuck_strata = [(''gmail'', 2), (''naver'', 2), (''daum'', 4), (''other'', 4)]"

definition stuck_groups :: tally where
  "stuck_groups = [(''A'', 1), (''B'', 3), (''C'', 4), (''H'', 4)]"

lemma stuck_ideals2:
  "row_ideals [(''A'', 1), (''B'', 3), (''C'', 4), (''H'', 4)] 2 12 [''A'', ''B'', ''C'', ''H''] =
     Inr [(''A'', 6004799503160661 / 36028797018963968), (''B'', 1 / 2), (''C'', 6004799503160661 / 9007199254740992), (''H'', 6004799503160661 / 9007199254740992)]"
  by (simp add: ideal_quota_def dbl_values)

lemma stuck_seats2:
  "seat_row 2 [(''A'', 6004799503160661 / 36028797018963968), (''B'', 1 / 2), (''C'', 6004799503160661 / 9007199254740992), (''H'', 6004799503160661 / 9007199254740992)] =
     [(''A'', 0), (''B'', 0), (''C'', 1), (''H'', 1)]"
  by (simp add: seat_row_def floor_row_def by_remainder_def at0_def dbl_values floor_values)

lemma stuck_ideals4:
  "row_ideals [(''A'', 1), (''B'', 3), (''C'', 4), (''H'', 4)] 4 12 [''A'', ''B'', ''C'', ''H''] =
     Inr [(''A'', 6004799503160661 / 18014398509481984), (''B'', 1), (''C'', 6004799503160661 / 4503599627370496), (''H'', 6004799503160661 / 4503599627370496)]"
  by (simp add: ideal_quota_def dbl_values)

lemma stuck_seats4:
  "seat_row 4 [(''A'', 6004799503160661 / 18014398509481984), (''B'', 1), (''C'', 6004799503160661 / 4503599627370496), (''H'', 6004799503160661 / 4503599627370496)] =
     [(''A'', 1), (''B'', 1), (''C'', 1), (''H'', 1)]"
  by (simp add: seat_row_def floor_row_def by_remainder_def at0_def dbl_values floor_values)

definition stuck_matrix :: "(string \<times> tally) list" where
  "stuck_matrix =
     [(''gmail'', [(''A'', 0), (''B'', 0), (''C'', 1), (''H'', 1)]),
      (''naver'', [(''A'', 0), (''B'', 0), (''C'', 1), (''H'', 1)]),
      (''daum'', [(''A'', 1), (''B'', 1), (''C'', 1), (''H'', 1)]),
      (''other'', [(''A'', 1), (''B'', 1), (''C'', 1), (''H'', 1)])]"

definition stuck_cells :: "quota_cell list" where
  "stuck_cells =
     [
       \<lparr>stratumKey = ''gmail'', groupKey = ''A'', cell_quota = 0, cell_ideal = 6004799503160661 / 36028797018963968\<rparr>,
       \<lparr>stratumKey = ''gmail'', groupKey = ''B'', cell_quota = 0, cell_ideal = 1 / 2\<rparr>,
       \<lparr>stratumKey = ''gmail'', groupKey = ''C'', cell_quota = 1, cell_ideal = 6004799503160661 / 9007199254740992\<rparr>,
       \<lparr>stratumKey = ''gmail'', groupKey = ''H'', cell_quota = 1, cell_ideal = 6004799503160661 / 9007199254740992\<rparr>,
       \<lparr>stratumKey = ''naver'', groupKey = ''A'', cell_quota = 0, cell_ideal = 6004799503160661 / 36028797018963968\<rparr>,
       \<lparr>stratumKey = ''naver'', groupKey = ''B'', cell_quota = 0, cell_ideal = 1 / 2\<rparr>,
       \<lparr>stratumKey = ''naver'', groupKey = ''C'', cell_quota = 1, cell_ideal = 6004799503160661 / 9007199254740992\<rparr>,
       \<lparr>stratumKey = ''naver'', groupKey = ''H'', cell_quota = 1, cell_ideal = 6004799503160661 / 9007199254740992\<rparr>,
       \<lparr>stratumKey = ''daum'', groupKey = ''A'', cell_quota = 1, cell_ideal = 6004799503160661 / 18014398509481984\<rparr>,
       \<lparr>stratumKey = ''daum'', groupKey = ''B'', cell_quota = 1, cell_ideal = 1\<rparr>,
       \<lparr>stratumKey = ''daum'', groupKey = ''C'', cell_quota = 1, cell_ideal = 6004799503160661 / 4503599627370496\<rparr>,
       \<lparr>stratumKey = ''daum'', groupKey = ''H'', cell_quota = 1, cell_ideal = 6004799503160661 / 4503599627370496\<rparr>,
       \<lparr>stratumKey = ''other'', groupKey = ''A'', cell_quota = 1, cell_ideal = 6004799503160661 / 18014398509481984\<rparr>,
       \<lparr>stratumKey = ''other'', groupKey = ''B'', cell_quota = 1, cell_ideal = 1\<rparr>,
       \<lparr>stratumKey = ''other'', groupKey = ''C'', cell_quota = 1, cell_ideal = 6004799503160661 / 4503599627370496\<rparr>,
       \<lparr>stratumKey = ''other'', groupKey = ''H'', cell_quota = 1, cell_ideal = 6004799503160661 / 4503599627370496\<rparr>]"

lemma stuck_rows: "seat_rows stuck_groups limit_order 12 stuck_strata = Inr (stuck_matrix, stuck_cells)"
  by (simp add: stuck_groups_def limit_order_def stuck_strata_def stuck_matrix_def stuck_cells_def
      stuck_ideals2 stuck_seats2 stuck_ideals4 stuck_seats4 row_cells_def at0_def ideal_of_def
      del: row_ideals.simps)

lemma stuck_lookup:
  "idealLookup stuck_cells =
     [
       (''gmail:A'', 6004799503160661 / 36028797018963968),
       (''gmail:B'', 1 / 2),
       (''gmail:C'', 6004799503160661 / 9007199254740992),
       (''gmail:H'', 6004799503160661 / 9007199254740992),
       (''naver:A'', 6004799503160661 / 36028797018963968),
       (''naver:B'', 1 / 2),
       (''naver:C'', 6004799503160661 / 9007199254740992),
       (''naver:H'', 6004799503160661 / 9007199254740992),
       (''daum:A'', 6004799503160661 / 18014398509481984),
       (''daum:B'', 1),
       (''daum:C'', 6004799503160661 / 4503599627370496),
       (''daum:H'', 6004799503160661 / 4503599627370496),
       (''other:A'', 6004799503160661 / 18014398509481984),
       (''other:B'', 1),
       (''other:C'', 6004799503160661 / 4503599627370496),
       (''other:H'', 6004799503160661 / 4503599627370496)]"
  by (simp add: stuck_cells_def idealLookup_def ideal_key_def)

lemma stuck_deficits:
  "column_deficits stuck_groups limit_order stuck_matrix =
     [(''A'', - 1), (''B'', 1), (''C'', 0), (''H'', 0)]"
  by (simp add: stuck_groups_def stuck_matrix_def limit_order_def column_deficits_def column_sum_def at0_def)

lemma stuck_entries:
  "int_entries BadStratumSize (as_numbers stuck_strata) = Inr stuck_strata"
  "int_entries BadGroupCount (as_numbers stuck_groups) = Inr stuck_groups"
  "sum_list (map snd stuck_strata) = 12" "sum_list (map snd stuck_groups) = 12"
  by (simp_all add: stuck_strata_def stuck_groups_def)

lemma stuck_proportional:
  "proportional stuck_strata stuck_groups
     [
      (''gmail'', [(''A'', 0), (''B'', 1), (''C'', 1), (''H'', 0)]),
      (''naver'', [(''A'', 0), (''B'', 0), (''C'', 1), (''H'', 1)]),
      (''daum'', [(''A'', 1), (''B'', 1), (''C'', 1), (''H'', 1)]),
      (''other'', [(''A'', 0), (''B'', 1), (''C'', 1), (''H'', 2)])]"
  by (simp add: proportional_def stuck_strata_def stuck_groups_def row_of_def column_sum_def at0_def floor_values)

definition loose_strata :: tally where
  "loose_strata = [(''gmail'', 26), (''naver'', 26), (''daum'', 28), (''other'', 28)]"

definition loose_groups :: tally where
  "loose_groups = [(''A'', 18), (''B'', 18), (''C'', 27), (''H'', 45)]"

lemma loose_ideals26:
  "row_ideals [(''A'', 18), (''B'', 18), (''C'', 27), (''H'', 45)] 26 108 [''A'', ''B'', ''C'', ''H''] =
     Inr [(''A'', 4878899596318037 / 1125899906842624), (''B'', 4878899596318037 / 1125899906842624), (''C'', 13 / 2), (''H'', 6098624495397547 / 562949953421312)]"
  by (simp add: ideal_quota_def dbl_values)

lemma loose_seats26:
  "seat_row 26 [(''A'', 4878899596318037 / 1125899906842624), (''B'', 4878899596318037 / 1125899906842624), (''C'', 13 / 2), (''H'', 6098624495397547 / 562949953421312)] =
     [(''A'', 4), (''B'', 4), (''C'', 7), (''H'', 11)]"
  by (simp add: seat_row_def floor_row_def by_remainder_def at0_def dbl_values floor_values)

lemma loose_ideals28:
  "row_ideals [(''A'', 18), (''B'', 18), (''C'', 27), (''H'', 45)] 28 108 [''A'', ''B'', ''C'', ''H''] =
     Inr [(''A'', 5254199565265579 / 1125899906842624), (''B'', 5254199565265579 / 1125899906842624), (''C'', 7), (''H'', 6567749456581973 / 562949953421312)]"
  by (simp add: ideal_quota_def dbl_values)

lemma loose_seats28:
  "seat_row 28 [(''A'', 5254199565265579 / 1125899906842624), (''B'', 5254199565265579 / 1125899906842624), (''C'', 7), (''H'', 6567749456581973 / 562949953421312)] =
     [(''A'', 5), (''B'', 5), (''C'', 7), (''H'', 11)]"
  by (simp add: seat_row_def floor_row_def by_remainder_def at0_def dbl_values floor_values)

definition loose_matrix :: "(string \<times> tally) list" where
  "loose_matrix =
     [(''gmail'', [(''A'', 4), (''B'', 4), (''C'', 7), (''H'', 11)]),
      (''naver'', [(''A'', 4), (''B'', 4), (''C'', 7), (''H'', 11)]),
      (''daum'', [(''A'', 5), (''B'', 5), (''C'', 7), (''H'', 11)]),
      (''other'', [(''A'', 5), (''B'', 5), (''C'', 7), (''H'', 11)])]"

definition loose_cells :: "quota_cell list" where
  "loose_cells =
     [
       \<lparr>stratumKey = ''gmail'', groupKey = ''A'', cell_quota = 4, cell_ideal = 4878899596318037 / 1125899906842624\<rparr>,
       \<lparr>stratumKey = ''gmail'', groupKey = ''B'', cell_quota = 4, cell_ideal = 4878899596318037 / 1125899906842624\<rparr>,
       \<lparr>stratumKey = ''gmail'', groupKey = ''C'', cell_quota = 7, cell_ideal = 13 / 2\<rparr>,
       \<lparr>stratumKey = ''gmail'', groupKey = ''H'', cell_quota = 11, cell_ideal = 6098624495397547 / 562949953421312\<rparr>,
       \<lparr>stratumKey = ''naver'', groupKey = ''A'', cell_quota = 4, cell_ideal = 4878899596318037 / 1125899906842624\<rparr>,
       \<lparr>stratumKey = ''naver'', groupKey = ''B'', cell_quota = 4, cell_ideal = 4878899596318037 / 1125899906842624\<rparr>,
       \<lparr>stratumKey = ''naver'', groupKey = ''C'', cell_quota = 7, cell_ideal = 13 / 2\<rparr>,
       \<lparr>stratumKey = ''naver'', groupKey = ''H'', cell_quota = 11, cell_ideal = 6098624495397547 / 562949953421312\<rparr>,
       \<lparr>stratumKey = ''daum'', groupKey = ''A'', cell_quota = 5, cell_ideal = 5254199565265579 / 1125899906842624\<rparr>,
       \<lparr>stratumKey = ''daum'', groupKey = ''B'', cell_quota = 5, cell_ideal = 5254199565265579 / 1125899906842624\<rparr>,
       \<lparr>stratumKey = ''daum'', groupKey = ''C'', cell_quota = 7, cell_ideal = 7\<rparr>,
       \<lparr>stratumKey = ''daum'', groupKey = ''H'', cell_quota = 11, cell_ideal = 6567749456581973 / 562949953421312\<rparr>,
       \<lparr>stratumKey = ''other'', groupKey = ''A'', cell_quota = 5, cell_ideal = 5254199565265579 / 1125899906842624\<rparr>,
       \<lparr>stratumKey = ''other'', groupKey = ''B'', cell_quota = 5, cell_ideal = 5254199565265579 / 1125899906842624\<rparr>,
       \<lparr>stratumKey = ''other'', groupKey = ''C'', cell_quota = 7, cell_ideal = 7\<rparr>,
       \<lparr>stratumKey = ''other'', groupKey = ''H'', cell_quota = 11, cell_ideal = 6567749456581973 / 562949953421312\<rparr>]"

lemma loose_rows: "seat_rows loose_groups limit_order 108 loose_strata = Inr (loose_matrix, loose_cells)"
  by (simp add: loose_groups_def limit_order_def loose_strata_def loose_matrix_def loose_cells_def
      loose_ideals26 loose_seats26 loose_ideals28 loose_seats28 row_cells_def at0_def ideal_of_def
      del: row_ideals.simps)

lemma loose_lookup:
  "idealLookup loose_cells =
     [
       (''gmail:A'', 4878899596318037 / 1125899906842624),
       (''gmail:B'', 4878899596318037 / 1125899906842624),
       (''gmail:C'', 13 / 2),
       (''gmail:H'', 6098624495397547 / 562949953421312),
       (''naver:A'', 4878899596318037 / 1125899906842624),
       (''naver:B'', 4878899596318037 / 1125899906842624),
       (''naver:C'', 13 / 2),
       (''naver:H'', 6098624495397547 / 562949953421312),
       (''daum:A'', 5254199565265579 / 1125899906842624),
       (''daum:B'', 5254199565265579 / 1125899906842624),
       (''daum:C'', 7),
       (''daum:H'', 6567749456581973 / 562949953421312),
       (''other:A'', 5254199565265579 / 1125899906842624),
       (''other:B'', 5254199565265579 / 1125899906842624),
       (''other:C'', 7),
       (''other:H'', 6567749456581973 / 562949953421312)]"
  by (simp add: loose_cells_def idealLookup_def ideal_key_def)

lemma loose_deficits:
  "column_deficits loose_groups limit_order loose_matrix =
     [(''A'', 0), (''B'', 0), (''C'', - 1), (''H'', 1)]"
  by (simp add: loose_groups_def loose_matrix_def limit_order_def column_deficits_def column_sum_def at0_def)

lemma loose_entries:
  "int_entries BadStratumSize (as_numbers loose_strata) = Inr loose_strata"
  "int_entries BadGroupCount (as_numbers loose_groups) = Inr loose_groups"
  "sum_list (map snd loose_strata) = 108" "sum_list (map snd loose_groups) = 108"
  by (simp_all add: loose_strata_def loose_groups_def)

lemma loose_proportional:
  "proportional loose_strata loose_groups
     [
      (''gmail'', [(''A'', 5), (''B'', 4), (''C'', 6), (''H'', 11)]),
      (''naver'', [(''A'', 4), (''B'', 4), (''C'', 7), (''H'', 11)]),
      (''daum'', [(''A'', 4), (''B'', 5), (''C'', 7), (''H'', 12)]),
      (''other'', [(''A'', 5), (''B'', 5), (''C'', 7), (''H'', 11)])]"
  by (simp add: proportional_def loose_strata_def loose_groups_def row_of_def column_sum_def at0_def floor_values)

lemma stuck_row_values:
  "at0 (row_of stuck_matrix ''gmail'') ''B'' = 0"
  "at0 (row_of stuck_matrix ''gmail'') ''A'' = 0"
  "at0 (row_of stuck_matrix ''naver'') ''B'' = 0"
  "at0 (row_of stuck_matrix ''naver'') ''A'' = 0"
  "at0 (row_of stuck_matrix ''daum'') ''B'' = 1"
  "at0 (row_of stuck_matrix ''daum'') ''A'' = 1"
  "at0 (row_of stuck_matrix ''other'') ''B'' = 1"
  "at0 (row_of stuck_matrix ''other'') ''A'' = 1"
  by (simp_all add: stuck_matrix_def row_of_def at0_def)

lemma stuck_ideal_values:
  "ideal_of (idealLookup stuck_cells) (ideal_key ''gmail'' ''B'') = 1 / 2"
  "ideal_of (idealLookup stuck_cells) (ideal_key ''gmail'' ''A'') = 6004799503160661 / 36028797018963968"
  "ideal_of (idealLookup stuck_cells) (ideal_key ''naver'' ''B'') = 1 / 2"
  "ideal_of (idealLookup stuck_cells) (ideal_key ''naver'' ''A'') = 6004799503160661 / 36028797018963968"
  "ideal_of (idealLookup stuck_cells) (ideal_key ''daum'' ''B'') = 1"
  "ideal_of (idealLookup stuck_cells) (ideal_key ''daum'' ''A'') = 6004799503160661 / 18014398509481984"
  "ideal_of (idealLookup stuck_cells) (ideal_key ''other'' ''B'') = 1"
  "ideal_of (idealLookup stuck_cells) (ideal_key ''other'' ''A'') = 6004799503160661 / 18014398509481984"
  by (simp_all add: stuck_lookup ideal_of_def ideal_key_def)

lemma stuck_swaps:
  "swap_of stuck_matrix (idealLookup stuck_cells) (''B'', ''A'', ''gmail'') = None"
  "swap_of stuck_matrix (idealLookup stuck_cells) (''B'', ''A'', ''naver'') = None"
  "swap_of stuck_matrix (idealLookup stuck_cells) (''B'', ''A'', ''daum'') = None"
  "swap_of stuck_matrix (idealLookup stuck_cells) (''B'', ''A'', ''other'') = None"
  by (simp_all add: swap_of_def stuck_row_values stuck_ideal_values dbl_values floor_values)

lemma stuck_swap:
  "bestSwap stuck_matrix (idealLookup stuck_cells) [''B''] [''A''] = None"
proof -
  have "map fst stuck_matrix = [''gmail'', ''naver'', ''daum'', ''other'']" by (simp add: stuck_matrix_def)
  then show ?thesis by (simp add: bestSwap_def stuck_swaps)
qed

lemma stuck_correct:
  "correct_columns iter limit_order (idealLookup stuck_cells)
     (stuck_matrix, column_deficits stuck_groups limit_order stuck_matrix) =
   (stuck_matrix, column_deficits stuck_groups limit_order stuck_matrix)"
  unfolding stuck_deficits by (rule correct_columns_stop) (simp add: limit_order_def at0_def stuck_swap)

lemma stuck_result:
  "computeStratifiedQuotas (as_numbers stuck_strata) (as_numbers stuck_groups) limit_order 12 =
     Inl (DidNotConverge ''A'' (- 1))"
proof -
  have "List.find (\<lambda>g. at0 (column_deficits stuck_groups limit_order stuck_matrix) g \<noteq> 0) limit_order = Some ''A''"
    "at0 (column_deficits stuck_groups limit_order stuck_matrix) ''A'' = - 1"
    unfolding stuck_deficits by (simp_all add: limit_order_def at0_def)
  then show ?thesis
    by (simp add: computeStratifiedQuotas_def stuck_entries stuck_rows stuck_correct)
qed

definition loose_choice :: seat_swap where
  "loose_choice = \<lparr>deficitGroup = ''H'', surplusGroup = ''C'', swap_stratum = ''daum'', swap_bounded = False,
     swap_score = 375299968947541 / 562949953421312\<rparr>"

lemma loose_row_values:
  "at0 (row_of loose_matrix ''gmail'') ''H'' = 11"
  "at0 (row_of loose_matrix ''gmail'') ''C'' = 7"
  "at0 (row_of loose_matrix ''naver'') ''H'' = 11"
  "at0 (row_of loose_matrix ''naver'') ''C'' = 7"
  "at0 (row_of loose_matrix ''daum'') ''H'' = 11"
  "at0 (row_of loose_matrix ''daum'') ''C'' = 7"
  "at0 (row_of loose_matrix ''other'') ''H'' = 11"
  "at0 (row_of loose_matrix ''other'') ''C'' = 7"
  by (simp_all add: loose_matrix_def row_of_def at0_def)

lemma loose_ideal_values:
  "ideal_of (idealLookup loose_cells) (ideal_key ''gmail'' ''H'') = 6098624495397547 / 562949953421312"
  "ideal_of (idealLookup loose_cells) (ideal_key ''gmail'' ''C'') = 13 / 2"
  "ideal_of (idealLookup loose_cells) (ideal_key ''naver'' ''H'') = 6098624495397547 / 562949953421312"
  "ideal_of (idealLookup loose_cells) (ideal_key ''naver'' ''C'') = 13 / 2"
  "ideal_of (idealLookup loose_cells) (ideal_key ''daum'' ''H'') = 6567749456581973 / 562949953421312"
  "ideal_of (idealLookup loose_cells) (ideal_key ''daum'' ''C'') = 7"
  "ideal_of (idealLookup loose_cells) (ideal_key ''other'' ''H'') = 6567749456581973 / 562949953421312"
  "ideal_of (idealLookup loose_cells) (ideal_key ''other'' ''C'') = 7"
  by (simp_all add: loose_lookup ideal_of_def ideal_key_def)

lemma loose_swaps:
  "swap_of loose_matrix (idealLookup loose_cells) (''H'', ''C'', ''gmail'') = None"
  "swap_of loose_matrix (idealLookup loose_cells) (''H'', ''C'', ''naver'') = None"
  "swap_of loose_matrix (idealLookup loose_cells) (''H'', ''C'', ''daum'') = Some (loose_choice\<lparr>swap_stratum := ''daum''\<rparr>)"
  "swap_of loose_matrix (idealLookup loose_cells) (''H'', ''C'', ''other'') = Some (loose_choice\<lparr>swap_stratum := ''other''\<rparr>)"
  by (simp_all add: swap_of_def loose_choice_def loose_row_values loose_ideal_values dbl_values floor_values)

lemma loose_swap:
  "bestSwap loose_matrix (idealLookup loose_cells) [''H''] [''C''] = Some loose_choice"
proof -
  have "map fst loose_matrix = [''gmail'', ''naver'', ''daum'', ''other'']" by (simp add: loose_matrix_def)
  then show ?thesis by (simp add: bestSwap_def loose_swaps better_def) (simp add: loose_choice_def)
qed

lemma loose_correct:
  assumes "0 < iter"
  shows "correct_columns iter limit_order (idealLookup loose_cells)
     (loose_matrix, column_deficits loose_groups limit_order loose_matrix) =
   (apply_swap loose_choice loose_matrix, [(''A'', 0), (''B'', 0), (''C'', 0), (''H'', 0)])"
proof -
  let ?d = "[(''A'', 0), (''B'', 0), (''C'', - 1), (''H'', 1 :: int)]"
  have "correct_columns iter limit_order (idealLookup loose_cells) (loose_matrix, ?d) =
      correct_columns (iter - 1) limit_order (idealLookup loose_cells)
        (apply_swap loose_choice loose_matrix, settle_deficits loose_choice ?d)"
    using assms by (intro correct_columns_swap) (simp_all add: limit_order_def at0_def loose_swap)
  also have "settle_deficits loose_choice ?d = [(''A'', 0), (''B'', 0), (''C'', 0), (''H'', 0)]"
    by (simp add: settle_deficits_def loose_choice_def at0_def)
  also have "correct_columns (iter - 1) limit_order (idealLookup loose_cells)
        (apply_swap loose_choice loose_matrix, [(''A'', 0), (''B'', 0), (''C'', 0), (''H'', 0)]) =
      (apply_swap loose_choice loose_matrix, [(''A'', 0), (''B'', 0), (''C'', 0), (''H'', 0)])"
    by (rule correct_columns_stop) (simp add: limit_order_def at0_def)
  finally show ?thesis unfolding loose_deficits .
qed

lemma loose_result:
  "computeStratifiedQuotas (as_numbers loose_strata) (as_numbers loose_groups) limit_order 108 =
     Inr \<lparr>quotas = apply_swap loose_choice loose_matrix,
        cells = map (\<lambda>c. c\<lparr>cell_quota := at0 (row_of (apply_swap loose_choice loose_matrix) (stratumKey c)) (groupKey c)\<rparr>) loose_cells,
        stratumSizes = loose_strata\<rparr>"
proof -
  have "List.find (\<lambda>g. at0 [(''A'', 0), (''B'', 0), (''C'', 0), (''H'', 0)] g \<noteq> 0) limit_order = None"
    by (simp add: limit_order_def at0_def)
  moreover have "0 < maxIterations loose_matrix limit_order" by (simp add: maxIterations_def)
  ultimately show ?thesis
    by (simp add: computeStratifiedQuotas_def loose_entries loose_rows loose_correct)
qed

end
