(* ===== verification/Stratification_Properties.thy ===== *)
theory Stratification_Properties
  imports Stratification_Limits
begin

section \<open>Properties of the stratified quotas\<close>

text \<open>
  What the stratification of an audience guarantees, and two inputs on which
  it does less than its comments say.
\<close>

subsection \<open>Merging small strata\<close>

lemma row_sum_delete:
  "distinct (map fst t) \<Longrightarrow> row_sum (AList.delete k t) = row_sum t - at0 t k"
proof (induction t)
  case (Cons p t)
  then have "k = fst p \<Longrightarrow> AList.delete k t = t"
    by (intro delete_id) (auto simp: dom_map_of_conv_image_fst)
  with Cons show ?case by (cases p) (auto simp: at0_def AList.delete_eq)
qed simp

definition merge_inv :: "stratification_policy \<Rightarrow> int \<Rightarrow> tally \<Rightarrow> tally \<Rightarrow> bool" where
  "merge_inv policy n es t \<longleftrightarrow>
     distinct (map fst t) \<and> row_sum t = n \<and>
     (\<forall>(k, c) \<in> set es. k \<noteq> otherStratumKey policy \<longrightarrow> map_of t k = Some c) \<and>
     (\<forall>(k, c) \<in> set t. 0 < c \<and> (k = otherStratumKey policy \<or> (k, c) \<in> set es \<or> minimumStratumSize policy \<le> c))"

lemma in_update: "(j, c) \<in> set (AList.update k v t) \<Longrightarrow> (j, c) = (k, v) \<or> (j, c) \<in> set t"
  by (induction t) (auto split: if_splits)

lemma merge_step:
  assumes inv: "merge_inv policy n ((k, c) # es) t" and d: "distinct (map fst ((k, c) # es))" and c: "0 < c"
  shows "merge_inv policy n es
    (if k \<noteq> otherStratumKey policy \<and> c < minimumStratumSize policy
     then AList.delete k (AList.update (otherStratumKey policy) (at0 t (otherStratumKey policy) + c) t) else t)"
proof (cases "k \<noteq> otherStratumKey policy \<and> c < minimumStratumSize policy")
  case False
  then show ?thesis using inv unfolding merge_inv_def by auto
next
  case True
  let ?o = "otherStratumKey policy"
  let ?u = "AList.update ?o (at0 t ?o + c) t"
  have dt: "distinct (map fst t)" using inv by (simp add: merge_inv_def)
  then have du: "distinct (map fst ?u)" by (rule distinct_update)
  have kc: "map_of t k = Some c" using inv True by (simp add: merge_inv_def)
  then have kc0: "at0 t k = c" by (simp add: at0_def)
  have pos: "0 \<le> at0 t ?o"
    using inv by (auto simp: merge_inv_def at0_def split: option.splits dest!: map_of_SomeD)
  have "row_sum (AList.delete k ?u) = n"
    using inv True kc0 by (simp add: row_sum_delete [OF du] row_sum_update at0_update merge_inv_def)
  moreover have "map_of (AList.delete k ?u) j = Some a" if "(j, a) \<in> set es" "j \<noteq> ?o" for j a
  proof -
    have "j \<noteq> k" using d that by force
    moreover have "map_of t j = Some a" using inv that by (auto simp: merge_inv_def)
    ultimately show ?thesis using that by (simp add: delete_conv' update_conv')
  qed
  moreover have "0 < a \<and> (j = ?o \<or> (j, a) \<in> set es \<or> minimumStratumSize policy \<le> a)"
    if "(j, a) \<in> set (AList.delete k ?u)" for j a
  proof -
    have "j \<noteq> k" "(j, a) \<in> set ?u" using that by (auto simp: AList.delete_eq)
    with in_update [OF this(2)] inv c pos show ?thesis by (auto simp: merge_inv_def)
  qed
  ultimately show ?thesis using True du by (auto simp: merge_inv_def distinct_delete)
qed

lemma merge_fold:
  assumes "merge_inv policy n es t" "distinct (map fst es)" "\<forall>(k, c) \<in> set es. 0 < c"
  shows "merge_inv policy n []
    (fold (\<lambda>(k, c) t.
        if k \<noteq> otherStratumKey policy \<and> c < minimumStratumSize policy
        then AList.delete k (AList.update (otherStratumKey policy) (at0 t (otherStratumKey policy) + c) t)
        else t) es t)"
  using assms
proof (induction es arbitrary: t)
  case (Cons p es)
  obtain k c where p: "p = (k, c)" by fastforce
  show ?case
    using Cons.IH [OF merge_step [OF Cons.prems(1) [unfolded p]]] Cons.prems(2,3) by (simp add: p)
qed simp

lemma tally_strata_spec:
  "distinct (map fst (tally_strata policy emails)) \<and> row_sum (tally_strata policy emails) = int (length emails) \<and>
   (\<forall>(k, c) \<in> set (tally_strata policy emails). 0 < c)"
proof -
  have "distinct (map fst (fold f emails t)) \<and> row_sum (fold f emails t) = row_sum t + int (length emails) \<and>
      (\<forall>(k, c) \<in> set (fold f emails t). 0 < c)"
    if "f = (\<lambda>e t. let k = classifyStratum e policy in AList.update k (at0 t k + 1) t)"
      "distinct (map fst t)" "\<forall>(k, c) \<in> set t. 0 < c" for f t
    using that(2,3)
  proof (induction emails arbitrary: t)
    case (Cons e emails)
    let ?k = "classifyStratum e policy"
    have "0 \<le> at0 t ?k"
      using Cons.prems(2) by (auto simp: at0_def split: option.splits dest!: map_of_SomeD)
    then have "\<forall>(k, c) \<in> set (AList.update ?k (at0 t ?k + 1) t). 0 < c"
      using Cons.prems(2) by (auto dest: in_update)
    moreover have "row_sum (AList.update ?k (at0 t ?k + 1) t) = row_sum t + 1" by (simp add: row_sum_update)
    ultimately show ?case
      using Cons.IH [OF distinct_update [OF Cons.prems(1)], of ?k "at0 t ?k + 1"] by (simp add: that(1) Let_def)
  qed simp
  from this [OF refl, of "[]"] show ?thesis by (simp add: tally_strata_def)
qed

text \<open>The strata of an audience account for every subscriber: after small strata
  are merged their sizes are positive and sum to the audience, no stratum is
  listed twice, and every stratum but the fallback reaches the minimum size.\<close>

theorem strata_cover_audience:
  "let t = merge_small policy (tally_strata policy emails)
   in distinct (map fst t) \<and> sum_list (map snd t) = int (length emails) \<and>
      list_all (\<lambda>(k, n). 0 < n \<and> (k = otherStratumKey policy \<or> minimumStratumSize policy \<le> n)) t"
proof -
  let ?t = "tally_strata policy emails"
  note spec = tally_strata_spec [of policy emails]
  show ?thesis
  proof (cases "0 < minimumStratumSize policy")
    case True
    have "merge_inv policy (int (length emails)) ?t ?t"
      using spec by (auto simp: merge_inv_def)
    from merge_fold [OF this] show ?thesis
      using spec True by (auto simp: merge_small_def merge_inv_def list_all_iff)
  next
    case False
    then show ?thesis using spec by (force simp: merge_small_def list_all_iff)
  qed
qed

subsection \<open>The quota matrix\<close>

text \<open>C26: Whatever matrix \<open>computeStratifiedQuotas\<close> returns has the margins it was
  asked for: the quotas of every stratum sum to its size, the quotas of every
  group sum to its exact count, no quota is negative, and the reported cells
  are the entries of the matrix.\<close>

theorem quota_margins:
  assumes "computeStratifiedQuotas sizes counts order audience = Inr r"
    and "distinct (map fst sizes)" and "distinct (map fst counts)" and "distinct order"
    and "set order = set (map fst counts)" and "audience \<le> 10 ^ 12"
  shows "(\<forall>(k, v) \<in> set sizes. v = Num (of_int (sum_list (map snd (row_of (quotas r) k))))) \<and>
    (\<forall>(g, v) \<in> set counts. v = Num (of_int (column_sum (quotas r) g))) \<and>
    (\<forall>k \<in> set (map fst sizes). \<forall>g. 0 \<le> at0 (row_of (quotas r) k) g) \<and>
    (\<forall>c \<in> set (cells r). cell_quota c = at0 (row_of (quotas r) (stratumKey c)) (groupKey c))"
proof -
  obtain gcounts where
    "sizes = map (\<lambda>(k, n). (k, Num (of_int n))) (stratumSizes r)"
    "counts = map (\<lambda>(k, n). (k, Num (of_int n))) gcounts"
    "\<forall>(k, n) \<in> set (stratumSizes r). row_sum (row_of (quotas r) k) = n"
    "\<forall>(g, c) \<in> set gcounts. column_sum (quotas r) g = c"
    and rest: "\<forall>k \<in> set (map fst sizes). \<forall>g. 0 \<le> at0 (row_of (quotas r) k) g"
    "\<forall>c \<in> set (cells r). cell_quota c = at0 (row_of (quotas r) (stratumKey c)) (groupKey c)"
    using stratified_quotas_spec [OF assms] by blast
  then have "\<forall>(k, v) \<in> set sizes. v = Num (of_int (sum_list (map snd (row_of (quotas r) k))))"
    "\<forall>(g, v) \<in> set counts. v = Num (of_int (column_sum (quotas r) g))"
    by fastforce+
  with rest show ?thesis by blast
qed

lemma quota_margins_witness:
  "list_all (\<lambda>(k, v). v = Num (of_int (sum_list (map snd (row_of (apply_swap loose_choice loose_matrix) k)))))
     (as_numbers loose_strata) \<and>
   list_all (\<lambda>(g, v). v = Num (of_int (column_sum (apply_swap loose_choice loose_matrix) g))) (as_numbers loose_groups)"
  using quota_margins [OF loose_result]
  by (simp add: list_all_iff loose_strata_def loose_groups_def limit_order_def insert_commute)

text \<open>The swaps are greedy, so the correction does less than the header says, on
  valid inputs for which a matrix with all documented bounds exists: for 12
  subscribers in strata of 2, 2, 4, 4 and groups of 1, 3, 4, 4 it raises "did
  not converge", and for 108 subscribers in strata of 26, 26, 28, 28 and groups
  of 18, 18, 27, 45 it returns a matrix with a cell below the floor of its
  ideal share.\<close>

theorem correction_falls_short:
  "computeStratifiedQuotas (as_numbers stuck_strata) (as_numbers stuck_groups) limit_order 12 =
     Inl (DidNotConverge ''A'' (- 1)) \<and> (\<exists>m. proportional stuck_strata stuck_groups m) \<and>
   (\<exists>r. computeStratifiedQuotas (as_numbers loose_strata) (as_numbers loose_groups) limit_order 108 = Inr r \<and>
     (\<exists>c \<in> set (cells r). cell_quota c < \<lfloor>cell_ideal c\<rfloor>)) \<and> (\<exists>m. proportional loose_strata loose_groups m)"
proof -
  let ?rows = "apply_swap loose_choice loose_matrix"
  let ?c = "\<lparr>stratumKey = ''daum'', groupKey = ''C'', cell_quota = 7, cell_ideal = 7\<rparr>"
  have c: "?c \<in> set loose_cells" by (simp add: loose_cells_def)
  have "at0 (row_of ?rows ''daum'') ''C'' = 6"
    by (simp add: apply_swap_def loose_choice_def loose_matrix_def Let_def row_of_def at0_def)
  then have "\<exists>c \<in> set (map (\<lambda>c. c\<lparr>cell_quota := at0 (row_of ?rows (stratumKey c)) (groupKey c)\<rparr>) loose_cells).
      cell_quota c < \<lfloor>cell_ideal c\<rfloor>"
    using c by (force intro: bexI [of _ ?c])
  then show ?thesis
    using stuck_result loose_result stuck_proportional loose_proportional by auto
qed

end
