(* ===== verification/Abtest_Lifecycle.thy ===== *)
theory Abtest_Lifecycle
  imports Ops_Prelude
begin

section \<open>Cancelling an experiment\<close>

text \<open>
  \<open>lifecycle.ts\<close>: the remote status of every backing campaign is read, a plan
  is made (\<open>planCancelAbTest\<close>) and executed (\<open>executeCancelPlan\<close>).  The
  Listmonk client is a parameter: for the position of a call in its batch and
  the request it gives a reply, which is data, an error envelope or a thrown
  error.  An execution returns its result together with the requests it issued,
  batch by batch; the calls of a batch run concurrently and do not see each
  other's results.
\<close>

record campaign_mapping =
  mapping_variant :: string
  campaignId :: int

record list_mapping =
  list_variant :: string
  listId :: int

text \<open>The fields of a test that cancellation reads.\<close>

record ab_resources =
  test_id :: string
  campaignMappings :: "campaign_mapping list"
  testListMappings :: "list_mapping list"
  holdoutListId :: "int option"
  winnerCampaignId :: "int option"

datatype campaign_action = Cancel int | Delete int | Leave int string

record cancel_plan =
  plan_testId :: string
  campaignActions :: "campaign_action list"
  listActions :: "int list"
  campaignsBlockingListDeletion :: "int list"

record plan_options =
  deleteTerminalCampaigns :: "bool option"
  terminalStatuses :: "string list option"
  activeStatuses :: "string list option"

definition DEFAULT_ACTIVE_STATUSES :: "string list" where
  "DEFAULT_ACTIVE_STATUSES = [''running'']"

definition DEFAULT_TERMINAL_STATUSES :: "string list" where
  "DEFAULT_TERMINAL_STATUSES = [''finished'', ''sent'', ''cancelled'']"

definition ALREADY_DELETED_STATUS :: string where
  "ALREADY_DELETED_STATUS = ''already_deleted''"

text \<open>The action for one campaign, and whether it keeps the lists.\<close>

definition plan_campaign ::
  "plan_options \<Rightarrow> (int \<rightharpoonup> string) \<Rightarrow> campaign_mapping \<Rightarrow> campaign_action \<times> bool" where
  "plan_campaign options observed m =
     (let active = (case activeStatuses options of Some a \<Rightarrow> a | None \<Rightarrow> DEFAULT_ACTIVE_STATUSES);
          terminal = (case terminalStatuses options of Some t \<Rightarrow> t | None \<Rightarrow> DEFAULT_TERMINAL_STATUSES);
          deleteTerminal = (case deleteTerminalCampaigns options of Some b \<Rightarrow> b | None \<Rightarrow> False);
          i = campaignId m
      in case observed i of
           None \<Rightarrow> (Leave i ''status could not be observed'', True)
         | Some status \<Rightarrow>
             if status = ALREADY_DELETED_STATUS then (Leave i ''campaign already deleted (404)'', False)
             else if status \<in> set active then (Cancel i, True)
             else if status \<in> set terminal then
               if deleteTerminal then (Delete i, False)
               else (Leave i (''terminal status '' @ status), True)
             else (Delete i, False))"

text \<open>The insertion order of a \<open>Set\<close>.\<close>

fun first_occurrences :: "'a list \<Rightarrow> 'a list" where
  "first_occurrences [] = []"
| "first_occurrences (x # xs) = x # filter (\<lambda>y. y \<noteq> x) (first_occurrences xs)"

definition planCancelAbTest ::
  "ab_resources \<Rightarrow> (int \<rightharpoonup> string) \<Rightarrow> plan_options \<Rightarrow> cancel_plan" where
  "planCancelAbTest t observed options =
     (let planned = map (plan_campaign options observed) (campaignMappings t);
          surviving = concat (map (\<lambda>(m, p). if snd p then [campaignId m] else []) (zip (campaignMappings t) planned))
      in \<lparr>plan_testId = test_id t,
          campaignActions = map fst planned,
          listActions = first_occurrences
            (map listId (testListMappings t) @ (case holdoutListId t of Some l \<Rightarrow> [l] | None \<Rightarrow> [])),
          campaignsBlockingListDeletion =
            surviving @ (case winnerCampaignId t of Some w \<Rightarrow> [w] | None \<Rightarrow> [])\<rparr>)"

subsection \<open>Replies of the client\<close>

text \<open>
  An error as the code inspects it: an HTTP status in \<open>response.status\<close>, if
  there is one, and the text it matches otherwise.  An envelope has the text
  of its \<open>error\<close> field, \<open>None\<close> when that is undefined.
\<close>

record failure =
  http_status :: "int option"
  failure_text :: string

datatype client_reply =
    Answer "string option"
  | Envelope failure
  | Thrown failure

datatype cancel_request =
    GetCampaign int
  | SetCancelled int
  | DeleteCampaign int
  | DeleteList int

type_synonym cancel_client = "nat \<Rightarrow> cancel_request \<Rightarrow> client_reply"

definition isNotFoundError :: "failure \<Rightarrow> bool" where
  "isNotFoundError e =
     (case http_status e of
        Some s \<Rightarrow> s = 404
      | None \<Rightarrow> str_includes (toLowerCase (failure_text e)) ''not found'' \<or>
                str_includes (toLowerCase (failure_text e)) ''404'')"

datatype outcome = Succeeded | NotFound | Failed | SkippedActiveReference

definition reply_outcome :: "client_reply \<Rightarrow> outcome" where
  "reply_outcome r =
     (case r of
        Answer _ \<Rightarrow> Succeeded
      | Envelope e \<Rightarrow> if isNotFoundError e then NotFound else Failed
      | Thrown e \<Rightarrow> if isNotFoundError e then NotFound else Failed)"

datatype action_kind = KCancel | KDelete | KLeave

record campaign_result =
  cr_campaign :: int
  cr_action :: action_kind
  cr_outcome :: outcome

record list_result =
  lr_list :: int
  lr_outcome :: outcome

record cancel_result =
  result_plan :: cancel_plan
  campaignResults :: "campaign_result list"
  listResults :: "list_result list"
  fullyCleaned :: bool
  hadRetainedResources :: bool
  hadFailures :: bool
  hadFetchFailures :: bool

subsection \<open>Execution\<close>

fun action_request :: "campaign_action \<Rightarrow> cancel_request option" where
  "action_request (Cancel i) = Some (SetCancelled i)"
| "action_request (Delete i) = Some (DeleteCampaign i)"
| "action_request (Leave i r) = None"

fun action_id :: "campaign_action \<Rightarrow> int" where
  "action_id (Cancel i) = i"
| "action_id (Delete i) = i"
| "action_id (Leave i r) = i"

fun action_kind_of :: "campaign_action \<Rightarrow> action_kind" where
  "action_kind_of (Cancel i) = KCancel"
| "action_kind_of (Delete i) = KDelete"
| "action_kind_of (Leave i r) = KLeave"

definition run_action :: "cancel_client \<Rightarrow> nat \<times> campaign_action \<Rightarrow> campaign_result" where
  "run_action client = (\<lambda>(pos, a).
     \<lparr>cr_campaign = action_id a, cr_action = action_kind_of a,
      cr_outcome = (case action_request a of
                      None \<Rightarrow> Succeeded
                    | Some r \<Rightarrow> reply_outcome (client pos r))\<rparr>)"

definition surviving_references :: "cancel_plan \<Rightarrow> campaign_result list \<Rightarrow> int set" where
  "surviving_references plan rs =
     (let deleted = set (map cr_campaign (filter (\<lambda>r. cr_outcome r = Succeeded \<and> cr_action r = KDelete) rs))
      in set (filter (\<lambda>i. i \<notin> deleted) (campaignsBlockingListDeletion plan)) \<union>
         set (map cr_campaign (filter (\<lambda>r. cr_outcome r = Failed) rs)))"

definition run_list_action :: "cancel_client \<Rightarrow> bool \<Rightarrow> nat \<times> int \<Rightarrow> list_result" where
  "run_list_action client anySurviving = (\<lambda>(pos, l).
     \<lparr>lr_list = l,
      lr_outcome = (if anySurviving then SkippedActiveReference
                    else reply_outcome (client pos (DeleteList l)))\<rparr>)"

definition settled :: "outcome \<Rightarrow> bool" where
  "settled c = (c = Succeeded \<or> c = NotFound)"

definition executeCancelPlan ::
  "cancel_client \<Rightarrow> cancel_plan \<Rightarrow> cancel_result \<times> cancel_request list" where
  "executeCancelPlan client plan =
     (let rs = map (run_action client) (enumerate 0 (campaignActions plan));
          anySurviving = (surviving_references plan rs \<noteq> {});
          ls = map (run_list_action client anySurviving) (enumerate 0 (listActions plan))
      in (\<lparr>result_plan = plan, campaignResults = rs, listResults = ls,
           fullyCleaned = (list_all (\<lambda>r. settled (cr_outcome r)) rs \<and> list_all (\<lambda>r. settled (lr_outcome r)) ls),
           hadRetainedResources = list_ex (\<lambda>r. lr_outcome r = SkippedActiveReference) ls,
           hadFailures = (list_ex (\<lambda>r. cr_outcome r = Failed) rs \<or> list_ex (\<lambda>r. lr_outcome r = Failed) ls),
           hadFetchFailures = False\<rparr>,
          List.map_filter action_request (campaignActions plan) @
          (if anySurviving then [] else map DeleteList (listActions plan))))"

text \<open>The status of one campaign: \<open>None\<close> is unobservable.\<close>

definition observed_status :: "client_reply \<Rightarrow> string option" where
  "observed_status r =
     (case r of
        Answer s \<Rightarrow> s
      | Envelope e \<Rightarrow> if isNotFoundError e then Some ALREADY_DELETED_STATUS else None
      | Thrown e \<Rightarrow> if isNotFoundError e then Some ALREADY_DELETED_STATUS else None)"

definition fetchCampaignStatuses ::
  "cancel_client \<Rightarrow> int list \<Rightarrow> (int \<rightharpoonup> string) \<times> int list" where
  "fetchCampaignStatuses client ids =
     (let replies = map (\<lambda>(pos, i). (i, observed_status (client pos (GetCampaign i)))) (enumerate 0 ids)
      in (fold (\<lambda>(i, s) m. case s of Some st \<Rightarrow> m(i \<mapsto> st) | None \<Rightarrow> m) replies Map.empty,
          map fst (filter (\<lambda>(i, s). s = None) replies)))"

text \<open>The three batches of a cancellation have a client each.\<close>

definition cancelAbTest ::
  "cancel_client \<Rightarrow> cancel_client \<Rightarrow> ab_resources \<Rightarrow> bool option \<Rightarrow> cancel_result \<times> cancel_request list" where
  "cancelAbTest reads client t deleteTerminal =
     (let ids = first_occurrences (map campaignId (campaignMappings t));
          (statuses, unobservable) = fetchCampaignStatuses reads ids;
          plan = planCancelAbTest t statuses
            \<lparr>deleteTerminalCampaigns = deleteTerminal, terminalStatuses = None, activeStatuses = None\<rparr>;
          (result, requests) = executeCancelPlan client plan
      in (result\<lparr>hadFetchFailures := (unobservable \<noteq> [])\<rparr>, map GetCampaign ids @ requests))"

end
