(* ===== verification/Lifecycle_Properties.thy ===== *)
theory Lifecycle_Properties
  imports Abtest_Lifecycle
begin

section \<open>Properties of the cancellation of an experiment\<close>

text \<open>
  The lemmas relate the statuses read, the planned actions and the requests
  issued; the properties say which remote mutations a cancellation can make.
\<close>

lemma set_first_occurrences [simp]: "set (first_occurrences xs) = set xs"
  by (induction xs) auto

lemma distinct_first_occurrences: "distinct (first_occurrences xs)"
  by (induction xs) auto

lemma fold_statuses:
  "fold (\<lambda>(i, s) m. case s of Some st \<Rightarrow> m(i \<mapsto> st) | None \<Rightarrow> m) replies m0 i = Some st \<Longrightarrow>
     (i, Some st) \<in> set replies \<or> m0 i = Some st"
  by (induction replies arbitrary: m0) (fastforce split: option.splits if_splits)+

lemma fold_statuses_keep:
  "m0 i \<noteq> None \<Longrightarrow>
     fold (\<lambda>(i, s) m. case s of Some st \<Rightarrow> m(i \<mapsto> st) | None \<Rightarrow> m) replies m0 i \<noteq> None"
  by (induction replies arbitrary: m0) (auto split: option.splits)

lemma fold_statuses_None:
  "fold (\<lambda>(i, s) m. case s of Some st \<Rightarrow> m(i \<mapsto> st) | None \<Rightarrow> m) replies m0 i = None \<Longrightarrow>
     (i, s) \<in> set replies \<Longrightarrow> s = None"
proof (induction replies arbitrary: m0)
  case (Cons r replies)
  obtain j u where r: "r = (j, u)" by fastforce
  show ?case
  proof (cases "(i, s) = r")
    case True
    then show ?thesis
      using Cons.prems(1) fold_statuses_keep [of "m0(i \<mapsto> the s)" i replies]
      by (cases s) (auto simp: r)
  next
    case False
    then show ?thesis using Cons by (auto simp: r)
  qed
qed simp

text \<open>A status in the map was the reply to a read of that campaign.\<close>

lemma fetch_SomeD:
  assumes "fst (fetchCampaignStatuses reads ids) i = Some st"
  shows "\<exists>pos < length ids. ids ! pos = i \<and> observed_status (reads pos (GetCampaign i)) = Some st"
  using fold_statuses [of _ Map.empty i st] assms
  by (fastforce simp: fetchCampaignStatuses_def Let_def in_set_enumerate_eq)

lemma fetch_unobservable:
  assumes "i \<in> set ids" "fst (fetchCampaignStatuses reads ids) i = None"
  shows "i \<in> set (snd (fetchCampaignStatuses reads ids))"
proof -
  let ?replies = "map (\<lambda>(pos, i). (i, observed_status (reads pos (GetCampaign i)))) (enumerate 0 ids)"
  obtain pos where "pos < length ids" "ids ! pos = i" using assms(1) by (auto simp: in_set_conv_nth)
  then have m: "(i, observed_status (reads pos (GetCampaign i))) \<in> set ?replies"
    by (force simp: in_set_enumerate_eq)
  moreover from this have "observed_status (reads pos (GetCampaign i)) = None"
    using fold_statuses_None [of ?replies Map.empty i] assms(2)
    by (simp add: fetchCampaignStatuses_def Let_def)
  ultimately show ?thesis
    by (force simp: fetchCampaignStatuses_def Let_def)
qed

abbreviation default_options :: "bool option \<Rightarrow> plan_options" where
  "default_options d \<equiv> \<lparr>deleteTerminalCampaigns = d, terminalStatuses = None, activeStatuses = None\<rparr>"

lemma cancelAbTest_parts:
  obtains statuses unobservable where
    "fetchCampaignStatuses reads (first_occurrences (map campaignId (campaignMappings t))) = (statuses, unobservable)"
    "cancelAbTest reads client t d =
      ((fst (executeCancelPlan client (planCancelAbTest t statuses (default_options d))))
         \<lparr>hadFetchFailures := (unobservable \<noteq> [])\<rparr>,
       map GetCampaign (first_occurrences (map campaignId (campaignMappings t))) @
         snd (executeCancelPlan client (planCancelAbTest t statuses (default_options d))))"
  by (cases "fetchCampaignStatuses reads (first_occurrences (map campaignId (campaignMappings t)))")
     (simp add: cancelAbTest_def Let_def case_prod_unfold)

lemma campaignActions_plan:
  "campaignActions (planCancelAbTest t obs options) =
     map (\<lambda>m. fst (plan_campaign options obs m)) (campaignMappings t)"
  by (simp add: planCancelAbTest_def Let_def)

lemma blocking_plan:
  "set (campaignsBlockingListDeletion (planCancelAbTest t obs options)) =
     {campaignId m |m. m \<in> set (campaignMappings t) \<and> snd (plan_campaign options obs m)} \<union>
     set_option (winnerCampaignId t)"
  by (force simp: planCancelAbTest_def Let_def zip_map2 zip_same_conv_map split: option.splits)

lemma action_id_plan: "action_id (fst (plan_campaign options obs m)) = campaignId m"
  by (simp add: plan_campaign_def Let_def split: option.splits)

text \<open>What the plan does to a campaign, by the status that was read.\<close>

lemma plan_Cancel:
  "fst (plan_campaign (default_options d) obs m) = Cancel i \<Longrightarrow> i = campaignId m \<and> obs i = Some ''running''"
  by (auto simp: plan_campaign_def Let_def DEFAULT_ACTIVE_STATUSES_def split: option.splits if_splits)

lemma plan_Delete:
  "fst (plan_campaign (default_options d) obs m) = Delete i \<Longrightarrow>
     i = campaignId m \<and> (\<exists>st. obs i = Some st \<and> st \<noteq> ''running'' \<and>
       (st \<in> set DEFAULT_TERMINAL_STATUSES \<longrightarrow> d = Some True))"
  by (auto simp: plan_campaign_def Let_def DEFAULT_ACTIVE_STATUSES_def split: option.splits if_splits)

lemma plan_kept:
  "\<not> snd (plan_campaign (default_options d) obs m) \<Longrightarrow>
     obs (campaignId m) = Some ALREADY_DELETED_STATUS \<or> fst (plan_campaign (default_options d) obs m) = Delete (campaignId m)"
  by (auto simp: plan_campaign_def Let_def split: option.splits if_splits)

lemma requests_execute:
  "snd (executeCancelPlan client plan) =
     List.map_filter action_request (campaignActions plan) @
     (if surviving_references plan (campaignResults (fst (executeCancelPlan client plan))) \<noteq> {} then []
      else map DeleteList (listActions plan))"
  by (simp add: executeCancelPlan_def Let_def)

lemma campaignResults_execute:
  "campaignResults (fst (executeCancelPlan client plan)) =
     map (run_action client) (enumerate 0 (campaignActions plan))"
  by (simp add: executeCancelPlan_def Let_def)

lemma in_map_filter_request:
  "r \<in> set (List.map_filter action_request as) \<longleftrightarrow> (\<exists>a \<in> set as. action_request a = Some r)"
  by (force simp: List.map_filter_def)

lemma no_list_request: "action_request a \<noteq> Some (DeleteList l)" "action_request a \<noteq> Some (GetCampaign l)"
  by (cases a; simp)+

text \<open>C27: Cancellation never deletes a list that a campaign may still use.  If a
  cancellation issues the deletion of a list, the list belongs to the test, and
  every campaign of the test is gone: its status was read as deleted, or its
  deletion was issued in this run and Listmonk confirmed it or answered "not
  found"; a separately managed winner campaign was deleted in this run too.\<close>

theorem lists_deleted_after_campaigns:
  assumes "DeleteList l \<in> set (snd (cancelAbTest reads client t d))"
  shows "l \<in> set (map listId (testListMappings t)) \<union> set_option (holdoutListId t) \<and>
    (\<forall>m \<in> set (campaignMappings t).
       (\<exists>pos. observed_status (reads pos (GetCampaign (campaignId m))) = Some ALREADY_DELETED_STATUS) \<or>
       DeleteCampaign (campaignId m) \<in> set (snd (cancelAbTest reads client t d)) \<and>
       (\<exists>pos. reply_outcome (client pos (DeleteCampaign (campaignId m))) \<in> {Succeeded, NotFound})) \<and>
    (\<forall>w \<in> set_option (winnerCampaignId t).
       DeleteCampaign w \<in> set (snd (cancelAbTest reads client t d)) \<and>
       (\<exists>pos. reply_outcome (client pos (DeleteCampaign w)) = Succeeded))"
proof -
  obtain obs un where fetch: "fetchCampaignStatuses reads (first_occurrences (map campaignId (campaignMappings t))) = (obs, un)"
    and result: "cancelAbTest reads client t d =
      ((fst (executeCancelPlan client (planCancelAbTest t obs (default_options d))))\<lparr>hadFetchFailures := (un \<noteq> [])\<rparr>,
       map GetCampaign (first_occurrences (map campaignId (campaignMappings t))) @
         snd (executeCancelPlan client (planCancelAbTest t obs (default_options d))))"
    by (rule cancelAbTest_parts)
  define plan where "plan = planCancelAbTest t obs (default_options d)"
  define rs where "rs = map (run_action client) (enumerate 0 (campaignActions plan))"
  have reqs: "set (snd (cancelAbTest reads client t d)) =
      GetCampaign ` campaignId ` set (campaignMappings t) \<union>
      {r. \<exists>a \<in> set (campaignActions plan). action_request a = Some r} \<union>
      (if surviving_references plan rs \<noteq> {} then {} else DeleteList ` set (listActions plan))"
    by (auto simp: result requests_execute campaignResults_execute in_map_filter_request
        simp flip: plan_def rs_def)
  have none: "surviving_references plan rs = {}" and l: "l \<in> set (listActions plan)"
    using assms unfolding reqs by (auto simp: no_list_request split: if_splits)
  have deleted: "DeleteCampaign i \<in> set (snd (cancelAbTest reads client t d)) \<and>
      (\<exists>pos. reply_outcome (client pos (DeleteCampaign i)) \<in> {Succeeded, NotFound} \<and>
         (s \<longrightarrow> reply_outcome (client pos (DeleteCampaign i)) = Succeeded))"
    if "(pos, a) \<in> set (enumerate 0 (campaignActions plan))" "a = Delete i"
      "s \<longrightarrow> cr_outcome (run_action client (pos, a)) = Succeeded" for pos a i s
  proof -
    have a: "a \<in> set (campaignActions plan)" using that(1) by (auto simp: in_set_enumerate_eq)
    have "run_action client (pos, a) \<in> set rs" using that(1) by (auto simp: rs_def)
    then have "cr_outcome (run_action client (pos, a)) \<noteq> Failed"
      using none by (force simp: surviving_references_def Let_def)
    then have "reply_outcome (client pos (DeleteCampaign i)) \<in> {Succeeded, NotFound}"
      using that(2) by (auto simp: run_action_def reply_outcome_def split: client_reply.splits if_splits)
    then show ?thesis using a that(2,3) by (force simp: reqs run_action_def)
  qed
  have "(\<exists>pos. observed_status (reads pos (GetCampaign (campaignId m))) = Some ALREADY_DELETED_STATUS) \<or>
       DeleteCampaign (campaignId m) \<in> set (snd (cancelAbTest reads client t d)) \<and>
       (\<exists>pos. reply_outcome (client pos (DeleteCampaign (campaignId m))) \<in> {Succeeded, NotFound})"
    if m: "m \<in> set (campaignMappings t)" for m
  proof (cases "fst (plan_campaign (default_options d) obs m) = Delete (campaignId m)")
    case True
    then have "Delete (campaignId m) \<in> set (campaignActions plan)"
      using m by (force simp: plan_def campaignActions_plan)
    then obtain pos where "pos < length (campaignActions plan)" "campaignActions plan ! pos = Delete (campaignId m)"
      by (auto simp: in_set_conv_nth)
    then have "(pos, Delete (campaignId m)) \<in> set (enumerate 0 (campaignActions plan))"
      by (simp add: in_set_enumerate_eq)
    from deleted [OF this refl, of False] show ?thesis by blast
  next
    case False
    show ?thesis
    proof (cases "snd (plan_campaign (default_options d) obs m)")
      case True
      then have "campaignId m \<in> set (campaignsBlockingListDeletion plan)"
        using m by (auto simp: plan_def blocking_plan)
      then obtain r where "r \<in> set rs" "cr_campaign r = campaignId m" "cr_outcome r = Succeeded" "cr_action r = KDelete"
        using none by (auto simp: surviving_references_def Let_def filter_empty_conv)
      then obtain pos a where pa: "(pos, a) \<in> set (enumerate 0 (campaignActions plan))" "a = Delete (campaignId m)"
        "cr_outcome (run_action client (pos, a)) = Succeeded"
        by (fastforce simp: rs_def run_action_def elim: action_kind_of.elims)
      then show ?thesis using deleted [OF pa(1,2), of False] by blast
    next
      case kept: False
      then have "obs (campaignId m) = Some ALREADY_DELETED_STATUS" using plan_kept [OF kept] False by blast
      then show ?thesis
        using fetch_SomeD [of reads "first_occurrences (map campaignId (campaignMappings t))" "campaignId m"]
        by (auto simp: fetch)
    qed
  qed
  moreover have "DeleteCampaign w \<in> set (snd (cancelAbTest reads client t d)) \<and>
       (\<exists>pos. reply_outcome (client pos (DeleteCampaign w)) = Succeeded)"
    if "w \<in> set_option (winnerCampaignId t)" for w
  proof -
    have "w \<in> set (campaignsBlockingListDeletion plan)" using that by (auto simp: plan_def blocking_plan)
    then obtain r where "r \<in> set rs" "cr_campaign r = w" "cr_outcome r = Succeeded" "cr_action r = KDelete"
      using none by (auto simp: surviving_references_def Let_def filter_empty_conv)
    then obtain pos a where pa: "(pos, a) \<in> set (enumerate 0 (campaignActions plan))" "a = Delete w"
      "cr_outcome (run_action client (pos, a)) = Succeeded"
      by (fastforce simp: rs_def run_action_def elim: action_kind_of.elims)
    from deleted [OF pa(1,2), of True] pa(3) show ?thesis by blast
  qed
  moreover have "l \<in> set (map listId (testListMappings t)) \<union> set_option (holdoutListId t)"
    using l by (auto simp: plan_def planCancelAbTest_def Let_def split: option.splits)
  ultimately show ?thesis by blast
qed

text \<open>The inputs of the witnesses: one draft campaign with a list of its own.\<close>

definition sample_resources :: ab_resources where
  "sample_resources = \<lparr>test_id = ''t'', campaignMappings = [\<lparr>mapping_variant = ''A'', campaignId = 5\<rparr>],
     testListMappings = [\<lparr>list_variant = ''A'', listId = 9\<rparr>], holdoutListId = None, winnerCampaignId = None\<rparr>"

definition sample_client :: cancel_client where
  "sample_client pos r = (case r of GetCampaign i \<Rightarrow> Answer (Some ''draft'') | _ \<Rightarrow> Answer None)"

lemma lists_deleted_after_campaigns_witness:
  "(\<exists>pos. observed_status (sample_client pos (GetCampaign 5)) = Some ALREADY_DELETED_STATUS) \<or>
   DeleteCampaign 5 \<in> set (snd (cancelAbTest sample_client sample_client sample_resources None))"
proof -
  have "DeleteList 9 \<in> set (snd (cancelAbTest sample_client sample_client sample_resources None))"
    by code_simp
  from lists_deleted_after_campaigns [OF this] show ?thesis
    by (auto simp: sample_resources_def)
qed

text \<open>C28: A cancellation mutates campaigns only as their status allows.  It asks to
  cancel a campaign only if it was read as running, and to delete one only if
  it was read, was not running, and, when finished, sent or cancelled, the
  caller asked for terminal campaigns to go; every mutated campaign belongs to
  the test, and one whose status could not be read is reported and left alone.\<close>

theorem cancellation_follows_status:
  "(SetCancelled i \<in> set (snd (cancelAbTest reads client t d)) \<longrightarrow>
      i \<in> set (map campaignId (campaignMappings t)) \<and>
      (\<exists>pos. observed_status (reads pos (GetCampaign i)) = Some ''running'')) \<and>
   (DeleteCampaign i \<in> set (snd (cancelAbTest reads client t d)) \<longrightarrow>
      i \<in> set (map campaignId (campaignMappings t)) \<and>
      (\<exists>pos st. observed_status (reads pos (GetCampaign i)) = Some st \<and> st \<noteq> ''running'' \<and>
         (st \<in> {''finished'', ''sent'', ''cancelled''} \<longrightarrow> d = Some True))) \<and>
   (i \<in> set (map campaignId (campaignMappings t)) \<and> (\<forall>pos. observed_status (reads pos (GetCampaign i)) = None) \<longrightarrow>
      hadFetchFailures (fst (cancelAbTest reads client t d)) \<and>
      SetCancelled i \<notin> set (snd (cancelAbTest reads client t d)) \<and>
      DeleteCampaign i \<notin> set (snd (cancelAbTest reads client t d)))"
proof -
  obtain obs un where fetch: "fetchCampaignStatuses reads (first_occurrences (map campaignId (campaignMappings t))) = (obs, un)"
    and result: "cancelAbTest reads client t d =
      ((fst (executeCancelPlan client (planCancelAbTest t obs (default_options d))))\<lparr>hadFetchFailures := (un \<noteq> [])\<rparr>,
       map GetCampaign (first_occurrences (map campaignId (campaignMappings t))) @
         snd (executeCancelPlan client (planCancelAbTest t obs (default_options d))))"
    by (rule cancelAbTest_parts)
  have act: "\<exists>m \<in> set (campaignMappings t). \<exists>a. fst (plan_campaign (default_options d) obs m) = a \<and> action_request a = Some r"
    if "r \<in> set (snd (cancelAbTest reads client t d))" "r = SetCancelled i \<or> r = DeleteCampaign i" for r
    using that by (auto simp: result requests_execute in_map_filter_request campaignActions_plan split: if_splits)
  have read: "\<exists>pos. observed_status (reads pos (GetCampaign i)) = Some st" if "obs i = Some st" for st
    using fetch_SomeD [of reads "first_occurrences (map campaignId (campaignMappings t))" i st] that
    by (auto simp: fetch)
  have c: "i \<in> set (map campaignId (campaignMappings t)) \<and>
      (\<exists>pos. observed_status (reads pos (GetCampaign i)) = Some ''running'')"
    if r: "SetCancelled i \<in> set (snd (cancelAbTest reads client t d))"
  proof -
    obtain m where m: "m \<in> set (campaignMappings t)" "fst (plan_campaign (default_options d) obs m) = Cancel i"
      using act [OF r] by (auto elim: action_request.elims)
    then show ?thesis using plan_Cancel [OF m(2)] read by auto
  qed
  have e: "i \<in> set (map campaignId (campaignMappings t)) \<and>
      (\<exists>pos st. observed_status (reads pos (GetCampaign i)) = Some st \<and> st \<noteq> ''running'' \<and>
         (st \<in> {''finished'', ''sent'', ''cancelled''} \<longrightarrow> d = Some True))"
    if r: "DeleteCampaign i \<in> set (snd (cancelAbTest reads client t d))"
  proof -
    obtain m where m: "m \<in> set (campaignMappings t)" "fst (plan_campaign (default_options d) obs m) = Delete i"
      using act [OF r] by (auto elim: action_request.elims)
    obtain st where "i = campaignId m" "obs i = Some st" "st \<noteq> ''running''"
      "st \<in> set DEFAULT_TERMINAL_STATUSES \<longrightarrow> d = Some True"
      using plan_Delete [OF m(2)] by blast
    then show ?thesis using m(1) read [of st] by (auto simp: DEFAULT_TERMINAL_STATUSES_def)
  qed
  have u: "hadFetchFailures (fst (cancelAbTest reads client t d))"
    if "i \<in> set (map campaignId (campaignMappings t))" "\<forall>pos. observed_status (reads pos (GetCampaign i)) = None"
  proof -
    have "obs i = None" using that(2) read by (cases "obs i") auto
    then have "i \<in> set un"
      using fetch_unobservable [of i "first_occurrences (map campaignId (campaignMappings t))" reads] that(1)
      by (simp add: fetch)
    then show ?thesis by (auto simp: result)
  qed
  show ?thesis using c e u by fastforce
qed

lemma cancellation_follows_status_witness:
  "DeleteCampaign 5 \<in> set (snd (cancelAbTest sample_client sample_client sample_resources None)) \<and>
   (\<exists>pos st. observed_status (sample_client pos (GetCampaign 5)) = Some st \<and> st \<noteq> ''running'')"
proof -
  have "DeleteCampaign 5 \<in> set (snd (cancelAbTest sample_client sample_client sample_resources None))"
    by code_simp
  then show ?thesis
    using cancellation_follows_status [of 5 sample_client sample_client sample_resources None] by blast
qed

text \<open>The report flags: a run is fully cleaned exactly when nothing failed and
  nothing was retained.\<close>

lemma executeCancelPlan_flags:
  "fullyCleaned (fst (executeCancelPlan client plan)) \<longleftrightarrow>
     \<not> hadFailures (fst (executeCancelPlan client plan)) \<and>
     \<not> hadRetainedResources (fst (executeCancelPlan client plan))"
proof -
  have "reply_outcome r \<noteq> SkippedActiveReference" for r
    by (simp add: reply_outcome_def split: client_reply.splits)
  then have "cr_outcome (run_action client p) \<noteq> SkippedActiveReference" for p
    by (simp add: run_action_def case_prod_unfold split: option.splits)
  moreover have "settled u \<longleftrightarrow> u \<noteq> Failed \<and> u \<noteq> SkippedActiveReference" for u
    by (cases u) (simp_all add: settled_def)
  ultimately show ?thesis
    by (auto simp: executeCancelPlan_def Let_def list_all_iff list_ex_iff)
qed

lemma fully_cleaned_lists:
  assumes "listActions (result_plan (fst (cancelAbTest reads client t d))) \<noteq> []"
    and "fullyCleaned (fst (cancelAbTest reads client t d))"
  shows "surviving_references (result_plan (fst (cancelAbTest reads client t d)))
      (campaignResults (fst (cancelAbTest reads client t d))) = {} \<and>
    list_all (\<lambda>r. lr_outcome r \<in> {Succeeded, NotFound}) (listResults (fst (cancelAbTest reads client t d)))"
proof -
  obtain obs un where fetch: "fetchCampaignStatuses reads (first_occurrences (map campaignId (campaignMappings t))) = (obs, un)"
    by fastforce
  have result: "cancelAbTest reads client t d =
      ((fst (executeCancelPlan client (planCancelAbTest t obs (default_options d))))\<lparr>hadFetchFailures := (un \<noteq> [])\<rparr>,
       map GetCampaign (first_occurrences (map campaignId (campaignMappings t))) @
         snd (executeCancelPlan client (planCancelAbTest t obs (default_options d))))"
    by (simp add: cancelAbTest_def Let_def fetch case_prod_unfold)
  define plan where "plan = planCancelAbTest t obs (default_options d)"
  have plan: "result_plan (fst (cancelAbTest reads client t d)) = plan"
    by (simp add: result executeCancelPlan_def Let_def flip: plan_def)
  obtain l ls where "listActions plan = l # ls" using assms(1) unfolding plan by (cases "listActions plan") auto
  then show ?thesis
    using assms(2)
    by (auto simp: result executeCancelPlan_def Let_def settled_def run_list_action_def list_all_iff
        simp flip: plan_def split: if_splits)
qed

text \<open>The report of a cancellation.  With at least one list to delete, a fully
  cleaned run means that every campaign of the test is gone and every list was
  deleted or missing; but without lists the flag says less than its comment: a
  run that could not read its only campaign, and so left it running, still
  reports that it is fully cleaned (only \<open>hadFetchFailures\<close> tells).\<close>

theorem fully_cleaned_report:
  "(\<forall>reads client t d. listActions (result_plan (fst (cancelAbTest reads client t d))) \<noteq> [] \<and>
      fullyCleaned (fst (cancelAbTest reads client t d)) \<longrightarrow>
      surviving_references (result_plan (fst (cancelAbTest reads client t d)))
        (campaignResults (fst (cancelAbTest reads client t d))) = {} \<and>
      list_all (\<lambda>r. lr_outcome r \<in> {Succeeded, NotFound}) (listResults (fst (cancelAbTest reads client t d)))) \<and>
   (\<exists>reads client t. campaignMappings t \<noteq> [] \<and> fullyCleaned (fst (cancelAbTest reads client t None)) \<and>
      hadFetchFailures (fst (cancelAbTest reads client t None)) \<and>
      (\<forall>r \<in> set (snd (cancelAbTest reads client t None)). \<exists>i. r = GetCampaign i))"
proof
  show "\<forall>reads client t d. listActions (result_plan (fst (cancelAbTest reads client t d))) \<noteq> [] \<and>
      fullyCleaned (fst (cancelAbTest reads client t d)) \<longrightarrow>
      surviving_references (result_plan (fst (cancelAbTest reads client t d)))
        (campaignResults (fst (cancelAbTest reads client t d))) = {} \<and>
      list_all (\<lambda>r. lr_outcome r \<in> {Succeeded, NotFound}) (listResults (fst (cancelAbTest reads client t d)))"
  proof (intro allI impI)
    fix reads client t d
    assume a: "listActions (result_plan (fst (cancelAbTest reads client t d))) \<noteq> [] \<and>
      fullyCleaned (fst (cancelAbTest reads client t d))"
    show "surviving_references (result_plan (fst (cancelAbTest reads client t d)))
        (campaignResults (fst (cancelAbTest reads client t d))) = {} \<and>
      list_all (\<lambda>r. lr_outcome r \<in> {Succeeded, NotFound}) (listResults (fst (cancelAbTest reads client t d)))"
      using a by (intro fully_cleaned_lists) blast+
  qed
  define t where "t = sample_resources\<lparr>testListMappings := []\<rparr>"
  define c :: cancel_client where "c = (\<lambda>_ _. Thrown \<lparr>http_status = Some 503, failure_text = ''unavailable''\<rparr>)"
  have "campaignMappings t \<noteq> []" "fullyCleaned (fst (cancelAbTest c c t None))"
    "hadFetchFailures (fst (cancelAbTest c c t None))" "snd (cancelAbTest c c t None) = [GetCampaign 5]"
    unfolding t_def c_def sample_resources_def by code_simp+
  then show "\<exists>reads client t. campaignMappings t \<noteq> [] \<and> fullyCleaned (fst (cancelAbTest reads client t None)) \<and>
      hadFetchFailures (fst (cancelAbTest reads client t None)) \<and>
      (\<forall>r \<in> set (snd (cancelAbTest reads client t None)). \<exists>i. r = GetCampaign i)"
    by (intro exI [of _ c] exI [of _ t]) simp
qed

lemma fully_cleaned_report_witness:
  "list_all (\<lambda>r. lr_outcome r \<in> {Succeeded, NotFound})
     (listResults (fst (cancelAbTest sample_client sample_client sample_resources None)))"
proof -
  have "listActions (result_plan (fst (cancelAbTest sample_client sample_client sample_resources None))) \<noteq> [] \<and>
    fullyCleaned (fst (cancelAbTest sample_client sample_client sample_resources None))"
    by code_simp
  then show ?thesis using fully_cleaned_report by blast
qed

end
