(* ===== verification/Abtest_Workflow.thy ===== *)
theory Abtest_Workflow
  imports Abtest_Lifecycle Js_Double
begin

section \<open>The life of an experiment\<close>

text \<open>
  \<open>factory.ts\<close>, with the steps of \<open>abtest-service.ts\<close> and
  \<open>listmonk-integration.ts\<close> it calls: finalizing a provisioned test, recording
  the launch intent, launching, stopping, one step of \<open>run\<close>, \<open>tick\<close>,
  \<open>reconcile\<close> and deploying the winner, over the tests of the store.
  The service mutates its tests in place, so an operation that fails leaves
  its changes in memory; \<open>stored\<close> is \<open>withStoredAbTestExecutors\<close>, which commits
  them only if the operation returns.  Operations also return the remote
  requests they issued.  The clock, the client and the statistical analysis
  are an environment.  Timestamps on a test are valid (the store checks them).
\<close>

datatype ab_status =
    Draft | Testing | Scheduled | Running | Analyzing | Deploying | Cancelling
  | Completed | Inconclusive | Cancelled | FailedStatus

datatype testing_mode = Holdout | FullSplit

record pending_config =
  cfg_autoLaunch :: bool
  cfg_launchAt :: "instant option"
  cfg_durationHours :: "rat option"

record ab_test = ab_resources +
  status :: ab_status
  pendingCreate :: "pending_config option"
  provisionedAt :: "instant option"
  startedAt :: "instant option"
  launchAt :: "instant option"
  endsAt :: "instant option"
  durationHours :: "rat option"
  updatedAt :: instant
  testingMode :: testing_mode
  autoDeployWinner :: bool
  winnerVariantId :: "string option"

definition TERMINAL_STATUSES :: "ab_status set" where
  "TERMINAL_STATUSES = {Completed, Cancelled, Inconclusive, FailedStatus}"

definition ABTEST_SAFETY_LEAD_SECONDS :: int where
  "ABTEST_SAFETY_LEAD_SECONDS = 60"

datatype remote_request =
    ScheduleCampaign string int int instant
  | SetScheduled int
  | CreateWinner string int string
  | StartWinner int
  | Cancellation cancel_request

datatype wf_error =
    NotFoundError string
  | StillProvisioning
  | NotLaunchable ab_status
  | NotStoppable ab_status
  | MissingWindow
  | InvalidDate
  | NoListMapping string
  | RemoteFailure string
  | NonAuthoritativeStop
  | ChangedAfterApproval
  | NotHoldout
  | NoHoldoutGroup
  | AnalysisFailed string
  | NoWinner
  | NotCheckpointed

record analysis =
  isSignificant :: bool
  winner :: "string option"

record wf_env =
  env_now :: instant
  env_reads :: cancel_client
  env_cancel :: cancel_client
  env_launch :: "nat \<Rightarrow> remote_request \<Rightarrow> client_reply"
  env_analyze :: "nat \<Rightarrow> ab_test \<Rightarrow> string + analysis"
  env_create :: "string + int"
  env_start :: client_reply

type_synonym tests = "ab_test list"

text \<open>An operation: the tests afterwards, the requests issued, and its outcome.\<close>

type_synonym 'r wf_result = "tests \<times> remote_request list \<times> (wf_error + 'r)"

definition get_test :: "string \<Rightarrow> tests \<Rightarrow> ab_test option" where
  "get_test i ts = List.find (\<lambda>t. test_id t = i) ts"

definition put_test :: "ab_test \<Rightarrow> tests \<Rightarrow> tests" where
  "put_test t ts = replace_by test_id ts t"

definition updateTestStatus :: "instant \<Rightarrow> string \<Rightarrow> ab_status \<Rightarrow> tests \<Rightarrow> tests \<times> ab_test option" where
  "updateTestStatus now i st ts =
     (case get_test i ts of
        None \<Rightarrow> (ts, None)
      | Some t \<Rightarrow> let t' = t\<lparr>status := st, updatedAt := now\<rparr> in (put_test t' ts, Some t'))"

text \<open>\<open>new Date(new Date(sendAt).getTime() + hours * 3600 * 1000).toISOString()\<close>\<close>

definition truncate_rat :: "rat \<Rightarrow> int" where
  "truncate_rat q = (if 0 \<le> q then \<lfloor>q\<rfloor> else \<lceil>q\<rceil>)"

definition ends_at :: "instant \<Rightarrow> rat \<Rightarrow> instant option" where
  "ends_at sendAt hours =
     (let x = dbl (of_int sendAt + dbl (dbl (hours * 3600) * 1000))
      in if \<bar>x\<bar> \<le> of_int max_date then Some (truncate_rat x) else None)"

subsection \<open>Launching\<close>

fun launch_campaigns ::
  "(nat \<Rightarrow> remote_request \<Rightarrow> client_reply) \<Rightarrow> string \<Rightarrow> list_mapping list \<Rightarrow> instant \<Rightarrow> nat \<Rightarrow>
     campaign_mapping list \<Rightarrow> remote_request list \<times> wf_error option" where
  "launch_campaigns client i listMaps sendAt pos [] = ([], None)"
| "launch_campaigns client i listMaps sendAt pos (c # cs) =
     (case List.find (\<lambda>l. list_variant l = mapping_variant c) listMaps of
        None \<Rightarrow> ([], Some (NoListMapping (mapping_variant c)))
      | Some l \<Rightarrow>
          let update = ScheduleCampaign i (campaignId c) (listId l) sendAt
          in (case client pos update of
                Answer _ \<Rightarrow>
                  let set_status = SetScheduled (campaignId c)
                  in (case client (pos + 1) set_status of
                        Answer _ \<Rightarrow>
                          let (rs, e) = launch_campaigns client i listMaps sendAt (pos + 2) cs
                          in (update # set_status # rs, e)
                      | Envelope f \<Rightarrow> ([update, set_status], Some (RemoteFailure (failure_text f)))
                      | Thrown f \<Rightarrow> ([update, set_status], Some (RemoteFailure (failure_text f))))
              | Envelope f \<Rightarrow> ([update], Some (RemoteFailure (failure_text f)))
              | Thrown f \<Rightarrow> ([update], Some (RemoteFailure (failure_text f)))))"

definition launchTest ::
  "wf_env \<Rightarrow> ab_test \<Rightarrow> instant \<Rightarrow> remote_request list \<times> wf_error option" where
  "launchTest env t sendAt =
     launch_campaigns (env_launch env) (test_id t) (testListMappings t) sendAt 0 (campaignMappings t)"

definition recordLaunchIntent :: "wf_env \<Rightarrow> string \<Rightarrow> tests \<Rightarrow> (ab_test option) wf_result" where
  "recordLaunchIntent env i ts =
     (case get_test i ts of
        None \<Rightarrow> (ts, [], Inl (NotFoundError i))
      | Some t \<Rightarrow>
          if pendingCreate t \<noteq> None then (ts, [], Inl StillProvisioning)
          else if (status t = Scheduled \<or> status t = Running) \<and> startedAt t \<noteq> None then (ts, [], Inr (Some t))
          else if status t \<noteq> Draft \<and> status t \<noteq> Scheduled then (ts, [], Inl (NotLaunchable (status t)))
          else if startedAt t = None then
            (let sendAt = (case launchAt t of
                             Some l \<Rightarrow> l
                           | None \<Rightarrow> env_now env + ABTEST_SAFETY_LEAD_SECONDS * 1000);
                 t1 = t\<lparr>startedAt := Some (env_now env), launchAt := Some sendAt\<rparr>
             in case durationHours t of
                  None \<Rightarrow>
                    (let (ts', r) = updateTestStatus (env_now env) i (status t) (put_test t1 ts) in (ts', [], Inr r))
                | Some h \<Rightarrow>
                    (case ends_at sendAt h of
                       None \<Rightarrow> (put_test t1 ts, [], Inl InvalidDate)
                     | Some e \<Rightarrow>
                         (let (ts', r) = updateTestStatus (env_now env) i (status t)
                                (put_test (t1\<lparr>endsAt := Some e\<rparr>) ts)
                          in (ts', [], Inr r))))
          else (ts, [], Inr (Some t)))"

definition launchAbTest :: "wf_env \<Rightarrow> string \<Rightarrow> tests \<Rightarrow> (ab_test option) wf_result" where
  "launchAbTest env i ts =
     (case recordLaunchIntent env i ts of
        (ts1, rs, Inl e) \<Rightarrow> (ts1, rs, Inl e)
      | (ts1, rs, Inr None) \<Rightarrow> (ts1, rs, Inl (NotFoundError i))
      | (ts1, rs, Inr (Some t)) \<Rightarrow>
          if status t = Scheduled \<or> status t = Running then (ts1, rs, Inr (Some t))
          else case launchAt t of
                 None \<Rightarrow> (ts1, rs, Inl MissingWindow)
               | Some sendAt \<Rightarrow>
                   (case launchTest env t sendAt of
                      (rs', Some e) \<Rightarrow> (ts1, rs @ rs', Inl e)
                    | (rs', None) \<Rightarrow>
                        (let (ts2, r) = updateTestStatus (env_now env) i Scheduled ts1
                         in (ts2, rs @ rs', Inr r))))"

subsection \<open>The last phases of a create\<close>

text \<open>Phase 3.5: the auto-launch window is stamped and committed.\<close>

definition recordAutoLaunchWindowPhase :: "wf_env \<Rightarrow> string \<Rightarrow> tests \<Rightarrow> ab_test wf_result" where
  "recordAutoLaunchWindowPhase env i ts =
     (case get_test i ts of
        None \<Rightarrow> (ts, [], Inl (NotFoundError i))
      | Some t \<Rightarrow>
          if provisionedAt t \<noteq> None then (ts, [], Inr t)
          else case pendingCreate t of
                 None \<Rightarrow> (ts, [], Inr t)
               | Some cfg \<Rightarrow>
                   if \<not> cfg_autoLaunch cfg then (ts, [], Inr t)
                   else
                     let window = (case launchAt t of
                                     Some l \<Rightarrow> l
                                   | None \<Rightarrow> (case cfg_launchAt cfg of
                                                Some l \<Rightarrow> l
                                              | None \<Rightarrow> env_now env + ABTEST_SAFETY_LEAD_SECONDS * 1000));
                         t' = t\<lparr>launchAt := Some window\<rparr>
                     in (put_test t' ts, [], Inr t'))"

text \<open>
  Phase 4 for a test whose campaigns and lists are committed: the requested
  orchestration fields are applied, the campaigns are scheduled if asked for,
  and the record is marked provisioned.
\<close>

definition apply_config :: "pending_config \<Rightarrow> ab_test \<Rightarrow> ab_test" where
  "apply_config cfg t =
     (let t1 = (case cfg_durationHours cfg of Some h \<Rightarrow> t\<lparr>durationHours := Some h\<rparr> | None \<Rightarrow> t)
      in case cfg_launchAt cfg of Some l \<Rightarrow> t1\<lparr>launchAt := Some l\<rparr> | None \<Rightarrow> t1)"

definition finalizeProvisionedTest :: "wf_env \<Rightarrow> ab_test \<Rightarrow> pending_config \<Rightarrow> tests \<Rightarrow> ab_test wf_result" where
  "finalizeProvisionedTest env t0 cfg ts =
     (let t = apply_config cfg t0;
          finish = (\<lambda>t. t\<lparr>provisionedAt := Some (env_now env), updatedAt := env_now env, pendingCreate := None\<rparr>)
      in if cfg_autoLaunch cfg then
           let sendAt = (case launchAt t of
                           Some l \<Rightarrow> l
                         | None \<Rightarrow> env_now env + ABTEST_SAFETY_LEAD_SECONDS * 1000);
               t2 = t\<lparr>launchAt := Some sendAt\<rparr>
           in (case launchTest env t2 sendAt of
                 (rs, Some e) \<Rightarrow> (put_test t2 ts, rs, Inl e)
               | (rs, None) \<Rightarrow>
                   let t3 = t2\<lparr>status := Scheduled, startedAt := Some (env_now env)\<rparr>
                   in (case durationHours t3 of
                         None \<Rightarrow> (put_test (finish t3) ts, rs, Inr (finish t3))
                       | Some h \<Rightarrow>
                           (case ends_at sendAt h of
                              None \<Rightarrow> (put_test t3 ts, rs, Inl InvalidDate)
                            | Some e \<Rightarrow>
                                let t4 = finish (t3\<lparr>endsAt := Some e\<rparr>)
                                in (put_test t4 ts, rs, Inr t4))))
         else (put_test (finish t) ts, [], Inr (finish t)))"

text \<open>
  \<open>provisionTest\<close> for a record whose campaign and list checkpoints are committed,
  as the phased create operation calls it; provisioning without checkpoints is
  not modelled and is an error here.
\<close>

definition provisionTest :: "wf_env \<Rightarrow> string \<Rightarrow> tests \<Rightarrow> ab_test wf_result" where
  "provisionTest env i ts =
     (case get_test i ts of
        None \<Rightarrow> (ts, [], Inl (NotFoundError i))
      | Some t \<Rightarrow>
          if provisionedAt t \<noteq> None then (ts, [], Inr t)
          else case pendingCreate t of
                 None \<Rightarrow> (ts, [], Inr t)
               | Some cfg \<Rightarrow>
                   if campaignMappings t = [] \<or> testListMappings t = [] then (ts, [], Inl NotCheckpointed)
                   else finalizeProvisionedTest env (t\<lparr>status := Draft\<rparr>) cfg ts)"

subsection \<open>Stopping\<close>

definition stopAbTest :: "wf_env \<Rightarrow> string \<Rightarrow> tests \<Rightarrow> (ab_test option) wf_result" where
  "stopAbTest env i ts =
     (case get_test i ts of
        None \<Rightarrow> (ts, [], Inl (NotFoundError i))
      | Some t \<Rightarrow>
          if pendingCreate t \<noteq> None then (ts, [], Inl StillProvisioning)
          else if status t = Cancelled then (ts, [], Inr (Some t))
          else if status t \<noteq> Running \<and> status t \<noteq> Scheduled then (ts, [], Inl (NotStoppable (status t)))
          else
            let (result, requests) = cancelAbTest (env_reads env) (env_cancel env) (ab_resources.truncate t) None
            in if hadFailures result \<or> hadFetchFailures result
               then (ts, map Cancellation requests, Inl NonAuthoritativeStop)
               else (let (ts', r) = updateTestStatus (env_now env) i Cancelled ts
                     in (ts', map Cancellation requests, Inr r)))"

subsection \<open>Deploying the winner\<close>

definition deployWinner :: "wf_env \<Rightarrow> nat \<Rightarrow> string \<Rightarrow> tests \<Rightarrow> unit wf_result" where
  "deployWinner env k i ts =
     (case get_test i ts of
        None \<Rightarrow> (ts, [], Inl (NotFoundError i))
      | Some t \<Rightarrow>
          if testingMode t \<noteq> Holdout then (ts, [], Inl NotHoldout)
          else if holdoutListId t \<in> {None, Some 0} then (ts, [], Inl NoHoldoutGroup)
          else (case env_analyze env k t of
                  Inl e \<Rightarrow> (ts, [], Inl (AnalysisFailed e))
                | Inr a \<Rightarrow>
                    (case winner a of
                       None \<Rightarrow> (ts, [], Inl NoWinner)
                     | Some v \<Rightarrow>
                         let create = CreateWinner i (the (holdoutListId t)) v;
                             back = put_test (t\<lparr>status := Analyzing\<rparr>) ts
                         in (case env_create env of
                               Inl e \<Rightarrow> (back, [create], Inl (RemoteFailure e))
                             | Inr w \<Rightarrow>
                                 let done_test = t\<lparr>winnerCampaignId := Some w, winnerVariantId := Some v,
                                                   status := Completed, updatedAt := env_now env\<rparr>
                                 in if autoDeployWinner t then
                                      (case env_start env of
                                         Thrown f \<Rightarrow> (back, [create, StartWinner w], Inl (RemoteFailure (failure_text f)))
                                       | _ \<Rightarrow> (put_test done_test ts, [create, StartWinner w], Inr ()))
                                    else (put_test done_test ts, [create], Inr ())))))"

subsection \<open>One step, the tick and reconciliation\<close>

definition runAbTest ::
  "wf_env \<Rightarrow> string \<Rightarrow> ab_status option \<Rightarrow> instant option \<Rightarrow> tests \<Rightarrow> (ab_test option) wf_result" where
  "runAbTest env i expectedStatus expectedUpdatedAt ts =
     (case get_test i ts of
        None \<Rightarrow> (ts, [], Inl (NotFoundError i))
      | Some t \<Rightarrow>
          if (case expectedStatus of Some s \<Rightarrow> status t \<noteq> s | None \<Rightarrow> False) then (ts, [], Inl ChangedAfterApproval)
          else if (case expectedUpdatedAt of Some u \<Rightarrow> updatedAt t \<noteq> u | None \<Rightarrow> False)
          then (ts, [], Inl ChangedAfterApproval)
          else if status t \<in> TERMINAL_STATUSES then (ts, [], Inr (Some t))
          else
            let set_status = (\<lambda>s ts rs. let (ts', r) = updateTestStatus (env_now env) i s ts in (ts', rs, Inr r))
            in (case status t of
                  Scheduled \<Rightarrow>
                    (case launchAt t of
                       Some l \<Rightarrow> if l \<le> env_now env then set_status Running ts [] else (ts, [], Inr (Some t))
                     | None \<Rightarrow> (ts, [], Inr (Some t)))
                | Running \<Rightarrow>
                    (case endsAt t of
                       Some e \<Rightarrow> if e \<le> env_now env then set_status Analyzing ts [] else (ts, [], Inr (Some t))
                     | None \<Rightarrow> (ts, [], Inr (Some t)))
                | Analyzing \<Rightarrow>
                    (case env_analyze env 0 t of
                       Inl e \<Rightarrow> (ts, [], Inl (AnalysisFailed e))
                     | Inr a \<Rightarrow>
                         if autoDeployWinner t \<and> winner a \<noteq> None \<and> testingMode t = Holdout then
                           (case deployWinner env 1 i ts of
                              (ts', rs, Inl e) \<Rightarrow> (ts', rs, Inl e)
                            | (ts', rs, Inr _) \<Rightarrow> set_status Completed ts' rs)
                         else set_status (if isSignificant a then Completed else Inconclusive) ts [])
                | _ \<Rightarrow> (ts, [], Inr (Some t))))"

datatype tick_action =
    SkipDraft
  | DryNoopRunningNoEndsAt
  | DryNoopRunningBeforeEndsAt
  | DryNoopScheduledNotDue
  | DryNoopTransitional ab_status
  | DryWouldProgress ab_status
  | Noop ab_status
  | Progress ab_status ab_status
  | TickError wf_error

record tick_entry =
  tick_test :: string
  tick_status :: ab_status
  tick_action :: tick_action

definition dry_action :: "instant \<Rightarrow> ab_test \<Rightarrow> tick_action" where
  "dry_action now t =
     (if status t = Running \<and> (case endsAt t of None \<Rightarrow> True | Some e \<Rightarrow> now < e) then
        (if endsAt t = None then DryNoopRunningNoEndsAt else DryNoopRunningBeforeEndsAt)
      else if status t = Scheduled \<and> (case launchAt t of None \<Rightarrow> True | Some l \<Rightarrow> now < l) then DryNoopScheduledNotDue
      else if status t \<in> {Testing, Deploying, Cancelling} then DryNoopTransitional (status t)
      else DryWouldProgress (status t))"

text \<open>
  A test in its turn.  The entry of a failure reads the status of the object
  the operation mutated.
\<close>

definition tick_one ::
  "(string \<Rightarrow> wf_env) \<Rightarrow> bool \<Rightarrow> string \<Rightarrow> tests \<Rightarrow> tests \<times> remote_request list \<times> tick_entry list" where
  "tick_one env dryRun i ts =
     (case get_test i ts of
        None \<Rightarrow> (ts, [], [])
      | Some t \<Rightarrow>
          if status t \<in> TERMINAL_STATUSES then (ts, [], [])
          else if status t = Draft then
            (ts, [], [\<lparr>tick_test = i, tick_status = Draft, tick_action = SkipDraft\<rparr>])
          else if dryRun then
            (ts, [], [\<lparr>tick_test = i, tick_status = status t, tick_action = dry_action (env_now (env i)) t\<rparr>])
          else (case runAbTest (env i) i None None ts of
                  (ts', rs, Inl e) \<Rightarrow>
                    (ts', rs, [\<lparr>tick_test = i,
                                tick_status = (case get_test i ts' of Some t' \<Rightarrow> status t' | None \<Rightarrow> status t),
                                tick_action = TickError e\<rparr>])
                | (ts', rs, Inr updated) \<Rightarrow>
                    let newStatus = (case updated of Some t' \<Rightarrow> status t' | None \<Rightarrow> status t)
                    in (ts', rs, [\<lparr>tick_test = i, tick_status = newStatus,
                                   tick_action = (if newStatus = status t then Noop (status t)
                                                  else Progress (status t) newStatus)\<rparr>])))"

fun tick_all ::
  "(string \<Rightarrow> wf_env) \<Rightarrow> bool \<Rightarrow> string list \<Rightarrow> tests \<Rightarrow> tests \<times> remote_request list \<times> tick_entry list" where
  "tick_all env dryRun [] ts = (ts, [], [])"
| "tick_all env dryRun (i # is) ts =
     (let (ts1, rs1, es1) = tick_one env dryRun i ts;
          (ts2, rs2, es2) = tick_all env dryRun is ts1
      in (ts2, rs1 @ rs2, es1 @ es2))"

definition tickAbTests :: "(string \<Rightarrow> wf_env) \<Rightarrow> bool \<Rightarrow> tests \<Rightarrow> (tick_entry list) wf_result" where
  "tickAbTests env dryRun ts =
     (let (ts', rs, es) = tick_all env dryRun (map test_id ts) ts in (ts', rs, Inr es))"

datatype drift = NoDrift | MissingStartedAt | RepairedStartedAt | TerminalWithFutureEndsAt | RepairedEndsAt

definition reconcile_one :: "instant \<Rightarrow> bool \<Rightarrow> ab_test \<Rightarrow> ab_test \<times> drift" where
  "reconcile_one now repair t =
     (if status t \<notin> TERMINAL_STATUSES \<and> startedAt t = None \<and> (status t = Running \<or> status t = Analyzing) then
        (if repair then (t\<lparr>startedAt := Some now\<rparr>, RepairedStartedAt) else (t, MissingStartedAt))
      else if status t \<in> TERMINAL_STATUSES \<and> (case endsAt t of Some e \<Rightarrow> now < e | None \<Rightarrow> False) then
        (if repair then (t\<lparr>endsAt := None\<rparr>, RepairedEndsAt) else (t, TerminalWithFutureEndsAt))
      else (t, NoDrift))"

definition reconcileAbTest ::
  "instant \<Rightarrow> string option \<Rightarrow> bool \<Rightarrow> tests \<Rightarrow> ((string \<times> ab_status \<times> drift) list) wf_result" where
  "reconcileAbTest now which repair ts =
     (case which of
        Some i \<Rightarrow>
          (case get_test i ts of
             None \<Rightarrow> (ts, [], Inl (NotFoundError i))
           | Some t \<Rightarrow> let (t', d) = reconcile_one now repair t
                       in (put_test t' ts, [], Inr [(i, status t', d)]))
      | None \<Rightarrow>
          (map (\<lambda>t. fst (reconcile_one now repair t)) ts, [],
           Inr (map (\<lambda>t. (test_id t, status t, snd (reconcile_one now repair t))) ts)))"

subsection \<open>Operations on the store\<close>

text \<open>\<open>withStoredAbTestExecutors\<close> in write mode: committed only if the action returns.\<close>

definition stored :: "(tests \<Rightarrow> 'r wf_result) \<Rightarrow> tests \<Rightarrow> 'r wf_result" where
  "stored action ts =
     (case action ts of
        (ts', rs, Inl e) \<Rightarrow> (ts, rs, Inl e)
      | (ts', rs, Inr r) \<Rightarrow> (ts', rs, Inr r))"

text \<open>
  The transactions of the operations.  The launch operation is
  \<open>TxLaunchIntent\<close> followed by \<open>TxLaunch\<close>; the create operation ends with
  \<open>TxWindow\<close> followed by \<open>TxProvision\<close>; the others are one transaction each.
  Transactions of different operations interleave.  \<open>phased\<close> and \<open>intended\<close> have
  the tests whose window or intent transaction has returned, which the code
  awaits before it provisions or launches; \<open>issued\<close> has the remote requests so far.
\<close>

datatype wf_op =
    TxWindow wf_env string
  | TxProvision wf_env string
  | TxLaunchIntent wf_env string
  | TxLaunch wf_env string
  | TxStop wf_env string
  | TxRun wf_env string "ab_status option" "instant option"
  | TxTick "string \<Rightarrow> wf_env" bool
  | TxReconcile instant "string option" bool
  | TxDeploy wf_env string

record wf_state =
  tests_of :: tests
  phased :: "string set"
  intended :: "string set"
  issued :: "remote_request list"

definition record_result :: "'r wf_result \<Rightarrow> wf_state \<Rightarrow> wf_state \<times> wf_error option" where
  "record_result x s =
     (case x of
        (ts, rs, r) \<Rightarrow>
          (s\<lparr>tests_of := ts, issued := issued s @ rs\<rparr>, case r of Inl e \<Rightarrow> Some e | Inr _ \<Rightarrow> None))"

fun wf_step :: "wf_op \<Rightarrow> wf_state \<Rightarrow> wf_state \<times> wf_error option" where
  "wf_step (TxWindow env i) s =
     (case record_result (stored (recordAutoLaunchWindowPhase env i) (tests_of s)) s of
        (s', None) \<Rightarrow> (s'\<lparr>phased := insert i (phased s)\<rparr>, None)
      | (s', e) \<Rightarrow> (s', e))"
| "wf_step (TxProvision env i) s =
     (if i \<in> phased s then record_result (stored (provisionTest env i) (tests_of s)) s else (s, None))"
| "wf_step (TxLaunchIntent env i) s =
     (case record_result (stored (recordLaunchIntent env i) (tests_of s)) s of
        (s', None) \<Rightarrow> (s'\<lparr>intended := insert i (intended s)\<rparr>, None)
      | (s', e) \<Rightarrow> (s', e))"
| "wf_step (TxLaunch env i) s =
     (if i \<in> intended s then record_result (stored (launchAbTest env i) (tests_of s)) s else (s, None))"
| "wf_step (TxStop env i) s = record_result (stored (stopAbTest env i) (tests_of s)) s"
| "wf_step (TxRun env i st u) s = record_result (stored (runAbTest env i st u) (tests_of s)) s"
| "wf_step (TxTick env dry) s = record_result (stored (tickAbTests env dry) (tests_of s)) s"
| "wf_step (TxReconcile now i repair) s = record_result (stored (reconcileAbTest now i repair) (tests_of s)) s"
| "wf_step (TxDeploy env i) s = record_result (stored (deployWinner env 0 i) (tests_of s)) s"

end
