(* ===== verification/Workflow_Invariant.thy ===== *)
theory Workflow_Invariant
  imports Abtest_Workflow
begin

section \<open>What a transaction does to the tests\<close>

text \<open>
  Every transaction changes each test by a few fields.  \<open>keeps_window\<close> and
  \<open>advances\<close> relate a test before and after; both are reflexive and transitive,
  and lifted to the tests of the store by \<open>list_all2\<close>.
\<close>

subsection \<open>Tests by identifier\<close>

lemma get_test_Some: "get_test i ts = Some t \<Longrightarrow> t \<in> set ts \<and> test_id t = i"
  unfolding get_test_def by (auto dest: find_Some_in)

lemma get_put_same [simp]:
  "get_test (test_id t) ts \<noteq> None \<Longrightarrow> get_test (test_id t) (put_test t ts) = Some t"
  unfolding get_test_def put_test_def by (rule find_replace_by_same)

lemma get_put_other [simp]: "i \<noteq> test_id t \<Longrightarrow> get_test i (put_test t ts) = get_test i ts"
  unfolding get_test_def put_test_def by (rule find_replace_by_other)

lemma put_put [simp]: "test_id t = test_id u \<Longrightarrow> put_test t (put_test u ts) = put_test t ts"
  by (simp add: put_test_def replace_by_def)

lemma map_id_put [simp]: "map test_id (put_test t ts) = map test_id ts"
  by (simp add: put_test_def)

lemma get_test_in: "distinct (map test_id ts) \<Longrightarrow> t \<in> set ts \<Longrightarrow> get_test (test_id t) ts = Some t"
  unfolding get_test_def by (rule find_key_distinct)

lemma put_rel:
  assumes "distinct (map test_id ts)" "get_test i ts = Some t" "R t t'" "test_id t' = i" "\<And>u. R u u"
  shows "list_all2 R ts (put_test t' ts)"
proof -
  have "R u (if test_id u = test_id t' then t' else u)" if u: "u \<in> set ts" for u
    using get_test_in [OF assms(1) u] assms(2-5) by auto
  then show ?thesis by (simp add: put_test_def replace_by_def list_all2_map2 list_all2_same)
qed

lemma update_status_eq:
  "get_test i ts = Some t \<Longrightarrow>
     updateTestStatus now i st ts =
       (put_test (t\<lparr>status := st, updatedAt := now\<rparr>) ts, Some (t\<lparr>status := st, updatedAt := now\<rparr>))"
  by (simp add: updateTestStatus_def Let_def)

lemma stored_eq:
  "stored action ts = (ts', rs, r) \<Longrightarrow>
     (\<exists>e ts1. action ts = (ts1, rs, Inl e) \<and> ts' = ts \<and> r = Inl e) \<or>
     (\<exists>x. action ts = (ts', rs, Inr x) \<and> r = Inr x)"
  by (auto simp: stored_def split: prod.splits sum.splits)

subsection \<open>The transactions\<close>

definition launch_window :: "ab_test \<Rightarrow> instant option" where
  "launch_window t =
     (case pendingCreate t of
        Some cfg \<Rightarrow>
          if cfg_autoLaunch cfg then (case cfg_launchAt cfg of Some l \<Rightarrow> Some l | None \<Rightarrow> launchAt t) else None
      | None \<Rightarrow> if startedAt t \<noteq> None then launchAt t else None)"

definition keeps_window :: "ab_test \<Rightarrow> ab_test \<Rightarrow> bool" where
  "keeps_window t t' =
     (test_id t' = test_id t \<and>
      (launch_window t \<noteq> None \<longrightarrow> launch_window t' = launch_window t) \<and>
      (pendingCreate t = None \<longrightarrow> pendingCreate t' = None) \<and>
      (startedAt t \<noteq> None \<longrightarrow> startedAt t' \<noteq> None) \<and>
      (pendingCreate t' = None \<or> pendingCreate t' = pendingCreate t \<and> (provisionedAt t \<noteq> None \<longrightarrow> provisionedAt t' \<noteq> None)))"

lemma keeps_id: "keeps_window t t' \<Longrightarrow> test_id t' = test_id t"
  by (simp add: keeps_window_def)

lemma keeps_window_refl [simp]: "keeps_window t t"
  by (simp add: keeps_window_def)

lemma keeps_window_trans: "keeps_window t u \<Longrightarrow> keeps_window u v \<Longrightarrow> keeps_window t v"
  unfolding keeps_window_def by (metis (no_types, lifting))

text \<open>Changes that touch none of the fields of the window.\<close>

lemma keeps_window_fields:
  "test_id t' = test_id t \<Longrightarrow> pendingCreate t' = pendingCreate t \<Longrightarrow> provisionedAt t' = provisionedAt t \<Longrightarrow>
   startedAt t' = startedAt t \<Longrightarrow> launchAt t' = launchAt t \<Longrightarrow> keeps_window t t'"
  by (simp add: keeps_window_def launch_window_def split: option.splits)

lemma put_same:
  "distinct (map test_id ts) \<Longrightarrow> get_test i ts = Some t \<Longrightarrow> put_test t ts = ts"
  by (auto simp: put_test_def replace_by_def intro!: map_idI dest!: get_test_Some intro: distinct_key_inj)

lemma window_phase_result:
  assumes "recordAutoLaunchWindowPhase env i ts = (ts', rs, Inr r)" "distinct (map test_id ts)"
  obtains t t' where "get_test i ts = Some t" "ts' = put_test t' ts" "test_id t' = i" "rs = []"
    "keeps_window t t'" "status t' = status t" "pendingCreate t' = pendingCreate t"
    "provisionedAt t' = provisionedAt t" 
    "\<And>cfg. provisionedAt t' = None \<Longrightarrow> pendingCreate t' = Some cfg \<Longrightarrow> cfg_autoLaunch cfg \<Longrightarrow> launch_window t' \<noteq> None"
proof -
  obtain t where t: "get_test i ts = Some t" "test_id t = i"
    using assms(1) get_test_Some by (fastforce simp: recordAutoLaunchWindowPhase_def split: option.splits)
  show thesis
  proof (cases "provisionedAt t = None \<and> (\<exists>cfg. pendingCreate t = Some cfg \<and> cfg_autoLaunch cfg)")
    case True
    then obtain cfg where cfg: "provisionedAt t = None" "pendingCreate t = Some cfg" "cfg_autoLaunch cfg" by blast
    define w where "w = (case launchAt t of Some l \<Rightarrow> l | None \<Rightarrow>
      (case cfg_launchAt cfg of Some l \<Rightarrow> l | None \<Rightarrow> env_now env + ABTEST_SAFETY_LEAD_SECONDS * 1000))"
    show thesis
    proof (rule that [OF t(1), of "t\<lparr>launchAt := Some w\<rparr>"])
      show "ts' = put_test (t\<lparr>launchAt := Some w\<rparr>) ts" "rs = []"
        using assms(1) t cfg by (auto simp: recordAutoLaunchWindowPhase_def Let_def w_def)
      show "keeps_window t (t\<lparr>launchAt := Some w\<rparr>)"
        using cfg by (auto simp: keeps_window_def launch_window_def w_def split: option.splits)
      show "launch_window (t\<lparr>launchAt := Some w\<rparr>) \<noteq> None"
        if "provisionedAt (t\<lparr>launchAt := Some w\<rparr>) = None" "pendingCreate (t\<lparr>launchAt := Some w\<rparr>) = Some cfg'"
           "cfg_autoLaunch cfg'" for cfg'
        using that by (simp add: launch_window_def split: option.splits)
    qed (simp_all add: t)
  next
    case False
    then have "ts' = ts" "rs = []"
      using assms(1) t by (auto simp: recordAutoLaunchWindowPhase_def Let_def split: if_splits option.splits)
    with False show thesis
      by (intro that [OF t(1), of t]) (auto simp: t put_same [OF assms(2) t(1)])
  qed
qed

lemma launch_intent_result:
  assumes "recordLaunchIntent env i ts = (ts', rs, Inr r)" "distinct (map test_id ts)"
  obtains t t' where "get_test i ts = Some t" "ts' = put_test t' ts" "test_id t' = i" "rs = []" "r = Some t'"
    "pendingCreate t = None" "pendingCreate t' = None" "startedAt t' \<noteq> None" "startedAt t \<noteq> None \<Longrightarrow> t' = t"
    "provisionedAt t' = provisionedAt t" "status t' = status t" "status t \<in> {Draft, Scheduled, Running}"
proof -
  obtain t where t: "get_test i ts = Some t" "test_id t = i" "pendingCreate t = None" "status t \<in> {Draft, Scheduled, Running}"
    using assms(1) get_test_Some by (fastforce simp: recordLaunchIntent_def split: option.splits if_splits)
  show thesis
  proof (cases "startedAt t = None")
    case False
    then have "ts' = ts" "rs = []" "r = Some t"
      using assms(1) t by (auto simp: recordLaunchIntent_def split: if_splits)
    with False t show thesis
      by (intro that [OF t(1), of t]) (auto simp: put_same [OF assms(2) t(1)])
  next
    case True
    let ?sendAt = "case launchAt t of Some l \<Rightarrow> l | None \<Rightarrow> env_now env + ABTEST_SAFETY_LEAD_SECONDS * 1000"
    let ?t1 = "t\<lparr>startedAt := Some (env_now env), launchAt := Some ?sendAt\<rparr>"
    have get: "get_test i (put_test u ts) = Some u" if "test_id u = i" for u
      using get_put_same [of u ts] t(1) that by simp
    have st: "pendingCreate t = None" "\<not> ((status t = Scheduled \<or> status t = Running) \<and> startedAt t \<noteq> None)"
      "\<not> (status t \<noteq> Draft \<and> status t \<noteq> Scheduled)"
      using True t assms(1) by (auto simp: recordLaunchIntent_def)
    obtain u where u: "test_id u = i" "pendingCreate u = None" "startedAt u \<noteq> None"
      "provisionedAt u = provisionedAt t" "status u = status t"
      "(ts', rs, r) = (put_test (u\<lparr>status := status t, updatedAt := env_now env\<rparr>) ts, [],
         Some (u\<lparr>status := status t, updatedAt := env_now env\<rparr>))"
    proof (cases "durationHours t")
      case None
      then show thesis
        using assms(1) st t True get [of ?t1]
        by (intro that [of ?t1]) (simp_all add: recordLaunchIntent_def Let_def update_status_eq)
    next
      case (Some h)
      with assms(1) st t True obtain e where e: "ends_at ?sendAt h = Some e"
        by (auto simp: recordLaunchIntent_def Let_def split: option.splits)
      then show thesis
        using assms(1) st t True Some get [of "?t1\<lparr>endsAt := Some e\<rparr>"]
        by (intro that [of "?t1\<lparr>endsAt := Some e\<rparr>"]) (simp_all add: recordLaunchIntent_def Let_def update_status_eq)
    qed
    show thesis
      by (rule that [OF t(1), of "u\<lparr>status := status t, updatedAt := env_now env\<rparr>"]) (use u t True in simp_all)
  qed
qed


text \<open>Once the intent is recorded, a launch uses its window and stamps nothing.\<close>

lemma launch_started:
  assumes "get_test i ts = Some t" "pendingCreate t = None" "startedAt t \<noteq> None"
  shows "launchAbTest env i ts =
    (if status t = Scheduled \<or> status t = Running then (ts, [], Inr (Some t))
     else if status t \<noteq> Draft then (ts, [], Inl (NotLaunchable (status t)))
     else case launchAt t of
            None \<Rightarrow> (ts, [], Inl MissingWindow)
          | Some sendAt \<Rightarrow>
              (case launchTest env t sendAt of
                 (rs, Some e) \<Rightarrow> (ts, rs, Inl e)
               | (rs, None) \<Rightarrow>
                   let t' = t\<lparr>status := Scheduled, updatedAt := env_now env\<rparr> in (put_test t' ts, rs, Inr (Some t'))))"
proof -
  have intent: "recordLaunchIntent env i ts =
      (ts, [], if status t \<in> {Draft, Scheduled, Running} then Inr (Some t) else Inl (NotLaunchable (status t)))"
    using assms by (auto simp: recordLaunchIntent_def)
  show ?thesis
  proof (cases "status t = Draft")
    case True
    then show ?thesis
      using assms by (simp add: launchAbTest_def intent update_status_eq Let_def split: option.split)
  next
    case False
    then show ?thesis by (simp add: launchAbTest_def intent)
  qed
qed

lemma launch_campaigns_window:
  "ScheduleCampaign j c l s \<in> set (fst (launch_campaigns client i listMaps sendAt pos cs)) \<Longrightarrow> j = i \<and> s = sendAt"
proof (induction client i listMaps sendAt pos cs rule: launch_campaigns.induct)
  case (2 client i listMaps sendAt pos c cs)
  show ?case
  proof (cases "List.find (\<lambda>l. list_variant l = mapping_variant c) listMaps")
    case (Some x)
    let ?u = "ScheduleCampaign i (campaignId c) (listId x) sendAt" and ?v = "SetScheduled (campaignId c)"
    show ?thesis
    proof (cases "client pos ?u")
      case u: (Answer a)
      show ?thesis
      proof (cases "client (pos + 1) ?v")
        case (Answer b)
        with 2(2) show ?thesis
          using 2(1) [OF Some refl u refl Answer] by (simp add: Some u case_prod_unfold Let_def) blast
      qed (use 2(2) in \<open>simp_all add: Some u Let_def\<close>)
    qed (use 2(2) in \<open>simp_all add: Some Let_def\<close>)
  qed (use 2(2) in simp)
qed simp

lemma launchTest_window:
  "launchTest env t sendAt = (rs, e) \<Longrightarrow> ScheduleCampaign j c l s \<in> set rs \<Longrightarrow> j = test_id t \<and> s = sendAt"
  using launch_campaigns_window unfolding launchTest_def by (metis fst_conv)

text \<open>Provisioning with a recorded window.\<close>

lemma provision_result:
  assumes "provisionTest env i ts = (ts', rs, r)" "get_test i ts = Some t"
    "\<And>cfg. provisionedAt t = None \<Longrightarrow> pendingCreate t = Some cfg \<Longrightarrow> cfg_autoLaunch cfg \<Longrightarrow> launch_window t \<noteq> None"
  shows "(\<forall>j c l s. ScheduleCampaign j c l s \<in> set rs \<longrightarrow> j = i \<and> launch_window t = Some s) \<and>
    (is_ok r \<longrightarrow> ts' = ts \<or> (\<exists>t'. ts' = put_test t' ts \<and> test_id t' = i \<and> keeps_window t t' \<and>
       pendingCreate t \<noteq> None \<and> pendingCreate t' = None \<and> status t' \<in> {Draft, Scheduled}))"
proof -
  have id: "test_id t = i" using get_test_Some [OF assms(2)] by simp
  show ?thesis
  proof (cases "provisionedAt t = None \<and> pendingCreate t \<noteq> None \<and> campaignMappings t \<noteq> [] \<and> testListMappings t \<noteq> []")
    case False
    then have "rs = []" "ts' = ts"
      using assms(1,2) by (auto simp: provisionTest_def split: option.splits if_splits)
    then show ?thesis by simp
  next
    case True
    then obtain cfg where cfg: "pendingCreate t = Some cfg" by blast
    then have fin: "finalizeProvisionedTest env (t\<lparr>status := Draft\<rparr>) cfg ts = (ts', rs, r)"
      using assms(1,2) True by (auto simp: provisionTest_def split: if_splits)
    define u where "u = apply_config cfg (t\<lparr>status := Draft\<rparr>)"
    have u: "test_id u = i" "status u = Draft" "startedAt u = startedAt t"
      "launchAt u = (case cfg_launchAt cfg of Some l \<Rightarrow> Some l | None \<Rightarrow> launchAt t)"
      by (auto simp: u_def apply_config_def Let_def id split: option.splits)
    show ?thesis
    proof (cases "cfg_autoLaunch cfg")
      case False
      with fin show ?thesis
        using cfg u
        by (auto simp: finalizeProvisionedTest_def u_def [symmetric] Let_def keeps_window_def launch_window_def id
            intro!: exI [of _ "u\<lparr>provisionedAt := Some (env_now env), updatedAt := env_now env, pendingCreate := None\<rparr>"])
    next
      case auto: True
      then obtain w where w: "launch_window t = Some w" "launchAt u = Some w"
        using assms(3) [OF _ cfg] True cfg u(4) by (auto simp: launch_window_def split: option.splits)
      let ?u = "u\<lparr>launchAt := Some w\<rparr>"
      let ?v = "?u\<lparr>status := Scheduled, startedAt := Some (env_now env)\<rparr>"
      have uw: "?u = u" using w(2) by simp
      obtain e where l: "launchTest env u w = (rs, e)"
        "e \<noteq> None \<Longrightarrow> \<not> is_ok r"
        "e = None \<Longrightarrow> is_ok r \<Longrightarrow> \<exists>t'. ts' = put_test t' ts \<and> test_id t' = i \<and> launchAt t' = Some w \<and>
           startedAt t' \<noteq> None \<and> provisionedAt t' \<noteq> None \<and> pendingCreate t' = None \<and> status t' = Scheduled"
      proof (cases "launchTest env u w")
        case (Pair rs' e)
        show thesis
        proof (rule that [of e])
          show "launchTest env u w = (rs, e)" "e \<noteq> None \<Longrightarrow> \<not> is_ok r"
            using fin auto w(2) Pair
            by (auto simp: finalizeProvisionedTest_def u_def [symmetric] Let_def uw split: option.splits)
          show "\<exists>t'. ts' = put_test t' ts \<and> test_id t' = i \<and> launchAt t' = Some w \<and>
             startedAt t' \<noteq> None \<and> provisionedAt t' \<noteq> None \<and> pendingCreate t' = None \<and> status t' = Scheduled"
            if "e = None" "is_ok r"
          proof -
            have "\<exists>t'. ts' = put_test t' ts \<and> launchAt t' = Some w \<and> startedAt t' \<noteq> None \<and> provisionedAt t' \<noteq> None \<and>
                pendingCreate t' = None \<and> status t' = Scheduled \<and> test_id t' = i"
            proof (cases "durationHours u")
              case None
              with fin auto w(2) Pair that show ?thesis
                by (intro exI [of _ "?v\<lparr>provisionedAt := Some (env_now env), updatedAt := env_now env, pendingCreate := None\<rparr>"])
                   (simp add: finalizeProvisionedTest_def u_def [symmetric] Let_def u(1) uw)
            next
              case (Some h)
              with fin auto w(2) Pair that obtain e' where "ends_at w h = Some e'"
                by (auto simp: finalizeProvisionedTest_def u_def [symmetric] Let_def uw split: option.splits)
              with fin auto w(2) Pair that Some show ?thesis
                by (intro exI [of _ "?v\<lparr>endsAt := Some e', provisionedAt := Some (env_now env),
                       updatedAt := env_now env, pendingCreate := None\<rparr>"])
                   (simp add: finalizeProvisionedTest_def u_def [symmetric] Let_def u(1) uw)
            qed
            then show ?thesis by blast
          qed
        qed
      qed
      show ?thesis
      proof (intro conjI allI impI)
        show "j = i" "launch_window t = Some s" if "ScheduleCampaign j c l s \<in> set rs" for j c l s
          using launchTest_window [OF l(1) that] u(1) w(1) by simp_all
        show "ts' = ts \<or> (\<exists>t'. ts' = put_test t' ts \<and> test_id t' = i \<and> keeps_window t t' \<and>
            pendingCreate t \<noteq> None \<and> pendingCreate t' = None \<and> status t' \<in> {Draft, Scheduled})" if "is_ok r"
          using l that w(1) cfg by (cases e) (force simp: keeps_window_def launch_window_def id)+
      qed
    qed
  qed
qed


text \<open>The other transactions leave the fields of the window alone and schedule nothing.\<close>

definition same_plan :: "ab_test \<Rightarrow> ab_test \<Rightarrow> bool" where
  "same_plan t t' =
     (test_id t' = test_id t \<and> pendingCreate t' = pendingCreate t \<and> provisionedAt t' = provisionedAt t \<and>
      startedAt t' = startedAt t \<and> launchAt t' = launchAt t)"

lemma same_plan_keeps: "same_plan t t' \<Longrightarrow> keeps_window t t'"
  by (auto simp: same_plan_def intro: keeps_window_fields)

definition schedules :: "remote_request list \<Rightarrow> bool" where
  "schedules rs = list_ex (\<lambda>r. case r of ScheduleCampaign _ _ _ _ \<Rightarrow> True | _ \<Rightarrow> False) rs"

lemma schedules_simps [simp]:
  "\<not> schedules []" "schedules (r # rs) = ((case r of ScheduleCampaign _ _ _ _ \<Rightarrow> True | _ \<Rightarrow> False) \<or> schedules rs)"
  "schedules (rs @ rs') = (schedules rs \<or> schedules rs')" "\<not> schedules (map Cancellation cs)"
  by (auto simp: schedules_def list_ex_iff)

lemma schedules_iff: "schedules rs = (\<exists>i c l s. ScheduleCampaign i c l s \<in> set rs)"
proof -
  have "(case r of ScheduleCampaign _ _ _ _ \<Rightarrow> True | _ \<Rightarrow> False) = (\<exists>i c l s. r = ScheduleCampaign i c l s)" for r
    by (cases r) auto
  then show ?thesis by (auto simp: schedules_def list_ex_iff intro!: bexI)
qed

lemma stop_result:
  assumes "stopAbTest env i ts = (ts', rs, r)"
  shows "\<not> schedules rs \<and>
    (ts' = ts \<or> (\<exists>t t'. get_test i ts = Some t \<and> ts' = put_test t' ts \<and> same_plan t t' \<and>
       status t \<in> {Running, Scheduled} \<and> status t' = Cancelled))"
  using assms
  by (auto simp: stopAbTest_def update_status_eq same_plan_def Let_def split: option.splits if_splits prod.splits)

lemma deploy_result:
  assumes "deployWinner env k i ts = (ts', rs, r)"
  shows "\<not> schedules rs \<and>
    (ts' = ts \<and> \<not> is_ok r \<or> (\<exists>t t'. get_test i ts = Some t \<and> ts' = put_test t' ts \<and> same_plan t t' \<and>
       status t' = (if is_ok r then Completed else Analyzing)))"
  using assms
  by (auto simp: deployWinner_def same_plan_def Let_def
      split: option.splits if_splits sum.splits client_reply.splits)

definition progress :: "ab_status \<Rightarrow> ab_status \<Rightarrow> bool" where
  "progress s s' = ((s, s') \<in> {(Scheduled, Running), (Running, Analyzing), (Analyzing, Analyzing),
     (Analyzing, Completed), (Analyzing, Inconclusive)})"

lemma run_result:
  assumes "runAbTest env i st u ts = (ts', rs, r)"
  shows "\<not> schedules rs \<and>
    (ts' = ts \<or> (\<exists>t t'. get_test i ts = Some t \<and> ts' = put_test t' ts \<and> same_plan t t' \<and>
       progress (status t) (status t')))"
proof (cases "get_test i ts")
  case None
  with assms show ?thesis by (simp add: runAbTest_def)
next
  case (Some t)
  define guard where "guard = ((case st of Some s \<Rightarrow> status t \<noteq> s | None \<Rightarrow> False) \<or>
    (case u of Some u \<Rightarrow> updatedAt t \<noteq> u | None \<Rightarrow> False))"
  have set_status: "ts' = ts \<or> (\<exists>t t'. get_test i ts = Some t \<and> ts' = put_test t' ts \<and> same_plan t t' \<and>
       progress (status t) (status t'))"
    if "ts' = put_test (t\<lparr>status := s, updatedAt := env_now env\<rparr>) ts" "progress (status t) s" for s
    using that Some by (auto simp: same_plan_def)
  show ?thesis
  proof (cases "guard \<or> status t \<notin> {Scheduled, Running, Analyzing}")
    case True
    with assms have "ts' = ts" "rs = []"
      by (auto simp: runAbTest_def Some guard_def Let_def split: if_splits ab_status.splits)
    then show ?thesis by simp
  next
    case False
    then consider "\<not> guard" "status t = Scheduled" | "\<not> guard" "status t = Running" | "\<not> guard" "status t = Analyzing" by blast
    then show ?thesis
    proof cases
      case 1
      with assms have "rs = []" "ts' = ts \<or> ts' = put_test (t\<lparr>status := Running, updatedAt := env_now env\<rparr>) ts"
        by (auto simp: runAbTest_def Some guard_def TERMINAL_STATUSES_def Let_def update_status_eq split: if_splits option.splits)
      then show ?thesis using set_status [of Running] 1 by (auto simp: progress_def)
    next
      case 2
      with assms have "rs = []" "ts' = ts \<or> ts' = put_test (t\<lparr>status := Analyzing, updatedAt := env_now env\<rparr>) ts"
        by (auto simp: runAbTest_def Some guard_def TERMINAL_STATUSES_def Let_def update_status_eq split: if_splits option.splits)
      then show ?thesis using set_status [of Analyzing] 2 by (auto simp: progress_def)
    next
      case 3
      obtain ts1 rs1 r1 where d: "deployWinner env (Suc 0) i ts = (ts1, rs1, r1)" by (metis surj_pair)
      have "rs = [] \<and> (ts' = ts \<or> (\<exists>s \<in> {Completed, Inconclusive}.
              ts' = put_test (t\<lparr>status := s, updatedAt := env_now env\<rparr>) ts)) \<or>
          rs = rs1 \<and> ts' = (if is_ok r1 then fst (updateTestStatus (env_now env) i Completed ts1) else ts1)"
      proof (cases "env_analyze env 0 t")
        case (Inl e)
        with assms 3 show ?thesis
          by (simp add: runAbTest_def Some guard_def TERMINAL_STATUSES_def split: if_splits)
      next
        case (Inr a)
        show ?thesis
        proof (cases "autoDeployWinner t \<and> winner a \<noteq> None \<and> testingMode t = Holdout")
          case True
          with assms 3 Inr show ?thesis
            by (cases r1) (simp_all add: runAbTest_def Some guard_def TERMINAL_STATUSES_def Let_def d case_prod_unfold
                split: if_splits)
        next
          case False
          with assms 3 Inr show ?thesis
            by (simp add: runAbTest_def Some guard_def TERMINAL_STATUSES_def Let_def update_status_eq split: if_splits)
        qed
      qed
      then consider (set) s where "rs = []" "ts' = ts \<or> ts' = put_test (t\<lparr>status := s, updatedAt := env_now env\<rparr>) ts"
          "s \<in> {Completed, Inconclusive}"
        | (deploy) "rs = rs1" "ts' = (if is_ok r1 then fst (updateTestStatus (env_now env) i Completed ts1) else ts1)"
        by blast
      then show ?thesis
      proof cases
        case set
        then show ?thesis using set_status [of s] 3 by (auto simp: progress_def)
      next
        case deploy
        note res = deploy_result [OF d]
        have up: "fst (updateTestStatus (env_now env) i Completed (put_test t' ts)) =
            put_test (t'\<lparr>status := Completed, updatedAt := env_now env\<rparr>) ts" if "same_plan t t'" for t'
          using update_status_eq [of i "put_test t' ts" t'] get_put_same [of t' ts] Some that get_test_Some [OF Some]
          by (auto simp: same_plan_def)
        from res show ?thesis
          using deploy Some 3 up by (auto simp: progress_def same_plan_def split: if_splits)
      qed
    qed
  qed
qed


subsection \<open>Whole transactions\<close>

text \<open>Requests agree with the windows of the tests.\<close>

definition windows_agree :: "tests \<Rightarrow> remote_request list \<Rightarrow> bool" where
  "windows_agree ts rs =
     (\<forall>i c l s. ScheduleCampaign i c l s \<in> set rs \<longrightarrow> (\<exists>t \<in> set ts. test_id t = i \<and> launch_window t = Some s))"

lemma windows_agree_no: "\<not> schedules rs \<Longrightarrow> windows_agree ts rs"
  by (auto simp: windows_agree_def schedules_iff)

lemma windows_agree_later:
  "windows_agree ts rs \<Longrightarrow> list_all2 keeps_window ts ts' \<Longrightarrow> windows_agree ts' rs"
proof -
  assume "list_all2 keeps_window ts ts'"
  then have later: "\<exists>t' \<in> set ts'. keeps_window t t'" if "t \<in> set ts" for t
    using that by (induction rule: list_all2_induct) auto
  assume "windows_agree ts rs"
  then show "windows_agree ts' rs"
    unfolding windows_agree_def
  proof (intro allI impI)
    fix i c l s assume "\<forall>i c l s. ScheduleCampaign i c l s \<in> set rs \<longrightarrow> (\<exists>t \<in> set ts. test_id t = i \<and> launch_window t = Some s)"
      and "ScheduleCampaign i c l s \<in> set rs"
    then obtain t where t: "t \<in> set ts" "test_id t = i" "launch_window t = Some s" by blast
    then show "\<exists>t \<in> set ts'. test_id t = i \<and> launch_window t = Some s"
      using later [OF t(1)] by (auto simp: keeps_window_def)
  qed
qed

lemma keeps_all_refl [simp]: "list_all2 keeps_window ts ts"
  by (simp add: list_all2_same)

lemma put_keeps:
  "distinct (map test_id ts) \<Longrightarrow> get_test i ts = Some t \<Longrightarrow> keeps_window t t' \<Longrightarrow> list_all2 keeps_window ts (put_test t' ts)"
  using get_test_Some [of i ts t] by (intro put_rel) (auto simp: keeps_window_def)

lemma keeps_ids: "list_all2 keeps_window ts ts' \<Longrightarrow> map test_id ts' = map test_id ts"
  by (induction rule: list_all2_induct) (simp_all add: keeps_window_def)

lemma keeps_get:
  assumes "list_all2 keeps_window ts ts'" "get_test i ts' = Some t'"
  obtains t where "get_test i ts = Some t" "keeps_window t t'"
  using assms unfolding get_test_def
proof (induction arbitrary: thesis rule: list_all2_induct)
  case (Cons t ts u us)
  then show ?case by (cases "test_id t = i") (auto simp: keeps_window_def)
qed simp

lemma reconcile_keeps: "keeps_window t (fst (reconcile_one now repair t))"
  by (auto simp: reconcile_one_def keeps_window_def launch_window_def split: option.splits)

text \<open>A tick, for any relation that contains the steps of \<open>runAbTest\<close>.\<close>

lemma tick_all_rel:
  assumes R: "\<And>t t'. same_plan t t' \<Longrightarrow> progress (status t) (status t') \<Longrightarrow> R t t'"
    and refl: "\<And>t. R t t" and trans: "\<And>t u v. R t u \<Longrightarrow> R u v \<Longrightarrow> R t v"
    and ids: "\<And>t t'. R t t' \<Longrightarrow> test_id t' = test_id t"
  shows "distinct (map test_id ts) \<Longrightarrow> tick_all env dry is ts = (ts', rs, es) \<Longrightarrow>
     list_all2 R ts ts' \<and> \<not> schedules rs"
proof (induction "is" arbitrary: ts ts' rs es)
  case Nil
  then show ?case by (simp add: list_all2_same refl)
next
  case (Cons i "is")
  obtain ts1 rs1 es1 rs2 es2 where one: "tick_one env dry i ts = (ts1, rs1, es1)"
    and rest: "tick_all env dry is ts1 = (ts', rs2, es2)" and rs: "rs = rs1 @ rs2"
    using Cons.prems(2) by (auto simp: Let_def split: prod.splits)
  have "(ts1 = ts \<and> rs1 = []) \<or> (\<exists>r. runAbTest (env i) i None None ts = (ts1, rs1, r))"
  proof (cases "runAbTest (env i) i None None ts")
    case (fields a b c)
    then show ?thesis using one by (cases c) (auto simp: tick_one_def Let_def split: option.splits if_splits)
  qed
  then consider "ts1 = ts" "\<not> schedules rs1" | t t' where "\<not> schedules rs1" "get_test i ts = Some t"
      "ts1 = put_test t' ts" "same_plan t t'" "progress (status t) (status t')"
    using run_result by (metis schedules_simps(1))
  then have step: "list_all2 R ts ts1" "\<not> schedules rs1"
  proof (atomize(full), cases)
    case 2
    then show "list_all2 R ts ts1 \<and> \<not> schedules rs1"
      using put_rel [where R = R, OF Cons.prems(1) 2(2) R [OF 2(4,5)]] refl get_test_Some [OF 2(2)]
      by (simp add: same_plan_def)
  qed (simp add: list_all2_same refl)
  have "map test_id ts1 = map test_id ts"
    using step(1) by (induction rule: list_all2_induct) (simp_all add: ids)
  then have "list_all2 R ts1 ts' \<and> \<not> schedules rs2"
    using Cons.IH [OF _ rest] Cons.prems(1) by simp
  with step show ?case
    using list_all2_trans [of R R R ts ts1 ts'] trans by (auto simp: rs)
qed


subsection \<open>The invariant of the windows\<close>

definition phase_ok :: "ab_test \<Rightarrow> bool" where
  "phase_ok t = (\<forall>cfg. provisionedAt t = None \<and> pendingCreate t = Some cfg \<and> cfg_autoLaunch cfg \<longrightarrow> launch_window t \<noteq> None)"

definition intent_ok :: "ab_test \<Rightarrow> bool" where
  "intent_ok t = (pendingCreate t = None \<and> startedAt t \<noteq> None)"

definition wf_ok :: "wf_state \<Rightarrow> bool" where
  "wf_ok s =
     (distinct (map test_id (tests_of s)) \<and>
      (\<forall>i t. get_test i (tests_of s) = Some t \<longrightarrow> (i \<in> phased s \<longrightarrow> phase_ok t) \<and> (i \<in> intended s \<longrightarrow> intent_ok t)) \<and>
      windows_agree (tests_of s) (issued s))"

lemma phase_ok_later: "keeps_window t t' \<Longrightarrow> phase_ok t \<Longrightarrow> phase_ok t'"
  unfolding keeps_window_def phase_ok_def by (metis option.distinct(1))

lemma intent_ok_later: "keeps_window t t' \<Longrightarrow> intent_ok t \<Longrightarrow> intent_ok t'"
  by (simp add: keeps_window_def intent_ok_def)

text \<open>What a transaction may do to the store and ask of the client.\<close>

definition sound_tx :: "tests \<Rightarrow> 'r wf_result \<Rightarrow> bool" where
  "sound_tx ts x = (list_all2 keeps_window ts (fst x) \<and> windows_agree (fst x) (fst (snd x)))"

lemma record_result_ok:
  assumes "wf_ok s" "sound_tx (tests_of s) x"
  shows "wf_ok (fst (record_result x s))"
proof -
  obtain ts' rs r where x: "x = (ts', rs, r)" by (metis surj_pair)
  with assms(2) have k: "list_all2 keeps_window (tests_of s) ts'" and a: "windows_agree ts' rs"
    by (simp_all add: sound_tx_def)
  have "windows_agree ts' (issued s)"
    using assms(1) windows_agree_later [OF _ k] by (simp add: wf_ok_def)
  then have "windows_agree ts' (issued s @ rs)"
    using a by (auto simp: windows_agree_def)
  moreover have "(i \<in> phased s \<longrightarrow> phase_ok t') \<and> (i \<in> intended s \<longrightarrow> intent_ok t')" if t': "get_test i ts' = Some t'" for i t'
  proof -
    obtain t where "get_test i (tests_of s) = Some t" "keeps_window t t'"
      using keeps_get [OF k t'] by blast
    then show ?thesis
      using assms(1) phase_ok_later intent_ok_later by (auto simp: wf_ok_def)
  qed
  ultimately show ?thesis
    using assms(1) keeps_ids [OF k] by (simp add: wf_ok_def record_result_def x)
qed

lemma sound_stored:
  assumes "\<And>ts' rs r. action ts = (ts', rs, Inr r) \<Longrightarrow> list_all2 keeps_window ts ts' \<and> windows_agree ts' rs"
    and "\<And>ts' rs e. action ts = (ts', rs, Inl e) \<Longrightarrow> windows_agree ts rs"
  shows "sound_tx ts (stored action ts)"
proof -
  obtain ts' rs r where x: "action ts = (ts', rs, r)" by (metis surj_pair)
  then show ?thesis using assms by (cases r) (simp_all add: stored_def sound_tx_def)
qed

lemma sound_routine:
  assumes "distinct (map test_id ts)"
    and "\<not> schedules (fst (snd (action ts)))"
    and "fst (action ts) = ts \<or> (\<exists>t t'. get_test i ts = Some t \<and> fst (action ts) = put_test t' ts \<and> same_plan t t')"
  shows "sound_tx ts (stored action ts)"
  using assms put_keeps same_plan_keeps
  by (intro sound_stored) (fastforce intro: windows_agree_no)+

lemma intent_keeps:
  assumes "pendingCreate t = None" "pendingCreate t' = None" "startedAt t' \<noteq> None" "startedAt t \<noteq> None \<Longrightarrow> t' = t"
    "test_id t' = test_id t"
  shows "keeps_window t t'"
  using assms by (cases "startedAt t = None") (auto simp: keeps_window_def launch_window_def)

lemma sound_window:
  assumes d: "distinct (map test_id ts)"
  shows "sound_tx ts (stored (recordAutoLaunchWindowPhase env i) ts)"
proof (rule sound_stored)
  show "windows_agree ts rs" if "recordAutoLaunchWindowPhase env i ts = (ts', rs, Inl e)" for ts' rs e
    using that by (auto simp: recordAutoLaunchWindowPhase_def Let_def intro!: windows_agree_no split: option.splits if_splits)
qed (auto elim!: window_phase_result [OF _ d] intro: put_keeps d windows_agree_no)

lemma sound_intent:
  assumes d: "distinct (map test_id ts)"
  shows "sound_tx ts (stored (recordLaunchIntent env i) ts)"
proof (rule sound_stored)
  fix ts' rs r assume "recordLaunchIntent env i ts = (ts', rs, Inr r)"
  then show "list_all2 keeps_window ts ts' \<and> windows_agree ts' rs"
    by (rule launch_intent_result [OF _ d])
      (use get_test_Some in \<open>auto intro!: put_keeps d intent_keeps windows_agree_no\<close>)
next
  fix ts' rs e assume "recordLaunchIntent env i ts = (ts', rs, Inl e)"
  then show "windows_agree ts rs"
    by (auto simp: recordLaunchIntent_def Let_def updateTestStatus_def intro!: windows_agree_no
        split: option.splits if_splits)
qed

lemma sound_tick:
  assumes d: "distinct (map test_id ts)"
  shows "sound_tx ts (stored (tickAbTests env dry) ts)"
proof (rule sound_stored)
  fix ts' rs r assume "tickAbTests env dry ts = (ts', rs, Inr r)"
  then have "tick_all env dry (map test_id ts) ts = (ts', rs, r)"
    by (simp add: tickAbTests_def case_prod_unfold Let_def) (metis prod.collapse)
  then have "list_all2 keeps_window ts ts' \<and> \<not> schedules rs"
    by (intro tick_all_rel [where R = keeps_window, OF _ _ _ _ d])
      (auto intro: same_plan_keeps keeps_window_trans dest: keeps_id)
  then show "list_all2 keeps_window ts ts' \<and> windows_agree ts' rs" by (simp add: windows_agree_no)
qed (simp add: tickAbTests_def case_prod_unfold Let_def)

lemma sound_reconcile:
  assumes d: "distinct (map test_id ts)"
  shows "sound_tx ts (stored (reconcileAbTest now w repair) ts)"
proof -
  have "list_all2 keeps_window ts (map (\<lambda>t. fst (reconcile_one now repair t)) ts)"
    by (simp add: list_all2_map2 list_all2_same reconcile_keeps)
  then show ?thesis
    by (intro sound_stored)
      (auto simp: reconcileAbTest_def Let_def case_prod_unfold intro!: windows_agree_no put_keeps d reconcile_keeps
        split: option.splits)
qed

lemma sound_provision:
  assumes d: "distinct (map test_id ts)" and t: "get_test i ts = Some t" and ok: "phase_ok t"
  shows "sound_tx ts (stored (provisionTest env i) ts)"
proof -
  have "windows_agree ts rs \<and> (is_ok r \<longrightarrow> list_all2 keeps_window ts ts')"
    if "provisionTest env i ts = (ts', rs, r)" for ts' rs r
    using provision_result [OF that t] ok get_test_Some [OF t] put_keeps [OF d t]
    by (fastforce simp: phase_ok_def windows_agree_def)
  then show ?thesis
    using windows_agree_later by (intro sound_stored) fastforce+
qed

lemma sound_launch:
  assumes d: "distinct (map test_id ts)" and t: "get_test i ts = Some t" and ok: "intent_ok t"
  shows "sound_tx ts (stored (launchAbTest env i) ts)"
proof -
  have t': "pendingCreate t = None" "startedAt t \<noteq> None" using ok by (simp_all add: intent_ok_def)
  have "windows_agree ts rs \<and> list_all2 keeps_window ts ts'" if "launchAbTest env i ts = (ts', rs, r)" for ts' rs r
  proof -
    have w: "windows_agree ts rs'" if "launchTest env t sendAt = (rs', e)" "launchAt t = Some sendAt" for sendAt rs' e
      using launchTest_window [OF that(1)] get_test_Some [OF t] that(2) t'
      by (fastforce simp: windows_agree_def launch_window_def)
    have "keeps_window t (t\<lparr>status := Scheduled, updatedAt := env_now env\<rparr>)"
      by (rule keeps_window_fields) simp_all
    note k = put_keeps [OF d t this]
    show ?thesis
      using that unfolding launch_started [OF t t']
      by (auto simp: Let_def windows_agree_no k dest: w split: if_splits option.splits prod.splits)
  qed
  then show ?thesis by (intro sound_stored) (use windows_agree_later in blast)+
qed

lemma window_recorded:
  assumes "distinct (map test_id ts)" "stored (recordAutoLaunchWindowPhase env i) ts = (ts', rs, Inr v)"
  shows "\<exists>t. get_test i ts' = Some t \<and> phase_ok t"
proof -
  have "recordAutoLaunchWindowPhase env i ts = (ts', rs, Inr v)" using stored_eq [OF assms(2)] by auto
  then obtain t t' where "get_test i ts = Some t" "ts' = put_test t' ts" "test_id t' = i" "phase_ok t'"
    by (rule window_phase_result [OF _ assms(1)]) (metis phase_ok_def)
  then show ?thesis by auto
qed

lemma intent_recorded:
  assumes "distinct (map test_id ts)" "stored (recordLaunchIntent env i) ts = (ts', rs, Inr v)"
  shows "\<exists>t. get_test i ts' = Some t \<and> intent_ok t"
proof -
  have "recordLaunchIntent env i ts = (ts', rs, Inr v)" using stored_eq [OF assms(2)] by auto
  then obtain t t' where "get_test i ts = Some t" "ts' = put_test t' ts" "test_id t' = i" "intent_ok t'"
    by (rule launch_intent_result [OF _ assms(1)]) (auto simp: intent_ok_def)
  then show ?thesis by auto
qed

lemma wf_ok_phased:
  "wf_ok s \<Longrightarrow> \<exists>t. get_test i (tests_of s) = Some t \<and> phase_ok t \<Longrightarrow> wf_ok (s\<lparr>phased := insert i (phased s)\<rparr>)"
  by (auto simp: wf_ok_def)

lemma wf_ok_intended:
  "wf_ok s \<Longrightarrow> \<exists>t. get_test i (tests_of s) = Some t \<and> intent_ok t \<Longrightarrow> wf_ok (s\<lparr>intended := insert i (intended s)\<rparr>)"
  by (auto simp: wf_ok_def)

lemma wf_step_ok:
  assumes "wf_ok s"
  shows "wf_ok (fst (wf_step x s))"
proof -
  let ?ts = "tests_of s"
  have d: "distinct (map test_id ?ts)" using assms by (simp add: wf_ok_def)
  note rec = record_result_ok [OF assms]
  show ?thesis
  proof (cases x)
    case (TxWindow env i)
    obtain ts' rs r where y: "stored (recordAutoLaunchWindowPhase env i) ?ts = (ts', rs, r)" by (metis surj_pair)
    with rec [OF sound_window [OF d], of env i] have "wf_ok (s\<lparr>tests_of := ts', issued := issued s @ rs\<rparr>)"
      by (simp add: record_result_def)
    then show ?thesis
      using window_recorded [OF d, of env i] wf_ok_phased [of "s\<lparr>tests_of := ts', issued := issued s @ rs\<rparr>" i]
      by (cases r) (simp_all add: TxWindow y record_result_def)
  next
    case (TxLaunchIntent env i)
    obtain ts' rs r where y: "stored (recordLaunchIntent env i) ?ts = (ts', rs, r)" by (metis surj_pair)
    with rec [OF sound_intent [OF d], of env i] have "wf_ok (s\<lparr>tests_of := ts', issued := issued s @ rs\<rparr>)"
      by (simp add: record_result_def)
    then show ?thesis
      using intent_recorded [OF d, of env i] wf_ok_intended [of "s\<lparr>tests_of := ts', issued := issued s @ rs\<rparr>" i]
      by (cases r) (simp_all add: TxLaunchIntent y record_result_def)
  next
    case (TxProvision env i)
    show ?thesis
    proof (cases "get_test i ?ts")
      case None
      then show ?thesis using assms by (simp add: TxProvision provisionTest_def stored_def record_result_def)
    next
      case (Some t)
      then show ?thesis using assms rec [OF sound_provision [OF d Some]] by (simp add: TxProvision wf_ok_def)
    qed
  next
    case (TxLaunch env i)
    show ?thesis
    proof (cases "get_test i ?ts")
      case None
      then show ?thesis
        using assms by (simp add: TxLaunch launchAbTest_def recordLaunchIntent_def stored_def record_result_def)
    next
      case (Some t)
      then show ?thesis using assms rec [OF sound_launch [OF d Some]] by (simp add: TxLaunch wf_ok_def)
    qed
  next
    case (TxStop env i)
    have "sound_tx ?ts (stored (stopAbTest env i) ?ts)"
      using stop_result [of env i ?ts] by (intro sound_routine [OF d, where i = i]) (metis prod.collapse)+
    then show ?thesis using rec by (simp add: TxStop)
  next
    case (TxRun env i st u)
    have "sound_tx ?ts (stored (runAbTest env i st u) ?ts)"
      using run_result [of env i st u ?ts] by (intro sound_routine [OF d, where i = i]) (metis prod.collapse)+
    then show ?thesis using rec by (simp add: TxRun)
  next
    case (TxDeploy env i)
    have "sound_tx ?ts (stored (deployWinner env 0 i) ?ts)"
      using deploy_result [of env 0 i ?ts] by (intro sound_routine [OF d, where i = i]) (metis prod.collapse)+
    then show ?thesis using rec by (simp add: TxDeploy)
  qed (simp_all add: rec [OF sound_tick [OF d]] rec [OF sound_reconcile [OF d]])
qed

interpretation workflow: op_system wf_step wf_ok "\<lambda>_ _. True"
  by unfold_locales (rule wf_step_ok)

end
