(* ===== verification/Workflow_Properties.thy ===== *)
theory Workflow_Properties
  imports Workflow_Invariant Lifecycle_Properties
begin

section \<open>Properties of the life of an experiment\<close>

text \<open>
  The windows of the launches, the order of the statuses, the preview of a
  tick, what a committed stop has done, and two faults of the deployment of
  the winner.
\<close>

definition start_state :: "tests \<Rightarrow> wf_state" where
  "start_state ts = \<lparr>tests_of = ts, phased = {}, intended = {}, issued = []\<rparr>"

lemma start_ok: "distinct (map test_id ts) \<Longrightarrow> wf_ok (start_state ts)"
  by (simp add: start_state_def wf_ok_def windows_agree_def)

text \<open>C15: All campaigns of an experiment are scheduled for one moment.  Over any
  interleaving of the transactions of creates, launches, stops, runs, ticks,
  reconciliations and deployments, failed and repeated ones included, with any
  clocks and any answers of Listmonk, two requests that schedule campaigns of
  the same test carry the same send time, and it is the window the test records.\<close>

theorem launch_window_unique:
  assumes "distinct (map test_id ts)" and "s = history wf_step ops (start_state ts)"
    and "ScheduleCampaign i c l w \<in> set (issued s)" and "ScheduleCampaign i c' l' w' \<in> set (issued s)"
  shows "w = w' \<and> (\<exists>t. get_test i (tests_of s) = Some t \<and> launch_window t = Some w)"
proof -
  have ok: "wf_ok s"
    unfolding assms(2) by (rule workflow.history_wf [OF start_ok [OF assms(1)]]) simp
  have "\<exists>t. get_test i (tests_of s) = Some t \<and> launch_window t = Some v"
    if "ScheduleCampaign i c l v \<in> set (issued s)" for c l v
    using ok that get_test_in unfolding wf_ok_def windows_agree_def by metis
  then show ?thesis using assms(3,4) by (metis option.inject)
qed

subsection \<open>The order of the statuses\<close>

fun rank :: "ab_status \<Rightarrow> nat" where
  "rank Draft = 0"
| "rank Scheduled = 1"
| "rank Running = 2"
| "rank Testing = 2"
| "rank Analyzing = 3"
| "rank Deploying = 3"
| "rank Cancelling = 3"
| "rank _ = 4"

definition provisioning_draft :: "ab_test \<Rightarrow> bool" where
  "provisioning_draft t = (pendingCreate t \<noteq> None \<longrightarrow> status t = Draft)"

definition advances :: "ab_test \<Rightarrow> ab_test \<Rightarrow> bool" where
  "advances t t' =
     (test_id t' = test_id t \<and>
      (provisioning_draft t \<longrightarrow>
        provisioning_draft t' \<and> rank (status t) \<le> rank (status t') \<and>
        (status t \<in> TERMINAL_STATUSES \<longrightarrow> status t' = status t)))"

lemma advances_id: "advances t t' \<Longrightarrow> test_id t' = test_id t"
  by (simp add: advances_def)

lemma advances_refl [simp]: "advances t t"
  by (simp add: advances_def)

lemma advances_trans: "advances t u \<Longrightarrow> advances u v \<Longrightarrow> advances t v"
  unfolding advances_def by (metis order_trans)

lemma put_advances:
  assumes "distinct (map test_id ts)" "get_test i ts = Some t" "advances t t'"
  shows "list_all2 advances ts (put_test t' ts)"
  using put_rel [where R = advances, OF assms] get_test_Some [OF assms(2)] assms(3) by (simp add: advances_def)

lemma progress_advances: "same_plan t t' \<Longrightarrow> progress (status t) (status t') \<Longrightarrow> advances t t'"
  by (auto simp: advances_def same_plan_def provisioning_draft_def progress_def TERMINAL_STATUSES_def)

fun is_deployment :: "wf_op \<Rightarrow> bool" where
  "is_deployment (TxDeploy env i) = True"
| "is_deployment _ = False"

lemma advances_all_refl [simp]: "list_all2 advances ts ts"
  by (simp add: list_all2_same)

lemma stored_tests:
  assumes "\<And>ts' rs r. action ts = (ts', rs, Inr r) \<Longrightarrow> list_all2 advances ts ts'"
  shows "list_all2 advances ts (fst (stored action ts))"
  using assms by (auto simp: stored_def split: prod.splits sum.splits)

lemma tests_of_record [simp]: "tests_of (fst (record_result x s)) = fst x"
  by (cases x) (simp add: record_result_def)

lemma wf_step_advances:
  assumes "wf_ok s" "\<not> is_deployment x"
  shows "list_all2 advances (tests_of s) (tests_of (fst (wf_step x s)))"
proof -
  let ?ts = "tests_of s"
  have d: "distinct (map test_id ?ts)" using assms(1) by (simp add: wf_ok_def)
  show ?thesis
  proof (cases x)
    case (TxWindow env i)
    have "list_all2 advances ?ts (fst (stored (recordAutoLaunchWindowPhase env i) ?ts))"
      by (rule stored_tests, erule window_phase_result [OF _ d])
        (auto intro!: put_advances d simp: advances_def provisioning_draft_def dest: get_test_Some)
    then show ?thesis by (simp add: TxWindow split: prod.splits option.splits) (metis fst_conv tests_of_record)
  next
    case (TxLaunchIntent env i)
    have "list_all2 advances ?ts (fst (stored (recordLaunchIntent env i) ?ts))"
      by (rule stored_tests, erule launch_intent_result [OF _ d])
        (auto intro!: put_advances d simp: advances_def provisioning_draft_def dest: get_test_Some)
    then show ?thesis by (simp add: TxLaunchIntent split: prod.splits option.splits) (metis fst_conv tests_of_record)
  next
    case (TxProvision env i)
    show ?thesis
    proof (cases "i \<in> phased s \<and> get_test i ?ts \<noteq> None")
      case True
      then obtain t where t: "get_test i ?ts = Some t" by blast
      with assms True have "phase_ok t" by (simp add: wf_ok_def)
      have "list_all2 advances ?ts (fst (stored (provisionTest env i) ?ts))"
      proof (rule stored_tests)
        fix ts' rs r assume e: "provisionTest env i ?ts = (ts', rs, Inr r)"
        have "ts' = ?ts \<or> (\<exists>t'. ts' = put_test t' ?ts \<and> test_id t' = i \<and> keeps_window t t' \<and>
            pendingCreate t \<noteq> None \<and> pendingCreate t' = None \<and> status t' \<in> {Draft, Scheduled})"
          using provision_result [OF e t] \<open>phase_ok t\<close> by (simp add: phase_ok_def)
        then show "list_all2 advances ?ts ts'"
          using get_test_Some [OF t]
          by (auto intro!: put_advances [OF d t] simp: advances_def provisioning_draft_def TERMINAL_STATUSES_def)
      qed
      with True show ?thesis by (simp add: TxProvision)
    next
      case False
      then show ?thesis by (auto simp: TxProvision provisionTest_def stored_def)
    qed
  next
    case (TxLaunch env i)
    show ?thesis
    proof (cases "i \<in> intended s \<and> get_test i ?ts \<noteq> None")
      case True
      then obtain t where t: "get_test i ?ts = Some t" by blast
      with assms True have t': "pendingCreate t = None" "startedAt t \<noteq> None" by (simp_all add: wf_ok_def intent_ok_def)
      have "list_all2 advances ?ts (fst (stored (launchAbTest env i) ?ts))"
        using get_test_Some [OF t] t'
        by (intro stored_tests)
          (auto simp: launch_started [OF t t'] Let_def advances_def provisioning_draft_def TERMINAL_STATUSES_def
            intro!: put_advances [OF d t] split: if_splits option.splits prod.splits)
      with True show ?thesis by (simp add: TxLaunch)
    next
      case False
      then show ?thesis by (auto simp: TxLaunch launchAbTest_def recordLaunchIntent_def stored_def)
    qed
  next
    case (TxStop env i)
    have "list_all2 advances ?ts (fst (stored (stopAbTest env i) ?ts))"
    proof (rule stored_tests)
      fix ts' rs r assume "stopAbTest env i ?ts = (ts', rs, Inr r)"
      from stop_result [OF this] show "list_all2 advances ?ts ts'"
        by (auto intro!: put_advances d simp: advances_def same_plan_def provisioning_draft_def TERMINAL_STATUSES_def)
    qed
    then show ?thesis by (simp add: TxStop)
  next
    case (TxRun env i st u)
    have "list_all2 advances ?ts (fst (stored (runAbTest env i st u) ?ts))"
    proof (rule stored_tests)
      fix ts' rs r assume "runAbTest env i st u ?ts = (ts', rs, Inr r)"
      from run_result [OF this] show "list_all2 advances ?ts ts'"
        by (auto intro!: put_advances d progress_advances)
    qed
    then show ?thesis by (simp add: TxRun)
  next
    case (TxTick env dry)
    have "list_all2 advances ?ts (fst (stored (tickAbTests env dry) ?ts))"
    proof (rule stored_tests)
      fix ts' rs r assume "tickAbTests env dry ?ts = (ts', rs, Inr r)"
      then have "tick_all env dry (map test_id ?ts) ?ts = (ts', rs, r)"
        by (simp add: tickAbTests_def case_prod_unfold Let_def) (metis prod.collapse)
      then have "list_all2 advances ?ts ts' \<and> \<not> schedules rs"
        by (intro tick_all_rel [where R = advances, OF _ _ _ _ d])
          (auto intro: progress_advances advances_trans dest: advances_id)
      then show "list_all2 advances ?ts ts'" by blast
    qed
    then show ?thesis by (simp add: TxTick)
  next
    case (TxReconcile now w repair)
    have "advances t (fst (reconcile_one now repair t))" for t
      by (auto simp: reconcile_one_def advances_def provisioning_draft_def split: option.splits)
    then have "list_all2 advances ?ts (fst (stored (reconcileAbTest now w repair) ?ts))"
      by (intro stored_tests)
        (auto simp: reconcileAbTest_def Let_def case_prod_unfold list_all2_map2 list_all2_same
          intro!: put_advances d split: option.splits)
    then show ?thesis by (simp add: TxReconcile)
  next
    case (TxDeploy env i)
    with assms(2) show ?thesis by simp
  qed
qed


lemma history_advances:
  "wf_ok s \<Longrightarrow> list_all (\<lambda>x. \<not> is_deployment x) ops \<Longrightarrow>
     list_all2 advances (tests_of s) (tests_of (history wf_step ops s))"
proof (induction ops arbitrary: s)
  case (Cons x ops)
  then show ?case
    using list_all2_trans [of advances advances advances, OF advances_trans wf_step_advances] wf_step_ok by fastforce
qed simp

text \<open>C16: The status of a test only moves forward.  Over any such interleaving
  without an explicit deployment of the winner, a test stays in the store, its
  status never falls back in the order draft, scheduled, running, analyzing,
  ended, and once it is completed, inconclusive, cancelled or failed it keeps
  that status.\<close>

theorem status_only_advances:
  assumes "distinct (map test_id ts)" and "list_all (\<lambda>x. \<not> is_deployment x) ops"
    and "get_test i ts = Some t" and "pendingCreate t = None \<or> status t = Draft"
  shows "\<exists>t'. get_test i (tests_of (history wf_step ops (start_state ts))) = Some t' \<and>
    rank (status t) \<le> rank (status t') \<and> (status t \<in> TERMINAL_STATUSES \<longrightarrow> status t' = status t)"
proof -
  have "list_all2 advances ts (tests_of (history wf_step ops (start_state ts)))"
    using history_advances [OF start_ok [OF assms(1)] assms(2)] by (simp add: start_state_def)
  then obtain t' where "get_test i (tests_of (history wf_step ops (start_state ts))) = Some t'" "advances t t'"
    using assms(3) unfolding get_test_def
  proof (induction arbitrary: thesis rule: list_all2_induct)
    case (Cons u us v vs)
    then show ?case by (cases "test_id u = i") (auto simp: advances_def)
  qed simp
  then show ?thesis using assms(4) by (auto simp: advances_def provisioning_draft_def)
qed

subsection \<open>The preview of a tick\<close>

definition previews :: "tick_entry \<Rightarrow> tick_entry \<Rightarrow> bool" where
  "previews d e =
     (tick_test d = tick_test e \<and>
      (case tick_action d of
         SkipDraft \<Rightarrow> e = d
       | DryWouldProgress s \<Rightarrow>
           (case tick_action e of
              Progress s1 s2 \<Rightarrow> s1 = s \<and> progress s s2
            | TickError _ \<Rightarrow> s = Analyzing
            | _ \<Rightarrow> s \<notin> {Scheduled, Running, Analyzing})
       | _ \<Rightarrow> tick_status e = tick_status d \<and> tick_action e = Noop (tick_status d)))"


text \<open>The outcome of a run without expectations, by the status.\<close>

lemma run_outcome:
  assumes "get_test i ts = Some t" "status t \<notin> TERMINAL_STATUSES" "runAbTest env i None None ts = (ts', rs, r)"
  shows "status t = Scheduled \<Longrightarrow> \<exists>u. r = Inr (Some u) \<and>
      status u = (if (case launchAt t of None \<Rightarrow> True | Some l \<Rightarrow> env_now env < l) then Scheduled else Running)"
    and "status t = Running \<Longrightarrow> \<exists>u. r = Inr (Some u) \<and>
      status u = (if (case endsAt t of None \<Rightarrow> True | Some e \<Rightarrow> env_now env < e) then Running else Analyzing)"
    and "status t = Analyzing \<Longrightarrow> (\<exists>e. r = Inl e) \<or> (\<exists>u. r = Inr (Some u) \<and> status u \<in> {Completed, Inconclusive})"
    and "status t \<notin> {Scheduled, Running, Analyzing} \<Longrightarrow> r = Inr (Some t)"
proof -
  note run = runAbTest_def assms(1) Let_def update_status_eq [OF assms(1)]
  show "\<exists>u. r = Inr (Some u) \<and>
      status u = (if (case launchAt t of None \<Rightarrow> True | Some l \<Rightarrow> env_now env < l) then Scheduled else Running)"
    if "status t = Scheduled"
    using assms(2,3) that by (auto simp: run split: option.splits if_splits)
  show "\<exists>u. r = Inr (Some u) \<and>
      status u = (if (case endsAt t of None \<Rightarrow> True | Some e \<Rightarrow> env_now env < e) then Running else Analyzing)"
    if "status t = Running"
    using assms(2,3) that by (auto simp: run split: option.splits if_splits)
  show "r = Inr (Some t)" if "status t \<notin> {Scheduled, Running, Analyzing}"
    using assms(2,3) that by (cases "status t") (auto simp: run)
  show "(\<exists>e. r = Inl e) \<or> (\<exists>u. r = Inr (Some u) \<and> status u \<in> {Completed, Inconclusive})" if "status t = Analyzing"
  proof (cases "env_analyze env 0 t")
    case (Inl e)
    with assms(2,3) that show ?thesis by (auto simp: run)
  next
    case (Inr a)
    show ?thesis
    proof (cases "autoDeployWinner t \<and> winner a \<noteq> None \<and> testingMode t = Holdout")
      case True
      obtain ts1 rs1 r1 where d: "deployWinner env (Suc 0) i ts = (ts1, rs1, r1)" by (metis surj_pair)
      have "\<exists>u. get_test i ts1 = Some u"
        using deploy_result [OF d] assms(1) get_test_Some [OF assms(1)]
        by (auto simp: same_plan_def) (metis get_put_same option.distinct(1))
      then show ?thesis
        using assms(2,3) that Inr True update_status_eq [of i ts1]
        by (cases r1) (auto simp: run d)
    next
      case False
      then show ?thesis using assms(2,3) that Inr by (cases "isSignificant a") (auto simp: run)
    qed
  qed
qed

lemma tick_one_other:
  assumes "i \<noteq> j" "tick_one env dry i ts = (ts', rs, es)"
  shows "get_test j ts' = get_test j ts"
proof -
  have "ts' = ts \<or> (\<exists>t t'. get_test i ts = Some t \<and> ts' = put_test t' ts \<and> same_plan t t')"
  proof (cases "runAbTest (env i) i None None ts")
    case (fields a b c)
    with run_result [OF fields] show ?thesis
      using assms(2) by (cases c) (auto simp: tick_one_def Let_def split: option.splits if_splits)
  qed
  then show ?thesis using assms(1) get_test_Some by (fastforce simp: same_plan_def)
qed

lemma preview_one:
  assumes "get_test i ts = get_test i ts0" "tick_one env True i ts0 = (ts1, rs1, ds)" "tick_one env False i ts = (ts2, rs2, es)"
  shows "ts1 = ts0 \<and> rs1 = [] \<and> list_all2 previews ds es"
proof (cases "\<exists>t. get_test i ts = Some t \<and> status t \<notin> TERMINAL_STATUSES \<and> status t \<noteq> Draft")
  case False
  then show ?thesis
    using assms by (auto simp: tick_one_def previews_def split: option.splits if_splits)
next
  case True
  then obtain t where t: "get_test i ts = Some t" "status t \<notin> TERMINAL_STATUSES" "status t \<noteq> Draft" by blast
  obtain ts' rs r where r: "runAbTest (env i) i None None ts = (ts', rs, r)" by (metis surj_pair)
  note out = run_outcome [OF t(1,2) r]
  have d: "ts1 = ts0" "rs1 = []"
    "ds = [\<lparr>tick_test = i, tick_status = status t, tick_action = dry_action (env_now (env i)) t\<rparr>]"
    using assms(2) t unfolding tick_one_def assms(1) [symmetric] by simp_all
  show ?thesis
  proof (cases r)
    case (Inl e)
    with out have st: "status t = Analyzing" by auto
    obtain s where "es = [\<lparr>tick_test = i, tick_status = s, tick_action = TickError e\<rparr>]"
      using assms(3) t r Inl by (auto simp: tick_one_def)
    then show ?thesis by (simp add: d previews_def dry_action_def st)
  next
    case (Inr u)
    then have e: "es = [\<lparr>tick_test = i, tick_status = (case u of Some t' \<Rightarrow> status t' | None \<Rightarrow> status t),
        tick_action = (if (case u of Some t' \<Rightarrow> status t' | None \<Rightarrow> status t) = status t then Noop (status t)
                       else Progress (status t) (case u of Some t' \<Rightarrow> status t' | None \<Rightarrow> status t))\<rparr>]"
      using assms(3) t r by (simp add: tick_one_def Let_def)
    show ?thesis
      using out Inr t(2,3)
      by (cases "status t") (auto simp: d e previews_def dry_action_def progress_def TERMINAL_STATUSES_def split: if_splits)
  qed
qed


lemma preview_all:
  "distinct is \<Longrightarrow> (\<And>i. i \<in> set is \<Longrightarrow> get_test i ts = get_test i ts0) \<Longrightarrow>
     tick_all env True is ts0 = (ts1, rs1, ds) \<Longrightarrow> tick_all env False is ts = (ts2, rs2, es) \<Longrightarrow>
     ts1 = ts0 \<and> rs1 = [] \<and> list_all2 previews ds es"
proof (induction "is" arbitrary: ts ts1 rs1 ds rs2 es)
  case (Cons i "is")
  obtain ta ra da tb rb db where dry: "tick_one env True i ts0 = (ta, ra, da)" "tick_all env True is ta = (tb, rb, db)"
    "ts1 = tb" "rs1 = ra @ rb" "ds = da @ db"
    using Cons.prems(3) by (auto simp: Let_def split: prod.splits)
  obtain tc rc dc rd dd where real: "tick_one env False i ts = (tc, rc, dc)" "tick_all env False is tc = (ts2, rd, dd)"
    "es = dc @ dd"
    using Cons.prems(4) by (auto simp: Let_def split: prod.splits)
  have one: "ta = ts0" "ra = []" "list_all2 previews da dc"
    using preview_one [OF _ dry(1) real(1)] Cons.prems(2) by simp_all
  have "get_test j tc = get_test j ts0" if "j \<in> set is" for j
    using tick_one_other [OF _ real(1), of j] Cons.prems(1,2) that by auto
  then have "tb = ts0 \<and> rb = [] \<and> list_all2 previews db dd"
    using Cons.IH [of tc tb rb db rd dd] dry(2) real(2) Cons.prems(1) one(1) by simp
  with one show ?case by (simp add: dry real list_all2_appendI)
qed simp

text \<open>C35: A dry run of the tick changes nothing, asks Listmonk for nothing and
  foretells the real tick at the same time: both report the same tests in the
  same order, a test announced as a no-op is left alone, and a test announced
  to progress is moved one step on from the announced status or, when it is
  analyzing, fails.\<close>

theorem tick_preview:
  assumes "distinct (map test_id ts)"
  shows "\<exists>ds es ts' rs. tickAbTests env True ts = (ts, [], Inr ds) \<and>
    tickAbTests env False ts = (ts', rs, Inr es) \<and> list_all2 previews ds es"
proof -
  obtain ts1 rs1 ds ts2 rs2 es where
    "tick_all env True (map test_id ts) ts = (ts1, rs1, ds)" "tick_all env False (map test_id ts) ts = (ts2, rs2, es)"
    by (metis prod_cases3)
  with preview_all [OF assms _ this] show ?thesis by (simp add: tickAbTests_def)
qed


subsection \<open>Stopping and deploying\<close>

lemma no_failure_settled:
  "\<not> hadFailures (fst (executeCancelPlan client plan)) \<Longrightarrow> a \<in> set (campaignActions plan) \<Longrightarrow>
     action_request a = Some r \<Longrightarrow> \<exists>pos. settled (reply_outcome (client pos r))"
proof -
  assume ok: "\<not> hadFailures (fst (executeCancelPlan client plan))" and a: "a \<in> set (campaignActions plan)"
    and r: "action_request a = Some r"
  obtain pos where pos: "(pos, a) \<in> set (enumerate 0 (campaignActions plan))"
  proof -
    obtain k where "k < length (campaignActions plan)" "campaignActions plan ! k = a"
      using a by (auto simp: in_set_conv_nth)
    then have "(k, a) \<in> set (enumerate 0 (campaignActions plan))" by (simp add: in_set_enumerate_eq)
    then show thesis by (rule that)
  qed
  have "cr_outcome (run_action client (pos, a)) \<noteq> Failed"
    using ok pos by (auto simp: executeCancelPlan_def Let_def list_ex_iff)
  then have "settled (reply_outcome (client pos r))"
    by (auto simp: run_action_def r settled_def reply_outcome_def split: client_reply.splits if_splits)
  then show ?thesis by blast
qed

text \<open>What is known of a campaign after its status was read and its action settled.\<close>

definition quiet :: "cancel_client \<Rightarrow> cancel_client \<Rightarrow> int \<Rightarrow> bool" where
  "quiet reads client i =
     (\<exists>st pos. observed_status (reads pos (GetCampaign i)) = Some st \<and>
        (st = ''running'' \<longrightarrow> (\<exists>pos. settled (reply_outcome (client pos (SetCancelled i))))) \<and>
        (st \<notin> {''running'', ''finished'', ''sent'', ''cancelled'', ''already_deleted''} \<longrightarrow>
          (\<exists>pos. settled (reply_outcome (client pos (DeleteCampaign i))))))"

lemma quiet_campaign:
  assumes "\<not> hadFailures (fst (cancelAbTest reads client u None))"
    "\<not> hadFetchFailures (fst (cancelAbTest reads client u None))" "m \<in> set (campaignMappings u)"
  shows "quiet reads client (campaignId m)"
proof -
  let ?ids = "first_occurrences (map campaignId (campaignMappings u))"
  obtain statuses unobservable where f: "fetchCampaignStatuses reads ?ids = (statuses, unobservable)"
    and c: "cancelAbTest reads client u None =
      ((fst (executeCancelPlan client (planCancelAbTest u statuses (default_options None))))\<lparr>hadFetchFailures := (unobservable \<noteq> [])\<rparr>,
       map GetCampaign ?ids @ snd (executeCancelPlan client (planCancelAbTest u statuses (default_options None))))"
    by (rule cancelAbTest_parts)
  let ?plan = "planCancelAbTest u statuses (default_options None)" and ?i = "campaignId m"
  have "?i \<in> set ?ids" using assms(3) by simp
  then obtain st where st: "statuses ?i = Some st"
    using fetch_unobservable [of ?i ?ids reads] assms(2) f by (cases "statuses ?i") (auto simp: c)
  then obtain pos where pos: "observed_status (reads pos (GetCampaign ?i)) = Some st"
    using fetch_SomeD [of reads ?ids ?i st] f by auto
  have nofail: "\<not> hadFailures (fst (executeCancelPlan client ?plan))" using assms(1) by (simp add: c)
  have "fst (plan_campaign (default_options None) statuses m) \<in> set (campaignActions ?plan)"
    using assms(3) by (simp add: campaignActions_plan)
  note settled = no_failure_settled [OF nofail this]
  have "\<exists>pos. settled (reply_outcome (client pos (SetCancelled ?i)))" if "st = ''running''"
    using that st by (intro settled) (simp add: plan_campaign_def DEFAULT_ACTIVE_STATUSES_def ALREADY_DELETED_STATUS_def)
  moreover have "\<exists>pos. settled (reply_outcome (client pos (DeleteCampaign ?i)))"
    if "st \<notin> {''running'', ''finished'', ''sent'', ''cancelled'', ''already_deleted''}"
    using that st
    by (intro settled)
      (simp add: plan_campaign_def DEFAULT_ACTIVE_STATUSES_def DEFAULT_TERMINAL_STATUSES_def ALREADY_DELETED_STATUS_def)
  ultimately show ?thesis
    unfolding quiet_def using pos by (intro exI [of _ st] exI [of _ pos]) simp
qed

text \<open>C20: A test is recorded as cancelled only when its campaigns are quiet.  If a
  stop of a running or scheduled test commits, the status of every campaign
  was read; one that was running had its cancellation accepted or was gone, and
  one that had not been sent, was not cancelled and still existed had its
  deletion accepted or was gone.\<close>

theorem stopped_is_quiet:
  assumes "stored (stopAbTest env i) ts = (ts', rs, Inr r)" and "get_test i ts = Some t"
    and "status t \<noteq> Cancelled" and "m \<in> set (campaignMappings t)"
  shows "\<exists>t'. r = Some t' \<and> status t' = Cancelled \<and> get_test i ts' = Some t' \<and>
    quiet (env_reads env) (env_cancel env) (campaignId m)"
proof -
  have stop: "stopAbTest env i ts = (ts', rs, Inr r)"
    using stored_eq [OF assms(1)] by auto
  obtain result requests where
    c: "cancelAbTest (env_reads env) (env_cancel env) (ab_resources.truncate t) None = (result, requests)"
    by (metis surj_pair)
  note eq = stopAbTest_def assms(2) c update_status_eq [OF assms(2)] Let_def
  have ok: "\<not> hadFailures result" "\<not> hadFetchFailures result"
    using stop assms(3) by (simp_all add: eq split: if_splits)
  have "ts' = put_test (t\<lparr>status := Cancelled, updatedAt := env_now env\<rparr>) ts"
    "r = Some (t\<lparr>status := Cancelled, updatedAt := env_now env\<rparr>)"
    using stop assms(3) by (simp_all add: eq split: if_splits)
  moreover have "get_test i (put_test u ts) = Some u" if "test_id u = i" for u
    using get_put_same [of u ts] assms(2) that by simp
  ultimately have "\<exists>t'. r = Some t' \<and> status t' = Cancelled \<and> get_test i ts' = Some t'"
    using get_test_Some [OF assms(2)] by simp
  moreover have "m \<in> set (campaignMappings (ab_resources.truncate t))"
    using assms(4) by (simp add: ab_resources.truncate_def)
  from quiet_campaign [of "env_reads env" "env_cancel env" "ab_resources.truncate t", unfolded c fst_conv, OF ok this]
  have "quiet (env_reads env) (env_cancel env) (campaignId m)" .
  ultimately show ?thesis by blast
qed

text \<open>A run of an analyzing holdout test that deploys its winner.\<close>

lemma run_winner:
  assumes "status t = Analyzing" "autoDeployWinner t" "testingMode t = Holdout" "holdoutListId t = Some l" "l \<noteq> 0"
    "\<And>k u. env_analyze env k u = Inr a" "winner a = Some v" "env_create env = Inr w"
  shows "env_start env = Thrown f \<Longrightarrow>
      runAbTest env (test_id t) None None [t] =
        ([t], [CreateWinner (test_id t) l v, StartWinner w], Inl (RemoteFailure (failure_text f)))"
    and "(\<And>f. env_start env \<noteq> Thrown f) \<Longrightarrow>
      \<exists>t'. runAbTest env (test_id t) None None [t] =
        ([t'], [CreateWinner (test_id t) l v, StartWinner w], Inr (Some t')) \<and>
        status t' = Completed \<and> winnerCampaignId t' = Some w"
proof -
  have same: "t\<lparr>status := Analyzing\<rparr> = t" using assms(1) by simp
  have get: "get_test (test_id t) [t] = Some t" by (simp add: get_test_def)
  have put: "put_test u [t] = [u]" if "test_id u = test_id t" for u
    using that by (simp add: put_test_def replace_by_def)
  note dep = deployWinner_def get assms Let_def put same
  show "runAbTest env (test_id t) None None [t] =
      ([t], [CreateWinner (test_id t) l v, StartWinner w], Inl (RemoteFailure (failure_text f)))"
    if "env_start env = Thrown f"
    by (simp add: runAbTest_def dep that TERMINAL_STATUSES_def)
  show "\<exists>t'. runAbTest env (test_id t) None None [t] =
        ([t'], [CreateWinner (test_id t) l v, StartWinner w], Inr (Some t')) \<and>
        status t' = Completed \<and> winnerCampaignId t' = Some w" if "\<And>f. env_start env \<noteq> Thrown f"
  proof -
    let ?u = "t\<lparr>winnerCampaignId := Some w, winnerVariantId := Some v, status := Completed, updatedAt := env_now env\<rparr>"
    have "deployWinner env (Suc 0) (test_id t) [t] = ([?u], [CreateWinner (test_id t) l v, StartWinner w], Inr ())"
    proof (cases "env_start env")
      case (Thrown f)
      with that show ?thesis by blast
    qed (simp_all add: dep)
    then show ?thesis
      by (simp add: runAbTest_def get assms TERMINAL_STATUSES_def Let_def updateTestStatus_def
          get_test_def put_test_def replace_by_def)
  qed
qed

text \<open>C40: Two gaps in the deployment of a winner, for an analyzing holdout test with
  automatic deployment and a winner.  When Listmonk refuses to start the winner
  campaign with an error reply, the run records the test as completed with that
  campaign.  When the start throws, for instance after the request was
  delivered, the tick keeps the test analyzing without the campaign, and the
  next tick creates and starts a second winner campaign for the same holdout
  list.\<close>

theorem winner_deployment_gaps:
  assumes "status t = Analyzing" and "autoDeployWinner t" and "testingMode t = Holdout"
    and "holdoutListId t = Some l" and "l \<noteq> 0"
    and "\<And>k u. env_analyze env k u = Inr a" and "winner a = Some v" and "env_create env = Inr w"
    and "\<And>k u. env_analyze env' k u = Inr a" and "env_create env' = Inr w'"
  shows "(\<forall>f. env_start env = Envelope f \<longrightarrow>
      (\<exists>t'. stored (runAbTest env (test_id t) None None) [t] =
          ([t'], [CreateWinner (test_id t) l v, StartWinner w], Inr (Some t')) \<and>
        status t' = Completed \<and> winnerCampaignId t' = Some w)) \<and>
    (\<forall>f. env_start env = Thrown f \<longrightarrow>
      issued (history wf_step [TxTick (\<lambda>_. env) False, TxTick (\<lambda>_. env') False] (start_state [t])) =
        [CreateWinner (test_id t) l v, StartWinner w, CreateWinner (test_id t) l v, StartWinner w'])"
proof (intro conjI allI impI)
  let ?rs = "\<lambda>w. [CreateWinner (test_id t) l v, StartWinner w]"
  have get: "get_test (test_id t) [t] = Some t" by (simp add: get_test_def)
  show "\<exists>t'. stored (runAbTest env (test_id t) None None) [t] = ([t'], ?rs w, Inr (Some t')) \<and>
      status t' = Completed \<and> winnerCampaignId t' = Some w" if "env_start env = Envelope f" for f
    using run_winner(2) [OF assms(1-8)] that by (auto simp: stored_def)
  have step: "wf_step (TxTick (\<lambda>_. e) False) s = (s\<lparr>tests_of := [u], issued := issued s @ ?rs w0\<rparr>, None)"
    if s: "tests_of s = [t]" and r: "runAbTest e (test_id t) None None [t] = ([u], ?rs w0, r)" for e u s r w0
    using s r assms(1)
    by (cases r) (simp_all add: tickAbTests_def tick_one_def get TERMINAL_STATUSES_def stored_def record_result_def Let_def)
  show "issued (history wf_step [TxTick (\<lambda>_. env) False, TxTick (\<lambda>_. env') False] (start_state [t])) =
      [CreateWinner (test_id t) l v, StartWinner w, CreateWinner (test_id t) l v, StartWinner w']"
    if f: "env_start env = Thrown f" for f
  proof -
    note first = run_winner(1) [OF assms(1-8) f]
    obtain u r where "runAbTest env' (test_id t) None None [t] = ([u], ?rs w', r)"
      using run_winner [OF assms(1-5,9,7,10)] by metis
    note second = step [OF _ this]
    show ?thesis by (simp add: step [OF _ first] second start_state_def del: wf_step.simps)
  qed
qed


subsection \<open>A test and an environment\<close>

definition sample_test :: ab_test where
  "sample_test =
     \<lparr>test_id = ''t'', campaignMappings = [\<lparr>mapping_variant = ''A'', campaignId = 5\<rparr>],
      testListMappings = [\<lparr>list_variant = ''A'', listId = 9\<rparr>], holdoutListId = Some 8, winnerCampaignId = None,
      status = Draft, pendingCreate = None, provisionedAt = Some 0, startedAt = None, launchAt = None,
      endsAt = None, durationHours = None, updatedAt = 0, testingMode = Holdout, autoDeployWinner = True,
      winnerVariantId = None\<rparr>"

definition sample_env :: "instant \<Rightarrow> client_reply \<Rightarrow> wf_env" where
  "sample_env now start =
     \<lparr>env_now = now, env_reads = (\<lambda>_ _. Answer (Some ''scheduled'')), env_cancel = (\<lambda>_ _. Answer None),
      env_launch = (\<lambda>_ _. Answer None), env_analyze = (\<lambda>_ _. Inr \<lparr>isSignificant = True, winner = Some ''A''\<rparr>),
      env_create = Inr 7, env_start = start\<rparr>"

definition sample_ops :: "wf_op list" where
  "sample_ops = [TxLaunchIntent (sample_env 1000 (Answer None)) ''t'', TxLaunch (sample_env 5000 (Answer None)) ''t'']"

lemma sample_history:
  "history wf_step sample_ops (start_state [sample_test]) =
     \<lparr>tests_of = [sample_test\<lparr>startedAt := Some 1000, launchAt := Some 61000, status := Scheduled, updatedAt := 5000\<rparr>],
      phased = {}, intended = {''t''}, issued = [ScheduleCampaign ''t'' 5 9 61000, SetScheduled 5]\<rparr>"
  by (simp add: sample_ops_def start_state_def sample_test_def sample_env_def stored_def record_result_def
      recordLaunchIntent_def launchAbTest_def get_test_def put_test_def replace_by_def updateTestStatus_def
      launchTest_def ABTEST_SAFETY_LEAD_SECONDS_def Let_def)

lemma launch_window_unique_witness:
  "\<exists>t. get_test ''t'' (tests_of (history wf_step sample_ops (start_state [sample_test]))) = Some t \<and> launch_window t = Some 61000"
  using launch_window_unique [of "[sample_test]" _ sample_ops "''t''" 5 9 61000 5 9 61000, OF _ refl]
  by (simp add: sample_history)

lemma status_only_advances_witness:
  "\<exists>t'. get_test ''t'' (tests_of (history wf_step sample_ops (start_state [sample_test]))) = Some t' \<and> 0 \<le> rank (status t')"
  using status_only_advances [of "[sample_test]" sample_ops "''t''" sample_test]
  by (auto simp: sample_ops_def sample_test_def get_test_def)

lemma tick_preview_witness:
  "\<exists>ds es ts' rs. tickAbTests (\<lambda>_. sample_env 0 (Answer None)) True [sample_test] = ([sample_test], [], Inr ds) \<and>
    tickAbTests (\<lambda>_. sample_env 0 (Answer None)) False [sample_test] = (ts', rs, Inr es) \<and> list_all2 previews ds es"
  by (rule tick_preview) simp

lemma stopped_is_quiet_witness:
  "quiet (env_reads (sample_env 0 (Answer None))) (env_cancel (sample_env 0 (Answer None))) 5"
proof -
  let ?t = "sample_test\<lparr>status := Scheduled\<rparr>" and ?env = "sample_env 0 (Answer None)"
  have "is_ok (snd (snd (stored (stopAbTest ?env ''t'') [?t])))"
    by code_simp
  then obtain ts' rs r where "stored (stopAbTest ?env ''t'') [?t] = (ts', rs, Inr r)"
    by (metis is_ok_iff prod.collapse)
  from stopped_is_quiet [OF this, of ?t "\<lparr>mapping_variant = ''A'', campaignId = 5\<rparr>"]
  show ?thesis by (auto simp: get_test_def sample_test_def)
qed

lemma winner_deployment_gaps_witness:
  "issued (history wf_step [TxTick (\<lambda>_. sample_env 0 (Thrown \<lparr>http_status = None, failure_text = ''timeout''\<rparr>)) False,
      TxTick (\<lambda>_. (sample_env 0 (Answer None))\<lparr>env_create := Inr 6\<rparr>) False] (start_state [sample_test\<lparr>status := Analyzing\<rparr>])) =
     [CreateWinner ''t'' 8 ''A'', StartWinner 7, CreateWinner ''t'' 8 ''A'', StartWinner 6]"
  using winner_deployment_gaps [of "sample_test\<lparr>status := Analyzing\<rparr>" 8
      "sample_env 0 (Thrown \<lparr>http_status = None, failure_text = ''timeout''\<rparr>)" "\<lparr>isSignificant = True, winner = Some ''A''\<rparr>" "''A''" 7
      "(sample_env 0 (Answer None))\<lparr>env_create := Inr 6\<rparr>" 6]
  by (simp add: sample_test_def sample_env_def)

end
