(* ===== verification/Collision_Guard.thy ===== *)
theory Collision_Guard
  imports Abtest_Lifecycle Js_Double "HOL-Library.List_Lexorder" "HOL-Library.Char_ord"
begin

section \<open>The collision guard of experiments\<close>

text \<open>
  \<open>collision.ts\<close>: subjects are keyed digests of subscriber identifiers, and a
  store of participations reserves a window of time for each subject of a
  test unless too many other tests of the same family overlap it.  Timestamps
  are texts; \<open>date_parse\<close> stands for \<open>Date.parse\<close>, \<open>to_iso\<close> for
  \<open>toISOString\<close> and \<open>hmac\<close> for the hexadecimal HMAC-SHA-256.  The methods of
  the in-memory store run one after the other (its promise chain), so a method
  is a function on the list of participations.
\<close>

type_synonym date_parser = "string \<Rightarrow> instant option"

datatype collision_error =
    ConfigurationError string
  | ConflictError nat "string list"
  | InvalidTime

subsection \<open>Timestamps\<close>

definition is_digit :: "char \<Rightarrow> bool" where
  "is_digit c = (48 \<le> (of_char c :: nat) \<and> (of_char c :: nat) \<le> 57)"

text \<open>
  The fixed part of the pattern: \<open>d\<close> is a digit, \<open>t\<close> the letter T or a space,
  any other character itself; the result is the rest of the text.
\<close>

fun match_shape :: "string \<Rightarrow> string \<Rightarrow> string option" where
  "match_shape [] s = Some s"
| "match_shape (p # ps) [] = None"
| "match_shape (p # ps) (c # cs) =
     (if (if p = CHR ''d'' then is_digit c else if p = CHR ''t'' then c = CHR ''T'' \<or> c = CHR '' '' else c = p)
      then match_shape ps cs else None)"

text \<open>An optional fraction of one to six digits, then Z or an offset, then the end.\<close>

definition timestamp_zone :: "string \<Rightarrow> bool" where
  "timestamp_zone s =
     (s = ''Z'' \<or> match_shape ''+dd:dd'' s = Some [] \<or> match_shape ''-dd:dd'' s = Some [])"

definition timestamp_tail :: "string \<Rightarrow> bool" where
  "timestamp_tail s =
     (case s of
        CHR ''.'' # cs \<Rightarrow>
          let n = length (takeWhile is_digit cs) in 1 \<le> n \<and> n \<le> 6 \<and> timestamp_zone (drop n cs)
      | _ \<Rightarrow> timestamp_zone s)"

definition leap_year :: "nat \<Rightarrow> bool" where
  "leap_year y = (4 dvd y \<and> (\<not> 100 dvd y \<or> 400 dvd y))"

definition days_in_month :: "nat \<Rightarrow> nat \<Rightarrow> nat" where
  "days_in_month y m =
     (if m = 2 then (if leap_year y then 29 else 28) else if m \<in> {4, 6, 9, 11} then 30 else 31)"

text \<open>
  \<open>Date.UTC\<close> reads the years 0 to 99 as 1900 to 1999, so the comparison with
  the fields it was made from fails for them as it does for a day that rolls over.
\<close>

definition calendar_date :: "nat \<Rightarrow> nat \<Rightarrow> nat \<Rightarrow> bool" where
  "calendar_date y m d = (100 \<le> y \<and> 1 \<le> m \<and> m \<le> 12 \<and> 1 \<le> d \<and> d \<le> days_in_month y m)"

definition isCollisionTimestamp :: "date_parser \<Rightarrow> string \<Rightarrow> bool" where
  "isCollisionTimestamp date_parse v =
     (case match_shape ''dddd-dd-ddtdd:dd:dd'' v of
        None \<Rightarrow> False
      | Some rest \<Rightarrow>
          timestamp_tail rest \<and>
          calendar_date (nat_value (take 4 v)) (nat_value (take 2 (drop 5 v))) (nat_value (take 2 (drop 8 v))) \<and>
          date_parse v \<noteq> None)"

subsection \<open>Subject keys\<close>

definition COLLISION_KEY_CONTEXT :: string where
  "COLLISION_KEY_CONTEXT = ''listmonk-ops/abtest-collision/v1''"

definition computeSubjectKey ::
  "(string \<Rightarrow> string \<Rightarrow> string) \<Rightarrow> string \<Rightarrow> string \<Rightarrow> collision_error + string" where
  "computeSubjectKey hmac installationKey subscriberUuid =
     (if installationKey = '''' then Inl (ConfigurationError ''installationCollisionKey'')
      else if subscriberUuid = '''' then Inl (ConfigurationError ''normalizedSubscriberUuid'')
      else Inr (hmac installationKey (COLLISION_KEY_CONTEXT @ [CHR 0x00] @ subscriberUuid)))"

definition normalizeSubscriberUuid :: "string \<Rightarrow> string" where
  "normalizeSubscriberUuid raw =
     (let v = toLowerCase (trim raw)
      in if startsWith v ''{'' \<and> endsWith v ''}'' then butlast (tl v) else v)"

definition installationKeysMatch ::
  "(string \<Rightarrow> string \<Rightarrow> string) \<Rightarrow> string \<Rightarrow> string \<Rightarrow> string \<Rightarrow> collision_error + bool" where
  "installationKeysMatch hmac keyA keyB probeUuid =
     (case computeSubjectKey hmac keyA (normalizeSubscriberUuid probeUuid) of
        Inl e \<Rightarrow> Inl e
      | Inr sigA \<Rightarrow>
          (case computeSubjectKey hmac keyB (normalizeSubscriberUuid probeUuid) of
             Inl e \<Rightarrow> Inl e
           | Inr sigB \<Rightarrow> Inr (sigA = sigB)))"

subsection \<open>Windows\<close>

datatype participation_state = Reserved | Exposed | Released

record participation =
  pt_testId :: string
  pt_subjectKey :: string
  pt_channel :: string
  pt_family :: string
  pt_state :: participation_state
  pt_windowStartsAt :: string
  pt_windowEndsAt :: string
  pt_reservedAt :: string
  pt_exposedAt :: "string option"
  pt_releasedAt :: "string option"

text \<open>A comparison of two times; a text that is no date is NaN and compares false.\<close>

definition time_le :: "date_parser \<Rightarrow> string \<Rightarrow> string \<Rightarrow> bool" where
  "time_le date_parse a b =
     (case (date_parse a, date_parse b) of (Some x, Some y) \<Rightarrow> x \<le> y | _ \<Rightarrow> False)"

definition windowsOverlap :: "date_parser \<Rightarrow> participation \<Rightarrow> participation \<Rightarrow> bool" where
  "windowsOverlap date_parse a b =
     (time_le date_parse (pt_windowStartsAt a) (pt_windowEndsAt b) \<and>
      time_le date_parse (pt_windowStartsAt b) (pt_windowEndsAt a))"

definition participationsCollide :: "date_parser \<Rightarrow> participation \<Rightarrow> participation \<Rightarrow> bool" where
  "participationsCollide date_parse a b =
     (if pt_subjectKey a \<noteq> pt_subjectKey b then False
      else if pt_family a \<noteq> pt_family b then False
      else if pt_state a = Released \<or> pt_state b = Released then False
      else windowsOverlap date_parse a b)"

text \<open>\<open>new Date(ms).toISOString()\<close> for a double: truncated, or a range error.\<close>

definition instant_of :: "rat \<Rightarrow> instant option" where
  "instant_of q =
     (if \<bar>q\<bar> \<le> of_int max_date then Some (if 0 \<le> q then \<lfloor>q\<rfloor> else \<lceil>q\<rceil>) else None)"

definition hours_ms :: "rat \<Rightarrow> rat" where
  "hours_ms h = dbl (dbl (h * 3600) * 1000)"

fun nonnegative_hours :: "js_number \<Rightarrow> rat option" where
  "nonnegative_hours (Num h) = (if 0 \<le> h then Some h else None)"
| "nonnegative_hours _ = None"

definition computeActiveWindow ::
  "date_parser \<Rightarrow> (instant \<Rightarrow> string) \<Rightarrow> string \<Rightarrow> string option \<Rightarrow> js_number \<Rightarrow> js_number \<Rightarrow>
     collision_error + string \<times> string" where
  "computeActiveWindow date_parse to_iso launchAt endsAt attributionHours exclusionHours =
     (if \<not> isCollisionTimestamp date_parse launchAt then Inl (ConfigurationError ''launchAt'')
      else case (nonnegative_hours attributionHours, nonnegative_hours exclusionHours) of
             (None, _) \<Rightarrow> Inl (ConfigurationError ''attributionWindowHours'')
           | (_, None) \<Rightarrow> Inl (ConfigurationError ''exclusionWindowHours'')
           | (Some attribution, Some exclusion) \<Rightarrow>
               if (case endsAt of Some e \<Rightarrow> \<not> isCollisionTimestamp date_parse e | None \<Rightarrow> False)
               then Inl (ConfigurationError ''endsAt'')
               else
                 let launchMs = the (date_parse launchAt);
                     endBase = (case endsAt of Some e \<Rightarrow> the (date_parse e) | None \<Rightarrow> launchMs)
                 in if endBase < launchMs then Inl (ConfigurationError ''endsAt must not precede launchAt'')
                    else (case (instant_of (dbl (of_int launchMs - hours_ms exclusion)),
                                instant_of (dbl (of_int endBase + hours_ms (dbl (attribution + exclusion))))) of
                            (Some s, Some e) \<Rightarrow> Inr (to_iso s, to_iso e)
                          | _ \<Rightarrow> Inl InvalidTime))"

subsection \<open>The store of participations\<close>

record collision_policy =
  cp_mode :: string
  maximumConcurrentExperiments :: js_number

definition DEFAULT_COLLISION_POLICY :: collision_policy where
  "DEFAULT_COLLISION_POLICY = \<lparr>cp_mode = ''block'', maximumConcurrentExperiments = Num 1\<rparr>"

record reserve_input =
  ri_testId :: string
  ri_channel :: string
  ri_family :: string
  ri_windowStartsAt :: string
  ri_windowEndsAt :: string
  ri_subjectKeys :: "string list"
  ri_policy :: collision_policy
  ri_reservedAt :: string

record reservation_result =
  reserved :: "participation list"
  conflicts :: "(nat \<times> string list) option"
  warning :: "nat option"

definition lower_alnum :: "char \<Rightarrow> bool" where
  "lower_alnum c = (is_digit c \<or> 97 \<le> (of_char c :: nat) \<and> (of_char c :: nat) \<le> 122)"

text \<open>Segments of lower-case letters and digits, joined by single separators.\<close>

fun family_from :: "bool \<Rightarrow> string \<Rightarrow> bool" where
  "family_from in_segment [] = in_segment"
| "family_from in_segment (c # cs) =
     (if lower_alnum c then family_from True cs
      else in_segment \<and> c \<in> set ''._-'' \<and> family_from False cs)"

definition digest_key :: "string \<Rightarrow> bool" where
  "digest_key k =
     (length k = 64 \<and> list_all (\<lambda>c. is_digit c \<or> 97 \<le> (of_char c :: nat) \<and> (of_char c :: nat) \<le> 102) k)"

fun concurrency_limit :: "js_number \<Rightarrow> nat option" where
  "concurrency_limit (Num q) = (if 1 \<le> q \<and> isInteger (Num q) then Some (nat \<lfloor>q\<rfloor>) else None)"
| "concurrency_limit _ = None"

definition reserve_issue :: "date_parser \<Rightarrow> reserve_input \<Rightarrow> string option" where
  "reserve_issue date_parse input =
     (if ri_testId input = '''' then Some ''testId''
      else if concurrency_limit (maximumConcurrentExperiments (ri_policy input)) = None
      then Some ''maximumConcurrentExperiments''
      else if cp_mode (ri_policy input) \<notin> {''block'', ''exclude'', ''warn''} then Some ''mode''
      else if \<not> isCollisionTimestamp date_parse (ri_reservedAt input) then Some ''reservedAt''
      else if \<not> family_from False (ri_family input) then Some ''experimentFamilyKey''
      else if \<not> isCollisionTimestamp date_parse (ri_windowStartsAt input) then Some ''windowStartsAt''
      else if \<not> isCollisionTimestamp date_parse (ri_windowEndsAt input) then Some ''windowEndsAt''
      else if \<not> time_le date_parse (ri_windowStartsAt input) (ri_windowEndsAt input) then Some ''window reversed''
      else if ri_subjectKeys input = [] then Some ''subjectKeys''
      else if \<not> list_all digest_key (ri_subjectKeys input) then Some ''subject key''
      else None)"

definition candidate_of :: "reserve_input \<Rightarrow> string \<Rightarrow> participation" where
  "candidate_of input subject =
     \<lparr>pt_testId = ri_testId input, pt_subjectKey = subject, pt_channel = ri_channel input,
      pt_family = ri_family input, pt_state = Reserved,
      pt_windowStartsAt = ri_windowStartsAt input, pt_windowEndsAt = ri_windowEndsAt input,
      pt_reservedAt = ri_reservedAt input, pt_exposedAt = None, pt_releasedAt = None\<rparr>"

definition index_key :: "participation \<Rightarrow> string" where
  "index_key p = pt_subjectKey p @ '':'' @ pt_family p"

text \<open>The participations of other tests that collide with a candidate.\<close>

definition conflicting :: "date_parser \<Rightarrow> participation list \<Rightarrow> participation \<Rightarrow> participation list" where
  "conflicting date_parse ps c =
     filter (\<lambda>p. participationsCollide date_parse p c)
       (filter (\<lambda>p. index_key p = index_key c)
         (filter (\<lambda>p. \<not> (pt_testId p = pt_testId c \<or> pt_state p = Released)) ps))"

definition blocked :: "date_parser \<Rightarrow> nat \<Rightarrow> participation list \<Rightarrow> participation \<Rightarrow> bool" where
  "blocked date_parse limit ps c =
     (conflicting date_parse ps c \<noteq> [] \<and>
      limit \<le> length (first_occurrences (map pt_testId (conflicting date_parse ps c))))"

text \<open>
  The transaction on the participations without the reservations of the test
  (\<open>ps\<close>); \<open>savedReserved\<close> are those, put back when a subject is blocked.
\<close>

definition reserve_among ::
  "date_parser \<Rightarrow> nat \<Rightarrow> reserve_input \<Rightarrow> participation list \<Rightarrow> participation list \<Rightarrow>
     participation list \<times> (collision_error + reservation_result)" where
  "reserve_among date_parse limit input savedReserved ps =
     (let candidates = map (candidate_of input) (first_occurrences (ri_subjectKeys input));
          conflicted = filter (\<lambda>c. conflicting date_parse ps c \<noteq> []) candidates;
          tests = first_occurrences (concat (map (\<lambda>c. map pt_testId (conflicting date_parse ps c)) conflicted));
          blockedOnes = filter (blocked date_parse limit ps) candidates;
          mode = cp_mode (ri_policy input)
      in if mode = ''block'' \<and> blockedOnes \<noteq> []
         then (ps @ savedReserved, Inl (ConflictError (length conflicted) (sort (first_occurrences tests))))
         else
           let toReserve = (if mode = ''exclude''
                            then filter (\<lambda>c. \<not> blocked date_parse limit ps c) candidates else candidates)
           in (ps @ toReserve,
               Inr \<lparr>reserved = toReserve,
                    conflicts = (if conflicted \<noteq> [] then Some (length conflicted, sort tests) else None),
                    warning = (if mode = ''warn'' \<and> blockedOnes \<noteq> [] then Some (length blockedOnes) else None)\<rparr>))"

definition reserved_by :: "string \<Rightarrow> participation \<Rightarrow> bool" where
  "reserved_by testId p = (pt_testId p = testId \<and> pt_state p = Reserved)"

definition reserve_update ::
  "date_parser \<Rightarrow> nat \<Rightarrow> reserve_input \<Rightarrow> participation list \<Rightarrow>
     participation list \<times> (collision_error + reservation_result)" where
  "reserve_update date_parse limit input store =
     reserve_among date_parse limit input (filter (reserved_by (ri_testId input)) store)
       (filter (\<lambda>p. \<not> reserved_by (ri_testId input) p) store)"

definition checkAndReserve ::
  "date_parser \<Rightarrow> reserve_input \<Rightarrow> participation list \<Rightarrow>
     participation list \<times> (collision_error + reservation_result)" where
  "checkAndReserve date_parse input store =
     (case reserve_issue date_parse input of
        Some what \<Rightarrow> (store, Inl (ConfigurationError what))
      | None \<Rightarrow>
          reserve_update date_parse (the (concurrency_limit (maximumConcurrentExperiments (ri_policy input)))) input store)"

definition markExposed ::
  "date_parser \<Rightarrow> string \<Rightarrow> string \<Rightarrow> participation list \<Rightarrow> participation list \<times> (collision_error + unit)" where
  "markExposed date_parse testId exposedAt store =
     (if \<not> isCollisionTimestamp date_parse exposedAt then (store, Inl (ConfigurationError ''exposedAt''))
      else (map (\<lambda>p. if pt_testId p = testId \<and> pt_state p = Reserved
                     then p\<lparr>pt_state := Exposed, pt_exposedAt := Some exposedAt\<rparr> else p) store,
            Inr ()))"

text \<open>Whether one time is strictly before another.\<close>

definition time_less :: "date_parser \<Rightarrow> string \<Rightarrow> string \<Rightarrow> bool" where
  "time_less date_parse a b =
     (case (date_parse a, date_parse b) of (Some x, Some y) \<Rightarrow> x < y | _ \<Rightarrow> False)"

definition release_where ::
  "(participation \<Rightarrow> bool) \<Rightarrow> string \<Rightarrow> participation list \<Rightarrow> participation list \<times> (collision_error + nat)" where
  "release_where ends releasedAt store =
     (map (\<lambda>p. if ends p then p\<lparr>pt_state := Released, pt_releasedAt := Some releasedAt\<rparr> else p) store,
      Inr (length (filter ends store)))"

definition releaseEligible ::
  "date_parser \<Rightarrow> string \<Rightarrow> participation list \<Rightarrow> participation list \<times> (collision_error + nat)" where
  "releaseEligible date_parse now store =
     (if \<not> isCollisionTimestamp date_parse now then (store, Inl (ConfigurationError ''now''))
      else release_where (\<lambda>p. pt_state p \<noteq> Released \<and> time_less date_parse (pt_windowEndsAt p) now) now store)"

definition listByTest :: "string \<Rightarrow> participation list \<Rightarrow> participation list" where
  "listByTest testId store = filter (\<lambda>p. pt_testId p = testId) store"

definition releaseByTest ::
  "date_parser \<Rightarrow> string \<Rightarrow> string \<Rightarrow> participation list \<Rightarrow> participation list \<times> (collision_error + nat)" where
  "releaseByTest date_parse testId releasedAt store =
     (if \<not> isCollisionTimestamp date_parse releasedAt then (store, Inl (ConfigurationError ''releasedAt''))
      else release_where
             (\<lambda>p. pt_testId p = testId \<and> pt_state p \<noteq> Released \<and>
                  \<not> (pt_state p = Exposed \<and> time_le date_parse releasedAt (pt_windowEndsAt p)))
             releasedAt store)"

datatype collision_op =
    CollisionReserve reserve_input
  | CollisionExpose string string
  | CollisionReleaseEligible string
  | CollisionReleaseTest string string

fun collision_step ::
  "date_parser \<Rightarrow> collision_op \<Rightarrow> participation list \<Rightarrow> participation list \<times> collision_error option" where
  "collision_step date_parse (CollisionReserve input) ps =
     (case checkAndReserve date_parse input ps of (ps', r) \<Rightarrow> (ps', case r of Inl e \<Rightarrow> Some e | Inr _ \<Rightarrow> None))"
| "collision_step date_parse (CollisionExpose i t) ps =
     (case markExposed date_parse i t ps of (ps', r) \<Rightarrow> (ps', case r of Inl e \<Rightarrow> Some e | Inr _ \<Rightarrow> None))"
| "collision_step date_parse (CollisionReleaseEligible now) ps =
     (case releaseEligible date_parse now ps of (ps', r) \<Rightarrow> (ps', case r of Inl e \<Rightarrow> Some e | Inr _ \<Rightarrow> None))"
| "collision_step date_parse (CollisionReleaseTest i t) ps =
     (case releaseByTest date_parse i t ps of (ps', r) \<Rightarrow> (ps', case r of Inl e \<Rightarrow> Some e | Inr _ \<Rightarrow> None))"

end
