(* ===== verification/Collision_Properties.thy ===== *)
theory Collision_Properties
  imports Collision_Guard Lifecycle_Properties "HOL-Library.Multiset"
begin

section \<open>Properties of the collision guard\<close>

text \<open>
  The invariant is about the tests that occupy a subject at an instant.  Every
  method of the store keeps it as long as reservations do not merely warn, so
  it holds after any history (an interpretation of \<open>op_system\<close>).
\<close>

definition holds_at :: "date_parser \<Rightarrow> participation \<Rightarrow> instant \<Rightarrow> bool" where
  "holds_at date_parse p now =
     (case (date_parse (pt_windowStartsAt p), date_parse (pt_windowEndsAt p)) of
        (Some a, Some b) \<Rightarrow> a \<le> now \<and> now \<le> b
      | _ \<Rightarrow> False)"

text \<open>The tests that occupy a subject of a family at an instant.\<close>

definition occupants :: "date_parser \<Rightarrow> participation list \<Rightarrow> string \<Rightarrow> string \<Rightarrow> instant \<Rightarrow> string set" where
  "occupants date_parse ps subject family now =
     {pt_testId p |p. p \<in> set ps \<and> pt_subjectKey p = subject \<and> pt_family p = family \<and>
        pt_state p \<noteq> Released \<and> holds_at date_parse p now}"

lemma finite_occupants [simp]: "finite (occupants date_parse ps subject family now)"
  by (simp add: occupants_def)

definition limited :: "date_parser \<Rightarrow> nat \<Rightarrow> participation list \<Rightarrow> bool" where
  "limited date_parse limit ps = (\<forall>subject family now. card (occupants date_parse ps subject family now) \<le> limit)"

lemma limited_mono:
  assumes "limited date_parse limit ps"
    and "\<And>s f n. occupants date_parse ps' s f n \<subseteq> occupants date_parse ps s f n"
  shows "limited date_parse limit ps'"
  unfolding limited_def
proof (intro allI)
  fix s f n
  show "card (occupants date_parse ps' s f n) \<le> limit"
    using card_mono [OF finite_occupants assms(2) [of s f n]] assms(1) unfolding limited_def by (meson le_trans)
qed

text \<open>Two windows that hold at one instant overlap.\<close>

lemma overlap_at: "holds_at date_parse p now \<Longrightarrow> holds_at date_parse q now \<Longrightarrow> windowsOverlap date_parse p q"
  by (auto simp: holds_at_def windowsOverlap_def time_le_def split: option.splits)

lemma conflicting_iff:
  "p \<in> set (conflicting date_parse ps c) \<longleftrightarrow>
     p \<in> set ps \<and> pt_testId p \<noteq> pt_testId c \<and> participationsCollide date_parse p c"
  by (auto simp: conflicting_def participationsCollide_def index_key_def)

lemma not_blocked_card:
  assumes "\<not> blocked date_parse limit ps c" "1 \<le> limit"
  shows "card (pt_testId ` set (conflicting date_parse ps c)) < limit"
proof (cases "conflicting date_parse ps c = []")
  case False
  with assms(1) have "length (first_occurrences (map pt_testId (conflicting date_parse ps c))) < limit"
    by (simp add: blocked_def)
  then show ?thesis
    using distinct_card [OF distinct_first_occurrences [of "map pt_testId (conflicting date_parse ps c)"]] by simp
qed (use assms(2) in simp)

text \<open>One more reservation of a subject that is not blocked.\<close>

lemma occupants_insert:
  assumes "\<not> blocked date_parse limit ps (candidate_of input subject)" "1 \<le> limit"
    and "holds_at date_parse (candidate_of input subject) now"
  shows "card (insert (ri_testId input) (occupants date_parse ps subject (ri_family input) now)) \<le> limit"
proof -
  let ?c = "candidate_of input subject"
  have "occupants date_parse ps subject (ri_family input) now - {ri_testId input} \<subseteq>
      pt_testId ` set (conflicting date_parse ps ?c)"
    using overlap_at [OF _ assms(3)]
    by (auto simp: occupants_def conflicting_iff participationsCollide_def candidate_of_def)
  then have "card (occupants date_parse ps subject (ri_family input) now - {ri_testId input}) < limit"
    using not_blocked_card [OF assms(1,2)] card_mono [of "pt_testId ` set (conflicting date_parse ps ?c)"]
    by (meson List.finite_set finite_imageI le_less_trans)
  then show ?thesis by (simp add: card_insert_if card_Diff_singleton_if split: if_splits)
qed

lemma occupants_append:
  "occupants date_parse (ps @ qs) s f n = occupants date_parse ps s f n \<union> occupants date_parse qs s f n"
  by (auto simp: occupants_def)

lemma limited_reserve:
  assumes ok: "limited date_parse limit ps" and l: "1 \<le> m" "m \<le> limit"
    and cs: "\<forall>s \<in> set subjects. \<not> blocked date_parse m ps (candidate_of input s)"
  shows "limited date_parse limit (ps @ map (candidate_of input) subjects)"
  unfolding limited_def
proof (intro allI)
  fix s f n
  let ?new = "occupants date_parse (map (candidate_of input) subjects) s f n"
  show "card (occupants date_parse (ps @ map (candidate_of input) subjects) s f n) \<le> limit"
  proof (cases "?new = {}")
    case True
    then show ?thesis using ok by (simp add: limited_def occupants_append)
  next
    case False
    then have new: "s \<in> set subjects" "f = ri_family input" "holds_at date_parse (candidate_of input s) n"
      by (auto simp: occupants_def candidate_of_def)
    have "?new \<subseteq> {ri_testId input}"
      by (auto simp: occupants_def candidate_of_def)
    then have "occupants date_parse ps s f n \<union> ?new \<subseteq> insert (ri_testId input) (occupants date_parse ps s (ri_family input) n)"
      using new(2) by auto
    then have "card (occupants date_parse ps s f n \<union> ?new) \<le>
        card (insert (ri_testId input) (occupants date_parse ps s (ri_family input) n))"
      by (intro card_mono) auto
    also have "\<dots> \<le> m" using occupants_insert [OF _ l(1) new(3)] cs new(1) by simp
    finally show ?thesis using l(2) by (simp add: occupants_append)
  qed
qed

definition within_limit :: "nat \<Rightarrow> collision_op \<Rightarrow> bool" where
  "within_limit limit x =
     (case x of
        CollisionReserve input \<Rightarrow>
          cp_mode (ri_policy input) \<noteq> ''warn'' \<and>
          (case concurrency_limit (maximumConcurrentExperiments (ri_policy input)) of Some m \<Rightarrow> m \<le> limit | None \<Rightarrow> True)
      | _ \<Rightarrow> True)"

lemma concurrency_limit_pos: "concurrency_limit n = Some m \<Longrightarrow> 1 \<le> m"
  by (cases n) (auto split: if_splits simp: le_nat_iff)

lemma occupants_subset: "set ps \<subseteq> set qs \<Longrightarrow> occupants date_parse ps s f n \<subseteq> occupants date_parse qs s f n"
  by (auto simp: occupants_def)

lemma occupants_map:
  assumes "\<And>p. pt_testId (g p) = pt_testId p \<and> pt_subjectKey (g p) = pt_subjectKey p \<and> pt_family (g p) = pt_family p \<and>
      pt_windowStartsAt (g p) = pt_windowStartsAt p \<and> pt_windowEndsAt (g p) = pt_windowEndsAt p \<and>
      (pt_state p = Released \<longrightarrow> pt_state (g p) = Released)"
  shows "occupants date_parse (map g ps) s f n \<subseteq> occupants date_parse ps s f n"
proof -
  have "holds_at date_parse (g p) n = holds_at date_parse p n" for p
    using assms [of p] by (simp add: holds_at_def)
  then show ?thesis using assms by (fastforce simp: occupants_def)
qed

lemma limited_reserve_among:
  assumes "limited date_parse limit ps" "limited date_parse limit (ps @ saved)" "1 \<le> m" "m \<le> limit"
    and mode: "cp_mode (ri_policy input) \<noteq> ''warn''"
    "cp_mode (ri_policy input) \<in> {''block'', ''exclude'', ''warn''}"
  shows "limited date_parse limit (fst (reserve_among date_parse m input saved ps))"
proof -
  let ?subjects = "first_occurrences (ri_subjectKeys input)"
  let ?free = "filter (\<lambda>s. \<not> blocked date_parse m ps (candidate_of input s)) ?subjects"
  have free: "limited date_parse limit (ps @ map (candidate_of input) ?free)"
    using limited_reserve [OF assms(1,3,4), of ?free input] by simp
  have "map (candidate_of input) ?free =
      filter (\<lambda>c. \<not> blocked date_parse m ps c) (map (candidate_of input) ?subjects)"
    by (simp add: filter_map o_def)
  then show ?thesis
    using free assms(2) mode by (auto simp: reserve_among_def Let_def filter_empty_conv filter_id_conv)
qed

lemma limited_reserve_update:
  assumes ok: "limited date_parse limit store" and "1 \<le> m" "m \<le> limit"
    and "cp_mode (ri_policy input) \<noteq> ''warn''" "cp_mode (ri_policy input) \<in> {''block'', ''exclude'', ''warn''}"
  shows "limited date_parse limit (fst (reserve_update date_parse m input store))"
  unfolding reserve_update_def
  by (rule limited_reserve_among [OF limited_mono [OF ok occupants_subset] limited_mono [OF ok occupants_subset] assms(2-)])
    auto

lemma collision_step_limited:
  assumes "limited date_parse limit ps" "within_limit limit x"
  shows "limited date_parse limit (fst (collision_step date_parse x ps))"
proof (cases x)
  case (CollisionReserve input)
  show ?thesis
  proof (cases "reserve_issue date_parse input")
    case None
    then obtain m where m: "concurrency_limit (maximumConcurrentExperiments (ri_policy input)) = Some m"
      and mode: "cp_mode (ri_policy input) \<in> {''block'', ''exclude'', ''warn''}"
      by (auto simp: reserve_issue_def split: if_splits)
    from assms(2) m have "m \<le> limit" "cp_mode (ri_policy input) \<noteq> ''warn''"
      by (auto simp: CollisionReserve within_limit_def)
    from limited_reserve_update [OF assms(1) concurrency_limit_pos [OF m] this mode]
    show ?thesis by (simp add: CollisionReserve checkAndReserve_def None m case_prod_unfold)
  qed (use assms(1) in \<open>simp add: CollisionReserve checkAndReserve_def\<close>)
next
  case (CollisionExpose i t)
  have "limited date_parse limit (fst (markExposed date_parse i t ps))"
    using assms(1) limited_mono [OF assms(1) occupants_map] by (simp add: markExposed_def)
  then show ?thesis by (simp add: CollisionExpose case_prod_unfold)
next
  case (CollisionReleaseEligible t)
  have "limited date_parse limit (fst (releaseEligible date_parse t ps))"
    using assms(1) limited_mono [OF assms(1) occupants_map] by (simp add: releaseEligible_def release_where_def)
  then show ?thesis by (simp add: CollisionReleaseEligible case_prod_unfold)
next
  case (CollisionReleaseTest i t)
  have "limited date_parse limit (fst (releaseByTest date_parse i t ps))"
    using assms(1) limited_mono [OF assms(1) occupants_map] by (simp add: releaseByTest_def release_where_def)
  then show ?thesis by (simp add: CollisionReleaseTest case_prod_unfold)
qed

interpretation collision: op_system "collision_step date_parse" "limited date_parse limit" "\<lambda>x _. within_limit limit x"
  for date_parse limit
  by unfold_locales (rule collision_step_limited)

text \<open>C17: No subscriber is in too many experiments at once.  Over any history of
  reservations in block or exclude mode with limits of at most \<open>limit\<close>,
  exposures and releases, refused and repeated ones included, at every instant
  and in every family at most \<open>limit\<close> different tests hold an unreleased
  participation of the subject whose window contains the instant.\<close>

theorem concurrency_limited:
  assumes "list_all (within_limit limit) ops"
  shows "card (occupants date_parse (history (collision_step date_parse) ops []) subject family now) \<le> limit"
proof -
  have "limited date_parse limit (history (collision_step date_parse) ops [])"
    using assms by (intro collision.history_wf) (simp_all add: limited_def occupants_def legal_history_stateless)
  then show ?thesis by (simp add: limited_def)
qed

text \<open>Two tests of one family that want the same subject in overlapping windows.\<close>

definition example_reserve :: "string \<Rightarrow> reserve_input" where
  "example_reserve testId =
     \<lparr>ri_testId = testId, ri_channel = ''email'', ri_family = ''onboarding'',
      ri_windowStartsAt = ''2026-01-01T00:00:00Z'', ri_windowEndsAt = ''2027-01-01T00:00:00Z'',
      ri_subjectKeys = [replicate 64 (CHR ''a'')], ri_policy = DEFAULT_COLLISION_POLICY,
      ri_reservedAt = ''2025-12-01T00:00:00Z''\<rparr>"

definition year_parse :: date_parser where
  "year_parse s = Some (int (nat_value (take 4 s)))"

theorem concurrency_limited_witness:
  "card (occupants year_parse
     (history (collision_step year_parse)
        [CollisionReserve (example_reserve ''first''), CollisionExpose ''first'' ''2026-01-02T00:00:00Z'',
         CollisionReserve (example_reserve ''second'')] [])
     (replicate 64 (CHR ''a'')) ''onboarding'' 2026) \<le> 1"
  by (rule concurrency_limited)
    (simp add: within_limit_def example_reserve_def DEFAULT_COLLISION_POLICY_def)

text \<open>What a reservation adds are reservations of the test.\<close>

lemma candidates_reserved [simp]:
  "list_all (reserved_by (ri_testId input)) (map (candidate_of input) ss)"
  "list_all (reserved_by (ri_testId input)) (filter P (map (candidate_of input) ss))"
  by (auto simp: list_all_iff reserved_by_def candidate_of_def)

lemma reserve_among_cases:
  obtains (refused) e where "reserve_among date_parse m input saved ps = (ps @ saved, Inl e)"
  | (made) r new where "\<And>saved'. reserve_among date_parse m input saved' ps = (ps @ new, Inr r)"
      "list_all (reserved_by (ri_testId input)) new"
proof -
  let ?candidates = "map (candidate_of input) (first_occurrences (ri_subjectKeys input))"
  show ?thesis
  proof (cases "cp_mode (ri_policy input) = ''block'' \<and> filter (blocked date_parse m ps) ?candidates \<noteq> []")
    case True
    then show ?thesis by (intro refused) (simp only: reserve_among_def Let_def if_True simp_thms)
  next
    case False
    let ?new = "if cp_mode (ri_policy input) = ''exclude''
      then filter (\<lambda>c. \<not> blocked date_parse m ps c) ?candidates else ?candidates"
    show ?thesis
    proof (rule made)
      show "list_all (reserved_by (ri_testId input)) ?new" by simp
    qed (simp only: reserve_among_def Let_def if_not_P [OF False])
  qed
qed

lemma reserve_update_again:
  "case reserve_update date_parse m input store of
     (store', Inr r) \<Rightarrow> reserve_update date_parse m input store' = (store', Inr r)
   | (store', Inl e) \<Rightarrow> mset store' = mset store"
proof -
  let ?own = "reserved_by (ri_testId input)"
  let ?ps = "filter (\<lambda>p. \<not> ?own p) store"
  show ?thesis
  proof (rule reserve_among_cases [of date_parse m input "filter ?own store" ?ps])
    fix r new
    assume new: "\<And>saved'. reserve_among date_parse m input saved' ?ps = (?ps @ new, Inr r)" "list_all ?own new"
    then have "filter (\<lambda>p. \<not> ?own p) (?ps @ new) = ?ps"
      by (simp add: list_all_iff)
    then show ?thesis using new(1) by (simp add: reserve_update_def)
  next
    fix e assume "reserve_among date_parse m input (filter ?own store) ?ps = (?ps @ filter ?own store, Inl e)"
    moreover have "mset (?ps @ filter ?own store) = mset store"
      using multiset_partition [of "mset store" ?own] by (simp add: add.commute)
    ultimately show ?thesis by (simp add: reserve_update_def)
  qed
qed

text \<open>A repeated reservation is the same reservation.  After a reservation
  succeeded, making it again succeeds with the same answer and leaves the store
  as it is; after one was refused for a conflict the store holds the
  participations it held before.\<close>

theorem reservation_idempotent:
  "case checkAndReserve date_parse input store of
     (store', Inr r) \<Rightarrow> checkAndReserve date_parse input store' = (store', Inr r)
   | (store', Inl e) \<Rightarrow> mset store' = mset store"
proof (cases "reserve_issue date_parse input")
  case None
  let ?m = "the (concurrency_limit (maximumConcurrentExperiments (ri_policy input)))"
  have "checkAndReserve date_parse input s = reserve_update date_parse ?m input s" for s
    by (simp add: checkAndReserve_def None)
  then show ?thesis
    using reserve_update_again [where date_parse = date_parse and m = ?m and input = input and store = store]
    by (auto split: sum.split)
qed (simp add: checkAndReserve_def)

lemma reserve_update_keeps:
  assumes "p \<in> set store" "\<not> reserved_by (ri_testId input) p"
  shows "p \<in> set (fst (reserve_update date_parse m input store))"
  unfolding reserve_update_def
  by (rule reserve_among_cases [of date_parse m input "filter (reserved_by (ri_testId input)) store"
        "filter (\<lambda>p. \<not> reserved_by (ri_testId input) p) store"]) (use assms in simp_all)

lemma time_less_not_le: "time_less date_parse a b \<Longrightarrow> \<not> time_le date_parse b a"
  by (auto simp: time_less_def time_le_def split: option.splits)

lemma release_where_keeps:
  assumes "p \<in> set store"
  shows "if ends p then p\<lparr>pt_state := Released, pt_releasedAt := Some t\<rparr> \<in> set (fst (release_where ends t store))
    else p \<in> set (fst (release_where ends t store))"
  using assms by (force simp: release_where_def)

text \<open>An exposed participation is kept for attribution.  No method drops it or
  changes it, unless the method is a release at a time after the end of its
  window; a released participation is never changed again.\<close>

theorem exposure_kept:
  assumes "p \<in> set store" and "pt_state p \<noteq> Reserved"
  shows "p \<in> set (fst (collision_step date_parse x store)) \<or>
    pt_state p = Exposed \<and>
    (\<exists>t. x \<in> {CollisionReleaseEligible t, CollisionReleaseTest (pt_testId p) t} \<and>
      \<not> time_le date_parse t (pt_windowEndsAt p) \<and>
      p\<lparr>pt_state := Released, pt_releasedAt := Some t\<rparr> \<in> set (fst (collision_step date_parse x store)))"
proof (cases x)
  case (CollisionReserve input)
  have "p \<in> set (fst (checkAndReserve date_parse input store))"
    using assms reserve_update_keeps [of p store input]
    by (auto simp: checkAndReserve_def reserved_by_def split: option.split)
  then show ?thesis by (simp add: CollisionReserve case_prod_unfold)
next
  case (CollisionExpose i t)
  have "p \<in> set (fst (markExposed date_parse i t store))"
    using assms by (force simp: markExposed_def)
  then show ?thesis by (simp add: CollisionExpose case_prod_unfold)
next
  case (CollisionReleaseEligible t)
  show ?thesis using assms
      release_where_keeps [of p store "\<lambda>p. pt_state p \<noteq> Released \<and> time_less date_parse (pt_windowEndsAt p) t" t]
    by (cases "pt_state p")
      (auto simp: CollisionReleaseEligible releaseEligible_def case_prod_unfold dest: time_less_not_le split: if_splits)
next
  case (CollisionReleaseTest i t)
  show ?thesis using assms
      release_where_keeps [of p store
        "\<lambda>p. pt_testId p = i \<and> pt_state p \<noteq> Released \<and>
           \<not> (pt_state p = Exposed \<and> time_le date_parse t (pt_windowEndsAt p))" t]
    by (cases "pt_state p")
      (auto simp: CollisionReleaseTest releaseByTest_def case_prod_unfold split: if_splits)
qed

definition example_exposed :: participation where
  "example_exposed = (candidate_of (example_reserve ''first'') (replicate 64 (CHR ''a'')))
     \<lparr>pt_state := Exposed, pt_exposedAt := Some ''2026-01-02T00:00:00Z''\<rparr>"

theorem exposure_kept_witness:
  "example_exposed \<in> set (fst (collision_step year_parse (CollisionReleaseTest ''first'' ''2026-03-01T00:00:00Z'') [example_exposed]))"
proof -
  have "\<not> \<not> time_le year_parse ''2026-03-01T00:00:00Z'' (pt_windowEndsAt example_exposed)"
    by code_simp
  moreover have "example_exposed \<in> set [example_exposed]" "pt_state example_exposed \<noteq> Reserved"
    by (simp_all add: example_exposed_def)
  ultimately show ?thesis
    using exposure_kept [of example_exposed "[example_exposed]" year_parse
        "CollisionReleaseTest ''first'' ''2026-03-01T00:00:00Z''"]
    by auto
qed

end
