(* ===== verification/Automation_Core.thy ===== *)
theory Automation_Core
  imports Abtest_Lifecycle Js_Double "HOL-Library.List_Lexorder" "HOL-Library.Char_ord" "HOL-Library.Product_Lexorder"
begin

section \<open>Shared helpers of the automation package\<close>

text \<open>
  \<open>core.ts\<close>, what its callers share of JavaScript's arrays and objects, and the
  sorting lemmas of the proofs about them.
\<close>

text \<open>\<open>toPositiveInt\<close> on an optional integer of an API response.\<close>

fun toPositiveInt :: "int option \<Rightarrow> int option" where
  "toPositiveInt None = None"
| "toPositiveInt (Some i) = (if 0 < i then Some i else None)"

text \<open>\<open>slice(-n)\<close>\<close>

definition take_last :: "nat \<Rightarrow> 'a list \<Rightarrow> 'a list" where
  "take_last n xs = drop (length xs - n) xs"

text \<open>\<open>Math.round\<close>\<close>

definition math_round :: "rat \<Rightarrow> int" where
  "math_round q = \<lfloor>q + 1 / 2\<rfloor>"

text \<open>
  The order of an object's properties: array indices ascending, then the other
  keys as they were inserted.
\<close>

definition array_index :: "string \<Rightarrow> bool" where
  "array_index k = (nat_text (nat_value k) = k \<and> nat_value k < 2 ^ 32 - 1)"

definition object_order :: "(string \<times> 'a) list \<Rightarrow> (string \<times> 'a) list" where
  "object_order ps =
     sort_key (\<lambda>p. nat_value (fst p)) (filter (\<lambda>p. array_index (fst p)) ps) @
     filter (\<lambda>p. \<not> array_index (fst p)) ps"

end
