(* ===== verification/Segment_Drift.thy ===== *)
theory Segment_Drift
  imports Automation_Core
begin

section \<open>The segment drift store\<close>

text \<open>
  \<open>segment-drift.ts\<close>: snapshots of list sizes, comparisons with a baseline and
  the replay of keyed samples.  A snapshot's time is a text; \<open>date_parse\<close> stands
  for \<open>Date.parse\<close> and \<open>collate\<close> for the collation key that \<open>localeCompare\<close>
  compares.  Counts and settings are finite doubles.  A run reads the store for
  a replay before it fetches the lists, and updates the store under its lock
  afterwards: \<open>seen\<close> is the store of the first read, which may be stale.
\<close>

subsection \<open>Data\<close>

record drift_snapshot =
  sn_capturedAt :: string
  sn_listId :: int
  sn_listName :: string
  sn_count :: rat
  sn_sampleKey :: "string option"

datatype baseline_mode = Previous | LookbackMean | LookbackMedian

record drift_settings =
  ds_threshold :: rat
  ds_minAbsoluteChange :: rat
  ds_lookbackDays :: rat
  ds_baselineMode :: baseline_mode

record drift_comparison =
  dc_listId :: int
  dc_listName :: string
  dc_previousCount :: "rat option"
  dc_currentCount :: rat
  dc_baselineCount :: "int option"
  dc_delta :: "rat option"
  dc_deltaRate :: "rat option"
  dc_alert :: bool

datatype drift_scope = AllLists | SomeLists

record stored_drift =
  sd_scope :: drift_scope
  sd_listIds :: "int list"
  sd_capturedAt :: string
  sd_settings :: drift_settings
  sd_comparisons :: "drift_comparison list"
  sd_alerts :: "drift_comparison list"

record drift_store =
  snapshots :: "drift_snapshot list"
  keyedResults :: "(string \<times> stored_drift) list"

record drift_options =
  do_listIds :: "int list option"
  do_threshold :: "rat option"
  do_minAbsoluteChange :: "rat option"
  do_lookbackDays :: "rat option"
  do_baselineMode :: "baseline_mode option"
  do_sampleKey :: "string option"

record drift_result =
  dr_capturedAt :: string
  dr_threshold :: rat
  dr_minAbsoluteChange :: rat
  dr_replaced :: nat
  dr_comparisons :: "drift_comparison list"
  dr_alerts :: "drift_comparison list"

datatype drift_error =
    InvalidSampleKey
  | SampleKeyConflict string
  | ListFailure string

text \<open>A list as Listmonk reports it: an absent name is empty, an absent count zero.\<close>

record remote_list =
  rl_id :: "int option"
  rl_name :: string
  rl_subscriber_count :: rat

record drift_env =
  de_capturedAt :: string
  de_now :: int
  de_getList :: "int \<Rightarrow> string + remote_list"
  de_lists :: "string + remote_list list"

definition MAX_SEGMENT_SNAPSHOTS_PER_LIST :: nat where
  "MAX_SEGMENT_SNAPSHOTS_PER_LIST = 1000"

definition MAX_STORED_KEYED_RESULTS :: nat where
  "MAX_STORED_KEYED_RESULTS = 100"

subsection \<open>Parsing the store\<close>

definition valid_comparison :: "drift_comparison \<Rightarrow> bool" where
  "valid_comparison c = (0 < dc_listId c \<and> 0 \<le> dc_currentCount c)"

definition valid_stored :: "(string \<Rightarrow> instant option) \<Rightarrow> stored_drift \<Rightarrow> bool" where
  "valid_stored date_parse r =
     (list_all (\<lambda>i. 0 < i) (sd_listIds r) \<and>
      date_parse (sd_capturedAt r) \<noteq> None \<and>
      list_all valid_comparison (sd_comparisons r) \<and>
      list_all valid_comparison (sd_alerts r))"

definition valid_sample_key :: "string \<Rightarrow> bool" where
  "valid_sample_key k = (trim k \<noteq> [] \<and> length (trim k) \<le> 200)"

definition valid_snapshot :: "(string \<Rightarrow> instant option) \<Rightarrow> drift_snapshot \<Rightarrow> bool" where
  "valid_snapshot date_parse s =
     (date_parse (sn_capturedAt s) \<noteq> None \<and> 0 < sn_listId s \<and> 0 \<le> sn_count s \<and>
      (case sn_sampleKey s of None \<Rightarrow> True | Some k \<Rightarrow> valid_sample_key k))"

text \<open>
  The store's parser on a document of the right types: it is accepted as it is
  or refused with the key or the position of what is wrong.
\<close>

datatype drift_parse_error = InvalidKeyedResult string | InvalidSnapshot nat

definition parseSegmentDriftStore ::
  "(string \<Rightarrow> instant option) \<Rightarrow> drift_store \<Rightarrow> drift_parse_error + drift_store" where
  "parseSegmentDriftStore date_parse s =
     (case List.find (\<lambda>p. \<not> valid_stored date_parse (snd p)) (keyedResults s) of
        Some p \<Rightarrow> Inl (InvalidKeyedResult (fst p))
      | None \<Rightarrow>
          (case findIndex (\<lambda>x. \<not> valid_snapshot date_parse x) (snapshots s) of
             Some i \<Rightarrow> Inl (InvalidSnapshot i)
           | None \<Rightarrow> Inr s))"

subsection \<open>Comparisons\<close>

definition calculateDeltaRate :: "rat \<Rightarrow> rat option \<Rightarrow> rat option" where
  "calculateDeltaRate currentCount previousCount =
     (case previousCount of
        None \<Rightarrow> None
      | Some p \<Rightarrow> if 0 < p then Some (dbl (dbl (currentCount - p) / p))
                  else if 0 < currentCount then Some 1 else Some 0)"

definition sharesSampleKey :: "drift_snapshot \<Rightarrow> drift_snapshot \<Rightarrow> bool" where
  "sharesSampleKey entry s = (sn_sampleKey entry \<noteq> None \<and> sn_sampleKey s = sn_sampleKey entry)"

text \<open>The earlier snapshots of the list that are not of the same sample, oldest first.\<close>

definition drift_history :: "(string \<Rightarrow> string) \<Rightarrow> drift_snapshot list \<Rightarrow> drift_snapshot \<Rightarrow> drift_snapshot list" where
  "drift_history collate ss entry =
     sort_key (\<lambda>s. collate (sn_capturedAt s))
       (filter (\<lambda>s. sn_listId s = sn_listId entry \<and> sn_capturedAt s < sn_capturedAt entry \<and>
                    \<not> sharesSampleKey entry s) ss)"

definition mean_count :: "drift_snapshot list \<Rightarrow> rat option" where
  "mean_count ss =
     (if ss = [] then None
      else Some (dbl (foldl (\<lambda>sum s. dbl (sum + sn_count s)) 0 ss / of_nat (length ss))))"

definition median_count :: "drift_snapshot list \<Rightarrow> rat" where
  "median_count ss =
     (let sorted = sort (map sn_count ss); mid = length sorted div 2
      in if even (length sorted) then dbl (dbl (sorted ! (mid - 1) + sorted ! mid) / 2) else sorted ! mid)"

definition compare_entry ::
  "(string \<Rightarrow> string) \<Rightarrow> (string \<Rightarrow> instant option) \<Rightarrow> drift_settings \<Rightarrow> rat \<Rightarrow> drift_snapshot list \<Rightarrow>
     drift_snapshot \<Rightarrow> drift_comparison" where
  "compare_entry collate date_parse settings cutoff ss entry =
     (let past = drift_history collate ss entry;
          previousCount = (if past = [] then None else Some (sn_count (last past)));
          lookback = filter (\<lambda>s. case date_parse (sn_capturedAt s) of
                                   None \<Rightarrow> False | Some t \<Rightarrow> cutoff \<le> of_int t) past;
          baselineCount = mean_count lookback;
          alertBaseline =
            (case ds_baselineMode settings of
               Previous \<Rightarrow> previousCount
             | LookbackMean \<Rightarrow> baselineCount
             | LookbackMedian \<Rightarrow> (if lookback = [] then None else Some (median_count lookback)));
          delta = map_option (\<lambda>b. dbl (sn_count entry - b)) alertBaseline;
          rate = calculateDeltaRate (sn_count entry) alertBaseline
      in \<lparr>dc_listId = sn_listId entry, dc_listName = sn_listName entry,
          dc_previousCount = previousCount, dc_currentCount = sn_count entry,
          dc_baselineCount =
            (case alertBaseline of
               Some b \<Rightarrow> Some (math_round b)
             | None \<Rightarrow> map_option math_round baselineCount),
          dc_delta = delta, dc_deltaRate = rate,
          dc_alert =
            (case (delta, rate) of
               (Some d, Some r) \<Rightarrow> ds_minAbsoluteChange settings \<le> \<bar>d\<bar> \<and> ds_threshold settings \<le> \<bar>r\<bar>
             | _ \<Rightarrow> False)\<rparr>)"

subsection \<open>Retention\<close>

definition recent_of_list :: "(string \<Rightarrow> string) \<Rightarrow> drift_snapshot list \<Rightarrow> int \<Rightarrow> drift_snapshot list" where
  "recent_of_list collate ss i =
     take_last MAX_SEGMENT_SNAPSHOTS_PER_LIST
       (sort_key (\<lambda>s. collate (sn_capturedAt s)) (filter (\<lambda>s. sn_listId s = i) ss))"

definition retainRecentSegmentSnapshots :: "(string \<Rightarrow> string) \<Rightarrow> drift_snapshot list \<Rightarrow> drift_snapshot list" where
  "retainRecentSegmentSnapshots collate ss =
     sort_key (\<lambda>s. (collate (sn_capturedAt s), sn_listId s))
       (concat (map (recent_of_list collate ss) (first_occurrences (map sn_listId ss))))"

text \<open>Records whose key is on no retained snapshot are dropped, and the oldest beyond the cap.\<close>

definition prune_results ::
  "(string \<Rightarrow> string) \<Rightarrow> drift_snapshot list \<Rightarrow> (string \<times> stored_drift) list \<Rightarrow> (string \<times> stored_drift) list" where
  "prune_results collate retained results =
     object_order
       (take MAX_STORED_KEYED_RESULTS
         (rev (sort_key (\<lambda>p. collate (sd_capturedAt (snd p)))
           (rev (filter (\<lambda>p. Some (fst p) \<in> set (map sn_sampleKey retained)) (object_order results))))))"

subsection \<open>Keyed samples\<close>

definition normalizedListIdSet :: "int list \<Rightarrow> string" where
  "normalizedListIdSet ids = join '','' (map int_text (sort (remdups ids)))"

definition all_scope :: "drift_options \<Rightarrow> bool" where
  "all_scope options = (case do_listIds options of None \<Rightarrow> True | Some ids \<Rightarrow> ids = [])"

definition storedRequestMatches :: "stored_drift \<Rightarrow> drift_options \<Rightarrow> drift_settings \<Rightarrow> bool" where
  "storedRequestMatches stored options settings =
     ((if all_scope options then sd_scope stored = AllLists
       else sd_scope stored = SomeLists \<and>
            normalizedListIdSet (the (do_listIds options)) = normalizedListIdSet (sd_listIds stored)) \<and>
      sd_settings stored = settings)"

definition replayStoredResult :: "stored_drift \<Rightarrow> drift_settings \<Rightarrow> drift_result" where
  "replayStoredResult stored settings =
     \<lparr>dr_capturedAt = sd_capturedAt stored, dr_threshold = ds_threshold settings,
      dr_minAbsoluteChange = ds_minAbsoluteChange settings, dr_replaced = 0,
      dr_comparisons = sd_comparisons stored, dr_alerts = sd_alerts stored\<rparr>"

definition drift_settings_of :: "drift_options \<Rightarrow> drift_settings" where
  "drift_settings_of options =
     \<lparr>ds_threshold = max 0 (case do_threshold options of None \<Rightarrow> dbl (2 / 10) | Some t \<Rightarrow> t),
      ds_minAbsoluteChange = max 0 (case do_minAbsoluteChange options of None \<Rightarrow> 50 | Some m \<Rightarrow> m),
      ds_lookbackDays = max 1 (case do_lookbackDays options of None \<Rightarrow> 14 | Some d \<Rightarrow> d),
      ds_baselineMode = (case do_baselineMode options of None \<Rightarrow> Previous | Some m \<Rightarrow> m)\<rparr>"

subsection \<open>A run\<close>

text \<open>The lists to capture, with the ids asked for one by one (\<open>None\<close> is the request for all).\<close>

fun fetch_lists :: "(int \<Rightarrow> string + remote_list) \<Rightarrow> int list \<Rightarrow> int option list \<times> (string + remote_list list)" where
  "fetch_lists getList [] = ([], Inr [])"
| "fetch_lists getList (i # is) =
     (case getList i of
        Inl e \<Rightarrow> ([Some i], Inl e)
      | Inr l \<Rightarrow> (case fetch_lists getList is of
                   (rs, Inl e) \<Rightarrow> (Some i # rs, Inl e)
                 | (rs, Inr ls) \<Rightarrow> (Some i # rs, Inr (l # ls))))"

definition getListsForDrift :: "drift_env \<Rightarrow> drift_options \<Rightarrow> int option list \<times> (string + remote_list list)" where
  "getListsForDrift env options =
     (if all_scope options then ([None], de_lists env)
      else fetch_lists (de_getList env) (first_occurrences (the (do_listIds options))))"

definition captured_entry :: "string \<Rightarrow> string option \<Rightarrow> remote_list \<Rightarrow> drift_snapshot option" where
  "captured_entry capturedAt key l =
     (case toPositiveInt (rl_id l) of
        None \<Rightarrow> None
      | Some i \<Rightarrow>
          Some \<lparr>sn_capturedAt = capturedAt, sn_listId = i,
                sn_listName = (if rl_name l = [] then ''List '' @ int_text i else rl_name l),
                sn_count = max 0 (rl_subscriber_count l), sn_sampleKey = key\<rparr>)"

definition same_sample :: "drift_snapshot \<Rightarrow> drift_snapshot \<Rightarrow> bool" where
  "same_sample entry s = (sn_listId s = sn_listId entry \<and> sharesSampleKey entry s)"

text \<open>An entry is dropped when a newer capture of its sample is committed.\<close>

definition retained_entries :: "drift_snapshot list \<Rightarrow> drift_snapshot list \<Rightarrow> drift_snapshot list" where
  "retained_entries ss entries =
     filter (\<lambda>e. case List.find (same_sample e) ss of
                   None \<Rightarrow> True | Some s \<Rightarrow> sn_capturedAt s \<le> sn_capturedAt e) entries"

definition surviving_snapshots :: "drift_snapshot list \<Rightarrow> drift_snapshot list \<Rightarrow> drift_snapshot list" where
  "surviving_snapshots ss retained =
     filter (\<lambda>s. sn_sampleKey s = None \<or> \<not> list_ex (\<lambda>e. same_sample e s) retained) ss"

definition replaced_count :: "drift_snapshot list \<Rightarrow> drift_snapshot list \<Rightarrow> nat" where
  "replaced_count ss retained =
     length (first_occurrences
       (map (\<lambda>e. int_text (sn_listId e) @ '':'' @ the (sn_sampleKey e))
         (filter (\<lambda>e. list_ex (same_sample e) ss) retained)))"

text \<open>The update under the lock: a committed record wins, otherwise the capture is stored.\<close>

definition commit_drift ::
  "(string \<Rightarrow> string) \<Rightarrow> (string \<Rightarrow> instant option) \<Rightarrow> drift_options \<Rightarrow> string option \<Rightarrow> string \<Rightarrow> rat \<Rightarrow>
     drift_snapshot list \<Rightarrow> drift_store \<Rightarrow> drift_error + drift_store \<times> drift_result" where
  "commit_drift collate date_parse options key capturedAt cutoff entries store =
     (let settings = drift_settings_of options;
          retained = retained_entries (snapshots store) entries;
          comparisons = map (compare_entry collate date_parse settings cutoff (snapshots store)) entries;
          alerts = filter dc_alert comparisons;
          surviving = surviving_snapshots (snapshots store) retained
      in case (case key of None \<Rightarrow> None | Some k \<Rightarrow> map_of (keyedResults store) k) of
           Some stored \<Rightarrow>
             if storedRequestMatches stored options settings
             then Inr (store, replayStoredResult stored settings)
             else Inl (SampleKeyConflict (the key))
         | None \<Rightarrow>
             let record_here =
                   \<lparr>sd_scope = (if all_scope options then AllLists else SomeLists),
                    sd_listIds = sort (remdups (map sn_listId retained)),
                    sd_capturedAt = capturedAt, sd_settings = settings,
                    sd_comparisons = comparisons, sd_alerts = alerts\<rparr>;
                 results = (case key of None \<Rightarrow> keyedResults store
                                      | Some k \<Rightarrow> keyedResults store @ [(k, record_here)]);
                 next_snapshots = retainRecentSegmentSnapshots collate (surviving @ retained)
             in Inr (\<lparr>snapshots = next_snapshots, keyedResults = prune_results collate next_snapshots results\<rparr>,
                     \<lparr>dr_capturedAt = capturedAt, dr_threshold = ds_threshold settings,
                      dr_minAbsoluteChange = ds_minAbsoluteChange settings,
                      dr_replaced = replaced_count (snapshots store) retained,
                      dr_comparisons = comparisons, dr_alerts = alerts\<rparr>))"

definition drift_cutoff :: "int \<Rightarrow> drift_settings \<Rightarrow> rat" where
  "drift_cutoff now settings =
     dbl (of_int now - dbl (dbl (dbl (dbl (ds_lookbackDays settings * 24) * 60) * 60) * 1000))"

definition runSegmentDriftSnapshot ::
  "(string \<Rightarrow> string) \<Rightarrow> (string \<Rightarrow> instant option) \<Rightarrow> drift_env \<Rightarrow> drift_options \<Rightarrow> drift_store \<Rightarrow> drift_store \<Rightarrow>
     drift_store \<times> int option list \<times> (drift_error + drift_result)" where
  "runSegmentDriftSnapshot collate date_parse env options seen store =
     (let settings = drift_settings_of options; key = map_option trim (do_sampleKey options)
      in if (case do_sampleKey options of Some k \<Rightarrow> \<not> valid_sample_key k | None \<Rightarrow> False)
         then (store, [], Inl InvalidSampleKey)
         else case (case key of None \<Rightarrow> None | Some k \<Rightarrow> map_of (keyedResults seen) k) of
           Some stored \<Rightarrow>
             (store, [], if storedRequestMatches stored options settings
                         then Inr (replayStoredResult stored settings)
                         else Inl (SampleKeyConflict (the key)))
         | None \<Rightarrow>
             (case getListsForDrift env options of
                (rs, Inl e) \<Rightarrow> (store, rs, Inl (ListFailure e))
              | (rs, Inr ls) \<Rightarrow>
                  (case commit_drift collate date_parse options key (de_capturedAt env)
                          (drift_cutoff (de_now env) settings)
                          (List.map_filter (captured_entry (de_capturedAt env) key) ls) store of
                     Inl e \<Rightarrow> (store, rs, Inl e)
                   | Inr (store', r) \<Rightarrow> (store', rs, Inr r))))"

end
