(* ===== verification/Segment_Drift_Properties.thy ===== *)
theory Segment_Drift_Properties
  imports Segment_Drift Lifecycle_Properties "HOL-Library.Multiset"
begin

section \<open>Properties of the segment drift store\<close>

text \<open>
  What the retention and the pruning of replay records keep, the invariant of
  the stored document over any history of runs (an interpretation of
  \<open>op_system\<close>), and the replay of keyed samples.
\<close>

subsection \<open>Sorting\<close>

lemma sort_key_snoc:
  assumes "\<forall>y \<in> set xs. f y \<le> f x"
  shows "sort_key f (xs @ [x]) = sort_key f xs @ [x]"
proof (rule properties_for_sort_key [symmetric, THEN sym])
  show "sorted (map f (sort_key f xs @ [x]))"
    using assms by (simp add: sorted_append)
next
  fix k
  have "filter (\<lambda>y. f k = f y) (sort_key f xs) = filter (\<lambda>y. f k = f y) xs"
    using sort_key_stable [of f "f k" xs] by (simp add: eq_commute)
  then show "filter (\<lambda>y. f k = f y) (sort_key f xs @ [x]) = filter (\<lambda>y. f k = f y) (xs @ [x])"
    by simp
qed simp

lemma strict_max_last:
  assumes "x \<in> set ys" and "\<And>y. y \<in> set ys \<Longrightarrow> y \<noteq> x \<Longrightarrow> f y < f x"
  shows "last (sort_key f ys) = x"
proof (rule ccontr)
  assume other: "last (sort_key f ys) \<noteq> x"
  have ne: "sort_key f ys \<noteq> []" using assms(1) by (metis empty_iff list.set(1) set_sort)
  then have "last (sort_key f ys) \<in> set ys" by (metis last_in_set set_sort)
  then have "f (last (sort_key f ys)) < f x" using assms(2) other by blast
  moreover have "f x \<le> f (last (sort_key f ys))"
  proof -
    have "sorted (map f (butlast (sort_key f ys) @ [last (sort_key f ys)]))"
      using ne by simp
    then have "\<forall>y \<in> set (butlast (sort_key f ys)). f y \<le> f (last (sort_key f ys))"
      by (simp add: sorted_append)
    moreover have "x \<in> set (butlast (sort_key f ys) @ [last (sort_key f ys)])"
      using assms(1) ne by simp
    ultimately show ?thesis by auto
  qed
  ultimately show False by simp
qed

lemma set_take_last: "set (take_last n xs) \<subseteq> set xs"
  by (simp add: take_last_def set_drop_subset)

lemma length_take_last [simp]: "length (take_last n xs) = min n (length xs)"
  by (simp add: take_last_def)

lemma last_in_take_last: "xs \<noteq> [] \<Longrightarrow> 0 < n \<Longrightarrow> last xs \<in> set (take_last n xs)"
  by (metis append_take_drop_id diff_less drop_eq_Nil last_appendR last_in_set length_greater_0_conv linorder_not_le take_last_def)

subsection \<open>Retention and pruning\<close>

lemma set_recent: "x \<in> set (recent_of_list collate ss i) \<Longrightarrow> x \<in> set ss \<and> sn_listId x = i"
  using set_take_last by (fastforce simp: recent_of_list_def)

lemma mset_take_last: "mset (take_last n xs) \<subseteq># mset xs"
  unfolding take_last_def by (metis append_take_drop_id mset_append mset_subset_eq_add_right)

lemma mset_recent: "mset (recent_of_list collate ss i) \<subseteq># mset (filter (\<lambda>s. sn_listId s = i) ss)"
  unfolding recent_of_list_def by (rule subset_mset.order_trans [OF mset_take_last]) simp

text \<open>Grouping by a key and taking part of each group takes part of the whole.\<close>

lemma mset_groups:
  assumes "distinct is" and "\<And>i. mset (g i) \<subseteq># mset (filter (\<lambda>s. k s = i) ss)"
  shows "mset (concat (map g is)) \<subseteq># mset (filter (\<lambda>s. k s \<in> set is) ss)"
  using assms(1)
proof (induction "is")
  case (Cons i rest)
  have "mset (filter (\<lambda>s. k s = i) ss) + mset (filter (\<lambda>s. k s \<in> set rest) ss) =
      mset (filter (\<lambda>s. k s \<in> set (i # rest)) ss)"
    using Cons.prems by (induction ss) auto
  then show ?case
    using subset_mset.add_mono [OF assms(2) [of i] Cons.IH] Cons.prems by simp
qed simp

lemma mset_retain: "mset (retainRecentSegmentSnapshots collate ss) \<subseteq># mset ss"
proof -
  have "mset (concat (map (recent_of_list collate ss) (first_occurrences (map sn_listId ss)))) \<subseteq>#
      mset (filter (\<lambda>s. sn_listId s \<in> set (first_occurrences (map sn_listId ss))) ss)"
    by (rule mset_groups [OF distinct_first_occurrences mset_recent])
  also have "\<dots> \<subseteq># mset ss" by (simp add: multiset_filter_subset)
  finally show ?thesis by (simp add: retainRecentSegmentSnapshots_def)
qed

lemma set_retain: "set (retainRecentSegmentSnapshots collate ss) \<subseteq> set ss"
  using set_mset_mono [OF mset_retain] by simp

lemma in_retain:
  "x \<in> set ss \<Longrightarrow> x \<in> set (recent_of_list collate ss (sn_listId x)) \<Longrightarrow> x \<in> set (retainRecentSegmentSnapshots collate ss)"
  by (auto simp: retainRecentSegmentSnapshots_def)

lemma retain_bounded:
  "length (filter (\<lambda>s. sn_listId s = i) (retainRecentSegmentSnapshots collate ss)) \<le> MAX_SEGMENT_SNAPSHOTS_PER_LIST"
proof -
  let ?ids = "first_occurrences (map sn_listId ss)"
  have other: "filter (\<lambda>s. sn_listId s = i) (recent_of_list collate ss j) =
      (if j = i then recent_of_list collate ss j else [])" for j
    using set_recent [of _ collate ss j] by (auto simp: filter_id_conv filter_empty_conv)
  have "distinct js \<Longrightarrow> length (filter (\<lambda>s. sn_listId s = i) (concat (map (recent_of_list collate ss) js))) \<le>
      MAX_SEGMENT_SNAPSHOTS_PER_LIST" for js
  proof (induction js)
    case (Cons j js)
    have "j = i \<Longrightarrow> filter (\<lambda>s. sn_listId s = i) (concat (map (recent_of_list collate ss) js)) = []"
      using Cons.prems set_recent [of _ collate ss] by (auto simp: filter_empty_conv)
    moreover have "length (recent_of_list collate ss j) \<le> MAX_SEGMENT_SNAPSHOTS_PER_LIST"
      by (simp add: recent_of_list_def)
    ultimately show ?case
      using Cons by (cases "j = i") (simp_all add: other)
  qed simp
  from this [OF distinct_first_occurrences] show ?thesis
    by (simp add: retainRecentSegmentSnapshots_def filter_sort)
qed

lemma set_object_order [simp]: "set (object_order ps) = set ps"
  by (auto simp: object_order_def)

lemma distinct_object_order [simp]: "distinct (map fst (object_order ps)) = distinct (map fst ps)"
proof -
  have "mset (object_order ps) = mset ps"
    using multiset_partition [of "mset ps" "\<lambda>p. array_index (fst p)"] by (simp add: object_order_def)
  then have "mset (map fst (object_order ps)) = mset (map fst ps)" by simp
  then show ?thesis by (rule mset_eq_imp_distinct_iff)
qed

lemma length_object_order [simp]: "length (object_order ps) = length ps"
  using sum_length_filter_compl [of "\<lambda>p. array_index (fst p)" ps] by (simp add: object_order_def)

lemma set_prune: "p \<in> set (prune_results collate ss rs) \<Longrightarrow> p \<in> set rs \<and> Some (fst p) \<in> set (map sn_sampleKey ss)"
  by (auto simp: prune_results_def dest: in_set_takeD)

lemma length_prune: "length (prune_results collate ss rs) \<le> MAX_STORED_KEYED_RESULTS"
  by (simp add: prune_results_def)

lemma distinct_prune:
  assumes "distinct (map fst rs)"
  shows "distinct (map fst (prune_results collate ss rs))"
proof -
  have "distinct (map fst (filter P (object_order rs)))" for P
    using assms by (simp add: distinct_map_filter)
  then show ?thesis
    unfolding prune_results_def distinct_object_order
    by (intro distinct_take_map) (simp flip: rev_map)
qed

text \<open>The newest record is kept when its key is on a retained snapshot.\<close>

lemma newest_kept:
  assumes "p \<in> set rs" "Some (fst p) \<in> set (map sn_sampleKey ss)"
    and "\<And>q. q \<in> set rs \<Longrightarrow> q \<noteq> p \<Longrightarrow> collate (sd_capturedAt (snd q)) < collate (sd_capturedAt (snd p))"
  shows "p \<in> set (prune_results collate ss rs)"
proof -
  let ?ys = "rev (filter (\<lambda>p. Some (fst p) \<in> set (map sn_sampleKey ss)) (object_order rs))"
  let ?sorted = "sort_key (\<lambda>p. collate (sd_capturedAt (snd p))) ?ys"
  have p: "p \<in> set ?ys" using assms(1,2) by auto
  then have last: "last ?sorted = p"
    by (rule strict_max_last) (simp add: assms(3))
  have "?sorted \<noteq> []" using p by (metis empty_iff list.set(1) set_sort)
  then obtain rest where "rev ?sorted = p # rest"
    using last by (metis hd_rev list.collapse rev_is_Nil_conv)
  then show ?thesis
    by (simp add: prune_results_def MAX_STORED_KEYED_RESULTS_def)
qed

subsection \<open>The invariant of the document\<close>

definition keyed_sample :: "drift_snapshot \<Rightarrow> bool" where
  "keyed_sample s = (sn_sampleKey s \<noteq> None)"

definition sample_of :: "drift_snapshot \<Rightarrow> int \<times> string option" where
  "sample_of s = (sn_listId s, sn_sampleKey s)"

definition drift_ok :: "(string \<Rightarrow> instant option) \<Rightarrow> drift_store \<Rightarrow> bool" where
  "drift_ok date_parse s =
     (list_all (valid_snapshot date_parse) (snapshots s) \<and>
      list_all (\<lambda>p. valid_stored date_parse (snd p)) (keyedResults s) \<and>
      (\<forall>i. length (filter (\<lambda>x. sn_listId x = i) (snapshots s)) \<le> MAX_SEGMENT_SNAPSHOTS_PER_LIST) \<and>
      distinct (map sample_of (filter keyed_sample (snapshots s))) \<and>
      length (keyedResults s) \<le> MAX_STORED_KEYED_RESULTS \<and>
      distinct (map fst (keyedResults s)) \<and>
      list_all (\<lambda>p. Some (fst p) \<in> set (map sn_sampleKey (snapshots s))) (keyedResults s))"

lemma findIndex_None: "findIndex P xs = None \<longleftrightarrow> list_all (\<lambda>x. \<not> P x) xs"
  by (induction xs) auto

lemma parse_accepts:
  assumes "drift_ok date_parse s" shows "parseSegmentDriftStore date_parse s = Inr s"
proof -
  have "List.find (\<lambda>p. \<not> valid_stored date_parse (snd p)) (keyedResults s) = None"
    using assms by (auto simp: drift_ok_def find_None_iff list_all_iff)
  moreover have "findIndex (\<lambda>x. \<not> valid_snapshot date_parse x) (snapshots s) = None"
    using assms by (simp add: drift_ok_def findIndex_None)
  ultimately show ?thesis by (simp add: parseSegmentDriftStore_def)
qed

text \<open>A run's environment: its time is a date, and the lists are those asked for.\<close>

definition faithful_lists :: "drift_env \<Rightarrow> bool" where
  "faithful_lists env =
     ((\<forall>ls. de_lists env = Inr ls \<longrightarrow> distinct (map rl_id ls)) \<and>
      (\<forall>i l. de_getList env i = Inr l \<longrightarrow> rl_id l = Some i))"

lemma fetch_lists_ids:
  assumes "faithful_lists env" "fetch_lists (de_getList env) is = (rs, Inr ls)"
  shows "map rl_id ls = map Some is"
  using assms(2)
proof (induction "is" arbitrary: rs ls)
  case (Cons i rest)
  then show ?case
    using assms(1) by (auto simp: faithful_lists_def split: sum.splits prod.splits)
qed simp

lemma distinct_lists:
  assumes "faithful_lists env" "getListsForDrift env options = (rs, Inr ls)"
  shows "distinct (map rl_id ls)"
proof (cases "all_scope options")
  case False
  then have "map rl_id ls = map Some (first_occurrences (the (do_listIds options)))"
    using assms(2) by (intro fetch_lists_ids [OF assms(1)]) (simp add: getListsForDrift_def)
  then show ?thesis by (simp add: distinct_map distinct_first_occurrences)
qed (use assms in \<open>simp add: getListsForDrift_def faithful_lists_def\<close>)

lemma captured_entry_simps:
  assumes "captured_entry cap key l = Some e"
  shows "sn_capturedAt e = cap" "sn_sampleKey e = key" "rl_id l = Some (sn_listId e)" "0 < sn_listId e" "0 \<le> sn_count e"
  using assms by (cases "rl_id l"; auto simp: captured_entry_def split: if_splits)+

lemma in_map_filter: "e \<in> set (List.map_filter f xs) \<longleftrightarrow> (\<exists>x \<in> set xs. f x = Some e)"
  by (force simp: List.map_filter_def)

lemma distinct_captured:
  "distinct (map rl_id ls) \<Longrightarrow> distinct (map sn_listId (List.map_filter (captured_entry cap key) ls))"
proof (induction ls)
  case (Cons l ls)
  then show ?case
    using captured_entry_simps(3) [of cap key]
    by (cases "captured_entry cap key l") (force simp: in_map_filter map_filter_simps)+
qed (simp add: List.map_filter_def)

definition entries_ok :: "(string \<Rightarrow> instant option) \<Rightarrow> string \<Rightarrow> string option \<Rightarrow> drift_snapshot list \<Rightarrow> bool" where
  "entries_ok date_parse cap key es =
     (distinct (map sn_listId es) \<and>
      list_all (\<lambda>e. sn_capturedAt e = cap \<and> sn_sampleKey e = key \<and> valid_snapshot date_parse e) es)"

lemma captured_entries_ok:
  assumes "faithful_lists env" "date_parse cap \<noteq> None" "getListsForDrift env options = (rs, Inr ls)"
    and "\<And>k. key = Some k \<Longrightarrow> valid_sample_key k"
  shows "entries_ok date_parse cap key (List.map_filter (captured_entry cap key) ls)"
  using distinct_captured [OF distinct_lists [OF assms(1,3)]] assms(2,4) captured_entry_simps [of cap key]
  by (fastforce simp: entries_ok_def list_all_iff in_map_filter valid_snapshot_def split: option.split)

lemma entries_filter: "entries_ok date_parse cap key es \<Longrightarrow> entries_ok date_parse cap key (filter P es)"
  by (auto simp: entries_ok_def list_all_iff distinct_map_filter)

lemma distinct_sub_mset:
  assumes "mset xs \<subseteq># mset ys" "distinct (map f (filter P ys))"
  shows "distinct (map f (filter P xs))"
proof -
  have "mset (map f (filter P xs)) \<subseteq># mset (map f (filter P ys))"
    using assms(1) by (simp add: image_mset_subseteq_mono multiset_filter_mono)
  then obtain rest where "mset (map f (filter P ys)) = mset (map f (filter P xs) @ rest)"
    by (metis ex_mset mset_append subset_mset.le_iff_add)
  then have "distinct (map f (filter P xs) @ rest)"
    using assms(2) mset_eq_imp_distinct_iff by blast
  then show ?thesis by simp
qed

text \<open>The snapshots kept beside a capture have no sample of it.\<close>

lemma samples_distinct:
  assumes "distinct (map sample_of (filter keyed_sample ss))" "entries_ok date_parse cap key es"
  shows "distinct (map sample_of (filter keyed_sample (surviving_snapshots ss es @ es)))"
proof -
  have "distinct (map sample_of (filter keyed_sample (surviving_snapshots ss es)))"
    by (rule distinct_sub_mset [OF _ assms(1)]) (simp add: surviving_snapshots_def)
  moreover have "distinct (map sample_of (filter keyed_sample es))"
    using assms(2) by (auto simp: entries_ok_def sample_of_def distinct_map inj_on_def)
  moreover have "sample_of s \<noteq> sample_of e"
    if "s \<in> set (surviving_snapshots ss es)" "keyed_sample s" "e \<in> set es" for s e
    using that by (auto simp: surviving_snapshots_def keyed_sample_def sample_of_def list_ex_iff same_sample_def sharesSampleKey_def)
  ultimately show ?thesis by (fastforce simp: image_iff)
qed


lemma comparison_valid:
  "valid_snapshot date_parse e \<Longrightarrow> valid_comparison (compare_entry collate date_parse settings cutoff ss e)"
  by (simp add: valid_comparison_def compare_entry_def valid_snapshot_def Let_def)

lemma retained_surviving:
  "x \<in> set (surviving_snapshots ss es) \<Longrightarrow> x \<in> set ss"
  by (simp add: surviving_snapshots_def)

lemma commit_drift_ok:
  assumes ok: "drift_ok date_parse store"
    and es: "entries_ok date_parse cap key es" and date: "date_parse cap \<noteq> None"
    and run: "commit_drift collate date_parse options key cap cutoff es store = Inr (store', r)"
  shows "drift_ok date_parse store'"
proof (cases "case key of None \<Rightarrow> None | Some k \<Rightarrow> map_of (keyedResults store) k")
  case (Some stored)
  then show ?thesis using run ok by (simp add: commit_drift_def Let_def split: if_splits)
next
  case None
  define retained where "retained = retained_entries (snapshots store) es"
  define kept where "kept = surviving_snapshots (snapshots store) retained @ retained"
  define next_snapshots where "next_snapshots = retainRecentSegmentSnapshots collate kept"
  obtain stored where valid: "valid_stored date_parse stored" and
    results: "keyedResults store' = prune_results collate next_snapshots
        (case key of None \<Rightarrow> keyedResults store | Some k \<Rightarrow> keyedResults store @ [(k, stored)])"
    and snaps: "snapshots store' = next_snapshots"
  proof -
    let ?comparisons = "map (compare_entry collate date_parse (drift_settings_of options) cutoff (snapshots store)) es"
    let ?stored = "\<lparr>sd_scope = (if all_scope options then AllLists else SomeLists),
      sd_listIds = sort (remdups (map sn_listId retained)), sd_capturedAt = cap,
      sd_settings = drift_settings_of options, sd_comparisons = ?comparisons, sd_alerts = filter dc_alert ?comparisons\<rparr>"
    have "valid_stored date_parse ?stored"
      using es date comparison_valid [of date_parse]
      by (fastforce simp: valid_stored_def entries_ok_def list_all_iff retained_def retained_entries_def valid_snapshot_def)
    then show ?thesis
      using run None that
      by (auto simp: commit_drift_def Let_def next_snapshots_def kept_def retained_def)
  qed
  have ret: "entries_ok date_parse cap key retained"
    unfolding retained_def retained_entries_def by (rule entries_filter [OF es])
  have "list_all (valid_snapshot date_parse) kept"
    using ok ret retained_surviving by (fastforce simp: kept_def drift_ok_def entries_ok_def list_all_iff)
  then have "list_all (valid_snapshot date_parse) next_snapshots"
    using set_retain unfolding next_snapshots_def list_all_iff by blast
  moreover have "distinct (map sample_of (filter keyed_sample next_snapshots))"
    unfolding next_snapshots_def
    by (rule distinct_sub_mset [OF mset_retain])
      (use ok in \<open>simp only: kept_def drift_ok_def samples_distinct [OF _ ret]\<close>)
  moreover have "list_all (\<lambda>p. valid_stored date_parse (snd p)) (keyedResults store')"
    using ok valid by (auto simp: results list_all_iff drift_ok_def split: option.splits dest!: set_prune)
  moreover have "list_all (\<lambda>p. Some (fst p) \<in> set (map sn_sampleKey next_snapshots)) (keyedResults store')"
    by (auto simp: results list_all_iff dest!: set_prune)
  moreover have "distinct (map fst (keyedResults store'))"
    unfolding results
    by (rule distinct_prune) (use ok None in \<open>auto simp: drift_ok_def map_of_eq_None_iff split: option.splits\<close>)
  ultimately show ?thesis
    using retain_bounded length_prune by (auto simp: drift_ok_def snaps results next_snapshots_def)
qed

text \<open>A run of the operation; \<open>seen\<close> is any store, as read before the lock was taken.\<close>

record drift_run =
  run_env :: drift_env
  run_options :: drift_options
  run_seen :: drift_store

definition drift_step ::
  "(string \<Rightarrow> string) \<Rightarrow> (string \<Rightarrow> instant option) \<Rightarrow> drift_run \<Rightarrow> drift_store \<Rightarrow>
     drift_store \<times> int option list \<times> (drift_error + drift_result)" where
  "drift_step collate date_parse x s =
     runSegmentDriftSnapshot collate date_parse (run_env x) (run_options x) (run_seen x) s"

definition faithful_run :: "(string \<Rightarrow> instant option) \<Rightarrow> drift_run \<Rightarrow> bool" where
  "faithful_run date_parse x =
     (faithful_lists (run_env x) \<and> date_parse (de_capturedAt (run_env x)) \<noteq> None)"

lemma trimmed_key_valid: "valid_sample_key k \<Longrightarrow> valid_sample_key (trim k)"
  by (simp add: valid_sample_key_def)

lemma drift_step_ok:
  assumes "drift_ok date_parse s" "faithful_run date_parse x"
  shows "drift_ok date_parse (fst (drift_step collate date_parse x s))"
proof -
  let ?key = "map_option trim (do_sampleKey (run_options x))"
  have "drift_ok date_parse store'"
    if "commit_drift collate date_parse (run_options x) ?key (de_capturedAt (run_env x)) cutoff
          (List.map_filter (captured_entry (de_capturedAt (run_env x)) ?key) ls) s = Inr (store', r)"
      and "getListsForDrift (run_env x) (run_options x) = (rs, Inr ls)"
      and "\<And>k. do_sampleKey (run_options x) = Some k \<Longrightarrow> valid_sample_key k" for store' r cutoff ls rs
  proof (rule commit_drift_ok [OF assms(1) _ _ that(1)])
    show "date_parse (de_capturedAt (run_env x)) \<noteq> None"
      using assms(2) by (simp add: faithful_run_def)
    then show "entries_ok date_parse (de_capturedAt (run_env x)) ?key
        (List.map_filter (captured_entry (de_capturedAt (run_env x)) ?key) ls)"
      using assms(2) that(2,3)
      by (intro captured_entries_ok [where env = "run_env x"]) (auto simp: faithful_run_def intro: trimmed_key_valid)
  qed
  then show ?thesis
    using assms(1)
    by (auto simp: drift_step_def runSegmentDriftSnapshot_def Let_def split: option.splits sum.splits prod.splits if_splits)
qed

interpretation drift: op_system "drift_step collate date_parse" "drift_ok date_parse" "\<lambda>x _. faithful_run date_parse x"
  for collate date_parse
  by unfold_locales (rule drift_step_ok)

subsection \<open>Theorems\<close>

text \<open>C37: The segment drift document stays well-formed.  After any history of runs
  from the empty store, overlapping and refused ones included (a run may have
  read any store before it took the lock), the store's parser accepts the
  document, no list has more than 1000 snapshots, no two snapshots of a list
  carry the same sample key, so no period is weighted twice, and at most 100
  replay records are kept, with distinct keys, each on a retained snapshot.\<close>

theorem drift_document_history:
  assumes "list_all (faithful_run date_parse) runs"
  shows "let s = history (drift_step collate date_parse) runs \<lparr>snapshots = [], keyedResults = []\<rparr>
    in parseSegmentDriftStore date_parse s = Inr s \<and>
       length (filter (\<lambda>x. sn_listId x = i) (snapshots s)) \<le> 1000 \<and>
       distinct (map sample_of (filter keyed_sample (snapshots s))) \<and>
       length (keyedResults s) \<le> 100 \<and> distinct (map fst (keyedResults s)) \<and>
       list_all (\<lambda>p. Some (fst p) \<in> set (map sn_sampleKey (snapshots s))) (keyedResults s)"
proof -
  have "drift_ok date_parse (history (drift_step collate date_parse) runs \<lparr>snapshots = [], keyedResults = []\<rparr>)"
    using assms by (intro drift.history_wf) (simp_all add: drift_ok_def legal_history_stateless)
  then show ?thesis
    using parse_accepts by (simp add: Let_def drift_ok_def MAX_SEGMENT_SNAPSHOTS_PER_LIST_def MAX_STORED_KEYED_RESULTS_def)
qed

lemma map_of_distinct_in: "distinct (map fst ps) \<Longrightarrow> (k, v) \<in> set ps \<Longrightarrow> map_of ps k = Some v"
  by simp

text \<open>A record leaves the store only by retention; it never changes.\<close>

lemma commit_keeps_record:
  assumes "commit_drift collate date_parse options key cap cutoff es store = Inr (store', r)"
    and "distinct (map fst (keyedResults store))" "map_of (keyedResults store) k = Some stored"
  shows "map_of (keyedResults store') k \<in> {None, Some stored}"
proof (cases "case key of None \<Rightarrow> None | Some k \<Rightarrow> map_of (keyedResults store) k")
  case (Some stored)
  then show ?thesis using assms by (simp add: commit_drift_def Let_def split: if_splits)
next
  case None
  then obtain ss rs where rs: "keyedResults store' = prune_results collate ss rs"
    "rs = keyedResults store \<or> (\<exists>k' v. key = Some k' \<and> rs = keyedResults store @ [(k', v)])"
    using assms(1) by (auto simp: commit_drift_def Let_def split: option.splits)
  show ?thesis
  proof (cases "map_of (keyedResults store') k")
    case (Some v)
    then have "(k, v) \<in> set rs" using set_prune by (fastforce simp: rs(1) dest: map_of_SomeD)
    then have "(k, v) \<in> set (keyedResults store)"
      using rs(2) None assms(3) by auto
    then show ?thesis using assms(2,3) Some by simp
  qed simp
qed

lemma normalized_cong: "set is = set js \<Longrightarrow> normalizedListIdSet is = normalizedListIdSet js"
  by (simp add: normalizedListIdSet_def flip: sorted_list_of_set_sort_remdups)

text \<open>The list-set text of a request stands for the set of its lists.\<close>

lemma normalized_inj: "normalizedListIdSet is = normalizedListIdSet js \<longleftrightarrow> set is = set js"
proof
  assume eq: "normalizedListIdSet is = normalizedListIdSet js"
  define texts where "texts = (\<lambda>xs :: int list. map int_text (sort (remdups xs)))"
  have plain: "\<forall>w \<in> set (texts xs). CHR '','' \<notin> set w" for xs
    using nat_text_digits [of "CHR '',''"] by (auto simp: texts_def int_text_def)
  have nonempty: "nat_text n \<noteq> []" for n by (subst nat_text.simps) simp
  then have word: "int_text i \<noteq> []" for i by (simp add: int_text_def)
  have split: "split_at CHR '','' (normalizedListIdSet xs) = (if xs = [] then [[]] else texts xs)" for xs
  proof (cases "xs = []")
    case False
    then have "sort (remdups xs) \<noteq> []" by (metis set_empty set_remdups set_sort)
    then show ?thesis
      using split_at_join [OF _ plain, of xs] False by (simp add: normalizedListIdSet_def texts_def)
  qed (simp add: normalizedListIdSet_def)
  have "(if is = [] then [[]] else texts is) = (if js = [] then [[]] else texts js)"
    using arg_cong [where f = "split_at CHR '',''", OF eq] unfolding split .
  moreover have "texts xs \<noteq> [[]]" for xs
    using word by (auto simp: texts_def map_eq_Cons_conv)
  ultimately have "is = [] \<and> js = [] \<or> texts is = texts js" by (auto split: if_splits)
  moreover have "sort (remdups is) = sort (remdups js)" if "texts is = texts js"
    using that int_text_injective by (simp add: texts_def inj_map_eq_map inj_def)
  ultimately show "set is = set js" by (metis list.set(1) set_remdups set_sort)
qed (rule normalized_cong)

text \<open>
  The answer of a sample whose record is committed, written out: the measurement on
  record for a request with the same settings and the same lists, a conflict for any
  other.
\<close>

definition committed_answer :: "string \<Rightarrow> stored_drift \<Rightarrow> drift_options \<Rightarrow> drift_error + drift_result" where
  "committed_answer k stored options =
     (if sd_settings stored = drift_settings_of options \<and>
         (case do_listIds options of
            None \<Rightarrow> sd_scope stored = AllLists
          | Some ids \<Rightarrow>
              if ids = [] then sd_scope stored = AllLists
              else sd_scope stored = SomeLists \<and> set (sd_listIds stored) = set ids)
      then Inr \<lparr>dr_capturedAt = sd_capturedAt stored, dr_threshold = ds_threshold (sd_settings stored),
                dr_minAbsoluteChange = ds_minAbsoluteChange (sd_settings stored), dr_replaced = 0,
                dr_comparisons = sd_comparisons stored, dr_alerts = sd_alerts stored\<rparr>
      else Inl (SampleKeyConflict k))"

lemma committed_answer_eq:
  "(if storedRequestMatches stored options (drift_settings_of options)
    then Inr (replayStoredResult stored (drift_settings_of options))
    else Inl (SampleKeyConflict k)) = committed_answer k stored options"
  by (auto simp: committed_answer_def storedRequestMatches_def replayStoredResult_def all_scope_def
      normalized_inj split: option.splits)

text \<open>The key of a record names a snapshot, so a run under it passes the key check.\<close>

lemma committed_key_valid:
  assumes "drift_ok date_parse s" "map_of (keyedResults s) (trim key) = Some stored"
  shows "valid_sample_key key"
proof -
  have "Some (trim key) \<in> set (map sn_sampleKey (snapshots s))"
    using assms by (fastforce simp: drift_ok_def list_all_iff dest: map_of_SomeD)
  then obtain x where "x \<in> set (snapshots s)" "sn_sampleKey x = Some (trim key)" by auto
  then have "valid_sample_key (trim key)"
    using assms(1) by (auto simp: drift_ok_def list_all_iff valid_snapshot_def)
  then show ?thesis by (simp add: valid_sample_key_def)
qed

text \<open>C21: A committed sample is never measured again.  While a replay record is in
  the store, a run under its key changes nothing.  If it finds the record when it
  first reads the store, it issues no request; if it read a store that lacked the
  record, it fetches the lists first and fails when that fails.  Otherwise it
  answers, either way, with the committed measurement if the request has the same
  settings and the same lists, and with a conflict if it is any other.  Runs under
  other keys keep the record as it is or drop it by retention.\<close>

theorem committed_sample_final:
  assumes "drift_ok date_parse s" and "map_of (keyedResults s) k = Some stored"
    and "map_of (keyedResults (run_seen x)) k \<in> {None, Some stored}"
  shows "case drift_step collate date_parse x s of (s', requests, result) \<Rightarrow>
    if map_option trim (do_sampleKey (run_options x)) = Some k
    then s' = s \<and>
      (if map_of (keyedResults (run_seen x)) k = Some stored
       then requests = [] \<and> result = committed_answer k stored (run_options x)
       else requests = fst (getListsForDrift (run_env x) (run_options x)) \<and>
         result = (case snd (getListsForDrift (run_env x) (run_options x)) of
                     Inl e \<Rightarrow> Inl (ListFailure e)
                   | Inr _ \<Rightarrow> committed_answer k stored (run_options x)))
    else map_of (keyedResults s') k \<in> {None, Some stored}"
proof (cases "map_option trim (do_sampleKey (run_options x)) = Some k")
  case True
  then obtain key where key: "do_sampleKey (run_options x) = Some key" "trim key = k" by auto
  note valid = committed_key_valid [OF assms(1), of key stored, unfolded key(2), OF assms(2)]
  let ?commit = "commit_drift collate date_parse (run_options x) (Some k) (de_capturedAt (run_env x))"
  have commit: "?commit cutoff es s =
      (if storedRequestMatches stored (run_options x) (drift_settings_of (run_options x))
       then Inr (s, replayStoredResult stored (drift_settings_of (run_options x)))
       else Inl (SampleKeyConflict k))" for cutoff es
    using assms(2) by (simp add: commit_drift_def Let_def)
  show ?thesis
    using key valid assms(2,3) commit
    by (auto simp: drift_step_def runSegmentDriftSnapshot_def Let_def committed_answer_eq [symmetric]
        split: sum.splits prod.splits option.splits if_splits)
next
  case False
  have "map_of (keyedResults (fst (drift_step collate date_parse x s))) k \<in> {None, Some stored}"
    using assms(1,2) commit_keeps_record [where store = s and k = k and stored = stored]
    by (auto simp: drift_step_def runSegmentDriftSnapshot_def Let_def drift_ok_def
        split: sum.splits prod.splits option.splits)
  with False show ?thesis by (auto split: prod.splits)
qed

text \<open>A capture that is not older than the snapshots of its list is retained.\<close>

lemma last_entry_retained:
  assumes "e \<in> set es" "distinct (map sn_listId es)"
    and "\<And>x. x \<in> set (ss @ es) \<Longrightarrow> collate (sn_capturedAt x) \<le> collate (sn_capturedAt e)"
  shows "e \<in> set (retainRecentSegmentSnapshots collate (ss @ es))"
proof (rule in_retain)
  let ?f = "\<lambda>s. collate (sn_capturedAt s)" and ?P = "\<lambda>s. sn_listId s = sn_listId e"
  obtain before after where es: "es = before @ e # after"
    using assms(1) split_list by metis
  have "filter ?P after = []" "filter ?P before = []"
    using assms(2) unfolding es by (auto simp: filter_empty_conv image_iff) 
  then have "sort_key ?f (filter ?P (ss @ es)) = sort_key ?f (filter ?P ss) @ [e]"
    using assms(3) by (simp add: es sort_key_snoc)
  then show "e \<in> set (recent_of_list collate (ss @ es) (sn_listId e))"
    using last_in_take_last [of "sort_key ?f (filter ?P (ss @ es))" MAX_SEGMENT_SNAPSHOTS_PER_LIST]
    by (simp add: recent_of_list_def MAX_SEGMENT_SNAPSHOTS_PER_LIST_def)
qed (use assms(1) in simp)

text \<open>What a capture commits when no newer one of its sample is in the store.\<close>

lemma capture_recorded:
  assumes ok: "drift_ok date_parse s" "entries_ok date_parse cap (Some k) es" "es \<noteq> []"
    and newer: "\<And>x. x \<in> set (snapshots s) \<Longrightarrow> sn_capturedAt x \<le> cap \<and> collate (sn_capturedAt x) \<le> collate cap"
      "\<And>p. p \<in> set (keyedResults s) \<Longrightarrow> collate (sd_capturedAt (snd p)) < collate cap"
    and run: "commit_drift collate date_parse options (Some k) cap cutoff es s = Inr (s', r)"
    and fresh: "map_of (keyedResults s) k = None"
  shows "map_of (keyedResults s') k =
    Some \<lparr>sd_scope = (if all_scope options then AllLists else SomeLists),
          sd_listIds = sort (remdups (map sn_listId es)), sd_capturedAt = cap,
          sd_settings = drift_settings_of options,
          sd_comparisons = dr_comparisons r, sd_alerts = dr_alerts r\<rparr>" (is "_ = Some ?record")
    "dr_capturedAt r = cap" "dr_threshold r = ds_threshold (drift_settings_of options)"
    "dr_minAbsoluteChange r = ds_minAbsoluteChange (drift_settings_of options)"
proof -
  let ?snapshots = "retainRecentSegmentSnapshots collate (surviving_snapshots (snapshots s) es @ es)"
  have retained: "retained_entries (snapshots s) es = es"
    using newer(1) ok(2)
    by (auto simp: retained_entries_def filter_id_conv entries_ok_def list_all_iff find_Some_iff
        split: option.split)
  show "dr_capturedAt r = cap" "dr_threshold r = ds_threshold (drift_settings_of options)"
    "dr_minAbsoluteChange r = ds_minAbsoluteChange (drift_settings_of options)"
    using run fresh by (auto simp: commit_drift_def Let_def)
  have s': "keyedResults s' = prune_results collate ?snapshots (keyedResults s @ [(k, ?record)])"
    using run fresh by (auto simp: commit_drift_def Let_def retained)
  obtain e where e: "e \<in> set es" "sn_capturedAt e = cap" "sn_sampleKey e = Some k"
    using ok(2,3) by (cases es) (auto simp: entries_ok_def)
  have "e \<in> set ?snapshots"
    by (rule last_entry_retained [OF e(1)])
      (use newer(1) ok(2) e(2) retained_surviving in \<open>fastforce simp: entries_ok_def list_all_iff\<close>)+
  then have "(k, ?record) \<in> set (keyedResults s')"
    unfolding s' by (intro newest_kept) (use newer(2) e(3) in force)+
  moreover have "distinct (map fst (keyedResults s'))"
    unfolding s'
    by (rule distinct_prune) (use ok(1) fresh in \<open>auto simp: drift_ok_def map_of_eq_None_iff\<close>)
  ultimately show "map_of (keyedResults s') k = Some ?record" by simp
qed

text \<open>The ids of the lists that were asked for.\<close>

lemma captured_ids:
  assumes "faithful_lists env" "getListsForDrift env options = (rs, Inr ls)" "\<not> all_scope options"
    and "\<forall>i \<in> set (the (do_listIds options)). 0 < i"
  shows "set (map sn_listId (List.map_filter (captured_entry cap key) ls)) = set (the (do_listIds options))"
proof -
  have "map rl_id ls = map Some (first_occurrences (the (do_listIds options)))"
    using assms(2,3) by (intro fetch_lists_ids [OF assms(1)]) (simp add: getListsForDrift_def)
  from arg_cong [where f = set, OF this]
  have img: "rl_id ` set ls = Some ` set (the (do_listIds options))" by simp
  have ids: "\<And>l. l \<in> set ls \<Longrightarrow> \<exists>i \<in> set (the (do_listIds options)). rl_id l = Some i"
    "\<And>i. i \<in> set (the (do_listIds options)) \<Longrightarrow> \<exists>l \<in> set ls. rl_id l = Some i"
    using img by (blast, metis (no_types) imageE imageI)
  have "i \<in> sn_listId ` set (List.map_filter (captured_entry cap key) ls)"
    if i: "i \<in> set (the (do_listIds options))" for i
  proof -
    obtain l where l: "l \<in> set ls" "rl_id l = Some i" using ids(2) [OF i] by blast
    then obtain e where "captured_entry cap key l = Some e" "sn_listId e = i"
      using assms(4) i by (simp add: captured_entry_def)
    then show ?thesis using l(1) by (force simp: in_map_filter)
  qed
  moreover have "sn_listId e \<in> set (the (do_listIds options))"
    if "e \<in> set (List.map_filter (captured_entry cap key) ls)" for e
    using that ids(1) captured_entry_simps(3) by (fastforce simp: in_map_filter)
  ultimately show ?thesis by auto
qed

text \<open>A keyed sample replays.  When a keyed run captured some list and its clock
  is not behind the times in the store, repeating its request on the store it
  left returns the same times, comparisons and alerts, replaces nothing, issues
  no request and leaves any store as it is, whatever Listmonk would report by
  then.\<close>

theorem keyed_sample_replays:
  assumes "drift_ok date_parse s" and "faithful_run date_parse x"
    and "do_sampleKey (run_options x) = Some k"
    and "case do_listIds (run_options x) of Some ids \<Rightarrow> list_all (\<lambda>i. 0 < i) ids | None \<Rightarrow> True"
    and "list_all (\<lambda>e. sn_capturedAt e \<le> de_capturedAt (run_env x) \<and>
           collate (sn_capturedAt e) \<le> collate (de_capturedAt (run_env x))) (snapshots s)"
    and "list_all (\<lambda>p. collate (sd_capturedAt (snd p)) < collate (de_capturedAt (run_env x))) (keyedResults s)"
    and "map_of (keyedResults (run_seen x)) (trim k) = None"
    and "drift_step collate date_parse x s = (s', requests, Inr r)" and "dr_comparisons r \<noteq> []"
  shows "drift_step collate date_parse (x\<lparr>run_env := env', run_seen := s'\<rparr>) s'' =
    (s'', [], Inr (r\<lparr>dr_replaced := 0\<rparr>))"
proof -
  let ?options = "run_options x" and ?cap = "de_capturedAt (run_env x)"
  let ?settings = "drift_settings_of ?options"
  obtain cutoff rs ls where ls: "getListsForDrift (run_env x) ?options = (rs, Inr ls)" and key: "valid_sample_key k"
    and commit: "commit_drift collate date_parse ?options (Some (trim k)) ?cap cutoff
      (List.map_filter (captured_entry ?cap (Some (trim k))) ls) s = Inr (s', r)"
    using assms(3,7,8)
    by (auto simp: drift_step_def runSegmentDriftSnapshot_def Let_def split: sum.splits prod.splits if_splits)
  let ?es = "List.map_filter (captured_entry ?cap (Some (trim k))) ls"
  have "\<exists>stored. map_of (keyedResults s') (trim k) = Some stored \<and>
      storedRequestMatches stored ?options ?settings \<and> replayStoredResult stored ?settings = r\<lparr>dr_replaced := 0\<rparr>"
  proof (cases "map_of (keyedResults s) (trim k)")
    case (Some stored)
    with commit show ?thesis
      by (auto simp: commit_drift_def Let_def replayStoredResult_def split: if_splits)
  next
    case None
    have es: "entries_ok date_parse ?cap (Some (trim k)) ?es"
      using assms(2) ls key by (intro captured_entries_ok) (auto simp: faithful_run_def intro: trimmed_key_valid)
    have "?es \<noteq> []"
      using assms(9) commit None by (auto simp: commit_drift_def Let_def)
    note recorded = capture_recorded [OF assms(1) es this _ _ commit None]
    have stored: "map_of (keyedResults s') (trim k) =
        Some \<lparr>sd_scope = (if all_scope ?options then AllLists else SomeLists),
          sd_listIds = sort (remdups (map sn_listId ?es)), sd_capturedAt = ?cap, sd_settings = ?settings,
          sd_comparisons = dr_comparisons r, sd_alerts = dr_alerts r\<rparr>"
      "dr_capturedAt r = ?cap" "dr_threshold r = ds_threshold ?settings"
      "dr_minAbsoluteChange r = ds_minAbsoluteChange ?settings"
      using recorded assms(5,6) by (auto simp: list_all_iff)
    have "\<not> all_scope ?options \<Longrightarrow>
        normalizedListIdSet (the (do_listIds ?options)) = normalizedListIdSet (sort (remdups (map sn_listId ?es)))"
      using captured_ids [OF _ ls] assms(2,4)
      by (intro normalized_cong) (auto simp: faithful_run_def all_scope_def list_all_iff split: option.splits)
    with stored show ?thesis
      by (simp add: storedRequestMatches_def replayStoredResult_def)
  qed
  then show ?thesis
    using assms(3) key by (auto simp: drift_step_def runSegmentDriftSnapshot_def Let_def)
qed

subsection \<open>Examples\<close>

definition example_env :: "string \<Rightarrow> rat \<Rightarrow> drift_env" where
  "example_env cap size_now =
     \<lparr>de_capturedAt = cap, de_now = 0,
      de_getList = (\<lambda>i. Inr \<lparr>rl_id = Some i, rl_name = ''news'', rl_subscriber_count = size_now\<rparr>),
      de_lists = Inl ''unavailable''\<rparr>"

definition example_run :: "string \<Rightarrow> rat \<Rightarrow> drift_store \<Rightarrow> drift_run" where
  "example_run cap size_now seen =
     \<lparr>run_env = example_env cap size_now,
      run_options = \<lparr>do_listIds = Some [7], do_threshold = Some 1, do_minAbsoluteChange = Some 10,
        do_lookbackDays = None, do_baselineMode = None, do_sampleKey = Some ''week''\<rparr>,
      run_seen = seen\<rparr>"

abbreviation empty_drift :: drift_store where
  "empty_drift \<equiv> \<lparr>snapshots = [], keyedResults = []\<rparr>"

definition year_of :: "string \<Rightarrow> instant option" where
  "year_of s = Some (int (nat_value (take 4 s)))"

lemma example_faithful: "faithful_run year_of (example_run cap size_now seen)"
  by (simp add: faithful_run_def faithful_lists_def example_run_def example_env_def year_of_def)

theorem drift_document_history_witness:
  "length (keyedResults (history (drift_step id year_of)
      [example_run ''2026-01-01'' 100 empty_drift, example_run ''2026-01-08'' 90 empty_drift] empty_drift)) \<le> 100"
  using drift_document_history [of year_of
      "[example_run ''2026-01-01'' 100 empty_drift, example_run ''2026-01-08'' 90 empty_drift]" id]
  by (simp add: example_faithful Let_def)

definition example_record :: stored_drift where
  "example_record =
     \<lparr>sd_scope = SomeLists, sd_listIds = [7], sd_capturedAt = ''2026-01-01'',
      sd_settings = drift_settings_of (run_options (example_run ''2026-01-01'' 100 empty_drift)),
      sd_comparisons = [], sd_alerts = []\<rparr>"

definition example_drift_store :: drift_store where
  "example_drift_store =
     \<lparr>snapshots = [\<lparr>sn_capturedAt = ''2026-01-01'', sn_listId = 7, sn_listName = ''news'', sn_count = 100,
        sn_sampleKey = Some ''week''\<rparr>],
      keyedResults = [(''week'', example_record)]\<rparr>"

lemma trim_week: "trim ''week'' = ''week''" by code_simp

theorem committed_sample_final_witness:
  "drift_step id year_of (example_run ''2026-01-08'' 90 empty_drift) example_drift_store =
     (example_drift_store, [Some 7],
      Inr \<lparr>dr_capturedAt = ''2026-01-01'', dr_threshold = 1, dr_minAbsoluteChange = 10, dr_replaced = 0,
           dr_comparisons = [], dr_alerts = []\<rparr>)"
proof -
  have "drift_ok year_of example_drift_store"
    by (simp add: drift_ok_def example_drift_store_def valid_snapshot_def valid_stored_def example_record_def
        year_of_def MAX_SEGMENT_SNAPSHOTS_PER_LIST_def MAX_STORED_KEYED_RESULTS_def valid_sample_key_def trim_week)
  from committed_sample_final [OF this, of "''week''" example_record "example_run ''2026-01-08'' 90 empty_drift" id]
  show ?thesis
    by (simp add: example_drift_store_def example_run_def trim_week committed_answer_def example_record_def
        example_env_def getListsForDrift_def all_scope_def drift_settings_of_def split: prod.splits)
qed

theorem keyed_sample_replays_witness:
  "\<exists>s' r. drift_step id year_of (example_run ''2026-01-01'' 100 empty_drift) empty_drift = (s', [Some 7], Inr r) \<and>
     drift_step id year_of ((example_run ''2026-01-01'' 100 empty_drift)
        \<lparr>run_env := example_env ''2026-01-02'' 90, run_seen := s'\<rparr>) s' = (s', [], Inr (r\<lparr>dr_replaced := 0\<rparr>))"
proof -
  let ?x = "example_run ''2026-01-01'' 100 empty_drift"
  obtain s' r where first: "drift_step id year_of ?x empty_drift = (s', [Some 7], Inr r)" "dr_comparisons r \<noteq> []"
    by (simp add: drift_step_def runSegmentDriftSnapshot_def example_run_def example_env_def Let_def commit_drift_def
        getListsForDrift_def all_scope_def captured_entry_def valid_sample_key_def trim_week map_filter_simps)
  have "drift_step id year_of (?x\<lparr>run_env := example_env ''2026-01-02'' 90, run_seen := s'\<rparr>) s' =
      (s', [], Inr (r\<lparr>dr_replaced := 0\<rparr>))"
    by (rule keyed_sample_replays [of year_of empty_drift ?x "''week''" id, OF _ example_faithful _ _ _ _ _ first])
      (simp_all add: drift_ok_def example_run_def)
  with first(1) show ?thesis by blast
qed

end
