(* ===== verification/Template_Registry.thy ===== *)
theory Template_Registry
  imports Automation_Core Stable_Json
begin

section \<open>The template registry\<close>

text \<open>
  \<open>template-registry.ts\<close>: versions of templates captured from Listmonk, and the
  promotion of a recorded version.  \<open>sha\<close> stands for the hexadecimal SHA-256,
  \<open>collate\<close> for the collation key that \<open>localeCompare\<close> compares and \<open>date_parse\<close>
  for \<open>Date.parse\<close>.  A sync fetches before it takes the lock of the store; a
  promotion holds the lock while it updates Listmonk.  A template as Listmonk
  reports it has empty texts for absent ones.
\<close>

subsection \<open>Data\<close>

record tpl_snapshot =
  ts_id :: int
  ts_name :: string
  ts_type :: string
  ts_subject :: string
  ts_body :: string
  ts_bodySource :: "string option"

record tpl_version =
  versionId :: string
  tv_capturedAt :: string
  tv_hash :: string
  tv_note :: "string option"
  tv_snapshot :: tpl_snapshot

record tpl_record =
  tr_templateId :: int
  tr_templateName :: string
  activeVersionId :: "string option"
  versions :: "tpl_version list"

text \<open>The \<open>templates\<close> of the store: the property \<open>String(id)\<close> and its record.\<close>

type_synonym tpl_store = "(string \<times> tpl_record) list"

record remote_template =
  rt_id :: "int option"
  rt_name :: string
  rt_type :: string
  rt_subject :: string
  rt_body :: string
  rt_body_source :: string

datatype tpl_error =
    ListTemplatesFailed string
  | FetchFailed string
  | NoHistory
  | VersionNotFound string
  | RemoteHashMismatch
  | PromoteFailed string
  | RollbackNeedsTwoVersions
  | NoPreviousVersion
  | RollbackTargetMoved string
  | SaveFailed
  | WriteTransactionError

datatype tpl_request = ListTemplates | GetTemplate int | UpdateTemplate int tpl_snapshot

subsection \<open>Parsing the store\<close>

definition isTemplateRegistryVersion :: "(string \<Rightarrow> instant option) \<Rightarrow> tpl_version \<Rightarrow> bool" where
  "isTemplateRegistryVersion date_parse v =
     (date_parse (tv_capturedAt v) \<noteq> None \<and> 0 < ts_id (tv_snapshot v))"

definition isTemplateRegistryRecord :: "(string \<Rightarrow> instant option) \<Rightarrow> tpl_record \<Rightarrow> bool" where
  "isTemplateRegistryRecord date_parse r =
     (0 < tr_templateId r \<and> versions r \<noteq> [] \<and> list_all (isTemplateRegistryVersion date_parse) (versions r))"

text \<open>The parser on a document of the right types: the property of the first bad record, or the store.\<close>

definition parseTemplateRegistryStore :: "(string \<Rightarrow> instant option) \<Rightarrow> tpl_store \<Rightarrow> string + tpl_store" where
  "parseTemplateRegistryStore date_parse s =
     (case List.find (\<lambda>p. \<not> isTemplateRegistryRecord date_parse (snd p)) s of
        Some p \<Rightarrow> Inl (fst p)
      | None \<Rightarrow> Inr s)"

subsection \<open>Snapshots\<close>

definition opt_text :: "string \<Rightarrow> string option" where
  "opt_text s = (if s = [] then None else Some s)"

definition text_or :: "string \<Rightarrow> string \<Rightarrow> string" where
  "text_or s d = (if s = [] then d else s)"

definition createTemplateSnapshot :: "remote_template \<Rightarrow> int \<Rightarrow> tpl_snapshot" where
  "createTemplateSnapshot t fallbackId =
     \<lparr>ts_id = (case toPositiveInt (rt_id t) of Some i \<Rightarrow> i | None \<Rightarrow> fallbackId),
      ts_name = text_or (rt_name t) (''Template '' @ int_text fallbackId),
      ts_type = text_or (rt_type t) ''campaign'',
      ts_subject = rt_subject t, ts_body = rt_body t,
      ts_bodySource = opt_text (rt_body_source t)\<rparr>"

definition createTemplateHash :: "(string \<Rightarrow> string) \<Rightarrow> tpl_snapshot \<Rightarrow> string" where
  "createTemplateHash sha s =
     sha (JSON_stringify (JObj
       [(''name'', JStr (ts_name s)), (''type'', JStr (ts_type s)), (''subject'', JStr (ts_subject s)),
        (''body'', JStr (ts_body s)),
        (''bodySource'', JStr (case ts_bodySource s of None \<Rightarrow> [] | Some b \<Rightarrow> b))]))"

subsection \<open>Capturing\<close>

record tpl_client =
  tc_list :: "string + remote_template list"
  tc_get :: "int \<Rightarrow> string + remote_template"
  tc_update :: "int \<Rightarrow> tpl_snapshot \<Rightarrow> string + unit"

definition getTemplateIds :: "tpl_client \<Rightarrow> int list option \<Rightarrow> tpl_request list \<times> (tpl_error + int list)" where
  "getTemplateIds client ids =
     (if ids \<noteq> None \<and> ids \<noteq> Some [] then ([], Inr (the ids))
      else ([ListTemplates],
            case tc_list client of
              Inl e \<Rightarrow> Inl (ListTemplatesFailed e)
            | Inr ts \<Rightarrow> Inr (List.map_filter (\<lambda>t. toPositiveInt (rt_id t)) ts)))"

record tpl_captured =
  tp_templateId :: int
  tp_snapshot :: tpl_snapshot
  tp_hash :: string

record tpl_capture =
  tk_capturedAt :: string
  tk_versions :: "tpl_captured list"
  tk_errors :: "string list"

definition capture_one :: "(string \<Rightarrow> string) \<Rightarrow> tpl_client \<Rightarrow> int \<Rightarrow> tpl_captured option" where
  "capture_one sha client i =
     (case tc_get client i of
        Inl _ \<Rightarrow> None
      | Inr t \<Rightarrow> let s = createTemplateSnapshot t i
                 in Some \<lparr>tp_templateId = i, tp_snapshot = s, tp_hash = createTemplateHash sha s\<rparr>)"

definition captureTemplateRegistry ::
  "(string \<Rightarrow> string) \<Rightarrow> tpl_client \<Rightarrow> string \<Rightarrow> int list option \<Rightarrow> tpl_request list \<times> (tpl_error + tpl_capture)" where
  "captureTemplateRegistry sha client capturedAt ids =
     (case getTemplateIds client ids of
        (rs, Inl e) \<Rightarrow> (rs, Inl e)
      | (rs, Inr is) \<Rightarrow>
          (rs @ map GetTemplate is,
           Inr \<lparr>tk_capturedAt = capturedAt,
                tk_versions = List.map_filter (capture_one sha client) is,
                tk_errors = map (\<lambda>i. ''Template '' @ int_text i @ '': capture failed'')
                              (filter (\<lambda>i. capture_one sha client i = None) is)\<rparr>))"

subsection \<open>Merging a capture\<close>

definition sort_versions :: "(string \<Rightarrow> string) \<Rightarrow> tpl_version list \<Rightarrow> tpl_version list" where
  "sort_versions collate vs = sort_key (\<lambda>v. (collate (tv_capturedAt v), collate (versionId v))) vs"

record sync_entry =
  se_templateId :: int
  se_templateName :: string
  se_versionId :: string
  se_changed :: bool
  se_hash :: string

definition new_version_id :: "string \<Rightarrow> string \<Rightarrow> string" where
  "new_version_id capturedAt hash = ''v_'' @ capturedAt @ ''_'' @ take 10 hash"

text \<open>One captured template: the record afterwards and its entry in the result.\<close>

definition merge_record ::
  "(string \<Rightarrow> string) \<Rightarrow> string option \<Rightarrow> string \<Rightarrow> tpl_captured \<Rightarrow> tpl_record option \<Rightarrow> tpl_record \<times> sync_entry" where
  "merge_record collate note capturedAt c existing =
     (let r = (case existing of
                 Some r \<Rightarrow> r
               | None \<Rightarrow> \<lparr>tr_templateId = tp_templateId c, tr_templateName = ts_name (tp_snapshot c),
                          activeVersionId = None, versions = []\<rparr>);
          sorted_versions = sort_versions collate (versions r);
          r1 = r\<lparr>versions := sorted_versions\<rparr>;
          entry = (\<lambda>changed i. \<lparr>se_templateId = tp_templateId c, se_templateName = ts_name (tp_snapshot c),
                                se_versionId = i, se_changed = changed, se_hash = tp_hash c\<rparr>);
          i = new_version_id capturedAt (tp_hash c)
      in if sorted_versions \<noteq> [] \<and> tv_hash (last sorted_versions) = tp_hash c
         then (r1, entry False (versionId (last sorted_versions)))
         else if list_ex (\<lambda>v. versionId v = i) sorted_versions then (r1, entry False i)
         else
           let vs = sort_versions collate
                      (sorted_versions @ [\<lparr>versionId = i, tv_capturedAt = capturedAt, tv_hash = tp_hash c,
                                           tv_note = note, tv_snapshot = tp_snapshot c\<rparr>])
           in (r1\<lparr>versions := vs, tr_templateName := ts_name (tv_snapshot (last vs)),
                  activeVersionId := (if activeVersionId r \<in> {None, Some []} then Some (versionId (last vs))
                                      else activeVersionId r)\<rparr>,
               entry True i))"

fun mergeTemplateRegistryCapture ::
  "(string \<Rightarrow> string) \<Rightarrow> string option \<Rightarrow> string \<Rightarrow> tpl_captured list \<Rightarrow> tpl_store \<Rightarrow> tpl_store \<times> sync_entry list" where
  "mergeTemplateRegistryCapture collate note capturedAt [] s = (s, [])"
| "mergeTemplateRegistryCapture collate note capturedAt (c # cs) s =
     (let (r, e) = merge_record collate note capturedAt c (map_of s (int_text (tp_templateId c)));
          (s', es) = mergeTemplateRegistryCapture collate note capturedAt cs
                       (AList.update (int_text (tp_templateId c)) r s)
      in (s', e # es))"

record sync_result =
  sy_capturedAt :: string
  sy_createdVersions :: nat
  sy_unchangedTemplates :: nat
  sy_errors :: "string list"
  sy_templates :: "sync_entry list"

text \<open>
  How a transaction on the store ends once its callback has returned: the document is
  written and the lock released, or the document fails validation or cannot be
  written, or it is written and then the lock cannot be released, which also fails the
  operation.  A transaction whose lock or document cannot be had does nothing at all and
  is not a case.
\<close>

datatype saving = Saved | Unwritten | Unreleased

definition syncTemplateRegistry ::
  "(string \<Rightarrow> string) \<Rightarrow> (string \<Rightarrow> string) \<Rightarrow> tpl_client \<Rightarrow> string \<Rightarrow> int list option \<Rightarrow> string option \<Rightarrow> saving \<Rightarrow>
     tpl_store \<Rightarrow> tpl_store \<times> tpl_request list \<times> (tpl_error + sync_result)" where
  "syncTemplateRegistry sha collate client capturedAt ids note saving s =
     (case captureTemplateRegistry sha client capturedAt ids of
        (rs, Inl e) \<Rightarrow> (s, rs, Inl e)
      | (rs, Inr capture) \<Rightarrow>
          (case mergeTemplateRegistryCapture collate note (tk_capturedAt capture) (tk_versions capture) s of
             (s', es) \<Rightarrow>
               (case saving of
                  Saved \<Rightarrow> (s', rs, Inr \<lparr>sy_capturedAt = tk_capturedAt capture,
                                        sy_createdVersions = length (filter se_changed es),
                                        sy_unchangedTemplates = length (filter (\<lambda>e. \<not> se_changed e) es),
                                        sy_errors = tk_errors capture, sy_templates = es\<rparr>)
                | Unwritten \<Rightarrow> (s, rs, Inl SaveFailed)
                | Unreleased \<Rightarrow> (s', rs, Inl SaveFailed))))"

definition getTemplateRegistryHistory :: "int \<Rightarrow> tpl_store \<Rightarrow> tpl_error + tpl_record" where
  "getTemplateRegistryHistory i s =
     (case map_of s (int_text i) of None \<Rightarrow> Inl NoHistory | Some r \<Rightarrow> Inr r)"

subsection \<open>Promotion and rollback\<close>

record promote_result =
  pr_templateName :: string
  pr_versionId :: string
  pr_rolledBack :: bool

text \<open>An action on the store: the store and the requests so far, and the outcome.\<close>

type_synonym tpl_action = "tpl_store \<times> tpl_request list \<times> (tpl_error + promote_result)"

definition promoteTemplateVersionInStore :: "tpl_client \<Rightarrow> int \<Rightarrow> string \<Rightarrow> tpl_store \<Rightarrow> tpl_action" where
  "promoteTemplateVersionInStore client i version s =
     (case map_of s (int_text i) of
        None \<Rightarrow> (s, [], Inl NoHistory)
      | Some r \<Rightarrow>
          (case List.find (\<lambda>v. versionId v = version) (versions r) of
             None \<Rightarrow> (s, [], Inl (VersionNotFound version))
           | Some v \<Rightarrow>
               (case tc_update client i (tv_snapshot v) of
                  Inl e \<Rightarrow> (s, [UpdateTemplate i (tv_snapshot v)], Inl (PromoteFailed e))
                | Inr _ \<Rightarrow>
                    (AList.update (int_text i) (r\<lparr>activeVersionId := Some version\<rparr>) s,
                     [UpdateTemplate i (tv_snapshot v)],
                     Inr \<lparr>pr_templateName = tr_templateName r, pr_versionId = version, pr_rolledBack = True\<rparr>))))"

text \<open>
  The transaction: the store is written only if the action returned, and a failure after
  that is reported as one that leaves the registry to be inspected.
\<close>

definition commitRemoteTemplateMutation :: "saving \<Rightarrow> (tpl_store \<Rightarrow> tpl_action) \<Rightarrow> tpl_store \<Rightarrow> tpl_action" where
  "commitRemoteTemplateMutation saving action s =
     (case action s of
        (s', rs, Inl e) \<Rightarrow> (s, rs, Inl e)
      | (s', rs, Inr r) \<Rightarrow>
          (case saving of
             Saved \<Rightarrow> (s', rs, Inr r)
           | Unwritten \<Rightarrow> (s, rs, Inl WriteTransactionError)
           | Unreleased \<Rightarrow> (s', rs, Inl WriteTransactionError)))"

text \<open>The hash of the remote template as the promotion computes it: without the fallback name.\<close>

definition remote_hash :: "(string \<Rightarrow> string) \<Rightarrow> remote_template \<Rightarrow> int \<Rightarrow> string" where
  "remote_hash sha t i =
     createTemplateHash sha
       \<lparr>ts_id = (case toPositiveInt (rt_id t) of Some j \<Rightarrow> j | None \<Rightarrow> i), ts_name = rt_name t,
        ts_type = text_or (rt_type t) ''campaign'', ts_subject = rt_subject t, ts_body = rt_body t,
        ts_bodySource = opt_text (rt_body_source t)\<rparr>"

definition promoteTemplateVersion ::
  "(string \<Rightarrow> string) \<Rightarrow> tpl_client \<Rightarrow> int \<Rightarrow> string \<Rightarrow> string option \<Rightarrow> bool \<Rightarrow> saving \<Rightarrow> tpl_store \<Rightarrow> tpl_action" where
  "promoteTemplateVersion sha client i version expectedRemoteHash force saving s =
     commitRemoteTemplateMutation saving
       (\<lambda>s. if \<not> force \<and> expectedRemoteHash \<notin> {None, Some []} then
              (case tc_get client i of
                 Inl e \<Rightarrow> (s, [GetTemplate i], Inl (FetchFailed e))
               | Inr t \<Rightarrow>
                   if Some (remote_hash sha t i) \<noteq> expectedRemoteHash
                   then (s, [GetTemplate i], Inl RemoteHashMismatch)
                   else (case promoteTemplateVersionInStore client i version s of
                           (s', rs, r) \<Rightarrow> (s', GetTemplate i # rs, r)))
            else promoteTemplateVersionInStore client i version s) s"

definition rollbackTemplateVersion ::
  "tpl_client \<Rightarrow> int \<Rightarrow> string option \<Rightarrow> saving \<Rightarrow> tpl_store \<Rightarrow> tpl_action" where
  "rollbackTemplateVersion client i toVersionId saving s =
     commitRemoteTemplateMutation saving
       (\<lambda>s. case map_of s (int_text i) of
              None \<Rightarrow> (s, [], Inl RollbackNeedsTwoVersions)
            | Some r \<Rightarrow>
                if length (versions r) < 2 then (s, [], Inl RollbackNeedsTwoVersions)
                else if toVersionId \<noteq> None \<and> activeVersionId r = toVersionId
                then (s, [], Inr \<lparr>pr_templateName = tr_templateName r, pr_versionId = the toVersionId,
                                  pr_rolledBack = False\<rparr>)
                else
                  (case (if activeVersionId r \<in> {None, Some []} then None
                         else findIndex (\<lambda>v. Some (versionId v) = activeVersionId r) (versions r)) of
                     Some (Suc k) \<Rightarrow>
                       if toVersionId \<noteq> None \<and> Some (versionId (versions r ! k)) \<noteq> toVersionId
                       then (s, [], Inl (RollbackTargetMoved (the toVersionId)))
                       else promoteTemplateVersionInStore client i (versionId (versions r ! k)) s
                   | _ \<Rightarrow> (s, [], Inl NoPreviousVersion))) s"

text \<open>
  The operations on the store.  What a sync captures does not depend on the
  store, so its fetches and its transaction are one step even if others come
  between: its client and time are those of the capture.
\<close>

datatype tpl_op =
    TplSync tpl_client string "int list option" "string option" saving
  | TplPromote tpl_client int string "string option" bool saving
  | TplRollback tpl_client int "string option" saving

fun tpl_step :: "(string \<Rightarrow> string) \<Rightarrow> (string \<Rightarrow> string) \<Rightarrow> tpl_op \<Rightarrow> tpl_store \<Rightarrow> tpl_store \<times> tpl_error option" where
  "tpl_step sha collate (TplSync client capturedAt ids note saving) s =
     (case syncTemplateRegistry sha collate client capturedAt ids note saving s of
        (s', rs, r) \<Rightarrow> (s', case r of Inl e \<Rightarrow> Some e | Inr _ \<Rightarrow> None))"
| "tpl_step sha collate (TplPromote client i version expected force saving) s =
     (case promoteTemplateVersion sha client i version expected force saving s of
        (s', rs, r) \<Rightarrow> (s', case r of Inl e \<Rightarrow> Some e | Inr _ \<Rightarrow> None))"
| "tpl_step sha collate (TplRollback client i target saving) s =
     (case rollbackTemplateVersion client i target saving s of
        (s', rs, r) \<Rightarrow> (s', case r of Inl e \<Rightarrow> Some e | Inr _ \<Rightarrow> None))"

end
