(* ===== verification/Template_Properties.thy ===== *)
theory Template_Properties
  imports Template_Registry Lifecycle_Properties
begin

section \<open>Properties of the template registry\<close>

text \<open>
  The invariant of the registry's document over any history (an interpretation
  of \<open>op_system\<close>), that versions are never lost, and what a promotion leaves in
  the store and in Listmonk.
\<close>

subsection \<open>The invariant\<close>

definition version_key :: "(string \<Rightarrow> string) \<Rightarrow> tpl_version \<Rightarrow> string \<times> string" where
  "version_key collate v = (collate (tv_capturedAt v), collate (versionId v))"

definition record_ok ::
  "(string \<Rightarrow> string) \<Rightarrow> (string \<Rightarrow> string) \<Rightarrow> (string \<Rightarrow> instant option) \<Rightarrow> tpl_record \<Rightarrow> bool" where
  "record_ok sha collate date_parse r =
     (isTemplateRegistryRecord date_parse r \<and>
      sorted (map (version_key collate) (versions r)) \<and>
      distinct (map versionId (versions r)) \<and>
      (\<exists>v \<in> set (versions r). activeVersionId r = Some (versionId v)) \<and>
      list_all (\<lambda>v. tv_hash v = createTemplateHash sha (tv_snapshot v)) (versions r))"

definition registry_ok ::
  "(string \<Rightarrow> string) \<Rightarrow> (string \<Rightarrow> string) \<Rightarrow> (string \<Rightarrow> instant option) \<Rightarrow> tpl_store \<Rightarrow> bool" where
  "registry_ok sha collate date_parse s =
     (distinct (map fst s) \<and>
      list_all (\<lambda>p. fst p = int_text (tr_templateId (snd p)) \<and> record_ok sha collate date_parse (snd p)) s)"

lemma sort_versions_alt: "sort_versions collate = sort_key (version_key collate)"
  by (rule ext) (simp add: sort_versions_def version_key_def [abs_def])

lemma sort_versions_ok:
  "set (sort_versions collate vs) = set vs"
  "sorted (map (version_key collate) (sort_versions collate vs))"
  "distinct (map versionId (sort_versions collate vs)) = distinct (map versionId vs)"
  "sort_versions collate vs = [] \<longleftrightarrow> vs = []"
  by (auto simp: sort_versions_alt distinct_map) (metis length_0_conv length_sort)

lemma sort_versions_sorted:
  "sorted (map (version_key collate) vs) \<Longrightarrow> sort_versions collate vs = vs"
  by (simp add: sort_versions_alt sorted_sort_id sort_key_id_if_sorted)

lemma in_set_update: "p \<in> set (AList.update k v ps) \<Longrightarrow> p = (k, v) \<or> p \<in> set ps"
  by (induction ps) (auto split: if_splits)

lemma registry_update:
  assumes "registry_ok sha collate date_parse s" "record_ok sha collate date_parse r"
  shows "registry_ok sha collate date_parse (AList.update (int_text (tr_templateId r)) r s)"
  using assms by (auto simp: registry_ok_def list_all_iff distinct_update dest!: in_set_update)

text \<open>What a sync merges is a capture of templates at a valid time.\<close>

definition captured_ok :: "(string \<Rightarrow> string) \<Rightarrow> tpl_captured \<Rightarrow> bool" where
  "captured_ok sha c = (0 < tp_templateId c \<and> 0 < ts_id (tp_snapshot c) \<and> tp_hash c = createTemplateHash sha (tp_snapshot c))"

lemma toPositiveInt_pos: "toPositiveInt x = Some i \<Longrightarrow> 0 < i"
  by (cases x) (auto split: if_splits)

lemma capture_one_ok: "capture_one sha client i = Some c \<Longrightarrow> 0 < i \<Longrightarrow> captured_ok sha c \<and> tp_templateId c = i"
  by (auto simp: capture_one_def captured_ok_def createTemplateSnapshot_def Let_def
      split: sum.splits option.splits dest: toPositiveInt_pos)

lemma in_map_filter': "e \<in> set (List.map_filter f xs) \<longleftrightarrow> (\<exists>x \<in> set xs. f x = Some e)"
  by (force simp: List.map_filter_def)

lemma capture_ok:
  assumes "captureTemplateRegistry sha client capturedAt ids = (rs, Inr capture)"
    and "case ids of Some is \<Rightarrow> list_all (\<lambda>i. 0 < i) is | None \<Rightarrow> True"
  shows "list_all (captured_ok sha) (tk_versions capture)" "tk_capturedAt capture = capturedAt"
proof -
  obtain rs' "is" where "is": "getTemplateIds client ids = (rs', Inr is)"
    and capture: "tk_versions capture = List.map_filter (capture_one sha client) is" "tk_capturedAt capture = capturedAt"
    using assms(1) by (auto simp: captureTemplateRegistry_def split: sum.splits prod.splits)
  have "\<forall>i \<in> set is. 0 < i"
    using "is" assms(2)
    by (auto simp: getTemplateIds_def in_map_filter' list_all_iff split: sum.splits if_splits option.splits
        dest: toPositiveInt_pos)
  then show "list_all (captured_ok sha) (tk_versions capture)"
    using capture_one_ok by (fastforce simp: capture list_all_iff in_map_filter')
  show "tk_capturedAt capture = capturedAt" by (rule capture(2))
qed

lemma record_ok_insert:
  assumes "record_ok sha collate date_parse r" "isTemplateRegistryVersion date_parse v"
    and "tv_hash v = createTemplateHash sha (tv_snapshot v)" "versionId v \<notin> versionId ` set (versions r)"
    and "\<exists>w \<in> set (versions r @ [v]). a = Some (versionId w)"
  shows "record_ok sha collate date_parse
    (r\<lparr>versions := sort_versions collate (versions r @ [v]), tr_templateName := n, activeVersionId := a\<rparr>)"
  using assms sort_versions_ok [of collate "versions r @ [v]"]
  by (simp add: record_ok_def isTemplateRegistryRecord_def list_all_iff)

lemma merge_record_ok:
  assumes "captured_ok sha c" "date_parse cap \<noteq> None"
    and "\<And>r. existing = Some r \<Longrightarrow> record_ok sha collate date_parse r \<and> tr_templateId r = tp_templateId c"
  shows "record_ok sha collate date_parse (fst (merge_record collate note cap c existing)) \<and>
    tr_templateId (fst (merge_record collate note cap c existing)) = tp_templateId c"
proof (cases existing)
  case None
  then show ?thesis
    using assms(1,2)
    by (simp add: merge_record_def Let_def record_ok_def sort_versions_def isTemplateRegistryRecord_def
        isTemplateRegistryVersion_def captured_ok_def)
next
  case (Some r)
  note ok = assms(3) [OF Some]
  have id: "sort_versions collate (versions r) = versions r"
    using ok by (simp add: record_ok_def sort_versions_sorted)
  let ?new = "\<lparr>versionId = new_version_id cap (tp_hash c), tv_capturedAt = cap, tv_hash = tp_hash c,
    tv_note = note, tv_snapshot = tp_snapshot c\<rparr>"
  let ?vs = "sort_versions collate (versions r @ [?new])"
  show ?thesis
  proof (cases "versions r \<noteq> [] \<and> tv_hash (last (versions r)) = tp_hash c \<or>
      list_ex (\<lambda>v. versionId v = new_version_id cap (tp_hash c)) (versions r)")
    case True
    then have "fst (merge_record collate note cap c existing) = r"
      by (auto simp: merge_record_def Let_def Some id)
    then show ?thesis using ok by simp
  next
    case False
    let ?a = "if activeVersionId r \<in> {None, Some []} then Some (versionId (last ?vs)) else activeVersionId r"
    have "?vs \<noteq> []" by (simp add: sort_versions_ok)
    then have "last ?vs \<in> set (versions r @ [?new])" by (metis last_in_set sort_versions_ok(1))
    then have "\<exists>v \<in> set (versions r @ [?new]). ?a = Some (versionId v)"
      using ok by (auto simp: record_ok_def)
    then have "record_ok sha collate date_parse
        (r\<lparr>versions := ?vs, tr_templateName := ts_name (tv_snapshot (last ?vs)), activeVersionId := ?a\<rparr>)"
      using ok False assms(1,2)
      by (intro record_ok_insert)
        (auto simp: list_ex_iff isTemplateRegistryVersion_def captured_ok_def image_iff simp del: not_None_eq)
    moreover have "fst (merge_record collate note cap c existing) =
        r\<lparr>versions := ?vs, tr_templateName := ts_name (tv_snapshot (last ?vs)), activeVersionId := ?a\<rparr>"
      using False by (auto simp: merge_record_def Let_def Some id)
    ultimately show ?thesis using ok by simp
  qed
qed

lemma merge_ok:
  assumes "registry_ok sha collate date_parse s" "list_all (captured_ok sha) cs" "date_parse cap \<noteq> None"
  shows "registry_ok sha collate date_parse (fst (mergeTemplateRegistryCapture collate note cap cs s))"
  using assms(1,2)
proof (induction cs arbitrary: s)
  case (Cons c cs)
  let ?existing = "map_of s (int_text (tp_templateId c))"
  have "record_ok sha collate date_parse r \<and> tr_templateId r = tp_templateId c" if "?existing = Some r" for r
    using Cons.prems map_of_SomeD [OF that] int_text_inj [of "tp_templateId c" "tr_templateId r"]
    by (force simp: registry_ok_def list_all_iff record_ok_def isTemplateRegistryRecord_def captured_ok_def)
  then have "record_ok sha collate date_parse (fst (merge_record collate note cap c ?existing)) \<and>
      tr_templateId (fst (merge_record collate note cap c ?existing)) = tp_templateId c"
    using Cons.prems(2) by (intro merge_record_ok) (auto simp: assms(3) simp del: not_None_eq)
  then have m: "record_ok sha collate date_parse (fst (merge_record collate note cap c ?existing))"
    "tr_templateId (fst (merge_record collate note cap c ?existing)) = tp_templateId c" by simp_all
  have "registry_ok sha collate date_parse
      (AList.update (int_text (tp_templateId c)) (fst (merge_record collate note cap c ?existing)) s)"
    using registry_update [OF Cons.prems(1) m(1)] m(2) by simp
  then show ?case using Cons by (simp add: case_prod_unfold Let_def)
qed simp

text \<open>A promotion only moves the active version to one of the recorded versions.\<close>

lemma promote_ok:
  assumes "registry_ok sha collate date_parse s"
  shows "registry_ok sha collate date_parse (fst (promoteTemplateVersionInStore client i version s))"
proof (cases "map_of s (int_text i)")
  case (Some r)
  show ?thesis
  proof (cases "List.find (\<lambda>v. versionId v = version) (versions r)")
    case (Some v)
    have r: "int_text i = int_text (tr_templateId r)" "record_ok sha collate date_parse r"
      using assms map_of_SomeD [OF \<open>map_of s (int_text i) = Some r\<close>] by (auto simp: registry_ok_def list_all_iff)
    have "record_ok sha collate date_parse (r\<lparr>activeVersionId := Some version\<rparr>)"
      using r(2) find_Some_in [OF Some] by (auto simp: record_ok_def isTemplateRegistryRecord_def)
    from registry_update [OF assms this] show ?thesis
      using assms Some \<open>map_of s (int_text i) = Some r\<close> r(1)
      by (simp add: promoteTemplateVersionInStore_def split: sum.split)
  qed (use assms Some in \<open>simp add: promoteTemplateVersionInStore_def\<close>)
qed (use assms in \<open>simp add: promoteTemplateVersionInStore_def\<close>)

lemma fst_commitRemote:
  "(\<And>s. Q s \<Longrightarrow> Q (fst (action s))) \<Longrightarrow> Q s \<Longrightarrow> Q (fst (commitRemoteTemplateMutation saving action s))"
  by (force simp: commitRemoteTemplateMutation_def split: prod.splits sum.splits saving.splits)

lemma promoteTemplateVersion_ok:
  assumes "registry_ok sha' collate date_parse s"
  shows "registry_ok sha' collate date_parse (fst (promoteTemplateVersion sha client i version expected force saving s))"
  unfolding promoteTemplateVersion_def
  by (rule fst_commitRemote [where Q = "registry_ok sha' collate date_parse", OF _ assms]) (auto intro: promote_ok simp: case_prod_unfold split: sum.splits)

lemma rollbackTemplateVersion_ok:
  assumes "registry_ok sha collate date_parse s"
  shows "registry_ok sha collate date_parse (fst (rollbackTemplateVersion client i target saving s))"
  unfolding rollbackTemplateVersion_def
  by (rule fst_commitRemote [where Q = "registry_ok sha collate date_parse", OF _ assms]) (auto intro: promote_ok split: option.splits nat.splits if_splits)

text \<open>What a sync leaves: the store as it was, or with its capture merged.\<close>

lemma sync_store:
  obtains "fst (syncTemplateRegistry sha collate client cap ids n saving s) = s"
  | rs capture where "captureTemplateRegistry sha client cap ids = (rs, Inr capture)"
      "fst (syncTemplateRegistry sha collate client cap ids n saving s) =
         fst (mergeTemplateRegistryCapture collate n (tk_capturedAt capture) (tk_versions capture) s)"
  by (cases saving; cases "captureTemplateRegistry sha client cap ids"; cases "snd (captureTemplateRegistry sha client cap ids)")
    (auto simp: syncTemplateRegistry_def split: prod.splits)

fun valid_sync :: "(string \<Rightarrow> instant option) \<Rightarrow> tpl_op \<Rightarrow> bool" where
  "valid_sync date_parse (TplSync client cap ids note saving) =
     (date_parse cap \<noteq> None \<and> (case ids of Some is \<Rightarrow> list_all (\<lambda>i. 0 < i) is | None \<Rightarrow> True))"
| "valid_sync date_parse _ = True"

lemma tpl_step_ok:
  assumes "registry_ok sha collate date_parse s" "valid_sync date_parse x"
  shows "registry_ok sha collate date_parse (fst (tpl_step sha collate x s))"
proof (cases x)
  case (TplSync client cap ids n saving)
  have "registry_ok sha collate date_parse (fst (syncTemplateRegistry sha collate client cap ids n saving s))"
  proof (cases rule: sync_store [of sha collate client cap ids n saving s])
    case (2 rs capture)
    then show ?thesis
      using capture_ok [OF 2(1)] assms(2) by (simp add: TplSync 2(2) merge_ok [OF assms(1)])
  qed (use assms(1) in simp)
  then show ?thesis by (simp add: TplSync case_prod_unfold)
qed (use promoteTemplateVersion_ok [OF assms(1)] rollbackTemplateVersion_ok [OF assms(1)] in \<open>simp_all add: case_prod_unfold\<close>)

interpretation registry: op_system "tpl_step sha collate" "registry_ok sha collate date_parse" "\<lambda>x _. valid_sync date_parse x"
  for sha collate date_parse
  by unfold_locales (rule tpl_step_ok)

subsection \<open>Theorems\<close>

text \<open>C18: The template registry stays well-formed.  After any history of syncs,
  promotions and rollbacks from the empty store, with captures that are older
  than what is recorded, updates that fail, documents that cannot be written and
  locks that cannot be released, the store's parser accepts the document, every record is under its template's id, its
  versions are sorted by capture time and have distinct ids, its active version is
  one of them, and every version carries the hash of its snapshot.\<close>

theorem registry_document_history:
  assumes "list_all (valid_sync date_parse) ops"
  shows "let s = history (tpl_step sha collate) ops [] in
    parseTemplateRegistryStore date_parse s = Inr s \<and> distinct (map fst s) \<and>
    list_all (\<lambda>(key, r). key = int_text (tr_templateId r) \<and>
      sorted (map (\<lambda>v. (collate (tv_capturedAt v), collate (versionId v))) (versions r)) \<and>
      distinct (map versionId (versions r)) \<and>
      activeVersionId r \<in> Some ` versionId ` set (versions r) \<and>
      list_all (\<lambda>v. tv_hash v = createTemplateHash sha (tv_snapshot v)) (versions r)) s"
proof -
  let ?s = "history (tpl_step sha collate) ops []"
  have ok: "registry_ok sha collate date_parse ?s"
    using assms by (intro registry.history_wf) (simp_all add: registry_ok_def legal_history_stateless)
  then have "List.find (\<lambda>p. \<not> isTemplateRegistryRecord date_parse (snd p)) ?s = None"
    by (auto simp: registry_ok_def record_ok_def list_all_iff find_None_iff)
  then show ?thesis
    using ok
    by (fastforce simp: Let_def parseTemplateRegistryStore_def registry_ok_def record_ok_def list_all_iff
        version_key_def [abs_def])
qed

definition versions_of :: "int \<Rightarrow> tpl_store \<Rightarrow> tpl_version list" where
  "versions_of i s = (case map_of s (int_text i) of None \<Rightarrow> [] | Some r \<Rightarrow> versions r)"

lemma versions_of_update:
  assumes "\<And>old. map_of s k = Some old \<Longrightarrow> set (versions old) \<subseteq> set (versions r)"
  shows "set (versions_of i s) \<subseteq> set (versions_of i (AList.update k r s))"
  using assms by (cases "map_of s (int_text i)") (auto simp: versions_of_def update_conv)

lemma merge_record_keeps:
  "set (case existing of None \<Rightarrow> [] | Some r \<Rightarrow> versions r) \<subseteq> set (versions (fst (merge_record collate n cap c existing)))"
  by (auto simp: merge_record_def Let_def sort_versions_ok(1,4) split: option.splits)

lemma merge_keeps: "set (versions_of i s) \<subseteq> set (versions_of i (fst (mergeTemplateRegistryCapture collate n cap cs s)))"
proof (induction cs arbitrary: s)
  case (Cons c cs)
  let ?r = "fst (merge_record collate n cap c (map_of s (int_text (tp_templateId c))))"
  have "set (versions_of i s) \<subseteq> set (versions_of i (AList.update (int_text (tp_templateId c)) ?r s))"
    using merge_record_keeps [of "map_of s (int_text (tp_templateId c))" collate n cap c]
    by (intro versions_of_update) simp
  also note Cons.IH
  finally show ?case by (simp add: case_prod_unfold Let_def)
qed simp

lemma promote_keeps:
  "set (versions_of i s) \<subseteq> set (versions_of i (fst (promoteTemplateVersionInStore client j version s)))"
proof -
  have "set (versions_of i s) \<subseteq> set (versions_of i (AList.update (int_text j) (r\<lparr>activeVersionId := Some version\<rparr>) s))"
    if "map_of s (int_text j) = Some r" for r
    by (rule versions_of_update) (simp add: that)
  then show ?thesis
    by (auto simp: promoteTemplateVersionInStore_def split: option.splits sum.splits)
qed

lemma tpl_step_keeps: "set (versions_of i s) \<subseteq> set (versions_of i (fst (tpl_step sha collate x s)))"
proof (cases x)
  case (TplSync client cap ids n saving)
  have "set (versions_of i s) \<subseteq> set (versions_of i (fst (syncTemplateRegistry sha collate client cap ids n saving s)))"
    by (cases rule: sync_store [of sha collate client cap ids n saving s]) (simp_all add: merge_keeps)
  then show ?thesis by (simp add: TplSync case_prod_unfold)
next
  case (TplPromote client j version expected force saving)
  have "set (versions_of i s) \<subseteq> set (versions_of i (fst (promoteTemplateVersion sha client j version expected force saving s)))"
    unfolding promoteTemplateVersion_def
    by (rule fst_commitRemote [where Q = "\<lambda>s'. set (versions_of i s) \<subseteq> set (versions_of i s')"])
      (auto simp: case_prod_unfold promote_keeps [THEN subsetD] subset_iff split: sum.split)
  then show ?thesis by (simp add: TplPromote case_prod_unfold)
next
  case (TplRollback client j target saving)
  have "set (versions_of i s) \<subseteq> set (versions_of i (fst (rollbackTemplateVersion client j target saving s)))"
    unfolding rollbackTemplateVersion_def
    by (rule fst_commitRemote [where Q = "\<lambda>s'. set (versions_of i s) \<subseteq> set (versions_of i s')"])
      (auto simp: promote_keeps [THEN subsetD] subset_iff split: option.split nat.split)
  then show ?thesis by (simp add: TplRollback case_prod_unfold)
qed

text \<open>C34: No recorded version is ever lost or changed.  Over any history of
  syncs, promotions and rollbacks, every version of every template that was once in
  the registry stays there, with the snapshot, time, hash and note it was
  recorded with.\<close>

theorem versions_append_only:
  "set (versions_of i s) \<subseteq> set (versions_of i (history (tpl_step sha collate) ops s))"
proof (induction ops arbitrary: s)
  case (Cons x ops)
  then show ?case using tpl_step_keeps [of i s sha collate x] by (auto simp: subset_iff)
qed simp

fun updated :: "tpl_request list \<Rightarrow> (int \<times> tpl_snapshot) list" where
  "updated [] = []"
| "updated (UpdateTemplate i s # rs) = (i, s) # updated rs"
| "updated (_ # rs) = updated rs"

definition active_version :: "int \<Rightarrow> tpl_store \<Rightarrow> tpl_version option" where
  "active_version i s =
     (case map_of s (int_text i) of
        None \<Rightarrow> None
      | Some r \<Rightarrow> List.find (\<lambda>v. Some (versionId v) = activeVersionId r) (versions r))"

text \<open>
  A store in which a version became active: Listmonk was sent its snapshot, once, and
  nothing else of the store changed.
\<close>

definition activated :: "int \<Rightarrow> tpl_store \<Rightarrow> tpl_store \<Rightarrow> tpl_request list \<Rightarrow> tpl_version \<Rightarrow> bool" where
  "activated i s s' rs v \<longleftrightarrow>
     active_version i s' = Some v \<and> updated rs = [(i, tv_snapshot v)] \<and> v \<in> set (versions_of i s) \<and>
     versions_of i s' = versions_of i s \<and> (\<forall>j. int_text j \<noteq> int_text i \<longrightarrow> map_of s' (int_text j) = map_of s (int_text j))"

text \<open>The outcome of a transaction that was to make a version active, with how it ended.\<close>

definition promoted :: "saving \<Rightarrow> int \<Rightarrow> tpl_store \<Rightarrow> tpl_action \<Rightarrow> bool" where
  "promoted saving i s outcome =
     (case outcome of
        (s', rs, Inr r) \<Rightarrow>
          saving = Saved \<and>
          (if pr_rolledBack r then \<exists>v. activated i s s' rs v \<and> versionId v = pr_versionId r
           else s' = s \<and> updated rs = [])
      | (s', rs, Inl e) \<Rightarrow>
          (if e = WriteTransactionError
           then saving \<noteq> Saved \<and>
             (s' = s \<and> updated rs = [] \<or>
              saving = Unwritten \<and> s' = s \<and> (\<exists>s'' v. activated i s s'' rs v) \<or>
              saving = Unreleased \<and> (\<exists>v. activated i s s' rs v))
           else s' = s \<and>
             (if \<exists>m. e = PromoteFailed m then \<exists>v \<in> set (versions_of i s). updated rs = [(i, tv_snapshot v)]
              else updated rs = [])))"

text \<open>An action by itself, before the transaction ends.\<close>

abbreviation acted :: "int \<Rightarrow> tpl_store \<Rightarrow> tpl_action \<Rightarrow> bool" where
  "acted i s outcome \<equiv> promoted Saved i s outcome"

lemma promote_in_store_acted: "acted i s (promoteTemplateVersionInStore client i version s)"
  by (auto simp: promoted_def activated_def promoteTemplateVersionInStore_def active_version_def versions_of_def
      update_conv split: option.splits sum.splits dest: find_Some_in)

lemma commit_promoted:
  assumes "acted i s (action s)"
  shows "promoted saving i s (commitRemoteTemplateMutation saving action s)"
  using assms
  by (cases saving) (auto simp: promoted_def commitRemoteTemplateMutation_def split: prod.splits sum.splits if_splits)

text \<open>C36: The store and Listmonk agree on the active version.  A promotion or
  rollback that succeeds has sent Listmonk exactly one update, with the snapshot of
  the version that is active in the store afterwards, a version recorded before,
  and has changed nothing else of the store; an already applied rollback sends none.
  One that fails without a confirmed update leaves the store as it was, and has sent
  an update only if its error says that the update was refused.  After a confirmed
  update it fails with the transaction error only: then the store is as it was if the
  document could not be written, and agrees with Listmonk if it was written and the lock
  could not be released.\<close>

theorem promotion_matches_active:
  "promoted saving i s (promoteTemplateVersion sha client i version expected force saving s) \<and>
   promoted saving i s (rollbackTemplateVersion client i target saving s)"
proof
  have skip: "promoted how i s (s', GetTemplate j # rs, r) = promoted how i s (s', rs, r)" for how s' j rs r
  proof -
    have "activated i s t (GetTemplate j # rs) = activated i s t rs" for t
      by (simp add: activated_def fun_eq_iff)
    then show ?thesis by (simp add: promoted_def split: sum.splits)
  qed
  show "promoted saving i s (promoteTemplateVersion sha client i version expected force saving s)"
    unfolding promoteTemplateVersion_def
    by (rule commit_promoted)
      (auto simp: skip case_prod_unfold promote_in_store_acted promoted_def [of _ i s "(_, _, Inl _)"] split: sum.split)
  show "promoted saving i s (rollbackTemplateVersion client i target saving s)"
    unfolding rollbackTemplateVersion_def
    by (rule commit_promoted)
      (auto simp: promote_in_store_acted promoted_def [of _ i s "(s, [], _)"] split: option.split nat.split)
qed

text \<open>C38: The hash a sync reports is the hash a promotion expects.  When the remote
  template is still the one that was captured and has a name, promoting with the
  captured hash does what a forced promotion does, after one read.\<close>

theorem captured_hash_accepted:
  assumes "capture_one sha client i = Some c" and "tp_hash c \<noteq> []"
    and "tc_get client i = Inr t" and "rt_name t \<noteq> []"
  shows "promoteTemplateVersion sha client i version (Some (tp_hash c)) False saving s =
    (case promoteTemplateVersion sha client i version None True saving s of
       (s', rs, r) \<Rightarrow> (s', GetTemplate i # rs, r))"
proof -
  have "remote_hash sha t i = tp_hash c"
    using assms(1,3,4)
    by (auto simp: capture_one_def remote_hash_def createTemplateSnapshot_def text_or_def Let_def)
  then show ?thesis
    using assms(2,3)
    by (cases saving)
      (auto simp: promoteTemplateVersion_def commitRemoteTemplateMutation_def case_prod_unfold split: sum.split)
qed

text \<open>
  For a template without a name the capture hashes the fallback name and the
  promotion the empty one, so an unchanged template is refused.
\<close>

lemma unnamed_template_refused:
  assumes "capture_one sha client i = Some c" "tc_get client i = Inr t" "rt_name t = []"
    and collision_free: "\<And>a b. sha a = sha b \<Longrightarrow> a = b" and "tp_hash c \<noteq> []"
  shows "promoteTemplateVersion sha client i version (Some (tp_hash c)) False saving s =
    (s, [GetTemplate i], Inl RemoteHashMismatch)"
proof -
  have "remote_hash sha t i \<noteq> tp_hash c"
  proof
    let ?text = "\<lambda>name. JSON_stringify (JObj
       [(''name'', JStr name), (''type'', JStr (text_or (rt_type t) ''campaign'')), (''subject'', JStr (rt_subject t)),
        (''body'', JStr (rt_body t)),
        (''bodySource'', JStr (case opt_text (rt_body_source t) of None \<Rightarrow> [] | Some b \<Rightarrow> b))])"
    assume "remote_hash sha t i = tp_hash c"
    then have "sha (?text []) = sha (?text (''Template '' @ int_text i))"
      using assms(1-3)
      by (auto simp: capture_one_def remote_hash_def createTemplateSnapshot_def createTemplateHash_def
          text_or_def [of "[]"] Let_def)
    then have "?text [] = ?text (''Template '' @ int_text i)" by (rule collision_free)
    then show False by (simp add: json_quote_def json_escape_def)
  qed
  then show ?thesis
    using assms(2,5) by (auto simp: promoteTemplateVersion_def commitRemoteTemplateMutation_def)
qed

lemma find_findIndex: "findIndex P xs = Some n \<Longrightarrow> List.find P xs = Some (xs ! n)"
  by (induction xs arbitrary: n) (auto split: if_splits)

lemma find_id_nth:
  assumes "distinct (map f xs)" "k < length xs" shows "List.find (\<lambda>x. f x = f (xs ! k)) xs = Some (xs ! k)"
  using find_key_distinct [of f xs "xs ! k"] assms by simp

text \<open>Promoting a recorded version in a well-formed record.\<close>

lemma promote_nth:
  assumes "map_of s (int_text i) = Some rec" "distinct (map versionId (versions rec))" "k < length (versions rec)"
    and "promoteTemplateVersionInStore client i (versionId (versions rec ! k)) s = (s', rs, Inr r)"
  shows "active_version i s' = Some (versions rec ! k)" "versions_of i s' = versions rec"
    "pr_versionId r = versionId (versions rec ! k)" "pr_rolledBack r"
  using assms
  by (auto simp: promoteTemplateVersionInStore_def find_id_nth active_version_def versions_of_def update_conv
      split: sum.splits)

text \<open>C39: A rollback goes back one version.  In a well-formed registry a rollback
  that rolls back makes the version captured just before the active one active,
  and a pinned rollback never reaches another version than the pinned one.\<close>

theorem rollback_steps_back:
  assumes "registry_ok sha collate date_parse s"
    and "rollbackTemplateVersion client i target saving s = (s', rs, Inr r)"
  shows "(target = None \<or> target = Some (pr_versionId r)) \<and>
    (if pr_rolledBack r
     then \<exists>k. Suc k < length (versions_of i s) \<and> versions_of i s' = versions_of i s \<and>
       active_version i s = Some (versions_of i s ! Suc k) \<and> active_version i s' = Some (versions_of i s ! k) \<and>
       pr_versionId r = versionId (versions_of i s ! k)
     else s' = s)"
proof -
  obtain s1 where run: "(case map_of s (int_text i) of
      None \<Rightarrow> (s, [], Inl RollbackNeedsTwoVersions)
    | Some r \<Rightarrow>
        if length (versions r) < 2 then (s, [], Inl RollbackNeedsTwoVersions)
        else if target \<noteq> None \<and> activeVersionId r = target
        then (s, [], Inr \<lparr>pr_templateName = tr_templateName r, pr_versionId = the target, pr_rolledBack = False\<rparr>)
        else
          (case (if activeVersionId r \<in> {None, Some []} then None
                 else findIndex (\<lambda>v. Some (versionId v) = activeVersionId r) (versions r)) of
             Some (Suc k) \<Rightarrow>
               if target \<noteq> None \<and> Some (versionId (versions r ! k)) \<noteq> target
               then (s, [], Inl (RollbackTargetMoved (the target)))
               else promoteTemplateVersionInStore client i (versionId (versions r ! k)) s
           | _ \<Rightarrow> (s, [], Inl NoPreviousVersion))) = (s', rs, Inr r)"
    using assms(2) unfolding rollbackTemplateVersion_def commitRemoteTemplateMutation_def
    by (simp split: prod.splits sum.splits saving.splits)
  then obtain rec where rec: "map_of s (int_text i) = Some rec" by (auto split: option.splits)
  have distinct: "distinct (map versionId (versions rec))"
    using assms(1) map_of_SomeD [OF rec] by (auto simp: registry_ok_def list_all_iff record_ok_def)
  from run rec consider
    (applied) "s' = s" "pr_rolledBack r = False" "target = Some (pr_versionId r)"
  | (moved) k where "findIndex (\<lambda>v. Some (versionId v) = activeVersionId rec) (versions rec) = Some (Suc k)"
      "target = None \<or> target = Some (versionId (versions rec ! k))"
      "promoteTemplateVersionInStore client i (versionId (versions rec ! k)) s = (s', rs, Inr r)"
    by (auto split: if_splits option.splits nat.splits)
  then show ?thesis
  proof cases
    case moved
    have k: "Suc k < length (versions rec)" using findIndex_SomeD [OF moved(1)] by simp
    note promoted = promote_nth [OF rec distinct _ moved(3)]
    have "active_version i s = Some (versions rec ! Suc k)"
      using find_findIndex [OF moved(1)] by (simp add: active_version_def rec)
    with k promoted moved(2) show ?thesis
      by (auto simp: versions_of_def [of i s] rec)
  qed simp
qed

subsection \<open>Examples\<close>

definition example_template :: "string \<Rightarrow> remote_template" where
  "example_template body =
     \<lparr>rt_id = Some 3, rt_name = ''welcome'', rt_type = ''tx'', rt_subject = ''Hi'', rt_body = body, rt_body_source = []\<rparr>"

definition example_client :: "string \<Rightarrow> tpl_client" where
  "example_client body =
     \<lparr>tc_list = Inr [example_template body], tc_get = (\<lambda>_. Inr (example_template body)), tc_update = (\<lambda>_ _. Inr ())\<rparr>"

definition year_date :: "string \<Rightarrow> instant option" where
  "year_date s = Some (int (nat_value (take 4 s)))"

definition example_registry_ops :: "tpl_op list" where
  "example_registry_ops =
     [TplSync (example_client ''one'') ''2026-01-01'' None None Saved,
      TplSync (example_client ''two'') ''2026-02-01'' (Some [3]) (Some ''edited'') Unreleased,
      TplRollback (example_client ''two'') 3 None Saved]"

theorem registry_document_history_witness:
  "parseTemplateRegistryStore year_date (history (tpl_step id id) example_registry_ops []) =
     Inr (history (tpl_step id id) example_registry_ops [])"
  using registry_document_history [of year_date example_registry_ops id id]
  by (simp add: Let_def example_registry_ops_def year_date_def)

theorem captured_hash_accepted_witness:
  "promoteTemplateVersion id (example_client ''one'') 3 ''v'' (Some (createTemplateHash id (createTemplateSnapshot (example_template ''one'') 3)))
     False Saved [] = ([], [GetTemplate 3], Inl NoHistory)"
proof -
  let ?c = "\<lparr>tp_templateId = 3, tp_snapshot = createTemplateSnapshot (example_template ''one'') 3,
    tp_hash = createTemplateHash id (createTemplateSnapshot (example_template ''one'') 3)\<rparr>"
  have "capture_one id (example_client ''one'') 3 = Some ?c"
    "tc_get (example_client ''one'') 3 = Inr (example_template ''one'')" "rt_name (example_template ''one'') \<noteq> []"
    by (simp_all add: capture_one_def example_client_def example_template_def Let_def)
  moreover have "tp_hash ?c \<noteq> []" by (simp add: createTemplateHash_def)
  ultimately have "promoteTemplateVersion id (example_client ''one'') 3 ''v'' (Some (tp_hash ?c)) False Saved [] =
      (case promoteTemplateVersion id (example_client ''one'') 3 ''v'' None True Saved [] of
         (s', rs, r) \<Rightarrow> (s', GetTemplate 3 # rs, r))"
    by (intro captured_hash_accepted)
  then show ?thesis
    by (simp add: promoteTemplateVersion_def [of _ _ _ _ None] commitRemoteTemplateMutation_def
        promoteTemplateVersionInStore_def)
qed

definition example_version :: "string \<Rightarrow> string \<Rightarrow> tpl_version" where
  "example_version name cap =
     (let snapshot = createTemplateSnapshot (example_template name) 3
      in \<lparr>versionId = name, tv_capturedAt = cap, tv_hash = createTemplateHash id snapshot, tv_note = None,
          tv_snapshot = snapshot\<rparr>)"

definition example_registry :: tpl_store where
  "example_registry =
     [(''3'', \<lparr>tr_templateId = 3, tr_templateName = ''welcome'', activeVersionId = Some ''two'',
        versions = [example_version ''one'' ''2026-01-01'', example_version ''two'' ''2026-02-01'']\<rparr>)]"

lemma int_text_3: "int_text 3 = ''3''" by code_simp

theorem rollback_steps_back_witness:
  "active_version 3 (fst (rollbackTemplateVersion (example_client ''two'') 3 None Saved example_registry)) =
     Some (example_version ''one'' ''2026-01-01'')"
proof -
  have ok: "registry_ok id id year_date example_registry"
    by (simp add: registry_ok_def example_registry_def record_ok_def isTemplateRegistryRecord_def
        isTemplateRegistryVersion_def example_version_def version_key_def int_text_3 createTemplateSnapshot_def
        example_template_def year_date_def Let_def)
  obtain s' rs r where run: "rollbackTemplateVersion (example_client ''two'') 3 None Saved example_registry = (s', rs, Inr r)"
    and "pr_rolledBack r" "active_version 3 example_registry = Some (example_version ''two'' ''2026-02-01'')"
    by (simp add: rollbackTemplateVersion_def commitRemoteTemplateMutation_def example_registry_def int_text_3
        promoteTemplateVersionInStore_def example_version_def example_client_def Let_def active_version_def)
  moreover have "versions_of 3 example_registry = [example_version ''one'' ''2026-01-01'', example_version ''two'' ''2026-02-01'']"
    by (simp add: versions_of_def example_registry_def int_text_3)
  ultimately show ?thesis
    using rollback_steps_back [OF ok run] by (auto simp: less_Suc_eq)
qed

end
