(* ===== verification/Subscriber_Hygiene.thy ===== *)
theory Subscriber_Hygiene
  imports Automation_Core
begin

section \<open>Subscriber hygiene\<close>

text \<open>
  \<open>hygiene.ts\<close>: the selection of inactive subscribers and the destructive run over
  the reviewed ids of a dry run.  \<open>date_parse\<close> stands for \<open>Date.parse\<close>; the client
  answers a mutation, answers it with an error envelope, or throws.
\<close>

subsection \<open>Data\<close>

datatype hygiene_mode = Winback | Sunset

text \<open>A subscriber as Listmonk reports it; absent texts are empty.\<close>

record remote_subscriber =
  rs_id :: "int option"
  rs_email :: string
  rs_status :: string
  rs_updated_at :: string
  rs_created_at :: string
  rs_lists :: "int option list"

record hygiene_options =
  ho_mode :: "hygiene_mode option"
  ho_inactivityDays :: "rat option"
  ho_sourceListIds :: "int list"
  ho_targetListId :: "int option"
  ho_blocklist :: "bool option"
  ho_subscriberIds :: "int list option"
  ho_dryRun :: "bool option"
  ho_maxSubscribers :: "rat option"

record hygiene_result =
  hr_mode :: hygiene_mode
  hr_cutoffAt :: int
  hr_dryRun :: bool
  hr_scanned :: nat
  hr_candidates :: nat
  hr_processed :: nat
  hr_skippedDueToLimit :: nat
  hr_subscriberIds :: "int list"
  hr_targetListId :: "int option"
  hr_blocklist :: bool
  hr_sample :: "(string \<times> string) list"
  hr_errors :: "string list"

datatype hygiene_error =
    ListSubscribersFailed string
  | EchoedIdsInvalid
  | EchoRequired
  | EchoExceedsLimit
  | TargetListRequired
  | MutationRequired
  | InvalidCutoff

datatype hygiene_request =
    ListSubscribers
  | AddToList int int
  | Blocklist int

subsection \<open>Masking\<close>

text \<open>The position of the last occurrence of a character.\<close>

fun lastIndexOf :: "char \<Rightarrow> string \<Rightarrow> nat option" where
  "lastIndexOf a [] = None"
| "lastIndexOf a (c # cs) =
     (case lastIndexOf a cs of
        Some n \<Rightarrow> Some (Suc n)
      | None \<Rightarrow> if c = a then Some 0 else None)"

definition maskEmail :: "string \<Rightarrow> string" where
  "maskEmail email =
     (case lastIndexOf (CHR ''@'') email of
        Some (Suc n) \<Rightarrow> hd email # ''***'' @ drop (Suc n) email
      | _ \<Rightarrow> ''***'')"

subsection \<open>Candidates\<close>

definition toDate :: "(string \<Rightarrow> instant option) \<Rightarrow> string \<Rightarrow> instant option" where
  "toDate date_parse s = (if s = [] then None else date_parse s)"

text \<open>\<open>new Date(ms)\<close>: truncated, or invalid (\<open>None\<close>) outside the range of dates.\<close>

definition date_of :: "rat \<Rightarrow> instant option" where
  "date_of q =
     (if \<bar>q\<bar> \<le> of_int max_date then Some (if 0 \<le> q then \<lfloor>q\<rfloor> else \<lceil>q\<rceil>) else None)"

text \<open>A comparison with an invalid cutoff is false, so such a cutoff excludes nobody.\<close>

definition candidate ::
  "(string \<Rightarrow> instant option) \<Rightarrow> instant option \<Rightarrow> int list \<Rightarrow> remote_subscriber \<Rightarrow> bool" where
  "candidate date_parse cutoff sources u =
     (toPositiveInt (rs_id u) \<noteq> None \<and>
      toLowerCase (rs_status u) = ''enabled'' \<and>
      (case toDate date_parse (if rs_updated_at u = [] then rs_created_at u else rs_updated_at u) of
         None \<Rightarrow> False
       | Some updatedAt \<Rightarrow> (case cutoff of Some c \<Rightarrow> updatedAt \<le> c | None \<Rightarrow> True)) \<and>
      (sources = [] \<or> list_ex (\<lambda>l. l \<in> set sources) (List.map_filter toPositiveInt (rs_lists u))))"

definition subscriber_id :: "remote_subscriber \<Rightarrow> int" where
  "subscriber_id u = the (toPositiveInt (rs_id u))"

definition safe_integer :: "int \<Rightarrow> bool" where
  "safe_integer i = (\<bar>i\<bar> \<le> 2 ^ 53 - 1)"

definition nonzero :: "int option \<Rightarrow> int option" where
  "nonzero x = (if x = Some 0 then None else x)"

subsection \<open>Mutations\<close>

type_synonym hygiene_client = "nat \<Rightarrow> hygiene_request \<Rightarrow> client_reply"

definition throws :: "client_reply \<Rightarrow> bool" where
  "throws r = (case r of Thrown _ \<Rightarrow> True | _ \<Rightarrow> False)"

text \<open>
  The mutations of one subscriber: the requests issued, whether one returned, and
  whether one threw.
\<close>

definition mutate ::
  "hygiene_client \<Rightarrow> nat \<Rightarrow> hygiene_mode \<Rightarrow> bool \<Rightarrow> int option \<Rightarrow> int \<Rightarrow> hygiene_request list \<times> bool \<times> bool" where
  "mutate client pos mode blocklist target i =
     (let block = (\<lambda>pos mutated.
             if mode = Sunset \<and> blocklist
             then (if throws (client pos (Blocklist i)) then ([Blocklist i], mutated, True)
                   else ([Blocklist i], True, False))
             else ([], mutated, False))
      in case target of
           None \<Rightarrow> block pos False
         | Some l \<Rightarrow>
             if throws (client pos (AddToList i l)) then ([AddToList i l], False, True)
             else (case block (pos + 1) True of (rs, m, e) \<Rightarrow> (AddToList i l # rs, m, e)))"

fun mutate_all ::
  "hygiene_client \<Rightarrow> nat \<Rightarrow> hygiene_mode \<Rightarrow> bool \<Rightarrow> int option \<Rightarrow> int list \<Rightarrow> hygiene_request list \<times> nat \<times> nat" where
  "mutate_all client pos mode blocklist target [] = ([], 0, 0)"
| "mutate_all client pos mode blocklist target (i # is) =
     (case mutate client pos mode blocklist target i of
        (rs, mutated, failed) \<Rightarrow>
          (case mutate_all client (pos + length rs) mode blocklist target is of
             (rs', processed, failures) \<Rightarrow>
               (rs @ rs', processed + of_bool mutated, failures + of_bool failed)))"

subsection \<open>The run\<close>

definition hygiene_mode_of :: "hygiene_options \<Rightarrow> hygiene_mode" where
  "hygiene_mode_of options = (case ho_mode options of None \<Rightarrow> Winback | Some m \<Rightarrow> m)"

definition hygiene_dry :: "hygiene_options \<Rightarrow> bool" where
  "hygiene_dry options = (case ho_dryRun options of None \<Rightarrow> True | Some d \<Rightarrow> d)"

definition hygiene_blocklist :: "hygiene_options \<Rightarrow> bool" where
  "hygiene_blocklist options = (case ho_blocklist options of None \<Rightarrow> False | Some b \<Rightarrow> b)"

definition hygiene_limit :: "hygiene_options \<Rightarrow> rat" where
  "hygiene_limit options = max 1 (case ho_maxSubscribers options of None \<Rightarrow> 500 | Some m \<Rightarrow> m)"

definition hygiene_cutoff :: "int \<Rightarrow> hygiene_options \<Rightarrow> instant option" where
  "hygiene_cutoff now options =
     (let inactivityDays = max 1 (case ho_inactivityDays options of None \<Rightarrow> 90 | Some d \<Rightarrow> d)
      in date_of (dbl (of_int now - dbl (dbl (dbl (dbl (inactivityDays * 24) * 60) * 60) * 1000))))"

definition hygiene_candidates ::
  "(string \<Rightarrow> instant option) \<Rightarrow> int \<Rightarrow> hygiene_options \<Rightarrow> remote_subscriber list \<Rightarrow> remote_subscriber list" where
  "hygiene_candidates date_parse now options us =
     filter (candidate date_parse (hygiene_cutoff now options) (ho_sourceListIds options)) us"

definition hygiene_eligible :: "hygiene_options \<Rightarrow> remote_subscriber list \<Rightarrow> remote_subscriber list" where
  "hygiene_eligible options candidates =
     (case ho_subscriberIds options of
        None \<Rightarrow> candidates
      | Some ids \<Rightarrow> filter (\<lambda>u. subscriber_id u \<in> set ids) candidates)"

definition hygiene_selected :: "hygiene_options \<Rightarrow> remote_subscriber list \<Rightarrow> remote_subscriber list" where
  "hygiene_selected options candidates =
     take (nat \<lfloor>hygiene_limit options\<rfloor>) (hygiene_eligible options candidates)"

text \<open>The refusals, in order; all come before any mutation.\<close>

definition hygiene_issue :: "hygiene_options \<Rightarrow> hygiene_error option" where
  "hygiene_issue options =
     (let echoed = ho_subscriberIds options;
          target = nonzero (ho_targetListId options)
      in if echoed \<noteq> None \<and> list_ex (\<lambda>i. \<not> safe_integer i \<or> i \<le> 0) (the echoed) then Some EchoedIdsInvalid
         else if \<not> hygiene_dry options \<and> echoed = None then Some EchoRequired
         else if echoed \<noteq> None \<and> hygiene_limit options < of_nat (length (first_occurrences (the echoed)))
         then Some EchoExceedsLimit
         else if hygiene_dry options then None
         else if hygiene_mode_of options = Winback \<and> target = None then Some TargetListRequired
         else if hygiene_mode_of options = Sunset \<and> \<not> hygiene_blocklist options \<and> target = None
         then Some MutationRequired
         else None)"

text \<open>The result, made after the mutations: an invalid cutoff has no text and is an error here.\<close>

definition hygiene_report ::
  "(string \<Rightarrow> instant option) \<Rightarrow> int \<Rightarrow> hygiene_options \<Rightarrow> remote_subscriber list \<Rightarrow> nat \<Rightarrow> nat \<Rightarrow>
     hygiene_error + hygiene_result" where
  "hygiene_report date_parse now options us processed failures =
     (let candidates = hygiene_candidates date_parse now options us;
          selected = hygiene_selected options candidates
      in case hygiene_cutoff now options of
           None \<Rightarrow> Inl InvalidCutoff
         | Some c \<Rightarrow>
             Inr \<lparr>hr_mode = hygiene_mode_of options, hr_cutoffAt = c, hr_dryRun = hygiene_dry options,
                  hr_scanned = length us, hr_candidates = length candidates, hr_processed = processed,
                  hr_skippedDueToLimit = length (hygiene_eligible options candidates) - length selected,
                  hr_subscriberIds = map subscriber_id selected,
                  hr_targetListId = ho_targetListId options, hr_blocklist = hygiene_blocklist options,
                  hr_sample = map (\<lambda>u. (maskEmail (rs_email u), rs_updated_at u)) (take 20 selected),
                  hr_errors =
                    (if hygiene_mode_of options = Winback \<and> hygiene_blocklist options
                     then [''Warning: blocklist=true is ignored in winback mode; use sunset mode for blocklisting'']
                     else []) @ replicate failures ''Subscriber mutation failed''\<rparr>)"

definition runSubscriberHygiene ::
  "(string \<Rightarrow> instant option) \<Rightarrow> int \<Rightarrow> (string + remote_subscriber list) \<Rightarrow> hygiene_client \<Rightarrow> hygiene_options \<Rightarrow>
     hygiene_request list \<times> (hygiene_error + hygiene_result)" where
  "runSubscriberHygiene date_parse now listed client options =
     (case listed of
        Inl e \<Rightarrow> ([ListSubscribers], Inl (ListSubscribersFailed e))
      | Inr us \<Rightarrow>
          (case hygiene_issue options of
             Some e \<Rightarrow> ([ListSubscribers], Inl e)
           | None \<Rightarrow>
               if hygiene_dry options then ([ListSubscribers], hygiene_report date_parse now options us 0 0)
               else (case mutate_all client 0 (hygiene_mode_of options) (hygiene_blocklist options)
                            (nonzero (ho_targetListId options))
                            (map subscriber_id (hygiene_selected options (hygiene_candidates date_parse now options us))) of
                       (rs, processed, failures) \<Rightarrow>
                         (ListSubscribers # rs, hygiene_report date_parse now options us processed failures))))"

end
