(* ===== verification/Hygiene_Properties.thy ===== *)
theory Hygiene_Properties
  imports Subscriber_Hygiene Lifecycle_Properties
begin

section \<open>Properties of subscriber hygiene\<close>

text \<open>
  Which mutations a run can issue, that a destructive run over the ids of a dry
  run selects what the dry run reported, and what it counts as processed.
\<close>

definition allowed :: "hygiene_mode \<Rightarrow> bool \<Rightarrow> int option \<Rightarrow> int \<Rightarrow> hygiene_request \<Rightarrow> bool" where
  "allowed mode blocklist target i x =
     ((\<exists>l. x = AddToList i l \<and> target = Some l) \<or> x = Blocklist i \<and> mode = Sunset \<and> blocklist)"

lemma mutate_requests: "list_all (allowed mode blocklist target i) (fst (mutate client pos mode blocklist target i))"
  by (auto simp: mutate_def allowed_def Let_def split: option.splits prod.splits)

lemma mutate_all_requests:
  "list_all (\<lambda>x. \<exists>i \<in> set is. allowed mode blocklist target i x) (fst (mutate_all client pos mode blocklist target is))"
proof (induction "is" arbitrary: pos)
  case (Cons i rest)
  then show ?case
    using mutate_requests [of mode blocklist target i client pos]
    unfolding list_all_iff by (auto simp: case_prod_unfold)
qed simp

text \<open>A subscriber whose mutation the options of a run allow.\<close>

definition reviewed :: "(string + remote_subscriber list) \<Rightarrow> hygiene_options \<Rightarrow> int \<Rightarrow> bool" where
  "reviewed listed options i =
     (ho_dryRun options = Some False \<and>
      (\<exists>ids. ho_subscriberIds options = Some ids \<and> i \<in> set ids \<and>
         of_nat (length (first_occurrences ids)) \<le> hygiene_limit options) \<and>
      (\<exists>us. listed = Inr us \<and> (\<exists>u \<in> set us. rs_id u = Some i \<and> 0 < i \<and> toLowerCase (rs_status u) = ''enabled'')))"

fun authorized :: "(string + remote_subscriber list) \<Rightarrow> hygiene_options \<Rightarrow> hygiene_request \<Rightarrow> bool" where
  "authorized listed options ListSubscribers = True"
| "authorized listed options (AddToList i l) =
     (reviewed listed options i \<and> ho_targetListId options = Some l)"
| "authorized listed options (Blocklist i) =
     (reviewed listed options i \<and> ho_mode options = Some Sunset \<and> ho_blocklist options = Some True)"

lemma toPositiveInt_Some: "toPositiveInt x = Some i \<longleftrightarrow> x = Some i \<and> 0 < i"
  by (cases x) auto

text \<open>C32: Hygiene mutates only what was reviewed.  Every request of a run is the
  listing, or a mutation of a run that was explicitly made destructive, of a
  listed enabled subscriber whose id is in the set echoed to it, which is not larger than
  the limit; a list addition is to the target list of the options, and a
  blocklisting only happens in sunset mode when asked for.\<close>

theorem hygiene_mutates_reviewed:
  "list_all (authorized listed options) (fst (runSubscriberHygiene date_parse now listed client options))"
proof -
  let ?allowed = "allowed (hygiene_mode_of options) (hygiene_blocklist options) (nonzero (ho_targetListId options))"
  have "list_all (authorized listed options) (fst (mutate_all client 0 (hygiene_mode_of options)
      (hygiene_blocklist options) (nonzero (ho_targetListId options))
      (map subscriber_id (hygiene_selected options (hygiene_candidates date_parse now options us)))))"
    if listed: "listed = Inr us" and issue: "hygiene_issue options = None" and live: "\<not> hygiene_dry options" for us
  proof (rule list.pred_mono_strong [OF mutate_all_requests])
    fix x
    assume "\<exists>i \<in> set (map subscriber_id (hygiene_selected options (hygiene_candidates date_parse now options us))). ?allowed i x"
    then obtain u where "u \<in> set (hygiene_selected options (hygiene_candidates date_parse now options us))"
      and x: "?allowed (subscriber_id u) x" by auto
    moreover obtain ids where ids: "ho_subscriberIds options = Some ids"
      "of_nat (length (first_occurrences ids)) \<le> hygiene_limit options"
      using issue live by (cases "ho_subscriberIds options") (auto simp: hygiene_issue_def Let_def not_less split: if_splits)
    ultimately have u: "u \<in> set us" "subscriber_id u \<in> set ids"
      "candidate date_parse (hygiene_cutoff now options) (ho_sourceListIds options) u"
      by (auto simp: hygiene_selected_def hygiene_eligible_def hygiene_candidates_def dest: in_set_takeD)
    have "ho_dryRun options = Some False"
      using live by (simp add: hygiene_dry_def split: option.splits)
    then have "reviewed listed options (subscriber_id u)"
      unfolding reviewed_def using u listed ids
      by (auto simp: candidate_def subscriber_id_def toPositiveInt_Some intro!: bexI [of _ u])
    with x show "authorized listed options x"
      by (auto simp: allowed_def nonzero_def hygiene_mode_of_def hygiene_blocklist_def split: if_splits option.splits)
  qed
  then show ?thesis
    by (simp add: runSubscriberHygiene_def case_prod_unfold split: sum.split option.split)
qed

lemma filter_ids_of_take:
  assumes "distinct (map f xs)"
  shows "filter (\<lambda>x. f x \<in> f ` set (take n xs)) xs = take n xs"
proof -
  have "distinct (map f (take n xs @ drop n xs))" using assms by simp
  then have "\<forall>x \<in> set (drop n xs). f x \<notin> f ` set (take n xs)"
    unfolding map_append distinct_append by auto
  then have "filter (\<lambda>x. f x \<in> f ` set (take n xs)) (take n xs @ drop n xs) = take n xs"
    by (simp add: filter_id_conv filter_empty_conv del: append_take_drop_id)
  then show ?thesis by simp
qed

text \<open>What a run that returns reports.\<close>

lemma hygiene_run_result:
  assumes "runSubscriberHygiene date_parse now (Inr us) client options = (rs, Inr r)"
  obtains processed failures where "hygiene_issue options = None"
    "hygiene_report date_parse now options us processed failures = Inr r"
    "hygiene_dry options \<or>
       snd (mutate_all client 0 (hygiene_mode_of options) (hygiene_blocklist options) (nonzero (ho_targetListId options))
         (map subscriber_id (hygiene_selected options (hygiene_candidates date_parse now options us)))) = (processed, failures)"
  using assms
  by (auto simp: runSubscriberHygiene_def split: option.splits if_splits prod.splits)

lemma echo_keeps_selection [simp]:
  "hygiene_cutoff now (options\<lparr>ho_dryRun := d, ho_subscriberIds := e\<rparr>) = hygiene_cutoff now options"
  "hygiene_candidates date_parse now (options\<lparr>ho_dryRun := d, ho_subscriberIds := e\<rparr>) us =
    hygiene_candidates date_parse now options us"
  "hygiene_limit (options\<lparr>ho_dryRun := d, ho_subscriberIds := e\<rparr>) = hygiene_limit options"
  by (simp_all add: hygiene_candidates_def hygiene_cutoff_def hygiene_limit_def)

text \<open>What a dry run reported is what a destructive run selects.  When the
  subscribers and the time are the same and the ids of subscribers are
  distinct, a run that echoes the ids a dry run returned selects exactly these,
  in the same order, and leaves none out.\<close>

theorem echoed_run_selects_reported:
  assumes "distinct (map subscriber_id us)"
    and "runSubscriberHygiene date_parse now (Inr us) client options = (rs, Inr r)"
    and "ho_dryRun options \<noteq> Some False" and "ho_subscriberIds options = None"
    and "runSubscriberHygiene date_parse now (Inr us) client'
      (options\<lparr>ho_dryRun := Some False, ho_subscriberIds := Some (hr_subscriberIds r)\<rparr>) = (rs', Inr r')"
  shows "hr_subscriberIds r' = hr_subscriberIds r \<and> hr_skippedDueToLimit r' = 0"
proof -
  let ?options = "options\<lparr>ho_dryRun := Some False, ho_subscriberIds := Some (hr_subscriberIds r)\<rparr>"
  let ?candidates = "hygiene_candidates date_parse now options us"
  have "distinct (map subscriber_id ?candidates)"
    unfolding hygiene_candidates_def by (rule distinct_map_filter [OF assms(1)])
  note taken = filter_ids_of_take [OF this, of "nat \<lfloor>hygiene_limit options\<rfloor>"]
  from assms(2) obtain p f where "hygiene_report date_parse now options us p f = Inr r"
    by (rule hygiene_run_result)
  then have ids: "hr_subscriberIds r = map subscriber_id (take (nat \<lfloor>hygiene_limit options\<rfloor>) ?candidates)"
    by (auto simp: hygiene_report_def Let_def hygiene_selected_def hygiene_eligible_def assms(4) split: option.splits)
  from assms(5) obtain p f where "hygiene_report date_parse now ?options us p f = Inr r'"
    by (rule hygiene_run_result)
  then show ?thesis
    using ids taken
    by (auto simp: hygiene_report_def Let_def hygiene_selected_def hygiene_eligible_def split: option.splits)
qed

lemma mutate_all_answered:
  assumes "\<And>pos x. \<not> throws (client pos x)"
    and "mode = Sunset \<and> blocklist \<or> target \<noteq> None"
  shows "snd (mutate_all client pos mode blocklist target is) = (length is, 0)"
proof -
  have "snd (mutate client pos mode blocklist target i) = (True, False)" for pos i
    using assms by (auto simp: mutate_def Let_def split: option.split)
  then show ?thesis
    by (induction "is" arbitrary: pos) (auto simp: case_prod_unfold prod_eq_iff)
qed

text \<open>A mutation that Listmonk refuses is counted as processed.  When the client
  answers every request of a destructive run with an error envelope and throws
  none, the run reports every selected subscriber as processed and no mutation
  as failed.\<close>

theorem refused_mutations_processed:
  assumes "\<And>pos x. \<exists>f. client pos x = Envelope f"
    and "runSubscriberHygiene date_parse now (Inr us) client options = (rs, Inr r)"
    and "ho_dryRun options = Some False"
  shows "hr_processed r = length (hr_subscriberIds r) \<and> ''Subscriber mutation failed'' \<notin> set (hr_errors r)"
proof -
  have answered: "\<not> throws (client pos x)" for pos x
    using assms(1) [of pos x] by (auto simp: throws_def)
  from assms(2) obtain p f where r: "hygiene_issue options = None"
    "hygiene_report date_parse now options us p f = Inr r"
    and pf: "hygiene_dry options \<or>
       snd (mutate_all client 0 (hygiene_mode_of options) (hygiene_blocklist options) (nonzero (ho_targetListId options))
         (map subscriber_id (hygiene_selected options (hygiene_candidates date_parse now options us)))) = (p, f)"
    by (rule hygiene_run_result)
  have live: "\<not> hygiene_dry options" by (simp add: hygiene_dry_def assms(3))
  have "hygiene_mode_of options = Sunset \<and> hygiene_blocklist options \<or> nonzero (ho_targetListId options) \<noteq> None"
    using r(1) live by (cases "hygiene_mode_of options") (auto simp: hygiene_issue_def Let_def split: if_splits)
  from mutate_all_answered [OF answered this] pf live
  have "p = length (hygiene_selected options (hygiene_candidates date_parse now options us))" "f = 0" by simp_all
  then show ?thesis
    using r(2) by (auto simp: hygiene_report_def Let_def split: option.splits)
qed

subsection \<open>Examples\<close>

definition example_subscriber :: remote_subscriber where
  "example_subscriber =
     \<lparr>rs_id = Some 5, rs_email = ''ann@example.com'', rs_status = ''enabled'', rs_updated_at = ''2020'',
      rs_created_at = ''2019'', rs_lists = [Some 1]\<rparr>"

definition example_hygiene :: hygiene_options where
  "example_hygiene =
     \<lparr>ho_mode = Some Sunset, ho_inactivityDays = Some 30, ho_sourceListIds = [], ho_targetListId = None,
      ho_blocklist = Some True, ho_subscriberIds = None, ho_dryRun = None, ho_maxSubscribers = None\<rparr>"

definition long_ago :: "string \<Rightarrow> instant option" where
  "long_ago s = Some 0"

definition refusing_client :: hygiene_client where
  "refusing_client = (\<lambda>_ _. Envelope \<lparr>http_status = Some 403, failure_text = ''forbidden''\<rparr>)"

text \<open>Half a day past two years after the update, with the default clock arithmetic.\<close>

lemma example_selected:
  "hygiene_candidates long_ago 63115200000 example_hygiene [example_subscriber] = [example_subscriber]"
  by code_simp

lemma example_cutoff: "hygiene_cutoff 63115200000 example_hygiene = Some 60523200000"
  by code_simp

lemma example_limit: "hygiene_limit example_hygiene = 500"
  by (simp add: hygiene_limit_def example_hygiene_def)

lemma hygiene_example_fields:
  "ho_mode example_hygiene = Some Sunset" "ho_blocklist example_hygiene = Some True" "ho_dryRun example_hygiene = None"
  "ho_subscriberIds example_hygiene = None" "ho_targetListId example_hygiene = None" "subscriber_id example_subscriber = 5"
  by (simp_all add: example_hygiene_def example_subscriber_def subscriber_id_def)

lemmas example_run = runSubscriberHygiene_def hygiene_issue_def hygiene_report_def hygiene_selected_def
  hygiene_eligible_def hygiene_dry_def hygiene_mode_of_def hygiene_blocklist_def example_cutoff example_limit
  example_selected hygiene_example_fields safe_integer_def Let_def case_prod_unfold

lemma example_dry_run:
  obtains rs r where
    "runSubscriberHygiene long_ago 63115200000 (Inr [example_subscriber]) refusing_client example_hygiene = (rs, Inr r)"
    "hr_subscriberIds r = [5]"
  by (simp add: example_run)

lemma example_live_run:
  obtains rs r where
    "runSubscriberHygiene long_ago 63115200000 (Inr [example_subscriber]) refusing_client
       (example_hygiene\<lparr>ho_dryRun := Some False, ho_subscriberIds := Some [5]\<rparr>) = (rs, Inr r)"
  by (simp add: example_run)

theorem echoed_run_selects_reported_witness:
  "\<exists>rs r rs' r'. runSubscriberHygiene long_ago 63115200000 (Inr [example_subscriber]) refusing_client example_hygiene = (rs, Inr r) \<and>
     runSubscriberHygiene long_ago 63115200000 (Inr [example_subscriber]) refusing_client
       (example_hygiene\<lparr>ho_dryRun := Some False, ho_subscriberIds := Some (hr_subscriberIds r)\<rparr>) = (rs', Inr r') \<and>
     hr_subscriberIds r' = hr_subscriberIds r \<and> hr_skippedDueToLimit r' = 0"
proof -
  obtain rs r where dry: "runSubscriberHygiene long_ago 63115200000 (Inr [example_subscriber]) refusing_client example_hygiene = (rs, Inr r)"
    and ids: "hr_subscriberIds r = [5]" by (rule example_dry_run)
  obtain rs' r' where live: "runSubscriberHygiene long_ago 63115200000 (Inr [example_subscriber]) refusing_client
       (example_hygiene\<lparr>ho_dryRun := Some False, ho_subscriberIds := Some (hr_subscriberIds r)\<rparr>) = (rs', Inr r')"
    unfolding ids by (rule example_live_run)
  from echoed_run_selects_reported [OF _ dry _ _ live] dry live show ?thesis
    by (auto simp: hygiene_example_fields)
qed

theorem refused_mutations_processed_witness:
  "\<exists>rs r. runSubscriberHygiene long_ago 63115200000 (Inr [example_subscriber]) refusing_client
       (example_hygiene\<lparr>ho_dryRun := Some False, ho_subscriberIds := Some [5]\<rparr>) = (rs, Inr r) \<and>
     hr_processed r = length (hr_subscriberIds r) \<and> ''Subscriber mutation failed'' \<notin> set (hr_errors r)"
proof -
  obtain rs r where run: "runSubscriberHygiene long_ago 63115200000 (Inr [example_subscriber]) refusing_client
       (example_hygiene\<lparr>ho_dryRun := Some False, ho_subscriberIds := Some [5]\<rparr>) = (rs, Inr r)"
    by (rule example_live_run)
  from refused_mutations_processed [OF _ run] run show ?thesis
    by (auto simp: refusing_client_def)
qed

end
