(* ===== verification/Subscriber_Bulk.thy ===== *)
theory Subscriber_Bulk
  imports Automation_Core Json_Value
begin

section \<open>Bulk changes of subscribers\<close>

text \<open>
  \<open>subscriber-bulk.ts\<close> and the four bulk operations of \<open>subscribers.ts\<close>: ids are
  capped, cut into chunks and sent one chunk after the other; a chunk counts as
  applied only if Listmonk acknowledged it.
\<close>

subsection \<open>Acknowledgement\<close>

text \<open>
  A response: the message of its error, if it has one, and its data.  A call answers
  with a response or throws.
\<close>

record bulk_response =
  rp_error :: "string option"
  rp_data :: "json option"

datatype bulk_reply =
    Response bulk_response
  | ThrownReply string

definition unwrapResourceResponse :: "bulk_response \<Rightarrow> string \<Rightarrow> string + json" where
  "unwrapResourceResponse response ctx =
     (case rp_error response of
        Some m \<Rightarrow> Inl (ctx @ '': '' @ m)
      | None \<Rightarrow> (case rp_data response of
                  None \<Rightarrow> Inl (ctx @ '': received empty data'')
                | Some d \<Rightarrow> Inr d))"

definition requireAcknowledgement :: "bulk_response \<Rightarrow> string \<Rightarrow> string + unit" where
  "requireAcknowledgement response ctx =
     (case unwrapResourceResponse response ctx of
        Inl m \<Rightarrow> Inl m
      | Inr d \<Rightarrow>
          if d \<noteq> JBool True then Inl (ctx @ '': Listmonk returned a negative acknowledgement'')
          else Inr ())"

text \<open>What the action of a chunk does with the answer to its call.\<close>

fun acknowledge :: "bulk_reply \<Rightarrow> string \<Rightarrow> string + unit" where
  "acknowledge (Response response) ctx = requireAcknowledgement response ctx"
| "acknowledge (ThrownReply m) ctx = Inl m"

subsection \<open>The executor\<close>

record bulk_options =
  dry_run :: bool
  max_items :: js_number
  continue_on_error :: bool

record bulk_result =
  br_processed :: nat
  br_succeeded :: nat
  br_failed :: nat
  br_errors :: "string list"

datatype bulk_error =
    InvalidChunkSize
  | InvalidMaxItems
  | ChunkFailed nat nat string

definition DEFAULT_SUBSCRIBER_BULK_CHUNK_SIZE :: js_number where
  "DEFAULT_SUBSCRIBER_BULK_CHUNK_SIZE = Num 500"

fun positive_integer :: "js_number \<Rightarrow> nat option" where
  "positive_integer (Num q) = (if isInteger (Num q) \<and> 0 < q then Some (nat \<lfloor>q\<rfloor>) else None)"
| "positive_integer _ = None"

definition chunk_message :: "nat \<Rightarrow> nat \<Rightarrow> string" where
  "chunk_message offset n =
     ''Chunk at offset '' @ nat_text offset @ '' ('' @ nat_text n @ '' subscribers) failed''"

text \<open>
  The loop over the chunks from an offset on: the chunks sent and the result.  The
  size is at least one; the guard makes the function total.
\<close>

function bulk_loop ::
  "(nat \<Rightarrow> int list \<Rightarrow> string + unit) \<Rightarrow> nat \<Rightarrow> bool \<Rightarrow> int list \<Rightarrow> nat \<Rightarrow> bulk_result \<Rightarrow>
     int list list \<times> (bulk_error + bulk_result)" where
  "bulk_loop action size_of continue capped offset r =
     (if size_of = 0 \<or> length capped \<le> offset then ([], Inr r)
      else
        let chunk = take size_of (drop offset capped)
        in case action offset chunk of
             Inr _ \<Rightarrow>
               (case bulk_loop action size_of continue capped (offset + size_of)
                       (r\<lparr>br_succeeded := br_succeeded r + length chunk\<rparr>) of
                  (cs, x) \<Rightarrow> (chunk # cs, x))
           | Inl cause \<Rightarrow>
               if \<not> continue then ([chunk], Inl (ChunkFailed offset (length chunk) cause))
               else (case bulk_loop action size_of continue capped (offset + size_of)
                            (r\<lparr>br_failed := br_failed r + length chunk,
                               br_errors := br_errors r @ [chunk_message offset (length chunk)]\<rparr>) of
                       (cs, x) \<Rightarrow> (chunk # cs, x)))"
  by pat_completeness auto
termination
  by (relation "measure (\<lambda>(action, size_of, continue, capped, offset, r). length capped - offset)") auto

definition executeSubscriberBulk ::
  "js_number option \<Rightarrow> int list \<Rightarrow> (nat \<Rightarrow> int list \<Rightarrow> string + unit) \<Rightarrow> bulk_options \<Rightarrow>
     int list list \<times> (bulk_error + bulk_result)" where
  "executeSubscriberBulk chunkSize subscriberIds action options =
     (case positive_integer (case chunkSize of None \<Rightarrow> DEFAULT_SUBSCRIBER_BULK_CHUNK_SIZE | Some s \<Rightarrow> s) of
        None \<Rightarrow> ([], Inl InvalidChunkSize)
      | Some s \<Rightarrow>
          (case positive_integer (max_items options) of
             None \<Rightarrow> ([], Inl InvalidMaxItems)
           | Some m \<Rightarrow>
               let capped = take m subscriberIds;
                   r = \<lparr>br_processed = length capped, br_succeeded = 0, br_failed = 0, br_errors = []\<rparr>
               in if capped = [] \<or> dry_run options then ([], Inr r)
                  else bulk_loop action s (continue_on_error options) capped 0 r))"

subsection \<open>The operations\<close>

datatype bulk_request =
    ManageLists string "int list" "int list"
  | ManageBlocklist string "int list"

type_synonym bulk_client = "nat \<Rightarrow> bulk_request \<Rightarrow> bulk_reply"

text \<open>An operation: the requests it sent, one per chunk, and its outcome.\<close>

definition run_bulk ::
  "bulk_client \<Rightarrow> (int list \<Rightarrow> bulk_request) \<Rightarrow> string \<Rightarrow> int list \<Rightarrow> bulk_options \<Rightarrow>
     bulk_request list \<times> (bulk_error + bulk_result)" where
  "run_bulk client request ctx ids options =
     (case executeSubscriberBulk None ids
             (\<lambda>offset chunk. acknowledge (client offset (request chunk)) ctx) options of
        (chunks, r) \<Rightarrow> (map request chunks, r))"

definition addSubscribersToLists ::
  "bulk_client \<Rightarrow> int list \<Rightarrow> int list \<Rightarrow> bulk_options \<Rightarrow> bulk_request list \<times> (bulk_error + bulk_result)" where
  "addSubscribersToLists client ids targets options =
     run_bulk client (\<lambda>chunk. ManageLists ''add'' chunk targets) ''Failed to add subscribers to lists'' ids options"

definition removeSubscribersFromLists ::
  "bulk_client \<Rightarrow> int list \<Rightarrow> int list \<Rightarrow> bulk_options \<Rightarrow> bulk_request list \<times> (bulk_error + bulk_result)" where
  "removeSubscribersFromLists client ids targets options =
     run_bulk client (\<lambda>chunk. ManageLists ''remove'' chunk targets) ''Failed to remove subscribers from lists'' ids options"

definition applyBlocklistAction ::
  "bulk_client \<Rightarrow> string \<Rightarrow> int list \<Rightarrow> bulk_options \<Rightarrow> bulk_request list \<times> (bulk_error + bulk_result)" where
  "applyBlocklistAction client action ids options =
     run_bulk client (ManageBlocklist action) (''Failed to '' @ action @ '' subscriber blocklist entries'') ids options"

definition blocklistSubscribers :: "bulk_client \<Rightarrow> int list \<Rightarrow> bulk_options \<Rightarrow> bulk_request list \<times> (bulk_error + bulk_result)" where
  "blocklistSubscribers client ids options = applyBlocklistAction client ''add'' ids options"

definition unblocklistSubscribers :: "bulk_client \<Rightarrow> int list \<Rightarrow> bulk_options \<Rightarrow> bulk_request list \<times> (bulk_error + bulk_result)" where
  "unblocklistSubscribers client ids options = applyBlocklistAction client ''remove'' ids options"

subsection \<open>Properties\<close>

declare bulk_loop.simps [simp del]

text \<open>
  The reference: the ids cut into pieces with their offsets, and a run over the
  list of pieces.
\<close>

function pieces :: "nat \<Rightarrow> nat \<Rightarrow> int list \<Rightarrow> (nat \<times> int list) list" where
  "pieces n offset xs =
     (if n = 0 \<or> xs = [] then [] else (offset, take n xs) # pieces n (offset + n) (drop n xs))"
  by pat_completeness auto
termination
  by (relation "measure (\<lambda>(n, offset, xs). length xs)") auto

declare pieces.simps [simp del]

fun run_pieces ::
  "(nat \<Rightarrow> int list \<Rightarrow> string + unit) \<Rightarrow> bool \<Rightarrow> (nat \<times> int list) list \<Rightarrow> bulk_result \<Rightarrow>
     int list list \<times> (bulk_error + bulk_result)" where
  "run_pieces action continue [] r = ([], Inr r)"
| "run_pieces action continue ((i, c) # ps) r =
     (case action i c of
        Inr _ \<Rightarrow>
          (case run_pieces action continue ps (r\<lparr>br_succeeded := br_succeeded r + length c\<rparr>) of
             (cs, x) \<Rightarrow> (c # cs, x))
      | Inl cause \<Rightarrow>
          if \<not> continue then ([c], Inl (ChunkFailed i (length c) cause))
          else (case run_pieces action continue ps
                       (r\<lparr>br_failed := br_failed r + length c,
                          br_errors := br_errors r @ [chunk_message i (length c)]\<rparr>) of
                  (cs, x) \<Rightarrow> (c # cs, x)))"

lemma bulk_loop_pieces:
  "0 < n \<Longrightarrow> bulk_loop action n continue capped offset r =
     run_pieces action continue (pieces n offset (drop offset capped)) r"
proof (induction action n continue capped offset r rule: bulk_loop.induct)
  case (1 action n continue capped offset r)
  show ?case
  proof (cases "length capped \<le> offset")
    case True
    then show ?thesis by (simp add: bulk_loop.simps pieces.simps)
  next
    case False
    have next_piece: "pieces n offset (drop offset capped) =
        (offset, take n (drop offset capped)) # pieces n (offset + n) (drop (offset + n) capped)"
      using False "1.prems" by (subst pieces.simps) (simp add: add.commute)
    show ?thesis
      by (subst bulk_loop.simps)
        (use False "1.prems" "1.IH" in \<open>simp add: next_piece Let_def split: sum.split\<close>)
  qed
qed

lemma concat_pieces: "0 < n \<Longrightarrow> concat (map snd (pieces n offset xs)) = xs"
  by (induction n offset xs rule: pieces.induct) (subst pieces.simps, simp)

definition acknowledged :: "(nat \<Rightarrow> int list \<Rightarrow> string + unit) \<Rightarrow> nat \<times> int list \<Rightarrow> bool" where
  "acknowledged action p = is_ok (action (fst p) (snd p))"

lemma acknowledged_pair [simp]: "acknowledged action (i, c) = is_ok (action i c)"
  by (simp add: acknowledged_def)

definition ids_in :: "(nat \<times> int list) list \<Rightarrow> nat" where
  "ids_in ps = length (concat (map snd ps))"

lemma run_pieces_ok:
  assumes "run_pieces action continue ps r = (chunks, Inr r')"
  shows "chunks = map snd ps \<and> br_processed r' = br_processed r \<and>
    br_succeeded r' = br_succeeded r + ids_in (filter (acknowledged action) ps) \<and>
    br_failed r' = br_failed r + ids_in (filter (\<lambda>p. \<not> acknowledged action p) ps) \<and>
    br_errors r' = br_errors r @
      map (\<lambda>p. chunk_message (fst p) (length (snd p))) (filter (\<lambda>p. \<not> acknowledged action p) ps)"
  using assms
proof (induction ps arbitrary: r chunks)
  case (Cons p ps)
  obtain i c where p: "p = (i, c)" by force
  show ?case
  proof (cases "action i c")
    case (Inl cause)
    then obtain cs where "chunks = c # cs"
      "run_pieces action continue ps (r\<lparr>br_failed := br_failed r + length c,
         br_errors := br_errors r @ [chunk_message i (length c)]\<rparr>) = (cs, Inr r')"
      using Cons.prems by (auto simp: p split: if_splits prod.splits)
    with Cons.IH [OF this(2)] Inl show ?thesis by (simp add: p ids_in_def)
  next
    case (Inr u)
    then obtain cs where "chunks = c # cs"
      "run_pieces action continue ps (r\<lparr>br_succeeded := br_succeeded r + length c\<rparr>) = (cs, Inr r')"
      using Cons.prems by (auto simp: p split: prod.splits)
    with Cons.IH [OF this(2)] Inr show ?thesis by (simp add: p ids_in_def)
  qed
qed (simp add: ids_in_def)

lemma run_pieces_failed:
  assumes "run_pieces action continue ps r = (chunks, Inl e)"
  shows "\<not> continue \<and> (\<exists>before i c rest cause. ps = before @ (i, c) # rest \<and> list_all (acknowledged action) before \<and>
    action i c = Inl cause \<and> e = ChunkFailed i (length c) cause \<and> chunks = map snd before @ [c])"
  using assms
proof (induction ps arbitrary: r chunks)
  case (Cons p ps)
  obtain i c where p: "p = (i, c)" by force
  show ?case
  proof (cases "action i c")
    case (Inl cause)
    show ?thesis
    proof (cases continue)
      case True
      then show ?thesis using Inl Cons.prems Cons.IH by (auto simp: p split: prod.splits)
    next
      case False
      then show ?thesis
        using Inl Cons.prems
        by (auto simp: p intro!: exI [of _ "[]"])
    qed
  next
    case (Inr u)
    then obtain cs where cs: "chunks = c # cs"
      "run_pieces action continue ps (r\<lparr>br_succeeded := br_succeeded r + length c\<rparr>) = (cs, Inl e)"
      using Cons.prems by (auto simp: p split: prod.splits)
    from Cons.IH [OF cs(2)] obtain before j d rest cause where
      "\<not> continue" "ps = before @ (j, d) # rest" "list_all (acknowledged action) before"
      "action j d = Inl cause" "e = ChunkFailed j (length d) cause" "cs = map snd before @ [d]" by blast
    then show ?thesis
      using Inr by (intro conjI exI [of _ "p # before"]) (auto simp: p cs(1))
  qed
qed simp

lemma ids_in_partition: "ids_in (filter P ps) + ids_in (filter (\<lambda>p. \<not> P p) ps) = ids_in ps"
  by (induction ps) (auto simp: ids_in_def)

lemma positive_integer_pos: "positive_integer q = Some n \<Longrightarrow> 0 < n"
  by (cases q) (auto split: if_splits simp: zero_less_floor)

text \<open>The offsets of the chunks, and the chunks.\<close>

definition offsets :: "nat \<Rightarrow> nat \<Rightarrow> nat list" where
  "offsets n len = map (\<lambda>k. k * n) [0..<(len + n - 1) div n]"

lemma offsets_Nil [simp]: "0 < n \<Longrightarrow> offsets n 0 = []"
  by (simp add: offsets_def)

lemma offsets_step:
  assumes "0 < n" "0 < len"
  shows "offsets n len = 0 # map (\<lambda>i. n + i) (offsets n (len - n))"
proof -
  have "(len + n - 1) div n = Suc ((len - n + n - 1) div n)"
  proof (cases "n \<le> len")
    case True
    then have "len + n - 1 = (len - n + n - 1) + n" using assms by simp
    then show ?thesis using assms(1) by (simp only: div_add_self2)
  next
    case False
    then have "(len - 1) div n = 0" "(n - 1) div n = 0" using assms by simp_all
    moreover have "(n + (len - 1)) div n = (len - 1) div n + 1" using assms(1) by (intro div_add_self1) simp
    moreover have "len + n - 1 = n + (len - 1)" "len - n + n - 1 = n - 1" using assms False by simp_all
    ultimately show ?thesis by (simp only: add_0 Suc_eq_plus1)
  qed
  then show ?thesis
    by (simp add: offsets_def upt_conv_Cons map_Suc_upt [symmetric] o_def del: upt_Suc)
qed

lemma pieces_offsets:
  "0 < n \<Longrightarrow> pieces n start xs = map (\<lambda>i. (start + i, take n (drop i xs))) (offsets n (length xs))"
proof (induction n start xs rule: pieces.induct)
  case (1 n start xs)
  show ?case
  proof (cases "xs = []")
    case True
    then show ?thesis using "1.prems" by (simp add: pieces.simps)
  next
    case False
    then show ?thesis
      using "1.IH" "1.prems"
      by (subst pieces.simps) (simp add: offsets_step o_def add.assoc add.commute [of n])
  qed
qed

lemma executor_pieces:
  assumes "positive_integer (case chunkSize of None \<Rightarrow> DEFAULT_SUBSCRIBER_BULK_CHUNK_SIZE | Some s \<Rightarrow> s) = Some n"
    and "positive_integer (max_items options) = Some m" and "\<not> dry_run options"
  shows "executeSubscriberBulk chunkSize ids action options =
    run_pieces action (continue_on_error options)
      (map (\<lambda>i. (i, take n (drop i (take m ids)))) (offsets n (length (take m ids))))
      \<lparr>br_processed = length (take m ids), br_succeeded = 0, br_failed = 0, br_errors = []\<rparr>"
proof -
  have n: "0 < n" using assms(1) positive_integer_pos by blast
  show ?thesis
  proof (cases "take m ids = []")
    case True
    then have "length (take m ids) = 0" by (simp only: list.size)
    then show ?thesis using assms n True by (simp add: executeSubscriberBulk_def Let_def del: length_take take_eq_Nil)
  next
    case False
    then show ?thesis
      using assms bulk_loop_pieces [OF n, of action "continue_on_error options" "take m ids" 0]
        pieces_offsets [OF n, of 0 "take m ids"]
      by (simp add: executeSubscriberBulk_def Let_def del: length_take take_eq_Nil)
  qed
qed

text \<open>The four operations, and the request each makes for a chunk.\<close>

datatype bulk_operation = AddToLists "int list" | RemoveFromLists "int list" | Blocklist | Unblocklist

fun run_operation ::
  "bulk_client \<Rightarrow> bulk_operation \<Rightarrow> int list \<Rightarrow> bulk_options \<Rightarrow> bulk_request list \<times> (bulk_error + bulk_result)" where
  "run_operation client (AddToLists targets) ids options = addSubscribersToLists client ids targets options"
| "run_operation client (RemoveFromLists targets) ids options = removeSubscribersFromLists client ids targets options"
| "run_operation client Blocklist ids options = blocklistSubscribers client ids options"
| "run_operation client Unblocklist ids options = unblocklistSubscribers client ids options"

fun operation_request :: "bulk_operation \<Rightarrow> int list \<Rightarrow> bulk_request" where
  "operation_request (AddToLists targets) chunk = ManageLists ''add'' chunk targets"
| "operation_request (RemoveFromLists targets) chunk = ManageLists ''remove'' chunk targets"
| "operation_request Blocklist chunk = ManageBlocklist ''add'' chunk"
| "operation_request Unblocklist chunk = ManageBlocklist ''remove'' chunk"

text \<open>A positive acknowledgement: a response without an error whose data is \<open>true\<close>.\<close>

definition positive_reply :: "bulk_reply \<Rightarrow> bool" where
  "positive_reply reply \<longleftrightarrow> (\<exists>r. reply = Response r \<and> rp_error r = None \<and> rp_data r = Some (JBool True))"

lemma acknowledge_positive: "is_ok (acknowledge reply ctx) = positive_reply reply"
  by (cases reply) (auto simp: positive_reply_def requireAcknowledgement_def unwrapResourceResponse_def split: option.split)

lemma run_operation_executor:
  "\<exists>ctx. run_operation client op ids options =
     (case executeSubscriberBulk None ids (\<lambda>offset chunk. acknowledge (client offset (operation_request op chunk)) ctx) options of
        (chunks, r) \<Rightarrow> (map (operation_request op) chunks, r))"
proof (cases op)
  case (AddToLists targets)
  have "operation_request op = (\<lambda>chunk. ManageLists ''add'' chunk targets)" by (rule ext) (simp add: AddToLists)
  then show ?thesis unfolding AddToLists by (auto simp: addSubscribersToLists_def run_bulk_def)
next
  case (RemoveFromLists targets)
  have "operation_request op = (\<lambda>chunk. ManageLists ''remove'' chunk targets)" by (rule ext) (simp add: RemoveFromLists)
  then show ?thesis unfolding RemoveFromLists by (auto simp: removeSubscribersFromLists_def run_bulk_def)
next
  case Blocklist
  have "operation_request op = ManageBlocklist ''add''" by (rule ext) (simp add: Blocklist)
  then show ?thesis
    unfolding Blocklist by (auto simp: blocklistSubscribers_def applyBlocklistAction_def run_bulk_def)
next
  case Unblocklist
  have "operation_request op = ManageBlocklist ''remove''" by (rule ext) (simp add: Unblocklist)
  then show ?thesis
    unfolding Unblocklist by (auto simp: unblocklistSubscribers_def applyBlocklistAction_def run_bulk_def)
qed

text \<open>
  What a run over the ids \<open>capped\<close> sends and reports: \<open>ok i\<close> says that the call for the
  chunk at offset \<open>i\<close> was positively acknowledged.
\<close>

definition accounted ::
  "(nat \<Rightarrow> bool) \<Rightarrow> (int list \<Rightarrow> bulk_request) \<Rightarrow> bool \<Rightarrow> int list \<Rightarrow> bulk_request list \<Rightarrow> bulk_result \<Rightarrow> bool" where
  "accounted ok request continue capped sent r =
     (let chunk = (\<lambda>i. take 500 (drop i capped)); os = offsets 500 (length capped)
      in sent = map (\<lambda>i. request (chunk i)) os \<and> concat (map chunk os) = capped \<and>
         br_processed r = length capped \<and>
         br_succeeded r = sum_list (map (\<lambda>i. length (chunk i)) (filter ok os)) \<and>
         br_failed r = sum_list (map (\<lambda>i. length (chunk i)) (filter (\<lambda>i. \<not> ok i) os)) \<and>
         br_succeeded r + br_failed r = br_processed r \<and>
         br_errors r = map (\<lambda>i. chunk_message i (length (chunk i))) (filter (\<lambda>i. \<not> ok i) os) \<and>
         (continue \<or> list_all ok os))"

definition stopped_at ::
  "(nat \<Rightarrow> bool) \<Rightarrow> (int list \<Rightarrow> bulk_request) \<Rightarrow> int list \<Rightarrow> bulk_request list \<Rightarrow> nat \<Rightarrow> nat \<Rightarrow> bool" where
  "stopped_at ok request capped sent offset n =
     (let chunk = (\<lambda>i. take 500 (drop i capped)); os = offsets 500 (length capped)
      in \<exists>before after. os = before @ offset # after \<and> list_all ok before \<and> \<not> ok offset \<and>
           n = length (chunk offset) \<and> sent = map (\<lambda>i. request (chunk i)) (before @ [offset]))"

lemma ids_in_map: "ids_in (map (\<lambda>i. (i, c i)) is) = sum_list (map (\<lambda>i. length (c i)) is)"
  by (induction "is") (simp_all add: ids_in_def)

lemma run_pieces_stops:
  "run_pieces action continue ps r = (chunks, Inr r') \<Longrightarrow> continue \<or> list_all (acknowledged action) ps"
proof (induction ps arbitrary: r chunks)
  case (Cons p ps)
  obtain i c where p: "p = (i, c)" by force
  show ?case
    using Cons by (cases "action i c") (auto simp: p split: if_splits prod.splits)
qed simp

text \<open>C33: A bulk change of subscribers accounts for every id.  Adding to lists, removing
  from lists, blocklisting and unblocklisting cut the ids up to the limit into chunks of
  500 and, unless it is a dry run, make one request per chunk, in order.  An operation that
  returns has sent every id exactly once; it counts as succeeded the ids of the chunks
  whose call was answered without an error and with the data \<open>true\<close>, as failed those of the
  chunks answered in any other way (an error, no data, another value, an exception), with
  one message for each of these, and it returns in spite of a failed chunk only if it was
  to continue.  One that was not to continue stops at the first such chunk, after the
  acknowledged ones before it, and names its offset and size.  A dry run, and a limit
  that is no positive integer, send nothing.\<close>

theorem bulk_accounts:
  "case (positive_integer (max_items options), run_operation client op ids options) of
     (None, sent, outcome) \<Rightarrow> sent = [] \<and> outcome = Inl InvalidMaxItems
   | (Some m, sent, outcome) \<Rightarrow>
       (let capped = take m ids;
            ok = (\<lambda>i. positive_reply (client i (operation_request op (take 500 (drop i capped)))))
        in if dry_run options
           then sent = [] \<and> outcome = Inr \<lparr>br_processed = length capped, br_succeeded = 0, br_failed = 0, br_errors = []\<rparr>
           else case outcome of
             Inr r \<Rightarrow> accounted ok (operation_request op) (continue_on_error options) capped sent r
           | Inl (ChunkFailed offset n cause) \<Rightarrow>
               \<not> continue_on_error options \<and> stopped_at ok (operation_request op) capped sent offset n
           | Inl _ \<Rightarrow> False)"
proof -
  obtain ctx where op: "run_operation client op ids options =
     (case executeSubscriberBulk None ids (\<lambda>offset chunk. acknowledge (client offset (operation_request op chunk)) ctx) options of
        (chunks, r) \<Rightarrow> (map (operation_request op) chunks, r))"
    using run_operation_executor by blast
  let ?action = "\<lambda>offset chunk. acknowledge (client offset (operation_request op chunk)) ctx"
  have size_500: "positive_integer (case None of None \<Rightarrow> DEFAULT_SUBSCRIBER_BULK_CHUNK_SIZE | Some s \<Rightarrow> s) = Some 500"
    by code_simp
  show ?thesis
  proof (cases "positive_integer (max_items options)")
    case None
    then show ?thesis using size_500 by (simp add: op executeSubscriberBulk_def)
  next
    case (Some m)
    define capped where "capped = take m ids"
    define ok where "ok = (\<lambda>i. positive_reply (client i (operation_request op (take 500 (drop i capped)))))"
    show ?thesis
    proof (cases "dry_run options")
      case True
      then show ?thesis using size_500 Some by (simp add: op executeSubscriberBulk_def Let_def)
    next
      case False
      let ?os = "offsets 500 (length capped)" and ?c = "\<lambda>i. take 500 (drop i capped)"
      let ?ps = "map (\<lambda>i. (i, ?c i)) ?os"
      let ?r = "\<lparr>br_processed = length capped, br_succeeded = 0, br_failed = 0, br_errors = []\<rparr>"
      have run: "executeSubscriberBulk None ids ?action options = run_pieces ?action (continue_on_error options) ?ps ?r"
        unfolding capped_def by (rule executor_pieces [OF size_500 Some False])
      have ack: "is_ok (acknowledge (client i (operation_request op (?c i))) ctx) = ok i" for i
        by (simp add: acknowledge_positive ok_def)
      have all: "concat (map ?c ?os) = capped"
        using concat_pieces [of 500 0 capped] by (simp add: pieces_offsets o_def)
      obtain chunks outcome where result: "run_pieces ?action (continue_on_error options) ?ps ?r = (chunks, outcome)"
        by force
      have "case outcome of
          Inr r \<Rightarrow> accounted ok (operation_request op) (continue_on_error options) capped (map (operation_request op) chunks) r
        | Inl (ChunkFailed offset n cause) \<Rightarrow>
            \<not> continue_on_error options \<and> stopped_at ok (operation_request op) capped (map (operation_request op) chunks) offset n
        | Inl _ \<Rightarrow> False"
      proof (cases outcome)
        case (Inr r)
        note res = run_pieces_ok [OF result [unfolded Inr]] run_pieces_stops [OF result [unfolded Inr]]
        have total: "ids_in ?ps = length capped"
          unfolding ids_in_def by (simp add: o_def all del: length_concat)
        have counts: "br_succeeded r = ids_in (filter (acknowledged ?action) ?ps)"
          "br_failed r = ids_in (filter (\<lambda>p. \<not> acknowledged ?action p) ?ps)" "br_processed r = length capped"
          using res(1) by simp_all
        have "br_succeeded r + br_failed r = length capped"
          unfolding counts using ids_in_partition [of "acknowledged ?action" ?ps] total by simp
        then show ?thesis
          using res counts all
          by (simp add: Inr accounted_def Let_def filter_map o_def ack ids_in_map list.pred_map)
      next
        case (Inl e)
        from run_pieces_failed [OF result [unfolded Inl]] obtain before i c rest cause where
          failed: "\<not> continue_on_error options" "?ps = before @ (i, c) # rest" "list_all (acknowledged ?action) before"
            "?action i c = Inl cause" "e = ChunkFailed i (length c) cause" "chunks = map snd before @ [c]" by blast
        obtain bs as where os: "?os = bs @ i # as" "before = map (\<lambda>i. (i, ?c i)) bs" "c = ?c i"
          using failed(2) by (auto simp: map_eq_append_conv map_eq_Cons_conv)
        have "\<not> ok i" using failed(4) os(3) by (simp add: ack [symmetric])
        moreover have "list_all ok bs" using failed(3) unfolding os(2) by (simp add: list.pred_map o_def ack)
        ultimately have "stopped_at ok (operation_request op) capped (map (operation_request op) chunks) i (length c)"
          unfolding stopped_at_def Let_def
          by (intro exI [of _ bs] exI [of _ as]) (simp add: os failed(6) o_def)
        then show ?thesis using failed(1) by (simp add: Inl failed(5))
      qed
      moreover have "run_operation client op ids options = (map (operation_request op) chunks, outcome)"
        by (simp only: op run result prod.case)
      ultimately show ?thesis
        using False by (simp only: Some prod.case option.case Let_def if_False capped_def [symmetric] ok_def [symmetric])
    qed
  qed
qed

end
