(* ===== verification/Abtest_Statistics.thy ===== *)
theory Abtest_Statistics
  imports Abtest_Lifecycle Js_Double
begin

section \<open>The analysis of an A/B test\<close>

text \<open>
  \<open>statistics.ts\<close> and the analysis of \<open>abtest-service.ts\<close>: Holm's correction, the
  fixed-horizon gate, the sample ratio check, the two-proportion test and the
  choice of the winner.  Numbers are finite doubles, with the rounding of every
  operation; \<open>None\<close> stands for NaN where it can arise.  \<open>Math.sqrt\<close>, \<open>Math.exp\<close> and
  the cube root of \<open>Math.pow\<close> are parameters.
\<close>

record js_math =
  m_sqrt :: "rat \<Rightarrow> rat"
  m_exp :: "rat \<Rightarrow> rat"
  m_cbrt :: "rat \<Rightarrow> rat"

subsection \<open>Holm's correction\<close>

record holm_result =
  originalPValues :: "rat list"
  adjustedPValues :: "rat list"
  significant :: "bool list"
  holm_alpha :: rat

datatype stat_error =
    InvalidAlpha
  | TooFewVariants
  | TooManyVariants
  | NoNonControl
  | RevenueUnsupported
  | TestNotFound
  | HypothesisNotLocked
  | HypothesisTampered
  | MetricsUnavailable string

text \<open>
  The walk over the sorted p-values from a rank on: the adjusted value and the
  flag of each, with its original index.
\<close>

fun holm_walk :: "rat \<Rightarrow> nat \<Rightarrow> nat \<Rightarrow> rat \<Rightarrow> bool \<Rightarrow> (rat \<times> nat) list \<Rightarrow> (nat \<times> rat \<times> bool) list" where
  "holm_walk alpha m rank prevAdjusted stopRejecting [] = []"
| "holm_walk alpha m rank prevAdjusted stopRejecting ((p, i) # ps) =
     (let threshold = dbl (alpha / of_nat (m - rank));
          rawAdjusted = min 1 (dbl (p * of_nat (m - rank)));
          adjusted = max rawAdjusted prevAdjusted;
          stop = (stopRejecting \<or> threshold \<le> p)
      in (i, adjusted, \<not> stop) # holm_walk alpha m (rank + 1) adjusted stop ps)"

definition applyHolmCorrection :: "rat list \<Rightarrow> rat \<Rightarrow> stat_error + holm_result" where
  "applyHolmCorrection pValues alpha =
     (if pValues = [] then
        Inr \<lparr>originalPValues = [], adjustedPValues = [], significant = [], holm_alpha = alpha\<rparr>
      else if alpha \<le> 0 \<or> 1 \<le> alpha then Inl InvalidAlpha
      else
        let m = length pValues;
            walked = holm_walk alpha m 0 0 False (sort_key fst (zip pValues [0..<m]));
            at_index = (\<lambda>i. the (map_of walked i))
        in Inr \<lparr>originalPValues = pValues, adjustedPValues = map (\<lambda>i. fst (at_index i)) [0..<m],
                significant = map (\<lambda>i. snd (at_index i)) [0..<m], holm_alpha = alpha\<rparr>)"

subsection \<open>The fixed-horizon gate\<close>

record statistical_policy =
  sp_confidenceLevel :: rat
  sp_minimumSamplePerVariant :: rat
  sp_minimumDurationHours :: rat
  sp_srmAlpha :: rat

definition DEFAULT_STATISTICAL_POLICY :: statistical_policy where
  "DEFAULT_STATISTICAL_POLICY =
     \<lparr>sp_confidenceLevel = dbl (95 / 100), sp_minimumSamplePerVariant = 100, sp_minimumDurationHours = 24,
      sp_srmAlpha = dbl (1 / 1000)\<rparr>"

datatype reason_code =
    MalformedEndsAt
  | BeforeEndsAt
  | NoStartedAt
  | MalformedStartedAt
  | MinimumDurationNotMet rat
  | MinimumSampleNotMet nat rat
  | SrmInputMismatch

text \<open>An empty text counts as absent.\<close>

definition present :: "string option \<Rightarrow> string option" where
  "present x = (if x = Some [] then None else x)"

definition fixedHorizonGate ::
  "(string \<Rightarrow> instant option) \<Rightarrow> string option \<Rightarrow> string option \<Rightarrow> int \<Rightarrow> statistical_policy \<Rightarrow> rat list \<Rightarrow> reason_code list" where
  "fixedHorizonGate date_parse endsAt startedAt now policy sampleSizes =
     (case present endsAt of
        None \<Rightarrow> []
      | Some e \<Rightarrow> (case date_parse e of
                    None \<Rightarrow> [MalformedEndsAt]
                  | Some t \<Rightarrow> if now < t then [BeforeEndsAt] else [])) @
     (case present startedAt of
        None \<Rightarrow> [NoStartedAt]
      | Some s \<Rightarrow> (case date_parse s of
                    None \<Rightarrow> [MalformedStartedAt]
                  | Some t \<Rightarrow>
                      let elapsedHours = dbl (of_int (now - t) / 3600000)
                      in if elapsedHours < sp_minimumDurationHours policy
                         then [MinimumDurationNotMet elapsedHours] else [])) @
     map (\<lambda>(i, s). MinimumSampleNotMet i s)
       (filter (\<lambda>(i, s). s < sp_minimumSamplePerVariant policy) (enumerate 0 sampleSizes))"

subsection \<open>The normal distribution\<close>

definition erf :: "js_math \<Rightarrow> rat \<Rightarrow> rat" where
  "erf math x =
     (let a1 = dbl (254829592 / 10 ^ 9);
          a2 = dbl (- (284496736 / 10 ^ 9));
          a3 = dbl (1421413741 / 10 ^ 9);
          a4 = dbl (- (1453152027 / 10 ^ 9));
          a5 = dbl (1061405429 / 10 ^ 9);
          p = dbl (3275911 / 10 ^ 7);
          sign = (if 0 \<le> x then 1 else -1);
          x = \<bar>x\<bar>;
          t = dbl (1 / dbl (1 + dbl (p * x)));
          mul_add = (\<lambda>acc a. dbl (dbl (acc * t) + a));
          y = dbl (1 - dbl (dbl (mul_add (mul_add (mul_add (mul_add a5 a4) a3) a2) a1 * t) * m_exp math (dbl (- x * x))))
      in sign * y)"

definition standardNormalCDF :: "js_math \<Rightarrow> rat \<Rightarrow> rat" where
  "standardNormalCDF math z = dbl (1 / 2 * dbl (1 + erf math (dbl (z / m_sqrt math 2))))"

subsection \<open>Sample ratio mismatch\<close>

datatype srm_status = SrmPass | SrmFail | SrmIndeterminate

datatype srm_reason =
    InvalidInput | InsufficientSample | TrafficInZeroExpectedArm | InsufficientActiveArms
  | UnsupportedAlpha rat | SrmDetected

text \<open>The statistic is \<open>None\<close> where the code has positive infinity.\<close>

record srm_result =
  srm_passed :: bool
  srm_status :: srm_status
  srm_chiSquare :: "rat option"
  srm_pValue :: rat
  srm_reason :: "srm_reason option"

definition CHI_SQUARE_CRITICAL :: "nat \<Rightarrow> rat \<Rightarrow> rat option" where
  "CHI_SQUARE_CRITICAL df alpha =
     map_of
       [((1, dbl (1 / 1000)), dbl (10828 / 1000)), ((1, dbl (1 / 100)), dbl (6635 / 1000)),
        ((1, dbl (5 / 100)), dbl (3841 / 1000)), ((2, dbl (1 / 1000)), dbl (13816 / 1000)),
        ((2, dbl (1 / 100)), dbl (9210 / 1000)), ((2, dbl (5 / 100)), dbl (5991 / 1000))]
       (df, alpha)"

definition js_sum :: "rat list \<Rightarrow> rat" where
  "js_sum xs = foldl (\<lambda>s v. dbl (s + v)) 0 xs"

definition srm_indeterminate :: "srm_reason \<Rightarrow> srm_result" where
  "srm_indeterminate why =
     \<lparr>srm_passed = False, srm_status = SrmIndeterminate, srm_chiSquare = Some 0, srm_pValue = 1, srm_reason = Some why\<rparr>"

definition chi_square :: "rat list \<Rightarrow> rat list \<Rightarrow> (rat \<times> rat) list \<Rightarrow> rat" where
  "chi_square expected observed active =
     foldl (\<lambda>sum (e, v).
        let scaled = dbl (dbl (e / js_sum expected) * js_sum observed); d = dbl (v - scaled)
        in dbl (sum + dbl (dbl (d * d) / scaled))) 0 active"

definition chi_p_value :: "js_math \<Rightarrow> nat \<Rightarrow> rat \<Rightarrow> rat" where
  "chi_p_value math df chi =
     (let nine = dbl (2 / of_nat (9 * df));
          ratio = dbl (chi / of_nat df)
      in if ratio \<le> 0 then 1
         else dbl (1 - standardNormalCDF math
                         (dbl (dbl (m_cbrt math ratio - dbl (1 - nine)) / m_sqrt math nine))))"

definition checkSRM :: "js_math \<Rightarrow> rat list \<Rightarrow> rat list \<Rightarrow> rat \<Rightarrow> stat_error + srm_result" where
  "checkSRM math expected observed alpha =
     (if alpha \<le> 0 \<or> 1 \<le> alpha then Inl InvalidAlpha
      else Inr
        (if length expected \<noteq> length observed \<or> length expected < 2 then srm_indeterminate InvalidInput
         else if js_sum expected = 0 \<or> js_sum observed = 0 then srm_indeterminate InsufficientSample
         else
           let pairs = zip expected observed
           in if list_ex (\<lambda>(e, v). e = 0 \<and> 0 < v) pairs
              then \<lparr>srm_passed = False, srm_status = SrmFail, srm_chiSquare = None, srm_pValue = 0,
                    srm_reason = Some TrafficInZeroExpectedArm\<rparr>
              else
                let active = filter (\<lambda>(e, v). 0 < e \<or> 0 < v) pairs
                in if length active < 2 then srm_indeterminate InsufficientActiveArms
                   else
                     let chi = chi_square expected observed active; df = length active - 1
                     in case (case CHI_SQUARE_CRITICAL df alpha of
                                Some c \<Rightarrow> Some c | None \<Rightarrow> CHI_SQUARE_CRITICAL 1 alpha) of
                          None \<Rightarrow> srm_indeterminate (UnsupportedAlpha alpha)
                        | Some c \<Rightarrow>
                            \<lparr>srm_passed = (chi < c), srm_status = (if chi < c then SrmPass else SrmFail),
                             srm_chiSquare = Some chi, srm_pValue = chi_p_value math df chi,
                             srm_reason = (if chi < c then None else Some SrmDetected)\<rparr>))"

subsection \<open>Significance\<close>

record variant_result =
  vr_variantId :: string
  vr_sampleSize :: rat
  vr_clicks :: rat
  vr_conversions :: rat
  vr_revenue :: "rat option"
  vr_clickRate :: rat
  vr_conversionRate :: rat

datatype metric_type = ConversionRate | ClickRate | RevenuePerRecipient

datatype metric_direction = Maximize | Minimize

record hypothesis_metadata =
  hyp_lockedAt :: "string option"
  hyp_checksum :: "string option"
  hyp_type :: metric_type
  hyp_direction :: metric_direction

record significance =
  sg_zScore :: rat
  sg_pValue :: rat
  sg_correctedPValue :: "rat option"
  sg_isSignificant :: bool
  sg_sampleSize :: rat

definition pickMetric :: "variant_result list \<Rightarrow> hypothesis_metadata option \<Rightarrow> metric_type \<times> metric_direction" where
  "pickMetric results hypothesis =
     (case hypothesis of
        Some h \<Rightarrow> (hyp_type h, hyp_direction h)
      | None \<Rightarrow> ((if list_ex (\<lambda>r. 0 < vr_conversions r) results then ConversionRate else ClickRate), Maximize))"

fun metric_rate :: "metric_type \<Rightarrow> variant_result \<Rightarrow> rat" where
  "metric_rate ConversionRate r = vr_conversionRate r"
| "metric_rate ClickRate r = vr_clickRate r"
| "metric_rate RevenuePerRecipient r =
     (case vr_revenue r of
        Some v \<Rightarrow> if 0 < vr_sampleSize r then dbl (v / vr_sampleSize r) else 0
      | None \<Rightarrow> 0)"

definition metric_count :: "metric_type \<Rightarrow> variant_result \<Rightarrow> rat" where
  "metric_count metric r = (if metric = ConversionRate then vr_conversions r else vr_clicks r)"

fun better :: "metric_direction \<Rightarrow> rat \<Rightarrow> rat \<Rightarrow> bool" where
  "better Minimize a b = (a < b)"
| "better Maximize a b = (b < a)"

text \<open>\<open>reduce\<close> with the better of two, the earlier one in a tie.\<close>

definition best_of :: "metric_type \<Rightarrow> metric_direction \<Rightarrow> variant_result list \<Rightarrow> variant_result" where
  "best_of metric direction rs =
     foldl (\<lambda>best current. if better direction (metric_rate metric current) (metric_rate metric best)
                           then current else best) (hd rs) (tl rs)"

text \<open>The standard error of two proportions: \<open>None\<close> for NaN.\<close>

definition standard_error :: "js_math \<Rightarrow> metric_type \<Rightarrow> variant_result \<Rightarrow> variant_result \<Rightarrow> rat option" where
  "standard_error math metric a b =
     (let n1 = vr_sampleSize a; n2 = vr_sampleSize b;
          pooled = dbl (dbl (metric_count metric a + metric_count metric b) / dbl (n1 + n2));
          v = dbl (dbl (pooled * dbl (1 - pooled)) * dbl (dbl (1 / n1) + dbl (1 / n2)))
      in if v < 0 then None else Some (m_sqrt math v))"

definition two_tailed :: "js_math \<Rightarrow> metric_type \<Rightarrow> variant_result \<Rightarrow> variant_result \<Rightarrow> rat \<Rightarrow> rat \<times> rat" where
  "two_tailed math metric a b se =
     (let z = dbl (\<bar>dbl (dbl (metric_rate metric a / 100) - dbl (metric_rate metric b / 100))\<bar> / se)
      in (z, dbl (2 * dbl (1 - standardNormalCDF math z))))"

text \<open>The p-value of a variant against the control in the family of comparisons.\<close>

definition pairwise_p :: "js_math \<Rightarrow> metric_type \<Rightarrow> variant_result \<Rightarrow> variant_result \<Rightarrow> rat" where
  "pairwise_p math metric control v =
     (if vr_sampleSize v = 0 \<or> vr_sampleSize control = 0 then 1
      else case standard_error math metric control v of
             None \<Rightarrow> 1
           | Some se \<Rightarrow> if se = 0 then 1 else snd (two_tailed math metric control v se))"

definition ranked :: "metric_type \<Rightarrow> metric_direction \<Rightarrow> variant_result list \<Rightarrow> variant_result list" where
  "ranked metric direction rs =
     sort_key (\<lambda>r. case direction of Minimize \<Rightarrow> metric_rate metric r | Maximize \<Rightarrow> - metric_rate metric r) rs"

definition flag_at :: "stat_error + holm_result \<Rightarrow> nat option \<Rightarrow> bool" where
  "flag_at h i =
     (case (h, i) of (Inr r, Some k) \<Rightarrow> k < length (significant r) \<and> significant r ! k | _ \<Rightarrow> False)"

definition adjusted_at :: "stat_error + holm_result \<Rightarrow> nat option \<Rightarrow> rat" where
  "adjusted_at h i =
     (case (h, i) of
        (Inr r, Some k) \<Rightarrow> if k < length (adjustedPValues r) then adjustedPValues r ! k else 1
      | _ \<Rightarrow> 1)"

text \<open>Whether the two leaders are told apart; \<open>family\<close> has the comparisons with the control.\<close>

definition top_two_separated ::
  "js_math \<Rightarrow> metric_type \<Rightarrow> rat \<Rightarrow> variant_result \<Rightarrow> variant_result list \<Rightarrow> rat list \<Rightarrow> variant_result \<Rightarrow> variant_result \<Rightarrow> bool" where
  "top_two_separated math metric alpha control nonControl family first second =
     (if \<not> (0 < vr_sampleSize first \<and> 0 < vr_sampleSize second) then True
      else if (case standard_error math metric first second of Some se \<Rightarrow> 0 < se | None \<Rightarrow> False) then
        (if vr_variantId first = vr_variantId control \<or> vr_variantId second = vr_variantId control
         then flag_at (applyHolmCorrection family alpha)
                (findIndex (\<lambda>r. vr_variantId r =
                    vr_variantId (if vr_variantId first = vr_variantId control then second else first)) nonControl)
         else
           let all = family @ [snd (two_tailed math metric first second (the (standard_error math metric first second)))]
           in flag_at (applyHolmCorrection all alpha) (Some (length all - 1)))
      else dbl (metric_rate metric first / 100) \<noteq> dbl (metric_rate metric second / 100))"

text \<open>The variant the control is compared with: the best, or the best of the others.\<close>

definition test_group ::
  "metric_type \<Rightarrow> metric_direction \<Rightarrow> variant_result list \<Rightarrow> variant_result \<Rightarrow> stat_error + variant_result" where
  "test_group metric direction results control =
     (let best = best_of metric direction results;
          nonControl = filter (\<lambda>r. vr_variantId r \<noteq> vr_variantId control) results
      in if vr_variantId best = vr_variantId control then
           (if nonControl = [] then Inl NoNonControl else Inr (best_of metric direction nonControl))
         else Inr best)"

definition insignificant :: "rat \<Rightarrow> significance" where
  "insignificant n =
     \<lparr>sg_zScore = 0, sg_pValue = 1, sg_correctedPValue = None, sg_isSignificant = False, sg_sampleSize = n\<rparr>"

definition analyzeStatisticalSignificance ::
  "js_math \<Rightarrow> variant_result list \<Rightarrow> rat \<Rightarrow> hypothesis_metadata option \<Rightarrow> stat_error + significance" where
  "analyzeStatisticalSignificance math results confidenceThreshold hypothesis =
     (if length results < 2 then Inl TooFewVariants
      else if 3 < length results then Inl TooManyVariants
      else if confidenceThreshold \<le> 0 \<or> 1 \<le> confidenceThreshold then Inl InvalidAlpha
      else
        let alpha = dbl (1 - confidenceThreshold);
            control = hd results;
            metric = fst (pickMetric results hypothesis);
            direction = snd (pickMetric results hypothesis)
        in if metric = RevenuePerRecipient then Inl RevenueUnsupported
           else case test_group metric direction results control of
             Inl e \<Rightarrow> Inl e
           | Inr treatment \<Rightarrow>
               let n = dbl (vr_sampleSize control + vr_sampleSize treatment)
               in if vr_sampleSize control = 0 \<or> vr_sampleSize treatment = 0 then Inr (insignificant n)
                  else case standard_error math metric control treatment of
                    None \<Rightarrow> Inr (insignificant n)
                  | Some se \<Rightarrow>
                      if se = 0 then Inr (insignificant n)
                      else
                        let (z, p) = two_tailed math metric control treatment se
                        in if length results > 2 then
                             let nonControl = filter (\<lambda>r. vr_variantId r \<noteq> vr_variantId control) results;
                                 family = map (pairwise_p math metric control) nonControl;
                                 idx = findIndex (\<lambda>r. vr_variantId r = vr_variantId treatment) nonControl;
                                 order = ranked metric direction results
                             in (case applyHolmCorrection family alpha of
                                   Inl e \<Rightarrow> Inl e
                                 | Inr h \<Rightarrow>
                                     Inr \<lparr>sg_zScore = z, sg_pValue = p,
                                          sg_correctedPValue = Some (adjusted_at (Inr h) idx),
                                          sg_isSignificant =
                                            (flag_at (Inr h) idx \<and>
                                             top_two_separated math metric alpha control nonControl family
                                               (order ! 0) (order ! 1)),
                                          sg_sampleSize = n\<rparr>)
                           else Inr \<lparr>sg_zScore = z, sg_pValue = p, sg_correctedPValue = None,
                                     sg_isSignificant = (p < alpha), sg_sampleSize = n\<rparr>)"

subsection \<open>The winner\<close>

record analyzed_test =
  at_confidenceThreshold :: rat
  at_hypothesis :: "hypothesis_metadata option"
  at_durationHours :: "rat option"
  at_minimumTestSampleSize :: "rat option"
  at_launchAt :: "string option"
  at_startedAt :: "string option"
  at_endsAt :: "string option"
  at_manifestCounts :: "rat list option"
  at_fullSplit :: bool
  at_variants :: "(string \<times> rat) list"

record test_analysis =
  ta_significance :: significance
  ta_reasonCodes :: "reason_code list"
  ta_srm :: "(bool \<times> rat) option"
  ta_winner :: "string option"

definition test_policy :: "analyzed_test \<Rightarrow> statistical_policy" where
  "test_policy t =
     DEFAULT_STATISTICAL_POLICY
       \<lparr>sp_confidenceLevel := at_confidenceThreshold t,
        sp_minimumDurationHours :=
          (case at_durationHours t of Some h \<Rightarrow> h | None \<Rightarrow> sp_minimumDurationHours DEFAULT_STATISTICAL_POLICY),
        sp_minimumSamplePerVariant :=
          (case at_minimumTestSampleSize t of
             Some n \<Rightarrow> n | None \<Rightarrow> sp_minimumSamplePerVariant DEFAULT_STATISTICAL_POLICY)\<rparr>"

text \<open>The expected counts: of the manifest's variant groups, or of the percentages of a full split.\<close>

definition srm_expected :: "analyzed_test \<Rightarrow> variant_result list \<Rightarrow> rat list option" where
  "srm_expected t results =
     (case at_manifestCounts t of
        Some cs \<Rightarrow> Some cs
      | None \<Rightarrow>
          if at_fullSplit t
          then let total_sample = js_sum (map vr_sampleSize results)
               in Some (map (\<lambda>v. of_int \<lfloor>dbl (dbl (snd v / 100) * total_sample) + 1 / 2\<rfloor>) (at_variants t))
          else None)"

definition srm_outcome ::
  "js_math \<Rightarrow> analyzed_test \<Rightarrow> variant_result list \<Rightarrow> stat_error + (bool \<times> rat) option \<times> reason_code list" where
  "srm_outcome math t results =
     (case srm_expected t results of
        None \<Rightarrow> Inr (None, [])
      | Some expected \<Rightarrow>
          if length expected = length results \<and> 2 \<le> length expected
          then (case checkSRM math expected (map vr_sampleSize results) (dbl (1 / 1000)) of
                  Inl e \<Rightarrow> Inl e
                | Inr r \<Rightarrow> Inr (Some (srm_passed r, srm_pValue r), []))
          else Inr (Some (False, 1), [SrmInputMismatch]))"

definition best_rate :: "metric_type \<Rightarrow> metric_direction \<Rightarrow> variant_result list \<Rightarrow> rat" where
  "best_rate metric direction rs =
     (let rates = map (metric_rate metric) rs
      in case direction of Minimize \<Rightarrow> Min (set rates) | Maximize \<Rightarrow> Max (set rates))"

text \<open>\<open>checksum_ok\<close> is the verification of the hypothesis's checksum.\<close>

definition hypothesis_issue :: "(hypothesis_metadata \<Rightarrow> bool) \<Rightarrow> analyzed_test \<Rightarrow> stat_error option" where
  "hypothesis_issue checksum_ok t =
     (case at_hypothesis t of
        None \<Rightarrow> None
      | Some h \<Rightarrow>
          if present (hyp_lockedAt h) = None \<or> present (hyp_checksum h) = None then Some HypothesisNotLocked
          else if \<not> checksum_ok h then Some HypothesisTampered else None)"

definition analyzeTest ::
  "js_math \<Rightarrow> (string \<Rightarrow> instant option) \<Rightarrow> (hypothesis_metadata \<Rightarrow> bool) \<Rightarrow> int \<Rightarrow> analyzed_test \<Rightarrow>
     (string + variant_result list) \<Rightarrow> stat_error + test_analysis" where
  "analyzeTest math date_parse checksum_ok now t metrics =
     (case hypothesis_issue checksum_ok t of
        Some e \<Rightarrow> Inl e
      | None \<Rightarrow>
          (case metrics of
             Inl e \<Rightarrow> Inl (MetricsUnavailable e)
           | Inr results \<Rightarrow>
               (case analyzeStatisticalSignificance math results (at_confidenceThreshold t) (at_hypothesis t) of
                  Inl e \<Rightarrow> Inl e
                | Inr analysis \<Rightarrow>
                    (case srm_outcome math t results of
                       Inl e \<Rightarrow> Inl e
                     | Inr (srm, extra) \<Rightarrow>
                         let durationRef = (case at_launchAt t of Some l \<Rightarrow> Some l | None \<Rightarrow> at_startedAt t);
                             codes = fixedHorizonGate date_parse (at_endsAt t) durationRef now (test_policy t)
                                       (map vr_sampleSize results);
                             gatesPassed = (codes = [] \<and> (case srm of Some (passed, _) \<Rightarrow> passed | None \<Rightarrow> True));
                             significant_now = (gatesPassed \<and> sg_isSignificant analysis);
                             metric = fst (pickMetric results (at_hypothesis t));
                             direction = snd (pickMetric results (at_hypothesis t));
                             top = best_rate metric direction results;
                             leads = (\<lambda>v. list_ex (\<lambda>r. vr_variantId r = fst v \<and> metric_rate metric r = top) results)
                         in Inr \<lparr>ta_significance = analysis\<lparr>sg_isSignificant := significant_now\<rparr>,
                                 ta_reasonCodes = codes @ extra, ta_srm = srm,
                                 ta_winner = (if significant_now then map_option fst (List.find leads (at_variants t))
                                              else None)\<rparr>))))"

end
