(* ===== verification/Statistics_Properties.thy ===== *)
theory Statistics_Properties
  imports Abtest_Statistics Lifecycle_Properties "HOL-Library.Multiset"
begin

section \<open>Properties of the analysis\<close>

text \<open>
  Rounding is monotone, so Holm's walk flags exactly what the order-free
  definition of the correction flags; what a declared winner implies; and the
  comparison that is not made when its standard error is not a number.
\<close>

subsection \<open>Holm's correction\<close>

definition holm_threshold :: "rat \<Rightarrow> nat \<Rightarrow> rat" where
  "holm_threshold alpha k = dbl (alpha / of_nat k)"

text \<open>The flags of the walk, by rank: every value up to the rank is below its threshold.\<close>

lemma map_fst_holm_walk [simp]: "map fst (holm_walk alpha m rank prev stop ps) = map snd ps"
  by (induction ps arbitrary: rank prev stop) (auto simp: Let_def)

lemma length_holm_walk [simp]: "length (holm_walk alpha m rank prev stop ps) = length ps"
  by (metis length_map map_fst_holm_walk)

lemma holm_walk_flag:
  "r < length ps \<Longrightarrow> snd (snd (holm_walk alpha m rank prev stop ps ! r)) =
     (\<not> stop \<and> (\<forall>q \<le> r. fst (ps ! q) < holm_threshold alpha (m - (rank + q))))"
proof (induction ps arbitrary: rank prev stop r)
  case (Cons x ps)
  show ?case
  proof (cases r)
    case 0
    then show ?thesis by (cases x) (auto simp: Let_def holm_threshold_def not_le)
  next
    case (Suc k)
    have "(\<forall>q \<le> Suc k. P q) = (P 0 \<and> (\<forall>q \<le> k. P (Suc q)))" for P :: "nat \<Rightarrow> bool"
      by (metis (no_types) Suc_le_mono le0 not0_implies_Suc)
    then show ?thesis
      using Suc Cons by (cases x) (auto simp: Let_def holm_threshold_def not_le)
  qed
qed simp

text \<open>In a sorted list the first of the equal values is at the number of smaller ones.\<close>

lemma sorted_first_equal:
  assumes "sorted xs" "r < length xs"
  shows "length (filter (\<lambda>x. x < xs ! r) xs) \<le> r \<and> xs ! length (filter (\<lambda>x. x < xs ! r) xs) = xs ! r"
  using assms
proof (induction xs arbitrary: r)
  case (Cons x xs)
  show ?case
  proof (cases r)
    case 0
    then show ?thesis using Cons.prems(1) by (auto simp: filter_empty_conv not_less)
  next
    case (Suc k)
    then have k: "k < length xs" "x \<le> xs ! k" using Cons.prems by auto
    with Cons.IH [of k] Cons.prems(1) Suc show ?thesis
      by (auto simp: filter_empty_conv not_less nth_Cons' intro: order.antisym)
  qed
qed simp

text \<open>
  The order-free definition: a comparison is significant if every value not
  above its own is below the level divided by the number of values not below it.
\<close>

definition holm_rejects :: "rat list \<Rightarrow> rat \<Rightarrow> rat \<Rightarrow> bool" where
  "holm_rejects ps alpha own =
     list_all (\<lambda>p. p \<le> own \<longrightarrow> p < holm_threshold alpha (length (filter (\<lambda>q. p \<le> q) ps))) ps"

lemma length_filter_mono: "(\<And>x. P x \<Longrightarrow> Q x) \<Longrightarrow> length (filter P xs) \<le> length (filter Q xs)"
  by (induction xs) auto

lemma sorted_flags:
  assumes "sorted xs" "r < length xs" "0 < alpha"
  shows "(\<forall>q \<le> r. xs ! q < holm_threshold alpha (length xs - q)) = holm_rejects xs alpha (xs ! r)"
proof -
  let ?below = "\<lambda>p. length (filter (\<lambda>x. x < p) xs)"
  have above: "length (filter (\<lambda>q. p \<le> q) xs) = length xs - ?below p" for p
    using sum_length_filter_compl [of "\<lambda>x. x < p" xs] by (simp add: not_less)
  have "p < holm_threshold alpha (length xs - ?below p)"
    if all: "\<forall>q \<le> r. xs ! q < holm_threshold alpha (length xs - q)" and p: "p \<in> set xs" "p \<le> xs ! r" for p
  proof -
    obtain s where s: "s < length xs" "xs ! s = p" using p(1) by (meson in_set_conv_nth)
    have "?below p \<le> ?below (xs ! r)"
      using p(2) by (intro length_filter_mono) simp
    also have "\<dots> \<le> r" using sorted_first_equal [OF assms(1,2)] by simp
    finally show ?thesis
      using all sorted_first_equal [OF assms(1) s(1)] s(2) by metis
  qed
  moreover have "xs ! q < holm_threshold alpha (length xs - q)"
    if all: "\<And>p. p \<in> set xs \<Longrightarrow> p \<le> xs ! r \<Longrightarrow> p < holm_threshold alpha (length xs - ?below p)" and q: "q \<le> r" for q
  proof -
    have len: "q < length xs" using q assms(2) by simp
    have "xs ! q < holm_threshold alpha (length xs - ?below (xs ! q))"
      using all [of "xs ! q"] len sorted_nth_mono [OF assms(1) q assms(2)] by simp
    also have "\<dots> \<le> holm_threshold alpha (length xs - q)"
      unfolding holm_threshold_def
      by (rule dbl_mono) (use sorted_first_equal [OF assms(1) len] len assms(3) in \<open>auto intro!: divide_left_mono\<close>)
    finally show ?thesis .
  qed
  ultimately show ?thesis
    unfolding holm_rejects_def list_all_iff above by blast
qed

lemma holm_rejects_mset:
  assumes "mset xs = mset ys" shows "holm_rejects xs alpha own = holm_rejects ys alpha own"
proof -
  have "length (filter P xs) = length (filter P ys)" for P
    using assms by (metis mset_filter size_mset)
  then show ?thesis using mset_eq_setD [OF assms] by (simp add: holm_rejects_def list_all_iff)
qed

lemma holm_flags_value:
  assumes "applyHolmCorrection pValues alpha = Inr h" and "k < length pValues"
  shows "significant h ! k = holm_rejects pValues alpha (pValues ! k)"
proof -
  let ?m = "length pValues"
  let ?L = "sort_key fst (zip pValues [0..<?m])"
  let ?W = "holm_walk alpha ?m 0 0 False ?L"
  have alpha: "0 < alpha" and h: "significant h = map (\<lambda>i. snd (the (map_of ?W i))) [0..<?m]"
    using assms by (auto simp: applyHolmCorrection_def Let_def split: if_splits)
  have "(pValues ! k, k) \<in> set ?L"
    using assms(2) by (force simp: set_zip)
  then obtain r where r: "r < length ?L" "?L ! r = (pValues ! k, k)" by (meson in_set_conv_nth)
  have "mset (map snd ?L) = mset (map snd (zip pValues [0..<?m]))"
    by (simp only: mset_map mset_sort)
  also have "\<dots> = mset [0..<?m]" by (subst map_snd_zip) simp_all
  finally have "distinct (map fst ?W)"
    using mset_eq_imp_distinct_iff by fastforce
  moreover have "fst (?W ! r) = k"
    using r by (metis (no_types) length_holm_walk map_fst_holm_walk nth_map snd_conv)
  ultimately have "map_of ?W k = Some (snd (?W ! r))"
    using r(1) by (metis length_holm_walk map_of_eq_Some_iff nth_mem prod.collapse)
  then have "significant h ! k = (\<forall>q \<le> r. fst (?L ! q) < holm_threshold alpha (?m - q))"
    using assms(2) holm_walk_flag [OF r(1), of alpha ?m 0 0 False] by (simp add: h)
  also have "\<dots> = (\<forall>q \<le> r. map fst ?L ! q < holm_threshold alpha (length (map fst ?L) - q))"
    using r(1) by simp
  also have "\<dots> = holm_rejects (map fst ?L) alpha (map fst ?L ! r)"
    using r(1) alpha by (intro sorted_flags) simp_all
  also have "mset (map fst ?L) = mset (map fst (zip pValues [0..<?m]))"
    by (simp only: mset_map mset_sort)
  then have "mset (map fst ?L) = mset pValues" by (subst (asm) map_fst_zip) simp_all
  from holm_rejects_mset [OF this]
  have "holm_rejects (map fst ?L) alpha (map fst ?L ! r) = holm_rejects pValues alpha (pValues ! k)"
    using r by simp
  finally show ?thesis .
qed

lemma holm_family_length:
  "applyHolmCorrection ps alpha = Inr h \<Longrightarrow> length (significant h) = length ps"
  by (auto simp: applyHolmCorrection_def Let_def split: if_splits)

text \<open>C22: Holm's correction flags what its definition flags.  For every p-value of a
  family, whatever the order and however values are tied, the flag the walk
  leaves at its index says that each value of the family not above it is below the
  level divided by the number of values not below that one, so equal p-values get
  equal flags and a smaller one is never refused where a larger one is accepted.\<close>

theorem holm_flags_definition:
  assumes "applyHolmCorrection pValues alpha = Inr h"
  shows "significant h = map (holm_rejects pValues alpha) pValues"
  using holm_flags_value [OF assms] holm_family_length [OF assms] by (simp add: list_eq_iff_nth_eq)

subsection \<open>The winner\<close>

definition leads :: "metric_type \<Rightarrow> metric_direction \<Rightarrow> variant_result list \<Rightarrow> variant_result \<Rightarrow> bool" where
  "leads metric direction results r =
     (r \<in> set results \<and>
      (\<forall>q \<in> set results. \<not> better direction (metric_rate metric q) (metric_rate metric r)))"

text \<open>
  What makes a comparison with the control significant.  \<open>comparison_rejected\<close>: Holm's
  correction over the comparisons of a family rejects the comparison of the variant
  named.  \<open>leaders_apart\<close>: the first two results of the ranking are told apart, by the
  comparison with the control when one of them is the control and otherwise by their
  own comparison, added to the family; where their standard error is no positive number
  their rates differ, and nothing is asked of a leader without a sample.
\<close>

definition comparison_rejected :: "variant_result list \<Rightarrow> rat list \<Rightarrow> rat \<Rightarrow> string \<Rightarrow> bool" where
  "comparison_rejected nonControl family alpha v \<longleftrightarrow>
     (\<exists>k < length nonControl. vr_variantId (nonControl ! k) = v \<and> holm_rejects family alpha (family ! k))"

definition leaders_apart ::
  "js_math \<Rightarrow> metric_type \<Rightarrow> rat \<Rightarrow> variant_result \<Rightarrow> variant_result list \<Rightarrow> rat list \<Rightarrow>
     variant_result \<Rightarrow> variant_result \<Rightarrow> bool" where
  "leaders_apart math metric alpha control nonControl family first second \<longleftrightarrow>
     (0 < vr_sampleSize first \<and> 0 < vr_sampleSize second \<longrightarrow>
       (case standard_error math metric first second of
          None \<Rightarrow> dbl (metric_rate metric first / 100) \<noteq> dbl (metric_rate metric second / 100)
        | Some se \<Rightarrow>
            if se \<le> 0 then dbl (metric_rate metric first / 100) \<noteq> dbl (metric_rate metric second / 100)
            else if vr_variantId first = vr_variantId control
            then comparison_rejected nonControl family alpha (vr_variantId second)
            else if vr_variantId second = vr_variantId control
            then comparison_rejected nonControl family alpha (vr_variantId first)
            else let p = snd (two_tailed math metric first second se)
                 in holm_rejects (family @ [p]) alpha p))"

text \<open>The comparisons behind a significant result of two or three variants.\<close>

definition significant_comparison ::
  "js_math \<Rightarrow> metric_type \<Rightarrow> metric_direction \<Rightarrow> rat \<Rightarrow> variant_result list \<Rightarrow> bool" where
  "significant_comparison math metric direction alpha results \<longleftrightarrow>
     (let control = hd results;
          nonControl = filter (\<lambda>r. vr_variantId r \<noteq> vr_variantId control) results;
          family = map (pairwise_p math metric control) nonControl
      in \<exists>treatment. leads metric direction nonControl treatment \<and>
           (if length results = 2 then pairwise_p math metric control treatment < alpha
            else comparison_rejected nonControl family alpha (vr_variantId treatment) \<and>
              (\<exists>first second rest. mset results = mset (first # second # rest) \<and>
                 leads metric direction results first \<and> leads metric direction (second # rest) second \<and>
                 leaders_apart math metric alpha control nonControl family first second)))"

lemma gate_nil:
  assumes "fixedHorizonGate date_parse endsAt startedAt now policy sizes = []"
  shows "(case present endsAt of None \<Rightarrow> True | Some e \<Rightarrow> (case date_parse e of None \<Rightarrow> False | Some t \<Rightarrow> t \<le> now)) \<and>
    (case present startedAt of None \<Rightarrow> False | Some s \<Rightarrow> (case date_parse s of None \<Rightarrow> False
       | Some t \<Rightarrow> sp_minimumDurationHours policy \<le> dbl (of_int (now - t) / 3600000))) \<and>
    list_all (\<lambda>s. sp_minimumSamplePerVariant policy \<le> s) sizes"
proof -
  have "filter (\<lambda>(i, s). s < sp_minimumSamplePerVariant policy) (enumerate 0 sizes) = []"
    using assms by (simp add: fixedHorizonGate_def)
  then have "\<forall>p \<in> set (enumerate 0 sizes). \<not> snd p < sp_minimumSamplePerVariant policy"
    by (simp add: filter_empty_conv case_prod_unfold)
  then have "\<forall>x \<in> set (map snd (enumerate 0 sizes)). \<not> x < sp_minimumSamplePerVariant policy"
    unfolding set_map by blast
  then have "list_all (\<lambda>s. sp_minimumSamplePerVariant policy \<le> s) sizes"
    by (simp add: list_all_iff not_less)
  then show ?thesis
    using assms by (auto simp: fixedHorizonGate_def Let_def not_less split: option.splits if_splits)
qed

lemma best_rate_leads:
  assumes "r \<in> set results" "metric_rate metric r = best_rate metric direction results"
  shows "leads metric direction results r"
proof -
  have fin: "finite (set (map (metric_rate metric) results))" by simp
  have "\<not> better direction (metric_rate metric q) (metric_rate metric r)" if "q \<in> set results" for q
    using Min_le [OF fin, of "metric_rate metric q"] Max_ge [OF fin, of "metric_rate metric q"] that
    by (cases direction) (auto simp: assms(2) best_rate_def not_less)
  with assms(1) show ?thesis by (simp add: leads_def)
qed

lemma leads_key:
  "leads metric direction rs r \<longleftrightarrow>
     (let key = (\<lambda>r. case direction of Minimize \<Rightarrow> metric_rate metric r | Maximize \<Rightarrow> - metric_rate metric r)
      in r \<in> set rs \<and> (\<forall>q \<in> set rs. key r \<le> key q))"
  by (cases direction) (auto simp: leads_def Let_def not_less)

lemma best_of_leads:
  assumes "rs \<noteq> []"
  shows "leads metric direction rs (best_of metric direction rs)"
proof -
  let ?pick = "\<lambda>best current. if better direction (metric_rate metric current) (metric_rate metric best) then current else best"
  have "leads metric direction (seen @ xs) (foldl ?pick b xs)" if "leads metric direction seen b" for seen b xs
    using that
  proof (induction xs arbitrary: seen b)
    case (Cons x xs)
    have "leads metric direction (seen @ [x]) (?pick b x)"
      using Cons.prems by (cases direction) (auto simp: leads_def)
    from Cons.IH [OF this] show ?case by simp
  qed simp
  from this [of "[hd rs]" "hd rs" "tl rs"] show ?thesis
    using assms by (cases direction) (simp_all add: best_of_def leads_def)
qed

lemma leads_subset: "leads metric direction rs r \<Longrightarrow> set qs \<subseteq> set rs \<Longrightarrow> r \<in> set qs \<Longrightarrow> leads metric direction qs r"
  by (auto simp: leads_def)

lemma test_group_leads:
  assumes "test_group metric direction results control = Inr treatment" "results \<noteq> []"
  shows "leads metric direction (filter (\<lambda>r. vr_variantId r \<noteq> vr_variantId control) results) treatment"
proof (cases "vr_variantId (best_of metric direction results) = vr_variantId control")
  case True
  then show ?thesis
    using assms(1) best_of_leads [of "filter (\<lambda>r. vr_variantId r \<noteq> vr_variantId control) results" metric direction]
    by (auto simp: test_group_def Let_def split: if_splits)
next
  case False
  have best: "leads metric direction results (best_of metric direction results)"
    by (rule best_of_leads [OF assms(2)])
  moreover have "treatment = best_of metric direction results"
    using assms(1) False by (simp add: test_group_def Let_def)
  ultimately show ?thesis using False by (auto simp: leads_def)
qed

lemma ranked_leads:
  assumes "3 \<le> length results"
  obtains first second rest where "ranked metric direction results = first # second # rest"
    "mset results = mset (first # second # rest)"
    "leads metric direction results first" "leads metric direction (second # rest) second"
proof -
  let ?key = "\<lambda>r. case direction of Minimize \<Rightarrow> metric_rate metric r | Maximize \<Rightarrow> - metric_rate metric r"
  have len: "length (ranked metric direction results) \<ge> 2" using assms by (simp add: ranked_def)
  obtain first second rest where r: "ranked metric direction results = first # second # rest"
    using len by (metis Suc_le_length_iff numeral_2_eq_2)
  have m: "mset results = mset (first # second # rest)" unfolding r [symmetric] by (simp add: ranked_def)
  have "sorted (map ?key (first # second # rest))" unfolding r [symmetric] by (simp add: ranked_def)
  then have s: "\<forall>q \<in> set (first # second # rest). ?key first \<le> ?key q" "\<forall>q \<in> set (second # rest). ?key second \<le> ?key q"
    by auto
  have "set results = set (first # second # rest)" using mset_eq_setD [OF m] .
  then have "leads metric direction results first" "leads metric direction (second # rest) second"
    unfolding leads_key Let_def using s by auto
  then show thesis using that [OF r m] by blast
qed

lemma flag_index:
  assumes "flag_at (applyHolmCorrection ps alpha) (Some k)"
  shows "k < length ps \<and> holm_rejects ps alpha (ps ! k)"
proof -
  obtain h where h: "applyHolmCorrection ps alpha = Inr h" "k < length (significant h)" "significant h ! k"
    using assms by (auto simp: flag_at_def split: sum.splits)
  then have k: "k < length ps" by (simp add: holm_family_length)
  then show ?thesis using holm_flags_value [OF h(1) k] h(3) by simp
qed

lemma flag_comparison:
  assumes "flag_at (applyHolmCorrection (map f nonControl) alpha) (findIndex (\<lambda>r. vr_variantId r = v) nonControl)"
  shows "comparison_rejected nonControl (map f nonControl) alpha v"
proof (cases "findIndex (\<lambda>r. vr_variantId r = v) nonControl")
  case None
  then show ?thesis using assms by (simp add: flag_at_def split: sum.splits)
next
  case (Some k)
  have "k < length (map f nonControl)" "holm_rejects (map f nonControl) alpha (map f nonControl ! k)"
    using flag_index assms unfolding Some by blast+
  moreover have "vr_variantId (nonControl ! k) = v" using findIndex_SomeD [OF Some] by blast
  ultimately show ?thesis by (auto simp: comparison_rejected_def)
qed

lemma separated_apart:
  assumes "top_two_separated math metric alpha control nonControl (map f nonControl) first second"
  shows "leaders_apart math metric alpha control nonControl (map f nonControl) first second"
proof (cases "0 < vr_sampleSize first \<and> 0 < vr_sampleSize second")
  case True
  note unfold = top_two_separated_def leaders_apart_def
  show ?thesis
  proof (cases "standard_error math metric first second")
    case None
    then show ?thesis using assms True by (simp add: unfold)
  next
    case (Some se)
    show ?thesis
    proof (cases "0 < se")
      case pos: True
      let ?p = "snd (two_tailed math metric first second se)"
      have "holm_rejects (map f nonControl @ [?p]) alpha ?p"
        if "flag_at (applyHolmCorrection (map f nonControl @ [?p]) alpha) (Some (length nonControl))"
        using flag_index [OF that] by (simp add: nth_append)
      then show ?thesis
        using assms True Some pos flag_comparison [of f nonControl alpha]
        by (auto simp: unfold Let_def not_le split: if_splits)
    next
      case False
      then show ?thesis using assms True Some by (simp add: unfold not_less)
    qed
  qed
next
  case False
  then show ?thesis unfolding leaders_apart_def by blast
qed

lemma significant_family:
  assumes "analyzeStatisticalSignificance math results c hypothesis = Inr a" "sg_isSignificant a"
  shows "significant_comparison math (fst (pickMetric results hypothesis)) (snd (pickMetric results hypothesis))
           (dbl (1 - c)) results"
proof -
  let ?metric = "fst (pickMetric results hypothesis)" and ?direction = "snd (pickMetric results hypothesis)"
  let ?alpha = "dbl (1 - c)" and ?control = "hd results"
  let ?others = "filter (\<lambda>r. vr_variantId r \<noteq> vr_variantId ?control) results"
  let ?family = "map (pairwise_p math ?metric ?control) ?others"
  have size_ok: "2 \<le> length results" "length results \<le> 3"
    using assms(1) by (auto simp: analyzeStatisticalSignificance_def not_less split: if_splits)
  obtain treatment se where t: "test_group ?metric ?direction results ?control = Inr treatment"
      "vr_sampleSize ?control \<noteq> 0" "vr_sampleSize treatment \<noteq> 0"
      "standard_error math ?metric ?control treatment = Some se" "se \<noteq> 0"
    and res: "if length results > 2
      then flag_at (applyHolmCorrection ?family ?alpha) (findIndex (\<lambda>r. vr_variantId r = vr_variantId treatment) ?others) \<and>
        top_two_separated math ?metric ?alpha ?control ?others ?family
          (ranked ?metric ?direction results ! 0) (ranked ?metric ?direction results ! 1)
      else snd (two_tailed math ?metric ?control treatment se) < ?alpha"
    using assms size_ok
    by (auto simp: analyzeStatisticalSignificance_def insignificant_def Let_def
        split: if_splits sum.splits option.splits prod.splits)
  have "results \<noteq> []" using size_ok by auto
  note lead = test_group_leads [OF t(1) this]
  show ?thesis
  proof (cases "length results = 2")
    case True
    then show ?thesis
      using lead res t(2-) unfolding significant_comparison_def Let_def
      by (intro exI [of _ treatment]) (simp add: pairwise_p_def)
  next
    case False
    then have three: "3 \<le> length results" using size_ok by simp
    obtain first second rest where r: "ranked ?metric ?direction results = first # second # rest"
      "mset results = mset (first # second # rest)"
      "leads ?metric ?direction results first" "leads ?metric ?direction (second # rest) second"
      by (rule ranked_leads [OF three])
    have flag: "flag_at (applyHolmCorrection ?family ?alpha) (findIndex (\<lambda>r. vr_variantId r = vr_variantId treatment) ?others)"
      and apart: "top_two_separated math ?metric ?alpha ?control ?others ?family first second"
      using res three by (simp_all add: r(1))
    show ?thesis
      unfolding significant_comparison_def Let_def if_not_P [OF False]
      using lead r(2-) flag_comparison [OF flag] separated_apart [OF apart] by blast
  qed
qed

text \<open>What a declared winner implies.\<close>

definition evidence ::
  "js_math \<Rightarrow> (string \<Rightarrow> instant option) \<Rightarrow> (hypothesis_metadata \<Rightarrow> bool) \<Rightarrow> int \<Rightarrow> analyzed_test \<Rightarrow>
     variant_result list \<Rightarrow> test_analysis \<Rightarrow> string \<Rightarrow> bool" where
  "evidence math date_parse checksum_ok now t results a v =
     (let metric = fst (pickMetric results (at_hypothesis t));
          direction = snd (pickMetric results (at_hypothesis t));
          alpha = dbl (1 - at_confidenceThreshold t)
      in hypothesis_issue checksum_ok t = None \<and>
         (case present (at_endsAt t) of
            None \<Rightarrow> True
          | Some e \<Rightarrow> (case date_parse e of None \<Rightarrow> False | Some ends \<Rightarrow> ends \<le> now)) \<and>
         (case present (case at_launchAt t of Some l \<Rightarrow> Some l | None \<Rightarrow> at_startedAt t) of
            None \<Rightarrow> False
          | Some s \<Rightarrow> (case date_parse s of
              None \<Rightarrow> False
            | Some start \<Rightarrow> sp_minimumDurationHours (test_policy t) \<le> dbl (of_int (now - start) / 3600000))) \<and>
         list_all (\<lambda>r. sp_minimumSamplePerVariant (test_policy t) \<le> vr_sampleSize r) results \<and>
         (case ta_srm a of Some (passed, _) \<Rightarrow> passed | None \<Rightarrow> True) \<and>
         v \<in> fst ` set (at_variants t) \<and>
         (\<exists>r. vr_variantId r = v \<and> leads metric direction results r) \<and>
         significant_comparison math metric direction alpha results)"

text \<open>C19: A winner is declared only when the evidence is in.  If the analysis names a
  winner, its hypothesis, if any, was locked and verified; the end of the test, if it
  has one, and its minimum duration have passed; every variant has the minimum sample;
  the sample ratio check, if made, passed; the winner is a variant whose result no
  other result beats on the metric and in the direction registered; and the best
  treatment's comparison with the control is significant: of two variants its p-value
  is below the level; of three it is the one Holm's correction over the comparisons
  rejects, and the two leaders of the ranking are told apart as well.\<close>

theorem winner_needs_evidence:
  assumes "analyzeTest math date_parse checksum_ok now t (Inr results) = Inr a" and "ta_winner a = Some v"
  shows "evidence math date_parse checksum_ok now t results a v"
proof -
  let ?metric = "fst (pickMetric results (at_hypothesis t))" and ?direction = "snd (pickMetric results (at_hypothesis t))"
  let ?gate = "fixedHorizonGate date_parse (at_endsAt t) (case at_launchAt t of Some l \<Rightarrow> Some l | None \<Rightarrow> at_startedAt t)
    now (test_policy t) (map vr_sampleSize results)"
  let ?leads = "\<lambda>w. list_ex (\<lambda>r. vr_variantId r = fst w \<and> metric_rate ?metric r = best_rate ?metric ?direction results) results"
  obtain sig where sig: "analyzeStatisticalSignificance math results (at_confidenceThreshold t) (at_hypothesis t) = Inr sig"
      "sg_isSignificant sig"
    and gates: "hypothesis_issue checksum_ok t = None" "?gate = []"
      "case ta_srm a of Some (passed, _) \<Rightarrow> passed | None \<Rightarrow> True"
    and found: "map_option fst (List.find ?leads (at_variants t)) = Some v"
    using assms by (auto simp: analyzeTest_def Let_def split: option.splits sum.splits if_splits)
  obtain w where w: "List.find ?leads (at_variants t) = Some w" "fst w = v" using found by auto
  have "w \<in> set (at_variants t)" "?leads w" using find_Some_in [OF w(1)] by simp_all
  then obtain r where "r \<in> set results" "vr_variantId r = v" "metric_rate ?metric r = best_rate ?metric ?direction results"
    using w(2) by (auto simp: list_ex_iff)
  then have "\<exists>r. vr_variantId r = v \<and> leads ?metric ?direction results r" using best_rate_leads by blast
  moreover have "v \<in> fst ` set (at_variants t)" using \<open>w \<in> _\<close> w(2) by force
  ultimately show ?thesis
    using gates gate_nil [OF gates(2)] significant_family [OF sig]
    by (simp add: evidence_def Let_def list.pred_map o_def)
qed

text \<open>
  The comment on the gate lists a passed end of the test among the criteria that all
  must hold, but without an end date only the duration and the samples decide.
\<close>

lemma open_ended_gate:
  "fixedHorizonGate date_parse None startedAt now policy sizes = [] \<longleftrightarrow>
     (case present startedAt of None \<Rightarrow> False | Some s \<Rightarrow> (case date_parse s of None \<Rightarrow> False
        | Some t \<Rightarrow> sp_minimumDurationHours policy \<le> dbl (of_int (now - t) / 3600000))) \<and>
     filter (\<lambda>(i, s). s < sp_minimumSamplePerVariant policy) (enumerate 0 sizes) = []"
  by (auto simp: fixedHorizonGate_def present_def Let_def not_less split: option.splits if_splits)

text \<open>
  The leaders of a three-variant test count as separated when the comparison
  cannot be made: when more was counted than sent, the variance is negative, its
  square root is not a number, and different rates are enough.
\<close>

lemma leaders_unchecked:
  assumes "0 < vr_sampleSize first" "0 < vr_sampleSize second"
    and "standard_error math metric first second = None"
    and "dbl (metric_rate metric first / 100) \<noteq> dbl (metric_rate metric second / 100)"
  shows "top_two_separated math metric alpha control nonControl family first second"
  using assms by (simp add: top_two_separated_def)

subsection \<open>Examples\<close>

theorem holm_flags_definition_witness:
  "\<exists>h. applyHolmCorrection [3 / 100, 1 / 100, 4 / 100] (5 / 100) = Inr h \<and>
     significant h = map (holm_rejects [3 / 100, 1 / 100, 4 / 100] (5 / 100)) [3 / 100, 1 / 100, 4 / 100]"
proof -
  obtain h where h: "applyHolmCorrection [3 / 100, 1 / 100, 4 / 100] (5 / 100) = Inr h"
    by (cases "applyHolmCorrection [3 / 100, 1 / 100, 4 / 100] (5 / 100)")
      (simp_all add: applyHolmCorrection_def Let_def del: holm_walk.simps upt.simps)
  with holm_flags_definition [OF h] show ?thesis by blast
qed

text \<open>Rough approximations of the functions of \<open>Math\<close>.\<close>

definition example_math :: js_math where
  "example_math =
     \<lparr>m_sqrt = (\<lambda>x. if 1 \<le> x then 3 / 2 else 1 / 64), m_exp = (\<lambda>x. if x < -1 then 0 else 1 + x), m_cbrt = (\<lambda>x. x)\<rparr>"

definition example_result :: "string \<Rightarrow> rat \<Rightarrow> variant_result" where
  "example_result v clicks =
     \<lparr>vr_variantId = v, vr_sampleSize = 1024, vr_clicks = clicks, vr_conversions = 0, vr_revenue = None,
      vr_clickRate = clicks / 1024 * 100, vr_conversionRate = 0\<rparr>"

definition example_test :: analyzed_test where
  "example_test =
     \<lparr>at_confidenceThreshold = 95 / 100, at_hypothesis = None, at_durationHours = Some 48,
      at_minimumTestSampleSize = None, at_launchAt = None, at_startedAt = Some ''2026'', at_endsAt = Some ''2027'',
      at_manifestCounts = None, at_fullSplit = False, at_variants = [(''a'', 50), (''b'', 50)]\<rparr>"

definition example_year :: "string \<Rightarrow> instant option" where
  "example_year s = Some (int (nat_value s) * 31536000000)"

text \<open>The evaluation, in steps.\<close>

lemma dbl_one [simp]: "dbl 1 = 1"
  using dbl_of_int [of 1] by simp

lemma dbl_two [simp]: "dbl 2 = 2"
  using dbl_of_int [of 2] by simp

lemma erf_saturated: "m_exp math (dbl (- x * x)) = 0 \<Longrightarrow> 0 \<le> x \<Longrightarrow> erf math x = 1"
  by (simp add: erf_def Let_def)

lemma example_exp: "dbl (- (dbl (16 / (3 / 2))) * dbl (16 / (3 / 2))) < -1"
  by code_simp

lemma example_cdf: "standardNormalCDF example_math 16 = 1"
proof -
  have "erf example_math (dbl (16 / (3 / 2))) = 1"
    using example_exp by (intro erf_saturated) (simp_all add: example_math_def dbl_nonneg)
  moreover have "m_sqrt example_math 2 = 3 / 2" by (simp add: example_math_def)
  ultimately show ?thesis unfolding standardNormalCDF_def by (simp only:) simp
qed

abbreviation example_results :: "variant_result list" where
  "example_results \<equiv> [example_result ''a'' 256, example_result ''b'' 512]"

lemma example_z:
  "dbl (\<bar>dbl (dbl (metric_rate ClickRate (example_result ''a'' 256) / 100) -
     dbl (metric_rate ClickRate (example_result ''b'' 512) / 100))\<bar> / (1 / 64)) = 16"
  by code_simp

lemma example_steps:
  "standard_error example_math ClickRate (example_result ''a'' 256) (example_result ''b'' 512) = Some (1 / 64)"
  "fixedHorizonGate example_year (at_endsAt example_test) (at_startedAt example_test) 63923472000000
     (test_policy example_test) (map vr_sampleSize example_results) = []"
  "best_rate ClickRate Maximize example_results = 50"
  "test_group ClickRate Maximize example_results (example_result ''a'' 256) = Inr (example_result ''b'' 512)"
  "pickMetric example_results None = (ClickRate, Maximize)"
  by code_simp+

lemma example_p: "two_tailed example_math ClickRate (example_result ''a'' 256) (example_result ''b'' 512) (1 / 64) = (16, 0)"
  using example_z example_cdf by (simp add: two_tailed_def Let_def del: metric_rate.simps)

lemma example_fields:
  "vr_sampleSize (example_result v c) = 1024" "vr_clickRate (example_result v c) = c / 1024 * 100"
  "vr_variantId (example_result v c) = v" "at_hypothesis example_test = None" "at_launchAt example_test = None"
  "at_variants example_test = [(''a'', 50), (''b'', 50)]" "at_confidenceThreshold example_test = 95 / 100"
  "srm_expected example_test rs = None"
  by (simp_all add: example_result_def example_test_def srm_expected_def)

lemma tiny_level: "(2 :: rat) powi (- 1022) \<le> 1 - 95 / 100"
proof -
  have "(2 :: rat) powi (- 1022) \<le> 2 powi (- 5)" by (intro power_int_increasing) simp_all
  then show ?thesis by (simp add: power_int_minus)
qed

lemma example_significance:
  obtains sig where "analyzeStatisticalSignificance example_math example_results (95 / 100) None = Inr sig"
    "sg_isSignificant sig"
  using dbl_pos [of "1 - 95 / 100"] tiny_level
  by (simp add: analyzeStatisticalSignificance_def example_steps example_p example_fields Let_def)

lemma example_analysis:
  obtains a where "analyzeTest example_math example_year (\<lambda>_. True) 63923472000000 example_test (Inr example_results) = Inr a"
    "ta_winner a = Some ''b''"
proof -
  obtain sig where "analyzeStatisticalSignificance example_math example_results (95 / 100) None = Inr sig"
    "sg_isSignificant sig" by (rule example_significance)
  then show ?thesis
    using that example_steps(2)
    by (simp add: analyzeTest_def hypothesis_issue_def srm_outcome_def example_steps example_fields Let_def)
qed

theorem winner_needs_evidence_witness:
  "\<exists>a. evidence example_math example_year (\<lambda>_. True) 63923472000000 example_test example_results a ''b''"
proof -
  obtain a where a: "analyzeTest example_math example_year (\<lambda>_. True) 63923472000000 example_test (Inr example_results) = Inr a"
    "ta_winner a = Some ''b''" by (rule example_analysis)
  show ?thesis using winner_needs_evidence [OF a] by blast
qed

end
