(* ===== verification/Spec2Isabelle.thy ===== *)
theory Spec2Isabelle
  imports
    Transactional_History
    Sequence_Properties
    Network_Properties
    Delivery_Properties
    Lock_Properties
    Abtest_Properties
    Stratification_Properties
    Lifecycle_Properties
    Workflow_Properties
    Collision_Properties
    Segment_Drift_Properties
    Template_Properties
    Hygiene_Properties
    Subscriber_Bulk
    Statistics_Properties
begin

section \<open>Listmonk operations: a verification development\<close>

text \<open>
  The program operates a Listmonk installation from a command line and from an MCP
  server.  What it keeps on disk and what it sends are the subject of this development:
  transactional sends that must not happen twice, sequences of messages to subscribers,
  outbound webhooks with retries, and the audit of operations.

  \<^bold>\<open>Parts.\<close>

  \<^item> \<^verbatim>\<open>packages/common/src/json-file-store.ts\<close>: a JSON document in a file, read, checked and
    replaced under an exclusive lock.  Every persisted component goes through
    \<open>updateJsonFileStore\<close>.  Theory \<open>Json_File_Store\<close>; the lock files and their recovery are
    a state machine of their own in \<open>File_Lock\<close>, \<open>Lock_Invariant\<close> and \<open>Lock_Properties\<close>.

  \<^item> \<^verbatim>\<open>packages/common/src/transactional-idempotency-store.ts\<close>: one record per idempotency
    key; claim, commit and release.  Theories \<open>Idempotency_Interface\<close> (the interface
    the callers rely on, the locale \<open>idempotency_store\<close>) and \<open>Transactional_Store\<close> (the
    document, and its interpretation of the locale).

  \<^item> \<^verbatim>\<open>packages/operations/src/transactional.ts\<close> and
    \<^verbatim>\<open>packages/operations/src/transactional-idempotency.ts\<close>: the send operation, which claims its
    key, dispatches to Listmonk and settles.  Theories \<open>Stable_Json\<close> (the text that is
    hashed), \<open>Transactional_Send\<close> (headers, error classes), \<open>Transactional_Operation\<close>
    (the operation), \<open>Transactional_Concurrency\<close> (several processes interleaved between
    the awaits of the code), \<open>Transactional_Properties\<close> and \<open>Transactional_History\<close>.

  \<^item> \<^verbatim>\<open>packages/automation/src/sequences.ts\<close>: sequence definitions, enrollments, the claims of
    workers.  Theories \<open>Sequence_Model\<close> (data, schemas, topology), \<open>Sequence_Repository\<close>
    (the methods of \<open>createFileSequenceRepository\<close>), \<open>Sequence_Validity\<close>,
    \<open>Sequence_Invariant\<close> and \<open>Sequence_System\<close> (the invariant over any history).

  \<^item> \<^verbatim>\<open>packages/automation/src/sequence-engine.ts\<close>: a tick claims due enrollments, executes one
    step of each and completes the claims; a send step calls the send operation under a
    key of enrollment, revision and step.  Theories \<open>Sequence_Engine\<close>,
    \<open>Sequence_Progress\<close> (what a step leads to), \<open>Sequence_Completion\<close> (what of it reaches
    the store), \<open>Sequence_Tick\<close>, \<open>Sequence_Delivery\<close>, \<open>Sequence_Properties\<close>.

  \<^item> \<^verbatim>\<open>packages/automation/src/outbound-webhooks.ts\<close>: endpoints, the outbox of deliveries, leases,
    the circuit breaker of an endpoint, maintenance, health, signing and dispatch.
    Theories \<open>Webhook_Model\<close> (data, schemas, redaction), \<open>Webhook_Outbox\<close> and
    \<open>Webhook_Lease\<close> (the repository), \<open>Webhook_Dispatch\<close> (delivery and the dispatch
    loop), \<open>Webhook_Invariant\<close> and \<open>Webhook_System\<close> (the invariant over any history),
    \<open>Webhook_Queue\<close>, \<open>Webhook_Properties\<close>, \<open>Delivery_Properties\<close>.

  \<^item> \<^verbatim>\<open>packages/automation/src/campaign.ts\<close>, its network policy, which the webhooks consult, and
    \<^verbatim>\<open>packages/automation/src/webhook-transport.ts\<close>, its fallback over addresses.  Theories
    \<open>Network_Policy\<close>, \<open>Network_Properties\<close> and \<open>Webhook_Dispatch\<close>.

  \<^item> \<^verbatim>\<open>packages/common/src/operation-audit.ts\<close>, and the functions of the webhooks that project
    an audited execution into the outbox.  Theory \<open>Operation_Audit\<close>.

  \<^item> \<^verbatim>\<open>packages/abtest/src\<close>: experiments on mailings.  \<open>audience.ts\<close> resolves the subscribers of
    the source lists (theory \<open>Abtest_Audience\<close>), \<open>allocation.ts\<close> divides a number of
    recipients among groups (\<open>Abtest_Allocation\<close>, over the doubles of \<open>Js_Double\<close>),
    \<open>assignment.ts\<close> ranks the members and builds the manifest of the groups
    (\<open>Abtest_Assignment\<close>, \<open>Abtest_Properties\<close>), \<open>stratification.ts\<close> computes quotas per
    mail provider (\<open>Abtest_Stratification\<close>, \<open>Stratification_Margins\<close>,
    \<open>Stratification_Limits\<close>, \<open>Stratification_Properties\<close>), and \<open>lifecycle.ts\<close> cancels the
    campaigns and lists of an experiment (\<open>Abtest_Lifecycle\<close>, \<open>Lifecycle_Properties\<close>).
    The transactions of the store by which an experiment is launched, run, stopped and
    its winner deployed, in \<open>factory.ts\<close>, \<open>abtest-service.ts\<close> and \<open>operations.ts\<close>, are
    \<open>Abtest_Workflow\<close>, with \<open>Workflow_Invariant\<close> and \<open>Workflow_Properties\<close>;
    \<open>statistics.ts\<close> and the analysis are \<open>Abtest_Statistics\<close> and
    \<open>Statistics_Properties\<close>; \<open>collision.ts\<close>, which keeps a subscriber out of too many
    experiments at once, is \<open>Collision_Guard\<close> and \<open>Collision_Properties\<close>.

  \<^item> \<^verbatim>\<open>packages/automation/src/segment-drift.ts\<close>: samples of the sizes of lists, kept in a
    document with the results of keyed samples.  Theories \<open>Automation_Core\<close>,
    \<open>Segment_Drift\<close>, \<open>Segment_Drift_Properties\<close>.

  \<^item> \<^verbatim>\<open>packages/automation/src/template-registry.ts\<close>: versions of the mail templates, their
    promotion and rollback.  A promotion whose file was written but whose lock could not
    be released reports that the store is changed (\<open>saving\<close>).  Theories
    \<open>Template_Registry\<close>, \<open>Template_Properties\<close>.

  \<^item> \<^verbatim>\<open>packages/automation/src/hygiene.ts\<close> and
    \<^verbatim>\<open>packages/operations/src/subscriber-bulk.ts\<close>: changes of many subscribers, reviewed by a
    dry run or sent in chunks.  Theories \<open>Subscriber_Hygiene\<close>, \<open>Hygiene_Properties\<close>,
    \<open>Subscriber_Bulk\<close>.

  \<^bold>\<open>Interfaces.\<close>  \<open>op_system\<close> (\<open>Ops_Prelude\<close>): operations that keep an invariant;
  interpreted by the idempotency store, the sequence repository and the webhook
  repository, each over its file and with every input/output fault, and by the
  collision guard, the segment drift, the template registry and the workflow of the
  experiments, so the invariant holds after any history of calls.  \<open>idempotency_store\<close>: what a claim returns after
  commits and releases; the at-most-once theorem of concurrent senders is proved from it
  and instantiated with the file-backed store.  \<open>lease_queue\<close> (\<open>Lease_Queue\<close>): claims
  with tokens and expiries; interpreted by the sequence repository and by the webhook
  outbox, which both inherit that a leased item is handed to nobody else.

  \<^bold>\<open>Conventions.\<close>  A document is the value its file holds, \<open>None\<close> when there is no file.
  A repository method is the callback it passes to \<open>updateJsonFileStore\<close>, a function from
  the document to an error or the next document with a result; a step applies it to the
  file under an \<open>io_env\<close>, the outcomes of lock, read, write and release.  A thrown error or
  rejected promise is \<open>Inl\<close>.  Dates are instants in milliseconds; the program compares
  ISO texts, and for the years 0 to 9999, which the schemas enforce (\<open>iso_ok\<close>), the order
  of the texts written by \<open>toISOString\<close> is that of the instants.  Identifiers are strings,
  the random ones arguments.  A JavaScript number option that the code checks with
  \<open>Number.isInteger\<close> is a \<open>js_number\<close>.  IPv4 addresses are 32-bit words.  Strings are
  lists of characters of one code unit up to 255.  JSON numbers are integers.  Where the
  code computes with fractions or large counts, \<open>dbl\<close> (\<open>Js_Double\<close>) rounds to the nearest
  double, ties to even, with subnormals below \<open>2 ^ -1022\<close> and overflow to infinity; the
  expiry of an idempotency record is such a sum, and \<open>isIsoTimestampValue\<close> refuses a record
  whose dates have no four-digit year.

  Parameters stand for what is outside the sources or is the platform's: the URL parser,
  \<open>isIP\<close>, HMAC and SHA-256, the text and the parser of dates, the mailbox grammar, the
  answers of Listmonk, of DNS and of HTTP endpoints.

  \<^bold>\<open>What the lemmas show.\<close>  The idempotency store refines a map from keys to unexpired
  records, and concurrent senders deliver each key at most once per window.  The
  documents are valid after any history.  Leases exclude other workers.  An execution of
  an enrollment under its lease stores a step of progress, and a bounded number of
  executions do.  The circuit of an endpoint is the one its recent attempts determine;
  the outbox stays within its capacity and loses no delivery that is still due; a
  dispatch run ends, respects its limit and accounts for what it claimed; its requests
  stay on public addresses and verify at the receiver.  Updates under the file lock are
  atomic in any interleaving, which is what the model of \<open>updateJsonFileStore\<close> as one step
  rests on, as long as the recovery sentinel is neither orphaned nor stuck.  The resolved
  audience of an experiment is the enabled subscribers of its lists, the manifest
  partitions it, the sizes of the groups are exact, and whatever the client answers a
  cancellation deletes no list of a surviving campaign.  An experiment is launched for
  one window, its status only advances, a stopped one makes no request, a winner is
  declared on evidence only, and no subject is in more experiments than the limit.
  A committed drift sample is final.  Template versions are never rewritten and the
  promoted version is the one Listmonk was given.  A hygiene run changes only reviewed
  subscribers, and a bulk operation accounts for every one.

  \<^bold>\<open>Faults found.\<close>  \<open>sentinel_race_loses_update\<close>: when a process dies inside the lock and
  another while it owns the sentinel, two tasks enter the lock together and an update is
  lost.  \<open>last_retry_rejected\<close>: an error text one prefix too long keeps an enrollment
  claimed for ever.  \<open>odd_status_never_completes\<close>: an HTTP status outside 100 to 599 makes
  the completion of a delivery throw.  \<open>correction_falls_short\<close>: the greedy correction of
  the quotas misses a solution, or leaves a cell below its floor.  \<open>fully_cleaned_report\<close>: a
  campaign that could not be observed counts as cleaned.  \<open>winner_deployment_gaps\<close>: the
  start of the winner's campaign may fail unnoticed, or be repeated.
  \<open>unnamed_template_refused\<close>: an unnamed template is never promoted without force.
  \<open>refused_mutations_processed\<close>: a mutation Listmonk refused is counted as processed.
  \<open>leaders_unchecked\<close>: a standard error that is not a number skips the comparison of the
  two leaders.  \<open>open_ended_gate\<close>: a test without an end passes the gate that should wait
  for it.  \<open>committed_sample_final\<close>: another request under a committed key is refused,
  although a comment says it takes the normal path.

  \<^bold>\<open>Bounds and termination.\<close>  There is no fuel.  The dispatch loop is a function with a
  termination proof: each round claims at least one of the at most 100 deliveries of the
  limit, or ends.  Reading a list ends after \<open>maxPages\<close> = 10000 pages, as in the code.  The
  column correction has the bound \<open>maxIterations\<close> of the code, an argument of the
  recursion.  The allocation theorem holds for up to \<open>10 ^ 12\<close> recipients, a thousand
  groups and weights between \<open>2 ^ -500\<close> and \<open>2 ^ 500\<close>, where no intermediate result
  overflows or underflows and the error stays below one eighth of a seat; beyond them the
  definitions still follow the code, which may overflow and throw.  The claim loop and the
  execution of a step are structural.  The batches of \<open>Promise.all\<close> run in list order;
  their effects on the stores are atomic updates, and the interleavings of those are the
  subject of \<open>lease_queue\<close> and \<open>send_step\<close>.

  \<^bold>\<open>Not modelled.\<close>  The worker loops with timers, signals and heartbeats; the Postgres
  repositories, whose statements a database server executes; the socket client of the
  transport; host objects other than JSON data in payload hashing and redaction (dates,
  cycles, functions).  Of the experiments, the phases of a create before its campaigns
  exist, deleting a test, previews, listings and reports, the store adapters, the
  collection of metrics and the conversion events.  The provider doctor, the campaign
  preflight and the digest; the command line, the MCP server, the operation catalogue
  and its schemas; the generated API client; scripts.
\<close>

end
